(* ===== verification/Prelude.thy ===== *)
theory Prelude
  imports Main "HOL-Library.Char_ord" "HOL-Library.List_Lexorder"
begin

text \<open>
  Shared vocabulary of the Strategy Lab v2 development: Python exceptions as values, guard
  sequences, timezone-aware datetimes, the string operations the contracts use, and the locale of
  machines that serve requests.

  \<^item> A Python call that may raise returns \<open>'a result\<close>, that is \<open>py_error + 'a\<close>, with the
    exception class and its message on the left. \<open>KeyError\<close> is a failed dictionary lookup and
    \<open>AssertionError\<close> a failed \<open>assert\<close>; the source never reads their text.
  \<^item> \<open>raising [(b1, m1), (b2, m2), ...] k\<close> is the Python sequence
    \<open>if b1: raise ValueError(m1)\<close>, \<open>if b2: raise ValueError(m2)\<close>, ..., then \<open>k\<close>.
  \<^item> A Python \<open>datetime\<close> argument is \<open>Naive w\<close> (no tzinfo; \<open>w\<close> is the wall-clock reading) or
    \<open>Aware i z\<close>: the instant \<open>i\<close>, in microseconds since 1970-01-01T00:00Z, seen at UTC offset
    \<open>z\<close>. Stored fields are normalised by \<open>astimezone(UTC)\<close>, so they are plain instants.
    Instants are unbounded integers: the OverflowError that datetime arithmetic raises before
    year 1 and after year 9999 is not modelled.
  \<^item> A Python \<open>timedelta\<close> is its length in microseconds.
  \<^item> A Python \<open>str\<close> is a \<open>string\<close> whose characters are the code points U+0000 to U+00FF.
  \<^item> The checks \<open>isinstance(...)\<close> of the source are discharged by typing: a value of another
    Python type is not an argument of the model's functions.
\<close>

named_theorems contract_simps \<open>unfolding rules for successful constructor and operation calls\<close>

section \<open>Exceptions as values\<close>

datatype py_error = ValueError string | TypeError string | KeyError | AssertionError

type_synonym 'a result = "py_error + 'a"

fun rbind :: "'a result \<Rightarrow> ('a \<Rightarrow> 'b result) \<Rightarrow> 'b result" where
  "rbind (Inl e) f = Inl e"
| "rbind (Inr x) f = f x"

fun raising :: "(bool \<times> string) list \<Rightarrow> 'a result \<Rightarrow> 'a result" where
  "raising [] k = k"
| "raising ((b, m) # cs) k = (if b then Inl (ValueError m) else raising cs k)"

lemma rbind_eq_Inr [simp, contract_simps]: "rbind m f = Inr r \<longleftrightarrow> (\<exists>x. m = Inr x \<and> f x = Inr r)"
  by (cases m) auto

lemma raising_eq_Inr [contract_simps]:
  "raising ((b, m) # cs) k = Inr r \<longleftrightarrow> \<not> b \<and> raising cs k = Inr r"
  "raising [] k = Inr r \<longleftrightarrow> k = Inr r"
  by (auto simp: raising.simps)

declare raising.simps [simp del]

lemma raising_append: "raising (cs @ ds) k = raising cs (raising ds k)"
  by (induction cs) (auto simp: raising.simps)

lemma raising_Inr_iff: "raising cs k = Inr r \<longleftrightarrow> list_all (\<lambda>(b, m). \<not> b) cs \<and> k = Inr r"
  by (induction cs) (auto simp: raising.simps split: if_splits)

lemma raising_Inl_cases:
  "raising cs k = Inl e \<Longrightarrow> (\<exists>m. (True, m) \<in> set cs \<and> e = ValueError m) \<or> k = Inl e"
  by (induction cs) (auto simp: raising.simps split: if_splits)

text \<open>A call that only raises \<open>ValueError\<close>, with a message: what an \<open>except ValueError as exc\<close> handler
  that reports \<open>str(exc)\<close> relies on.\<close>

definition clean :: "'a result \<Rightarrow> bool" where
  "clean r \<longleftrightarrow> (\<forall>e. r = Inl e \<longrightarrow> (\<exists>m. m \<noteq> [] \<and> e = ValueError m))"

lemma clean_Inr [simp]: "clean (Inr x)"
  by (simp add: clean_def)

lemma clean_raising [simp]: "list_all (\<lambda>(b, m). m \<noteq> []) cs \<Longrightarrow> clean k \<Longrightarrow> clean (raising cs k)"
proof (induction cs)
  case (Cons c cs)
  then show ?case by (cases c) (auto simp: raising.simps, simp add: clean_def)
qed (simp add: raising.simps)

lemma clean_rbind: "clean m \<Longrightarrow> (\<And>x. m = Inr x \<Longrightarrow> clean (f x)) \<Longrightarrow> clean (rbind m f)"
  by (cases m) (auto simp: clean_def)

text \<open>\<open>except (TypeError, ValueError) as error\<close>, with \<open>str(error)\<close> given to the handler; other exceptions pass.\<close>

fun caught :: "'a result \<Rightarrow> (string \<Rightarrow> 'b result) \<Rightarrow> ('a \<Rightarrow> 'b result) \<Rightarrow> 'b result" where
  "caught (Inr x) handler f = f x"
| "caught (Inl (ValueError m)) handler f = handler m"
| "caught (Inl (TypeError m)) handler f = handler m"
| "caught (Inl e) handler f = Inl e"

section \<open>Time\<close>

type_synonym instant = int
type_synonym timedelta = int

datatype datetime = Naive int | Aware instant int

fun with_aware :: "datetime \<Rightarrow> string \<Rightarrow> (instant \<Rightarrow> 'a result) \<Rightarrow> 'a result" where
  "with_aware (Naive w) m f = Inl (ValueError m)"
| "with_aware (Aware i z) m f = f i"

text \<open>Comparing a naive with an aware datetime raises TypeError in Python.\<close>

fun compared :: "datetime \<Rightarrow> (instant \<Rightarrow> 'a result) \<Rightarrow> 'a result" where
  "compared (Naive w) f = Inl (TypeError ''can't compare offset-naive and offset-aware datetimes'')"
| "compared (Aware i z) f = f i"

definition utc :: "instant \<Rightarrow> datetime" where
  "utc i = Aware i 0"

lemma with_aware_eq_Inr [contract_simps]:
  "with_aware d m f = Inr r \<longleftrightarrow> (\<exists>i z. d = Aware i z \<and> f i = Inr r)"
  by (cases d) auto

lemma compared_eq_Inr [contract_simps]:
  "compared d f = Inr r \<longleftrightarrow> (\<exists>i z. d = Aware i z \<and> f i = Inr r)"
  by (cases d) auto

lemma with_aware_utc [simp]: "with_aware (utc i) m f = f i"
  by (simp add: utc_def)

lemma compared_utc [simp]: "compared (utc i) f = f i"
  by (simp add: utc_def)

text \<open>An optional datetime argument, checked and normalised only when it is given.\<close>

fun with_aware_opt :: "datetime option \<Rightarrow> string \<Rightarrow> (instant option \<Rightarrow> 'a result) \<Rightarrow> 'a result" where
  "with_aware_opt None m f = f None"
| "with_aware_opt (Some d) m f = with_aware d m (\<lambda>i. f (Some i))"

lemma with_aware_opt_eq_Inr [contract_simps]:
  "with_aware_opt d m f = Inr r \<longleftrightarrow>
     (d = None \<and> f None = Inr r) \<or> (\<exists>i z. d = Some (Aware i z) \<and> f (Some i) = Inr r)"
  by (cases d) (auto simp: with_aware_eq_Inr)

lemma with_aware_opt_utc [simp]: "with_aware_opt (map_option utc t) m f = f t"
  by (cases t) simp_all

section \<open>Strings\<close>

text \<open>\<open>str.isspace\<close> on U+0000 to U+00FF, and \<open>str.strip\<close> with no argument.\<close>

definition py_space :: "char \<Rightarrow> bool" where
  "py_space c = (let n = (of_char c :: nat)
     in 9 \<le> n \<and> n \<le> 13 \<or> 28 \<le> n \<and> n \<le> 32 \<or> n = 133 \<or> n = 160)"

definition strip :: "string \<Rightarrow> string" where
  "strip s = rev (dropWhile py_space (rev (dropWhile py_space s)))"

definition blank :: "string \<Rightarrow> bool" where
  "blank s \<longleftrightarrow> strip s = []"

lemma blank_iff: "blank s \<longleftrightarrow> (\<forall>c \<in> set s. py_space c)"
proof -
  have "strip s = [] \<longleftrightarrow> (\<forall>c \<in> set (dropWhile py_space s). py_space c)"
    by (simp add: strip_def dropWhile_eq_Nil_conv)
  also have "\<dots> \<longleftrightarrow> (\<forall>c \<in> set s. py_space c)"
    by (metis (no_types, lifting) dropWhile_eq_Nil_conv hd_dropWhile list.set_sel(1) set_dropWhileD)
  finally show ?thesis by (simp add: blank_def)
qed

lemma not_blank_nonempty: "\<not> blank s \<Longrightarrow> s \<noteq> []"
  by (auto simp: blank_iff)

text \<open>\<open>not reason\<close> of an optional string, and Python's \<open>reason or fallback\<close>.\<close>

definition no_reason :: "string option \<Rightarrow> bool" where
  "no_reason r \<longleftrightarrow> r = None \<or> r = Some []"

definition reason_or :: "string option \<Rightarrow> string \<Rightarrow> string" where
  "reason_or reason fallback = (if no_reason reason then fallback else the reason)"

lemma reason_or_nonempty: "d \<noteq> [] \<Longrightarrow> reason_or r d \<noteq> []"
  by (auto simp: reason_or_def no_reason_def)

function int_digits :: "int \<Rightarrow> string" where
  "int_digits n =
     (if n < 10 then [char_of (48 + n)] else int_digits (n div 10) @ [char_of (48 + n mod 10)])"
  by pat_completeness auto
termination
  by (relation "measure nat") auto

declare int_digits.simps [simp del]

text \<open>\<open>str(i)\<close> for a Python int.\<close>

definition int_str :: "int \<Rightarrow> string" where
  "int_str i = (if i < 0 then ''-'' @ int_digits (- i) else int_digits i)"

lemma of_char_int_nonneg: "0 \<le> (of_char c :: int)"
  by (metis of_nat_0_le_iff of_nat_of_char)

section \<open>Lists\<close>

lemma find_mem: "find P xs = Some x \<Longrightarrow> x \<in> set xs \<and> P x"
  by (auto simp: find_Some_iff)

lemma find_unique:
  assumes "x \<in> set xs" "P x" "\<And>y. y \<in> set xs \<Longrightarrow> P y \<Longrightarrow> y = x"
  shows "find P xs = Some x"
proof (cases "find P xs")
  case None
  with assms(1,2) show ?thesis by (simp add: find_None_iff)
next
  case (Some y)
  from find_mem [OF Some] have "y = x" using assms(3) by blast
  with Some show ?thesis by simp
qed

lemma sorted_map_last: "sorted (map f xs) \<Longrightarrow> x \<in> set xs \<Longrightarrow> f x \<le> f (last xs)"
  by (induction xs) auto

text \<open>\<open>min(xs, key=f)\<close> is \<open>arg_min_list f xs\<close>, the first element with the least key.\<close>

lemma arg_min_list_le: "x \<in> set xs \<Longrightarrow> f (arg_min_list f xs) \<le> f x"
  using f_arg_min_list_f [of xs f] by (cases xs) auto

lemma arg_min_list_set:
  assumes "set xs = set ys" "inj_on f (set xs)"
  shows "arg_min_list f xs = arg_min_list f ys"
proof (cases "xs = []")
  case True
  with assms(1) show ?thesis by simp
next
  case False
  then have ne: "ys \<noteq> []" using assms(1) by auto
  have "f (arg_min_list f xs) = f (arg_min_list f ys)"
    using f_arg_min_list_f [OF False, of f] f_arg_min_list_f [OF ne, of f] assms(1) by simp
  with assms arg_min_list_in [OF False, of f] arg_min_list_in [OF ne, of f] show ?thesis
    by (auto dest: inj_onD)
qed

section \<open>Serving a sequence of requests\<close>

text \<open>The contracts are immutable: an operation returns a new state or raises, and a caller whose
  request raises keeps the state it had. \<open>serve step rs s\<close> is the state after the requests \<open>rs\<close>,
  and the locale states what one step must keep for every sequence of requests to keep it: an
  invariant, and a preorder along which the state only moves forward.\<close>

definition served :: "('r \<Rightarrow> 's \<Rightarrow> 's result) \<Rightarrow> 'r \<Rightarrow> 's \<Rightarrow> 's" where
  "served step r s = (case step r s of Inl e \<Rightarrow> s | Inr s' \<Rightarrow> s')"

fun serve :: "('r \<Rightarrow> 's \<Rightarrow> 's result) \<Rightarrow> 'r list \<Rightarrow> 's \<Rightarrow> 's" where
  "serve step [] s = s"
| "serve step (r # rs) s = serve step rs (served step r s)"

lemma serve_append: "serve step (rs @ qs) s = serve step qs (serve step rs s)"
  by (induction rs arbitrary: s) simp_all

locale guarded_machine =
  fixes step :: "'r \<Rightarrow> 's \<Rightarrow> 's result"
    and inv :: "'s \<Rightarrow> bool"
    and le :: "'s \<Rightarrow> 's \<Rightarrow> bool"
  assumes step_inv: "inv s \<Longrightarrow> step r s = Inr s' \<Longrightarrow> inv s'"
    and step_le: "inv s \<Longrightarrow> step r s = Inr s' \<Longrightarrow> le s s'"
    and le_refl: "le s s"
    and le_trans: "le s t \<Longrightarrow> le t u \<Longrightarrow> le s u"
begin

lemma served_inv: "inv s \<Longrightarrow> inv (served step r s)"
  by (auto simp: served_def step_inv split: sum.splits)

lemma served_le: "inv s \<Longrightarrow> le s (served step r s)"
  by (auto simp: served_def step_le le_refl split: sum.splits)

lemma serve_inv: "inv s \<Longrightarrow> inv (serve step rs s)"
  by (induction rs arbitrary: s) (auto simp: served_inv)

lemma serve_le: "inv s \<Longrightarrow> le s (serve step rs s)"
proof (induction rs arbitrary: s)
  case (Cons r rs)
  have "le s (served step r s)" using Cons.prems by (rule served_le)
  moreover have "le (served step r s) (serve step rs (served step r s))"
    using Cons.prems by (intro Cons.IH served_inv)
  ultimately show ?case by (auto intro: le_trans)
qed (simp add: le_refl)

lemma serve_later: "inv s \<Longrightarrow> le (serve step rs s) (serve step (rs @ qs) s)"
  by (simp add: serve_append serve_le serve_inv)

end

end
