(* ===== verification/Sha256.thy ===== *)
theory Sha256
  imports Prelude "HOL-Library.Word"
begin

text \<open>
  The part of Python's \<open>hashlib\<close> that the platform uses: \<open>hashlib.sha256(b).hexdigest()\<close>, written
  out from FIPS 180-4 on 32-bit words, and \<open>str.encode("utf-8")\<close> on the code points U+0000 to
  U+00FF. The lemma \<open>sha256_hex_shape\<close> is what every content address relies on: the digest is 64
  hexadecimal digits.
\<close>

unbundle bit_operations_syntax

type_synonym w32 = "32 word"

definition utf8_char :: "char \<Rightarrow> int list" where
  "utf8_char c = (let n = of_char c
     in if n < 128 then [n] else [192 + n div 64, 128 + n mod 64])"

definition utf8_encode :: "string \<Rightarrow> int list" where
  "utf8_encode s = concat (map utf8_char s)"

definition rotr :: "nat \<Rightarrow> w32 \<Rightarrow> w32" where
  "rotr n x = (drop_bit n x OR push_bit (32 - n) x)"

definition sha_Ch :: "w32 \<Rightarrow> w32 \<Rightarrow> w32 \<Rightarrow> w32" where
  "sha_Ch x y z = ((x AND y) XOR (NOT x AND z))"

definition sha_Maj :: "w32 \<Rightarrow> w32 \<Rightarrow> w32 \<Rightarrow> w32" where
  "sha_Maj x y z = ((x AND y) XOR (x AND z) XOR (y AND z))"

definition sha_S0 :: "w32 \<Rightarrow> w32" where
  "sha_S0 x = (rotr 2 x XOR rotr 13 x XOR rotr 22 x)"

definition sha_S1 :: "w32 \<Rightarrow> w32" where
  "sha_S1 x = (rotr 6 x XOR rotr 11 x XOR rotr 25 x)"

definition sha_s0 :: "w32 \<Rightarrow> w32" where
  "sha_s0 x = (rotr 7 x XOR rotr 18 x XOR drop_bit 3 x)"

definition sha_s1 :: "w32 \<Rightarrow> w32" where
  "sha_s1 x = (rotr 17 x XOR rotr 19 x XOR drop_bit 10 x)"

definition sha_K :: "w32 list" where
  "sha_K = [
    1116352408, 1899447441, 3049323471, 3921009573, 961987163, 1508970993, 2453635748, 2870763221,
    3624381080, 310598401, 607225278, 1426881987, 1925078388, 2162078206, 2614888103, 3248222580,
    3835390401, 4022224774, 264347078, 604807628, 770255983, 1249150122, 1555081692, 1996064986,
    2554220882, 2821834349, 2952996808, 3210313671, 3336571891, 3584528711, 113926993, 338241895,
    666307205, 773529912, 1294757372, 1396182291, 1695183700, 1986661051, 2177026350, 2456956037,
    2730485921, 2820302411, 3259730800, 3345764771, 3516065817, 3600352804, 4094571909, 275423344,
    430227734, 506948616, 659060556, 883997877, 958139571, 1322822218, 1537002063, 1747873779,
    1955562222, 2024104815, 2227730452, 2361852424, 2428436474, 2756734187, 3204031479, 3329325298]"

type_synonym sha_state = "w32 \<times> w32 \<times> w32 \<times> w32 \<times> w32 \<times> w32 \<times> w32 \<times> w32"

definition sha_init :: sha_state where
  "sha_init = (1779033703, 3144134277, 1013904242, 2773480762,
               1359893119, 2600822924, 528734635, 1541459225)"

text \<open>The message schedule keeps the last sixteen words, oldest first.\<close>

definition sha_next :: "w32 list \<Rightarrow> w32" where
  "sha_next w = sha_s1 (w ! 14) + w ! 9 + sha_s0 (w ! 1) + w ! 0"

fun sha_round :: "sha_state \<Rightarrow> w32 \<Rightarrow> w32 \<Rightarrow> sha_state" where
  "sha_round (a, b, c, d, e, f, g, h) k w =
     (let t1 = h + sha_S1 e + sha_Ch e f g + k + w;
          t2 = sha_S0 a + sha_Maj a b c
      in (t1 + t2, a, b, c, d + t1, e, f, g))"

fun sha_rounds :: "w32 list \<Rightarrow> w32 list \<Rightarrow> sha_state \<Rightarrow> sha_state" where
  "sha_rounds [] w s = s"
| "sha_rounds (k # ks) w s = sha_rounds ks (tl w @ [sha_next w]) (sha_round s k (hd w))"

fun sha_add :: "sha_state \<Rightarrow> sha_state \<Rightarrow> sha_state" where
  "sha_add (a, b, c, d, e, f, g, h) (a', b', c', d', e', f', g', h') =
     (a + a', b + b', c + c', d + d', e + e', f + f', g + g', h + h')"

definition sha_compress :: "sha_state \<Rightarrow> w32 list \<Rightarrow> sha_state" where
  "sha_compress s w = sha_add s (sha_rounds sha_K w s)"

fun sha_words :: "int list \<Rightarrow> w32 list" where
  "sha_words (a # b # c # d # bs) =
     word_of_int (((a * 256 + b) * 256 + c) * 256 + d) # sha_words bs"
| "sha_words bs = []"

text \<open>Padding: one bit, zeros up to 56 modulo 64 bytes, the bit length as eight bytes.\<close>

fun be_bytes :: "nat \<Rightarrow> int \<Rightarrow> int list" where
  "be_bytes 0 n = []"
| "be_bytes (Suc k) n = be_bytes k (n div 256) @ [n mod 256]"

definition sha_pad :: "int list \<Rightarrow> int list" where
  "sha_pad bs = (let l = length bs
     in bs @ [128] @ replicate ((119 - l mod 64) mod 64) 0 @ be_bytes 8 (8 * int l))"

fun sha_blocks :: "sha_state \<Rightarrow> w32 list \<Rightarrow> sha_state" where
  "sha_blocks s ws =
     (if ws = [] then s else sha_blocks (sha_compress s (take 16 ws)) (drop 16 ws))"

declare sha_blocks.simps [simp del]

definition hex_digit :: "int \<Rightarrow> char" where
  "hex_digit n = char_of (if n < 10 then 48 + n else 87 + n)"

fun hex_of :: "nat \<Rightarrow> int \<Rightarrow> string" where
  "hex_of 0 n = []"
| "hex_of (Suc k) n = hex_of k (n div 16) @ [hex_digit (n mod 16)]"

fun sha_hex :: "sha_state \<Rightarrow> string" where
  "sha_hex (a, b, c, d, e, f, g, h) =
     concat (map (\<lambda>x. hex_of 8 (uint x)) [a, b, c, d, e, f, g, h])"

definition sha256_hex :: "int list \<Rightarrow> string" where
  "sha256_hex bs = sha_hex (sha_blocks sha_init (sha_words (sha_pad bs)))"

section \<open>Shape of the digest\<close>

definition is_hex :: "char \<Rightarrow> bool" where
  "is_hex c = (let n = (of_char c :: int)
     in 48 \<le> n \<and> n \<le> 57 \<or> 97 \<le> n \<and> n \<le> 102 \<or> 65 \<le> n \<and> n \<le> 70)"

lemma length_hex_of [simp]: "length (hex_of k n) = k"
  by (induction k arbitrary: n) auto

lemma hex_digit_is_hex: "0 \<le> n \<Longrightarrow> n < 16 \<Longrightarrow> is_hex (hex_digit n)"
  by (auto simp: hex_digit_def is_hex_def Let_def of_char_of)

lemma hex_of_is_hex: "c \<in> set (hex_of k n) \<Longrightarrow> is_hex c"
  by (induction k arbitrary: n) (auto simp: hex_digit_is_hex)

lemma sha256_hex_shape:
  "length (sha256_hex bs) = 64" "c \<in> set (sha256_hex bs) \<Longrightarrow> is_hex c"
proof -
  obtain a b c d e f g h where s: "sha_blocks sha_init (sha_words (sha_pad bs)) = (a, b, c, d, e, f, g, h)"
    by (metis surj_pair)
  show "length (sha256_hex bs) = 64"
    by (simp add: sha256_hex_def s)
  show "c \<in> set (sha256_hex bs) \<Longrightarrow> is_hex c" for c
    by (auto simp: sha256_hex_def s intro: hex_of_is_hex)
qed

end
