(* ===== verification/Canonical.thy ===== *)
theory Canonical
  imports Sha256
begin

text \<open>
  \<open>src/backend/app/strategy_lab_v2/canonical.py\<close>: the tagged canonical form of Python values, its
  JSON text, the SHA-256 content address computed from it and the syntactic check of a content
  address. Every identity and fingerprint of the platform is one of these digests.

  \<open>pyval\<close> is the universe of values the contracts put into a digest. A dataclass instance carries
  its qualified type name and its fields in declaration order; each field is its name, whether its
  metadata sets \<open>canonical_omit_none\<close>, and its value. A set is any enumeration of its elements
  (the canonical form sorts them). A float is its 64 bits. Mapping keys are strings by their type, which
  discharges the check \<open>isinstance(key, str)\<close> like the other type checks.
\<close>

datatype decimal = Finite nat "nat list" int | NonFinite

datatype pyval =
    PNone
  | PBool bool
  | PInt int
  | PStr string
  | PDecimal decimal
  | PDatetime datetime
  | PTimedelta timedelta
  | PDate int
  | PFloat "64 word"
  | PEnum string pyval
  | PMapping "(string \<times> pyval) list"
  | PSet "pyval list"
  | PTuple "pyval list"
  | PList "pyval list"
  | PDataclass string "(string \<times> bool \<times> pyval) list"

datatype json = JStr string | JBool bool | JInt int | JArr "json list"

section \<open>Calendar text\<close>

text \<open>Python's proleptic Gregorian calendar: the (year, month, day) of an ordinal, where 1 is
  0001-01-01, and ISO 8601 text.\<close>

definition leap_year :: "int \<Rightarrow> bool" where
  "leap_year y \<longleftrightarrow> y mod 4 = 0 \<and> (y mod 100 \<noteq> 0 \<or> y mod 400 = 0)"

definition days_before_month :: "int \<Rightarrow> int \<Rightarrow> int" where
  "days_before_month y m =
     [0, 0, 31, 59, 90, 120, 151, 181, 212, 243, 273, 304, 334] ! nat m
       + (if m > 2 \<and> leap_year y then 1 else 0)"

definition ord2ymd :: "int \<Rightarrow> int \<times> int \<times> int" where
  "ord2ymd n =
     (let n0 = n - 1;
          n400 = n0 div 146097; r400 = n0 mod 146097;
          n100 = r400 div 36524; r100 = r400 mod 36524;
          n4 = r100 div 1461; r4 = r100 mod 1461;
          n1 = r4 div 365; r1 = r4 mod 365;
          y = n400 * 400 + 1 + n100 * 100 + n4 * 4 + n1
      in if n1 = 4 \<or> n100 = 4 then (y - 1, 12, 31)
         else let m = (r1 + 50) div 32;
                  p = days_before_month y m
              in if p > r1 then (y, m - 1, r1 - days_before_month y (m - 1) + 1)
                 else (y, m, r1 - p + 1))"

fun padded :: "nat \<Rightarrow> int \<Rightarrow> string" where
  "padded 0 n = []"
| "padded (Suc k) n = padded k (n div 10) @ [char_of (48 + n mod 10)]"

definition iso_date :: "int \<Rightarrow> string" where
  "iso_date n = (case ord2ymd n of (y, m, d) \<Rightarrow> padded 4 y @ ''-'' @ padded 2 m @ ''-'' @ padded 2 d)"

definition iso_instant :: "instant \<Rightarrow> string" where
  "iso_instant t =
     (let us = t mod 1000000; s = t div 1000000; sod = s mod 86400
      in iso_date (s div 86400 + 719163) @ ''T'' @ padded 2 (sod div 3600) @ '':''
           @ padded 2 (sod div 60 mod 60) @ '':'' @ padded 2 (sod mod 60) @ ''.''
           @ padded 6 us @ ''Z'')"

section \<open>JSON text\<close>

text \<open>\<open>json.dumps(..., ensure_ascii=False, separators=(",", ":"))\<close> on arrays, strings, booleans
  and integers.\<close>

definition json_escape :: "char \<Rightarrow> string" where
  "json_escape c = (let n = (of_char c :: int)
     in if c = CHR 0x22 then [CHR 0x5C, CHR 0x22]
        else if c = CHR 0x5C then [CHR 0x5C, CHR 0x5C]
        else if n = 10 then [CHR 0x5C, CHR ''n'']
        else if n = 13 then [CHR 0x5C, CHR ''r'']
        else if n = 9 then [CHR 0x5C, CHR ''t'']
        else if n = 12 then [CHR 0x5C, CHR ''f'']
        else if n = 8 then [CHR 0x5C, CHR ''b'']
        else if n < 32 then [CHR 0x5C, CHR ''u''] @ hex_of 4 n
        else [c])"

definition json_str :: "string \<Rightarrow> string" where
  "json_str s = CHR 0x22 # concat (map json_escape s) @ [CHR 0x22]"

fun json_dumps :: "json \<Rightarrow> string" and json_items :: "json list \<Rightarrow> string" where
  "json_dumps (JStr s) = json_str s"
| "json_dumps (JBool b) = (if b then ''true'' else ''false'')"
| "json_dumps (JInt i) = int_str i"
| "json_dumps (JArr xs) = ''['' @ json_items xs @ '']''"
| "json_items [] = []"
| "json_items [x] = json_dumps x"
| "json_items (x # y # ys) = json_dumps x @ '','' @ json_items (y # ys)"

section \<open>The canonical form\<close>

fun strip_zeros :: "nat list \<Rightarrow> int \<Rightarrow> nat list \<times> int" where
  "strip_zeros [] e = ([], e)"
| "strip_zeros (d # ds) e = (if d = 0 then strip_zeros ds (e + 1) else (d # ds, e))"

definition decimal_identity :: "nat \<Rightarrow> nat list \<Rightarrow> int \<Rightarrow> string" where
  "decimal_identity sign digits e =
     (if list_all (\<lambda>d. d = 0) digits then ''0:0:0''
      else case strip_zeros (rev digits) e of (ds, e') \<Rightarrow>
        int_digits (int sign) @ '':'' @ concat (map (int_digits \<circ> int) (rev ds)) @ '':'' @ int_str e')"

text \<open>A float in the IEEE 754 binary64 format: sign, biased exponent and fraction of its bits. \<open>math.isfinite\<close> excludes
  the exponent with all bits set, and \<open>float.hex\<close> writes the fraction as 13 hexadecimal digits.\<close>

definition float_sign :: "64 word \<Rightarrow> int" where
  "float_sign w = uint w div 2 ^ 63"

definition float_exponent :: "64 word \<Rightarrow> int" where
  "float_exponent w = uint w div 2 ^ 52 mod 2 ^ 11"

definition float_fraction :: "64 word \<Rightarrow> int" where
  "float_fraction w = uint w mod 2 ^ 52"

definition float_finite :: "64 word \<Rightarrow> bool" where
  "float_finite w \<longleftrightarrow> float_exponent w \<noteq> 2047"

definition float_hex :: "64 word \<Rightarrow> string" where
  "float_hex w =
     (let e = float_exponent w; f = float_fraction w;
          zero = (e = 0 \<and> f = 0);
          shown = (if zero then 0 else if e = 0 then - 1022 else e - 1023)
      in (if float_sign w = 1 then ''-'' else []) @ ''0x'' @ (if e = 0 then ''0'' else ''1'') @ ''.''
           @ (if zero then ''0'' else hex_of 13 f) @ ''p'' @ (if shown < 0 then ''-'' else ''+'') @ int_digits \<bar>shown\<bar>)"

fun sequence_items :: "(string \<times> json result) list \<Rightarrow> json list result" where
  "sequence_items [] = Inr []"
| "sequence_items ((k, r) # xs) =
     rbind r (\<lambda>j. rbind (sequence_items xs) (\<lambda>js. Inr (JArr [JStr k, j] # js)))"

fun canonical_value :: "pyval \<Rightarrow> json result"
  and canonical_list :: "pyval list \<Rightarrow> json list result"
  and canonical_items :: "(string \<times> pyval) list \<Rightarrow> (string \<times> json result) list"
  and canonical_fields :: "(string \<times> bool \<times> pyval) list \<Rightarrow> json list result" where
  "canonical_value (PDataclass q fs) =
     rbind (canonical_fields fs) (\<lambda>js. Inr (JArr [JStr ''dataclass'', JStr q, JArr js]))"
| "canonical_value (PEnum q v) =
     rbind (canonical_value v) (\<lambda>j. Inr (JArr [JStr ''enum'', JStr q, j]))"
| "canonical_value (PDecimal NonFinite) =
     Inl (ValueError ''non-finite decimals are not canonical JSON values'')"
| "canonical_value (PDecimal (Finite sign digits e)) =
     Inr (JArr [JStr ''decimal'', JStr (decimal_identity sign digits e)])"
| "canonical_value (PDatetime (Naive w)) =
     Inl (ValueError ''datetimes in canonical data must be timezone-aware'')"
| "canonical_value (PDatetime (Aware i z)) = Inr (JArr [JStr ''datetime'', JStr (iso_instant i)])"
| "canonical_value (PTimedelta d) =
     Inr (JArr [JStr ''timedelta'', JInt (d div 86400000000),
                JInt (d mod 86400000000 div 1000000), JInt (d mod 1000000)])"
| "canonical_value (PDate n) = Inr (JArr [JStr ''date'', JStr (iso_date n)])"
| "canonical_value (PMapping m) =
     rbind (sequence_items (sort_key fst (canonical_items m)))
       (\<lambda>js. Inr (JArr [JStr ''mapping'', JArr js]))"
| "canonical_value (PSet vs) =
     rbind (canonical_list vs) (\<lambda>js. Inr (JArr [JStr ''set'', JArr (sort_key json_dumps js)]))"
| "canonical_value (PTuple vs) =
     rbind (canonical_list vs) (\<lambda>js. Inr (JArr [JStr ''tuple'', JArr js]))"
| "canonical_value (PList vs) =
     rbind (canonical_list vs) (\<lambda>js. Inr (JArr [JStr ''list'', JArr js]))"
| "canonical_value (PFloat w) =
     (if float_finite w then Inr (JArr [JStr ''float'', JStr (float_hex w)])
      else Inl (ValueError ''non-finite floats are not canonical JSON values''))"
| "canonical_value PNone = Inr (JArr [JStr ''null''])"
| "canonical_value (PBool b) = Inr (JArr [JStr ''bool'', JBool b])"
| "canonical_value (PInt i) = Inr (JArr [JStr ''int'', JStr (int_str i)])"
| "canonical_value (PStr s) = Inr (JArr [JStr ''str'', JStr s])"
| "canonical_list [] = Inr []"
| "canonical_list (v # vs) =
     rbind (canonical_value v) (\<lambda>j. rbind (canonical_list vs) (\<lambda>js. Inr (j # js)))"
| "canonical_items [] = []"
| "canonical_items ((k, v) # m) = (k, canonical_value v) # canonical_items m"
| "canonical_fields [] = Inr []"
| "canonical_fields ((n, omit_none, v) # fs) =
     (if take 1 n = ''_'' \<or> (omit_none \<and> v = PNone) then canonical_fields fs
      else rbind (canonical_value v)
             (\<lambda>j. rbind (canonical_fields fs) (\<lambda>js. Inr (JArr [JStr n, j] # js))))"

definition canonical_json :: "pyval \<Rightarrow> string result" where
  "canonical_json v = rbind (canonical_value v) (\<lambda>j. Inr (json_dumps j))"

definition digest_text :: "string \<Rightarrow> string" where
  "digest_text s = ''sha256:'' @ sha256_hex (utf8_encode s)"

definition content_digest :: "pyval \<Rightarrow> string result" where
  "content_digest v = rbind (canonical_json v) (\<lambda>s. Inr (digest_text s))"

text \<open>The digest of a value whose canonical form exists: what the \<open>fingerprint\<close> properties return.
  Each contract proves that its own values are of this kind.\<close>

definition digest :: "pyval \<Rightarrow> string" where
  "digest v = projr (content_digest v)"

section \<open>The digest check\<close>

text \<open>\<open>int(s, 16)\<close> succeeds on optional surrounding whitespace, an optional sign, an optional
  \<open>0x\<close> prefix and hexadecimal digits with single underscores between them.\<close>

definition int_space :: "char \<Rightarrow> bool" where
  "int_space c = (let n = (of_char c :: int) in 9 \<le> n \<and> n \<le> 13 \<or> n = 32 \<or> n = 133 \<or> n = 160)"

definition int_trim :: "string \<Rightarrow> string" where
  "int_trim s = rev (dropWhile int_space (rev (dropWhile int_space s)))"

fun drop_sign :: "string \<Rightarrow> string" where
  "drop_sign (c # cs) = (if c = CHR ''+'' \<or> c = CHR ''-'' then cs else c # cs)"
| "drop_sign [] = []"

fun drop_one_underscore :: "string \<Rightarrow> string" where
  "drop_one_underscore (c # cs) = (if c = CHR ''_'' then cs else c # cs)"
| "drop_one_underscore [] = []"

fun drop_hex_prefix :: "string \<Rightarrow> string" where
  "drop_hex_prefix (a # b # cs) =
     (if a = CHR ''0'' \<and> (b = CHR ''x'' \<or> b = CHR ''X'') then drop_one_underscore cs else a # b # cs)"
| "drop_hex_prefix s = s"

fun hex_body :: "bool \<Rightarrow> string \<Rightarrow> bool" where
  "hex_body after_digit [] = after_digit"
| "hex_body after_digit (c # cs) =
     (if c = CHR ''_'' then after_digit \<and> hex_body False cs else is_hex c \<and> hex_body True cs)"

definition int16_ok :: "string \<Rightarrow> bool" where
  "int16_ok s = hex_body False (drop_hex_prefix (drop_sign (int_trim s)))"

definition digest_prefix_ok :: "string \<Rightarrow> bool" where
  "digest_prefix_ok v \<longleftrightarrow> length v = length ''sha256:'' + 64 \<and> take (length ''sha256:'') v = ''sha256:''"

definition is_digest :: "string \<Rightarrow> bool" where
  "is_digest v \<longleftrightarrow> digest_prefix_ok v \<and> int16_ok (drop (length ''sha256:'') v)"

text \<open>The two raising statements of \<open>require_sha256_digest\<close>, for use in a guard sequence.\<close>

definition digest_checks :: "string \<Rightarrow> string \<Rightarrow> (bool \<times> string) list" where
  "digest_checks v field =
     [(\<not> digest_prefix_ok v, field @ '' must be a sha256 content digest''),
      (\<not> int16_ok (drop (length ''sha256:'') v), field @ '' must contain a hexadecimal SHA-256 digest'')]"

definition require_sha256_digest :: "string \<Rightarrow> string \<Rightarrow> unit result" where
  "require_sha256_digest v field = raising (digest_checks v field) (Inr ())"

definition opt_digest_checks :: "string option \<Rightarrow> string \<Rightarrow> (bool \<times> string) list" where
  "opt_digest_checks v field = (case v of None \<Rightarrow> [] | Some d \<Rightarrow> digest_checks d field)"

section \<open>Guard sequences with digest checks\<close>

lemma raising_digest_checks [contract_simps]:
  "raising (digest_checks v f @ cs) k = Inr r \<longleftrightarrow> is_digest v \<and> raising cs k = Inr r"
  "raising (digest_checks v f) k = Inr r \<longleftrightarrow> is_digest v \<and> k = Inr r"
  by (auto simp: digest_checks_def is_digest_def contract_simps)

lemma raising_opt_digest_checks [contract_simps]:
  "raising (opt_digest_checks v f @ cs) k = Inr r \<longleftrightarrow>
     (\<forall>d. v = Some d \<longrightarrow> is_digest d) \<and> raising cs k = Inr r"
  "raising (opt_digest_checks v f) k = Inr r \<longleftrightarrow> (\<forall>d. v = Some d \<longrightarrow> is_digest d) \<and> k = Inr r"
  by (auto simp: opt_digest_checks_def contract_simps split: option.splits)

lemma require_sha256_digest_ok [contract_simps]:
  "require_sha256_digest v f = Inr u \<longleftrightarrow> is_digest v"
  by (simp add: require_sha256_digest_def contract_simps)

section \<open>Every digest passes the check\<close>

lemma is_hex_not_space: "is_hex c \<Longrightarrow> \<not> int_space c"
  by (auto simp: is_hex_def int_space_def Let_def)

lemma is_hex_plain:
  "is_hex c \<Longrightarrow> c \<noteq> CHR ''_''" "is_hex c \<Longrightarrow> c \<noteq> CHR ''+''" "is_hex c \<Longrightarrow> c \<noteq> CHR ''-''"
  "is_hex c \<Longrightarrow> c \<noteq> CHR ''x''" "is_hex c \<Longrightarrow> c \<noteq> CHR ''X''"
  by (auto simp: is_hex_def)

lemma hex_body_hex: "\<forall>c \<in> set s. is_hex c \<Longrightarrow> hex_body p s = (p \<or> s \<noteq> [])"
  by (induction s arbitrary: p) (auto simp: is_hex_plain)

lemma int_trim_hex: "\<forall>c \<in> set s. is_hex c \<Longrightarrow> int_trim s = s"
proof -
  assume hex: "\<forall>c \<in> set s. is_hex c"
  then have "dropWhile int_space s = s" "dropWhile int_space (rev s) = rev s"
    by (auto simp: dropWhile_eq_self_iff is_hex_not_space hd_rev)
  then show ?thesis by (simp add: int_trim_def)
qed

lemma drop_sign_hex: "\<forall>c \<in> set s. is_hex c \<Longrightarrow> drop_sign s = s"
  by (cases s) (auto simp: is_hex_plain)

lemma drop_hex_prefix_hex: "\<forall>c \<in> set s. is_hex c \<Longrightarrow> drop_hex_prefix s = s"
  by (cases s rule: drop_hex_prefix.cases) (auto simp: is_hex_plain)

lemma int16_ok_hex: "\<forall>c \<in> set s. is_hex c \<Longrightarrow> s \<noteq> [] \<Longrightarrow> int16_ok s"
  by (simp add: int16_ok_def int_trim_hex drop_sign_hex drop_hex_prefix_hex hex_body_hex)

lemma is_digest_digest_text [simp]: "is_digest (digest_text s)"
proof -
  have "int16_ok (sha256_hex (utf8_encode s))"
    using sha256_hex_shape(1) [of "utf8_encode s"]
    by (intro int16_ok_hex) (auto simp: sha256_hex_shape(2))
  then show ?thesis
    by (simp add: is_digest_def digest_prefix_ok_def digest_text_def sha256_hex_shape(1))
qed

lemma content_digest_is_digest: "content_digest v = Inr d \<Longrightarrow> is_digest d"
  by (auto simp: content_digest_def)

lemma is_digest_not_blank: "is_digest s \<Longrightarrow> \<not> blank s"
proof -
  assume "is_digest s"
  then obtain t where "s = CHR ''s'' # t"
    by (cases s) (auto simp: is_digest_def digest_prefix_ok_def)
  then show ?thesis by (simp add: blank_iff py_space_def)
qed

text \<open>The digest checks of a guard sequence, as one condition.\<close>

lemma digests_clean: "list_all (\<lambda>(b, m). \<not> b) (digest_checks d f) \<longleftrightarrow> is_digest d"
  by (simp add: digest_checks_def is_digest_def)

lemma all_digests_clean:
  "list_all (\<lambda>(b, m). \<not> b) (concat (map (\<lambda>d. digest_checks d f) ds)) \<longleftrightarrow> (\<forall>d \<in> set ds. is_digest d)"
  by (induction ds) (auto simp: digests_clean)

lemma opt_digests_clean: "list_all (\<lambda>(b, m). \<not> b) (opt_digest_checks d f) \<longleftrightarrow> (\<forall>x. d = Some x \<longrightarrow> is_digest x)"
  by (simp add: opt_digest_checks_def digests_clean split: option.splits)

end
