(* ===== verification/Canonical_Text.thy ===== *)
theory Canonical_Text
  imports Canonical "HOL-Library.Multiset"
begin

text \<open>
  The JSON text of a canonical form determines the form, so two values with the same canonical
  text have the same tagged canonical form: what the docstring of \<open>canonical_json\<close> calls avoiding
  cross-type collisions. It also makes the digest of a set independent of the order in which
  Python enumerates it, and the digest of a mapping independent of insertion order.
\<close>

section \<open>Digits and escapes are prefix codes\<close>

lemma of_char_hex_digit:
  "0 \<le> k \<Longrightarrow> k < 16 \<Longrightarrow> of_char (hex_digit k) = (if k < 10 then 48 + k else 87 + k)"
  by (simp add: hex_digit_def of_char_of)

lemma hex_digit_inject:
  assumes "0 \<le> n" "n < 16" "0 \<le> m" "m < 16" "hex_digit n = hex_digit m"
  shows "n = m"
proof -
  have "(if n < 10 then 48 + n else 87 + n) = (if m < 10 then 48 + m else 87 + m)"
    using assms of_char_hex_digit [of n] of_char_hex_digit [of m] by simp
  with assms show ?thesis by (simp split: if_splits)
qed

lemma hex_of_inject:
  "0 \<le> n \<Longrightarrow> 0 \<le> m \<Longrightarrow> n < 16 ^ k \<Longrightarrow> m < 16 ^ k \<Longrightarrow> hex_of k n = hex_of k m \<Longrightarrow> n = m"
proof (induction k arbitrary: n m)
  case (Suc k)
  from Suc.prems have "hex_of k (n div 16) = hex_of k (m div 16)"
    and "hex_digit (n mod 16) = hex_digit (m mod 16)" by auto
  moreover from Suc.prems have "n div 16 < 16 ^ k" "m div 16 < 16 ^ k" by auto
  ultimately have "n div 16 = m div 16" "n mod 16 = m mod 16"
    using Suc.prems Suc.IH [of "n div 16" "m div 16"] hex_digit_inject [of "n mod 16" "m mod 16"]
    by auto
  then show ?case by (metis div_mult_mod_eq)
qed simp

lemma hex_of_4_inject:
  "0 \<le> n \<Longrightarrow> 0 \<le> m \<Longrightarrow> n < 32 \<Longrightarrow> m < 32 \<Longrightarrow> hex_of 4 n = hex_of 4 m \<Longrightarrow> n = m"
  by (rule hex_of_inject [of n m 4]) auto

lemma json_escape_hd: "json_escape c @ x \<noteq> CHR 0x22 # y"
  by (auto simp: json_escape_def Let_def)

lemma json_escape_cancel:
  assumes "json_escape c @ x = json_escape d @ y"
  shows "c = d \<and> x = y"
proof -
  have u: "c = d" if "hex_of 4 (of_char c) = hex_of 4 (of_char d)"
      "(of_char c :: int) < 32" "(of_char d :: int) < 32"
    using hex_of_4_inject [of "of_char c" "of_char d"] that by (simp add: of_char_int_nonneg)
  have cd: "c = d" if "of_char c = n" "of_char d = n" for n :: int
    using that by (metis of_char_eq_iff)
  show ?thesis
    using assms u
    by (auto simp: json_escape_def Let_def dest: cd split: if_splits)
qed

lemma json_body_cancel:
  "concat (map json_escape s) @ CHR 0x22 # x = concat (map json_escape t) @ CHR 0x22 # y
     \<Longrightarrow> s = t \<and> x = y"
proof (induction s arbitrary: t)
  case Nil
  then show ?case
    by (cases t) (auto dest: json_escape_hd [THEN notE, OF sym])
next
  case (Cons c s)
  then obtain d t' where t: "t = d # t'"
    by (cases t) (auto simp: json_escape_hd)
  with Cons.prems have "json_escape c @ (concat (map json_escape s) @ CHR 0x22 # x) =
      json_escape d @ (concat (map json_escape t') @ CHR 0x22 # y)" by simp
  from json_escape_cancel [OF this] Cons.IH t show ?case by auto
qed

lemma json_str_cancel: "json_str s @ x = json_str t @ y \<Longrightarrow> s = t \<and> x = y"
  using json_body_cancel [of s x t y] by (simp add: json_str_def)

section \<open>Integers\<close>

definition digit_value :: "string \<Rightarrow> int" where
  "digit_value s = foldl (\<lambda>n c. 10 * n + (of_char c - 48)) 0 s"

lemma int_digits_value: "0 \<le> n \<Longrightarrow> digit_value (int_digits n) = n"
proof (induction n rule: int_digits.induct)
  case (1 n)
  then show ?case
    by (subst int_digits.simps) (auto simp: digit_value_def of_char_of)
qed

lemma int_digits_chars:
  "0 \<le> n \<Longrightarrow> c \<in> set (int_digits n) \<Longrightarrow> 48 \<le> (of_char c :: int) \<and> (of_char c :: int) \<le> 57"
proof (induction n rule: int_digits.induct)
  case (1 n)
  then show ?case
    by (subst (asm) int_digits.simps) (auto simp: of_char_of split: if_splits)
qed

lemma int_digits_nonempty: "int_digits n \<noteq> []"
  by (subst int_digits.simps) auto

lemma int_str_chars: "c \<in> set (int_str i) \<Longrightarrow> c = CHR ''-'' \<or> 48 \<le> (of_char c :: int) \<and> (of_char c :: int) \<le> 57"
  using int_digits_chars [of i c] int_digits_chars [of "- i" c]
  by (auto simp: int_str_def split: if_splits)

lemma int_str_inject: "int_str i = int_str j \<Longrightarrow> i = j"
proof -
  have h: "hd (int_digits n) \<noteq> CHR ''-''" if "0 \<le> n" for n
    using int_digits_chars [OF that, of "hd (int_digits n)"] int_digits_nonempty [of n] by auto
  have v: "digit_value (int_digits n) = n" if "0 \<le> n" for n
    using that by (rule int_digits_value)
  assume eq: "int_str i = int_str j"
  have sign: "hd (int_str k) = CHR ''-'' \<longleftrightarrow> k < 0" for k
    using h [of k] by (simp add: int_str_def)
  from eq have "i < 0 \<longleftrightarrow> j < 0"
    using sign [of i] sign [of j] by simp
  then show "i = j"
  proof (cases "i < 0")
    case True
    with eq \<open>i < 0 \<longleftrightarrow> j < 0\<close> have "int_digits (- i) = int_digits (- j)" by (simp add: int_str_def)
    then have "digit_value (int_digits (- i)) = digit_value (int_digits (- j))" by simp
    moreover have "0 \<le> - i" "0 \<le> - j" using True \<open>i < 0 \<longleftrightarrow> j < 0\<close> by auto
    ultimately show ?thesis by (simp only: v)
  next
    case False
    with eq \<open>i < 0 \<longleftrightarrow> j < 0\<close> have "int_digits i = int_digits j" by (simp add: int_str_def)
    then have "digit_value (int_digits i) = digit_value (int_digits j)" by simp
    moreover have "0 \<le> i" "0 \<le> j" using False \<open>i < 0 \<longleftrightarrow> j < 0\<close> by auto
    ultimately show ?thesis by (simp only: v)
  qed
qed

definition delim :: "string \<Rightarrow> bool" where
  "delim s \<longleftrightarrow> s = [] \<or> hd s = CHR '','' \<or> hd s = CHR '']''"

lemma int_str_cancel:
  assumes eq: "int_str i @ x = int_str j @ y" and "delim x" "delim y"
  shows "i = j \<and> x = y"
proof -
  let ?P = "\<lambda>c. c \<noteq> CHR '','' \<and> c \<noteq> CHR '']''"
  have "takeWhile ?P (int_str k @ z) = int_str k" if "delim z" for k z
  proof -
    have "\<forall>c \<in> set (int_str k). ?P c" by (auto dest: int_str_chars)
    moreover have "takeWhile ?P z = []" using that by (cases z) (auto simp: delim_def)
    ultimately show ?thesis by (simp add: takeWhile_append2)
  qed
  with assms have "int_str i = int_str j" by metis
  with eq show ?thesis by (simp add: int_str_inject)
qed

section \<open>Whole texts\<close>

text \<open>The first character of a text tells which kind of JSON value it is.\<close>

definition char_tag :: "char \<Rightarrow> nat" where
  "char_tag c = (if c = CHR 0x22 then 0 else if c = CHR ''t'' then 1 else if c = CHR ''f'' then 2
     else if c = CHR ''['' then 3 else if c = CHR '']'' then 4 else 5)"

fun json_tag :: "json \<Rightarrow> nat" where
  "json_tag (JStr s) = 0"
| "json_tag (JBool b) = (if b then 1 else 2)"
| "json_tag (JArr xs) = 3"
| "json_tag (JInt i) = 5"

lemma int_str_nonempty: "int_str i \<noteq> []"
  by (simp add: int_str_def int_digits_nonempty)

lemma json_dumps_nonempty: "json_dumps j \<noteq> []"
  by (cases j) (auto simp: json_str_def int_str_nonempty)

lemma char_tag_json_dumps: "char_tag (hd (json_dumps j)) = json_tag j"
proof (cases j)
  case (JInt i)
  then show ?thesis
    using int_str_chars [of "hd (int_str i)" i] int_str_nonempty [of i]
    by (auto simp: char_tag_def)
qed (auto simp: json_str_def char_tag_def)

lemma json_dumps_tag: "json_dumps a @ x = json_dumps b @ y \<Longrightarrow> json_tag a = json_tag b"
  by (metis char_tag_json_dumps hd_append2 json_dumps_nonempty)

lemma json_dumps_not_bracket: "json_dumps j @ x \<noteq> CHR '']'' # y"
proof
  assume "json_dumps j @ x = CHR '']'' # y"
  then have "hd (json_dumps j) = CHR '']''" by (metis hd_append2 json_dumps_nonempty list.sel(1))
  then have "json_tag j = 4" using char_tag_json_dumps [of j] by (simp add: char_tag_def)
  then show False by (cases j) (auto split: if_splits)
qed

lemma json_items_not_bracket: "json_items (j # js) @ x \<noteq> CHR '']'' # y"
  by (cases js) (auto simp: json_dumps_not_bracket)

text \<open>A non-empty item list read as its first value and a delimited rest.\<close>

lemma json_items_Cons:
  "\<exists>r. json_items (j # js) @ CHR '']'' # x = json_dumps j @ r \<and> delim r \<and>
     r = (if js = [] then CHR '']'' # x else CHR '','' # json_items js @ CHR '']'' # x)"
  by (cases js) (auto simp: delim_def)

lemma json_dumps_cancel:
  "json_dumps a @ x = json_dumps b @ y \<Longrightarrow> delim x \<Longrightarrow> delim y \<Longrightarrow> a = b \<and> x = y"
  "json_items as @ CHR '']'' # x = json_items bs @ CHR '']'' # y \<Longrightarrow> as = bs \<and> x = y"
proof (induction a and as arbitrary: b x y and bs x y rule: json_dumps_json_items.induct)
  case (1 s)
  then show ?case using json_dumps_tag [OF 1(1)]
    by (cases b) (auto dest: json_str_cancel split: if_splits)
next
  case (2 t)
  then show ?case using json_dumps_tag [OF 2(1)]
    by (cases b) (auto split: if_splits)
next
  case (3 i)
  then show ?case using json_dumps_tag [OF 3(1)]
    by (cases b) (auto dest: int_str_cancel split: if_splits)
next
  case (4 xs)
  obtain ys where b: "b = JArr ys"
    using json_dumps_tag [OF 4(2)] by (cases b) (auto split: if_splits)
  with 4(2) have "json_items xs @ CHR '']'' # x = json_items ys @ CHR '']'' # y" by simp
  from 4(1) [OF this] b show ?case by simp
next
  case 5
  show ?case
  proof (cases bs)
    case Nil
    with 5 show ?thesis by simp
  next
    case (Cons w ws)
    with 5 have "json_items (w # ws) @ CHR '']'' # y = CHR '']'' # x" by simp
    then show ?thesis using json_items_not_bracket by blast
  qed
next
  case (6 z)
  from 6(2) have "bs \<noteq> []" by (auto simp: json_dumps_not_bracket)
  then obtain w ws where bs: "bs = w # ws" by (cases bs) simp_all
  obtain r where r: "json_items (w # ws) @ CHR '']'' # y = json_dumps w @ r" "delim r"
      "r = (if ws = [] then CHR '']'' # y else CHR '','' # json_items ws @ CHR '']'' # y)"
    using json_items_Cons by blast
  have "delim (CHR '']'' # x)" by (simp add: delim_def)
  moreover have "json_dumps z @ CHR '']'' # x = json_dumps w @ r"
    using 6(2) r(1) bs by simp
  ultimately have "z = w \<and> CHR '']'' # x = r"
    using 6(1) r(2) by blast
  then show ?case using r(3) bs by (cases "ws = []") simp_all
next
  case (7 z z' zs)
  from 7(3) have "bs \<noteq> []" by (auto simp: json_dumps_not_bracket)
  then obtain w ws where bs: "bs = w # ws" by (cases bs) simp_all
  obtain r where r: "json_items (w # ws) @ CHR '']'' # y = json_dumps w @ r" "delim r"
      "r = (if ws = [] then CHR '']'' # y else CHR '','' # json_items ws @ CHR '']'' # y)"
    using json_items_Cons by blast
  let ?l = "CHR '','' # json_items (z' # zs) @ CHR '']'' # x"
  have "delim ?l" by (simp add: delim_def)
  moreover have "json_dumps z @ ?l = json_dumps w @ r"
    using 7(3) r(1) bs by simp
  ultimately have zw: "z = w \<and> ?l = r"
    using 7(1) r(2) by blast
  then have "json_items (z' # zs) @ CHR '']'' # x = json_items ws @ CHR '']'' # y"
    using r(3) by (cases "ws = []") simp_all
  then have "z' # zs = ws \<and> x = y" by (rule 7(2))
  then show ?case using zw bs by simp
qed

lemma json_dumps_inject: "json_dumps a = json_dumps b \<Longrightarrow> a = b"
  using json_dumps_cancel(1) [of a "[]" b "[]"] by (simp add: delim_def)

section \<open>Content addresses\<close>

lemma canonical_json_value:
  "canonical_json v = Inr s \<Longrightarrow> canonical_json w = Inr s \<Longrightarrow> canonical_value v = canonical_value w"
  by (auto simp: canonical_json_def dest: json_dumps_inject)

text \<open>Sorting by an injective key forgets the order of the input.\<close>

lemma sort_key_perm:
  assumes "inj f" and "mset xs = mset ys"
  shows "sort_key f xs = sort_key f ys"
proof -
  have "sort (map f xs) = map f (sort_key f zs)" if "mset zs = mset xs" for zs
    using that by (intro properties_for_sort) simp_all
  from this [of xs] this [of ys] assms(2) have "map f (sort_key f xs) = map f (sort_key f ys)"
    by simp
  with assms(1) show ?thesis by (simp add: inj_map_eq_map)
qed

lemma canonical_list_mset:
  "canonical_list vs = Inr js \<Longrightarrow> mset vs = mset ws \<Longrightarrow> \<exists>ks. canonical_list ws = Inr ks \<and> mset ks = mset js"
proof (induction vs arbitrary: ws js)
  case (Cons v vs)
  from Cons.prems(2) have "v \<in> set ws" by (metis list.set_intros(1) mset_eq_setD)
  then obtain as bs where ws: "ws = as @ v # bs" by (meson split_list)
  from Cons.prems obtain j js' where j: "canonical_value v = Inr j" "canonical_list vs = Inr js'" "js = j # js'"
    by auto
  have "mset vs = mset (as @ bs)" using Cons.prems(2) ws by simp
  from Cons.IH [OF j(2) this] obtain ks where ks: "canonical_list (as @ bs) = Inr ks" "mset ks = mset js'"
    by blast
  have "\<exists>ls. canonical_list (as @ v # bs) = Inr ls \<and> mset ls = add_mset j (mset ks)"
    if "canonical_list (as @ bs) = Inr ks" for ks
    using that
  proof (induction as arbitrary: ks)
    case (Cons a as)
    then obtain i ks' where i: "canonical_value a = Inr i" "canonical_list (as @ bs) = Inr ks'" "ks = i # ks'"
      by auto
    from Cons.IH [OF i(2)] i(1,3) show ?case by auto
  qed (use j(1) in auto)
  from this [OF ks(1)] ks(2) j(3) ws show ?case by auto
qed simp

lemma canonical_set_perm:
  assumes "mset vs = mset ws" and "canonical_value (PSet vs) = Inr j"
  shows "canonical_value (PSet ws) = Inr j"
proof -
  from assms(2) obtain js where js: "canonical_list vs = Inr js"
      "j = JArr [JStr ''set'', JArr (sort_key json_dumps js)]" by auto
  from canonical_list_mset [OF js(1) assms(1)] obtain ks
    where ks: "canonical_list ws = Inr ks" "mset ks = mset js" by blast
  have "inj json_dumps" by (simp add: inj_def json_dumps_inject)
  from sort_key_perm [OF this ks(2)] ks(1) js(2) show ?thesis by simp
qed

section \<open>The canonical form determines plain values\<close>

text \<open>Values built from atoms, enums, sequences and dataclasses without private or omitted fields.\<close>

fun plain :: "pyval \<Rightarrow> bool" where
  "plain PNone = True"
| "plain (PBool b) = True"
| "plain (PInt i) = True"
| "plain (PStr s) = True"
| "plain (PTimedelta d) = True"
| "plain (PFloat w) = True"
| "plain (PEnum q v) = plain v"
| "plain (PTuple vs) = list_all plain vs"
| "plain (PList vs) = list_all plain vs"
| "plain (PDataclass q fs) = list_all (\<lambda>(n, omit_none, v). \<not> omit_none \<and> take 1 n \<noteq> ''_'' \<and> plain v) fs"
| "plain _ = False"

lemma timedelta_parts_inject:
  fixes d e :: int
  assumes "d div 86400000000 = e div 86400000000"
    "d mod 86400000000 div 1000000 = e mod 86400000000 div 1000000"
    "d mod 1000000 = e mod 1000000"
  shows "d = e"
proof -
  have split: "k = 86400000000 * (k div 86400000000) + (1000000 * (k mod 86400000000 div 1000000) + k mod 1000000)"
    for k :: int
  proof -
    have "k mod 86400000000 mod 1000000 = k mod 1000000" by (simp add: mod_mod_cancel)
    then have "1000000 * (k mod 86400000000 div 1000000) + k mod 1000000 = k mod 86400000000"
      by (metis mult_div_mod_eq)
    then show ?thesis by (simp add: mult_div_mod_eq)
  qed
  show ?thesis using split [of d] split [of e] unfolding assms by (rule trans [OF _ sym])
qed

lemma int_digits_inject: "0 \<le> n \<Longrightarrow> 0 \<le> m \<Longrightarrow> int_digits n = int_digits m \<Longrightarrow> n = m"
  using int_digits_value by metis

lemma div_mod_parts:
  fixes k a b :: int
  assumes "0 \<le> b"
  shows "k = a * b * (k div (a * b)) + (a * (k div a mod b) + k mod a)"
proof -
  have "k = a * (k div a) + k mod a" by simp
  also have "k div a = b * (k div a div b) + k div a mod b" by simp
  also have "k div a div b = k div (a * b)" by (rule zdiv_zmult2_eq [OF assms, symmetric])
  finally show ?thesis by (simp only: distrib_left mult.assoc add.assoc)
qed

lemma float_parts: "uint w = 2 ^ 52 * 2 ^ 11 * float_sign w + (2 ^ 52 * float_exponent w + float_fraction w)"
proof -
  have "(2 :: int) ^ 63 = 2 ^ 52 * 2 ^ 11" by simp
  then show ?thesis
    unfolding float_sign_def float_exponent_def float_fraction_def 
    using div_mod_parts [of "2 ^ 11" "uint w" "2 ^ 52", OF zero_le_power] by (simp only: zero_le_numeral simp_thms)
qed

lemma float_ranges: "0 \<le> float_sign w" "float_sign w \<le> 1" "0 \<le> float_exponent w" "0 \<le> float_fraction w" "float_fraction w < 16 ^ 13"
proof -
  have "uint w < 2 ^ 64" using uint_lt2p [of w] by simp
  then have "uint w div 2 ^ 63 < 2" by (simp add: div_less_iff_less_mult)
  then show "float_sign w \<le> 1" by (simp add: float_sign_def)
  show "0 \<le> float_sign w" "0 \<le> float_exponent w" "0 \<le> float_fraction w"
    by (simp_all add: float_sign_def float_exponent_def float_fraction_def pos_imp_zdiv_nonneg_iff)
  show "float_fraction w < 16 ^ 13" by (simp add: float_fraction_def)
qed

definition float_shown :: "64 word \<Rightarrow> int" where
  "float_shown w = (if float_exponent w = 0 then if float_fraction w = 0 then 0 else - 1022 else float_exponent w - 1023)"

definition float_digits :: "64 word \<Rightarrow> string" where
  "float_digits w = (if float_exponent w = 0 \<and> float_fraction w = 0 then ''0'' else hex_of 13 (float_fraction w))"

lemma float_hex_eq:
  "float_hex w = (if float_sign w = 1 then ''-'' else []) @ ''0x'' @ (if float_exponent w = 0 then ''0'' else ''1'') @ ''.''
     @ float_digits w @ ''p'' @ (if float_shown w < 0 then ''-'' else ''+'') @ int_digits \<bar>float_shown w\<bar>"
  by (simp add: float_hex_def float_digits_def float_shown_def Let_def)

lemma float_digits_no_p: "CHR ''p'' \<notin> set (float_digits w)"
proof
  assume p: "CHR ''p'' \<in> set (float_digits w)"
  then have "is_hex CHR ''p''" by (cases "float_exponent w = 0 \<and> float_fraction w = 0") (auto simp: float_digits_def dest: hex_of_is_hex)
  then show False by (simp add: is_hex_def)
qed

lemma float_hex_inject:
  assumes "float_hex v = float_hex w"
  shows "v = w"
proof -
  have sign: "float_sign v = float_sign w"
    using assms float_ranges(1,2) [of v] float_ranges(1,2) [of w] by (auto simp: float_hex_eq split: if_splits)
  then have lead: "float_exponent v = 0 \<longleftrightarrow> float_exponent w = 0"
    and rest: "float_digits v @ CHR ''p'' # (if float_shown v < 0 then ''-'' else ''+'') @ int_digits \<bar>float_shown v\<bar>
      = float_digits w @ CHR ''p'' # (if float_shown w < 0 then ''-'' else ''+'') @ int_digits \<bar>float_shown w\<bar>"
    using assms by (auto simp: float_hex_eq split: if_splits)
  have take: "takeWhile (\<lambda>c. c \<noteq> CHR ''p'') (float_digits u @ CHR ''p'' # x) = float_digits u" for u x
    using float_digits_no_p [of u] by (subst takeWhile_append2) auto
  have digits: "float_digits v = float_digits w" using arg_cong [OF rest, of "takeWhile (\<lambda>c. c \<noteq> CHR ''p'')"] unfolding take .
  then have "\<bar>float_shown v\<bar> = \<bar>float_shown w\<bar> \<and> (float_shown v < 0 \<longleftrightarrow> float_shown w < 0)"
    using rest int_digits_inject [of "\<bar>float_shown v\<bar>" "\<bar>float_shown w\<bar>"] by (auto split: if_splits)
  then have shown: "float_shown v = float_shown w" by linarith
  have "length (float_digits v) = length (float_digits w)" using digits by simp
  then have zero: "float_exponent v = 0 \<and> float_fraction v = 0 \<longleftrightarrow> float_exponent w = 0 \<and> float_fraction w = 0"
    by (auto simp: float_digits_def split: if_splits)
  then have frac: "float_fraction v = float_fraction w"
    using digits hex_of_inject [OF float_ranges(4,4,5,5), of v w] by (auto simp: float_digits_def split: if_splits)
  have "float_exponent v = float_exponent w" using shown lead frac by (auto simp: float_shown_def split: if_splits)
  then have "uint v = uint w" using sign frac float_parts [of v] float_parts [of w] by simp
  then show ?thesis by (simp add: word_uint_eq_iff)
qed

lemma canonical_inject:
  "plain v \<Longrightarrow> plain w \<Longrightarrow> canonical_value v = Inr j \<Longrightarrow> canonical_value w = Inr j \<Longrightarrow> v = w"
  "list_all plain vs \<Longrightarrow> list_all plain ws \<Longrightarrow> canonical_list vs = Inr js \<Longrightarrow> canonical_list ws = Inr js \<Longrightarrow> vs = ws"
  "canonical_items m = canonical_items m"
  "list_all (\<lambda>(n, omit_none, v). \<not> omit_none \<and> take 1 n \<noteq> ''_'' \<and> plain v) fs
    \<Longrightarrow> list_all (\<lambda>(n, omit_none, v). \<not> omit_none \<and> take 1 n \<noteq> ''_'' \<and> plain v) gs
    \<Longrightarrow> canonical_fields fs = Inr js \<Longrightarrow> canonical_fields gs = Inr js \<Longrightarrow> fs = gs"
proof (induction v and vs and m and fs arbitrary: w j and ws js and and gs js
    rule: canonical_value_canonical_list_canonical_items_canonical_fields.induct)
  case (1 q fs)
  then show ?case by (cases w rule: plain.cases) (auto split: if_splits)
next
  case (2 q v)
  then show ?case by (cases w rule: plain.cases) (auto split: if_splits)
next
  case (7 d)
  then show ?case by (cases w rule: plain.cases) (auto dest: timedelta_parts_inject split: if_splits)
next
  case (11 vs)
  then show ?case by (cases w rule: plain.cases) (auto split: if_splits)
next
  case (12 vs)
  then show ?case by (cases w rule: plain.cases) (auto split: if_splits)
next
  case (19 v vs)
  then show ?case by (cases ws) (auto)
next
  case (23 n omit_none v fs)
  have cond: "\<not> (take 1 n = ''_'' \<or> omit_none \<and> v = PNone)" "plain v"
    and rest: "list_all (\<lambda>(n, omit_none, v). \<not> omit_none \<and> take 1 n \<noteq> ''_'' \<and> plain v) fs" "\<not> omit_none"
    using 23(4) by auto
  then obtain i ks where i: "canonical_value v = Inr i" "canonical_fields fs = Inr ks"
    "js = JArr [JStr n, i] # ks" using 23(6) by auto
  with 23(5,7) obtain v' gs' where gs: "gs = (n, False, v') # gs'" "plain v'"
      "list_all (\<lambda>(n, omit_none, v). \<not> omit_none \<and> take 1 n \<noteq> ''_'' \<and> plain v) gs'"
      "canonical_value v' = Inr i" "canonical_fields gs' = Inr ks"
    by (cases gs) auto
  show ?case
    using 23(2) [OF cond gs(2) i(1) gs(4)] 23(3) [OF cond(1) rest(1) gs(3) i(2) gs(5)] gs(1) rest(2)
    by simp
next
  case (18)
  then show ?case by (cases ws) auto
next
  case (22)
  then show ?case by (cases gs) (auto split: if_splits)
next
  case (13 f)
  then show ?case by (cases w rule: plain.cases) (auto dest: float_hex_inject split: if_splits)
next
  case 14
  then show ?case by (cases w rule: plain.cases) (auto split: if_splits)
next
  case (15 b)
  then show ?case by (cases w rule: plain.cases) (auto split: if_splits)
next
  case (16 i)
  then show ?case by (cases w rule: plain.cases) (auto dest: int_str_inject split: if_splits)
next
  case (17 s)
  then show ?case by (cases w rule: plain.cases) (auto split: if_splits)
qed simp_all

lemma canonical_mapping_perm:
  assumes "mset m = mset n" "distinct (map fst m)"
  shows "canonical_value (PMapping m) = canonical_value (PMapping n)"
proof -
  have items: "canonical_items k = map (\<lambda>(k, v). (k, canonical_value v)) k" for k
    by (induction k) auto
  have "sort_key fst (canonical_items m) = sort_key fst (canonical_items n)"
  proof (rule sort_key_inj_key_eq)
    show "mset (canonical_items m) = mset (sort_key fst (canonical_items n))"
      using assms(1) by (simp add: items)
    show "inj_on fst (set (canonical_items m))"
      using assms(2) eq_key_imp_eq_value by (fastforce simp: items inj_on_def)
  qed simp
  then show ?thesis by simp
qed

section \<open>The texts the digest check accepts\<close>

definition digit_groups :: "string \<Rightarrow> bool" where
  "digit_groups ds \<longleftrightarrow> ds \<noteq> [] \<and> is_hex (hd ds) \<and> is_hex (last ds) \<and> (\<forall>c \<in> set ds. is_hex c \<or> c = CHR ''_'')
     \<and> (\<forall>i. Suc i < length ds \<longrightarrow> \<not> (ds ! i = CHR ''_'' \<and> ds ! Suc i = CHR ''_''))"

text \<open>Blanks, an optional sign, an optional prefix, digits and blanks.\<close>

definition int16_text :: "string \<Rightarrow> string \<Rightarrow> string \<Rightarrow> string \<Rightarrow> string \<Rightarrow> bool" where
  "int16_text before sign prefix ds after \<longleftrightarrow> (\<forall>c \<in> set before \<union> set after. int_space c) \<and> sign \<in> {[], ''+'', ''-''}
     \<and> prefix \<in> {[], ''0x'', ''0X'', ''0x_'', ''0X_''} \<and> digit_groups ds"

lemma underscore_not_hex [simp]: "\<not> is_hex (CHR ''_'')"
  by (simp add: is_hex_def)

lemma digit_groups_Cons: "digit_groups (c # cs) \<longleftrightarrow>
    is_hex c \<and> (cs = [] \<or> digit_groups cs \<or> (\<exists>ds. cs = CHR ''_'' # ds \<and> digit_groups ds))"
proof (cases cs)
  case (Cons d ds)
  have all_nat: "(\<forall>i. Q i) \<longleftrightarrow> Q 0 \<and> (\<forall>i. Q (Suc i))" for Q :: "nat \<Rightarrow> bool" by (metis not0_implies_Suc)
  have shift: "(\<forall>i. Suc i < length (x # xs) \<longrightarrow> \<not> ((x # xs) ! i = CHR ''_'' \<and> (x # xs) ! Suc i = CHR ''_''))
      \<longleftrightarrow> \<not> (x = CHR ''_'' \<and> xs \<noteq> [] \<and> hd xs = CHR ''_'')
        \<and> (\<forall>i. Suc i < length xs \<longrightarrow> \<not> (xs ! i = CHR ''_'' \<and> xs ! Suc i = CHR ''_''))" for x xs
    by (subst all_nat) (cases xs; auto)
  show ?thesis
    unfolding Cons digit_groups_def shift
    by (cases ds) (auto simp: is_hex_plain)
qed (auto simp: digit_groups_def)

lemma hex_body_groups: "hex_body False ds \<longleftrightarrow> digit_groups ds"
  "hex_body True ds \<longleftrightarrow> ds = [] \<or> digit_groups ds \<or> (\<exists>xs. ds = CHR ''_'' # xs \<and> digit_groups xs)"
proof (induction ds)
  case (Cons c ds)
  { case 1
    show ?case using Cons by (auto simp: digit_groups_Cons is_hex_plain) }
  { case 2
    show ?case using Cons by (auto simp: digit_groups_Cons is_hex_plain) }
qed (auto simp: digit_groups_def)

lemma drop_sign_split: "\<exists>sign \<in> {[], ''+'', ''-''}. s = sign @ drop_sign s"
  by (cases s) auto

lemma drop_hex_prefix_split: "\<exists>prefix \<in> {[], ''0x'', ''0X'', ''0x_'', ''0X_''}. s = prefix @ drop_hex_prefix s"
proof (cases s rule: drop_hex_prefix.cases)
  case (1 a b cs)
  then show ?thesis by (cases cs) auto
qed simp_all

lemma int_trim_split:
  "\<exists>before after. s = before @ int_trim s @ after \<and> (\<forall>c \<in> set before \<union> set after. int_space c)"
proof -
  let ?r = "dropWhile int_space s"
  have "s = takeWhile int_space s @ ?r" by simp
  moreover have "?r = rev (dropWhile int_space (rev ?r)) @ rev (takeWhile int_space (rev ?r))"
    by (metis rev_append rev_rev_ident takeWhile_dropWhile_id)
  ultimately have "s = takeWhile int_space s @ int_trim s @ rev (takeWhile int_space (rev ?r))" by (simp add: int_trim_def)
  then show ?thesis by (intro exI conjI) (auto dest: set_takeWhileD)
qed

lemma int_trim_core:
  assumes "\<forall>c \<in> set before \<union> set after. int_space c" "core \<noteq> []" "\<not> int_space (hd core)" "\<not> int_space (last core)"
  shows "int_trim (before @ core @ after) = core"
proof -
  have "dropWhile int_space (before @ core @ after) = core @ after"
    using assms by (cases core) (auto simp: dropWhile_append2)
  moreover have "dropWhile int_space (rev (core @ after)) = rev core"
    using assms dropWhile_append2 [of "rev after" int_space "rev core"] by (cases core rule: rev_cases) simp_all
  ultimately show ?thesis by (simp add: int_trim_def)
qed

lemma digit_groups_facts:
  assumes "digit_groups ds"
  shows "drop_hex_prefix ds = ds" "drop_sign ds = ds" "drop_one_underscore ds = ds" "ds \<noteq> []" "\<not> int_space (hd ds)" "\<not> int_space (last ds)"
proof -
  have hex: "ds \<noteq> []" "is_hex (hd ds)" "is_hex (last ds)" "\<forall>c \<in> set ds. is_hex c \<or> c = CHR ''_''"
    using assms by (simp_all add: digit_groups_def)
  then have "CHR ''x'' \<notin> set ds" "CHR ''X'' \<notin> set ds" by (auto simp: is_hex_def)
  then show "drop_hex_prefix ds = ds" by (cases ds rule: drop_hex_prefix.cases) auto
  show "drop_sign ds = ds" "drop_one_underscore ds = ds" using hex(1,2) by (cases ds; auto simp: is_hex_plain)+
  show "ds \<noteq> []" "\<not> int_space (hd ds)" "\<not> int_space (last ds)" using hex by (simp_all add: is_hex_not_space)
qed

lemma int16_ok_iff:
  "int16_ok s \<longleftrightarrow> (\<exists>before sign prefix ds after. s = before @ sign @ prefix @ ds @ after \<and> int16_text before sign prefix ds after)"
proof
  assume ok: "int16_ok s"
  obtain before after where trim: "s = before @ int_trim s @ after" "\<forall>c \<in> set before \<union> set after. int_space c"
    using int_trim_split by blast
  obtain sign where sign: "sign \<in> {[], ''+'', ''-''}" "int_trim s = sign @ drop_sign (int_trim s)" using drop_sign_split by blast
  obtain prefix where prefix: "prefix \<in> {[], ''0x'', ''0X'', ''0x_'', ''0X_''}"
    "drop_sign (int_trim s) = prefix @ drop_hex_prefix (drop_sign (int_trim s))" using drop_hex_prefix_split by blast
  have "s = before @ sign @ prefix @ drop_hex_prefix (drop_sign (int_trim s)) @ after"
    using trim(1) sign(2) prefix(2) by (metis append.assoc)
  moreover have "int16_text before sign prefix (drop_hex_prefix (drop_sign (int_trim s))) after"
    using ok trim(2) sign(1) prefix(1) by (simp add: int16_text_def int16_ok_def hex_body_groups)
  ultimately show "\<exists>before sign prefix ds after. s = before @ sign @ prefix @ ds @ after \<and> int16_text before sign prefix ds after"
    by blast
next
  assume "\<exists>before sign prefix ds after. s = before @ sign @ prefix @ ds @ after \<and> int16_text before sign prefix ds after"
  then obtain before sign prefix ds after where s: "s = before @ (sign @ prefix @ ds) @ after" "int16_text before sign prefix ds after"
    by auto
  then have t: "sign \<in> {[], ''+'', ''-''}" "prefix \<in> {[], ''0x'', ''0X'', ''0x_'', ''0X_''}" "digit_groups ds"
    "\<forall>c \<in> set before \<union> set after. int_space c" by (simp_all add: int16_text_def)
  note groups = digit_groups_facts [OF t(3)]
  have "int_trim s = sign @ prefix @ ds"
    unfolding s(1) by (rule int_trim_core) (use t groups in \<open>auto simp: int_space_def\<close>)
  moreover have "drop_sign (sign @ prefix @ ds) = prefix @ ds" using t(1,2) groups(2) by auto
  moreover have "drop_hex_prefix (prefix @ ds) = ds" using t(2) groups(1,3) by auto
  ultimately show "int16_ok s" using t(3) by (simp add: int16_ok_def hex_body_groups)
qed

lemma int16_text_plain:
  assumes "int16_text before sign prefix ds after" "\<forall>c \<in> set (before @ sign @ prefix @ ds @ after). is_hex c"
  shows "before @ sign @ prefix @ after = [] \<and> CHR ''_'' \<notin> set ds"
proof -
  have "before = []" "after = []" using assms is_hex_not_space by (cases before; cases after; auto simp: int16_text_def)+
  moreover have "\<not> is_hex (CHR ''+'')" "\<not> is_hex (CHR ''-'')" "\<not> is_hex (CHR ''x'')" "\<not> is_hex (CHR ''X'')" by (simp_all add: is_hex_def)
  moreover have "CHR ''_'' \<notin> set ds" using assms(2) underscore_not_hex by (metis Un_iff set_append)
  ultimately show ?thesis using assms by (auto simp: int16_text_def)
qed

section \<open>Properties\<close>

text \<open>C35: no cross-type collisions. Two values with the same canonical JSON text have the same tagged
  canonical form, and are the same value when they are built from atoms, enums, sequences and
  dataclasses: a string, a number, a boolean, an enum member and a record never share a text.\<close>

theorem canonical_text_faithful:
  assumes "canonical_json v = Inr s" "canonical_json w = Inr s"
  shows "canonical_value v = canonical_value w \<and> (plain v \<longrightarrow> plain w \<longrightarrow> v = w)"
proof -
  have same: "canonical_value v = canonical_value w" using assms by (rule canonical_json_value)
  obtain j where "canonical_value v = Inr j" using assms(1) by (auto simp: canonical_json_def)
  with same canonical_inject(1) show ?thesis by metis
qed

theorem canonical_text_faithful_witness:
  "canonical_json (PTuple [PStr ''1'', PInt 1]) = Inr (projr (canonical_json (PTuple [PStr ''1'', PInt 1])))
   \<and> canonical_json (PStr ''1'') \<noteq> canonical_json (PInt 1)"
proof
  show "canonical_json (PTuple [PStr ''1'', PInt 1])
      = Inr (projr (canonical_json (PTuple [PStr ''1'', PInt 1])))"
    by (simp add: canonical_json_def)
  have "canonical_json (PStr ''1'') = Inr (projr (canonical_json (PStr ''1'')))"
    by (simp add: canonical_json_def)
  from canonical_text_faithful [OF this, of "PInt 1"] this
  show "canonical_json (PStr ''1'') \<noteq> canonical_json (PInt 1)" by auto
qed

text \<open>Content addresses do not depend on enumeration order. Two enumerations of one set have the
  same digest, and so have two insertion orders of one mapping with distinct keys.\<close>

theorem digest_order_independent:
  "(mset vs = mset ws \<longrightarrow> content_digest (PSet vs) = Inr d \<longrightarrow> content_digest (PSet ws) = Inr d)
   \<and> (mset m = mset n \<longrightarrow> distinct (map fst m) \<longrightarrow> content_digest (PMapping m) = content_digest (PMapping n))"
  by (auto simp: content_digest_def canonical_json_def simp del: canonical_value.simps
      dest!: canonical_set_perm canonical_mapping_perm)

theorem digest_order_independent_witness:
  "content_digest (PMapping [(''b'', PInt 2), (''a'', PInt 1)])
     = content_digest (PMapping [(''a'', PInt 1), (''b'', PInt 2)])"
  using digest_order_independent [of "[]" "[]" "[]" "[(''b'', PInt 2), (''a'', PInt 1)]"
      "[(''a'', PInt 1), (''b'', PInt 2)]"] by simp

text \<open>Every content digest is accepted where a digest is required, whatever value it addresses and
  whatever field carries it.\<close>

theorem digest_accepted:
  assumes "content_digest v = Inr d"
  shows "require_sha256_digest d field = Inr ()"
  using content_digest_is_digest [OF assms] by (simp add: contract_simps)

theorem digest_accepted_witness:
  "\<exists>d. content_digest (PStr ''x'') = Inr d \<and> require_sha256_digest d ''f'' = Inr ()"
proof -
  obtain d where d: "content_digest (PStr ''x'') = Inr d" by (simp add: content_digest_def canonical_json_def)
  with digest_accepted [OF d, of "''f''"] show ?thesis by blast
qed

text \<open>C39: exactly what the digest check accepts. After the algorithm tag it takes 64 characters that Python's
  \<open>int(text, 16)\<close> can read: blanks, an optional sign, an optional \<open>0x\<close> prefix, hexadecimal digits with single underscores
  between them, and blanks. A text with any of these decorations passes although it is the digest of no value, while the
  message of the check asks for a hexadecimal digest.\<close>

theorem digest_check_lax:
  "(require_sha256_digest v field = Inr () \<longleftrightarrow>
      (\<exists>before sign prefix ds after. v = ''sha256:'' @ before @ sign @ prefix @ ds @ after
         \<and> length (before @ sign @ prefix @ ds @ after) = 64 \<and> int16_text before sign prefix ds after))
   \<and> (int16_text b s p ds a \<and> (b @ s @ p @ a \<noteq> [] \<or> CHR ''_'' \<in> set ds) \<longrightarrow>
        content_digest w \<noteq> Inr (''sha256:'' @ b @ s @ p @ ds @ a))"
proof
  have "is_digest v \<longleftrightarrow> (\<exists>t. v = ''sha256:'' @ t \<and> length t = 64 \<and> int16_ok t)"
  proof
    assume v: "is_digest v"
    let ?t = "drop (length ''sha256:'') v"
    have tag: "take (length ''sha256:'') v = ''sha256:''" "length v = length ''sha256:'' + 64" "int16_ok ?t"
      using v unfolding is_digest_def digest_prefix_ok_def by blast+
    have "v = ''sha256:'' @ ?t" using append_take_drop_id [of "length ''sha256:''" v] unfolding tag(1) by (rule sym)
    moreover have "length ?t = 64" using tag(2) by simp
    ultimately show "\<exists>t. v = ''sha256:'' @ t \<and> length t = 64 \<and> int16_ok t" using tag(3) by blast
  qed (auto simp: is_digest_def digest_prefix_ok_def)
  then show "require_sha256_digest v field = Inr () \<longleftrightarrow>
      (\<exists>before sign prefix ds after. v = ''sha256:'' @ before @ sign @ prefix @ ds @ after
         \<and> length (before @ sign @ prefix @ ds @ after) = 64 \<and> int16_text before sign prefix ds after)"
    unfolding require_sha256_digest_ok int16_ok_iff by blast
  show "int16_text b s p ds a \<and> (b @ s @ p @ a \<noteq> [] \<or> CHR ''_'' \<in> set ds) \<longrightarrow>
        content_digest w \<noteq> Inr (''sha256:'' @ b @ s @ p @ ds @ a)"
  proof (intro impI notI)
    assume form: "int16_text b s p ds a \<and> (b @ s @ p @ a \<noteq> [] \<or> CHR ''_'' \<in> set ds)"
      and digest: "content_digest w = Inr (''sha256:'' @ b @ s @ p @ ds @ a)"
    from digest obtain u where "sha256_hex u = b @ s @ p @ ds @ a" by (auto simp: content_digest_def digest_text_def)
    then have "\<forall>c \<in> set (b @ s @ p @ ds @ a). is_hex c" by (metis sha256_hex_shape(2))
    with int16_text_plain form show False by blast
  qed
qed

theorem digest_check_lax_witness:
  "require_sha256_digest (''sha256:0x'' @ replicate 62 (CHR ''f'')) ''f'' = Inr ()
   \<and> content_digest (PInt 1) \<noteq> Inr (''sha256:0x'' @ replicate 62 (CHR ''f''))"
proof -
  have form: "int16_text [] [] ''0x'' (replicate 62 (CHR ''f'')) []" by (auto simp: int16_text_def digit_groups_def is_hex_def)
  show ?thesis
    using digest_check_lax [of "''sha256:0x'' @ replicate 62 (CHR ''f'')" "''f''" "[]" "[]" "''0x''" "replicate 62 (CHR ''f'')" "[]" "PInt 1"] form
    by fastforce
qed

end
