(* ===== verification/Contracts.thy ===== *)
theory Contracts
  imports Canonical_Text
begin

text \<open>
  The state-carrying contracts of \<open>src/backend/app/strategy_lab_v2/contracts.py\<close> that the
  lifecycle, recovery and forward components pass around: \<open>RunAttempt\<close>, \<open>ForwardInstance\<close> and
  their enumerations.

  A dataclass is a \<^theory_text>\<open>record\<close>; \<open>mk_c\<close> is its constructor call, the
  generated \<open>__init__\<close> followed by \<open>__post_init__\<close>, and \<open>c_remake\<close> is
  \<open>dataclasses.replace\<close>, which runs \<open>__post_init__\<close> again on the updated fields. \<open>c_ok\<close> is the
  invariant that \<open>__post_init__\<close> establishes; the locale \<open>validated\<close> states what a dataclass
  promises its clients.
\<close>

section \<open>What a validated dataclass promises\<close>

locale validated =
  fixes remake :: "'r \<Rightarrow> 'r result" and ok :: "'r \<Rightarrow> bool"
  assumes remake_iff: "remake r = Inr r' \<longleftrightarrow> ok r \<and> r' = r"
begin

lemma remake_ok: "remake r = Inr r' \<Longrightarrow> ok r'"
  by (simp add: remake_iff)

lemma remake_same: "ok r \<Longrightarrow> remake r = Inr r"
  by (simp add: remake_iff)

lemma remake_rejects: "\<not> ok r \<Longrightarrow> \<exists>e. remake r = Inl e"
  by (metis remake_iff sum.exhaust)

lemma rbind_remake: "rbind (remake r) f = Inr x \<longleftrightarrow> ok r \<and> f r = Inr x"
  by (auto simp: remake_iff)

end

section \<open>Enumerations\<close>

datatype attempt_state =
    Attempt_QUEUED | Attempt_RUNNING | Attempt_SUCCEEDED | Attempt_FAILED | Attempt_CANCELLED

fun attempt_state_value :: "attempt_state \<Rightarrow> string" where
  "attempt_state_value Attempt_QUEUED = ''queued''"
| "attempt_state_value Attempt_RUNNING = ''running''"
| "attempt_state_value Attempt_SUCCEEDED = ''succeeded''"
| "attempt_state_value Attempt_FAILED = ''failed''"
| "attempt_state_value Attempt_CANCELLED = ''cancelled''"

datatype forward_state =
    Forward_CREATED | Forward_WARMING_UP | Forward_ACTIVE | Forward_PAUSED | Forward_STOPPED

fun forward_state_value :: "forward_state \<Rightarrow> string" where
  "forward_state_value Forward_CREATED = ''created''"
| "forward_state_value Forward_WARMING_UP = ''warming_up''"
| "forward_state_value Forward_ACTIVE = ''active''"
| "forward_state_value Forward_PAUSED = ''paused''"
| "forward_state_value Forward_STOPPED = ''stopped''"

datatype carry_in_mode = CarryIn_FLAT | CarryIn_SYNTHETIC_HISTORICAL

fun carry_in_value :: "carry_in_mode \<Rightarrow> string" where
  "carry_in_value CarryIn_FLAT = ''flat''"
| "carry_in_value CarryIn_SYNTHETIC_HISTORICAL = ''synthetic_historical''"

section \<open>Run attempts\<close>

text \<open>\<open>updated_at\<close> is declared optional, but \<open>__post_init__\<close> always fills it. A naive \<open>updated_at\<close>
  is not rejected: \<open>astimezone(UTC)\<close> runs before the check and reads it in the host's time zone,
  which is the parameter \<open>host\<close> (from a wall-clock reading to the instant it denotes).\<close>

record run_attempt =
  ra_attempt_id :: string
  ra_trial_id :: string
  ra_ordinal :: int
  ra_state :: attempt_state
  ra_created_at :: instant
  ra_updated_at :: instant

fun astimezone_utc :: "(int \<Rightarrow> instant) \<Rightarrow> datetime \<Rightarrow> instant" where
  "astimezone_utc host (Naive w) = host w"
| "astimezone_utc host (Aware i z) = i"

definition mk_run_attempt ::
  "(int \<Rightarrow> instant) \<Rightarrow> string \<Rightarrow> string \<Rightarrow> int \<Rightarrow> attempt_state \<Rightarrow> datetime \<Rightarrow> datetime option
     \<Rightarrow> run_attempt result" where
  "mk_run_attempt host attempt_id trial_id ordinal state created_at updated_at =
     raising
       [(blank attempt_id, ''attempt_id must not be empty''),
        (blank trial_id, ''trial_id must not be empty''),
        (ordinal < 1, ''attempt ordinal must be positive'')]
       (with_aware created_at ''created_at must be timezone-aware'' (\<lambda>created.
          let updated = astimezone_utc host (case updated_at of None \<Rightarrow> created_at | Some u \<Rightarrow> u)
          in raising
               [(updated < created, ''attempt updated_at must not precede created_at'')]
               (Inr \<lparr>ra_attempt_id = attempt_id, ra_trial_id = trial_id, ra_ordinal = ordinal,
                     ra_state = state, ra_created_at = created, ra_updated_at = updated\<rparr>)))"

definition run_attempt_remake :: "(int \<Rightarrow> instant) \<Rightarrow> run_attempt \<Rightarrow> run_attempt result" where
  "run_attempt_remake host a =
     mk_run_attempt host (ra_attempt_id a) (ra_trial_id a) (ra_ordinal a) (ra_state a)
       (utc (ra_created_at a)) (Some (utc (ra_updated_at a)))"

definition run_attempt_ok :: "run_attempt \<Rightarrow> bool" where
  "run_attempt_ok a \<longleftrightarrow> \<not> blank (ra_attempt_id a) \<and> \<not> blank (ra_trial_id a) \<and> 1 \<le> ra_ordinal a
     \<and> ra_created_at a \<le> ra_updated_at a"

lemma mk_run_attempt_ok: "mk_run_attempt host i t n s c u = Inr a \<Longrightarrow> run_attempt_ok a"
  by (auto simp: mk_run_attempt_def run_attempt_ok_def contract_simps Let_def split: option.splits)

lemma run_attempt_remake_iff: "run_attempt_remake host a = Inr b \<longleftrightarrow> run_attempt_ok a \<and> b = a"
  by (auto simp: run_attempt_remake_def mk_run_attempt_def run_attempt_ok_def contract_simps Let_def
      utc_def)

interpretation attempt: validated "run_attempt_remake host" run_attempt_ok
  by unfold_locales (rule run_attempt_remake_iff)

section \<open>Forward instances\<close>

record forward_instance =
  fi_instance_id :: string
  fi_portfolio_fingerprint :: string
  fi_warmup_snapshot_fingerprint :: string
  fi_carry_in_mode :: carry_in_mode
  fi_state :: forward_state
  fi_last_event_id :: "string option"
  fi_last_event_sequence :: int
  fi_correction_count :: int
  fi_created_at :: instant
  fi_updated_at :: instant

definition mk_forward_instance ::
  "string \<Rightarrow> string \<Rightarrow> string \<Rightarrow> carry_in_mode \<Rightarrow> forward_state \<Rightarrow> string option \<Rightarrow> int \<Rightarrow> int
     \<Rightarrow> datetime \<Rightarrow> datetime \<Rightarrow> forward_instance result" where
  "mk_forward_instance instance_id portfolio warmup carry_in state last_id last_seq corrections
       created_at updated_at =
     raising
       ([(blank instance_id, ''instance_id must not be empty'')]
        @ digest_checks portfolio ''portfolio_fingerprint''
        @ digest_checks warmup ''warmup_snapshot_fingerprint''
        @ [(last_seq < 0 \<or> corrections < 0,
              ''event sequence and correction count must be non-negative''),
           (last_id = None \<and> last_seq > 0, ''a forward event sequence requires its last_event_id'')])
       (with_aware created_at ''created_at must be timezone-aware'' (\<lambda>created.
        with_aware updated_at ''updated_at must be timezone-aware'' (\<lambda>updated.
        raising
          [(updated < created, ''updated_at must not precede created_at'')]
          (Inr \<lparr>fi_instance_id = instance_id, fi_portfolio_fingerprint = portfolio,
                fi_warmup_snapshot_fingerprint = warmup, fi_carry_in_mode = carry_in,
                fi_state = state, fi_last_event_id = last_id, fi_last_event_sequence = last_seq,
                fi_correction_count = corrections, fi_created_at = created,
                fi_updated_at = updated\<rparr>))))"

definition forward_instance_remake :: "forward_instance \<Rightarrow> forward_instance result" where
  "forward_instance_remake f =
     mk_forward_instance (fi_instance_id f) (fi_portfolio_fingerprint f)
       (fi_warmup_snapshot_fingerprint f) (fi_carry_in_mode f) (fi_state f) (fi_last_event_id f)
       (fi_last_event_sequence f) (fi_correction_count f) (utc (fi_created_at f))
       (utc (fi_updated_at f))"

definition forward_instance_ok :: "forward_instance \<Rightarrow> bool" where
  "forward_instance_ok f \<longleftrightarrow> \<not> blank (fi_instance_id f) \<and> is_digest (fi_portfolio_fingerprint f)
     \<and> is_digest (fi_warmup_snapshot_fingerprint f) \<and> 0 \<le> fi_last_event_sequence f
     \<and> 0 \<le> fi_correction_count f
     \<and> (fi_last_event_id f = None \<longrightarrow> fi_last_event_sequence f = 0)
     \<and> fi_created_at f \<le> fi_updated_at f"

lemma mk_forward_instance_ok:
  "mk_forward_instance i p w c s l n k cr u = Inr f \<Longrightarrow> forward_instance_ok f"
  by (auto simp: mk_forward_instance_def forward_instance_ok_def contract_simps)

lemma forward_instance_remake_iff:
  "forward_instance_remake f = Inr g \<longleftrightarrow> forward_instance_ok f \<and> g = f"
  by (auto simp: forward_instance_remake_def mk_forward_instance_def forward_instance_ok_def
      contract_simps utc_def)

interpretation forward_instance: validated forward_instance_remake forward_instance_ok
  by unfold_locales (rule forward_instance_remake_iff)

section \<open>Canonical form\<close>

text \<open>The dataclass a fingerprint digests: module-qualified type name and fields in order.\<close>

definition opt_py :: "('a \<Rightarrow> pyval) \<Rightarrow> 'a option \<Rightarrow> pyval" where
  "opt_py f x = (case x of None \<Rightarrow> PNone | Some v \<Rightarrow> f v)"

definition time_py :: "instant \<Rightarrow> pyval" where
  "time_py t = PDatetime (utc t)"

definition str_set_py :: "string set \<Rightarrow> pyval" where
  "str_set_py A = PSet (map PStr (sorted_list_of_set A))"

definition dataclass_py :: "string \<Rightarrow> (string \<times> pyval) list \<Rightarrow> pyval" where
  "dataclass_py q fs = PDataclass q (map (\<lambda>(n, v). (n, False, v)) fs)"

definition forward_instance_py :: "forward_instance \<Rightarrow> pyval" where
  "forward_instance_py f = dataclass_py ''app.strategy_lab_v2.contracts.ForwardInstance''
     [(''instance_id'', PStr (fi_instance_id f)),
      (''portfolio_fingerprint'', PStr (fi_portfolio_fingerprint f)),
      (''warmup_snapshot_fingerprint'', PStr (fi_warmup_snapshot_fingerprint f)),
      (''carry_in_mode'', PEnum ''app.strategy_lab_v2.contracts.CarryInMode''
         (PStr (carry_in_value (fi_carry_in_mode f)))),
      (''state'', PEnum ''app.strategy_lab_v2.contracts.ForwardState''
         (PStr (forward_state_value (fi_state f)))),
      (''last_event_id'', opt_py PStr (fi_last_event_id f)),
      (''last_event_sequence'', PInt (fi_last_event_sequence f)),
      (''correction_count'', PInt (fi_correction_count f)),
      (''created_at'', time_py (fi_created_at f)),
      (''updated_at'', time_py (fi_updated_at f))]"

text \<open>A value is encodable when its canonical form exists.\<close>

definition encodable :: "pyval \<Rightarrow> bool" where
  "encodable v \<longleftrightarrow> (\<exists>j. canonical_value v = Inr j)"

lemma content_digest_encodable: "encodable v \<Longrightarrow> content_digest v = Inr (digest v)"
  by (auto simp: encodable_def digest_def content_digest_def canonical_json_def)

lemma is_digest_digest: "encodable v \<Longrightarrow> is_digest (digest v)"
  using content_digest_encodable content_digest_is_digest by blast

lemma encodable_atoms [simp]:
  "encodable PNone" "encodable (PBool b)" "encodable (PInt i)" "encodable (PStr s)"
  "encodable (time_py t)" "encodable (PTimedelta d)"
  by (auto simp: encodable_def time_py_def utc_def)

lemma encodable_enum [simp]: "encodable (PEnum q v) \<longleftrightarrow> encodable v"
  by (auto simp: encodable_def)

lemma encodable_opt [simp]: "encodable (opt_py f x) \<longleftrightarrow> (\<forall>v. x = Some v \<longrightarrow> encodable (f v))"
  by (simp add: opt_py_def split: option.splits)

lemma canonical_list_encodable: "(\<exists>js. canonical_list vs = Inr js) \<longleftrightarrow> list_all encodable vs"
proof (induction vs)
  case (Cons v vs)
  then show ?case by (auto simp: encodable_def)
qed simp

lemma encodable_seq [simp]:
  "encodable (PSet vs) \<longleftrightarrow> list_all encodable vs" "encodable (PTuple vs) \<longleftrightarrow> list_all encodable vs"
  using canonical_list_encodable [of vs] by (auto simp: encodable_def)

lemma encodable_str_set [simp]: "encodable (str_set_py A)"
  by (simp add: str_set_py_def list_all_iff)

lemma canonical_fields_encodable:
  "list_all (\<lambda>(n, v). encodable v) fs
     \<Longrightarrow> \<exists>js. canonical_fields (map (\<lambda>(n, v). (n, False, v)) fs) = Inr js"
  by (induction fs) (auto simp: encodable_def)

lemma encodable_dataclass [simp]: "list_all (\<lambda>(n, v). encodable v) fs \<Longrightarrow> encodable (dataclass_py q fs)"
  using canonical_fields_encodable [of fs] by (auto simp: dataclass_py_def encodable_def)

lemma sequence_items_ok: "list_all (\<lambda>(k, r). \<exists>j. r = Inr j) xs \<Longrightarrow> \<exists>js. sequence_items xs = Inr js"
  by (induction xs) auto

lemma canonical_items_map: "canonical_items m = map (\<lambda>(k, v). (k, canonical_value v)) m"
  by (induction m) auto

lemma encodable_mapping [simp]: "list_all (\<lambda>(k, v). encodable v) m \<Longrightarrow> encodable (PMapping m)"
  using sequence_items_ok [of "sort_key fst (canonical_items m)"]
  by (auto simp: encodable_def canonical_items_map list_all_iff case_prod_beta)

lemma encodable_forward_instance [simp]: "encodable (forward_instance_py f)"
  by (simp add: forward_instance_py_def)

end
