(* ===== verification/Lifecycle.thy ===== *)
theory Lifecycle
  imports Contracts
begin

text \<open>
  \<open>src/backend/app/strategy_lab_v2/lifecycle.py\<close>: attempt and forward-instance transitions,
  infrastructure retries, worker leases, and the classification and application of forward events.
\<close>

section \<open>Transition tables\<close>

fun attempt_transitions :: "attempt_state \<Rightarrow> attempt_state set" where
  "attempt_transitions Attempt_QUEUED = {Attempt_RUNNING, Attempt_CANCELLED}"
| "attempt_transitions Attempt_RUNNING = {Attempt_SUCCEEDED, Attempt_FAILED, Attempt_CANCELLED}"
| "attempt_transitions Attempt_SUCCEEDED = {}"
| "attempt_transitions Attempt_FAILED = {}"
| "attempt_transitions Attempt_CANCELLED = {}"

fun forward_transitions :: "forward_state \<Rightarrow> forward_state set" where
  "forward_transitions Forward_CREATED = {Forward_WARMING_UP, Forward_STOPPED}"
| "forward_transitions Forward_WARMING_UP = {Forward_ACTIVE, Forward_STOPPED}"
| "forward_transitions Forward_ACTIVE = {Forward_PAUSED, Forward_STOPPED}"
| "forward_transitions Forward_PAUSED = {Forward_ACTIVE, Forward_STOPPED}"
| "forward_transitions Forward_STOPPED = {}"

definition transition_attempt ::
  "(int \<Rightarrow> instant) \<Rightarrow> run_attempt \<Rightarrow> attempt_state \<Rightarrow> datetime \<Rightarrow> run_attempt result" where
  "transition_attempt host attempt target now =
     with_aware now ''attempt transition time must be timezone-aware'' (\<lambda>t.
       raising
         [(t < ra_updated_at attempt, ''attempt transition time cannot move backwards''),
          (target \<notin> attempt_transitions (ra_state attempt),
             ''illegal attempt transition: '' @ attempt_state_value (ra_state attempt) @ '' -> ''
               @ attempt_state_value target)]
         (run_attempt_remake host (attempt\<lparr>ra_state := target, ra_updated_at := t\<rparr>)))"

definition create_retry_attempt ::
  "(int \<Rightarrow> instant) \<Rightarrow> run_attempt list \<Rightarrow> string \<Rightarrow> datetime \<Rightarrow> run_attempt result" where
  "create_retry_attempt host prior_attempts attempt_id created_at =
     (let ordered = sort_key ra_ordinal prior_attempts
      in raising
           [(prior_attempts = [], ''a retry requires at least one prior attempt''),
            (card (ra_trial_id ` set prior_attempts) \<noteq> 1,
               ''all attempts in a retry chain must reference one trial''),
            (map ra_ordinal ordered \<noteq> map int [1..<Suc (length ordered)],
               ''attempt ordinals must be contiguous from one''),
            (ra_state (last ordered) \<notin> {Attempt_FAILED, Attempt_CANCELLED},
               ''only failed or cancelled attempts may be retried''),
            (list_ex (\<lambda>a. ra_state a \<notin> {Attempt_SUCCEEDED, Attempt_FAILED, Attempt_CANCELLED})
               (butlast ordered),
               ''all earlier attempts must be terminal before retry'')]
           (compared created_at (\<lambda>created.
              raising
                [(created < ra_updated_at (last ordered),
                    ''retry creation time cannot precede the prior attempt''),
                 (list_ex (\<lambda>a. ra_attempt_id a = attempt_id) ordered,
                    ''attempt_id must be unique within its trial'')]
                (mk_run_attempt host attempt_id (ra_trial_id (last ordered))
                   (int (length ordered) + 1) Attempt_QUEUED created_at None))))"

section \<open>Worker leases\<close>

datatype lease_status = Lease_ACTIVE | Lease_EXPIRED | Lease_RELEASED

fun lease_status_value :: "lease_status \<Rightarrow> string" where
  "lease_status_value Lease_ACTIVE = ''active''"
| "lease_status_value Lease_EXPIRED = ''expired''"
| "lease_status_value Lease_RELEASED = ''released''"

record attempt_lease =
  ls_attempt_id :: string
  ls_worker_id :: string
  ls_lease_id :: string
  ls_leased_at :: instant
  ls_heartbeat_at :: instant
  ls_expires_at :: instant
  ls_released_at :: "instant option"

definition mk_attempt_lease ::
  "string \<Rightarrow> string \<Rightarrow> string \<Rightarrow> datetime \<Rightarrow> datetime \<Rightarrow> datetime \<Rightarrow> datetime option
     \<Rightarrow> attempt_lease result" where
  "mk_attempt_lease attempt_id worker_id lease_id leased_at heartbeat_at expires_at released_at =
     raising
       [(blank attempt_id, ''lease attempt_id must not be empty''),
        (blank worker_id, ''lease worker_id must not be empty''),
        (blank lease_id, ''lease lease_id must not be empty'')]
       (with_aware leased_at ''lease leased_at must be timezone-aware'' (\<lambda>leased.
        with_aware heartbeat_at ''lease heartbeat_at must be timezone-aware'' (\<lambda>heartbeat.
        with_aware expires_at ''lease expires_at must be timezone-aware'' (\<lambda>expires.
        with_aware_opt released_at ''lease released_at must be timezone-aware'' (\<lambda>released.
        raising
          [(heartbeat < leased, ''lease heartbeat cannot precede lease acquisition''),
           (expires \<le> heartbeat, ''lease expiry must follow the latest heartbeat''),
           ((case released of None \<Rightarrow> False | Some r \<Rightarrow> r < heartbeat),
              ''lease release cannot precede the latest heartbeat'')]
          (Inr \<lparr>ls_attempt_id = attempt_id, ls_worker_id = worker_id, ls_lease_id = lease_id,
                ls_leased_at = leased, ls_heartbeat_at = heartbeat, ls_expires_at = expires,
                ls_released_at = released\<rparr>))))))"

definition attempt_lease_remake :: "attempt_lease \<Rightarrow> attempt_lease result" where
  "attempt_lease_remake l =
     mk_attempt_lease (ls_attempt_id l) (ls_worker_id l) (ls_lease_id l) (utc (ls_leased_at l))
       (utc (ls_heartbeat_at l)) (utc (ls_expires_at l)) (map_option utc (ls_released_at l))"

definition status_at :: "attempt_lease \<Rightarrow> datetime \<Rightarrow> lease_status result" where
  "status_at l now =
     with_aware now ''lease status time must be timezone-aware'' (\<lambda>t.
       raising
         [(t < ls_leased_at l, ''lease status time cannot precede lease acquisition'')]
         (Inr (if (case ls_released_at l of None \<Rightarrow> False | Some r \<Rightarrow> r \<le> t) then Lease_RELEASED
               else if t < ls_expires_at l then Lease_ACTIVE else Lease_EXPIRED)))"

definition renew :: "attempt_lease \<Rightarrow> datetime \<Rightarrow> timedelta \<Rightarrow> attempt_lease result" where
  "renew l now lease_duration =
     raising [(lease_duration \<le> 0, ''lease duration must be positive'')]
       (with_aware now ''lease heartbeat time must be timezone-aware'' (\<lambda>t.
        raising [(t < ls_heartbeat_at l, ''lease heartbeat cannot move backwards'')]
          (rbind (status_at l now) (\<lambda>status.
           raising [(status \<noteq> Lease_ACTIVE, ''only an active lease can be renewed'')]
             (attempt_lease_remake (l\<lparr>ls_heartbeat_at := t, ls_expires_at := t + lease_duration\<rparr>))))))"

definition release :: "attempt_lease \<Rightarrow> datetime \<Rightarrow> attempt_lease result" where
  "release l now =
     with_aware now ''lease release time must be timezone-aware'' (\<lambda>t.
       raising
         [(t < ls_heartbeat_at l, ''lease release cannot move backwards''),
          (ls_released_at l \<noteq> None, ''lease is already released'')]
         (attempt_lease_remake (l\<lparr>ls_released_at := Some t\<rparr>)))"

definition acquire_attempt_lease ::
  "run_attempt \<Rightarrow> string \<Rightarrow> string \<Rightarrow> datetime \<Rightarrow> timedelta \<Rightarrow> attempt_lease result" where
  "acquire_attempt_lease attempt worker_id lease_id now lease_duration =
     raising
       [(ra_state attempt \<noteq> Attempt_RUNNING, ''only a running attempt can acquire a worker lease''),
        (lease_duration \<le> 0, ''lease duration must be positive'')]
       (with_aware now ''lease acquisition time must be timezone-aware'' (\<lambda>t.
          mk_attempt_lease (ra_attempt_id attempt) worker_id lease_id now now
            (utc (t + lease_duration)) None))"

section \<open>Forward instances\<close>

definition transition_forward_instance ::
  "forward_instance \<Rightarrow> forward_state \<Rightarrow> datetime \<Rightarrow> forward_instance result" where
  "transition_forward_instance inst target now =
     with_aware now ''forward transition time must be timezone-aware'' (\<lambda>t.
       raising
         [(target \<notin> forward_transitions (fi_state inst),
             ''illegal forward transition: '' @ forward_state_value (fi_state inst) @ '' -> ''
               @ forward_state_value target),
          (t < fi_updated_at inst, ''forward transition time cannot move backwards'')]
         (forward_instance_remake (inst\<lparr>fi_state := target, fi_updated_at := t\<rparr>)))"

section \<open>Forward events, cursors and observations\<close>

datatype disposition = ACCEPTED | GAP | DUPLICATE | OUT_OF_ORDER | CORRECTION

record forward_event =
  ev_event_id :: string
  ev_sequence :: int
  ev_event_time :: instant
  ev_arrived_at :: instant
  ev_source_digest :: string
  ev_correction_of :: "string option"

definition mk_forward_event ::
  "string \<Rightarrow> int \<Rightarrow> datetime \<Rightarrow> datetime \<Rightarrow> string \<Rightarrow> string option \<Rightarrow> forward_event result" where
  "mk_forward_event event_id sequence event_time arrived_at source_digest correction_of =
     raising
       ([(blank event_id \<or> blank source_digest,
            ''forward event identity and source digest must not be empty'')]
        @ digest_checks source_digest ''source_digest''
        @ [((case correction_of of None \<Rightarrow> False | Some c \<Rightarrow> blank c),
              ''correction_of must be non-empty when provided''),
           (sequence < 0, ''forward event sequence must be non-negative'')])
       (with_aware event_time ''event_time must be timezone-aware'' (\<lambda>et.
        with_aware arrived_at ''arrived_at must be timezone-aware'' (\<lambda>arr.
        Inr \<lparr>ev_event_id = event_id, ev_sequence = sequence, ev_event_time = et,
             ev_arrived_at = arr, ev_source_digest = source_digest,
             ev_correction_of = correction_of\<rparr>)))"

record forward_cursor =
  cu_last_sequence :: int
  cu_last_event_id :: "string option"
  cu_last_event_time :: "instant option"

definition mk_forward_cursor ::
  "int \<Rightarrow> string option \<Rightarrow> datetime option \<Rightarrow> forward_cursor result" where
  "mk_forward_cursor last_sequence last_event_id last_event_time =
     raising
       [(last_sequence < -1, ''cursor sequence must be at least -1''),
        (last_sequence = -1 \<and> (last_event_id \<noteq> None \<or> last_event_time \<noteq> None),
           ''an empty cursor cannot contain a last event''),
        (last_sequence \<ge> 0 \<and> (last_event_id = None \<or> last_event_id = Some [] \<or> last_event_time = None),
           ''a non-empty cursor requires the last event identity and time'')]
       (with_aware_opt last_event_time ''cursor event time must be timezone-aware'' (\<lambda>t.
          Inr \<lparr>cu_last_sequence = last_sequence, cu_last_event_id = last_event_id,
               cu_last_event_time = t\<rparr>))"

record observation =
  ob_disposition :: disposition
  ob_stale :: bool
  ob_missing_start :: "int option"
  ob_missing_end :: "int option"
  ob_requires_replay :: bool
  ob_next_cursor :: forward_cursor
  ob_buffer_event :: bool

definition mk_observation ::
  "disposition \<Rightarrow> bool \<Rightarrow> int option \<Rightarrow> int option \<Rightarrow> bool \<Rightarrow> forward_cursor \<Rightarrow> bool \<Rightarrow> observation result"
where
  "mk_observation disp stale missing_start missing_end requires_replay next_cursor buffer_event =
     raising
       [((case missing_start of None \<Rightarrow> False | Some n \<Rightarrow> n < 0),
           ''missing_sequence_start must be a non-negative integer or None''),
        ((case missing_end of None \<Rightarrow> False | Some n \<Rightarrow> n < 0),
           ''missing_sequence_end must be a non-negative integer or None''),
        ((missing_start = None) \<noteq> (missing_end = None),
           ''missing sequence bounds must be provided together''),
        ((case (missing_start, missing_end) of (Some a, Some b) \<Rightarrow> a > b | _ \<Rightarrow> False),
           ''missing sequence start must not exceed its end''),
        (disp = GAP \<and> (missing_start = None \<or> \<not> buffer_event),
           ''gap observations require missing bounds and buffering''),
        (disp \<noteq> GAP \<and> (missing_start \<noteq> None \<or> buffer_event),
           ''only gap observations may contain missing bounds or buffering''),
        (disp = CORRECTION \<and> \<not> requires_replay,
           ''correction observations require counterfactual replay''),
        (disp \<noteq> CORRECTION \<and> requires_replay, ''only correction observations may require replay'')]
       (Inr \<lparr>ob_disposition = disp, ob_stale = stale, ob_missing_start = missing_start,
             ob_missing_end = missing_end, ob_requires_replay = requires_replay,
             ob_next_cursor = next_cursor, ob_buffer_event = buffer_event\<rparr>)"

definition apply_forward_event_observation ::
  "forward_instance \<Rightarrow> forward_event \<Rightarrow> observation \<Rightarrow> forward_instance result" where
  "apply_forward_event_observation inst event obs =
     (if ob_disposition obs = ACCEPTED then
        raising
          [(cu_last_sequence (ob_next_cursor obs) \<noteq> ev_sequence event,
              ''accepted observation cursor must end at the event sequence''),
           (cu_last_event_id (ob_next_cursor obs) \<noteq> Some (ev_event_id event),
              ''accepted observation cursor must end at the event identity''),
           (fi_last_event_id inst \<noteq> None \<and> ev_sequence event \<le> fi_last_event_sequence inst,
              ''accepted event sequence must advance the instance cursor''),
           (ev_arrived_at event < fi_updated_at inst,
              ''event arrival time cannot move instance time backwards'')]
          (forward_instance_remake
             (inst\<lparr>fi_last_event_id := Some (ev_event_id event),
                   fi_last_event_sequence := ev_sequence event,
                   fi_updated_at := ev_arrived_at event\<rparr>))
      else if ob_disposition obs = CORRECTION then
        raising
          [(ev_correction_of event = None \<or> \<not> ob_requires_replay obs,
              ''correction observations require counterfactual replay evidence'')]
          (forward_instance_remake
             (inst\<lparr>fi_correction_count := fi_correction_count inst + 1,
                   fi_updated_at := max (fi_updated_at inst) (ev_arrived_at event)\<rparr>))
      else
        raising
          [(\<not> (cu_last_event_id (ob_next_cursor obs) = fi_last_event_id inst
               \<and> (if fi_last_event_id inst \<noteq> None
                   then cu_last_sequence (ob_next_cursor obs) = fi_last_event_sequence inst
                   else cu_last_sequence (ob_next_cursor obs) \<in> {-1, fi_last_event_sequence inst})),
              ''non-accepted observation must not advance the instance cursor'')]
          (Inr inst))"

definition observe_forward_event ::
  "forward_cursor \<Rightarrow> forward_event \<Rightarrow> string set \<Rightarrow> timedelta \<Rightarrow> observation result" where
  "observe_forward_event cursor event processed_event_ids stale_after =
     raising [(stale_after < 0, ''stale_after must not be negative'')]
       (let stale = ev_arrived_at event - ev_event_time event > stale_after
        in if ev_correction_of event \<noteq> None then
             mk_observation CORRECTION stale None None True cursor False
           else if ev_event_id event \<in> processed_event_ids
                   \<or> cu_last_event_id cursor = Some (ev_event_id event) then
             mk_observation DUPLICATE stale None None False cursor False
           else if ev_sequence event \<le> cu_last_sequence cursor
                   \<or> (case cu_last_event_time cursor of None \<Rightarrow> False | Some t \<Rightarrow> ev_event_time event < t)
           then
             mk_observation OUT_OF_ORDER stale None None False cursor False
           else if ev_sequence event > cu_last_sequence cursor + 1 then
             mk_observation GAP stale (Some (cu_last_sequence cursor + 1))
               (Some (ev_sequence event - 1)) False cursor True
           else
             rbind (mk_forward_cursor (ev_sequence event) (Some (ev_event_id event))
                      (Some (utc (ev_event_time event))))
               (\<lambda>next_cursor. mk_observation ACCEPTED stale None None False next_cursor False))"

definition default_stale_after :: timedelta where
  "default_stale_after = 300000000"

section \<open>Requests and invariants\<close>

text \<open>The steps a scheduler takes on one attempt, on one lease and on one forward instance, for the
  machines below. \<open>attempt_le\<close>, \<open>lease_le\<close> and \<open>forward_le\<close> say how far each of them may move.\<close>

fun attempt_step :: "(int \<Rightarrow> instant) \<Rightarrow> attempt_state \<times> datetime \<Rightarrow> run_attempt \<Rightarrow> run_attempt result"
where
  "attempt_step host (target, now) a = transition_attempt host a target now"

definition attempt_terminal :: "run_attempt \<Rightarrow> bool" where
  "attempt_terminal a \<longleftrightarrow> ra_state a \<in> {Attempt_SUCCEEDED, Attempt_FAILED, Attempt_CANCELLED}"

definition attempt_le :: "run_attempt \<Rightarrow> run_attempt \<Rightarrow> bool" where
  "attempt_le a b \<longleftrightarrow> ra_attempt_id b = ra_attempt_id a \<and> ra_trial_id b = ra_trial_id a
     \<and> ra_ordinal b = ra_ordinal a \<and> ra_created_at b = ra_created_at a
     \<and> ra_updated_at a \<le> ra_updated_at b \<and> (attempt_terminal a \<longrightarrow> b = a)
     \<and> (ra_state a = Attempt_RUNNING \<longrightarrow> ra_state b \<noteq> Attempt_QUEUED)"

datatype lease_request = Renew datetime timedelta | Release datetime

fun lease_step :: "lease_request \<Rightarrow> attempt_lease \<Rightarrow> attempt_lease result" where
  "lease_step (Renew now d) l = renew l now d"
| "lease_step (Release now) l = release l now"

definition attempt_lease_ok :: "attempt_lease \<Rightarrow> bool" where
  "attempt_lease_ok l \<longleftrightarrow> \<not> blank (ls_attempt_id l) \<and> \<not> blank (ls_worker_id l) \<and> \<not> blank (ls_lease_id l)
     \<and> ls_leased_at l \<le> ls_heartbeat_at l \<and> ls_heartbeat_at l < ls_expires_at l
     \<and> (\<forall>r. ls_released_at l = Some r \<longrightarrow> ls_heartbeat_at l \<le> r)"

definition lease_le :: "attempt_lease \<Rightarrow> attempt_lease \<Rightarrow> bool" where
  "lease_le l m \<longleftrightarrow> ls_attempt_id m = ls_attempt_id l \<and> ls_worker_id m = ls_worker_id l
     \<and> ls_lease_id m = ls_lease_id l \<and> ls_leased_at m = ls_leased_at l
     \<and> ls_heartbeat_at l \<le> ls_heartbeat_at m
     \<and> (\<forall>r. ls_released_at l = Some r \<longrightarrow> ls_released_at m = Some r)"

definition forward_event_ok :: "forward_event \<Rightarrow> bool" where
  "forward_event_ok e \<longleftrightarrow> \<not> blank (ev_event_id e) \<and> is_digest (ev_source_digest e)
     \<and> \<not> blank (ev_source_digest e)
     \<and> (\<forall>c. ev_correction_of e = Some c \<longrightarrow> \<not> blank c) \<and> 0 \<le> ev_sequence e"

definition forward_cursor_ok :: "forward_cursor \<Rightarrow> bool" where
  "forward_cursor_ok c \<longleftrightarrow>
     (cu_last_sequence c = -1 \<and> cu_last_event_id c = None \<and> cu_last_event_time c = None)
     \<or> (0 \<le> cu_last_sequence c \<and> (\<exists>e t. cu_last_event_id c = Some e \<and> e \<noteq> [] \<and> cu_last_event_time c = Some t))"

definition observation_ok :: "observation \<Rightarrow> bool" where
  "observation_ok ob \<longleftrightarrow>
     (if ob_disposition ob = GAP
      then ob_buffer_event ob
             \<and> (\<exists>a b. ob_missing_start ob = Some a \<and> ob_missing_end ob = Some b \<and> 0 \<le> a \<and> a \<le> b)
      else \<not> ob_buffer_event ob \<and> ob_missing_start ob = None \<and> ob_missing_end ob = None)
     \<and> (ob_requires_replay ob \<longleftrightarrow> ob_disposition ob = CORRECTION)"

section \<open>Attempts\<close>

lemma transition_attempt_Inr:
  "transition_attempt host a target now = Inr b \<longleftrightarrow>
     (\<exists>t z. now = Aware t z \<and> ra_updated_at a \<le> t \<and> target \<in> attempt_transitions (ra_state a)
        \<and> run_attempt_ok (a\<lparr>ra_state := target, ra_updated_at := t\<rparr>)
        \<and> b = a\<lparr>ra_state := target, ra_updated_at := t\<rparr>)"
  by (auto simp: transition_attempt_def contract_simps run_attempt_remake_iff)

lemma attempt_transitions_nonterminal: "target \<in> attempt_transitions (ra_state a) \<Longrightarrow> \<not> attempt_terminal a"
  by (cases "ra_state a") (auto simp: attempt_terminal_def)

interpretation attempts: guarded_machine "attempt_step host" run_attempt_ok attempt_le
proof
  fix s r s'
  assume "run_attempt_ok s" "attempt_step host r s = Inr s'"
  then show "run_attempt_ok s'" "attempt_le s s'"
    by (cases r; auto simp: transition_attempt_Inr attempt_le_def run_attempt_ok_def
        dest: attempt_transitions_nonterminal)+
next
  fix s t u
  show "attempt_le s s" by (simp add: attempt_le_def)
  show "attempt_le s t \<Longrightarrow> attempt_le t u \<Longrightarrow> attempt_le s u"
    by (auto simp: attempt_le_def attempt_terminal_def) (metis attempt_state.exhaust)
qed

lemma create_retry_attempt_Inr:
  "create_retry_attempt host prior i created_at = Inr b \<longleftrightarrow>
     (let ordered = sort_key ra_ordinal prior
      in prior \<noteq> [] \<and> card (ra_trial_id ` set prior) = 1
       \<and> map ra_ordinal ordered = map int [1..<Suc (length prior)]
       \<and> ra_state (last ordered) \<in> {Attempt_FAILED, Attempt_CANCELLED}
       \<and> (\<forall>a \<in> set (butlast ordered). attempt_terminal a)
       \<and> (\<exists>t z. created_at = Aware t z \<and> ra_updated_at (last ordered) \<le> t
            \<and> i \<notin> ra_attempt_id ` set prior
            \<and> \<not> blank i \<and> \<not> blank (ra_trial_id (last ordered))
            \<and> b = \<lparr>ra_attempt_id = i, ra_trial_id = ra_trial_id (last ordered),
                   ra_ordinal = int (length prior) + 1, ra_state = Attempt_QUEUED,
                   ra_created_at = t, ra_updated_at = t\<rparr>))"
  by (auto simp: create_retry_attempt_def mk_run_attempt_def Let_def contract_simps list_ex_iff
      attempt_terminal_def)


section \<open>Leases\<close>

lemma mk_attempt_lease_Inr:
  "mk_attempt_lease i w k la h x r = Inr l \<Longrightarrow> attempt_lease_ok l"
  by (auto simp: mk_attempt_lease_def attempt_lease_ok_def contract_simps)

lemma attempt_lease_remake_iff: "attempt_lease_remake l = Inr m \<longleftrightarrow> attempt_lease_ok l \<and> m = l"
  by (cases "ls_released_at l")
    (auto simp: attempt_lease_remake_def mk_attempt_lease_def attempt_lease_ok_def contract_simps utc_def)

interpretation lease: validated attempt_lease_remake attempt_lease_ok
  by unfold_locales (rule attempt_lease_remake_iff)

lemma status_at_Inr:
  "status_at l now = Inr st \<longleftrightarrow>
     (\<exists>t z. now = Aware t z \<and> ls_leased_at l \<le> t
        \<and> st = (if \<exists>r. ls_released_at l = Some r \<and> r \<le> t then Lease_RELEASED
                else if t < ls_expires_at l then Lease_ACTIVE else Lease_EXPIRED))"
  by (auto simp: status_at_def contract_simps split: option.splits)

lemma renew_Inr:
  "renew l now d = Inr m \<longleftrightarrow>
     0 < d \<and> (\<exists>t z. now = Aware t z \<and> ls_heartbeat_at l \<le> t \<and> status_at l now = Inr Lease_ACTIVE
       \<and> attempt_lease_ok (l\<lparr>ls_heartbeat_at := t, ls_expires_at := t + d\<rparr>)
       \<and> m = l\<lparr>ls_heartbeat_at := t, ls_expires_at := t + d\<rparr>)"
  by (auto simp: renew_def contract_simps attempt_lease_remake_iff)

lemma release_Inr:
  "release l now = Inr m \<longleftrightarrow>
     ls_released_at l = None
     \<and> (\<exists>t z. now = Aware t z \<and> ls_heartbeat_at l \<le> t
          \<and> attempt_lease_ok (l\<lparr>ls_released_at := Some t\<rparr>) \<and> m = l\<lparr>ls_released_at := Some t\<rparr>)"
  by (auto simp: release_def contract_simps attempt_lease_remake_iff)

interpretation leases: guarded_machine lease_step attempt_lease_ok lease_le
proof
  fix s r s'
  assume "attempt_lease_ok s" "lease_step r s = Inr s'"
  then show "attempt_lease_ok s'" "lease_le s s'"
    by (cases r; auto simp: renew_Inr release_Inr lease_le_def)+
next
  fix s t u
  show "lease_le s s" by (simp add: lease_le_def)
  show "lease_le s t \<Longrightarrow> lease_le t u \<Longrightarrow> lease_le s u" by (auto simp: lease_le_def)
qed

section \<open>Forward instances and events\<close>

lemma transition_forward_instance_Inr:
  "transition_forward_instance f target now = Inr g \<longleftrightarrow>
     (\<exists>t z. now = Aware t z \<and> target \<in> forward_transitions (fi_state f) \<and> fi_updated_at f \<le> t
        \<and> forward_instance_ok (f\<lparr>fi_state := target, fi_updated_at := t\<rparr>)
        \<and> g = f\<lparr>fi_state := target, fi_updated_at := t\<rparr>)"
  by (auto simp: transition_forward_instance_def contract_simps forward_instance_remake_iff)

lemma mk_forward_event_ok: "mk_forward_event i n t a d c = Inr e \<Longrightarrow> forward_event_ok e"
  by (auto simp: mk_forward_event_def forward_event_ok_def contract_simps split: option.splits)

lemma mk_forward_cursor_ok: "mk_forward_cursor n i t = Inr c \<Longrightarrow> forward_cursor_ok c"
  by (auto simp: mk_forward_cursor_def forward_cursor_ok_def contract_simps)

lemma mk_forward_cursor_event [simp]:
  "forward_event_ok e \<Longrightarrow>
     mk_forward_cursor (ev_sequence e) (Some (ev_event_id e)) (Some (utc (ev_event_time e))) =
       Inr \<lparr>cu_last_sequence = ev_sequence e, cu_last_event_id = Some (ev_event_id e),
            cu_last_event_time = Some (ev_event_time e)\<rparr>"
  by (auto simp: mk_forward_cursor_def forward_event_ok_def raising.simps dest: not_blank_nonempty)

lemma mk_observation_Inr:
  "mk_observation d st a b rep cur buf = Inr ob \<longleftrightarrow>
     ob = \<lparr>ob_disposition = d, ob_stale = st, ob_missing_start = a, ob_missing_end = b,
           ob_requires_replay = rep, ob_next_cursor = cur, ob_buffer_event = buf\<rparr> \<and> observation_ok ob"
  by (cases a; cases b) (auto simp: mk_observation_def observation_ok_def contract_simps)

lemma mk_observation_simps:
  "mk_observation d st None None (d = CORRECTION) cur False =
     (if d = GAP then Inl (ValueError ''gap observations require missing bounds and buffering'')
      else Inr \<lparr>ob_disposition = d, ob_stale = st, ob_missing_start = None, ob_missing_end = None,
                ob_requires_replay = (d = CORRECTION), ob_next_cursor = cur, ob_buffer_event = False\<rparr>)"
  by (auto simp: mk_observation_def raising.simps)

lemma observe_forward_event_Inr:
  assumes "forward_cursor_ok c" "forward_event_ok e" "0 \<le> w"
  shows "\<exists>ob. observe_forward_event c e P w = Inr ob \<and> observation_ok ob
     \<and> forward_cursor_ok (ob_next_cursor ob)
     \<and> (ob_stale ob \<longleftrightarrow> ev_arrived_at e - ev_event_time e > w)
     \<and> (ob_disposition ob = ACCEPTED \<longleftrightarrow>
          ev_correction_of e = None \<and> ev_event_id e \<notin> P \<and> cu_last_event_id c \<noteq> Some (ev_event_id e)
          \<and> ev_sequence e = cu_last_sequence c + 1
          \<and> (\<forall>t. cu_last_event_time c = Some t \<longrightarrow> t \<le> ev_event_time e))
     \<and> (ob_disposition ob = CORRECTION \<longleftrightarrow> ev_correction_of e \<noteq> None)
     \<and> (ob_disposition ob = DUPLICATE \<longleftrightarrow>
          ev_correction_of e = None \<and> (ev_event_id e \<in> P \<or> cu_last_event_id c = Some (ev_event_id e)))
     \<and> (ob_disposition ob = GAP \<longrightarrow>
          ob_missing_start ob = Some (cu_last_sequence c + 1)
          \<and> ob_missing_end ob = Some (ev_sequence e - 1))
     \<and> ob_next_cursor ob =
         (if ob_disposition ob = ACCEPTED
          then \<lparr>cu_last_sequence = ev_sequence e, cu_last_event_id = Some (ev_event_id e),
                cu_last_event_time = Some (ev_event_time e)\<rparr>
          else c)"
proof -
  have cur: "-1 \<le> cu_last_sequence c" using assms(1) by (auto simp: forward_cursor_ok_def)
  have ev: "0 \<le> ev_sequence e" "ev_event_id e \<noteq> []"
    using assms(2) by (auto simp: forward_event_ok_def dest: not_blank_nonempty)
  show ?thesis
    using assms cur ev
    by (cases "cu_last_event_time c")
      (auto simp: observe_forward_event_def raising.simps mk_observation_def mk_forward_cursor_def
        Let_def observation_ok_def forward_cursor_ok_def)
qed

text \<open>Feeding a stream of events through a cursor: the events it accepts, in order. The ids it has
  accepted are the processed ids of the next classification.\<close>

fun deliver ::
  "timedelta \<Rightarrow> forward_cursor \<Rightarrow> string set \<Rightarrow> forward_event list \<Rightarrow> forward_event list" where
  "deliver w c P [] = []"
| "deliver w c P (e # es) =
     (case observe_forward_event c e P w of
        Inl err \<Rightarrow> deliver w c P es
      | Inr ob \<Rightarrow>
          if ob_disposition ob = ACCEPTED
          then e # deliver w (ob_next_cursor ob) (insert (ev_event_id e) P) es
          else deliver w (ob_next_cursor ob) P es)"

lemma deliver_Cons_cases:
  assumes "forward_cursor_ok c" "forward_event_ok e" "0 \<le> w"
  obtains (accepted)
    "deliver w c P (e # es) = e # deliver w \<lparr>cu_last_sequence = ev_sequence e,
        cu_last_event_id = Some (ev_event_id e), cu_last_event_time = Some (ev_event_time e)\<rparr>
        (insert (ev_event_id e) P) es"
    "forward_cursor_ok \<lparr>cu_last_sequence = ev_sequence e, cu_last_event_id = Some (ev_event_id e),
        cu_last_event_time = Some (ev_event_time e)\<rparr>"
    "ev_sequence e = cu_last_sequence c + 1" "ev_event_id e \<notin> P"
    "\<forall>t. cu_last_event_time c = Some t \<longrightarrow> t \<le> ev_event_time e"
  | (other) "deliver w c P (e # es) = deliver w c P es"
proof -
  obtain ob where ob: "observe_forward_event c e P w = Inr ob" "forward_cursor_ok (ob_next_cursor ob)"
    "ob_disposition ob = ACCEPTED \<longleftrightarrow>
       ev_correction_of e = None \<and> ev_event_id e \<notin> P \<and> cu_last_event_id c \<noteq> Some (ev_event_id e)
       \<and> ev_sequence e = cu_last_sequence c + 1
       \<and> (\<forall>t. cu_last_event_time c = Some t \<longrightarrow> t \<le> ev_event_time e)"
    "ob_next_cursor ob = (if ob_disposition ob = ACCEPTED
       then \<lparr>cu_last_sequence = ev_sequence e, cu_last_event_id = Some (ev_event_id e),
             cu_last_event_time = Some (ev_event_time e)\<rparr> else c)"
    using observe_forward_event_Inr [OF assms, of P] by blast
  show thesis
  proof (cases "ob_disposition ob = ACCEPTED")
    case True
    with ob show ?thesis by (intro accepted) auto
  next
    case False
    with ob show ?thesis by (intro other) auto
  qed
qed

lemma deliver_in_order:
  assumes "\<forall>e \<in> set es. forward_event_ok e" "forward_cursor_ok c" "0 \<le> w"
  shows "map ev_sequence (deliver w c P es)
           = map (\<lambda>k. cu_last_sequence c + 1 + int k) [0..<length (deliver w c P es)]
         \<and> distinct (map ev_event_id (deliver w c P es))
         \<and> ev_event_id ` set (deliver w c P es) \<inter> P = {}
         \<and> sorted (map ev_event_time (deliver w c P es))
         \<and> (\<forall>t e. cu_last_event_time c = Some t \<longrightarrow> e \<in> set (deliver w c P es) \<longrightarrow> t \<le> ev_event_time e)"
  using assms(1,2)
proof (induction es arbitrary: c P)
  case (Cons e es)
  then have ok: "forward_event_ok e" "forward_cursor_ok c" "\<forall>e \<in> set es. forward_event_ok e" by auto
  from ok(2,1) assms(3) show ?case
  proof (cases rule: deliver_Cons_cases [where es = es and P = P])
    case accepted
    let ?c = "\<lparr>cu_last_sequence = ev_sequence e, cu_last_event_id = Some (ev_event_id e),
      cu_last_event_time = Some (ev_event_time e)\<rparr>"
    let ?d = "deliver w ?c (insert (ev_event_id e) P) es"
    have IH: "map ev_sequence ?d = map (\<lambda>k. ev_sequence e + 1 + int k) [0..<length ?d]"
      "distinct (map ev_event_id ?d)" "ev_event_id ` set ?d \<inter> insert (ev_event_id e) P = {}"
      "sorted (map ev_event_time ?d)" "\<forall>x \<in> set ?d. ev_event_time e \<le> ev_event_time x"
      using Cons.IH [OF ok(3) accepted(2), of "insert (ev_event_id e) P"] by simp_all
    have "map ev_sequence (e # ?d) =
        map (\<lambda>k. cu_last_sequence c + 1 + int k) [0..<length (e # ?d)]"
      using accepted(3) IH(1) by (simp add: upt_conv_Cons map_Suc_upt [symmetric] del: upt_Suc)
    with IH accepted show ?thesis by (auto simp del: deliver.simps)
  next
    case other
    with Cons.IH [OF ok(3,2), of P] show ?thesis by (simp del: deliver.simps)
  qed
qed simp

section \<open>Properties\<close>

text \<open>C4: whatever transitions a scheduler requests, legal or not, in any order, a valid attempt
  stays valid, keeps its identity, trial, ordinal and creation time, never moves its update time
  back, never returns to the queue once running, and never changes again once terminal.\<close>

theorem attempt_requests:
  assumes "run_attempt_ok a"
  shows "run_attempt_ok (serve (attempt_step host) rs a) \<and> attempt_le a (serve (attempt_step host) rs a)
     \<and> attempt_le (serve (attempt_step host) rs a) (serve (attempt_step host) (rs @ qs) a)"
  using assms by (simp add: attempts.serve_inv attempts.serve_le attempts.serve_later)

definition sample_attempt :: run_attempt where
  "sample_attempt = \<lparr>ra_attempt_id = ''a-1'', ra_trial_id = ''t-1'', ra_ordinal = 1,
     ra_state = Attempt_QUEUED, ra_created_at = 0, ra_updated_at = 0\<rparr>"

lemma sample_attempt_ok: "run_attempt_ok sample_attempt"
  by code_simp

theorem attempt_requests_witness:
  "run_attempt_ok sample_attempt
   \<and> serve (attempt_step id) [(Attempt_RUNNING, utc 5), (Attempt_QUEUED, utc 6), (Attempt_FAILED, utc 7),
       (Attempt_RUNNING, utc 8)] sample_attempt
     = sample_attempt\<lparr>ra_state := Attempt_FAILED, ra_updated_at := 7\<rparr>
   \<and> attempt_le sample_attempt (serve (attempt_step id) [(Attempt_RUNNING, utc 5)] sample_attempt)"
proof (intro conjI)
  show "serve (attempt_step id) [(Attempt_RUNNING, utc 5), (Attempt_QUEUED, utc 6),
      (Attempt_FAILED, utc 7), (Attempt_RUNNING, utc 8)] sample_attempt
     = sample_attempt\<lparr>ra_state := Attempt_FAILED, ra_updated_at := 7\<rparr>"
    by code_simp
qed (use sample_attempt_ok attempt_requests [OF sample_attempt_ok] in blast)+

text \<open>A retry is created only behind a finished chain, and extends it: the new attempt is
  queued, belongs to the chain's trial, carries the next ordinal and a new id, every earlier
  attempt is terminal, the latest one failed or was cancelled, and the ordinals stay contiguous
  from one.\<close>

theorem retry_extends_chain:
  assumes "create_retry_attempt host prior i created_at = Inr b"
  shows "run_attempt_ok b \<and> ra_state b = Attempt_QUEUED \<and> ra_attempt_id b = i
     \<and> i \<notin> ra_attempt_id ` set prior \<and> (\<forall>a \<in> set prior. ra_trial_id a = ra_trial_id b)
     \<and> (\<forall>a \<in> set prior. attempt_terminal a)
     \<and> (\<exists>a \<in> set prior. ra_ordinal a = int (length prior) \<and> ra_updated_at a \<le> ra_created_at b
          \<and> ra_state a \<in> {Attempt_FAILED, Attempt_CANCELLED})
     \<and> ra_ordinal ` set (b # prior) = {1..int (length prior) + 1} \<and> distinct (map ra_ordinal (b # prior))"
proof -
  let ?os = "sort_key ra_ordinal prior"
  from assms have ne: "prior \<noteq> []" and one: "card (ra_trial_id ` set prior) = 1"
    and ords: "map ra_ordinal ?os = map int [1..<Suc (length prior)]"
    and lastst: "ra_state (last ?os) \<in> {Attempt_FAILED, Attempt_CANCELLED}"
    and early: "\<forall>a \<in> set (butlast ?os). attempt_terminal a"
    and b: "ra_attempt_id b = i" "ra_trial_id b = ra_trial_id (last ?os)"
      "ra_ordinal b = int (length prior) + 1" "ra_state b = Attempt_QUEUED"
      "ra_updated_at (last ?os) \<le> ra_created_at b" "i \<notin> ra_attempt_id ` set prior"
    by (auto simp: create_retry_attempt_Inr Let_def)
  have ok: "run_attempt_ok b"
    using assms by (auto simp: create_retry_attempt_def Let_def contract_simps dest: mk_run_attempt_ok)
  have os: "?os \<noteq> []" "set ?os = set prior" "length ?os = length prior"
    using ne by (metis length_0_conv length_sort, simp_all)
  then have lastin: "last ?os \<in> set prior" by (metis last_in_set)
  have trial: "\<forall>a \<in> set prior. ra_trial_id a = ra_trial_id b"
    using one lastin b(2) by (metis card_1_singletonE imageI singletonD)
  have fin: "\<forall>a \<in> set prior. attempt_terminal a"
  proof
    fix a assume "a \<in> set prior"
    then have "a \<in> set (butlast ?os @ [last ?os])" using os by simp
    then show "attempt_terminal a" using early lastst by (auto simp: attempt_terminal_def)
  qed
  have "ra_ordinal (last ?os) = last (map int [1..<Suc (length prior)])"
    using ords os(1) by (metis last_map)
  then have lasto: "ra_ordinal (last ?os) = int (length prior)" using ne by (simp add: Suc_le_eq)
  have dom: "ra_ordinal ` set prior = int ` {1..length prior}"
    using arg_cong [OF ords, of set] os(2) by (simp add: atLeastLessThanSuc_atLeastAtMost del: upt_Suc)
  have "distinct (map ra_ordinal ?os)" unfolding ords by (simp add: distinct_map del: upt_Suc)
  then have dist: "distinct (map ra_ordinal prior)"
    using os by (metis card_distinct distinct_card length_map set_map)
  have dom': "ra_ordinal ` set prior = {1..int (length prior)}"
    unfolding dom by (auto simp: image_int_atLeastAtMost)
  show ?thesis
    using ok b trial fin lastin lasto lastst dist dom'
    by (auto simp: image_iff)
qed

definition sample_retry :: run_attempt where
  "sample_retry = \<lparr>ra_attempt_id = ''a-2'', ra_trial_id = ''t-1'', ra_ordinal = 2,
     ra_state = Attempt_QUEUED, ra_created_at = 9, ra_updated_at = 9\<rparr>"

lemma sample_retry_created:
  "create_retry_attempt id [sample_attempt\<lparr>ra_state := Attempt_FAILED, ra_updated_at := 7\<rparr>] ''a-2''
     (utc 9) = Inr sample_retry"
  by code_simp

theorem retry_extends_chain_witness:
  "create_retry_attempt id [sample_attempt\<lparr>ra_state := Attempt_FAILED, ra_updated_at := 7\<rparr>] ''a-2''
     (utc 9) = Inr sample_retry \<and> run_attempt_ok sample_retry
   \<and> distinct (map ra_ordinal [sample_retry, sample_attempt])"
  using sample_retry_created retry_extends_chain [OF sample_retry_created] by simp

lemma renewed_status:
  "attempt_lease_ok l \<Longrightarrow> renew l (Aware t z) d = Inr m \<Longrightarrow> t \<le> u
     \<Longrightarrow> \<forall>r. ls_released_at l = Some r \<longrightarrow> u < r
     \<Longrightarrow> status_at m (Aware u y) = Inr (if u < t + d then Lease_ACTIVE else Lease_EXPIRED)"
  by (auto simp: renew_Inr status_at_Inr attempt_lease_ok_def)

lemma released_status:
  assumes "attempt_lease_ok l" "release l (Aware t z) = Inr m" "t \<le> u"
  shows "status_at m (Aware u y) = Inr Lease_RELEASED \<and> (\<forall>k. \<exists>e. renew m (Aware u y) k = Inl e)"
proof -
  have *: "status_at m (Aware u y) = Inr Lease_RELEASED"
    using assms by (auto simp: release_Inr status_at_Inr attempt_lease_ok_def)
  then have "\<exists>e. renew m (Aware u y) k = Inl e" for k
    by (cases "renew m (Aware u y) k") (auto simp: renew_Inr)
  with * show ?thesis by blast
qed

text \<open>C3: a lease gives authority for exactly the window it names. Over any renewals and releases a
  valid lease stays valid, never changes hands and never moves its heartbeat back; only an active
  lease is renewed, and a successful renewal at \<open>t\<close> makes it active on the whole window from \<open>t\<close> to \<open>t + d\<close> (up to a recorded release)
  and expired afterwards; once released at \<open>r\<close> it reads as released, and cannot be renewed, from \<open>r\<close>
  on.\<close>

theorem lease_authority:
  assumes "attempt_lease_ok l0" and l: "l = serve lease_step rs l0"
  shows "attempt_lease_ok l \<and> lease_le l0 l
    \<and> (\<forall>t z d m. renew l (Aware t z) d = Inr m \<longrightarrow> status_at l (Aware t z) = Inr Lease_ACTIVE)
    \<and> (\<forall>t z d m u y. renew l (Aware t z) d = Inr m \<longrightarrow> t \<le> u
         \<longrightarrow> (\<forall>r. ls_released_at l = Some r \<longrightarrow> u < r)
         \<longrightarrow> status_at m (Aware u y) = Inr (if u < t + d then Lease_ACTIVE else Lease_EXPIRED))
    \<and> (\<forall>t z m u y. release l (Aware t z) = Inr m \<longrightarrow> t \<le> u
         \<longrightarrow> status_at m (Aware u y) = Inr Lease_RELEASED \<and> (\<forall>k. \<exists>e. renew m (Aware u y) k = Inl e))"
proof -
  have ok: "attempt_lease_ok l" "lease_le l0 l"
    using assms by (simp_all add: leases.serve_inv leases.serve_le)
  moreover have "\<forall>t z d m. renew l (Aware t z) d = Inr m \<longrightarrow> status_at l (Aware t z) = Inr Lease_ACTIVE"
    by (auto simp: renew_Inr)
  ultimately show ?thesis using renewed_status [OF ok(1)] released_status [OF ok(1)] by blast
qed

definition sample_lease :: attempt_lease where
  "sample_lease = \<lparr>ls_attempt_id = ''a-1'', ls_worker_id = ''w-1'', ls_lease_id = ''l-1'',
     ls_leased_at = 0, ls_heartbeat_at = 0, ls_expires_at = 10, ls_released_at = None\<rparr>"

lemma sample_lease_ok: "attempt_lease_ok sample_lease"
  by (simp add: attempt_lease_ok_def sample_lease_def blank_iff py_space_def)

lemma sample_lease_renewed:
  "serve lease_step [Renew (utc 5) 10, Renew (utc 20) 10] sample_lease
     = sample_lease\<lparr>ls_heartbeat_at := 5, ls_expires_at := 15\<rparr>"
  by code_simp

lemma sample_lease_renewable:
  "renew (sample_lease\<lparr>ls_heartbeat_at := 5, ls_expires_at := 15\<rparr>) (Aware 8 0) 10
     = Inr (sample_lease\<lparr>ls_heartbeat_at := 8, ls_expires_at := 18\<rparr>)"
  by code_simp

theorem lease_authority_witness:
  "attempt_lease_ok sample_lease
   \<and> status_at (sample_lease\<lparr>ls_heartbeat_at := 8, ls_expires_at := 18\<rparr>) (Aware 17 0) = Inr Lease_ACTIVE
   \<and> status_at (sample_lease\<lparr>ls_heartbeat_at := 8, ls_expires_at := 18\<rparr>) (Aware 18 0) = Inr Lease_EXPIRED"
  using lease_authority [OF sample_lease_ok sample_lease_renewed [symmetric]] sample_lease_ok
    sample_lease_renewable
  by (fastforce simp: sample_lease_def)

text \<open>Classification is total and exact. For a valid cursor and a valid event it always returns
  a well-formed observation; an event is accepted exactly when it is no correction, is new, has the
  next sequence number and does not go back in time; the missing range of a gap is exactly what
  lies between the cursor and the event; and only an accepted event moves the cursor, onto that
  event.\<close>

theorem observe_exact:
  assumes "forward_cursor_ok c" "forward_event_ok e" "0 \<le> w"
  shows "\<exists>ob. observe_forward_event c e P w = Inr ob \<and> observation_ok ob
     \<and> forward_cursor_ok (ob_next_cursor ob)
     \<and> (ob_stale ob \<longleftrightarrow> ev_arrived_at e - ev_event_time e > w)
     \<and> (ob_disposition ob = ACCEPTED \<longleftrightarrow>
          ev_correction_of e = None \<and> ev_event_id e \<notin> P \<and> cu_last_event_id c \<noteq> Some (ev_event_id e)
          \<and> ev_sequence e = cu_last_sequence c + 1
          \<and> (\<forall>t. cu_last_event_time c = Some t \<longrightarrow> t \<le> ev_event_time e))
     \<and> (ob_disposition ob = GAP \<longrightarrow>
          (\<exists>a b. ob_missing_start ob = Some a \<and> ob_missing_end ob = Some b
             \<and> {a..b} = {cu_last_sequence c <..< ev_sequence e} \<and> {a..b} \<noteq> {}))
     \<and> ob_next_cursor ob =
         (if ob_disposition ob = ACCEPTED
          then \<lparr>cu_last_sequence = ev_sequence e, cu_last_event_id = Some (ev_event_id e),
                cu_last_event_time = Some (ev_event_time e)\<rparr>
          else c)"
proof -
  obtain ob where ob: "observe_forward_event c e P w = Inr ob" "observation_ok ob"
    "forward_cursor_ok (ob_next_cursor ob)" "ob_stale ob \<longleftrightarrow> ev_arrived_at e - ev_event_time e > w"
    "ob_disposition ob = ACCEPTED \<longleftrightarrow>
          ev_correction_of e = None \<and> ev_event_id e \<notin> P \<and> cu_last_event_id c \<noteq> Some (ev_event_id e)
          \<and> ev_sequence e = cu_last_sequence c + 1
          \<and> (\<forall>t. cu_last_event_time c = Some t \<longrightarrow> t \<le> ev_event_time e)"
    "ob_disposition ob = GAP \<longrightarrow>
          ob_missing_start ob = Some (cu_last_sequence c + 1)
          \<and> ob_missing_end ob = Some (ev_sequence e - 1)"
    "ob_next_cursor ob = (if ob_disposition ob = ACCEPTED
          then \<lparr>cu_last_sequence = ev_sequence e, cu_last_event_id = Some (ev_event_id e),
                cu_last_event_time = Some (ev_event_time e)\<rparr> else c)"
    using observe_forward_event_Inr [OF assms, of P] by blast
  have "ob_disposition ob = GAP \<longrightarrow>
          (\<exists>a b. ob_missing_start ob = Some a \<and> ob_missing_end ob = Some b
             \<and> {a..b} = {cu_last_sequence c <..< ev_sequence e} \<and> {a..b} \<noteq> {})"
    using ob(2,6) by (auto simp: observation_ok_def)
  with ob show ?thesis by blast
qed

definition sample_digest :: string where
  "sample_digest = ''sha256:'' @ replicate 64 (CHR ''a'')"

lemma is_digest_sample [simp]: "is_digest sample_digest"
  by code_simp

definition sample_event :: "string \<Rightarrow> int \<Rightarrow> forward_event" where
  "sample_event i n = \<lparr>ev_event_id = i, ev_sequence = n, ev_event_time = n, ev_arrived_at = n,
     ev_source_digest = sample_digest, ev_correction_of = None\<rparr>"

definition empty_cursor :: forward_cursor where
  "empty_cursor = \<lparr>cu_last_sequence = -1, cu_last_event_id = None, cu_last_event_time = None\<rparr>"

lemma sample_digest_not_blank [simp]: "\<not> blank sample_digest"
  by code_simp

lemma sample_event_ok [simp]: "\<not> blank i \<Longrightarrow> 0 \<le> n \<Longrightarrow> forward_event_ok (sample_event i n)"
  by (simp add: sample_event_def forward_event_ok_def)

lemma empty_cursor_ok [simp]: "forward_cursor_ok empty_cursor"
  by (simp add: empty_cursor_def forward_cursor_ok_def)

lemma not_blank_char [simp]: "\<not> py_space c \<Longrightarrow> \<not> blank (c # cs)"
  by (simp add: blank_iff)

theorem observe_exact_witness:
  "\<exists>ob. observe_forward_event empty_cursor (sample_event ''e0'' 0) {} 1 = Inr ob
     \<and> ob_disposition ob = ACCEPTED \<and> cu_last_sequence (ob_next_cursor ob) = 0"
  using observe_exact [of empty_cursor "sample_event ''e0'' 0" 1 "{}"]
  by (auto simp: py_space_def) (auto simp: empty_cursor_def sample_event_def)

text \<open>C1: exactly-once, in-order delivery. Whatever stream of valid events arrives (with
  duplicates, gaps, late events, corrections), the events a cursor accepts carry consecutive
  sequence numbers from the cursor on, with no id accepted twice or already processed, and their
  event times never decrease.\<close>

theorem delivery_exactly_once:
  assumes "\<forall>e \<in> set es. forward_event_ok e" "forward_cursor_ok c" "0 \<le> w"
  shows "map ev_sequence (deliver w c P es)
           = map (\<lambda>k. cu_last_sequence c + 1 + int k) [0..<length (deliver w c P es)]
         \<and> distinct (map ev_event_id (deliver w c P es))
         \<and> ev_event_id ` set (deliver w c P es) \<inter> P = {}
         \<and> sorted (map ev_event_time (deliver w c P es))"
  using deliver_in_order [OF assms, of P] by blast

theorem delivery_exactly_once_witness:
  "deliver 1 empty_cursor {} [sample_event ''e0'' 0, sample_event ''e0'' 0, sample_event ''e2'' 2,
       sample_event ''e1'' 1, sample_event ''e2'' 2] = [sample_event ''e0'' 0, sample_event ''e1'' 1,
       sample_event ''e2'' 2]
   \<and> distinct (map ev_event_id (deliver 1 empty_cursor {} [sample_event ''e0'' 0, sample_event ''e0'' 0,
       sample_event ''e2'' 2, sample_event ''e1'' 1]))"
proof
  show "deliver 1 empty_cursor {} [sample_event ''e0'' 0, sample_event ''e0'' 0, sample_event ''e2'' 2,
       sample_event ''e1'' 1, sample_event ''e2'' 2] = [sample_event ''e0'' 0, sample_event ''e1'' 1,
       sample_event ''e2'' 2]"
    by code_simp
qed (use delivery_exactly_once [of "[sample_event ''e0'' 0, sample_event ''e0'' 0,
       sample_event ''e2'' 2, sample_event ''e1'' 1]" empty_cursor 1 "{}"] in \<open>simp add: py_space_def\<close>)

end
