(* ===== verification/Forward_State.thy ===== *)
theory Forward_State
  imports Lifecycle
begin

text \<open>
  \<open>src/backend/app/strategy_lab_v2/forward_state.py\<close>: immutable forward-state checkpoints, the
  compact deltas that chain them, and the idempotent application of one classified event.
  A \<open>frozenset[str]\<close> is a finite \<open>string set\<close>.
\<close>

section \<open>Checkpoints\<close>

record checkpoint =
  ck_instance :: forward_instance
  ck_processed :: "string set"
  ck_buffered :: "string set"
  ck_corrections :: "string set"
  ck_duplicate_count :: int
  ck_out_of_order_count :: int

text \<open>The check of \<open>_event_ids\<close>: every member is a non-empty event id.\<close>

definition event_ids_check :: "string set \<Rightarrow> string \<Rightarrow> bool \<times> string" where
  "event_ids_check ids field = (\<not> (\<forall>x \<in> ids. \<not> blank x), field @ '' must contain non-empty event ids'')"

definition mk_checkpoint ::
  "forward_instance \<Rightarrow> string set \<Rightarrow> string set \<Rightarrow> string set \<Rightarrow> int \<Rightarrow> int \<Rightarrow> checkpoint result" where
  "mk_checkpoint inst processed buffered corrections duplicates out_of_order =
     raising
       [event_ids_check processed ''processed_event_ids'',
        event_ids_check buffered ''buffered_event_ids'',
        event_ids_check corrections ''correction_event_ids'',
        (processed \<inter> buffered \<noteq> {} \<or> processed \<inter> corrections \<noteq> {} \<or> buffered \<inter> corrections \<noteq> {},
           ''checkpoint event-id sets must be disjoint''),
        ((case fi_last_event_id inst of None \<Rightarrow> False | Some e \<Rightarrow> e \<notin> processed),
           ''checkpoint processed events must include the instance cursor event''),
        (fi_correction_count inst \<noteq> int (card corrections),
           ''checkpoint corrections must match the instance correction count''),
        (duplicates < 0, ''checkpoint duplicate_count must be a non-negative integer''),
        (out_of_order < 0, ''checkpoint out_of_order_count must be a non-negative integer'')]
       (Inr \<lparr>ck_instance = inst, ck_processed = processed, ck_buffered = buffered,
             ck_corrections = corrections, ck_duplicate_count = duplicates,
             ck_out_of_order_count = out_of_order\<rparr>)"

definition checkpoint_py :: "checkpoint \<Rightarrow> pyval" where
  "checkpoint_py c = dataclass_py ''app.strategy_lab_v2.forward_state.ForwardStateCheckpoint''
     [(''instance'', forward_instance_py (ck_instance c)),
      (''processed_event_ids'', str_set_py (ck_processed c)),
      (''buffered_event_ids'', str_set_py (ck_buffered c)),
      (''correction_event_ids'', str_set_py (ck_corrections c)),
      (''duplicate_count'', PInt (ck_duplicate_count c)),
      (''out_of_order_count'', PInt (ck_out_of_order_count c))]"

definition checkpoint_fingerprint :: "checkpoint \<Rightarrow> string" where
  "checkpoint_fingerprint c = digest (checkpoint_py c)"

section \<open>Checkpoint transitions\<close>

record checkpoint_transition =
  tr_checkpoint_fingerprint :: string
  tr_previous_fingerprint :: "string option"
  tr_instance :: forward_instance
  tr_processed_added :: "string set"
  tr_processed_removed :: "string set"
  tr_buffered_added :: "string set"
  tr_buffered_removed :: "string set"
  tr_corrections_added :: "string set"
  tr_corrections_removed :: "string set"
  tr_duplicate_count :: int
  tr_out_of_order_count :: int

definition transition_post_init :: "checkpoint_transition \<Rightarrow> checkpoint_transition result" where
  "transition_post_init t =
     raising
       (digest_checks (tr_checkpoint_fingerprint t) ''checkpoint_fingerprint''
        @ opt_digest_checks (tr_previous_fingerprint t) ''previous_checkpoint_fingerprint''
        @ [(tr_previous_fingerprint t = Some (tr_checkpoint_fingerprint t),
              ''checkpoint transition cannot reference itself as its parent''),
           event_ids_check (tr_processed_added t) ''processed_added'',
           event_ids_check (tr_processed_removed t) ''processed_removed'',
           event_ids_check (tr_buffered_added t) ''buffered_added'',
           event_ids_check (tr_buffered_removed t) ''buffered_removed'',
           event_ids_check (tr_corrections_added t) ''corrections_added'',
           event_ids_check (tr_corrections_removed t) ''corrections_removed'',
           (tr_processed_added t \<inter> tr_processed_removed t \<noteq> {}
              \<or> tr_buffered_added t \<inter> tr_buffered_removed t \<noteq> {}
              \<or> tr_corrections_added t \<inter> tr_corrections_removed t \<noteq> {},
              ''checkpoint transition cannot add and remove the same event id''),
           (tr_duplicate_count t < 0, ''duplicate_count must be a non-negative integer''),
           (tr_out_of_order_count t < 0, ''out_of_order_count must be a non-negative integer'')])
       (Inr t)"

definition apply_set :: "string set \<Rightarrow> string set \<Rightarrow> string set \<Rightarrow> string set result" where
  "apply_set prior added removed =
     raising
       [(\<not> removed \<subseteq> prior \<or> prior \<inter> added \<noteq> {},
           ''checkpoint transition event-set delta is inconsistent'')]
       (Inr ((prior - removed) \<union> added))"

definition transition_rebuild ::
  "checkpoint_transition \<Rightarrow> string set \<Rightarrow> string set \<Rightarrow> string set \<Rightarrow> int \<Rightarrow> int \<Rightarrow> checkpoint result" where
  "transition_rebuild t prior_processed prior_buffered prior_corrections prior_duplicates
       prior_out_of_order =
     raising
       [(tr_duplicate_count t < prior_duplicates \<or> tr_out_of_order_count t < prior_out_of_order,
           ''checkpoint transition counters cannot regress'')]
       (rbind (apply_set prior_processed (tr_processed_added t) (tr_processed_removed t)) (\<lambda>processed.
        rbind (apply_set prior_buffered (tr_buffered_added t) (tr_buffered_removed t)) (\<lambda>buffered.
        rbind (apply_set prior_corrections (tr_corrections_added t) (tr_corrections_removed t))
          (\<lambda>corrections.
        rbind (mk_checkpoint (tr_instance t) processed buffered corrections
                 (tr_duplicate_count t) (tr_out_of_order_count t)) (\<lambda>result.
        raising
          [(checkpoint_fingerprint result \<noteq> tr_checkpoint_fingerprint t,
              ''checkpoint transition target fingerprint differs'')]
          (Inr result))))))"

definition transition_apply :: "checkpoint_transition \<Rightarrow> checkpoint option \<Rightarrow> checkpoint result" where
  "transition_apply t previous =
     (case tr_previous_fingerprint t of
        None \<Rightarrow>
          raising [(previous \<noteq> None, ''root checkpoint transition cannot have a parent'')]
            (transition_rebuild t {} {} {} 0 0)
      | Some parent \<Rightarrow>
          (case previous of
             None \<Rightarrow> Inl (ValueError ''checkpoint transition parent fingerprint differs'')
           | Some p \<Rightarrow>
               raising
                 [(checkpoint_fingerprint p \<noteq> parent,
                     ''checkpoint transition parent fingerprint differs''),
                  (fi_instance_id (ck_instance p) \<noteq> fi_instance_id (tr_instance t),
                     ''checkpoint transition parent belongs to another instance'')]
                 (transition_rebuild t (ck_processed p) (ck_buffered p) (ck_corrections p)
                    (ck_duplicate_count p) (ck_out_of_order_count p))))"

definition set_added :: "checkpoint option \<Rightarrow> (checkpoint \<Rightarrow> string set) \<Rightarrow> checkpoint \<Rightarrow> string set" where
  "set_added previous field current =
     (case previous of None \<Rightarrow> field current | Some p \<Rightarrow> field current - field p)"

definition set_removed :: "checkpoint option \<Rightarrow> (checkpoint \<Rightarrow> string set) \<Rightarrow> checkpoint \<Rightarrow> string set" where
  "set_removed previous field current =
     (case previous of None \<Rightarrow> {} | Some p \<Rightarrow> field p - field current)"

definition transition_between ::
  "checkpoint option \<Rightarrow> checkpoint \<Rightarrow> checkpoint_transition result" where
  "transition_between previous current =
     raising
       [((case previous of None \<Rightarrow> False
          | Some p \<Rightarrow> fi_instance_id (ck_instance p) \<noteq> fi_instance_id (ck_instance current)),
           ''checkpoint transition cannot change instance identity''),
        (previous = Some current, ''identical checkpoints do not require a transition'')]
       (rbind
          (transition_post_init
             \<lparr>tr_checkpoint_fingerprint = checkpoint_fingerprint current,
              tr_previous_fingerprint = map_option checkpoint_fingerprint previous,
              tr_instance = ck_instance current,
              tr_processed_added = set_added previous ck_processed current,
              tr_processed_removed = set_removed previous ck_processed current,
              tr_buffered_added = set_added previous ck_buffered current,
              tr_buffered_removed = set_removed previous ck_buffered current,
              tr_corrections_added = set_added previous ck_corrections current,
              tr_corrections_removed = set_removed previous ck_corrections current,
              tr_duplicate_count = ck_duplicate_count current,
              tr_out_of_order_count = ck_out_of_order_count current\<rparr>)
          (\<lambda>t. rbind (transition_apply t previous) (\<lambda>c.
             raising
               [(c \<noteq> current, ''checkpoint transition does not reconstruct its target'')]
               (Inr t))))"

section \<open>Applying one observation\<close>

definition apply_checkpoint_observation ::
  "checkpoint \<Rightarrow> forward_event \<Rightarrow> observation \<Rightarrow> checkpoint result" where
  "apply_checkpoint_observation c event obs =
     (let d = ob_disposition obs; e = ev_event_id event
      in if d = ACCEPTED \<and> e \<in> ck_processed c then Inr c
         else if d = GAP \<and> e \<in> ck_buffered c then Inr c
         else if d = CORRECTION \<and> e \<in> ck_corrections c then Inr c
         else
           rbind (apply_forward_event_observation (ck_instance c) event obs) (\<lambda>inst.
             mk_checkpoint inst
               (if d = ACCEPTED then ck_processed c \<union> {e} else ck_processed c)
               (if d = ACCEPTED then ck_buffered c - {e}
                else if d = GAP then ck_buffered c \<union> {e} else ck_buffered c)
               (if d = CORRECTION then ck_corrections c \<union> {e} else ck_corrections c)
               (if d = DUPLICATE then ck_duplicate_count c + 1 else ck_duplicate_count c)
               (if d = OUT_OF_ORDER then ck_out_of_order_count c + 1 else ck_out_of_order_count c)))"

section \<open>Invariant and requests\<close>

definition checkpoint_ok :: "checkpoint \<Rightarrow> bool" where
  "checkpoint_ok c \<longleftrightarrow> forward_instance_ok (ck_instance c)
     \<and> finite (ck_processed c) \<and> finite (ck_buffered c) \<and> finite (ck_corrections c)
     \<and> (\<forall>x \<in> ck_processed c \<union> ck_buffered c \<union> ck_corrections c. \<not> blank x)
     \<and> ck_processed c \<inter> ck_buffered c = {} \<and> ck_processed c \<inter> ck_corrections c = {}
     \<and> ck_buffered c \<inter> ck_corrections c = {}
     \<and> (\<forall>e. fi_last_event_id (ck_instance c) = Some e \<longrightarrow> e \<in> ck_processed c)
     \<and> fi_correction_count (ck_instance c) = int (card (ck_corrections c))
     \<and> 0 \<le> ck_duplicate_count c \<and> 0 \<le> ck_out_of_order_count c"

fun checkpoint_step :: "forward_event \<times> observation \<Rightarrow> checkpoint \<Rightarrow> checkpoint result" where
  "checkpoint_step (event, obs) c = apply_checkpoint_observation c event obs"

text \<open>Evidence only grows: what was processed or corrected stays so, a buffered event stays buffered
  until it is processed, the counters and the live cursor never go back.\<close>

definition checkpoint_le :: "checkpoint \<Rightarrow> checkpoint \<Rightarrow> bool" where
  "checkpoint_le c d \<longleftrightarrow> fi_instance_id (ck_instance d) = fi_instance_id (ck_instance c)
     \<and> fi_state (ck_instance d) = fi_state (ck_instance c)
     \<and> ck_processed c \<subseteq> ck_processed d \<and> ck_corrections c \<subseteq> ck_corrections d
     \<and> ck_buffered c \<subseteq> ck_buffered d \<union> ck_processed d
     \<and> fi_last_event_sequence (ck_instance c) \<le> fi_last_event_sequence (ck_instance d)
     \<and> fi_updated_at (ck_instance c) \<le> fi_updated_at (ck_instance d)
     \<and> ck_duplicate_count c \<le> ck_duplicate_count d \<and> ck_out_of_order_count c \<le> ck_out_of_order_count d"

text \<open>A chain of stored deltas: one transition per checkpoint, each against its predecessor, and the
  checkpoint that replaying the deltas from the root rebuilds.\<close>

fun chain_transitions ::
  "checkpoint option \<Rightarrow> checkpoint list \<Rightarrow> checkpoint_transition list result" where
  "chain_transitions previous [] = Inr []"
| "chain_transitions previous (c # cs) =
     rbind (transition_between previous c) (\<lambda>t.
     rbind (chain_transitions (Some c) cs) (\<lambda>ts. Inr (t # ts)))"

fun replay_transitions ::
  "checkpoint option \<Rightarrow> checkpoint_transition list \<Rightarrow> checkpoint option result" where
  "replay_transitions previous [] = Inr previous"
| "replay_transitions previous (t # ts) =
     rbind (transition_apply t previous) (\<lambda>c. replay_transitions (Some c) ts)"

section \<open>Checkpoints are valid\<close>

lemma event_ids_check_raising [contract_simps]:
  "raising (event_ids_check ids f # cs) k = Inr r \<longleftrightarrow> (\<forall>x \<in> ids. \<not> blank x) \<and> raising cs k = Inr r"
  by (simp add: event_ids_check_def contract_simps)

lemma mk_checkpoint_Inr:
  "forward_instance_ok i \<Longrightarrow> finite p \<Longrightarrow> finite b \<Longrightarrow> finite k \<Longrightarrow>
     mk_checkpoint i p b k d n = Inr c \<longleftrightarrow>
       c = \<lparr>ck_instance = i, ck_processed = p, ck_buffered = b, ck_corrections = k,
            ck_duplicate_count = d, ck_out_of_order_count = n\<rparr> \<and> checkpoint_ok c"
  by (auto simp: mk_checkpoint_def checkpoint_ok_def contract_simps split: option.splits)

lemma mk_checkpoint_ok:
  "forward_instance_ok i \<Longrightarrow> finite p \<Longrightarrow> finite b \<Longrightarrow> finite k \<Longrightarrow>
     mk_checkpoint i p b k d n = Inr c \<Longrightarrow> checkpoint_ok c"
  by (auto simp: mk_checkpoint_Inr)

lemma mk_checkpoint_fields:
  "mk_checkpoint i p b k d n = Inr c \<Longrightarrow>
     c = \<lparr>ck_instance = i, ck_processed = p, ck_buffered = b, ck_corrections = k,
          ck_duplicate_count = d, ck_out_of_order_count = n\<rparr>"
  by (auto simp: mk_checkpoint_def contract_simps)

lemma encodable_checkpoint [simp]: "encodable (checkpoint_py c)"
  by (simp add: checkpoint_py_def)

lemma checkpoint_fingerprint_digest [simp]: "is_digest (checkpoint_fingerprint c)"
  by (simp add: checkpoint_fingerprint_def is_digest_digest)

lemma apply_forward_event_observation_ok:
  "forward_instance_ok f \<Longrightarrow> apply_forward_event_observation f e ob = Inr g \<Longrightarrow> forward_instance_ok g"
  by (auto simp: apply_forward_event_observation_def contract_simps forward_instance_remake_iff
      split: if_splits)

lemma apply_forward_event_observation_le:
  "forward_instance_ok f \<Longrightarrow> apply_forward_event_observation f e ob = Inr g \<Longrightarrow>
     fi_instance_id g = fi_instance_id f \<and> fi_state g = fi_state f
     \<and> fi_last_event_sequence f \<le> fi_last_event_sequence g \<and> fi_updated_at f \<le> fi_updated_at g"
  by (cases "fi_last_event_id f")
    (auto simp: apply_forward_event_observation_def contract_simps forward_instance_remake_iff
      forward_instance_ok_def split: if_splits)

lemma apply_checkpoint_observation_ok:
  assumes "checkpoint_ok c" "apply_checkpoint_observation c e ob = Inr d"
  shows "checkpoint_ok d"
proof (cases "d = c")
  case False
  then obtain i where i: "apply_forward_event_observation (ck_instance c) e ob = Inr i"
    and d: "mk_checkpoint i
       (if ob_disposition ob = ACCEPTED then ck_processed c \<union> {ev_event_id e} else ck_processed c)
       (if ob_disposition ob = ACCEPTED then ck_buffered c - {ev_event_id e}
        else if ob_disposition ob = GAP then ck_buffered c \<union> {ev_event_id e} else ck_buffered c)
       (if ob_disposition ob = CORRECTION then ck_corrections c \<union> {ev_event_id e} else ck_corrections c)
       (if ob_disposition ob = DUPLICATE then ck_duplicate_count c + 1 else ck_duplicate_count c)
       (if ob_disposition ob = OUT_OF_ORDER then ck_out_of_order_count c + 1 else ck_out_of_order_count c)
       = Inr d"
    using assms(2) by (auto simp: apply_checkpoint_observation_def Let_def split: if_splits)
  have "forward_instance_ok i"
    using assms(1) i by (auto simp: checkpoint_ok_def intro: apply_forward_event_observation_ok)
  then show ?thesis
    by (rule mk_checkpoint_ok [OF _ _ _ _ d]) (use assms(1) in \<open>auto simp: checkpoint_ok_def\<close>)
qed (use assms in simp)

lemma apply_checkpoint_observation_le:
  assumes "checkpoint_ok c" "apply_checkpoint_observation c e ob = Inr d"
  shows "checkpoint_le c d"
proof -
  have ok: "forward_instance_ok (ck_instance c)" using assms(1) by (simp add: checkpoint_ok_def)
  show ?thesis
    using assms(2)
    by (auto simp: apply_checkpoint_observation_def Let_def checkpoint_le_def split: if_splits
        dest!: mk_checkpoint_fields apply_forward_event_observation_le [OF ok])
qed

interpretation checkpoints: guarded_machine checkpoint_step checkpoint_ok checkpoint_le
proof
  fix s r s'
  assume "checkpoint_ok s" "checkpoint_step r s = Inr s'"
  then show "checkpoint_ok s'" "checkpoint_le s s'"
    by (cases r; auto intro: apply_checkpoint_observation_ok apply_checkpoint_observation_le)+
next
  fix s t u
  show "checkpoint_le s s" by (simp add: checkpoint_le_def)
  show "checkpoint_le s t \<Longrightarrow> checkpoint_le t u \<Longrightarrow> checkpoint_le s u"
    by (auto simp: checkpoint_le_def)
qed

section \<open>Deltas rebuild their target\<close>

lemma apply_set_delta:
  "apply_set (field p) (set_added (Some p) field c) (set_removed (Some p) field c) = Inr (field c)"
  "apply_set {} (set_added None field c) (set_removed None field c) = Inr (field c)"
  by (auto simp: apply_set_def set_added_def set_removed_def raising.simps)

lemma mk_checkpoint_self:
  "checkpoint_ok c \<Longrightarrow>
     mk_checkpoint (ck_instance c) (ck_processed c) (ck_buffered c) (ck_corrections c)
       (ck_duplicate_count c) (ck_out_of_order_count c) = Inr c"
  by (subst mk_checkpoint_Inr) (auto simp: checkpoint_ok_def)

definition delta :: "checkpoint option \<Rightarrow> checkpoint \<Rightarrow> checkpoint_transition" where
  "delta previous current =
     \<lparr>tr_checkpoint_fingerprint = checkpoint_fingerprint current,
      tr_previous_fingerprint = map_option checkpoint_fingerprint previous,
      tr_instance = ck_instance current,
      tr_processed_added = set_added previous ck_processed current,
      tr_processed_removed = set_removed previous ck_processed current,
      tr_buffered_added = set_added previous ck_buffered current,
      tr_buffered_removed = set_removed previous ck_buffered current,
      tr_corrections_added = set_added previous ck_corrections current,
      tr_corrections_removed = set_removed previous ck_corrections current,
      tr_duplicate_count = ck_duplicate_count current,
      tr_out_of_order_count = ck_out_of_order_count current\<rparr>"

lemma delta_post_init:
  assumes "checkpoint_ok c" "\<forall>p. previous = Some p \<longrightarrow> checkpoint_ok p"
  shows "transition_post_init (delta previous c) = Inr t \<longleftrightarrow>
     t = delta previous c \<and> (\<forall>p. previous = Some p \<longrightarrow> checkpoint_fingerprint p \<noteq> checkpoint_fingerprint c)"
  using assms
  by (cases previous)
    (auto simp: transition_post_init_def delta_def contract_simps set_added_def set_removed_def
      checkpoint_ok_def)

lemma delta_apply_root: "checkpoint_ok c \<Longrightarrow> transition_apply (delta None c) None = Inr c"
  by (simp add: transition_apply_def transition_rebuild_def delta_def raising.simps apply_set_delta
      mk_checkpoint_self) (simp add: checkpoint_ok_def)

lemma delta_apply:
  assumes "checkpoint_ok c"
  shows "transition_apply (delta (Some p) c) (Some p) = Inr d \<longleftrightarrow>
     d = c \<and> fi_instance_id (ck_instance p) = fi_instance_id (ck_instance c)
     \<and> ck_duplicate_count p \<le> ck_duplicate_count c \<and> ck_out_of_order_count p \<le> ck_out_of_order_count c"
  using assms
  by (auto simp: transition_apply_def transition_rebuild_def delta_def raising.simps apply_set_delta
      mk_checkpoint_self split: if_splits)

lemma transition_between_delta:
  "transition_between previous c =
     raising
       [((case previous of None \<Rightarrow> False
          | Some p \<Rightarrow> fi_instance_id (ck_instance p) \<noteq> fi_instance_id (ck_instance c)),
           ''checkpoint transition cannot change instance identity''),
        (previous = Some c, ''identical checkpoints do not require a transition'')]
       (rbind (transition_post_init (delta previous c)) (\<lambda>t. rbind (transition_apply t previous) (\<lambda>d.
          raising [(d \<noteq> c, ''checkpoint transition does not reconstruct its target'')] (Inr t))))"
  by (simp add: transition_between_def delta_def)

lemma transition_between_root:
  "checkpoint_ok c \<Longrightarrow> transition_between None c = Inr (delta None c)"
  by (subst transition_between_delta)
    (auto simp: raising.simps delta_post_init delta_apply_root contract_simps)

lemma transition_between_Inr:
  assumes "checkpoint_ok p" "checkpoint_ok c"
  shows "transition_between (Some p) c = Inr t \<longleftrightarrow>
     t = delta (Some p) c \<and> fi_instance_id (ck_instance p) = fi_instance_id (ck_instance c)
     \<and> checkpoint_fingerprint p \<noteq> checkpoint_fingerprint c
     \<and> ck_duplicate_count p \<le> ck_duplicate_count c \<and> ck_out_of_order_count p \<le> ck_out_of_order_count c"
  using assms
  by (auto simp: transition_between_delta contract_simps delta_post_init delta_apply)

lemma transition_between_apply:
  "transition_between previous c = Inr t \<Longrightarrow> transition_apply t previous = Inr c"
  by (auto simp: transition_between_delta contract_simps)

lemma chain_replay:
  "chain_transitions previous cs = Inr ts \<Longrightarrow>
     replay_transitions previous ts = Inr (if cs = [] then previous else Some (last cs))"
  by (induction cs arbitrary: previous ts) (auto dest!: transition_between_apply)

lemma observation_replayed:
  assumes "apply_checkpoint_observation c e ob = Inr d"
    "ob_disposition ob \<in> {ACCEPTED, GAP, CORRECTION}"
  shows "apply_checkpoint_observation d e ob = Inr d"
  using assms by (auto simp: apply_checkpoint_observation_def Let_def split: if_splits dest!: mk_checkpoint_fields)

section \<open>Properties\<close>

text \<open>C33: stored deltas lose nothing. Between two valid checkpoints of one instance a transition
  exists exactly when the counters do not regress and the fingerprints differ, the root transition
  always exists, applying a transition to its predecessor gives back its target, and replaying a
  whole chain of deltas from the root gives back the last checkpoint.\<close>

theorem checkpoint_delta_roundtrip:
  assumes "checkpoint_ok p" "checkpoint_ok c"
  shows "((\<exists>t. transition_between (Some p) c = Inr t) \<longleftrightarrow>
        fi_instance_id (ck_instance p) = fi_instance_id (ck_instance c)
        \<and> checkpoint_fingerprint p \<noteq> checkpoint_fingerprint c
        \<and> ck_duplicate_count p \<le> ck_duplicate_count c \<and> ck_out_of_order_count p \<le> ck_out_of_order_count c)
    \<and> (\<exists>t. transition_between None c = Inr t)
    \<and> (\<forall>previous t. transition_between previous c = Inr t \<longrightarrow> transition_apply t previous = Inr c)
    \<and> (\<forall>cs ts. chain_transitions None (cs @ [c]) = Inr ts \<longrightarrow> replay_transitions None ts = Inr (Some c))"
  using assms
  by (auto simp: transition_between_Inr transition_between_root transition_between_apply chain_replay)

definition sample_instance :: forward_instance where
  "sample_instance = \<lparr>fi_instance_id = ''i-1'', fi_portfolio_fingerprint = sample_digest,
     fi_warmup_snapshot_fingerprint = sample_digest, fi_carry_in_mode = CarryIn_FLAT,
     fi_state = Forward_ACTIVE, fi_last_event_id = None, fi_last_event_sequence = 0,
     fi_correction_count = 0, fi_created_at = 0, fi_updated_at = 0\<rparr>"

definition sample_checkpoint :: checkpoint where
  "sample_checkpoint = \<lparr>ck_instance = sample_instance, ck_processed = {}, ck_buffered = {},
     ck_corrections = {}, ck_duplicate_count = 0, ck_out_of_order_count = 0\<rparr>"

lemma sample_instance_ok [simp]: "forward_instance_ok sample_instance"
  by (simp add: sample_instance_def forward_instance_ok_def py_space_def)

lemma sample_checkpoint_ok [simp]: "checkpoint_ok sample_checkpoint"
  by (simp add: checkpoint_ok_def sample_checkpoint_def) (simp add: sample_instance_def)

theorem checkpoint_delta_roundtrip_witness:
  "checkpoint_ok sample_checkpoint
   \<and> (\<exists>t. transition_between None sample_checkpoint = Inr t
          \<and> transition_apply t None = Inr sample_checkpoint)"
  using checkpoint_delta_roundtrip [OF sample_checkpoint_ok sample_checkpoint_ok] by auto

text \<open>C19: whatever observations are applied, trusted or forged, a valid checkpoint stays valid (the
  event sets disjoint, the cursor event processed, the correction count equal to the corrections
  recorded) and evidence only grows: nothing processed or corrected is forgotten, a buffered event
  leaves the buffer only by being processed, cursor, time and counters never go back.\<close>

theorem checkpoint_requests:
  assumes "checkpoint_ok c"
  shows "checkpoint_ok (serve checkpoint_step rs c) \<and> checkpoint_le c (serve checkpoint_step rs c)
     \<and> checkpoint_le (serve checkpoint_step rs c) (serve checkpoint_step (rs @ qs) c)"
  using assms by (simp add: checkpoints.serve_inv checkpoints.serve_le checkpoints.serve_later)

definition accept_observation :: "forward_event \<Rightarrow> observation" where
  "accept_observation e = \<lparr>ob_disposition = ACCEPTED, ob_stale = False, ob_missing_start = None,
     ob_missing_end = None, ob_requires_replay = False,
     ob_next_cursor = \<lparr>cu_last_sequence = ev_sequence e, cu_last_event_id = Some (ev_event_id e),
       cu_last_event_time = Some (ev_event_time e)\<rparr>, ob_buffer_event = False\<rparr>"

definition sample_accepted :: checkpoint where
  "sample_accepted = sample_checkpoint\<lparr>ck_instance := sample_instance\<lparr>fi_last_event_id := Some ''e0''\<rparr>,
     ck_processed := {''e0''}\<rparr>"

lemma sample_accepts:
  "apply_checkpoint_observation sample_checkpoint (sample_event ''e0'' 0)
     (accept_observation (sample_event ''e0'' 0)) = Inr sample_accepted"
  by code_simp

theorem checkpoint_requests_witness:
  "checkpoint_ok sample_checkpoint
   \<and> serve checkpoint_step [(sample_event ''e0'' 0, accept_observation (sample_event ''e0'' 0))]
       sample_checkpoint = sample_accepted
   \<and> checkpoint_ok sample_accepted \<and> checkpoint_le sample_checkpoint sample_accepted"
  using checkpoint_requests [OF sample_checkpoint_ok,
      of "[(sample_event ''e0'' 0, accept_observation (sample_event ''e0'' 0))]"] sample_accepts
  by (simp add: served_def)

text \<open>Applying an observation is idempotent for everything that is stored: delivering an accepted,
  buffered or correction event again leaves the checkpoint as it is, and a duplicate or late event
  changes nothing but its counter.\<close>

theorem observation_idempotent:
  assumes "apply_checkpoint_observation c e ob = Inr d"
  shows "(ob_disposition ob \<in> {ACCEPTED, GAP, CORRECTION} \<longrightarrow> apply_checkpoint_observation d e ob = Inr d)
    \<and> (ob_disposition ob = DUPLICATE \<longrightarrow> d = c\<lparr>ck_duplicate_count := ck_duplicate_count c + 1\<rparr>)
    \<and> (ob_disposition ob = OUT_OF_ORDER \<longrightarrow> d = c\<lparr>ck_out_of_order_count := ck_out_of_order_count c + 1\<rparr>)
    \<and> (ob_disposition ob = ACCEPTED \<longrightarrow> ev_event_id e \<in> ck_processed d \<and> ev_event_id e \<notin> ck_buffered d
         \<or> ev_event_id e \<in> ck_processed c)
    \<and> (ob_disposition ob = CORRECTION \<longrightarrow> ck_processed d = ck_processed c \<and> ck_buffered d = ck_buffered c
         \<and> fi_last_event_id (ck_instance d) = fi_last_event_id (ck_instance c)
         \<and> fi_last_event_sequence (ck_instance d) = fi_last_event_sequence (ck_instance c))"
proof -
  have "ob_disposition ob \<in> {ACCEPTED, GAP, CORRECTION} \<longrightarrow> apply_checkpoint_observation d e ob = Inr d"
    using observation_replayed [OF assms] by blast
  moreover have "d = c\<lparr>ck_duplicate_count := ck_duplicate_count c + 1\<rparr>"
    if "ob_disposition ob = DUPLICATE"
    using assms that by (auto simp: apply_checkpoint_observation_def apply_forward_event_observation_def
        contract_simps dest!: mk_checkpoint_fields)
  moreover have "d = c\<lparr>ck_out_of_order_count := ck_out_of_order_count c + 1\<rparr>"
    if "ob_disposition ob = OUT_OF_ORDER"
    using assms that by (auto simp: apply_checkpoint_observation_def apply_forward_event_observation_def
        contract_simps dest!: mk_checkpoint_fields)
  moreover have "ev_event_id e \<in> ck_processed d \<and> ev_event_id e \<notin> ck_buffered d
      \<or> ev_event_id e \<in> ck_processed c" if "ob_disposition ob = ACCEPTED"
    using assms that by (auto simp: apply_checkpoint_observation_def Let_def split: if_splits
        dest!: mk_checkpoint_fields)
  moreover have "ck_processed d = ck_processed c \<and> ck_buffered d = ck_buffered c
      \<and> fi_last_event_id (ck_instance d) = fi_last_event_id (ck_instance c)
      \<and> fi_last_event_sequence (ck_instance d) = fi_last_event_sequence (ck_instance c)"
    if "ob_disposition ob = CORRECTION"
    using assms that by (auto simp: apply_checkpoint_observation_def apply_forward_event_observation_def
        contract_simps forward_instance_remake_iff Let_def split: if_splits dest!: mk_checkpoint_fields)
  ultimately show ?thesis by blast
qed

theorem observation_idempotent_witness:
  "apply_checkpoint_observation sample_checkpoint (sample_event ''e0'' 0)
     (accept_observation (sample_event ''e0'' 0)) = Inr sample_accepted
   \<and> apply_checkpoint_observation sample_accepted (sample_event ''e0'' 0)
       (accept_observation (sample_event ''e0'' 0)) = Inr sample_accepted"
  using sample_accepts observation_idempotent [OF sample_accepts] by (simp add: accept_observation_def)

end
