(* ===== verification/Forward_Warmup.thy ===== *)
theory Forward_Warmup
  imports Forward_State
begin

text \<open>
  \<open>src/backend/app/strategy_lab_v2/forward_warmup.py\<close>: the receipt of a completed historical
  warm-up and the decision that hands the instance over to live events exactly once.
\<close>

record warmup_receipt =
  wr_instance_id :: string
  wr_warmup_snapshot_fingerprint :: string
  wr_carry_in_mode :: carry_in_mode
  wr_warmup_result_fingerprint :: string
  wr_completed_at :: instant
  wr_final_event_id :: "string option"
  wr_final_event_sequence :: int
  wr_final_event_fingerprint :: "string option"

definition mk_warmup_receipt ::
  "string \<Rightarrow> string \<Rightarrow> carry_in_mode \<Rightarrow> string \<Rightarrow> datetime \<Rightarrow> string option \<Rightarrow> int \<Rightarrow> string option
     \<Rightarrow> warmup_receipt result" where
  "mk_warmup_receipt instance_id snapshot carry_in result completed_at final_id final_seq final_fp =
     raising
       ([(blank instance_id, ''instance_id must not be empty'')]
        @ digest_checks snapshot ''warmup_snapshot_fingerprint''
        @ digest_checks result ''warmup_result_fingerprint'')
       (with_aware completed_at ''completed_at must be timezone-aware'' (\<lambda>completed.
        raising
          ([(final_seq < 0, ''final_event_sequence must be non-negative''),
            (final_seq > 0 \<and> final_id = None,
               ''a non-zero final event sequence requires final_event_id''),
            ((case final_id of None \<Rightarrow> False | Some e \<Rightarrow> blank e), ''final_event_id must not be empty'')]
           @ opt_digest_checks final_fp ''final_event_fingerprint''
           @ [(final_fp \<noteq> None \<and> final_id = None, ''final_event_fingerprint requires final_event_id''),
              (final_fp = None \<and> final_id \<noteq> None, ''final_event_id requires final_event_fingerprint'')])
          (Inr \<lparr>wr_instance_id = instance_id, wr_warmup_snapshot_fingerprint = snapshot,
                wr_carry_in_mode = carry_in, wr_warmup_result_fingerprint = result,
                wr_completed_at = completed, wr_final_event_id = final_id,
                wr_final_event_sequence = final_seq, wr_final_event_fingerprint = final_fp\<rparr>)))"

definition warmup_receipt_py :: "warmup_receipt \<Rightarrow> pyval" where
  "warmup_receipt_py r = dataclass_py ''app.strategy_lab_v2.forward_warmup.ForwardWarmupReceipt''
     [(''instance_id'', PStr (wr_instance_id r)),
      (''warmup_snapshot_fingerprint'', PStr (wr_warmup_snapshot_fingerprint r)),
      (''carry_in_mode'', PEnum ''app.strategy_lab_v2.contracts.CarryInMode''
         (PStr (carry_in_value (wr_carry_in_mode r)))),
      (''warmup_result_fingerprint'', PStr (wr_warmup_result_fingerprint r)),
      (''completed_at'', time_py (wr_completed_at r)),
      (''final_event_id'', opt_py PStr (wr_final_event_id r)),
      (''final_event_sequence'', PInt (wr_final_event_sequence r)),
      (''final_event_fingerprint'', opt_py PStr (wr_final_event_fingerprint r))]"

definition warmup_receipt_fingerprint :: "warmup_receipt \<Rightarrow> string" where
  "warmup_receipt_fingerprint r = digest (warmup_receipt_py r)"

datatype warmup_decision = Warmup_COMPLETE | Warmup_REPLAY_EXISTING | Warmup_CONFLICT | Warmup_REJECT

record warmup_resolution =
  wres_decision :: warmup_decision
  wres_instance :: forward_instance
  wres_receipt :: "warmup_receipt option"
  wres_rejection_reason :: "string option"

definition mk_warmup_resolution ::
  "warmup_decision \<Rightarrow> forward_instance \<Rightarrow> warmup_receipt option \<Rightarrow> string option
     \<Rightarrow> warmup_resolution result" where
  "mk_warmup_resolution decision inst receipt reason =
     raising
       [(decision \<in> {Warmup_COMPLETE, Warmup_REPLAY_EXISTING} \<and> receipt = None,
           ''completed warm-up resolutions require a receipt''),
        (decision \<in> {Warmup_CONFLICT, Warmup_REJECT} \<and> no_reason reason,
           ''rejected warm-up resolutions require a reason''),
        (decision \<notin> {Warmup_CONFLICT, Warmup_REJECT} \<and> \<not> no_reason reason,
           ''successful warm-up resolutions cannot contain a reason'')]
       (Inr \<lparr>wres_decision = decision, wres_instance = inst, wres_receipt = receipt,
             wres_rejection_reason = reason\<rparr>)"

definition resolve_forward_warmup ::
  "forward_instance \<Rightarrow> warmup_receipt \<Rightarrow> warmup_receipt option \<Rightarrow> warmup_resolution result" where
  "resolve_forward_warmup inst receipt existing_receipt =
     (let reject = (\<lambda>reason. mk_warmup_resolution Warmup_REJECT inst (Some receipt) (Some reason))
      in case existing_receipt of
           Some existing \<Rightarrow>
             if warmup_receipt_fingerprint existing = warmup_receipt_fingerprint receipt
             then mk_warmup_resolution Warmup_REPLAY_EXISTING inst (Some existing) None
             else mk_warmup_resolution Warmup_CONFLICT inst None
                    (Some ''warm-up receipt identity is already bound to different content'')
         | None \<Rightarrow>
             if wr_instance_id receipt \<noteq> fi_instance_id inst then
               reject ''warm-up receipt instance does not match the forward instance''
             else if wr_warmup_snapshot_fingerprint receipt \<noteq> fi_warmup_snapshot_fingerprint inst then
               reject ''warm-up receipt snapshot does not match the forward instance''
             else if wr_carry_in_mode receipt \<noteq> fi_carry_in_mode inst then
               reject ''warm-up receipt carry-in mode does not match the forward instance''
             else if fi_state inst \<noteq> Forward_WARMING_UP then
               reject ''forward instance must be warming_up for first warm-up completion''
             else if fi_last_event_id inst \<noteq> None \<or> fi_last_event_sequence inst \<noteq> 0 then
               reject ''warm-up completion cannot overwrite an existing live cursor''
             else if wr_completed_at receipt < fi_updated_at inst then
               reject ''warm-up completion time cannot move backwards''
             else
               rbind (forward_instance_remake
                        (inst\<lparr>fi_state := Forward_ACTIVE,
                              fi_last_event_id := wr_final_event_id receipt,
                              fi_last_event_sequence := wr_final_event_sequence receipt,
                              fi_updated_at := wr_completed_at receipt\<rparr>))
                 (\<lambda>next_instance.
                    mk_warmup_resolution Warmup_COMPLETE next_instance (Some receipt) None))"

section \<open>Receipts and resolutions\<close>

definition warmup_receipt_ok :: "warmup_receipt \<Rightarrow> bool" where
  "warmup_receipt_ok r \<longleftrightarrow> \<not> blank (wr_instance_id r) \<and> is_digest (wr_warmup_snapshot_fingerprint r)
     \<and> is_digest (wr_warmup_result_fingerprint r) \<and> 0 \<le> wr_final_event_sequence r
     \<and> (wr_final_event_id r = None \<longrightarrow> wr_final_event_sequence r = 0 \<and> wr_final_event_fingerprint r = None)
     \<and> (\<forall>e. wr_final_event_id r = Some e \<longrightarrow>
          \<not> blank e \<and> (\<exists>d. wr_final_event_fingerprint r = Some d \<and> is_digest d))"

lemma mk_warmup_receipt_ok:
  "mk_warmup_receipt i s c w t e n f = Inr r \<Longrightarrow> warmup_receipt_ok r"
  by (auto simp: mk_warmup_receipt_def warmup_receipt_ok_def contract_simps split: option.splits)

lemma encodable_warmup_receipt [simp]: "encodable (warmup_receipt_py r)"
  by (simp add: warmup_receipt_py_def)

lemma warmup_receipt_fingerprint_digest [simp]: "is_digest (warmup_receipt_fingerprint r)"
  by (simp add: warmup_receipt_fingerprint_def is_digest_digest)

lemma mk_warmup_resolution_simps:
  "m \<noteq> [] \<Longrightarrow> d \<in> {Warmup_CONFLICT, Warmup_REJECT} \<Longrightarrow> mk_warmup_resolution d i r (Some m)
     = Inr \<lparr>wres_decision = d, wres_instance = i, wres_receipt = r, wres_rejection_reason = Some m\<rparr>"
  "d \<in> {Warmup_COMPLETE, Warmup_REPLAY_EXISTING} \<Longrightarrow> mk_warmup_resolution d i (Some r') None
     = Inr \<lparr>wres_decision = d, wres_instance = i, wres_receipt = Some r', wres_rejection_reason = None\<rparr>"
  by (auto simp: mk_warmup_resolution_def raising.simps no_reason_def)

definition warmup_completes :: "forward_instance \<Rightarrow> warmup_receipt \<Rightarrow> bool" where
  "warmup_completes inst receipt \<longleftrightarrow> wr_instance_id receipt = fi_instance_id inst
     \<and> wr_warmup_snapshot_fingerprint receipt = fi_warmup_snapshot_fingerprint inst
     \<and> wr_carry_in_mode receipt = fi_carry_in_mode inst
     \<and> fi_state inst = Forward_WARMING_UP
     \<and> fi_last_event_id inst = None \<and> fi_last_event_sequence inst = 0
     \<and> fi_updated_at inst \<le> wr_completed_at receipt"

definition warmed_up :: "forward_instance \<Rightarrow> warmup_receipt \<Rightarrow> forward_instance" where
  "warmed_up inst receipt = inst\<lparr>fi_state := Forward_ACTIVE, fi_last_event_id := wr_final_event_id receipt,
     fi_last_event_sequence := wr_final_event_sequence receipt, fi_updated_at := wr_completed_at receipt\<rparr>"

lemma warmed_up_ok:
  "forward_instance_ok inst \<Longrightarrow> warmup_receipt_ok receipt \<Longrightarrow> warmup_completes inst receipt \<Longrightarrow>
     forward_instance_ok (warmed_up inst receipt)"
  by (auto simp: forward_instance_ok_def warmup_receipt_ok_def warmup_completes_def warmed_up_def)

lemma resolve_first_receipt:
  assumes "forward_instance_ok inst" "warmup_receipt_ok receipt"
  obtains (complete) "warmup_completes inst receipt"
      "resolve_forward_warmup inst receipt None = Inr \<lparr>wres_decision = Warmup_COMPLETE,
         wres_instance = warmed_up inst receipt, wres_receipt = Some receipt, wres_rejection_reason = None\<rparr>"
  | (reject) m where "\<not> warmup_completes inst receipt" "m \<noteq> []"
      "resolve_forward_warmup inst receipt None = Inr \<lparr>wres_decision = Warmup_REJECT,
         wres_instance = inst, wres_receipt = Some receipt, wres_rejection_reason = Some m\<rparr>"
proof (cases "warmup_completes inst receipt")
  case True
  then have "resolve_forward_warmup inst receipt None = Inr \<lparr>wres_decision = Warmup_COMPLETE,
         wres_instance = warmed_up inst receipt, wres_receipt = Some receipt, wres_rejection_reason = None\<rparr>"
    using forward_instance.remake_same [OF warmed_up_ok [OF assms True]]
    by (auto simp: resolve_forward_warmup_def warmup_completes_def warmed_up_def
        mk_warmup_resolution_simps Let_def)
  with True show thesis by (rule complete)
next
  case False
  then have "\<exists>m. m \<noteq> [] \<and> resolve_forward_warmup inst receipt None = Inr \<lparr>wres_decision = Warmup_REJECT,
         wres_instance = inst, wres_receipt = Some receipt, wres_rejection_reason = Some m\<rparr>"
    by (auto simp: resolve_forward_warmup_def warmup_completes_def mk_warmup_resolution_simps Let_def)
  with False show thesis by (blast intro: reject)
qed

section \<open>Properties\<close>

text \<open>Warm-up hands over exactly once. Resolving a valid receipt always returns a decision; the
  first matching receipt of a warming-up instance activates it at the receipt's cursor and nothing
  else changes the instance; once completed, the same receipt replays without effect, a receipt
  with other content conflicts, and no further receipt completes the instance again.\<close>

theorem warmup_completes_once:
  assumes "forward_instance_ok inst" "warmup_receipt_ok receipt"
  shows "\<exists>res. resolve_forward_warmup inst receipt existing = Inr res
      \<and> forward_instance_ok (wres_instance res)
      \<and> (wres_decision res = Warmup_COMPLETE \<longleftrightarrow> existing = None \<and> warmup_completes inst receipt)
      \<and> wres_instance res = (if wres_decision res = Warmup_COMPLETE then warmed_up inst receipt else inst)
      \<and> (wres_decision res = Warmup_COMPLETE \<longrightarrow>
           (\<forall>other later. warmup_receipt_ok other \<longrightarrow>
              (\<exists>r. resolve_forward_warmup (wres_instance res) other later = Inr r
                 \<and> wres_decision r \<noteq> Warmup_COMPLETE \<and> wres_instance r = wres_instance res
                 \<and> (later = Some receipt \<longrightarrow> wres_decision r =
                      (if warmup_receipt_fingerprint other = warmup_receipt_fingerprint receipt
                       then Warmup_REPLAY_EXISTING else Warmup_CONFLICT)))))"
proof -
  have replay: "\<exists>r. resolve_forward_warmup i other (Some e) = Inr r \<and> wres_instance r = i
      \<and> wres_decision r \<noteq> Warmup_COMPLETE
      \<and> wres_decision r = (if warmup_receipt_fingerprint other = warmup_receipt_fingerprint e
           then Warmup_REPLAY_EXISTING else Warmup_CONFLICT)" for i other e
    by (auto simp: resolve_forward_warmup_def mk_warmup_resolution_simps)
  have finished: "\<exists>r. resolve_forward_warmup (warmed_up inst receipt) other None = Inr r
      \<and> wres_decision r \<noteq> Warmup_COMPLETE \<and> wres_instance r = warmed_up inst receipt"
    if "warmup_completes inst receipt" "warmup_receipt_ok other" for other
    using warmed_up_ok [OF assms that(1)] that(2)
    by (cases rule: resolve_first_receipt) (auto simp: warmup_completes_def warmed_up_def)
  show ?thesis
  proof (cases existing)
    case None
    from assms show ?thesis
    proof (cases rule: resolve_first_receipt)
      case complete
      have later: "\<exists>r. resolve_forward_warmup (warmed_up inst receipt) other l = Inr r
          \<and> wres_decision r \<noteq> Warmup_COMPLETE \<and> wres_instance r = warmed_up inst receipt
          \<and> (l = Some receipt \<longrightarrow> wres_decision r =
               (if warmup_receipt_fingerprint other = warmup_receipt_fingerprint receipt
                then Warmup_REPLAY_EXISTING else Warmup_CONFLICT))"
        if "warmup_receipt_ok other" for other l
      proof (cases l)
        case (Some e)
        with replay [of "warmed_up inst receipt" other e] show ?thesis by (metis option.inject)
      qed (use finished [OF complete(1) that] in simp)
      with complete None warmed_up_ok [OF assms complete(1)] show ?thesis by simp
    next
      case (reject m)
      with None assms show ?thesis by simp
    qed
  next
    case (Some e)
    from replay [of inst receipt e] Some assms(1) show ?thesis by fastforce
  qed
qed

definition sample_receipt :: warmup_receipt where
  "sample_receipt = \<lparr>wr_instance_id = ''i-1'', wr_warmup_snapshot_fingerprint = sample_digest,
     wr_carry_in_mode = CarryIn_FLAT, wr_warmup_result_fingerprint = sample_digest, wr_completed_at = 5,
     wr_final_event_id = Some ''e0'', wr_final_event_sequence = 0,
     wr_final_event_fingerprint = Some sample_digest\<rparr>"

definition sample_warming :: forward_instance where
  "sample_warming = sample_instance\<lparr>fi_state := Forward_WARMING_UP\<rparr>"

lemma sample_receipt_ok [simp]: "warmup_receipt_ok sample_receipt"
  by (simp add: warmup_receipt_ok_def sample_receipt_def py_space_def)

lemma sample_warming_ok [simp]: "forward_instance_ok sample_warming"
  using sample_instance_ok unfolding forward_instance_ok_def sample_warming_def by simp

lemma sample_warmup_completes: "warmup_completes sample_warming sample_receipt"
  by (simp add: warmup_completes_def sample_warming_def sample_instance_def sample_receipt_def)

theorem warmup_completes_once_witness:
  "forward_instance_ok sample_warming \<and> warmup_receipt_ok sample_receipt
   \<and> (\<exists>res. resolve_forward_warmup sample_warming sample_receipt None = Inr res
        \<and> wres_decision res = Warmup_COMPLETE \<and> fi_state (wres_instance res) = Forward_ACTIVE)"
  using warmup_completes_once [OF sample_warming_ok sample_receipt_ok, of None] sample_warmup_completes
  by (auto simp: warmed_up_def)

end
