(* ===== verification/Forward_Admission.thy ===== *)
theory Forward_Admission
  imports Forward_Warmup
begin

text \<open>
  \<open>src/backend/app/strategy_lab_v2/forward_admission.py\<close>: admission of live forward events. The
  state pairs the checkpoint of an active instance with the content identity of every admitted
  event; an admission revalidates the caller's classification against the persisted cursor.
\<close>

section \<open>Live state\<close>

record seen_event =
  se_event_id :: string
  se_event_fingerprint :: string
  se_sequence :: int

definition mk_seen_event :: "string \<Rightarrow> string \<Rightarrow> int \<Rightarrow> seen_event result" where
  "mk_seen_event event_id fp sequence =
     raising
       ([(blank event_id, ''event_id must not be empty'')]
        @ digest_checks fp ''event_fingerprint''
        @ [(sequence < 0, ''event sequence must be a non-negative integer'')])
       (Inr \<lparr>se_event_id = event_id, se_event_fingerprint = fp, se_sequence = sequence\<rparr>)"

record live_state =
  lv_checkpoint :: checkpoint
  lv_warmup_receipt_fingerprint :: string
  lv_seen_events :: "seen_event list"

definition mk_live_state :: "checkpoint \<Rightarrow> string \<Rightarrow> seen_event list \<Rightarrow> live_state result" where
  "mk_live_state c warmup_fp seen =
     raising
       ([(fi_state (ck_instance c) \<noteq> Forward_ACTIVE, ''live admission requires an active forward instance'')]
        @ digest_checks warmup_fp ''warmup_receipt_fingerprint''
        @ [(\<not> distinct (map se_event_id seen), ''seen event ids must be unique'')])
       (Inr \<lparr>lv_checkpoint = c, lv_warmup_receipt_fingerprint = warmup_fp,
             lv_seen_events = sort_key se_event_id seen\<rparr>)"

definition from_warmup :: "forward_instance \<Rightarrow> warmup_receipt \<Rightarrow> live_state result" where
  "from_warmup inst receipt =
     raising
       [(fi_state inst \<noteq> Forward_ACTIVE, ''warm-up must complete before live admission''),
        (wr_instance_id receipt \<noteq> fi_instance_id inst,
           ''warm-up receipt instance does not match live instance''),
        (wr_warmup_snapshot_fingerprint receipt \<noteq> fi_warmup_snapshot_fingerprint inst,
           ''warm-up receipt snapshot does not match live instance''),
        (wr_carry_in_mode receipt \<noteq> fi_carry_in_mode inst,
           ''warm-up receipt carry-in mode does not match live instance''),
        (wr_final_event_id receipt \<noteq> fi_last_event_id inst
           \<or> wr_final_event_sequence receipt \<noteq> fi_last_event_sequence inst,
           ''warm-up receipt cursor does not match live instance'')]
       (rbind
          (case (wr_final_event_id receipt, wr_final_event_fingerprint receipt) of
             (Some e, Some fp) \<Rightarrow>
               rbind (mk_seen_event e fp (wr_final_event_sequence receipt)) (\<lambda>s. Inr [s])
           | _ \<Rightarrow> Inr [])
          (\<lambda>seen.
             rbind (mk_checkpoint inst (set_option (wr_final_event_id receipt)) {} {} 0 0)
               (\<lambda>c. mk_live_state c (warmup_receipt_fingerprint receipt) seen)))"

section \<open>Admission\<close>

datatype admission_decision =
    Admit_ACCEPTED | Admit_REPLAY_EXISTING | Admit_GAP | Admit_DUPLICATE | Admit_OUT_OF_ORDER
  | Admit_CORRECTION | Admit_CONFLICT | Admit_REJECT

record admission_resolution =
  ar_decision :: admission_decision
  ar_state :: live_state
  ar_event_fingerprint :: string
  ar_rejection_reason :: "string option"

definition mk_admission_resolution ::
  "admission_decision \<Rightarrow> live_state \<Rightarrow> string \<Rightarrow> string option \<Rightarrow> admission_resolution result" where
  "mk_admission_resolution decision state fp reason =
     raising
       (digest_checks fp ''event_fingerprint''
        @ [(decision \<in> {Admit_CONFLICT, Admit_REJECT} \<and> no_reason reason,
              ''conflicts and rejections require a reason''),
           (decision \<notin> {Admit_CONFLICT, Admit_REJECT} \<and> \<not> no_reason reason,
              ''successful admission resolutions cannot contain a reason'')])
       (Inr \<lparr>ar_decision = decision, ar_state = state, ar_event_fingerprint = fp,
             ar_rejection_reason = reason\<rparr>)"

definition forward_event_py :: "forward_event \<Rightarrow> pyval" where
  "forward_event_py e = dataclass_py ''app.strategy_lab_v2.lifecycle.CanonicalForwardEvent''
     [(''event_id'', PStr (ev_event_id e)),
      (''sequence'', PInt (ev_sequence e)),
      (''event_time'', time_py (ev_event_time e)),
      (''arrived_at'', time_py (ev_arrived_at e)),
      (''source_digest'', PStr (ev_source_digest e)),
      (''correction_of'', opt_py PStr (ev_correction_of e))]"

definition forward_event_fingerprint :: "forward_event \<Rightarrow> string" where
  "forward_event_fingerprint e = digest (forward_event_py e)"

definition live_sequence :: "forward_instance \<Rightarrow> int" where
  "live_sequence inst = (if fi_last_event_id inst \<noteq> None then fi_last_event_sequence inst else -1)"

definition expected_disposition :: "checkpoint \<Rightarrow> forward_event \<Rightarrow> disposition" where
  "expected_disposition c event =
     (let inst = ck_instance c; current = live_sequence inst
      in if ev_correction_of event \<noteq> None then CORRECTION
         else if ev_event_id event \<in> ck_processed c
                 \<or> fi_last_event_id inst = Some (ev_event_id event) then DUPLICATE
         else if ev_sequence event \<le> current then OUT_OF_ORDER
         else if ev_sequence event > current + 1 then GAP
         else ACCEPTED)"

definition validate_observation :: "live_state \<Rightarrow> forward_event \<Rightarrow> observation \<Rightarrow> unit result" where
  "validate_observation state event obs =
     (let c = lv_checkpoint state; inst = ck_instance c; current = live_sequence inst;
          expected = expected_disposition c event; cursor = ob_next_cursor obs
      in raising
           [(ob_disposition obs \<noteq> expected,
               ''forward event observation disposition does not match live cursor'')]
           (if expected = GAP then
              raising
                [(ob_missing_start obs \<noteq> Some (current + 1)
                    \<or> ob_missing_end obs \<noteq> Some (ev_sequence event - 1),
                    ''gap observation missing sequence bounds do not match live cursor'')]
                (Inr ())
            else if expected = ACCEPTED then
              rbind (mk_forward_cursor (ev_sequence event) (Some (ev_event_id event))
                       (Some (utc (ev_event_time event))))
                (\<lambda>expected_cursor.
                   raising
                     [(cursor \<noteq> expected_cursor, ''accepted observation cursor does not match the event'')]
                     (Inr ()))
            else
              raising
                [(\<not> (if fi_last_event_id inst = None
                      then cu_last_sequence cursor = -1 \<and> cu_last_event_id cursor = None
                             \<and> cu_last_event_time cursor = None
                      else cu_last_sequence cursor = current
                             \<and> cu_last_event_id cursor = fi_last_event_id inst
                             \<and> cu_last_event_time cursor \<noteq> None),
                    ''non-accepted observation must preserve the live cursor'')]
                (Inr ())))"

fun admission_of :: "disposition \<Rightarrow> admission_decision" where
  "admission_of ACCEPTED = Admit_ACCEPTED"
| "admission_of GAP = Admit_GAP"
| "admission_of DUPLICATE = Admit_DUPLICATE"
| "admission_of OUT_OF_ORDER = Admit_OUT_OF_ORDER"
| "admission_of CORRECTION = Admit_CORRECTION"

definition admit_forward_event ::
  "live_state \<Rightarrow> forward_event \<Rightarrow> observation \<Rightarrow> admission_resolution result" where
  "admit_forward_event state event obs =
     (let fp = forward_event_fingerprint event;
          existing = find (\<lambda>s. se_event_id s = ev_event_id event) (lv_seen_events state);
          proceed =
            (case rbind (validate_observation state event obs)
                    (\<lambda>_. apply_checkpoint_observation (lv_checkpoint state) event obs) of
               Inl (ValueError m) \<Rightarrow> mk_admission_resolution Admit_REJECT state fp (Some m)
             | Inl err \<Rightarrow> Inl err
             | Inr c \<Rightarrow>
                 rbind (if existing \<noteq> None then Inr (lv_seen_events state)
                        else rbind (mk_seen_event (ev_event_id event) fp (ev_sequence event))
                               (\<lambda>s. Inr (lv_seen_events state @ [s])))
                   (\<lambda>seen. rbind (mk_live_state c (lv_warmup_receipt_fingerprint state) seen)
                     (\<lambda>next. mk_admission_resolution (admission_of (ob_disposition obs)) next fp None)))
      in case existing of
           None \<Rightarrow> proceed
         | Some s \<Rightarrow>
             if se_event_fingerprint s \<noteq> fp then
               mk_admission_resolution Admit_CONFLICT state fp
                 (Some ''event id is already bound to different content'')
             else if ev_event_id event \<notin> ck_buffered (lv_checkpoint state) then
               mk_admission_resolution Admit_REPLAY_EXISTING state fp None
             else proceed)"

section \<open>Invariant and requests\<close>

definition seen_event_ok :: "seen_event \<Rightarrow> bool" where
  "seen_event_ok s \<longleftrightarrow> \<not> blank (se_event_id s) \<and> is_digest (se_event_fingerprint s) \<and> 0 \<le> se_sequence s"

text \<open>Besides what \<open>__post_init__\<close> checks: the seen events are kept in id order, and every event of
  the checkpoint has its content bound in the seen events.\<close>

definition live_state_ok :: "live_state \<Rightarrow> bool" where
  "live_state_ok st \<longleftrightarrow> checkpoint_ok (lv_checkpoint st)
     \<and> fi_state (ck_instance (lv_checkpoint st)) = Forward_ACTIVE
     \<and> is_digest (lv_warmup_receipt_fingerprint st)
     \<and> (\<forall>s \<in> set (lv_seen_events st). seen_event_ok s)
     \<and> distinct (map se_event_id (lv_seen_events st)) \<and> sorted (map se_event_id (lv_seen_events st))
     \<and> ck_processed (lv_checkpoint st) \<union> ck_buffered (lv_checkpoint st) \<union> ck_corrections (lv_checkpoint st)
         \<subseteq> se_event_id ` set (lv_seen_events st)"

definition live_le :: "live_state \<Rightarrow> live_state \<Rightarrow> bool" where
  "live_le s t \<longleftrightarrow> checkpoint_le (lv_checkpoint s) (lv_checkpoint t)
     \<and> set (lv_seen_events s) \<subseteq> set (lv_seen_events t)
     \<and> lv_warmup_receipt_fingerprint t = lv_warmup_receipt_fingerprint s"

fun admit_step :: "forward_event \<times> observation \<Rightarrow> live_state \<Rightarrow> live_state result" where
  "admit_step (event, obs) st = rbind (admit_forward_event st event obs) (\<lambda>r. Inr (ar_state r))"

definition seen_of :: "live_state \<Rightarrow> string \<Rightarrow> seen_event option" where
  "seen_of st e = find (\<lambda>s. se_event_id s = e) (lv_seen_events st)"

section \<open>Live states\<close>

lemma mk_seen_event_Inr:
  "mk_seen_event i f n = Inr s \<longleftrightarrow>
     s = \<lparr>se_event_id = i, se_event_fingerprint = f, se_sequence = n\<rparr> \<and> seen_event_ok s"
  by (auto simp: mk_seen_event_def seen_event_ok_def contract_simps)

lemma mk_live_state_Inr:
  "mk_live_state c w seen = Inr st \<longleftrightarrow>
     st = \<lparr>lv_checkpoint = c, lv_warmup_receipt_fingerprint = w,
           lv_seen_events = sort_key se_event_id seen\<rparr>
     \<and> fi_state (ck_instance c) = Forward_ACTIVE \<and> is_digest w \<and> distinct (map se_event_id seen)"
  by (auto simp: mk_live_state_def contract_simps)

lemma distinct_sort_key: "distinct (map f (sort_key f xs)) = distinct (map f xs)"
  by (metis distinct_map distinct_sort set_sort)

lemma from_warmup_ok:
  assumes "forward_instance_ok inst" "warmup_receipt_ok r" "from_warmup inst r = Inr st"
  shows "live_state_ok st"
proof (cases "wr_final_event_id r")
  case None
  with assms have "mk_checkpoint inst {} {} {} 0 0 = Inr (lv_checkpoint st)" "lv_seen_events st = []"
    "fi_state inst = Forward_ACTIVE" "lv_warmup_receipt_fingerprint st = warmup_receipt_fingerprint r"
    by (auto simp: from_warmup_def contract_simps mk_live_state_Inr)
  with assms(1) show ?thesis
    by (auto simp: live_state_ok_def mk_checkpoint_Inr)
next
  case (Some e)
  then obtain d where d: "wr_final_event_fingerprint r = Some d" using assms(2) by (auto simp: warmup_receipt_ok_def)
  with Some assms(3) have "mk_checkpoint inst {e} {} {} 0 0 = Inr (lv_checkpoint st)"
    "lv_seen_events st = [\<lparr>se_event_id = e, se_event_fingerprint = d, se_sequence = wr_final_event_sequence r\<rparr>]"
    "seen_event_ok \<lparr>se_event_id = e, se_event_fingerprint = d, se_sequence = wr_final_event_sequence r\<rparr>"
    "fi_state inst = Forward_ACTIVE" "lv_warmup_receipt_fingerprint st = warmup_receipt_fingerprint r"
    by (auto simp: from_warmup_def contract_simps mk_live_state_Inr mk_seen_event_Inr)
  with assms(1) show ?thesis
    by (auto simp: live_state_ok_def mk_checkpoint_Inr)
qed

section \<open>Admission never raises\<close>

lemma clean_forward_instance_remake: "clean (forward_instance_remake f)"
  by (simp add: forward_instance_remake_def mk_forward_instance_def digest_checks_def)

lemma clean_mk_forward_cursor: "clean (mk_forward_cursor n i (Some (utc t)))"
  by (simp add: mk_forward_cursor_def utc_def)

lemma clean_validate_observation: "clean (validate_observation st e ob)"
  by (auto simp: validate_observation_def Let_def intro!: clean_raising clean_rbind clean_mk_forward_cursor)

lemma clean_mk_checkpoint: "clean (mk_checkpoint i p b k d n)"
  by (simp add: mk_checkpoint_def event_ids_check_def)

lemma clean_apply_forward_event_observation: "clean (apply_forward_event_observation f e ob)"
  by (simp add: apply_forward_event_observation_def clean_forward_instance_remake)

lemma clean_apply_checkpoint_observation: "clean (apply_checkpoint_observation c e ob)"
  by (auto simp: apply_checkpoint_observation_def Let_def clean_mk_checkpoint
      clean_apply_forward_event_observation intro!: clean_rbind)

lemma encodable_forward_event [simp]: "encodable (forward_event_py e)"
  by (simp add: forward_event_py_def)

lemma forward_event_fingerprint_digest [simp]: "is_digest (forward_event_fingerprint e)"
  by (simp add: forward_event_fingerprint_def is_digest_digest)

lemma mk_admission_resolution_simps:
  "is_digest f \<Longrightarrow> m \<noteq> [] \<Longrightarrow> d \<in> {Admit_CONFLICT, Admit_REJECT} \<Longrightarrow> mk_admission_resolution d st f (Some m)
     = Inr \<lparr>ar_decision = d, ar_state = st, ar_event_fingerprint = f, ar_rejection_reason = Some m\<rparr>"
  "is_digest f \<Longrightarrow> d \<notin> {Admit_CONFLICT, Admit_REJECT} \<Longrightarrow> mk_admission_resolution d st f None
     = Inr \<lparr>ar_decision = d, ar_state = st, ar_event_fingerprint = f, ar_rejection_reason = None\<rparr>"
  by (auto simp: mk_admission_resolution_def raising.simps no_reason_def digest_checks_def is_digest_def
      raising_append)

definition seen_entry :: "forward_event \<Rightarrow> seen_event" where
  "seen_entry e = \<lparr>se_event_id = ev_event_id e, se_event_fingerprint = forward_event_fingerprint e,
     se_sequence = ev_sequence e\<rparr>"

definition admission_proceed :: "live_state \<Rightarrow> forward_event \<Rightarrow> observation \<Rightarrow> admission_resolution result" where
  "admission_proceed st e ob =
     (case rbind (validate_observation st e ob)
             (\<lambda>_. apply_checkpoint_observation (lv_checkpoint st) e ob) of
        Inl (ValueError m) \<Rightarrow>
          mk_admission_resolution Admit_REJECT st (forward_event_fingerprint e) (Some m)
      | Inl err \<Rightarrow> Inl err
      | Inr c \<Rightarrow>
          rbind (if seen_of st (ev_event_id e) \<noteq> None then Inr (lv_seen_events st)
                 else rbind (mk_seen_event (ev_event_id e) (forward_event_fingerprint e) (ev_sequence e))
                        (\<lambda>s. Inr (lv_seen_events st @ [s])))
            (\<lambda>seen. rbind (mk_live_state c (lv_warmup_receipt_fingerprint st) seen)
              (\<lambda>next. mk_admission_resolution (admission_of (ob_disposition ob)) next
                 (forward_event_fingerprint e) None)))"

lemma admit_unfold:
  "admit_forward_event st e ob =
     (case seen_of st (ev_event_id e) of
        None \<Rightarrow> admission_proceed st e ob
      | Some s \<Rightarrow>
          if se_event_fingerprint s \<noteq> forward_event_fingerprint e then
            mk_admission_resolution Admit_CONFLICT st (forward_event_fingerprint e)
              (Some ''event id is already bound to different content'')
          else if ev_event_id e \<notin> ck_buffered (lv_checkpoint st) then
            mk_admission_resolution Admit_REPLAY_EXISTING st (forward_event_fingerprint e) None
          else admission_proceed st e ob)"
  by (simp only: admit_forward_event_def seen_of_def admission_proceed_def Let_def)

lemma admission_of_neq [simp]:
  "admission_of d \<noteq> Admit_CONFLICT" "admission_of d \<noteq> Admit_REJECT" "admission_of d \<noteq> Admit_REPLAY_EXISTING"
  "Admit_CONFLICT \<noteq> admission_of d" "Admit_REJECT \<noteq> admission_of d" "Admit_REPLAY_EXISTING \<noteq> admission_of d"
  by (cases d; simp)+

lemma seen_of_None: "seen_of st e = None \<longleftrightarrow> e \<notin> se_event_id ` set (lv_seen_events st)"
  by (auto simp: seen_of_def find_None_iff)

lemma seen_of_Some: "seen_of st e = Some s \<Longrightarrow> s \<in> set (lv_seen_events st) \<and> se_event_id s = e"
  by (auto simp: seen_of_def find_Some_iff)

lemma mk_admission_resolution_Inr:
  "mk_admission_resolution d st f m = Inr r \<Longrightarrow>
     r = \<lparr>ar_decision = d, ar_state = st, ar_event_fingerprint = f, ar_rejection_reason = m\<rparr>"
  by (auto simp: mk_admission_resolution_def contract_simps)

lemma admit_Inr_cases:
  assumes "admit_forward_event st e ob = Inr r"
  obtains (unchanged) "ar_state r = st"
      "ar_decision r \<in> {Admit_REPLAY_EXISTING, Admit_CONFLICT, Admit_REJECT}"
  | (admitted) c seen where "validate_observation st e ob = Inr ()"
      "apply_checkpoint_observation (lv_checkpoint st) e ob = Inr c"
      "mk_live_state c (lv_warmup_receipt_fingerprint st) seen = Inr (ar_state r)"
      "ar_decision r = admission_of (ob_disposition ob)"
      "seen_of st (ev_event_id e) \<noteq> None \<and> seen = lv_seen_events st
       \<or> seen_of st (ev_event_id e) = None \<and> seen = lv_seen_events st @ [seen_entry e]
          \<and> seen_event_ok (seen_entry e)"
proof -
  have *: thesis if "admission_proceed st e ob = Inr r"
    using that unfolding admission_proceed_def
    by (cases "rbind (validate_observation st e ob) (\<lambda>_. apply_checkpoint_observation (lv_checkpoint st) e ob)")
      (auto simp: mk_seen_event_Inr seen_entry_def split: py_error.splits if_splits
        dest!: mk_admission_resolution_Inr intro: unchanged admitted)
  from assms show thesis
    unfolding admit_unfold
    by (auto split: option.splits if_splits dest!: mk_admission_resolution_Inr intro: unchanged *)
qed

lemma apply_checkpoint_observation_events:
  "apply_checkpoint_observation c e ob = Inr d \<Longrightarrow>
     ck_processed d \<union> ck_buffered d \<union> ck_corrections d
       \<subseteq> insert (ev_event_id e) (ck_processed c \<union> ck_buffered c \<union> ck_corrections c)"
  by (auto simp: apply_checkpoint_observation_def Let_def split: if_splits dest!: mk_checkpoint_fields)

lemma admit_keeps:
  assumes "live_state_ok st" "admit_forward_event st e ob = Inr r"
  shows "live_state_ok (ar_state r) \<and> live_le st (ar_state r)"
  using assms(2)
proof (cases rule: admit_Inr_cases)
  case unchanged
  with assms(1) show ?thesis by (simp add: live_le_def checkpoints.le_refl)
next
  case (admitted c seen)
  have ok: "checkpoint_ok (lv_checkpoint st)" using assms(1) by (simp add: live_state_ok_def)
  have st': "ar_state r = \<lparr>lv_checkpoint = c, lv_warmup_receipt_fingerprint = lv_warmup_receipt_fingerprint st,
      lv_seen_events = sort_key se_event_id seen\<rparr>" "fi_state (ck_instance c) = Forward_ACTIVE"
      "distinct (map se_event_id seen)"
    using admitted(3) by (auto simp: mk_live_state_Inr)
  have seen: "set (lv_seen_events st) \<subseteq> set seen" "ev_event_id e \<in> se_event_id ` set seen"
      "\<forall>s \<in> set seen. seen_event_ok s"
    using admitted(5) assms(1) by (auto simp: live_state_ok_def seen_of_None seen_entry_def)
  have "ck_processed (lv_checkpoint st) \<union> ck_buffered (lv_checkpoint st) \<union> ck_corrections (lv_checkpoint st)
      \<subseteq> se_event_id ` set seen"
    using assms(1) image_mono [OF seen(1), of se_event_id] unfolding live_state_ok_def by blast
  then have "ck_processed c \<union> ck_buffered c \<union> ck_corrections c \<subseteq> se_event_id ` set seen"
    using apply_checkpoint_observation_events [OF admitted(2)] seen(2) by blast
  then show ?thesis
    using apply_checkpoint_observation_ok [OF ok admitted(2)]
      apply_checkpoint_observation_le [OF ok admitted(2)] st' seen(1,3) assms(1)
    by (simp add: live_state_ok_def live_le_def distinct_sort_key)
qed

interpretation admissions: guarded_machine admit_step live_state_ok live_le
proof
  fix s r s'
  assume "live_state_ok s" "admit_step r s = Inr s'"
  then show "live_state_ok s'" "live_le s s'" by (cases r; auto dest: admit_keeps)+
next
  fix s t u
  show "live_le s s" by (simp add: live_le_def checkpoints.le_refl)
  show "live_le s t \<Longrightarrow> live_le t u \<Longrightarrow> live_le s u"
    by (auto simp: live_le_def intro: checkpoints.le_trans)
qed

lemma seen_entry_ok: "forward_event_ok e \<Longrightarrow> seen_event_ok (seen_entry e)"
  by (simp add: seen_entry_def seen_event_ok_def forward_event_ok_def)

lemma admitted_state:
  assumes "live_state_ok st" "forward_event_ok e" "apply_checkpoint_observation (lv_checkpoint st) e ob = Inr c"
  shows "\<exists>st'. rbind (if seen_of st (ev_event_id e) \<noteq> None then Inr (lv_seen_events st)
                 else rbind (mk_seen_event (ev_event_id e) (forward_event_fingerprint e) (ev_sequence e))
                        (\<lambda>s. Inr (lv_seen_events st @ [s])))
            (mk_live_state c (lv_warmup_receipt_fingerprint st)) = Inr st'"
proof -
  have ok: "checkpoint_ok (lv_checkpoint st)" "fi_state (ck_instance (lv_checkpoint st)) = Forward_ACTIVE"
    using assms(1) by (simp_all add: live_state_ok_def)
  have act: "fi_state (ck_instance c) = Forward_ACTIVE"
    using apply_checkpoint_observation_le [OF ok(1) assms(3)] ok(2) by (simp add: checkpoint_le_def)
  have new: "mk_seen_event (ev_event_id e) (forward_event_fingerprint e) (ev_sequence e) = Inr (seen_entry e)"
    using seen_entry_ok [OF assms(2)] by (subst mk_seen_event_Inr) (simp add: seen_entry_def)
  show ?thesis
    using assms(1) act new
    by (cases "seen_of st (ev_event_id e)")
      (auto simp: mk_live_state_Inr live_state_ok_def seen_of_None seen_entry_def)
qed

lemma admit_total:
  assumes "live_state_ok st" "forward_event_ok e"
  shows "\<exists>r. admit_forward_event st e ob = Inr r"
proof -
  let ?run = "rbind (validate_observation st e ob) (\<lambda>_. apply_checkpoint_observation (lv_checkpoint st) e ob)"
  have "clean ?run"
    by (intro clean_rbind clean_validate_observation clean_apply_checkpoint_observation)
  then have "\<exists>r. admission_proceed st e ob = Inr r"
    using admitted_state [OF assms, of ob] unfolding admission_proceed_def
    by (cases ?run)
      (fastforce simp: clean_def mk_admission_resolution_simps split: py_error.splits)+
  then show ?thesis
    by (auto simp: admit_unfold mk_admission_resolution_simps split: option.splits)
qed

lemma validate_accepted:
  assumes "validate_observation st e ob = Inr ()" "ob_disposition ob = ACCEPTED"
  shows "ev_correction_of e = None \<and> ev_event_id e \<notin> ck_processed (lv_checkpoint st)
     \<and> ev_sequence e = live_sequence (ck_instance (lv_checkpoint st)) + 1
     \<and> cu_last_event_time (ob_next_cursor ob) = Some (ev_event_time e)"
  using assms
  by (auto simp: validate_observation_def expected_disposition_def Let_def contract_simps
      mk_forward_cursor_def split: if_splits)

lemma apply_accepted:
  "apply_checkpoint_observation c e ob = Inr d \<Longrightarrow> ob_disposition ob = ACCEPTED \<Longrightarrow>
     ev_event_id e \<notin> ck_processed c \<Longrightarrow>
     ck_processed d = insert (ev_event_id e) (ck_processed c) \<and> ck_buffered d = ck_buffered c - {ev_event_id e}
     \<and> ck_corrections d = ck_corrections c
     \<and> fi_last_event_id (ck_instance d) = Some (ev_event_id e)
     \<and> fi_last_event_sequence (ck_instance d) = ev_sequence e
     \<and> fi_updated_at (ck_instance d) = ev_arrived_at e"
  by (auto simp: apply_checkpoint_observation_def apply_forward_event_observation_def Let_def contract_simps
      forward_instance_remake_iff dest!: mk_checkpoint_fields)

lemma seen_of_unique:
  assumes "distinct (map se_event_id (lv_seen_events st))" "s \<in> set (lv_seen_events st)"
  shows "seen_of st (se_event_id s) = Some s"
proof -
  obtain t where t: "seen_of st (se_event_id s) = Some t"
    using assms(2) seen_of_None [of st "se_event_id s"] by (cases "seen_of st (se_event_id s)") auto
  from seen_of_Some [OF this] assms have "t = s" by (auto simp: distinct_map inj_on_def)
  with t show ?thesis by simp
qed

lemma admit_binds:
  assumes "admit_forward_event st e ob = Inr r" "ar_decision r \<notin> {Admit_CONFLICT, Admit_REJECT}"
  shows "\<exists>s \<in> set (lv_seen_events (ar_state r)).
           se_event_id s = ev_event_id e \<and> se_event_fingerprint s = forward_event_fingerprint e"
proof -
  have *: "\<exists>s \<in> set (lv_seen_events (ar_state r)).
      se_event_id s = ev_event_id e \<and> se_event_fingerprint s = forward_event_fingerprint e"
    if p: "admission_proceed st e ob = Inr r"
      and s: "\<And>s. seen_of st (ev_event_id e) = Some s \<Longrightarrow> se_event_fingerprint s = forward_event_fingerprint e"
  proof -
    obtain c seen where c: "mk_live_state c (lv_warmup_receipt_fingerprint st) seen = Inr (ar_state r)"
      "(if seen_of st (ev_event_id e) \<noteq> None then Inr (lv_seen_events st)
        else rbind (mk_seen_event (ev_event_id e) (forward_event_fingerprint e) (ev_sequence e))
               (\<lambda>s. Inr (lv_seen_events st @ [s]))) = Inr seen"
      using p assms(2) unfolding admission_proceed_def
      by (cases "rbind (validate_observation st e ob) (\<lambda>_. apply_checkpoint_observation (lv_checkpoint st) e ob)")
        (auto split: py_error.splits dest!: mk_admission_resolution_Inr)
    have "\<exists>s \<in> set seen. se_event_id s = ev_event_id e \<and> se_event_fingerprint s = forward_event_fingerprint e"
      using c(2) s by (auto simp: mk_seen_event_Inr split: if_splits dest: seen_of_Some)
    with c(1) show ?thesis by (simp add: mk_live_state_Inr)
  qed
  from assms show ?thesis
    unfolding admit_unfold
    by (auto split: option.splits if_splits dest!: mk_admission_resolution_Inr intro: *)
      (metis seen_of_Some)
qed

text \<open>The cursor that the live state stands for; the time of its last event is not stored there.\<close>

definition live_cursor :: "live_state \<Rightarrow> instant \<Rightarrow> forward_cursor" where
  "live_cursor st t =
     (let inst = ck_instance (lv_checkpoint st)
      in \<lparr>cu_last_sequence = live_sequence inst, cu_last_event_id = fi_last_event_id inst,
          cu_last_event_time = (if fi_last_event_id inst = None then None else Some t)\<rparr>)"

lemma live_cursor_ok: "live_state_ok st \<Longrightarrow> forward_cursor_ok (live_cursor st t)"
  by (cases "fi_last_event_id (ck_instance (lv_checkpoint st))")
    (auto simp: live_cursor_def forward_cursor_ok_def live_sequence_def live_state_ok_def checkpoint_ok_def
      forward_instance_ok_def dest: not_blank_nonempty)

lemma observed_disposition:
  assumes "observe_forward_event (live_cursor st t) e (ck_processed (lv_checkpoint st)) w = Inr ob"
    and "fi_last_event_id (ck_instance (lv_checkpoint st)) \<noteq> None \<longrightarrow> t \<le> ev_event_time e"
  shows "ob_disposition ob = expected_disposition (lv_checkpoint st) e"
  using assms
  by (auto simp: observe_forward_event_def live_cursor_def expected_disposition_def contract_simps Let_def
      mk_observation_Inr split: if_splits)

lemma observed_validates:
  assumes "live_state_ok st" "forward_event_ok e"
    and ob: "observe_forward_event (live_cursor st t) e (ck_processed (lv_checkpoint st)) w = Inr ob"
    and t: "fi_last_event_id (ck_instance (lv_checkpoint st)) \<noteq> None \<longrightarrow> t \<le> ev_event_time e"
  shows "validate_observation st e ob = Inr ()"
proof -
  have w: "0 \<le> w" using ob by (auto simp: observe_forward_event_def contract_simps)
  obtain ob' where ob': "observe_forward_event (live_cursor st t) e (ck_processed (lv_checkpoint st)) w = Inr ob'"
    "ob_disposition ob' = GAP \<longrightarrow>
        ob_missing_start ob' = Some (cu_last_sequence (live_cursor st t) + 1)
        \<and> ob_missing_end ob' = Some (ev_sequence e - 1)"
    "ob_next_cursor ob' = (if ob_disposition ob' = ACCEPTED
          then \<lparr>cu_last_sequence = ev_sequence e, cu_last_event_id = Some (ev_event_id e),
                cu_last_event_time = Some (ev_event_time e)\<rparr> else live_cursor st t)"
    using observe_forward_event_Inr [OF live_cursor_ok [OF assms(1)] assms(2) w] by blast
  show ?thesis
    using ob ob' observed_disposition [OF ob t] mk_forward_cursor_event [OF assms(2)]
    by (auto simp: validate_observation_def Let_def raising.simps live_cursor_def live_sequence_def)
qed

lemma observed_facts:
  assumes "live_state_ok st" "forward_event_ok e"
    and ob: "observe_forward_event (live_cursor st t) e P w = Inr ob"
  shows "observation_ok ob"
    "ob_disposition ob = ACCEPTED \<Longrightarrow> ev_sequence e = live_sequence (ck_instance (lv_checkpoint st)) + 1"
    "ob_disposition ob = CORRECTION \<Longrightarrow> ev_correction_of e \<noteq> None"
    "ob_next_cursor ob = (if ob_disposition ob = ACCEPTED
          then \<lparr>cu_last_sequence = ev_sequence e, cu_last_event_id = Some (ev_event_id e),
                cu_last_event_time = Some (ev_event_time e)\<rparr> else live_cursor st t)"
proof -
  have w: "0 \<le> w" using ob by (auto simp: observe_forward_event_def contract_simps)
  have seq: "cu_last_sequence (live_cursor st t) = live_sequence (ck_instance (lv_checkpoint st))"
    by (simp add: live_cursor_def Let_def)
  from observe_forward_event_Inr [OF live_cursor_ok [OF assms(1)] assms(2) w, of t P] ob seq
  show "observation_ok ob"
    "ob_disposition ob = ACCEPTED \<Longrightarrow> ev_sequence e = live_sequence (ck_instance (lv_checkpoint st)) + 1"
    "ob_disposition ob = CORRECTION \<Longrightarrow> ev_correction_of e \<noteq> None"
    "ob_next_cursor ob = (if ob_disposition ob = ACCEPTED
          then \<lparr>cu_last_sequence = ev_sequence e, cu_last_event_id = Some (ev_event_id e),
                cu_last_event_time = Some (ev_event_time e)\<rparr> else live_cursor st t)"
    by auto
qed

lemma fresh_event_applies:
  assumes st: "live_state_ok st" and e: "forward_event_ok e" and fresh: "seen_of st (ev_event_id e) = None"
    and ob: "observe_forward_event (live_cursor st t) e (ck_processed (lv_checkpoint st)) w = Inr ob"
    and arr: "fi_updated_at (ck_instance (lv_checkpoint st)) \<le> ev_arrived_at e"
  shows "\<exists>c. apply_checkpoint_observation (lv_checkpoint st) e ob = Inr c"
proof -
  let ?c = "lv_checkpoint st" and ?i = "ck_instance (lv_checkpoint st)" and ?id = "ev_event_id e"
  have c: "checkpoint_ok ?c" and i: "forward_instance_ok ?i"
    using st by (auto simp: live_state_ok_def checkpoint_ok_def)
  have new: "?id \<notin> ck_processed ?c" "?id \<notin> ck_buffered ?c" "?id \<notin> ck_corrections ?c" "\<not> blank ?id"
    using st e fresh by (auto simp: live_state_ok_def seen_of_None forward_event_ok_def)
  note ob = observed_facts [OF st e ob]
  define j where "j = (if ob_disposition ob = ACCEPTED
      then ?i\<lparr>fi_last_event_id := Some ?id, fi_last_event_sequence := ev_sequence e,
              fi_updated_at := ev_arrived_at e\<rparr>
      else if ob_disposition ob = CORRECTION
      then ?i\<lparr>fi_correction_count := fi_correction_count ?i + 1,
              fi_updated_at := max (fi_updated_at ?i) (ev_arrived_at e)\<rparr>
      else ?i)"
  have j: "forward_instance_ok j"
    using i e arr by (auto simp: j_def forward_instance_ok_def forward_event_ok_def)
  have "apply_forward_event_observation ?i e ob = Inr j"
    using ob i j arr
    by (auto simp: apply_forward_event_observation_def raising.simps j_def live_cursor_def live_sequence_def
        observation_ok_def forward_instance_remake_iff)
  moreover have "\<exists>d. mk_checkpoint j
      (if ob_disposition ob = ACCEPTED then ck_processed ?c \<union> {?id} else ck_processed ?c)
      (if ob_disposition ob = ACCEPTED then ck_buffered ?c - {?id}
       else if ob_disposition ob = GAP then ck_buffered ?c \<union> {?id} else ck_buffered ?c)
      (if ob_disposition ob = CORRECTION then ck_corrections ?c \<union> {?id} else ck_corrections ?c)
      (if ob_disposition ob = DUPLICATE then ck_duplicate_count ?c + 1 else ck_duplicate_count ?c)
      (if ob_disposition ob = OUT_OF_ORDER then ck_out_of_order_count ?c + 1 else ck_out_of_order_count ?c)
      = Inr d"
    using j c new by (subst mk_checkpoint_Inr) (auto simp: checkpoint_ok_def j_def)
  ultimately show ?thesis
    using new by (auto simp: apply_checkpoint_observation_def Let_def)
qed

lemma observed_admission:
  assumes "live_state_ok st" "forward_event_ok e" "seen_of st (ev_event_id e) = None"
    and "observe_forward_event (live_cursor st t) e (ck_processed (lv_checkpoint st)) w = Inr ob"
    and "fi_last_event_id (ck_instance (lv_checkpoint st)) \<noteq> None \<longrightarrow> t \<le> ev_event_time e"
    and "fi_updated_at (ck_instance (lv_checkpoint st)) \<le> ev_arrived_at e"
  shows "\<exists>r c. admit_forward_event st e ob = Inr r \<and> ar_decision r = admission_of (ob_disposition ob)
     \<and> apply_checkpoint_observation (lv_checkpoint st) e ob = Inr c
     \<and> ar_state r = \<lparr>lv_checkpoint = c, lv_warmup_receipt_fingerprint = lv_warmup_receipt_fingerprint st,
         lv_seen_events = sort_key se_event_id (lv_seen_events st @ [seen_entry e])\<rparr>"
proof -
  obtain c where c: "apply_checkpoint_observation (lv_checkpoint st) e ob = Inr c"
    using fresh_event_applies assms by blast
  have v: "validate_observation st e ob = Inr ()" using observed_validates assms(1,2,4,5) by blast
  obtain r where r: "admit_forward_event st e ob = Inr r" using admit_total assms(1,2) by blast
  have d: "ar_decision r = admission_of (ob_disposition ob)"
    using r v c assms(3)
    by (auto simp: admit_unfold admission_proceed_def dest!: mk_admission_resolution_Inr)
  have "ar_state r = \<lparr>lv_checkpoint = c, lv_warmup_receipt_fingerprint = lv_warmup_receipt_fingerprint st,
      lv_seen_events = sort_key se_event_id (lv_seen_events st @ [seen_entry e])\<rparr>"
    using r v c assms(3)
    by (auto simp: admit_unfold admission_proceed_def mk_live_state_Inr mk_seen_event_Inr seen_entry_def
        dest!: mk_admission_resolution_Inr)
  with c r d show ?thesis by blast
qed

text \<open>A live state before and after its first event.\<close>

definition sample_live :: live_state where
  "sample_live = \<lparr>lv_checkpoint = sample_checkpoint, lv_warmup_receipt_fingerprint = sample_digest,
     lv_seen_events = []\<rparr>"

definition sample_live1 :: live_state where
  "sample_live1 = \<lparr>lv_checkpoint = sample_accepted, lv_warmup_receipt_fingerprint = sample_digest,
     lv_seen_events = [seen_entry (sample_event ''e0'' 0)]\<rparr>"

lemma sample_live_ok: "live_state_ok sample_live"
  using sample_checkpoint_ok by (simp add: live_state_ok_def sample_live_def)
    (simp add: sample_checkpoint_def sample_instance_def)

lemma sample_e0_ok: "forward_event_ok (sample_event ''e0'' 0)"
  by (simp add: py_space_def)

lemma sample_admitted:
  "admit_forward_event sample_live (sample_event ''e0'' 0) (accept_observation (sample_event ''e0'' 0))
     = Inr \<lparr>ar_decision = Admit_ACCEPTED, ar_state = sample_live1,
            ar_event_fingerprint = forward_event_fingerprint (sample_event ''e0'' 0),
            ar_rejection_reason = None\<rparr>"
proof -
  have v: "validate_observation sample_live (sample_event ''e0'' 0)
      (accept_observation (sample_event ''e0'' 0)) = Inr ()"
    by code_simp
  have a: "apply_checkpoint_observation (lv_checkpoint sample_live) (sample_event ''e0'' 0)
      (accept_observation (sample_event ''e0'' 0)) = Inr sample_accepted"
    using sample_accepts by (simp add: sample_live_def)
  have n: "seen_of sample_live (ev_event_id (sample_event ''e0'' 0)) = None"
    by (simp add: seen_of_def sample_live_def)
  have "mk_seen_event (ev_event_id (sample_event ''e0'' 0))
      (forward_event_fingerprint (sample_event ''e0'' 0)) (ev_sequence (sample_event ''e0'' 0))
      = Inr (seen_entry (sample_event ''e0'' 0))"
    using seen_entry_ok [OF sample_e0_ok] by (simp add: mk_seen_event_Inr seen_entry_def)
  moreover have "mk_live_state sample_accepted sample_digest [seen_entry (sample_event ''e0'' 0)]
      = Inr sample_live1"
    by (simp add: mk_live_state_Inr sample_live1_def sample_accepted_def sample_checkpoint_def
        sample_instance_def)
  ultimately show ?thesis
    using v a n
    by (simp add: admit_unfold admission_proceed_def sample_live_def accept_observation_def
        mk_admission_resolution_simps)
qed

lemma sample_live1_ok: "live_state_ok sample_live1"
  using admit_keeps [OF sample_live_ok sample_admitted] by simp

section \<open>Properties\<close>

text \<open>C2: live admission always answers and never corrupts the state. For a valid live state, a valid
  event and any observation, trusted or forged, admission returns a decision; the next state is
  valid and only grows; a replay, conflict or rejection leaves the state exactly as it was; and an
  event is accepted only when it is new, is no correction and carries the next sequence number, and
  then the cursor moves onto it.\<close>

theorem admission_sound:
  assumes "live_state_ok st" "forward_event_ok e"
  shows "\<exists>r. admit_forward_event st e ob = Inr r \<and> live_state_ok (ar_state r) \<and> live_le st (ar_state r)
     \<and> (ar_decision r \<in> {Admit_REPLAY_EXISTING, Admit_CONFLICT, Admit_REJECT} \<longrightarrow> ar_state r = st)
     \<and> (ar_decision r = Admit_ACCEPTED \<longrightarrow>
          ev_correction_of e = None \<and> ev_event_id e \<notin> ck_processed (lv_checkpoint st)
          \<and> ev_sequence e = live_sequence (ck_instance (lv_checkpoint st)) + 1
          \<and> live_sequence (ck_instance (lv_checkpoint (ar_state r))) = ev_sequence e
          \<and> ck_processed (lv_checkpoint (ar_state r)) = insert (ev_event_id e) (ck_processed (lv_checkpoint st)))
     \<and> (ar_decision r \<notin> {Admit_ACCEPTED, Admit_REJECT} \<longrightarrow>
          live_sequence (ck_instance (lv_checkpoint (ar_state r)))
            = live_sequence (ck_instance (lv_checkpoint st))
          \<and> ck_processed (lv_checkpoint (ar_state r)) = ck_processed (lv_checkpoint st))"
proof -
  obtain r where r: "admit_forward_event st e ob = Inr r" using admit_total [OF assms] by blast
  have keeps: "live_state_ok (ar_state r)" "live_le st (ar_state r)" using admit_keeps [OF assms(1) r] by auto
  from r show ?thesis
  proof (cases rule: admit_Inr_cases)
    case unchanged
    with r keeps show ?thesis by auto
  next
    case (admitted c seen)
    have c: "lv_checkpoint (ar_state r) = c" using admitted(3) by (simp add: mk_live_state_Inr)
    show ?thesis
    proof (cases "ob_disposition ob = ACCEPTED")
      case True
      note v = validate_accepted [OF admitted(1) True]
      with apply_accepted [OF admitted(2) True] r keeps admitted(4) True c show ?thesis
        by (auto simp: live_sequence_def)
    next
      case False
      then have "live_sequence (ck_instance c) = live_sequence (ck_instance (lv_checkpoint st))
          \<and> ck_processed c = ck_processed (lv_checkpoint st)"
        using admitted(2)
        by (auto simp: apply_checkpoint_observation_def apply_forward_event_observation_def Let_def
            contract_simps forward_instance_remake_iff live_sequence_def split: if_splits
            dest!: mk_checkpoint_fields)
      with r keeps admitted(4) False c show ?thesis
        by (cases "ob_disposition ob") auto
    qed
  qed
qed

theorem admission_sound_witness:
  "live_state_ok sample_live \<and> forward_event_ok (sample_event ''e0'' 0)
   \<and> admit_forward_event sample_live (sample_event ''e0'' 0) (accept_observation (sample_event ''e0'' 0))
       = Inr \<lparr>ar_decision = Admit_ACCEPTED, ar_state = sample_live1,
              ar_event_fingerprint = forward_event_fingerprint (sample_event ''e0'' 0),
              ar_rejection_reason = None\<rparr>
   \<and> live_state_ok sample_live1 \<and> live_le sample_live sample_live1"
  using admission_sound [OF sample_live_ok sample_e0_ok, of "accept_observation (sample_event ''e0'' 0)"]
    sample_admitted sample_live_ok sample_e0_ok by simp

text \<open>An admitted event id is bound to its content for good. After any further admissions,
  the same event is answered from what is stored, without effect, unless it still waits in the gap
  buffer, and an event that reuses the id with other content is answered with a conflict, without
  effect, whatever observation comes with it.\<close>

theorem admission_binds_content:
  assumes "live_state_ok st" "admit_forward_event st e ob = Inr r"
    and "ar_decision r \<notin> {Admit_CONFLICT, Admit_REJECT}"
    and "now = serve admit_step rs (ar_state r)" and "ev_event_id e' = ev_event_id e"
  shows "(forward_event_fingerprint e' \<noteq> forward_event_fingerprint e \<longrightarrow>
       (\<exists>r'. admit_forward_event now e' ob' = Inr r' \<and> ar_decision r' = Admit_CONFLICT \<and> ar_state r' = now))
     \<and> (forward_event_fingerprint e' = forward_event_fingerprint e
         \<and> ev_event_id e \<notin> ck_buffered (lv_checkpoint now) \<longrightarrow>
       (\<exists>r'. admit_forward_event now e' ob' = Inr r' \<and> ar_decision r' = Admit_REPLAY_EXISTING
          \<and> ar_state r' = now))"
proof -
  have ok: "live_state_ok (ar_state r)" using admit_keeps [OF assms(1,2)] by blast
  then have now: "live_state_ok now" "live_le (ar_state r) now"
    using assms(4) by (simp_all add: admissions.serve_inv admissions.serve_le)
  obtain s where s: "s \<in> set (lv_seen_events (ar_state r))" "se_event_id s = ev_event_id e"
    "se_event_fingerprint s = forward_event_fingerprint e"
    using admit_binds [OF assms(2,3)] by blast
  then have "seen_of now (ev_event_id e') = Some s"
    using now assms(5) seen_of_unique [of now s] by (auto simp: live_state_ok_def live_le_def)
  then show ?thesis using s(3) assms(5) by (simp add: admit_unfold mk_admission_resolution_simps)
qed

theorem admission_binds_content_witness:
  "live_state_ok sample_live
   \<and> (\<exists>r. admit_forward_event sample_live1 (sample_event ''e0'' 0)
           (accept_observation (sample_event ''e0'' 0)) = Inr r
        \<and> ar_decision r = Admit_REPLAY_EXISTING \<and> ar_state r = sample_live1)"
  using admission_binds_content [OF sample_live_ok sample_admitted, of sample_live1 "[]"
      "sample_event ''e0'' 0" "accept_observation (sample_event ''e0'' 0)"] sample_live_ok
  by (simp add: sample_live1_def sample_accepted_def sample_checkpoint_def)

text \<open>Warm-up hands over to live admission. Completing the warm-up of an instance without
  corrections always yields a live state whose cursor is the receipt's, and whatever events and
  observations follow, the live state stays valid, bound to that receipt, and only grows.\<close>

theorem warmup_to_live:
  assumes "forward_instance_ok inst" "warmup_receipt_ok receipt" "warmup_completes inst receipt"
    and "fi_correction_count inst = 0"
  shows "\<exists>st. from_warmup (warmed_up inst receipt) receipt = Inr st \<and> live_state_ok st
     \<and> ck_instance (lv_checkpoint st) = warmed_up inst receipt
     \<and> (\<forall>rs. live_state_ok (serve admit_step rs st) \<and> live_le st (serve admit_step rs st)
          \<and> lv_warmup_receipt_fingerprint (serve admit_step rs st) = warmup_receipt_fingerprint receipt)"
proof -
  have ok: "forward_instance_ok (warmed_up inst receipt)" by (rule warmed_up_ok) (use assms in auto)
  let ?c = "\<lparr>ck_instance = warmed_up inst receipt, ck_processed = set_option (wr_final_event_id receipt),
      ck_buffered = {}, ck_corrections = {}, ck_duplicate_count = 0, ck_out_of_order_count = 0\<rparr>"
  have "checkpoint_ok ?c"
    using ok assms by (auto simp: checkpoint_ok_def warmed_up_def warmup_receipt_ok_def)
  then have c: "mk_checkpoint (warmed_up inst receipt) (set_option (wr_final_event_id receipt)) {} {} 0 0 = Inr ?c"
    using ok by (subst mk_checkpoint_Inr) auto
  have "\<exists>st. from_warmup (warmed_up inst receipt) receipt = Inr st \<and> lv_checkpoint st = ?c
      \<and> lv_warmup_receipt_fingerprint st = warmup_receipt_fingerprint receipt"
    using assms(2,3) c
    by (cases "wr_final_event_id receipt")
      (auto simp: from_warmup_def contract_simps mk_live_state_Inr mk_seen_event_Inr seen_event_ok_def
        warmup_completes_def warmup_receipt_ok_def warmed_up_def)
  then obtain st where st: "from_warmup (warmed_up inst receipt) receipt = Inr st" "lv_checkpoint st = ?c"
    "lv_warmup_receipt_fingerprint st = warmup_receipt_fingerprint receipt" by blast
  have live: "live_state_ok st" using from_warmup_ok [OF ok assms(2) st(1)] .
  have "live_state_ok (serve admit_step rs st) \<and> live_le st (serve admit_step rs st)" for rs
    using live by (simp add: admissions.serve_inv admissions.serve_le)
  with st live show ?thesis by (auto simp: live_le_def)
qed

theorem warmup_to_live_witness:
  "warmup_completes sample_warming sample_receipt
   \<and> (\<exists>st. from_warmup (warmed_up sample_warming sample_receipt) sample_receipt = Inr st \<and> live_state_ok st)"
  using warmup_to_live [OF sample_warming_ok sample_receipt_ok sample_warmup_completes] sample_warmup_completes
  by (auto simp: sample_warming_def sample_instance_def)

text \<open>Classification and admission agree. A fresh event classified against the live cursor, not
  earlier than the cursor's event time and arriving no earlier than the last update, is admitted
  under exactly that classification: it is never rejected.\<close>

theorem observed_event_admitted:
  assumes "live_state_ok st" "forward_event_ok e" "seen_of st (ev_event_id e) = None"
    and "observe_forward_event (live_cursor st t) e (ck_processed (lv_checkpoint st)) w = Inr ob"
    and "fi_last_event_id (ck_instance (lv_checkpoint st)) \<noteq> None \<longrightarrow> t \<le> ev_event_time e"
    and "fi_updated_at (ck_instance (lv_checkpoint st)) \<le> ev_arrived_at e"
  shows "\<exists>r. admit_forward_event st e ob = Inr r \<and> ar_decision r = admission_of (ob_disposition ob)
     \<and> seen_of (ar_state r) (ev_event_id e) = Some (seen_entry e)"
proof -
  obtain r c where r: "admit_forward_event st e ob = Inr r" "ar_decision r = admission_of (ob_disposition ob)"
    "ar_state r = \<lparr>lv_checkpoint = c, lv_warmup_receipt_fingerprint = lv_warmup_receipt_fingerprint st,
      lv_seen_events = sort_key se_event_id (lv_seen_events st @ [seen_entry e])\<rparr>"
    using observed_admission [OF assms] by blast
  then have "seen_entry e \<in> set (lv_seen_events (ar_state r))" by simp
  moreover have "live_state_ok (ar_state r)" using admit_keeps [OF assms(1) r(1)] by blast
  ultimately have "seen_of (ar_state r) (ev_event_id e) = Some (seen_entry e)"
    using seen_of_unique [of "ar_state r" "seen_entry e"] by (simp add: live_state_ok_def seen_entry_def)
  with r show ?thesis by blast
qed

lemma sample_observed:
  "observe_forward_event (live_cursor sample_live 0) (sample_event ''e0'' 0)
     (ck_processed (lv_checkpoint sample_live)) 1 = Inr (accept_observation (sample_event ''e0'' 0))"
  by code_simp

theorem observed_event_admitted_witness:
  "\<exists>r. admit_forward_event sample_live (sample_event ''e0'' 0)
        (accept_observation (sample_event ''e0'' 0)) = Inr r \<and> ar_decision r = Admit_ACCEPTED"
  using observed_event_admitted [OF sample_live_ok sample_e0_ok _ sample_observed]
  by (auto simp: seen_of_def sample_live_def sample_checkpoint_def sample_instance_def sample_event_def
      accept_observation_def)

text \<open>C40: classification and admission disagree on event time. The next event in sequence whose event
  time is earlier than the cursor's is classified as out of order, but admission derives its own
  expectation from the sequence number alone and rejects that classification: the event cannot be
  admitted, and the cursor does not move.\<close>

theorem earlier_time_rejected:
  assumes "live_state_ok st" "forward_event_ok e" "seen_of st (ev_event_id e) = None" "0 \<le> w"
    and "fi_last_event_id (ck_instance (lv_checkpoint st)) \<noteq> None" "ev_event_time e < t"
    and "ev_correction_of e = None" "ev_sequence e = live_sequence (ck_instance (lv_checkpoint st)) + 1"
  shows "\<exists>ob r. observe_forward_event (live_cursor st t) e (ck_processed (lv_checkpoint st)) w = Inr ob
     \<and> ob_disposition ob = OUT_OF_ORDER \<and> admit_forward_event st e ob = Inr r
     \<and> ar_decision r = Admit_REJECT \<and> ar_state r = st"
proof -
  have new: "ev_event_id e \<notin> ck_processed (lv_checkpoint st)"
      "fi_last_event_id (ck_instance (lv_checkpoint st)) \<noteq> Some (ev_event_id e)"
    using assms(1,3) by (auto simp: live_state_ok_def seen_of_None checkpoint_ok_def)
  obtain ob where ob: "observe_forward_event (live_cursor st t) e (ck_processed (lv_checkpoint st)) w = Inr ob"
    "ob_disposition ob = OUT_OF_ORDER"
    using assms new by (auto simp: observe_forward_event_def live_cursor_def Let_def raising.simps mk_observation_def)
  have "validate_observation st e ob
      = Inl (ValueError ''forward event observation disposition does not match live cursor'')"
    using assms new ob(2) by (auto simp: validate_observation_def expected_disposition_def Let_def raising.simps)
  then have "admit_forward_event st e ob = Inr \<lparr>ar_decision = Admit_REJECT, ar_state = st,
      ar_event_fingerprint = forward_event_fingerprint e,
      ar_rejection_reason = Some ''forward event observation disposition does not match live cursor''\<rparr>"
    using assms(3) by (simp add: admit_unfold admission_proceed_def mk_admission_resolution_simps)
  with ob show ?thesis by auto
qed

theorem earlier_time_rejected_witness:
  "\<exists>ob r. observe_forward_event (live_cursor sample_live1 5) (sample_event ''e1'' 1)
        (ck_processed (lv_checkpoint sample_live1)) 1 = Inr ob
     \<and> ob_disposition ob = OUT_OF_ORDER
     \<and> admit_forward_event sample_live1 (sample_event ''e1'' 1) ob = Inr r \<and> ar_decision r = Admit_REJECT"
  using earlier_time_rejected [OF sample_live1_ok, of "sample_event ''e1'' 1" 1 5]
  by (auto simp: py_space_def seen_of_def sample_live1_def seen_entry_def sample_accepted_def
      sample_checkpoint_def sample_instance_def live_sequence_def)
    (auto simp: sample_event_def)

end
