(* ===== verification/Forward_Corrections.thy ===== *)
theory Forward_Corrections
  imports Forward_Admission
begin

text \<open>
  \<open>src/backend/app/strategy_lab_v2/forward_corrections.py\<close>: counterfactual replay commands. A
  correction never rewrites the live decision path; it yields a separately identified replay plan.
\<close>

record correction_command =
  cc_command_id :: string
  cc_instance_id :: string
  cc_correction_event_id :: string
  cc_original_event_id :: string
  cc_base_checkpoint_fingerprint :: string
  cc_requested_at :: instant
  cc_reason :: string

definition mk_correction_command ::
  "string \<Rightarrow> string \<Rightarrow> string \<Rightarrow> string \<Rightarrow> string \<Rightarrow> datetime \<Rightarrow> string \<Rightarrow> correction_command result" where
  "mk_correction_command command_id instance_id correction_id original_id base_fp requested_at reason =
     raising
       (digest_checks command_id ''command_id''
        @ [(blank instance_id, ''instance_id must not be empty''),
           (blank correction_id, ''correction_event_id must not be empty''),
           (blank original_id, ''original_event_id must not be empty'')]
        @ digest_checks base_fp ''base_checkpoint_fingerprint'')
       (with_aware requested_at ''requested_at must be timezone-aware'' (\<lambda>requested.
        raising [(blank reason, ''reason must not be empty'')]
          (Inr \<lparr>cc_command_id = command_id, cc_instance_id = instance_id,
                cc_correction_event_id = correction_id, cc_original_event_id = original_id,
                cc_base_checkpoint_fingerprint = base_fp, cc_requested_at = requested,
                cc_reason = reason\<rparr>)))"

definition correction_command_fingerprint :: "correction_command \<Rightarrow> string" where
  "correction_command_fingerprint c = digest (PMapping
     [(''base_checkpoint_fingerprint'', PStr (cc_base_checkpoint_fingerprint c)),
      (''command_id'', PStr (cc_command_id c)),
      (''correction_event_id'', PStr (cc_correction_event_id c)),
      (''instance_id'', PStr (cc_instance_id c)),
      (''original_event_id'', PStr (cc_original_event_id c)),
      (''reason'', PStr (cc_reason c))])"

record replay_plan =
  rp_replay_id :: string
  rp_instance_id :: string
  rp_correction_event_id :: string
  rp_original_event_id :: string
  rp_base_checkpoint_fingerprint :: string
  rp_warmup_receipt_fingerprint :: string
  rp_planned_at :: instant

definition mk_replay_plan ::
  "string \<Rightarrow> string \<Rightarrow> string \<Rightarrow> string \<Rightarrow> string \<Rightarrow> string \<Rightarrow> datetime \<Rightarrow> replay_plan result" where
  "mk_replay_plan replay_id instance_id correction_id original_id base_fp warmup_fp planned_at =
     raising
       (digest_checks replay_id ''replay_id''
        @ [(blank instance_id, ''instance_id must not be empty''),
           (blank correction_id, ''correction_event_id must not be empty''),
           (blank original_id, ''original_event_id must not be empty'')]
        @ digest_checks base_fp ''base_checkpoint_fingerprint''
        @ digest_checks warmup_fp ''warmup_receipt_fingerprint'')
       (with_aware planned_at ''planned_at must be timezone-aware'' (\<lambda>planned.
          Inr \<lparr>rp_replay_id = replay_id, rp_instance_id = instance_id,
               rp_correction_event_id = correction_id, rp_original_event_id = original_id,
               rp_base_checkpoint_fingerprint = base_fp, rp_warmup_receipt_fingerprint = warmup_fp,
               rp_planned_at = planned\<rparr>))"

datatype correction_decision =
    Correction_ACCEPT | Correction_REPLAY_EXISTING | Correction_CONFLICT | Correction_REJECT

record correction_resolution =
  cr_decision :: correction_decision
  cr_state :: live_state
  cr_plan :: "replay_plan option"
  cr_rejection_reason :: "string option"

definition mk_correction_resolution ::
  "correction_decision \<Rightarrow> live_state \<Rightarrow> replay_plan option \<Rightarrow> string option
     \<Rightarrow> correction_resolution result" where
  "mk_correction_resolution decision state plan reason =
     raising
       [(decision \<in> {Correction_ACCEPT, Correction_REPLAY_EXISTING} \<and> plan = None,
           ''accepted correction resolutions require a replay plan''),
        (decision \<in> {Correction_CONFLICT, Correction_REJECT} \<and> no_reason reason,
           ''conflicts and rejections require a reason''),
        (decision \<notin> {Correction_CONFLICT, Correction_REJECT} \<and> \<not> no_reason reason,
           ''successful correction resolutions cannot contain a reason'')]
       (Inr \<lparr>cr_decision = decision, cr_state = state, cr_plan = plan,
             cr_rejection_reason = reason\<rparr>)"

definition correction_replay_id :: "live_state \<Rightarrow> correction_command \<Rightarrow> string" where
  "correction_replay_id state command = digest (PMapping
     [(''base_checkpoint_fingerprint'', PStr (cc_base_checkpoint_fingerprint command)),
      (''command_fingerprint'', PStr (correction_command_fingerprint command)),
      (''correction_event_id'', PStr (cc_correction_event_id command)),
      (''instance_id'', PStr (cc_instance_id command)),
      (''original_event_id'', PStr (cc_original_event_id command)),
      (''warmup_receipt_fingerprint'', PStr (lv_warmup_receipt_fingerprint state))])"

definition resolve_forward_correction ::
  "live_state \<Rightarrow> correction_command \<Rightarrow> forward_event \<Rightarrow> observation \<Rightarrow> replay_plan option
     \<Rightarrow> correction_resolution result" where
  "resolve_forward_correction state command event obs existing_plan =
     (let replay_id = correction_replay_id state command;
          c = lv_checkpoint state;
          seen = find (\<lambda>s. se_event_id s = ev_event_id event) (lv_seen_events state);
          reject = (\<lambda>r. mk_correction_resolution Correction_REJECT state None (Some r));
          conflict = (\<lambda>r. mk_correction_resolution Correction_CONFLICT state None (Some r))
      in case existing_plan of
           Some plan \<Rightarrow>
             if rp_replay_id plan = replay_id
             then mk_correction_resolution Correction_REPLAY_EXISTING state (Some plan) None
             else conflict ''replay identity is already bound to different content''
         | None \<Rightarrow>
             if cc_instance_id command \<noteq> fi_instance_id (ck_instance c) then
               reject ''correction command instance does not match live state''
             else if ev_event_id event \<noteq> cc_correction_event_id command then
               reject ''correction event does not match command identity''
             else if ev_event_id event \<notin> ck_corrections c \<or> seen = None then
               reject ''correction must be admitted before replay is planned''
             else if se_event_fingerprint (the seen) \<noteq> forward_event_fingerprint event then
               conflict ''correction event id is already bound to different content''
             else if ev_correction_of event \<noteq> Some (cc_original_event_id command) then
               reject ''correction original event does not match command identity''
             else if ob_disposition obs \<noteq> CORRECTION then
               reject ''correction replay requires a correction observation''
             else
               rbind (mk_replay_plan replay_id (cc_instance_id command)
                        (cc_correction_event_id command) (cc_original_event_id command)
                        (cc_base_checkpoint_fingerprint command)
                        (lv_warmup_receipt_fingerprint state) (utc (cc_requested_at command)))
                 (\<lambda>plan. mk_correction_resolution Correction_ACCEPT state (Some plan) None))"

section \<open>Commands and plans\<close>

definition correction_command_ok :: "correction_command \<Rightarrow> bool" where
  "correction_command_ok c \<longleftrightarrow> is_digest (cc_command_id c) \<and> \<not> blank (cc_instance_id c)
     \<and> \<not> blank (cc_correction_event_id c) \<and> \<not> blank (cc_original_event_id c)
     \<and> is_digest (cc_base_checkpoint_fingerprint c) \<and> \<not> blank (cc_reason c)"

definition planned :: "live_state \<Rightarrow> correction_command \<Rightarrow> replay_plan" where
  "planned st c = \<lparr>rp_replay_id = correction_replay_id st c, rp_instance_id = cc_instance_id c,
     rp_correction_event_id = cc_correction_event_id c, rp_original_event_id = cc_original_event_id c,
     rp_base_checkpoint_fingerprint = cc_base_checkpoint_fingerprint c,
     rp_warmup_receipt_fingerprint = lv_warmup_receipt_fingerprint st,
     rp_planned_at = cc_requested_at c\<rparr>"

text \<open>When a correction is planned: it was admitted as a correction of the named event, with the same
  content, and it comes with a correction observation.\<close>

definition correction_admissible ::
  "live_state \<Rightarrow> correction_command \<Rightarrow> forward_event \<Rightarrow> observation \<Rightarrow> bool" where
  "correction_admissible st c e ob \<longleftrightarrow>
     cc_instance_id c = fi_instance_id (ck_instance (lv_checkpoint st))
     \<and> cc_correction_event_id c = ev_event_id e
     \<and> ev_event_id e \<in> ck_corrections (lv_checkpoint st)
     \<and> (\<exists>s. seen_of st (ev_event_id e) = Some s \<and> se_event_fingerprint s = forward_event_fingerprint e)
     \<and> ev_correction_of e = Some (cc_original_event_id c) \<and> ob_disposition ob = CORRECTION"

lemma mk_correction_command_ok: "mk_correction_command i n k g b t r = Inr c \<Longrightarrow> correction_command_ok c"
  by (auto simp: mk_correction_command_def correction_command_ok_def contract_simps)

lemma correction_replay_id_digest [simp]: "is_digest (correction_replay_id st c)"
  by (simp add: correction_replay_id_def is_digest_digest)

lemma mk_replay_plan_planned:
  assumes "live_state_ok st" "correction_command_ok c"
  shows "mk_replay_plan (correction_replay_id st c) (cc_instance_id c) (cc_correction_event_id c)
     (cc_original_event_id c) (cc_base_checkpoint_fingerprint c) (lv_warmup_receipt_fingerprint st)
     (utc (cc_requested_at c)) = Inr (planned st c)"
proof -
  have "is_digest (lv_warmup_receipt_fingerprint st)" using assms(1) by (simp add: live_state_ok_def)
  then show ?thesis
    using assms(2) by (simp add: mk_replay_plan_def contract_simps planned_def correction_command_ok_def)
qed

lemma mk_correction_resolution_simps:
  "m \<noteq> [] \<Longrightarrow> d \<in> {Correction_CONFLICT, Correction_REJECT} \<Longrightarrow> mk_correction_resolution d st None (Some m)
     = Inr \<lparr>cr_decision = d, cr_state = st, cr_plan = None, cr_rejection_reason = Some m\<rparr>"
  "d \<in> {Correction_ACCEPT, Correction_REPLAY_EXISTING} \<Longrightarrow> mk_correction_resolution d st (Some p) None
     = Inr \<lparr>cr_decision = d, cr_state = st, cr_plan = Some p, cr_rejection_reason = None\<rparr>"
  by (auto simp: mk_correction_resolution_def raising.simps no_reason_def)

text \<open>What resolving a correction answers: with a stored plan, for an admissible correction, and otherwise.\<close>

lemma correction_with_plan:
  "resolve_forward_correction st c e ob (Some plan) =
     Inr (if rp_replay_id plan = correction_replay_id st c
          then \<lparr>cr_decision = Correction_REPLAY_EXISTING, cr_state = st, cr_plan = Some plan, cr_rejection_reason = None\<rparr>
          else \<lparr>cr_decision = Correction_CONFLICT, cr_state = st, cr_plan = None,
                cr_rejection_reason = Some ''replay identity is already bound to different content''\<rparr>)"
  by (simp add: resolve_forward_correction_def mk_correction_resolution_simps)

lemma correction_plans:
  assumes "live_state_ok st" "correction_command_ok c" "correction_admissible st c e ob"
  shows "resolve_forward_correction st c e ob None = Inr \<lparr>cr_decision = Correction_ACCEPT, cr_state = st,
     cr_plan = Some (planned st c), cr_rejection_reason = None\<rparr>"
  using mk_replay_plan_planned [OF assms(1,2)] assms(3)
  by (auto simp: resolve_forward_correction_def correction_admissible_def Let_def seen_of_def
      mk_correction_resolution_simps)

lemma correction_declines:
  assumes "\<not> correction_admissible st c e ob"
  shows "\<exists>d m. d \<in> {Correction_CONFLICT, Correction_REJECT} \<and> m \<noteq> [] \<and> resolve_forward_correction st c e ob None
     = Inr \<lparr>cr_decision = d, cr_state = st, cr_plan = None, cr_rejection_reason = Some m\<rparr>"
  using assms
  by (auto simp: resolve_forward_correction_def correction_admissible_def Let_def seen_of_def
      mk_correction_resolution_simps)

section \<open>Properties\<close>

text \<open>A correction never touches the live path. Resolving any correction of a valid live state
  always answers and returns the live state unchanged; a first plan is made exactly when the
  correction was admitted with the same content and names the same original event; the plan carries
  the identity derived from the command and the warm-up; and once stored, the same command is
  answered with the stored plan and any plan of another identity is a conflict.\<close>

theorem correction_isolated:
  assumes "live_state_ok st" "correction_command_ok c"
  shows "\<exists>res. resolve_forward_correction st c e ob existing = Inr res \<and> cr_state res = st
     \<and> (cr_decision res = Correction_ACCEPT \<longleftrightarrow> existing = None \<and> correction_admissible st c e ob)
     \<and> (cr_decision res = Correction_ACCEPT \<longrightarrow> cr_plan res = Some (planned st c))
     \<and> (\<forall>plan. existing = Some plan \<longrightarrow>
          (if rp_replay_id plan = correction_replay_id st c
           then cr_decision res = Correction_REPLAY_EXISTING \<and> cr_plan res = Some plan
           else cr_decision res = Correction_CONFLICT \<and> cr_plan res = None))"
proof (cases existing)
  case (Some plan)
  then show ?thesis by (simp add: correction_with_plan)
next
  case None
  show ?thesis
  proof (cases "correction_admissible st c e ob")
    case True
    with None correction_plans [OF assms] show ?thesis by simp
  next
    case False
    with None correction_declines [OF False] show ?thesis by auto
  qed
qed

definition sample_command :: correction_command where
  "sample_command = \<lparr>cc_command_id = sample_digest, cc_instance_id = ''i-1'',
     cc_correction_event_id = ''k0'', cc_original_event_id = ''e0'',
     cc_base_checkpoint_fingerprint = sample_digest, cc_requested_at = 9, cc_reason = ''fix''\<rparr>"

lemma sample_command_ok: "correction_command_ok sample_command"
  by (simp add: correction_command_ok_def sample_command_def py_space_def)

theorem correction_isolated_witness:
  "live_state_ok sample_live1 \<and> correction_command_ok sample_command
   \<and> (\<exists>res. resolve_forward_correction sample_live1 sample_command (sample_event ''k0'' 1)
          (accept_observation (sample_event ''k0'' 1)) (Some (planned sample_live1 sample_command)) = Inr res
        \<and> cr_state res = sample_live1 \<and> cr_decision res = Correction_REPLAY_EXISTING)"
  using correction_isolated [OF sample_live1_ok sample_command_ok, of "sample_event ''k0'' 1"
      "accept_observation (sample_event ''k0'' 1)" "Some (planned sample_live1 sample_command)"]
    sample_live1_ok sample_command_ok
  by (auto simp: planned_def)

end
