(* ===== verification/Forward_Event_Transaction.thy ===== *)
theory Forward_Event_Transaction
  imports Forward_Corrections
begin

text \<open>
  \<open>src/backend/app/strategy_lab_v2/forward_event_transaction.py\<close>: one live event and, for a
  correction, its counterfactual replay plan, resolved as a single transition over the live state.
  Composes admission (Forward_Admission) with corrections (Forward_Corrections).
\<close>

datatype event_transaction_decision =
    Event_ACCEPTED | Event_REPLAY_EXISTING | Event_GAP | Event_DUPLICATE | Event_OUT_OF_ORDER
  | Event_CORRECTION_ACCEPTED | Event_CORRECTION_REPLAY | Event_CONFLICT | Event_REJECT

record event_transaction =
  et_decision :: event_transaction_decision
  et_state :: live_state
  et_event_fingerprint :: string
  et_replay_plan :: "replay_plan option"
  et_rejection_reason :: "string option"

definition mk_event_transaction ::
  "event_transaction_decision \<Rightarrow> live_state \<Rightarrow> string \<Rightarrow> replay_plan option \<Rightarrow> string option
     \<Rightarrow> event_transaction result" where
  "mk_event_transaction decision state fp plan reason =
     raising
       (digest_checks fp ''event_fingerprint''
        @ [(decision \<in> {Event_CORRECTION_ACCEPTED, Event_CORRECTION_REPLAY} \<and> plan = None,
              ''correction decisions require a replay plan''),
           (decision \<in> {Event_CONFLICT, Event_REJECT} \<and> no_reason reason,
              ''conflicts and rejections require a reason''),
           (decision \<notin> {Event_CONFLICT, Event_REJECT} \<and> \<not> no_reason reason,
              ''successful event decisions cannot contain a reason'')])
       (Inr \<lparr>et_decision = decision, et_state = state, et_event_fingerprint = fp,
             et_replay_plan = plan, et_rejection_reason = reason\<rparr>)"

definition reject_event ::
  "live_state \<Rightarrow> string \<Rightarrow> string \<Rightarrow> event_transaction_decision \<Rightarrow> event_transaction result" where
  "reject_event state fp reason decision = mk_event_transaction decision state fp None (Some reason)"

text \<open>The dictionary of decisions of ordinary events.\<close>

definition event_decisions :: "(admission_decision \<times> event_transaction_decision) list" where
  "event_decisions =
     [(Admit_ACCEPTED, Event_ACCEPTED), (Admit_REPLAY_EXISTING, Event_REPLAY_EXISTING),
      (Admit_GAP, Event_GAP), (Admit_DUPLICATE, Event_DUPLICATE), (Admit_OUT_OF_ORDER, Event_OUT_OF_ORDER)]"

definition resolve_forward_event_transaction ::
  "live_state \<Rightarrow> forward_event \<Rightarrow> observation \<Rightarrow> correction_command option \<Rightarrow> replay_plan option
     \<Rightarrow> event_transaction result" where
  "resolve_forward_event_transaction state event obs command existing_plan =
     (let fp = forward_event_fingerprint event;
          is_correction = (ob_disposition obs = CORRECTION)
      in if is_correction \<and> command = None then
           reject_event state fp ''correction events require a counterfactual replay command'' Event_REJECT
         else if \<not> is_correction \<and> (command \<noteq> None \<or> existing_plan \<noteq> None) then
           reject_event state fp ''replay evidence is only valid for correction events'' Event_REJECT
         else
           rbind (admit_forward_event state event obs) (\<lambda>admission.
             if ar_decision admission = Admit_CONFLICT then
               reject_event state fp
                 (reason_or (ar_rejection_reason admission) ''forward event admission conflicts'') Event_CONFLICT
             else if ar_decision admission = Admit_REJECT then
               reject_event state fp
                 (reason_or (ar_rejection_reason admission) ''forward event admission rejected'') Event_REJECT
             else if is_correction then
               (case command of
                  None \<Rightarrow> Inl AssertionError
                | Some c \<Rightarrow>
                    rbind (resolve_forward_correction (ar_state admission) c event obs existing_plan) (\<lambda>correction.
                      if cr_decision correction = Correction_CONFLICT then
                        reject_event state fp
                          (reason_or (cr_rejection_reason correction) ''forward correction conflicts'') Event_CONFLICT
                      else if cr_decision correction = Correction_REJECT then
                        reject_event state fp
                          (reason_or (cr_rejection_reason correction) ''forward correction rejected'') Event_REJECT
                      else
                        (case cr_plan correction of
                           None \<Rightarrow> Inl AssertionError
                         | Some plan \<Rightarrow>
                             mk_event_transaction
                               (if cr_decision correction = Correction_REPLAY_EXISTING
                                then Event_CORRECTION_REPLAY else Event_CORRECTION_ACCEPTED)
                               (ar_state admission) fp (Some plan) None)))
             else
               (case map_of event_decisions (ar_decision admission) of
                  None \<Rightarrow> Inl KeyError
                | Some decision \<Rightarrow> mk_event_transaction decision (ar_state admission) fp None None)))"

section \<open>How a transaction answers\<close>

lemma mk_event_transaction_simps:
  "is_digest fp \<Longrightarrow> d \<notin> {Event_CONFLICT, Event_REJECT} \<Longrightarrow>
     d \<in> {Event_CORRECTION_ACCEPTED, Event_CORRECTION_REPLAY} \<longrightarrow> p \<noteq> None \<Longrightarrow>
     mk_event_transaction d st fp p None = Inr \<lparr>et_decision = d, et_state = st, et_event_fingerprint = fp,
       et_replay_plan = p, et_rejection_reason = None\<rparr>"
  "is_digest fp \<Longrightarrow> d \<in> {Event_CONFLICT, Event_REJECT} \<Longrightarrow> m \<noteq> [] \<Longrightarrow>
     reject_event st fp m d = Inr \<lparr>et_decision = d, et_state = st, et_event_fingerprint = fp,
       et_replay_plan = None, et_rejection_reason = Some m\<rparr>"
  by (auto simp: mk_event_transaction_def reject_event_def raising_Inr_iff digests_clean no_reason_def)

text \<open>What the state, decision and plan of an answer may be. Each branch of the transaction is one of
  three kinds: nothing happened, an ordinary event was admitted, or a correction was admitted with its plan.\<close>

definition txn_declined :: "live_state \<Rightarrow> event_transaction \<Rightarrow> bool" where
  "txn_declined st r \<longleftrightarrow> et_decision r \<in> {Event_CONFLICT, Event_REJECT} \<and> et_state r = st \<and> et_replay_plan r = None"

definition txn_ordinary :: "live_state \<Rightarrow> forward_event \<Rightarrow> observation \<Rightarrow> event_transaction \<Rightarrow> bool" where
  "txn_ordinary st e ob r \<longleftrightarrow> (\<exists>a. admit_forward_event st e ob = Inr a \<and> et_state r = ar_state a
     \<and> map_of event_decisions (ar_decision a) = Some (et_decision r))
     \<and> ob_disposition ob \<noteq> CORRECTION \<and> et_replay_plan r = None"

definition txn_corrected ::
  "live_state \<Rightarrow> forward_event \<Rightarrow> observation \<Rightarrow> correction_command option \<Rightarrow> replay_plan option \<Rightarrow> event_transaction \<Rightarrow> bool" where
  "txn_corrected st e ob command existing r \<longleftrightarrow> (\<exists>a c plan. admit_forward_event st e ob = Inr a \<and> et_state r = ar_state a
     \<and> ar_decision a \<in> {Admit_CORRECTION, Admit_REPLAY_EXISTING}
     \<and> command = Some c \<and> et_replay_plan r = Some plan \<and> rp_replay_id plan = correction_replay_id st c
     \<and> (et_decision r = Event_CORRECTION_REPLAY \<and> existing = Some plan
        \<or> et_decision r = Event_CORRECTION_ACCEPTED \<and> existing = None \<and> plan = planned st c
          \<and> correction_admissible (ar_state a) c e ob))
     \<and> ob_disposition ob = CORRECTION"

lemma same_warmup_same_identity:
  "live_le s t \<Longrightarrow> correction_replay_id t c = correction_replay_id s c \<and> planned t c = planned s c"
  by (simp add: correction_replay_id_def planned_def live_le_def)

lemma correction_transaction:
  assumes ok: "live_state_ok st" "correction_command_ok c" "ob_disposition ob = CORRECTION"
    and a: "admit_forward_event st e ob = Inr a" "ar_decision a \<notin> {Admit_CONFLICT, Admit_REJECT}"
  shows "\<exists>r. resolve_forward_event_transaction st e ob (Some c) existing = Inr r
    \<and> (txn_declined st r \<or> txn_corrected st e ob (Some c) existing r)"
proof -
  have st: "live_state_ok (ar_state a)" "live_le st (ar_state a)" using admit_keeps [OF ok(1) a(1)] by auto
  note same = same_warmup_same_identity [OF st(2), of c]
  have d: "ar_decision a \<in> {Admit_CORRECTION, Admit_REPLAY_EXISTING}"
    using a(1) by (cases rule: admit_Inr_cases) (use a(2) ok(3) in auto)
  show ?thesis
  proof (cases existing)
    case (Some plan)
    then show ?thesis
      using a ok(3) d same
      by (auto simp: resolve_forward_event_transaction_def correction_with_plan mk_event_transaction_simps
          reason_or_nonempty txn_declined_def txn_corrected_def)
  next
    case None
    show ?thesis
    proof (cases "correction_admissible (ar_state a) c e ob")
      case True
      from correction_plans [OF st(1) ok(2) True] None True show ?thesis
        using a ok(3) d same
        by (auto simp: resolve_forward_event_transaction_def mk_event_transaction_simps txn_corrected_def planned_def)
    next
      case False
      from correction_declines [OF False] None show ?thesis
        using a ok(3)
        by (auto simp: resolve_forward_event_transaction_def mk_event_transaction_simps reason_or_nonempty txn_declined_def)
    qed
  qed
qed

lemma transaction_cases:
  assumes "live_state_ok st" "forward_event_ok e" "\<forall>c. command = Some c \<longrightarrow> correction_command_ok c"
  shows "\<exists>r. resolve_forward_event_transaction st e ob command existing = Inr r
    \<and> (txn_declined st r \<or> txn_ordinary st e ob r \<or> txn_corrected st e ob command existing r)"
proof -
  obtain a where a: "admit_forward_event st e ob = Inr a" using admit_total [OF assms(1,2)] by blast
  consider (declined) "ar_decision a \<in> {Admit_CONFLICT, Admit_REJECT} \<or> (ob_disposition ob = CORRECTION \<and> command = None)
      \<or> (ob_disposition ob \<noteq> CORRECTION \<and> (command \<noteq> None \<or> existing \<noteq> None))"
    | (correction) c where "command = Some c" "ob_disposition ob = CORRECTION" "ar_decision a \<notin> {Admit_CONFLICT, Admit_REJECT}"
    | (ordinary) "ob_disposition ob \<noteq> CORRECTION" "command = None" "existing = None"
        "ar_decision a \<notin> {Admit_CONFLICT, Admit_REJECT}"
    by (cases command; blast)
  then show ?thesis
  proof cases
    case declined
    with a show ?thesis
      by (auto simp: resolve_forward_event_transaction_def Let_def mk_event_transaction_simps reason_or_nonempty txn_declined_def)
  next
    case correction
    with correction_transaction [OF assms(1) _ correction(2) a correction(3), of c existing] assms(3) show ?thesis by blast
  next
    case ordinary
    from a have "ar_decision a \<in> {Admit_REPLAY_EXISTING, Admit_ACCEPTED, Admit_GAP, Admit_DUPLICATE, Admit_OUT_OF_ORDER}"
    proof (cases rule: admit_Inr_cases)
      case admitted
      with ordinary(1) show ?thesis by (cases "ob_disposition ob") auto
    qed (use ordinary(4) in auto)
    then have "\<exists>d. map_of event_decisions (ar_decision a) = Some d
        \<and> d \<notin> {Event_CONFLICT, Event_REJECT, Event_CORRECTION_ACCEPTED, Event_CORRECTION_REPLAY}"
      by (auto simp: event_decisions_def)
    with a ordinary show ?thesis
      by (auto simp: resolve_forward_event_transaction_def mk_event_transaction_simps txn_ordinary_def)
  qed
qed

lemma only_corrections_correct:
  assumes "admit_forward_event st e ob = Inr a" "ob_disposition ob \<noteq> CORRECTION"
  shows "ck_corrections (lv_checkpoint (ar_state a)) = ck_corrections (lv_checkpoint st)"
  using assms(1)
proof (cases rule: admit_Inr_cases)
  case (admitted c seen)
  then have "lv_checkpoint (ar_state a) = c" by (simp add: mk_live_state_Inr)
  with admitted(2) assms(2) show ?thesis
    by (auto simp: apply_checkpoint_observation_def Let_def split: if_splits dest!: mk_checkpoint_fields)
qed simp

section \<open>Serving transactions\<close>

type_synonym event_request = "forward_event \<times> observation \<times> correction_command option \<times> replay_plan option"

fun event_step :: "event_request \<Rightarrow> live_state \<Rightarrow> live_state result" where
  "event_step (event, obs, command, existing) st =
     rbind (resolve_forward_event_transaction st event obs command existing) (\<lambda>r. Inr (et_state r))"

lemma transaction_state:
  assumes "resolve_forward_event_transaction st e ob command existing = Inr r"
  shows "et_state r = st \<or> (\<exists>a. admit_forward_event st e ob = Inr a \<and> et_state r = ar_state a)"
  using assms
  by (auto simp: resolve_forward_event_transaction_def reject_event_def mk_event_transaction_def Let_def
      contract_simps raising_Inr_iff split: if_splits option.splits)

lemma transaction_keeps:
  assumes "live_state_ok st" "resolve_forward_event_transaction st e ob command existing = Inr r"
  shows "live_state_ok (et_state r) \<and> live_le st (et_state r)"
  using transaction_state [OF assms(2)] assms(1) admit_keeps [OF assms(1)] by (auto simp: admissions.le_refl)

interpretation transactions: guarded_machine event_step live_state_ok live_le
proof
  fix s r s'
  assume "live_state_ok s" "event_step r s = Inr s'"
  then show "live_state_ok s'" "live_le s s'" by (cases r; auto dest: transaction_keeps)+
qed (fact admissions.le_refl, fact admissions.le_trans)

section \<open>Properties\<close>

text \<open>C9: a live event and its correction plan are resolved all or nothing. For a valid live state, event
  and command the transaction always answers, never failing an assertion or a dictionary lookup; a
  conflict or rejection leaves the live state as it was and carries no plan, even when admission alone
  had accepted the correction; the corrections of the live state change only together with a replay
  plan whose identity is derived from the command; a first plan is made only for the admitted
  correction the command names; and whatever transactions follow, the live state stays valid and only grows.\<close>

theorem event_transaction_atomic:
  assumes "live_state_ok st" "forward_event_ok e" "\<forall>c. command = Some c \<longrightarrow> correction_command_ok c"
  shows "\<exists>r. resolve_forward_event_transaction st e ob command existing = Inr r
     \<and> (et_decision r \<in> {Event_CONFLICT, Event_REJECT} \<longrightarrow> et_state r = st \<and> et_replay_plan r = None)
     \<and> (ck_corrections (lv_checkpoint (et_state r)) \<noteq> ck_corrections (lv_checkpoint st) \<longrightarrow>
          (\<exists>c plan. command = Some c \<and> et_replay_plan r = Some plan
             \<and> rp_replay_id plan = correction_replay_id st c))
     \<and> (et_decision r = Event_CORRECTION_ACCEPTED \<longrightarrow>
          (\<exists>c. command = Some c \<and> et_replay_plan r = Some (planned st c)
             \<and> cc_correction_event_id c = ev_event_id e
             \<and> ev_correction_of e = Some (cc_original_event_id c)
             \<and> ev_event_id e \<in> ck_corrections (lv_checkpoint (et_state r))))
     \<and> (\<forall>rs. live_state_ok (serve event_step rs (et_state r)) \<and> live_le st (serve event_step rs (et_state r)))"
proof -
  obtain r where r: "resolve_forward_event_transaction st e ob command existing = Inr r"
    and kind: "txn_declined st r \<or> txn_ordinary st e ob r \<or> txn_corrected st e ob command existing r"
    using transaction_cases [OF assms] by blast
  have keeps: "live_state_ok (et_state r)" "live_le st (et_state r)" using transaction_keeps [OF assms(1) r] by auto
  then have later: "\<forall>rs. live_state_ok (serve event_step rs (et_state r)) \<and> live_le st (serve event_step rs (et_state r))"
    using transactions.serve_inv transactions.serve_le transactions.le_trans by blast
  from kind show ?thesis
  proof (elim disjE)
    assume "txn_declined st r"
    with r later show ?thesis by (auto simp: txn_declined_def)
  next
    assume o: "txn_ordinary st e ob r"
    then have "ck_corrections (lv_checkpoint (et_state r)) = ck_corrections (lv_checkpoint st)"
      by (auto simp: txn_ordinary_def only_corrections_correct)
    moreover have "et_decision r \<notin> {Event_CONFLICT, Event_REJECT, Event_CORRECTION_ACCEPTED}"
      using o by (auto simp: txn_ordinary_def event_decisions_def split: if_splits)
    ultimately show ?thesis using r later by auto
  next
    assume "txn_corrected st e ob command existing r"
    with r later show ?thesis by (auto simp: txn_corrected_def correction_admissible_def)
  qed
qed

definition sample_correction :: forward_event where
  "sample_correction = (sample_event ''k0'' 1)\<lparr>ev_correction_of := Some ''e0''\<rparr>"

definition sample_correction_seen :: observation where
  "sample_correction_seen = \<lparr>ob_disposition = CORRECTION, ob_stale = False, ob_missing_start = None,
     ob_missing_end = None, ob_requires_replay = True, ob_next_cursor = live_cursor sample_live1 0,
     ob_buffer_event = False\<rparr>"

lemma sample_correction_ok: "forward_event_ok sample_correction"
  by (simp add: forward_event_ok_def sample_correction_def sample_event_def py_space_def)

lemma sample_correction_observed:
  "observe_forward_event (live_cursor sample_live1 0) sample_correction (ck_processed (lv_checkpoint sample_live1)) 1
     = Inr sample_correction_seen"
  by (simp add: observe_forward_event_def sample_correction_def sample_event_def sample_correction_seen_def
      mk_observation_def raising.simps)

lemma sample_correction_fresh: "seen_of sample_live1 (ev_event_id sample_correction) = None"
  by (simp add: seen_of_def sample_live1_def seen_entry_def sample_correction_def sample_event_def)

lemma sample_correction_times:
  "fi_updated_at (ck_instance (lv_checkpoint sample_live1)) \<le> ev_arrived_at sample_correction"
  "0 \<le> ev_event_time sample_correction"
  by (simp_all add: sample_live1_def sample_accepted_def sample_checkpoint_def sample_instance_def
      sample_correction_def sample_event_def)

theorem event_transaction_atomic_witness:
  "live_state_ok sample_live1 \<and> forward_event_ok sample_correction \<and> correction_command_ok sample_command
   \<and> (\<exists>r. resolve_forward_event_transaction sample_live1 sample_correction sample_correction_seen
            (Some sample_command) None = Inr r
        \<and> (et_decision r \<in> {Event_CONFLICT, Event_REJECT} \<longrightarrow> et_state r = sample_live1)
        \<and> live_state_ok (serve event_step [(sample_correction, sample_correction_seen, None, None)] (et_state r)))"
  using event_transaction_atomic [OF sample_live1_ok sample_correction_ok, of "Some sample_command"
      sample_correction_seen None] sample_live1_ok sample_correction_ok sample_command_ok
  by fastforce

text \<open>C36: a stored plan of one correction lets another correction in. The identity checks of a
  correction are skipped as soon as the caller presents a stored plan that matches the command, so a
  fresh correction event that the command does not name is admitted to the live state and answered
  with the plan of the other correction: it has no replay identity of its own.\<close>

theorem stored_plan_admits_other_correction:
  assumes "live_state_ok st" "forward_event_ok e" "seen_of st (ev_event_id e) = None"
    and "observe_forward_event (live_cursor st t) e (ck_processed (lv_checkpoint st)) w = Inr ob"
    and "fi_last_event_id (ck_instance (lv_checkpoint st)) \<noteq> None \<longrightarrow> t \<le> ev_event_time e"
    and "fi_updated_at (ck_instance (lv_checkpoint st)) \<le> ev_arrived_at e"
    and "ev_correction_of e \<noteq> None" "cc_correction_event_id c \<noteq> ev_event_id e"
  shows "\<exists>r. resolve_forward_event_transaction st e ob (Some c) (Some (planned st c)) = Inr r
     \<and> et_decision r = Event_CORRECTION_REPLAY
     \<and> ev_event_id e \<in> ck_corrections (lv_checkpoint (et_state r)) - ck_corrections (lv_checkpoint st)
     \<and> map_option rp_correction_event_id (et_replay_plan r) \<noteq> Some (ev_event_id e)"
proof -
  have ob: "ob_disposition ob = CORRECTION"
    using observed_disposition [OF assms(4,5)] assms(7) by (simp add: expected_disposition_def)
  obtain a d where a: "admit_forward_event st e ob = Inr a" "ar_decision a = admission_of (ob_disposition ob)"
    "apply_checkpoint_observation (lv_checkpoint st) e ob = Inr d" "lv_checkpoint (ar_state a) = d"
    using observed_admission [OF assms(1-6)] by force
  have "ev_event_id e \<notin> ck_corrections (lv_checkpoint st)"
    using assms(1,3) by (auto simp: live_state_ok_def seen_of_None)
  moreover from this have "ev_event_id e \<in> ck_corrections d"
    using a(3) ob by (auto simp: apply_checkpoint_observation_def Let_def dest!: mk_checkpoint_fields)
  moreover have "live_le st (ar_state a)" using admit_keeps [OF assms(1) a(1)] by blast
  then have "correction_replay_id (ar_state a) c = rp_replay_id (planned st c)"
    by (simp add: same_warmup_same_identity planned_def)
  ultimately show ?thesis
    using a(1,2,4) ob assms(8)
    by (simp add: resolve_forward_event_transaction_def correction_with_plan mk_event_transaction_simps planned_def)
qed

theorem stored_plan_admits_other_correction_witness:
  "cc_correction_event_id (sample_command\<lparr>cc_correction_event_id := ''k9''\<rparr>) \<noteq> ev_event_id sample_correction
   \<and> (\<exists>r. resolve_forward_event_transaction sample_live1 sample_correction sample_correction_seen
        (Some (sample_command\<lparr>cc_correction_event_id := ''k9''\<rparr>))
        (Some (planned sample_live1 (sample_command\<lparr>cc_correction_event_id := ''k9''\<rparr>))) = Inr r
      \<and> et_decision r = Event_CORRECTION_REPLAY)"
proof -
  have "cc_correction_event_id (sample_command\<lparr>cc_correction_event_id := ''k9''\<rparr>) \<noteq> ev_event_id sample_correction"
    "ev_correction_of sample_correction \<noteq> None"
    by (simp_all add: sample_correction_def sample_event_def)
  with stored_plan_admits_other_correction [OF sample_live1_ok sample_correction_ok sample_correction_fresh
      sample_correction_observed _ sample_correction_times(1), of "sample_command\<lparr>cc_correction_event_id := ''k9''\<rparr>"]
    sample_correction_times(2)
  show ?thesis by blast
qed

end
