(* ===== verification/Idempotency.thy ===== *)
theory Idempotency
  imports Prelude "HOL-Library.Sublist"
begin

text \<open>
  The contract of resolving a request against the records already stored under its idempotency
  key, shared by dispatch and submission. A provider answers \<open>Fresh\<close> when no record has the key,
  \<open>Replay\<close> of the first record when its content is the request's, \<open>Conflict\<close> with it otherwise,
  and raises when the stored records of one key disagree; \<open>shown\<close> is what an answer shows of a record. A client that stores a record exactly
  when the answer is \<open>Fresh\<close> then keeps one record per key, and the first one wins for good.
\<close>

datatype 'a keyed_answer = Fresh | Replay 'a | Conflict 'a

definition register ::
  "('q \<Rightarrow> 'p list \<Rightarrow> 'a keyed_answer result) \<Rightarrow> ('p \<Rightarrow> 'q) \<Rightarrow> 'p \<Rightarrow> 'p list \<Rightarrow> 'p list result" where
  "register resolve request p ps =
     rbind (resolve (request p) ps) (\<lambda>a. Inr (if a = Fresh then ps @ [p] else ps))"

definition one_per_key :: "('p \<Rightarrow> 'q) \<Rightarrow> ('q \<Rightarrow> 'k) \<Rightarrow> 'p list \<Rightarrow> bool" where
  "one_per_key request key ps \<longleftrightarrow> distinct (map (\<lambda>p. key (request p)) ps)"

locale keyed_resolution =
  fixes resolve :: "'q \<Rightarrow> 'p list \<Rightarrow> 'a keyed_answer result"
    and request :: "'p \<Rightarrow> 'q"
    and key :: "'q \<Rightarrow> 'k"
    and content :: "'q \<Rightarrow> 'c"
    and shown :: "'p \<Rightarrow> 'a"
  assumes resolve_fresh: "\<forall>p \<in> set ps. key (request p) \<noteq> key q \<Longrightarrow> resolve q ps = Inr Fresh"
    and resolve_known:
      "filter (\<lambda>p. key (request p) = key q) ps = p # rest \<Longrightarrow>
       \<forall>x \<in> set rest. content (request x) = content (request p) \<Longrightarrow>
       resolve q ps = Inr (if content (request p) = content q then Replay (shown p) else Conflict (shown p))"
    and resolve_corrupt:
      "filter (\<lambda>p. key (request p) = key q) ps = p # rest \<Longrightarrow>
       \<exists>x \<in> set rest. content (request x) \<noteq> content (request p) \<Longrightarrow> \<exists>e. resolve q ps = Inl e"
begin

lemma filter_key:
  assumes "one_per_key request key ps" "p \<in> set ps"
  shows "filter (\<lambda>x. key (request x) = key (request p)) ps = [p]"
  using assms
proof (induction ps)
  case (Cons a ps)
  then show ?case
    by (cases "a = p") (auto simp: one_per_key_def filter_empty_conv intro: rev_image_eqI)
qed simp

lemma resolve_stored:
  "one_per_key request key ps \<Longrightarrow> p \<in> set ps \<Longrightarrow> key q = key (request p) \<Longrightarrow>
     resolve q ps = Inr (if content (request p) = content q then Replay (shown p) else Conflict (shown p))"
  using resolve_known [of q ps p "[]"] filter_key [of ps p] by simp

lemma resolve_one_per_key:
  assumes "one_per_key request key ps"
  obtains "\<forall>p \<in> set ps. key (request p) \<noteq> key q" "resolve q ps = Inr Fresh"
  | p where "p \<in> set ps" "key (request p) = key q"
      "resolve q ps = Inr (if content (request p) = content q then Replay (shown p) else Conflict (shown p))"
  using resolve_fresh [of ps q] resolve_stored [OF assms, of _ q] by metis

lemma register_one_per_key:
  assumes "one_per_key request key ps" "register resolve request p ps = Inr qs"
  shows "one_per_key request key qs \<and> prefix ps qs"
  using assms(1)
proof (cases rule: resolve_one_per_key [where q = "request p"])
  case 1
  with assms show ?thesis by (fastforce simp: register_def one_per_key_def)
next
  case (2 x)
  with assms show ?thesis by (auto simp: register_def split: if_splits)
qed

end

sublocale keyed_resolution \<subseteq> registry: guarded_machine "register resolve request" "one_per_key request key" prefix
  by unfold_locales (auto dest: register_one_per_key intro: prefix_order.trans)

context keyed_resolution
begin

lemma first_wins:
  assumes "one_per_key request key ps" "resolve (request p) ps = Inr Fresh"
    and "later = serve (register resolve request) rs (ps @ [p])" and "key q = key (request p)"
  shows "resolve q later = Inr (if content q = content (request p) then Replay (shown p) else Conflict (shown p))"
proof -
  have "register resolve request p ps = Inr (ps @ [p])" using assms(2) by (simp add: register_def)
  then have ok: "one_per_key request key (ps @ [p])" using register_one_per_key [OF assms(1)] by blast
  then have "one_per_key request key later" "prefix (ps @ [p]) later"
    unfolding assms(3) by (simp_all add: registry.serve_inv registry.serve_le)
  moreover from this(2) have "p \<in> set later" by (auto simp: prefix_def)
  ultimately show ?thesis using resolve_stored [of later p q] assms(4) by auto
qed

end

end
