(* ===== verification/Dispatch.thy ===== *)
theory Dispatch
  imports Contracts Idempotency
begin

text \<open>
  \<open>src/backend/app/strategy_lab_v2/dispatch.py\<close>: dispatch requests, their content-addressed
  envelopes and the resolution of an idempotency key against prior requests.
\<close>

datatype dispatch_decision = Dispatch_ENQUEUE | Dispatch_REPLAY_EXISTING | Dispatch_IDEMPOTENCY_CONFLICT

record dispatch_intent =
  di_idempotency_key :: string
  di_attempt_id :: string
  di_queue_name :: string
  di_created_at :: instant

definition mk_dispatch_intent :: "string \<Rightarrow> string \<Rightarrow> string \<Rightarrow> datetime \<Rightarrow> dispatch_intent result" where
  "mk_dispatch_intent idempotency_key attempt_id queue_name created_at =
     raising
       [(blank idempotency_key, ''dispatch intent idempotency_key must not be empty''),
        (blank attempt_id, ''dispatch intent attempt_id must not be empty''),
        (blank queue_name, ''dispatch intent queue_name must not be empty''),
        (length idempotency_key > 256, ''dispatch intent idempotency_key must not exceed 256 characters'')]
       (with_aware created_at ''dispatch intent created_at must be timezone-aware'' (\<lambda>created.
          Inr \<lparr>di_idempotency_key = idempotency_key, di_attempt_id = attempt_id,
               di_queue_name = queue_name, di_created_at = created\<rparr>))"

record dispatch_request =
  dq_idempotency_key :: string
  dq_attempt_id :: string
  dq_payload_digest :: string
  dq_queue_name :: string
  dq_created_at :: instant

definition mk_dispatch_request ::
  "string \<Rightarrow> string \<Rightarrow> string \<Rightarrow> string \<Rightarrow> datetime \<Rightarrow> dispatch_request result" where
  "mk_dispatch_request idempotency_key attempt_id payload_digest queue_name created_at =
     raising
       ([(blank idempotency_key, ''dispatch idempotency_key must not be empty''),
         (blank attempt_id, ''dispatch attempt_id must not be empty''),
         (blank queue_name, ''dispatch queue_name must not be empty''),
         (length idempotency_key > 256, ''dispatch idempotency_key must not exceed 256 characters'')]
        @ digest_checks payload_digest ''payload_digest'')
       (with_aware created_at ''dispatch created_at must be timezone-aware'' (\<lambda>created.
          Inr \<lparr>dq_idempotency_key = idempotency_key, dq_attempt_id = attempt_id,
               dq_payload_digest = payload_digest, dq_queue_name = queue_name, dq_created_at = created\<rparr>))"

definition bind_payload :: "dispatch_intent \<Rightarrow> string \<Rightarrow> dispatch_request result" where
  "bind_payload i payload_digest =
     mk_dispatch_request (di_idempotency_key i) (di_attempt_id i) payload_digest (di_queue_name i)
       (utc (di_created_at i))"

definition dispatch_fingerprint :: "dispatch_request \<Rightarrow> string" where
  "dispatch_fingerprint q = digest (dataclass_py ''app.strategy_lab_v2.dispatch.DispatchRequest''
     [(''idempotency_key'', PStr (dq_idempotency_key q)),
      (''attempt_id'', PStr (dq_attempt_id q)),
      (''payload_digest'', PStr (dq_payload_digest q)),
      (''queue_name'', PStr (dq_queue_name q)),
      (''created_at'', time_py (dq_created_at q))])"

record dispatch_envelope =
  de_message_id :: string
  de_request :: dispatch_request
  de_delivery_count :: int

definition mk_dispatch_envelope :: "string \<Rightarrow> dispatch_request \<Rightarrow> int \<Rightarrow> dispatch_envelope result" where
  "mk_dispatch_envelope message_id request delivery_count =
     raising
       (digest_checks message_id ''message_id''
        @ [(message_id \<noteq> dispatch_fingerprint request,
              ''dispatch message_id must equal its request fingerprint''),
           (delivery_count < 0, ''dispatch delivery_count must not be negative'')])
       (Inr \<lparr>de_message_id = message_id, de_request = request, de_delivery_count = delivery_count\<rparr>)"

record dispatch_resolution =
  dr_decision :: dispatch_decision
  dr_request_fingerprint :: string
  dr_existing_fingerprint :: "string option"

definition mk_dispatch_resolution ::
  "dispatch_decision \<Rightarrow> string \<Rightarrow> string option \<Rightarrow> dispatch_resolution result" where
  "mk_dispatch_resolution decision request_fp existing_fp =
     raising
       (digest_checks request_fp ''request_fingerprint''
        @ opt_digest_checks existing_fp ''existing_fingerprint'')
       (Inr \<lparr>dr_decision = decision, dr_request_fingerprint = request_fp,
             dr_existing_fingerprint = existing_fp\<rparr>)"

definition resolve_idempotent_dispatch ::
  "dispatch_request \<Rightarrow> dispatch_request list \<Rightarrow> dispatch_resolution result" where
  "resolve_idempotent_dispatch request prior_requests =
     (case filter (\<lambda>i. dq_idempotency_key i = dq_idempotency_key request) prior_requests of
        [] \<Rightarrow> mk_dispatch_resolution Dispatch_ENQUEUE (dispatch_fingerprint request) None
      | existing # rest \<Rightarrow>
          raising
            [(list_ex (\<lambda>i. dispatch_fingerprint i \<noteq> dispatch_fingerprint existing) rest,
                ''prior dispatch requests contain conflicting idempotency records'')]
            (mk_dispatch_resolution
               (if dispatch_fingerprint existing = dispatch_fingerprint request
                then Dispatch_REPLAY_EXISTING else Dispatch_IDEMPOTENCY_CONFLICT)
               (dispatch_fingerprint request) (Some (dispatch_fingerprint existing))))"

definition build_dispatch_envelope :: "dispatch_request \<Rightarrow> dispatch_envelope result" where
  "build_dispatch_envelope request = mk_dispatch_envelope (dispatch_fingerprint request) request 0"

section \<open>Dispatch keeps one request per key\<close>

definition dispatch_request_ok :: "dispatch_request \<Rightarrow> bool" where
  "dispatch_request_ok q \<longleftrightarrow> \<not> blank (dq_idempotency_key q) \<and> \<not> blank (dq_attempt_id q)
     \<and> \<not> blank (dq_queue_name q) \<and> length (dq_idempotency_key q) \<le> 256 \<and> is_digest (dq_payload_digest q)"

fun dispatch_view :: "dispatch_resolution \<Rightarrow> string option keyed_answer" where
  "dispatch_view r = (case dr_decision r of
     Dispatch_ENQUEUE \<Rightarrow> Fresh
   | Dispatch_REPLAY_EXISTING \<Rightarrow> Replay (dr_existing_fingerprint r)
   | Dispatch_IDEMPOTENCY_CONFLICT \<Rightarrow> Conflict (dr_existing_fingerprint r))"

definition dispatch_answer :: "dispatch_request \<Rightarrow> dispatch_request list \<Rightarrow> string option keyed_answer result" where
  "dispatch_answer q ps = rbind (resolve_idempotent_dispatch q ps) (\<lambda>r. Inr (dispatch_view r))"

lemma mk_dispatch_request_ok: "mk_dispatch_request k a p q t = Inr r \<Longrightarrow> dispatch_request_ok r"
  by (auto simp: mk_dispatch_request_def dispatch_request_ok_def contract_simps)

lemma mk_dispatch_intent_bind:
  "mk_dispatch_intent k a q t = Inr i \<Longrightarrow>
     (\<exists>r. bind_payload i p = Inr r \<and> dq_idempotency_key r = k \<and> dq_attempt_id r = a
        \<and> dq_queue_name r = q \<and> dq_payload_digest r = p) \<longleftrightarrow> is_digest p"
  by (auto simp: mk_dispatch_intent_def bind_payload_def mk_dispatch_request_def contract_simps utc_def)

lemma dispatch_fingerprint_digest [simp]: "is_digest (dispatch_fingerprint q)"
  by (simp add: dispatch_fingerprint_def is_digest_digest)

lemma mk_dispatch_resolution_Inr:
  "is_digest f \<Longrightarrow> mk_dispatch_resolution d f None =
     Inr \<lparr>dr_decision = d, dr_request_fingerprint = f, dr_existing_fingerprint = None\<rparr>"
  "is_digest f \<Longrightarrow> is_digest g \<Longrightarrow> mk_dispatch_resolution d f (Some g) =
     Inr \<lparr>dr_decision = d, dr_request_fingerprint = f, dr_existing_fingerprint = Some g\<rparr>"
  by (simp_all add: mk_dispatch_resolution_def contract_simps)

interpretation dispatches: keyed_resolution dispatch_answer id dq_idempotency_key dispatch_fingerprint
  "\<lambda>p. Some (dispatch_fingerprint p)"
  by unfold_locales
    (auto simp: dispatch_answer_def resolve_idempotent_dispatch_def mk_dispatch_resolution_Inr raising.simps
      list_ex_iff split: list.splits)

lemma resolve_dispatch_new:
  "\<forall>e \<in> set ds. dq_idempotency_key e \<noteq> dq_idempotency_key d \<Longrightarrow> resolve_idempotent_dispatch d ds
     = Inr \<lparr>dr_decision = Dispatch_ENQUEUE, dr_request_fingerprint = dispatch_fingerprint d, dr_existing_fingerprint = None\<rparr>"
  by (simp add: resolve_idempotent_dispatch_def mk_dispatch_resolution_Inr)

lemma resolve_dispatch_known:
  assumes "distinct (map dq_idempotency_key ds)" "e \<in> set ds" "dq_idempotency_key e = dq_idempotency_key d"
  shows "resolve_idempotent_dispatch d ds = Inr \<lparr>dr_decision = (if dispatch_fingerprint e = dispatch_fingerprint d
       then Dispatch_REPLAY_EXISTING else Dispatch_IDEMPOTENCY_CONFLICT),
     dr_request_fingerprint = dispatch_fingerprint d, dr_existing_fingerprint = Some (dispatch_fingerprint e)\<rparr>"
proof -
  have "one_per_key id dq_idempotency_key ds" using assms(1) by (simp add: one_per_key_def)
  from dispatches.filter_key [OF this assms(2)] show ?thesis
    using assms(3) by (simp add: resolve_idempotent_dispatch_def raising.simps mk_dispatch_resolution_Inr)
qed

definition envelope_for :: "dispatch_request \<Rightarrow> dispatch_envelope" where
  "envelope_for d = \<lparr>de_message_id = dispatch_fingerprint d, de_request = d, de_delivery_count = 0\<rparr>"

lemma build_dispatch_envelope_Inr: "build_dispatch_envelope d = Inr (envelope_for d)"
  by (simp add: build_dispatch_envelope_def mk_dispatch_envelope_def raising_Inr_iff digests_clean envelope_for_def)

section \<open>Properties\<close>

text \<open>Dispatch is exactly once per idempotency key. When a queue records the requests that
  resolution lets through, it keeps one request per key; a request that was enqueued is answered
  with a replay of its own fingerprint ever after, whatever is dispatched in between, and any
  request that reuses the key with other content is answered with a conflict naming the original.\<close>

theorem dispatch_exactly_once:
  assumes "one_per_key id dq_idempotency_key ps"
    and "resolve_idempotent_dispatch p ps = Inr r" "dr_decision r = Dispatch_ENQUEUE"
    and "later = serve (register dispatch_answer id) rs (ps @ [p])"
    and "dq_idempotency_key q = dq_idempotency_key p"
  shows "one_per_key id dq_idempotency_key later
     \<and> (\<exists>s. resolve_idempotent_dispatch q later = Inr s
        \<and> dr_existing_fingerprint s = Some (dispatch_fingerprint p)
        \<and> dr_decision s = (if dispatch_fingerprint q = dispatch_fingerprint p
             then Dispatch_REPLAY_EXISTING else Dispatch_IDEMPOTENCY_CONFLICT))"
proof -
  have fresh: "dispatch_answer (id p) ps = Inr Fresh" using assms(2,3) by (simp add: dispatch_answer_def)
  have "one_per_key id dq_idempotency_key (ps @ [p])"
    using dispatches.register_one_per_key [OF assms(1), of p] fresh by (simp add: register_def)
  then have "one_per_key id dq_idempotency_key later"
    unfolding assms(4) by (rule dispatches.registry.serve_inv)
  moreover have "dispatch_answer q later = Inr (if dispatch_fingerprint q = dispatch_fingerprint p
      then Replay (Some (dispatch_fingerprint p)) else Conflict (Some (dispatch_fingerprint p)))"
    using dispatches.first_wins [OF assms(1) fresh assms(4)] assms(5) by simp
  then obtain s where "resolve_idempotent_dispatch q later = Inr s"
    "dispatch_view s = (if dispatch_fingerprint q = dispatch_fingerprint p
      then Replay (Some (dispatch_fingerprint p)) else Conflict (Some (dispatch_fingerprint p)))"
    by (auto simp: dispatch_answer_def)
  ultimately show ?thesis
    by (auto split: dispatch_decision.splits if_splits)
qed

definition sample_dispatch :: dispatch_request where
  "sample_dispatch = \<lparr>dq_idempotency_key = ''k'', dq_attempt_id = ''a-1'', dq_payload_digest = digest_text ''p'',
     dq_queue_name = ''q'', dq_created_at = 0\<rparr>"

lemma sample_dispatch_enqueued:
  "resolve_idempotent_dispatch sample_dispatch [] = Inr \<lparr>dr_decision = Dispatch_ENQUEUE,
     dr_request_fingerprint = dispatch_fingerprint sample_dispatch, dr_existing_fingerprint = None\<rparr>"
  by (simp add: resolve_idempotent_dispatch_def mk_dispatch_resolution_Inr)

theorem dispatch_exactly_once_witness:
  "\<exists>s. resolve_idempotent_dispatch sample_dispatch [sample_dispatch] = Inr s
     \<and> dr_decision s = Dispatch_REPLAY_EXISTING"
  using dispatch_exactly_once [OF _ sample_dispatch_enqueued, of "[sample_dispatch]" "[]" sample_dispatch]
  by (auto simp: one_per_key_def)

end
