(* ===== verification/Forward_Event_Dispatch.thy ===== *)
theory Forward_Event_Dispatch
  imports Forward_Event_Transaction Dispatch
begin

text \<open>
  \<open>src/backend/app/strategy_lab_v2/forward_event_dispatch.py\<close>: a live event is admitted together with the
  queue message for its work. The message is bound to the event and to the replay plan of a correction by
  its payload digest.
\<close>

section \<open>The decision\<close>

datatype forward_dispatch_decision =
    FD_ENQUEUE | FD_REPLAY_EXISTING | FD_BUFFERED | FD_DUPLICATE | FD_OUT_OF_ORDER | FD_CORRECTION_ENQUEUE
  | FD_CORRECTION_REPLAY | FD_CONFLICT | FD_REJECT

record forward_dispatch =
  fd_decision :: forward_dispatch_decision
  fd_state :: live_state
  fd_event_transaction :: event_transaction
  fd_dispatch_resolution :: "dispatch_resolution option"
  fd_envelope :: "dispatch_envelope option"
  fd_rejection_reason :: "string option"

definition mk_forward_dispatch ::
  "forward_dispatch_decision \<Rightarrow> live_state \<Rightarrow> event_transaction \<Rightarrow> dispatch_resolution option \<Rightarrow> dispatch_envelope option
     \<Rightarrow> string option \<Rightarrow> forward_dispatch result" where
  "mk_forward_dispatch decision state transaction dispatch envelope reason =
     raising
       [(decision \<in> {FD_ENQUEUE, FD_REPLAY_EXISTING, FD_CORRECTION_ENQUEUE, FD_CORRECTION_REPLAY, FD_BUFFERED}
           \<and> dispatch = None, ''dispatching decisions require dispatch evidence''),
        (decision \<in> {FD_ENQUEUE, FD_CORRECTION_ENQUEUE} \<and> envelope = None, ''enqueue decisions require a dispatch envelope''),
        (decision \<in> {FD_CONFLICT, FD_REJECT} \<and> no_reason reason, ''conflicts and rejections require a reason''),
        (decision \<notin> {FD_CONFLICT, FD_REJECT} \<and> \<not> no_reason reason,
           ''successful dispatch decisions cannot contain a reason'')]
       (Inr \<lparr>fd_decision = decision, fd_state = state, fd_event_transaction = transaction, fd_dispatch_resolution = dispatch,
             fd_envelope = envelope, fd_rejection_reason = reason\<rparr>)"

definition replay_plan_fingerprint :: "replay_plan \<Rightarrow> string" where
  "replay_plan_fingerprint p = digest (dataclass_py ''app.strategy_lab_v2.forward_corrections.CounterfactualReplayPlan''
     [(''replay_id'', PStr (rp_replay_id p)),
      (''instance_id'', PStr (rp_instance_id p)),
      (''correction_event_id'', PStr (rp_correction_event_id p)),
      (''original_event_id'', PStr (rp_original_event_id p)),
      (''base_checkpoint_fingerprint'', PStr (rp_base_checkpoint_fingerprint p)),
      (''warmup_receipt_fingerprint'', PStr (rp_warmup_receipt_fingerprint p)),
      (''planned_at'', time_py (rp_planned_at p))])"

definition expected_payload :: "event_transaction \<Rightarrow> string" where
  "expected_payload t = digest (PMapping
     [(''event_fingerprint'', PStr (et_event_fingerprint t)),
      (''replay_plan_fingerprint'', opt_py (\<lambda>p. PStr (replay_plan_fingerprint p)) (et_replay_plan t))])"

definition reject_forward_dispatch :: "live_state \<Rightarrow> forward_event \<Rightarrow> observation \<Rightarrow> string \<Rightarrow> forward_dispatch result" where
  "reject_forward_dispatch state event obs reason =
     rbind (resolve_forward_event_transaction state event obs None None) (\<lambda>transaction.
       mk_forward_dispatch FD_REJECT state transaction None None (Some reason))"

definition resolve_forward_event_dispatch ::
  "live_state \<Rightarrow> forward_event \<Rightarrow> observation \<Rightarrow> dispatch_request \<Rightarrow> dispatch_request list \<Rightarrow> correction_command option
     \<Rightarrow> replay_plan option \<Rightarrow> forward_dispatch result" where
  "resolve_forward_event_dispatch state event obs dispatch_request prior_dispatches command existing_plan =
     (if dq_attempt_id dispatch_request \<noteq> fi_instance_id (ck_instance (lv_checkpoint state)) then
        reject_forward_dispatch state event obs ''dispatch request must reference the forward instance''
      else rbind (resolve_forward_event_transaction state event obs command existing_plan) (\<lambda>transaction.
        if et_decision transaction \<in> {Event_CONFLICT, Event_REJECT} then
          mk_forward_dispatch (if et_decision transaction = Event_CONFLICT then FD_CONFLICT else FD_REJECT) state transaction
            None None (Some (reason_or (et_rejection_reason transaction) ''forward event transaction rejected''))
        else if et_decision transaction \<in> {Event_DUPLICATE, Event_OUT_OF_ORDER} then
          mk_forward_dispatch (if et_decision transaction = Event_DUPLICATE then FD_DUPLICATE else FD_OUT_OF_ORDER)
            (et_state transaction) transaction None None None
        else if dq_payload_digest dispatch_request \<noteq> expected_payload transaction then
          mk_forward_dispatch FD_REJECT state transaction None None
            (Some ''dispatch payload does not match forward event evidence'')
        else rbind (resolve_idempotent_dispatch dispatch_request prior_dispatches) (\<lambda>dispatch.
          if dr_decision dispatch = Dispatch_IDEMPOTENCY_CONFLICT then
            mk_forward_dispatch FD_CONFLICT state transaction (Some dispatch) None
              (Some ''forward dispatch idempotency key is bound to different content'')
          else if et_decision transaction \<in> {Event_REPLAY_EXISTING, Event_CORRECTION_REPLAY}
              \<and> dr_decision dispatch = Dispatch_ENQUEUE then
            mk_forward_dispatch FD_CONFLICT state transaction (Some dispatch) None
              (Some ''forward event is already bound to a different dispatch identity'')
          else if et_decision transaction = Event_CORRECTION_ACCEPTED \<and> dr_decision dispatch = Dispatch_REPLAY_EXISTING then
            mk_forward_dispatch FD_CONFLICT state transaction (Some dispatch) None
              (Some ''dispatch exists without a correction replay receipt'')
          else rbind (build_dispatch_envelope dispatch_request) (\<lambda>envelope.
            mk_forward_dispatch
              (if et_decision transaction = Event_CORRECTION_ACCEPTED then FD_CORRECTION_ENQUEUE
               else if et_decision transaction = Event_CORRECTION_REPLAY then FD_CORRECTION_REPLAY
               else if et_decision transaction = Event_GAP then FD_BUFFERED
               else if dr_decision dispatch = Dispatch_ENQUEUE then FD_ENQUEUE
               else FD_REPLAY_EXISTING)
              (et_state transaction) transaction (Some dispatch) (Some envelope) None))))"

section \<open>How a dispatch answers\<close>

definition fd_declined :: "live_state \<Rightarrow> forward_dispatch \<Rightarrow> bool" where
  "fd_declined st x \<longleftrightarrow> fd_decision x \<in> {FD_CONFLICT, FD_REJECT} \<and> fd_state x = st \<and> fd_envelope x = None"

definition fd_observed :: "forward_dispatch \<Rightarrow> bool" where
  "fd_observed x \<longleftrightarrow> fd_decision x \<in> {FD_DUPLICATE, FD_OUT_OF_ORDER} \<and> fd_state x = et_state (fd_event_transaction x)
     \<and> et_decision (fd_event_transaction x) \<in> {Event_DUPLICATE, Event_OUT_OF_ORDER} \<and> fd_envelope x = None"

definition fd_staged :: "live_state \<Rightarrow> dispatch_request \<Rightarrow> dispatch_request list \<Rightarrow> forward_dispatch \<Rightarrow> bool" where
  "fd_staged st d ps x \<longleftrightarrow> fd_decision x \<in> {FD_ENQUEUE, FD_REPLAY_EXISTING, FD_BUFFERED, FD_CORRECTION_ENQUEUE, FD_CORRECTION_REPLAY}
     \<and> fd_state x = et_state (fd_event_transaction x) \<and> fd_envelope x = Some (envelope_for d)
     \<and> dq_attempt_id d = fi_instance_id (ck_instance (lv_checkpoint st))
     \<and> dq_payload_digest d = expected_payload (fd_event_transaction x)
     \<and> (\<exists>r. fd_dispatch_resolution x = Some r \<and> resolve_idempotent_dispatch d ps = Inr r
          \<and> (fd_decision x = FD_CORRECTION_ENQUEUE \<longrightarrow> dr_decision r = Dispatch_ENQUEUE)
          \<and> (et_decision (fd_event_transaction x) \<in> {Event_REPLAY_EXISTING, Event_CORRECTION_REPLAY}
               \<longrightarrow> dr_decision r = Dispatch_REPLAY_EXISTING))"

lemma mk_forward_dispatch_Inr:
  "d \<in> {FD_CONFLICT, FD_REJECT} \<longleftrightarrow> m \<noteq> None \<Longrightarrow> m \<noteq> Some [] \<Longrightarrow>
   d \<in> {FD_CONFLICT, FD_REJECT, FD_DUPLICATE, FD_OUT_OF_ORDER} \<or> r \<noteq> None \<and> e \<noteq> None \<Longrightarrow>
   mk_forward_dispatch d st t r e m = Inr \<lparr>fd_decision = d, fd_state = st, fd_event_transaction = t, fd_dispatch_resolution = r,
     fd_envelope = e, fd_rejection_reason = m\<rparr>"
  by (cases d) (auto simp: mk_forward_dispatch_def raising_Inr_iff no_reason_def)

lemma dispatch_resolves:
  assumes "distinct (map dq_idempotency_key ps)"
  shows "\<exists>r. resolve_idempotent_dispatch d ps = Inr r"
proof (cases "\<exists>e \<in> set ps. dq_idempotency_key e = dq_idempotency_key d")
  case True
  then show ?thesis using resolve_dispatch_known [OF assms] by blast
next
  case False
  then show ?thesis using resolve_dispatch_new by blast
qed

lemma new_dispatch_fresh:
  assumes "distinct (map dq_idempotency_key ps)" "resolve_idempotent_dispatch d ps = Inr r" "dr_decision r = Dispatch_ENQUEUE"
  shows "dq_idempotency_key d \<notin> dq_idempotency_key ` set ps"
  using assms(2,3) resolve_dispatch_known [OF assms(1)] by (force split: if_splits)

lemma forward_dispatch_answers:
  assumes "live_state_ok st" "forward_event_ok e" "\<forall>c. command = Some c \<longrightarrow> correction_command_ok c"
    and "distinct (map dq_idempotency_key ps)"
  shows "\<exists>x. resolve_forward_event_dispatch st e ob d ps command existing = Inr x
    \<and> (fd_declined st x \<or> resolve_forward_event_transaction st e ob command existing = Inr (fd_event_transaction x)
         \<and> (fd_observed x \<or> fd_staged st d ps x))"
proof (cases "dq_attempt_id d = fi_instance_id (ck_instance (lv_checkpoint st))")
  case False
  obtain t where "resolve_forward_event_transaction st e ob None None = Inr t"
    using transaction_cases [OF assms(1,2), of None ob None] by auto
  with False show ?thesis
    by (simp add: resolve_forward_event_dispatch_def reject_forward_dispatch_def mk_forward_dispatch_Inr fd_declined_def)
next
  case True
  obtain t where t: "resolve_forward_event_transaction st e ob command existing = Inr t"
    using transaction_cases [OF assms(1-3), of ob existing] by blast
  obtain r where r: "resolve_idempotent_dispatch d ps = Inr r" using dispatch_resolves [OF assms(4)] by blast
  have nonempty: "reason_or m ''forward event transaction rejected'' \<noteq> []" for m by (simp add: reason_or_nonempty)
  show ?thesis
    unfolding resolve_forward_event_dispatch_def
    using True t r
    by (cases "dr_decision r")
      (auto simp: mk_forward_dispatch_Inr nonempty build_dispatch_envelope_Inr fd_declined_def fd_observed_def fd_staged_def
        split: if_splits)
qed

section \<open>Properties\<close>

text \<open>C13: a live event and the message for its work are staged together. For a valid live state, event and
  command, and prior dispatch requests with distinct keys, the dispatch always answers. A conflict or
  rejection leaves the live state as it was and stages nothing, also when the event or its correction
  alone had been admitted; a duplicate or out-of-order event is recorded and stages nothing; every
  other answer carries the state of the event transaction and exactly one envelope, for the forward
  instance, whose payload is the digest of the event and of the correction's replay plan. A first
  correction is enqueued only under a key that no prior request holds. The live state stays valid and
  only grows.\<close>

theorem forward_dispatch_atomic:
  assumes "live_state_ok st" "forward_event_ok e" "\<forall>c. command = Some c \<longrightarrow> correction_command_ok c"
    and "distinct (map dq_idempotency_key ps)"
  shows "\<exists>x. resolve_forward_event_dispatch st e ob d ps command existing = Inr x
     \<and> live_state_ok (fd_state x) \<and> live_le st (fd_state x)
     \<and> (fd_decision x \<in> {FD_CONFLICT, FD_REJECT} \<longrightarrow> fd_state x = st \<and> fd_envelope x = None)
     \<and> (fd_decision x \<in> {FD_DUPLICATE, FD_OUT_OF_ORDER} \<longrightarrow> fd_envelope x = None)
     \<and> (fd_decision x \<notin> {FD_CONFLICT, FD_REJECT, FD_DUPLICATE, FD_OUT_OF_ORDER} \<longrightarrow>
          (\<exists>t. resolve_forward_event_transaction st e ob command existing = Inr t \<and> fd_state x = et_state t
             \<and> fd_envelope x = Some (envelope_for d)
             \<and> dq_attempt_id d = fi_instance_id (ck_instance (lv_checkpoint st))
             \<and> dq_payload_digest d = expected_payload t))
     \<and> (fd_decision x = FD_CORRECTION_ENQUEUE \<longrightarrow> dq_idempotency_key d \<notin> dq_idempotency_key ` set ps)"
proof -
  obtain x where x: "resolve_forward_event_dispatch st e ob d ps command existing = Inr x"
    and kind: "fd_declined st x \<or> resolve_forward_event_transaction st e ob command existing = Inr (fd_event_transaction x)
         \<and> (fd_observed x \<or> fd_staged st d ps x)"
    using forward_dispatch_answers [OF assms] by blast
  have keeps: "live_state_ok (fd_state x) \<and> live_le st (fd_state x)"
    using kind transaction_keeps [OF assms(1), of e ob command existing "fd_event_transaction x"] assms(1)
    by (auto simp: fd_declined_def fd_observed_def fd_staged_def transactions.le_refl)
  from kind show ?thesis
  proof (elim disjE conjE)
    assume "fd_staged st d ps x" "resolve_forward_event_transaction st e ob command existing = Inr (fd_event_transaction x)"
    moreover from this(1) have "fd_decision x = FD_CORRECTION_ENQUEUE \<longrightarrow> dq_idempotency_key d \<notin> dq_idempotency_key ` set ps"
      by (auto simp: fd_staged_def dest: new_dispatch_fresh [OF assms(4)])
    ultimately show ?thesis using x keeps by (auto simp: fd_staged_def)
  qed (use x keeps in \<open>auto simp: fd_declined_def fd_observed_def\<close>)
qed

definition sample_forward_request :: dispatch_request where
  "sample_forward_request = sample_dispatch\<lparr>dq_attempt_id := fi_instance_id (ck_instance (lv_checkpoint sample_live1))\<rparr>"

theorem forward_dispatch_atomic_witness:
  "live_state_ok sample_live1 \<and> forward_event_ok sample_correction \<and> correction_command_ok sample_command
   \<and> distinct (map dq_idempotency_key [sample_dispatch])
   \<and> (\<exists>x. resolve_forward_event_dispatch sample_live1 sample_correction sample_correction_seen sample_forward_request
            [sample_dispatch] (Some sample_command) None = Inr x
        \<and> live_state_ok (fd_state x)
        \<and> (fd_decision x \<in> {FD_CONFLICT, FD_REJECT} \<longrightarrow> fd_state x = sample_live1 \<and> fd_envelope x = None))"
  using forward_dispatch_atomic [OF sample_live1_ok sample_correction_ok, of "Some sample_command" "[sample_dispatch]"
      sample_correction_seen sample_forward_request None] sample_live1_ok sample_correction_ok sample_command_ok
  by fastforce

end
