(* ===== verification/Append_Log.thy ===== *)
theory Append_Log
  imports Prelude "HOL-Library.Sublist"
begin

text \<open>
  The contract of an append-only stream, shared by the execution event streams, the audit journals
  and the lease observation streams: a request either leaves the stored entries alone or appends
  the item it carries, and the entries of a valid stream are numbered contiguously from one. Every such stream
  is a guarded machine whose entries only grow by extension.
\<close>

locale append_log =
  fixes entries :: "'s \<Rightarrow> 'e list"
    and seq :: "'e \<Rightarrow> int"
    and item :: "'r \<Rightarrow> 'e"
    and step :: "'r \<Rightarrow> 's \<Rightarrow> 's result"
    and inv :: "'s \<Rightarrow> bool"
  assumes log_inv: "inv s \<Longrightarrow> step r s = Inr s' \<Longrightarrow> inv s'"
    and log_append: "inv s \<Longrightarrow> step r s = Inr s' \<Longrightarrow> s' = s \<or> entries s' = entries s @ [item r]"
    and log_contiguous: "inv s \<Longrightarrow> map seq (entries s) = map int [1..<Suc (length (entries s))]"

sublocale append_log \<subseteq> machine: guarded_machine step inv "\<lambda>s t. prefix (entries s) (entries t)"
proof
  fix s r s'
  assume s: "inv s" "step r s = Inr s'"
  show "inv s'" using s by (rule log_inv)
  show "prefix (entries s) (entries s')" using log_append [OF s] by auto
qed (auto intro: prefix_order.trans)

context append_log
begin

lemma log_sequence:
  assumes "inv s" "i < length (entries s)"
  shows "seq (entries s ! i) = int i + 1"
proof -
  have "map seq (entries s) ! i = map int [1..<Suc (length (entries s))] ! i"
    using log_contiguous [OF assms(1)] by simp
  with assms(2) show ?thesis by (simp del: upt_Suc)
qed

lemma log_unique:
  assumes "inv s" "a \<in> set (entries s)" "b \<in> set (entries s)" "seq a = seq b"
  shows "a = b"
  using assms log_sequence [OF assms(1)] by (auto simp: in_set_conv_nth)

lemma log_member_sequence: "inv s \<Longrightarrow> a \<in> set (entries s) \<Longrightarrow> 1 \<le> seq a \<and> seq a \<le> int (length (entries s))"
  by (auto simp: in_set_conv_nth log_sequence)

lemma log_member_at:
  assumes "inv s" "1 \<le> n" "n \<le> int (length (entries s))"
  shows "\<exists>a \<in> set (entries s). seq a = n"
proof -
  have "nat (n - 1) < length (entries s)" using assms by simp
  with assms log_sequence [OF assms(1) this] show ?thesis by (auto intro!: bexI [OF _ nth_mem])
qed

lemma log_stable:
  assumes "inv s" "i < length (entries s)"
  shows "entries (serve step rs s) ! i = entries s ! i"
  using machine.serve_le [OF assms(1), of rs] assms(2) by (auto simp: prefix_def nth_append)

lemma log_served_member:
  assumes "inv s" "a \<in> set (entries (serve step rs s))"
  shows "a \<in> set (entries s) \<or> a \<in> item ` set rs"
  using assms
proof (induction rs arbitrary: s)
  case (Cons r rs)
  consider "a \<in> set (entries (served step r s))" | "a \<in> item ` set rs"
    using Cons.IH [OF machine.served_inv [OF Cons.prems(1), of r]] Cons.prems(2) by auto
  then show ?case
  proof cases
    case 1
    then show ?thesis using log_append [OF Cons.prems(1)]
      by (cases "step r s") (force simp: served_def)+
  qed simp
qed simp

end

end
