(* ===== verification/Execution_Events.thy ===== *)
theory Execution_Events
  imports Contracts Append_Log
begin

text \<open>
  \<open>src/backend/app/strategy_lab_v2/events.py\<close>: content-addressed execution events and the decision
  that appends, replays or refuses one of them against the committed cursor of its stream.
\<close>

datatype execution_event_type =
    Event_ATTEMPT_CREATED | Event_ATTEMPT_STATE_CHANGED | Event_PROGRESS_UPDATED
  | Event_CANCELLATION_REQUESTED | Event_RECOVERY_PLANNED | Event_ARTIFACT_VERIFIED
  | Event_RESULT_PUBLISHED | Event_FORWARD_EVENT_APPLIED

fun execution_event_type_value :: "execution_event_type \<Rightarrow> string" where
  "execution_event_type_value Event_ATTEMPT_CREATED = ''attempt_created''"
| "execution_event_type_value Event_ATTEMPT_STATE_CHANGED = ''attempt_state_changed''"
| "execution_event_type_value Event_PROGRESS_UPDATED = ''progress_updated''"
| "execution_event_type_value Event_CANCELLATION_REQUESTED = ''cancellation_requested''"
| "execution_event_type_value Event_RECOVERY_PLANNED = ''recovery_planned''"
| "execution_event_type_value Event_ARTIFACT_VERIFIED = ''artifact_verified''"
| "execution_event_type_value Event_RESULT_PUBLISHED = ''result_published''"
| "execution_event_type_value Event_FORWARD_EVENT_APPLIED = ''forward_event_applied''"

record execution_event =
  xe_trial_id :: string
  xe_attempt_id :: string
  xe_sequence :: int
  xe_event_type :: execution_event_type
  xe_payload_digest :: string
  xe_occurred_at :: instant
  xe_producer :: string
  xe_causation_id :: "string option"

definition mk_execution_event ::
  "string \<Rightarrow> string \<Rightarrow> int \<Rightarrow> execution_event_type \<Rightarrow> string \<Rightarrow> datetime \<Rightarrow> string \<Rightarrow> string option
     \<Rightarrow> execution_event result" where
  "mk_execution_event trial_id attempt_id sequence event_type payload_digest occurred_at producer
       causation_id =
     raising
       ([(blank trial_id, ''event trial_id must not be empty''),
         (blank attempt_id, ''event attempt_id must not be empty''),
         (blank producer, ''event producer must not be empty''),
         (sequence < 1, ''event sequence must be a positive integer'')]
        @ digest_checks payload_digest ''payload_digest'')
       (with_aware occurred_at ''event occurred_at must be timezone-aware'' (\<lambda>occurred.
        raising (opt_digest_checks causation_id ''causation_id'')
          (Inr \<lparr>xe_trial_id = trial_id, xe_attempt_id = attempt_id, xe_sequence = sequence,
                xe_event_type = event_type, xe_payload_digest = payload_digest,
                xe_occurred_at = occurred, xe_producer = producer, xe_causation_id = causation_id\<rparr>)))"

definition execution_event_py :: "execution_event \<Rightarrow> pyval" where
  "execution_event_py e = dataclass_py ''app.strategy_lab_v2.events.ExecutionEvent''
     [(''trial_id'', PStr (xe_trial_id e)),
      (''attempt_id'', PStr (xe_attempt_id e)),
      (''sequence'', PInt (xe_sequence e)),
      (''event_type'', PEnum ''app.strategy_lab_v2.events.ExecutionEventType''
         (PStr (execution_event_type_value (xe_event_type e)))),
      (''payload_digest'', PStr (xe_payload_digest e)),
      (''occurred_at'', time_py (xe_occurred_at e)),
      (''producer'', PStr (xe_producer e)),
      (''causation_id'', opt_py PStr (xe_causation_id e))]"

definition event_id :: "execution_event \<Rightarrow> string" where
  "event_id e = digest (execution_event_py e)"

record stream_cursor =
  sc_trial_id :: string
  sc_attempt_id :: string
  sc_sequence :: int
  sc_last_event_id :: "string option"

definition mk_stream_cursor :: "string \<Rightarrow> string \<Rightarrow> int \<Rightarrow> string option \<Rightarrow> stream_cursor result" where
  "mk_stream_cursor trial_id attempt_id sequence last_event_id =
     raising
       ([(blank trial_id, ''cursor trial_id must not be empty''),
         (blank attempt_id, ''cursor attempt_id must not be empty''),
         (sequence < 0, ''cursor sequence must be non-negative''),
         (sequence = 0 \<and> last_event_id \<noteq> None, ''an empty cursor cannot contain a last event''),
         (sequence > 0 \<and> last_event_id = None, ''a non-empty cursor requires the last event identity'')]
        @ opt_digest_checks last_event_id ''last_event_id'')
       (Inr \<lparr>sc_trial_id = trial_id, sc_attempt_id = attempt_id, sc_sequence = sequence,
             sc_last_event_id = last_event_id\<rparr>)"

datatype event_append_decision = Append_APPEND | Append_REPLAY_EXISTING | Append_GAP | Append_CONFLICT

record event_append_resolution =
  ea_decision :: event_append_decision
  ea_event_id :: string
  ea_cursor :: stream_cursor
  ea_expected_sequence :: int

definition mk_event_append_resolution ::
  "event_append_decision \<Rightarrow> string \<Rightarrow> stream_cursor \<Rightarrow> int \<Rightarrow> event_append_resolution result" where
  "mk_event_append_resolution decision eid cursor expected =
     raising
       (digest_checks eid ''event_id'' @ [(expected < 1, ''expected_sequence must be positive'')])
       (Inr \<lparr>ea_decision = decision, ea_event_id = eid, ea_cursor = cursor,
             ea_expected_sequence = expected\<rparr>)"

definition resolve_event_append ::
  "execution_event \<Rightarrow> stream_cursor \<Rightarrow> execution_event list \<Rightarrow> event_append_resolution result" where
  "resolve_event_append event cursor prior_events =
     raising
       [(xe_trial_id event \<noteq> sc_trial_id cursor \<or> xe_attempt_id event \<noteq> sc_attempt_id cursor,
           ''event must reference the cursor trial and attempt'')]
       (let scoped = filter (\<lambda>i. xe_trial_id i = sc_trial_id cursor \<and> xe_attempt_id i = sc_attempt_id cursor)
                       prior_events;
            expected = sc_sequence cursor + 1
        in if list_ex (\<lambda>i. event_id i = event_id event) scoped then
             raising
               [(list_ex (\<lambda>i. event_id i = event_id event \<and> i \<noteq> event) scoped,
                   ''event identity collides with different event content'')]
               (mk_event_append_resolution Append_REPLAY_EXISTING (event_id event) cursor expected)
           else if xe_sequence event < expected then
             mk_event_append_resolution Append_CONFLICT (event_id event) cursor expected
           else if xe_sequence event > expected then
             mk_event_append_resolution Append_GAP (event_id event) cursor expected
           else
             rbind (mk_stream_cursor (sc_trial_id cursor) (sc_attempt_id cursor) (xe_sequence event)
                      (Some (event_id event)))
               (\<lambda>next_cursor.
                  mk_event_append_resolution Append_APPEND (event_id event) next_cursor expected))"

section \<open>Committed streams\<close>

text \<open>What an adapter persists for one attempt: the cursor and the committed events. It applies a
  resolution by storing the returned cursor and, on an append, the event.\<close>

record event_stream =
  es_cursor :: stream_cursor
  es_events :: "execution_event list"

definition commit_event :: "execution_event \<Rightarrow> event_stream \<Rightarrow> event_stream result" where
  "commit_event e s =
     rbind (resolve_event_append e (es_cursor s) (es_events s)) (\<lambda>r.
       Inr (if ea_decision r = Append_APPEND
            then \<lparr>es_cursor = ea_cursor r, es_events = es_events s @ [e]\<rparr> else s))"

definition execution_event_ok :: "execution_event \<Rightarrow> bool" where
  "execution_event_ok e \<longleftrightarrow> \<not> blank (xe_trial_id e) \<and> \<not> blank (xe_attempt_id e) \<and> \<not> blank (xe_producer e)
     \<and> 1 \<le> xe_sequence e \<and> is_digest (xe_payload_digest e)
     \<and> (\<forall>d. xe_causation_id e = Some d \<longrightarrow> is_digest d)"

definition event_stream_ok :: "event_stream \<Rightarrow> bool" where
  "event_stream_ok s \<longleftrightarrow> (let c = es_cursor s; es = es_events s in
     \<not> blank (sc_trial_id c) \<and> \<not> blank (sc_attempt_id c)
     \<and> sc_sequence c = int (length es)
     \<and> sc_last_event_id c = (if es = [] then None else Some (event_id (last es)))
     \<and> (\<forall>e \<in> set es. xe_trial_id e = sc_trial_id c \<and> xe_attempt_id e = sc_attempt_id c)
     \<and> distinct (map event_id es)
     \<and> map xe_sequence es = map int [1..<Suc (length es)])"

lemma mk_execution_event_ok:
  "mk_execution_event t a n k p o' pr c = Inr e \<Longrightarrow> execution_event_ok e"
  by (auto simp: mk_execution_event_def execution_event_ok_def contract_simps)

lemma encodable_execution_event [simp]: "encodable (execution_event_py e)"
  by (simp add: execution_event_py_def)

lemma event_id_digest [simp]: "is_digest (event_id e)"
  by (simp add: event_id_def is_digest_digest)

lemma mk_event_append_resolution_Inr:
  "is_digest eid \<Longrightarrow> mk_event_append_resolution d eid c n =
     (if n < 1 then Inl (ValueError ''expected_sequence must be positive'')
      else Inr \<lparr>ea_decision = d, ea_event_id = eid, ea_cursor = c, ea_expected_sequence = n\<rparr>)"
  by (simp add: mk_event_append_resolution_def digest_checks_def raising.simps is_digest_def)

lemma resolve_event_append_stream:
  assumes "event_stream_ok s" "xe_trial_id e = sc_trial_id (es_cursor s)"
    "xe_attempt_id e = sc_attempt_id (es_cursor s)"
    and "\<forall>x \<in> set (es_events s). event_id x = event_id e \<longrightarrow> x = e"
  shows "resolve_event_append e (es_cursor s) (es_events s) = Inr
     \<lparr>ea_decision = (if e \<in> set (es_events s) then Append_REPLAY_EXISTING
          else if xe_sequence e < int (length (es_events s)) + 1 then Append_CONFLICT
          else if xe_sequence e > int (length (es_events s)) + 1 then Append_GAP else Append_APPEND),
      ea_event_id = event_id e,
      ea_cursor = (if e \<notin> set (es_events s) \<and> xe_sequence e = int (length (es_events s)) + 1
          then (es_cursor s)\<lparr>sc_sequence := xe_sequence e, sc_last_event_id := Some (event_id e)\<rparr>
          else es_cursor s),
      ea_expected_sequence = int (length (es_events s)) + 1\<rparr>"
proof -
  let ?c = "es_cursor s" and ?es = "es_events s"
  have scoped: "filter (\<lambda>i. xe_trial_id i = sc_trial_id ?c \<and> xe_attempt_id i = sc_attempt_id ?c) ?es = ?es"
    using assms(1) by (auto simp: event_stream_ok_def Let_def filter_id_conv)
  have ex: "list_ex (\<lambda>i. event_id i = event_id e) ?es \<longleftrightarrow> e \<in> set ?es"
    "\<not> list_ex (\<lambda>i. event_id i = event_id e \<and> i \<noteq> e) ?es"
    using assms(4) by (auto simp: list_ex_iff)
  have cur: "mk_stream_cursor (sc_trial_id ?c) (sc_attempt_id ?c) n (Some (event_id e))
      = Inr (?c\<lparr>sc_sequence := n, sc_last_event_id := Some (event_id e)\<rparr>)" if "0 < n" for n
    using assms(1) that by (simp add: mk_stream_cursor_def event_stream_ok_def Let_def contract_simps)
  show ?thesis
    using assms(1-3) scoped ex cur
    by (auto simp: resolve_event_append_def Let_def raising.simps mk_event_append_resolution_Inr
        event_stream_ok_def)
qed

lemma commit_event_cases:
  assumes "event_stream_ok s" "commit_event e s = Inr s'"
  obtains (same) "s' = s"
  | (append) "s' = \<lparr>es_cursor = (es_cursor s)\<lparr>sc_sequence := xe_sequence e, sc_last_event_id := Some (event_id e)\<rparr>,
        es_events = es_events s @ [e]\<rparr>"
      "xe_sequence e = int (length (es_events s)) + 1" "event_id e \<notin> event_id ` set (es_events s)"
      "xe_trial_id e = sc_trial_id (es_cursor s)" "xe_attempt_id e = sc_attempt_id (es_cursor s)"
proof (cases "s' = s")
  case False
  let ?c = "es_cursor s" and ?es = "es_events s"
  have scoped: "filter (\<lambda>i. xe_trial_id i = sc_trial_id ?c \<and> xe_attempt_id i = sc_attempt_id ?c) ?es = ?es"
    using assms(1) by (auto simp: event_stream_ok_def Let_def filter_id_conv)
  have len: "sc_sequence ?c = int (length ?es)" using assms(1) by (simp add: event_stream_ok_def Let_def)
  from assms(2) False scoped len show thesis
    by (intro append)
      (auto simp: commit_event_def resolve_event_append_def mk_event_append_resolution_def
        mk_stream_cursor_def Let_def contract_simps list_ex_iff split: if_splits)
qed

interpretation events: append_log es_events xe_sequence id commit_event event_stream_ok
proof
  fix s e s'
  assume s: "event_stream_ok s"
  then show "map xe_sequence (es_events s) = map int [1..<Suc (length (es_events s))]"
    by (simp add: event_stream_ok_def Let_def del: upt_Suc)
  assume "commit_event e s = Inr s'"
  with s show "event_stream_ok s'" "s' = s \<or> es_events s' = es_events s @ [id e]"
    by (cases rule: commit_event_cases; auto simp: event_stream_ok_def Let_def)+
qed

section \<open>Properties\<close>

text \<open>An attempt's event stream is an exact log. After any commits a valid stream is still valid
  and extends what it was. For an event of the stream whose id does not collide, the decision is a
  replay exactly for a committed event, an append exactly for a new event with the next sequence
  number, a gap beyond it and a conflict below it; only an append moves the cursor, and committing
  the same event again then changes nothing.\<close>

theorem event_stream_exact:
  assumes "event_stream_ok s0" and s: "s = serve commit_event rs s0"
    and e: "xe_trial_id e = sc_trial_id (es_cursor s)" "xe_attempt_id e = sc_attempt_id (es_cursor s)"
    and nocoll: "\<forall>x \<in> set (es_events s). event_id x = event_id e \<longrightarrow> x = e"
  shows "event_stream_ok s \<and> prefix (es_events s0) (es_events s)
     \<and> (\<exists>r. resolve_event_append e (es_cursor s) (es_events s) = Inr r
       \<and> (ea_decision r = Append_REPLAY_EXISTING \<longleftrightarrow> e \<in> set (es_events s))
       \<and> (ea_decision r = Append_APPEND \<longleftrightarrow>
            e \<notin> set (es_events s) \<and> xe_sequence e = int (length (es_events s)) + 1)
       \<and> (ea_decision r = Append_GAP \<longleftrightarrow>
            e \<notin> set (es_events s) \<and> xe_sequence e > int (length (es_events s)) + 1)
       \<and> (ea_decision r = Append_CONFLICT \<longleftrightarrow>
            e \<notin> set (es_events s) \<and> xe_sequence e \<le> int (length (es_events s)))
       \<and> (ea_decision r \<noteq> Append_APPEND \<longrightarrow> ea_cursor r = es_cursor s \<and> commit_event e s = Inr s)
       \<and> (ea_decision r = Append_APPEND \<longrightarrow>
            (\<exists>s'. commit_event e s = Inr s' \<and> es_events s' = es_events s @ [e]
               \<and> es_cursor s' = ea_cursor r \<and> commit_event e s' = Inr s')))"
proof -
  have ok: "event_stream_ok s" "prefix (es_events s0) (es_events s)"
    unfolding s using assms(1) by (simp_all add: events.machine.serve_inv events.machine.serve_le)
  note r = resolve_event_append_stream [OF ok(1) e nocoll]
  define s' where "s' = \<lparr>es_cursor = (es_cursor s)\<lparr>sc_sequence := xe_sequence e,
      sc_last_event_id := Some (event_id e)\<rparr>, es_events = es_events s @ [e]\<rparr>"
  have again: "commit_event e s' = Inr s'"
    if "e \<notin> set (es_events s)" "xe_sequence e = int (length (es_events s)) + 1"
  proof -
    have "commit_event e s = Inr s'"
      using that by (simp add: commit_event_def r s'_def)
    then have "event_stream_ok s'" by (rule events.log_inv [OF ok(1)])
    from resolve_event_append_stream [OF this, of e] show ?thesis
      using e nocoll by (simp add: commit_event_def s'_def)
  qed
  have commit: "commit_event e s = Inr (if e \<notin> set (es_events s)
      \<and> xe_sequence e = int (length (es_events s)) + 1 then s' else s)"
    by (simp add: commit_event_def r s'_def)
  consider (replay) "e \<in> set (es_events s)"
    | (append) "e \<notin> set (es_events s)" "xe_sequence e = int (length (es_events s)) + 1"
    | (other) "e \<notin> set (es_events s)" "xe_sequence e \<noteq> int (length (es_events s)) + 1" by blast
  then show ?thesis
  proof cases
    case append
    with ok again show ?thesis by (simp add: r commit) (simp add: s'_def)
  next
    case replay
    with ok show ?thesis by (simp add: r commit)
  next
    case other
    with ok show ?thesis by (auto simp add: r commit)
  qed
qed

definition sample_xevent :: "int \<Rightarrow> execution_event" where
  "sample_xevent n = \<lparr>xe_trial_id = ''t-1'', xe_attempt_id = ''a-1'', xe_sequence = n,
     xe_event_type = Event_ATTEMPT_CREATED, xe_payload_digest = digest_text ''p'', xe_occurred_at = n,
     xe_producer = ''w'', xe_causation_id = None\<rparr>"

definition sample_stream :: event_stream where
  "sample_stream = \<lparr>es_cursor = \<lparr>sc_trial_id = ''t-1'', sc_attempt_id = ''a-1'', sc_sequence = 0,
     sc_last_event_id = None\<rparr>, es_events = []\<rparr>"

lemma sample_stream_ok: "event_stream_ok sample_stream"
  by (simp add: event_stream_ok_def sample_stream_def blank_iff py_space_def)

theorem event_stream_exact_witness:
  "event_stream_ok sample_stream
   \<and> (\<exists>r. resolve_event_append (sample_xevent 2) (es_cursor sample_stream) [] = Inr r \<and> ea_decision r = Append_GAP)
   \<and> (\<exists>s'. commit_event (sample_xevent 1) sample_stream = Inr s' \<and> es_events s' = [sample_xevent 1]
        \<and> commit_event (sample_xevent 1) s' = Inr s')"
  using event_stream_exact [OF sample_stream_ok, of sample_stream "[]" "sample_xevent 2"]
    event_stream_exact [OF sample_stream_ok, of sample_stream "[]" "sample_xevent 1"] sample_stream_ok
  by (auto simp: sample_stream_def sample_xevent_def)

end
