(* ===== verification/Audit_Journal.thy ===== *)
theory Audit_Journal
  imports Contracts Append_Log
begin

text \<open>
  \<open>src/backend/app/strategy_lab_v2/audit.py\<close>: the append-only audit journal of one aggregate.
\<close>

datatype audit_entry_type =
    Audit_AUTHORIZATION_GRANTED | Audit_WORKER_RESERVED | Audit_LEASE_OBSERVED
  | Audit_PROGRESS_RECORDED | Audit_OUTCOME_RECORDED | Audit_ARTIFACT_COMMITTED | Audit_REPLAY_PLANNED

fun audit_entry_type_value :: "audit_entry_type \<Rightarrow> string" where
  "audit_entry_type_value Audit_AUTHORIZATION_GRANTED = ''authorization_granted''"
| "audit_entry_type_value Audit_WORKER_RESERVED = ''worker_reserved''"
| "audit_entry_type_value Audit_LEASE_OBSERVED = ''lease_observed''"
| "audit_entry_type_value Audit_PROGRESS_RECORDED = ''progress_recorded''"
| "audit_entry_type_value Audit_OUTCOME_RECORDED = ''outcome_recorded''"
| "audit_entry_type_value Audit_ARTIFACT_COMMITTED = ''artifact_committed''"
| "audit_entry_type_value Audit_REPLAY_PLANNED = ''replay_planned''"

record audit_entry =
  ae_aggregate_type :: string
  ae_aggregate_id :: string
  ae_sequence :: int
  ae_entry_type :: audit_entry_type
  ae_payload_digest :: string
  ae_occurred_at :: instant
  ae_actor :: string
  ae_correlation_id :: "string option"

definition mk_audit_entry ::
  "string \<Rightarrow> string \<Rightarrow> int \<Rightarrow> audit_entry_type \<Rightarrow> string \<Rightarrow> datetime \<Rightarrow> string \<Rightarrow> string option
     \<Rightarrow> audit_entry result" where
  "mk_audit_entry aggregate_type aggregate_id sequence entry_type payload_digest occurred_at actor
       correlation_id =
     raising
       ([(blank aggregate_type, ''aggregate_type must not be empty''),
         (blank aggregate_id, ''aggregate_id must not be empty''),
         (sequence < 1, ''audit sequence must be a positive integer'')]
        @ digest_checks payload_digest ''payload_digest'')
       (with_aware occurred_at ''occurred_at must be timezone-aware'' (\<lambda>occurred.
        raising ([(blank actor, ''actor must not be empty'')]
                 @ opt_digest_checks correlation_id ''correlation_id'')
          (Inr \<lparr>ae_aggregate_type = aggregate_type, ae_aggregate_id = aggregate_id,
                ae_sequence = sequence, ae_entry_type = entry_type, ae_payload_digest = payload_digest,
                ae_occurred_at = occurred, ae_actor = actor, ae_correlation_id = correlation_id\<rparr>)))"

definition audit_entry_py :: "audit_entry \<Rightarrow> pyval" where
  "audit_entry_py e = dataclass_py ''app.strategy_lab_v2.audit.AuditEntry''
     [(''aggregate_type'', PStr (ae_aggregate_type e)),
      (''aggregate_id'', PStr (ae_aggregate_id e)),
      (''sequence'', PInt (ae_sequence e)),
      (''entry_type'', PEnum ''app.strategy_lab_v2.audit.AuditEntryType''
         (PStr (audit_entry_type_value (ae_entry_type e)))),
      (''payload_digest'', PStr (ae_payload_digest e)),
      (''occurred_at'', time_py (ae_occurred_at e)),
      (''actor'', PStr (ae_actor e)),
      (''correlation_id'', opt_py PStr (ae_correlation_id e))]"

definition entry_id :: "audit_entry \<Rightarrow> string" where
  "entry_id e = digest (audit_entry_py e)"

record audit_journal =
  aj_aggregate_type :: string
  aj_aggregate_id :: string
  aj_entries :: "audit_entry list"

text \<open>The loop of \<open>AuditJournal.__post_init__\<close>: the entries still to check, the expected sequence
  number, the identities met so far and the time of the previous entry.\<close>

fun journal_loop ::
  "string \<Rightarrow> string \<Rightarrow> audit_entry list \<Rightarrow> int \<Rightarrow> string set \<Rightarrow> instant option \<Rightarrow> unit result" where
  "journal_loop ty i [] expected identities previous = Inr ()"
| "journal_loop ty i (entry # entries) expected identities previous =
     raising
       [(ae_aggregate_type entry \<noteq> ty \<or> ae_aggregate_id entry \<noteq> i,
           ''journal entries must reference the journal aggregate''),
        (ae_sequence entry \<noteq> expected, ''journal entries must be contiguous''),
        (entry_id entry \<in> identities, ''journal entries must have unique identities''),
        ((case previous of None \<Rightarrow> False | Some t \<Rightarrow> ae_occurred_at entry < t),
           ''journal entries must not regress occurred_at'')]
       (journal_loop ty i entries (expected + 1) (insert (entry_id entry) identities)
          (Some (ae_occurred_at entry)))"

definition mk_audit_journal :: "string \<Rightarrow> string \<Rightarrow> audit_entry list \<Rightarrow> audit_journal result" where
  "mk_audit_journal ty i entries =
     raising
       [(blank ty, ''aggregate_type must not be empty''), (blank i, ''aggregate_id must not be empty'')]
       (rbind (journal_loop ty i entries 1 {} None)
          (\<lambda>_. Inr \<lparr>aj_aggregate_type = ty, aj_aggregate_id = i, aj_entries = entries\<rparr>))"

definition next_sequence :: "audit_journal \<Rightarrow> int" where
  "next_sequence j = int (length (aj_entries j)) + 1"

datatype audit_append_decision =
    AuditAppend_APPEND | AuditAppend_REPLAY_EXISTING | AuditAppend_GAP | AuditAppend_STALE
  | AuditAppend_CONFLICT | AuditAppend_REJECT

record audit_append_resolution =
  aa_decision :: audit_append_decision
  aa_journal :: audit_journal
  aa_entry_id :: string
  aa_expected_sequence :: int
  aa_rejection_reason :: "string option"

definition mk_audit_append_resolution ::
  "audit_append_decision \<Rightarrow> audit_journal \<Rightarrow> string \<Rightarrow> int \<Rightarrow> string option
     \<Rightarrow> audit_append_resolution result" where
  "mk_audit_append_resolution decision journal eid expected reason =
     raising
       (digest_checks eid ''entry_id''
        @ [(expected < 1, ''expected_sequence must be positive''),
           (decision = AuditAppend_REJECT \<and> (reason = None \<or> reason = Some []),
              ''rejected audit appends require a reason''),
           (decision \<noteq> AuditAppend_REJECT \<and> \<not> (reason = None \<or> reason = Some []),
              ''successful or sequencing resolutions cannot contain a reason'')])
       (Inr \<lparr>aa_decision = decision, aa_journal = journal, aa_entry_id = eid,
             aa_expected_sequence = expected, aa_rejection_reason = reason\<rparr>)"

definition append_audit_entry ::
  "audit_journal \<Rightarrow> audit_entry \<Rightarrow> audit_entry list \<Rightarrow> audit_append_resolution result" where
  "append_audit_entry journal entry prior_entries =
     (let eid = entry_id entry; expected = next_sequence journal;
          scoped = filter (\<lambda>i. ae_aggregate_type i = aj_aggregate_type journal
                             \<and> ae_aggregate_id i = aj_aggregate_id journal)
                     (aj_entries journal @ prior_entries);
          matches = filter (\<lambda>i. entry_id i = eid) scoped
      in if ae_aggregate_type entry \<noteq> aj_aggregate_type journal
            \<or> ae_aggregate_id entry \<noteq> aj_aggregate_id journal then
           mk_audit_append_resolution AuditAppend_REJECT journal eid expected
             (Some ''entry must reference the journal aggregate'')
         else if matches \<noteq> [] then
           (if list_ex (\<lambda>i. i \<noteq> entry) matches
            then mk_audit_append_resolution AuditAppend_CONFLICT journal eid expected None
            else mk_audit_append_resolution AuditAppend_REPLAY_EXISTING journal eid expected None)
         else if list_ex (\<lambda>i. ae_sequence i = ae_sequence entry) scoped then
           mk_audit_append_resolution AuditAppend_CONFLICT journal eid expected None
         else if ae_sequence entry > expected then
           mk_audit_append_resolution AuditAppend_GAP journal eid expected None
         else if ae_sequence entry < expected then
           mk_audit_append_resolution AuditAppend_STALE journal eid expected None
         else if aj_entries journal \<noteq> [] \<and> ae_occurred_at entry < ae_occurred_at (last (aj_entries journal)) then
           mk_audit_append_resolution AuditAppend_REJECT journal eid expected
             (Some ''audit occurred_at regresses the journal'')
         else
           rbind (mk_audit_journal (aj_aggregate_type journal) (aj_aggregate_id journal)
                    (aj_entries journal @ [entry]))
             (\<lambda>next. mk_audit_append_resolution AuditAppend_APPEND next eid expected None))"

section \<open>Journals\<close>

definition audit_entry_ok :: "audit_entry \<Rightarrow> bool" where
  "audit_entry_ok e \<longleftrightarrow> \<not> blank (ae_aggregate_type e) \<and> \<not> blank (ae_aggregate_id e) \<and> 1 \<le> ae_sequence e
     \<and> is_digest (ae_payload_digest e) \<and> \<not> blank (ae_actor e)
     \<and> (\<forall>d. ae_correlation_id e = Some d \<longrightarrow> is_digest d)"

definition audit_journal_ok :: "audit_journal \<Rightarrow> bool" where
  "audit_journal_ok j \<longleftrightarrow> \<not> blank (aj_aggregate_type j) \<and> \<not> blank (aj_aggregate_id j)
     \<and> (\<forall>e \<in> set (aj_entries j). ae_aggregate_type e = aj_aggregate_type j
          \<and> ae_aggregate_id e = aj_aggregate_id j)
     \<and> map ae_sequence (aj_entries j) = map int [1..<Suc (length (aj_entries j))]
     \<and> distinct (map entry_id (aj_entries j)) \<and> sorted (map ae_occurred_at (aj_entries j))"

fun append_step :: "audit_entry \<times> audit_entry list \<Rightarrow> audit_journal \<Rightarrow> audit_journal result" where
  "append_step (entry, prior) j = rbind (append_audit_entry j entry prior) (\<lambda>r. Inr (aa_journal r))"

lemma mk_audit_entry_ok: "mk_audit_entry ty i n k p t a c = Inr e \<Longrightarrow> audit_entry_ok e"
  by (auto simp: mk_audit_entry_def audit_entry_ok_def contract_simps)

lemma encodable_audit_entry [simp]: "encodable (audit_entry_py e)"
  by (simp add: audit_entry_py_def)

lemma entry_id_digest [simp]: "is_digest (entry_id e)"
  by (simp add: entry_id_def is_digest_digest)

lemma journal_loop_Inr:
  "journal_loop ty i es n ids prev = Inr () \<longleftrightarrow>
     (\<forall>e \<in> set es. ae_aggregate_type e = ty \<and> ae_aggregate_id e = i)
     \<and> map ae_sequence es = map (\<lambda>k. n + int k) [0..<length es]
     \<and> distinct (map entry_id es) \<and> entry_id ` set es \<inter> ids = {}
     \<and> sorted (map ae_occurred_at es) \<and> (\<forall>t e. prev = Some t \<longrightarrow> e \<in> set es \<longrightarrow> t \<le> ae_occurred_at e)"
proof (induction es arbitrary: n ids prev)
  case (Cons e es)
  have shift: "map (\<lambda>k. n + int k) [0..<length (e # es)] = n # map (\<lambda>k. n + 1 + int k) [0..<length es]"
    by (simp add: upt_conv_Cons map_Suc_upt [symmetric] del: upt_Suc)
  show ?case
  proof (cases prev)
    case None
    then show ?thesis unfolding shift by (simp add: contract_simps Cons.IH) blast
  next
    case (Some t)
    have "(\<forall>x \<in> set (e # es). t \<le> ae_occurred_at x) \<longleftrightarrow> t \<le> ae_occurred_at e"
      if "\<forall>x \<in> set es. ae_occurred_at e \<le> ae_occurred_at x"
      using that by force
    with Some show ?thesis unfolding shift by (simp add: contract_simps Cons.IH not_less) blast
  qed
qed simp

lemma mk_audit_journal_Inr:
  "mk_audit_journal ty i es = Inr j \<longleftrightarrow>
     j = \<lparr>aj_aggregate_type = ty, aj_aggregate_id = i, aj_entries = es\<rparr> \<and> audit_journal_ok j"
proof -
  have "map (\<lambda>k. 1 + int k) [0..<length es] = map int [1..<Suc (length es)]"
    by (simp add: map_Suc_upt [symmetric] del: upt_Suc)
  then show ?thesis
    by (auto simp: mk_audit_journal_def contract_simps journal_loop_Inr audit_journal_ok_def simp del: upt_Suc)
qed

lemma mk_audit_append_resolution_Inr:
  "mk_audit_append_resolution d j eid n m = Inr r \<Longrightarrow>
     r = \<lparr>aa_decision = d, aa_journal = j, aa_entry_id = eid, aa_expected_sequence = n, aa_rejection_reason = m\<rparr>"
  by (auto simp: mk_audit_append_resolution_def contract_simps)

lemma mk_audit_append_resolution_simps:
  "is_digest eid \<Longrightarrow> 1 \<le> n \<Longrightarrow> d \<noteq> AuditAppend_REJECT \<Longrightarrow> mk_audit_append_resolution d j eid n None
     = Inr \<lparr>aa_decision = d, aa_journal = j, aa_entry_id = eid, aa_expected_sequence = n,
            aa_rejection_reason = None\<rparr>"
  "is_digest eid \<Longrightarrow> 1 \<le> n \<Longrightarrow> m \<noteq> [] \<Longrightarrow> mk_audit_append_resolution AuditAppend_REJECT j eid n (Some m)
     = Inr \<lparr>aa_decision = AuditAppend_REJECT, aa_journal = j, aa_entry_id = eid, aa_expected_sequence = n,
            aa_rejection_reason = Some m\<rparr>"
  by (simp_all add: mk_audit_append_resolution_def raising.simps digest_checks_def is_digest_def)

lemma append_audit_entry_cases:
  assumes "append_audit_entry j e prior = Inr r"
  shows "aa_journal r = j \<and> aa_decision r \<noteq> AuditAppend_APPEND
     \<or> aa_decision r = AuditAppend_APPEND \<and> ae_sequence e = next_sequence j
        \<and> aa_journal r = j\<lparr>aj_entries := aj_entries j @ [e]\<rparr> \<and> audit_journal_ok (aa_journal r)"
  using assms
  by (auto simp: append_audit_entry_def Let_def mk_audit_journal_Inr split: if_splits
      dest!: mk_audit_append_resolution_Inr)

interpretation journals: append_log aj_entries ae_sequence fst append_step audit_journal_ok
proof
  fix s r s'
  assume s: "audit_journal_ok s"
  then show "map ae_sequence (aj_entries s) = map int [1..<Suc (length (aj_entries s))]"
    by (simp add: audit_journal_ok_def del: upt_Suc)
  assume "append_step r s = Inr s'"
  with s show "audit_journal_ok s'" "s' = s \<or> aj_entries s' = aj_entries s @ [fst r]"
    by (cases r; auto dest!: append_audit_entry_cases)+
qed

lemma journal_extend:
  assumes "audit_journal_ok j" "ae_aggregate_type e = aj_aggregate_type j" "ae_aggregate_id e = aj_aggregate_id j"
    "ae_sequence e = next_sequence j" "entry_id e \<notin> entry_id ` set (aj_entries j)"
    "aj_entries j \<noteq> [] \<longrightarrow> ae_occurred_at (last (aj_entries j)) \<le> ae_occurred_at e"
  shows "audit_journal_ok (j\<lparr>aj_entries := aj_entries j @ [e]\<rparr>)"
proof -
  let ?es = "aj_entries j"
  have srt: "sorted (map ae_occurred_at ?es)" using assms(1) by (simp add: audit_journal_ok_def)
  have "\<forall>x \<in> set ?es. ae_occurred_at x \<le> ae_occurred_at e"
    using sorted_map_last [OF srt] assms(6) by fastforce
  with srt assms show ?thesis by (auto simp: audit_journal_ok_def next_sequence_def sorted_append)
qed

lemma journal_scoped:
  assumes "audit_journal_ok j"
  shows "filter (\<lambda>i. ae_aggregate_type i = aj_aggregate_type j \<and> ae_aggregate_id i = aj_aggregate_id j)
     (aj_entries j @ prior) = aj_entries j @ filter (\<lambda>i. ae_aggregate_type i = aj_aggregate_type j
       \<and> ae_aggregate_id i = aj_aggregate_id j) prior"
  using assms by (simp add: audit_journal_ok_def filter_id_conv)

text \<open>An entry numbered below the next sequence number always meets a stored entry of that number.\<close>

lemma journal_sequence_taken:
  "audit_journal_ok j \<Longrightarrow> 1 \<le> ae_sequence e \<Longrightarrow> ae_sequence e < next_sequence j
     \<Longrightarrow> \<exists>x \<in> set (aj_entries j). ae_sequence x = ae_sequence e"
  using journals.log_member_at [of j "ae_sequence e"] by (simp add: next_sequence_def)

text \<open>The branches of an append to a valid journal, for an entry of its aggregate.\<close>

definition scoped_entries :: "audit_journal \<Rightarrow> audit_entry list \<Rightarrow> audit_entry list" where
  "scoped_entries j prior = aj_entries j @ filter (\<lambda>i. ae_aggregate_type i = aj_aggregate_type j
     \<and> ae_aggregate_id i = aj_aggregate_id j) prior"

lemma append_audit_entry_branches:
  assumes "audit_journal_ok j" "ae_aggregate_type e = aj_aggregate_type j" "ae_aggregate_id e = aj_aggregate_id j"
  shows "append_audit_entry j e prior =
     (if filter (\<lambda>i. entry_id i = entry_id e) (scoped_entries j prior) \<noteq> [] then
        mk_audit_append_resolution
          (if list_ex (\<lambda>i. i \<noteq> e) (filter (\<lambda>i. entry_id i = entry_id e) (scoped_entries j prior))
           then AuditAppend_CONFLICT else AuditAppend_REPLAY_EXISTING) j (entry_id e) (next_sequence j) None
      else if list_ex (\<lambda>i. ae_sequence i = ae_sequence e) (scoped_entries j prior) then
        mk_audit_append_resolution AuditAppend_CONFLICT j (entry_id e) (next_sequence j) None
      else if ae_sequence e > next_sequence j then
        mk_audit_append_resolution AuditAppend_GAP j (entry_id e) (next_sequence j) None
      else if ae_sequence e < next_sequence j then
        mk_audit_append_resolution AuditAppend_STALE j (entry_id e) (next_sequence j) None
      else if aj_entries j \<noteq> [] \<and> ae_occurred_at e < ae_occurred_at (last (aj_entries j)) then
        mk_audit_append_resolution AuditAppend_REJECT j (entry_id e) (next_sequence j)
          (Some ''audit occurred_at regresses the journal'')
      else rbind (mk_audit_journal (aj_aggregate_type j) (aj_aggregate_id j) (aj_entries j @ [e]))
        (\<lambda>next. mk_audit_append_resolution AuditAppend_APPEND next (entry_id e) (next_sequence j) None))"
  using assms(2,3) unfolding append_audit_entry_def Let_def journal_scoped [OF assms(1)] scoped_entries_def
  by (simp only: simp_thms if_True if_False if_distrib [of "\<lambda>d. mk_audit_append_resolution d j (entry_id e)
      (next_sequence j) None"])

lemma mk_audit_journal_extend:
  assumes "audit_journal_ok j" "ae_aggregate_type e = aj_aggregate_type j" "ae_aggregate_id e = aj_aggregate_id j"
    "ae_sequence e = next_sequence j" "\<forall>x \<in> set (aj_entries j). entry_id x \<noteq> entry_id e"
    "aj_entries j \<noteq> [] \<longrightarrow> ae_occurred_at (last (aj_entries j)) \<le> ae_occurred_at e"
  shows "mk_audit_journal (aj_aggregate_type j) (aj_aggregate_id j) (aj_entries j @ [e])
      = Inr (j\<lparr>aj_entries := aj_entries j @ [e]\<rparr>)"
  unfolding mk_audit_journal_Inr using journal_extend [OF assms(1-4)] assms(5,6)
  by (simp add: image_iff) (metis audit_journal.surjective audit_journal.update_convs(3))

text \<open>When an append without outside history is made.\<close>

definition appendable :: "audit_journal \<Rightarrow> audit_entry \<Rightarrow> bool" where
  "appendable j e \<longleftrightarrow> ae_aggregate_type e = aj_aggregate_type j \<and> ae_aggregate_id e = aj_aggregate_id j
     \<and> ae_sequence e = next_sequence j \<and> entry_id e \<notin> entry_id ` set (aj_entries j)
     \<and> (aj_entries j \<noteq> [] \<longrightarrow> ae_occurred_at (last (aj_entries j)) \<le> ae_occurred_at e)"

lemma append_audit_entry_answers:
  assumes ok: "audit_journal_ok j" and seq: "1 \<le> ae_sequence e"
  shows "\<exists>r. append_audit_entry j e prior = Inr r \<and> aa_decision r \<noteq> AuditAppend_STALE
     \<and> (prior = [] \<longrightarrow> (aa_decision r = AuditAppend_APPEND \<longleftrightarrow> appendable j e))"
proof (cases "ae_aggregate_type e = aj_aggregate_type j \<and> ae_aggregate_id e = aj_aggregate_id j")
  case False
  moreover from this have "append_audit_entry j e prior = mk_audit_append_resolution AuditAppend_REJECT j
      (entry_id e) (next_sequence j) (Some ''entry must reference the journal aggregate'')"
    by (simp add: append_audit_entry_def Let_def)
  ultimately show ?thesis by (auto simp: mk_audit_append_resolution_simps appendable_def next_sequence_def)
next
  case True
  have n: "1 \<le> next_sequence j" by (simp add: next_sequence_def)
  note br = append_audit_entry_branches [OF ok, of e prior]
  have taken: "prior = [] \<longrightarrow> ae_sequence e \<noteq> next_sequence j"
    if "list_ex (\<lambda>i. ae_sequence i = ae_sequence e) (scoped_entries j prior)"
    using that journals.log_member_sequence [OF ok]
    by (fastforce simp: list_ex_iff scoped_entries_def next_sequence_def)
  have matched: "prior = [] \<longrightarrow> entry_id e \<in> entry_id ` set (aj_entries j)"
    if "filter (\<lambda>i. entry_id i = entry_id e) (scoped_entries j prior) \<noteq> []"
    using that by (auto simp: filter_empty_conv scoped_entries_def intro: rev_image_eqI)
  have ge: "next_sequence j \<le> ae_sequence e"
    if "\<not> list_ex (\<lambda>i. ae_sequence i = ae_sequence e) (scoped_entries j prior)"
    using that journal_sequence_taken [OF ok seq] by (fastforce simp: list_ex_iff scoped_entries_def)
  have new: "\<forall>x \<in> set (aj_entries j). entry_id x \<noteq> entry_id e"
    if "filter (\<lambda>i. entry_id i = entry_id e) (scoped_entries j prior) = []"
    using that by (auto simp: filter_empty_conv scoped_entries_def)
  show ?thesis
  proof (cases "filter (\<lambda>i. entry_id i = entry_id e) (scoped_entries j prior) = []
      \<and> \<not> list_ex (\<lambda>i. ae_sequence i = ae_sequence e) (scoped_entries j prior)")
    case False
    then show ?thesis
      using True n taken matched by (auto simp: br mk_audit_append_resolution_simps appendable_def)
  next
    case free: True
    then have "next_sequence j \<le> ae_sequence e" "\<forall>x \<in> set (aj_entries j). entry_id x \<noteq> entry_id e"
      using ge new by blast+
    with free True n mk_audit_journal_extend [OF ok] show ?thesis
      by (auto simp: br mk_audit_append_resolution_simps appendable_def not_less)
  qed
qed

section \<open>Properties\<close>

text \<open>C30: the audit journal is append-only and exact. After any appends a valid journal is valid (its
  entries contiguous, of one aggregate, with distinct identities and non-decreasing times) and
  extends what it was. Appending a valid entry always answers; only an append changes the journal,
  and then by exactly that entry; without outside history it appends exactly the entries that are
  new, next in sequence, of this aggregate and not earlier than the last one. A sequence number
  already used by other content is always a conflict, so the stale answer is never given.\<close>

theorem audit_journal_exact:
  assumes "audit_journal_ok j0" and j: "j = serve append_step rs j0" and seq: "1 \<le> ae_sequence e"
  shows "audit_journal_ok j \<and> prefix (aj_entries j0) (aj_entries j)
    \<and> (\<exists>r. append_audit_entry j e prior = Inr r \<and> audit_journal_ok (aa_journal r)
        \<and> aj_entries (aa_journal r)
            = (if aa_decision r = AuditAppend_APPEND then aj_entries j @ [e] else aj_entries j)
        \<and> aa_decision r \<noteq> AuditAppend_STALE
        \<and> (prior = [] \<longrightarrow> (aa_decision r = AuditAppend_APPEND \<longleftrightarrow> appendable j e)))"
proof -
  have ok: "audit_journal_ok j" "prefix (aj_entries j0) (aj_entries j)"
    unfolding j using assms(1) by (simp_all add: journals.machine.serve_inv journals.machine.serve_le)
  obtain r where r: "append_audit_entry j e prior = Inr r" "aa_decision r \<noteq> AuditAppend_STALE"
     "prior = [] \<longrightarrow> (aa_decision r = AuditAppend_APPEND \<longleftrightarrow> appendable j e)"
    using append_audit_entry_answers [OF ok(1) seq, of prior] by blast
  have "aj_entries (aa_journal r) = (if aa_decision r = AuditAppend_APPEND then aj_entries j @ [e] else aj_entries j)"
    "audit_journal_ok (aa_journal r)"
    using append_audit_entry_cases [OF r(1)] ok(1) by auto
  with ok r show ?thesis by blast
qed

definition sample_entry :: "int \<Rightarrow> audit_entry" where
  "sample_entry n = \<lparr>ae_aggregate_type = ''attempt'', ae_aggregate_id = ''a-1'', ae_sequence = n,
     ae_entry_type = Audit_OUTCOME_RECORDED, ae_payload_digest = digest_text ''p'', ae_occurred_at = n,
     ae_actor = ''w'', ae_correlation_id = None\<rparr>"

definition sample_journal :: audit_journal where
  "sample_journal = \<lparr>aj_aggregate_type = ''attempt'', aj_aggregate_id = ''a-1'', aj_entries = []\<rparr>"

lemma sample_journal_ok: "audit_journal_ok sample_journal"
  by (simp add: audit_journal_ok_def sample_journal_def blank_iff py_space_def)

theorem audit_journal_exact_witness:
  "audit_journal_ok sample_journal
   \<and> (\<exists>r. append_audit_entry sample_journal (sample_entry 1) [] = Inr r
        \<and> aa_decision r = AuditAppend_APPEND \<and> aj_entries (aa_journal r) = [sample_entry 1])"
  using audit_journal_exact [OF sample_journal_ok, of sample_journal "[]" "sample_entry 1" "[]"] sample_journal_ok
  by (auto simp: appendable_def next_sequence_def sample_journal_def sample_entry_def)

end
