(* ===== verification/Outbox.thy ===== *)
theory Outbox
  imports Contracts
begin

text \<open>
  \<open>src/backend/app/strategy_lab_v2/outbox.py\<close>: the transactional outbox. A message is staged once per
  request and once per content, is kept in message-id order, and is acknowledged at most once.
\<close>

record outbox_message =
  om_request_id :: string
  om_aggregate_type :: string
  om_aggregate_id :: string
  om_event_id :: string
  om_topic :: string
  om_payload_digest :: string
  om_created_at :: instant
  om_available_at :: instant

definition mk_outbox_message ::
  "string \<Rightarrow> string \<Rightarrow> string \<Rightarrow> string \<Rightarrow> string \<Rightarrow> string \<Rightarrow> datetime \<Rightarrow> datetime \<Rightarrow> outbox_message result" where
  "mk_outbox_message request_id aggregate_type aggregate_id event_id topic payload_digest created_at
       available_at =
     raising
       (digest_checks request_id ''request_id''
        @ digest_checks event_id ''event_id''
        @ digest_checks payload_digest ''payload_digest''
        @ [(blank aggregate_type, ''aggregate_type must not be empty''),
           (blank aggregate_id, ''aggregate_id must not be empty''),
           (blank topic, ''topic must not be empty'')])
       (with_aware created_at ''created_at must be timezone-aware'' (\<lambda>created.
        with_aware available_at ''available_at must be timezone-aware'' (\<lambda>available.
        raising [(available < created, ''available_at must not precede created_at'')]
          (Inr \<lparr>om_request_id = request_id, om_aggregate_type = aggregate_type,
                om_aggregate_id = aggregate_id, om_event_id = event_id, om_topic = topic,
                om_payload_digest = payload_digest, om_created_at = created,
                om_available_at = available\<rparr>))))"

definition message_id :: "outbox_message \<Rightarrow> string" where
  "message_id m = digest (PMapping
     [(''aggregate_id'', PStr (om_aggregate_id m)),
      (''aggregate_type'', PStr (om_aggregate_type m)),
      (''event_id'', PStr (om_event_id m)),
      (''payload_digest'', PStr (om_payload_digest m)),
      (''topic'', PStr (om_topic m))])"

record outbox_state =
  ox_messages :: "outbox_message list"
  ox_published :: "string set"

text \<open>The loop of \<open>OutboxState.__post_init__\<close>, with the identities and requests met so far.\<close>

fun outbox_loop :: "outbox_message list \<Rightarrow> string set \<Rightarrow> string set \<Rightarrow> string set result" where
  "outbox_loop [] identities requests = Inr identities"
| "outbox_loop (m # ms) identities requests =
     raising
       [(message_id m \<in> identities, ''outbox messages must have unique content identities''),
        (om_request_id m \<in> requests, ''outbox messages must have unique request identities'')]
       (outbox_loop ms (insert (message_id m) identities) (insert (om_request_id m) requests))"

definition mk_outbox_state :: "outbox_message list \<Rightarrow> string set \<Rightarrow> outbox_state result" where
  "mk_outbox_state messages published =
     rbind (outbox_loop messages {} {}) (\<lambda>identities.
       raising
         [(sort_key message_id messages \<noteq> messages, ''outbox messages must be deterministically ordered''),
          (\<not> published \<subseteq> identities, ''published messages must exist in the outbox'')]
         (Inr \<lparr>ox_messages = messages, ox_published = published\<rparr>))"

definition pending_messages :: "outbox_state \<Rightarrow> outbox_message list" where
  "pending_messages s =
     sort_key om_available_at
       (sort_key message_id (filter (\<lambda>m. message_id m \<notin> ox_published s) (ox_messages s)))"

datatype outbox_enqueue_decision =
    Enqueue_ENQUEUE | Enqueue_REPLAY_EXISTING | Enqueue_CONFLICT | Enqueue_REJECT

record outbox_enqueue_resolution =
  oe_decision :: outbox_enqueue_decision
  oe_state :: outbox_state
  oe_message_id :: string
  oe_rejection_reason :: "string option"

definition mk_outbox_enqueue_resolution ::
  "outbox_enqueue_decision \<Rightarrow> outbox_state \<Rightarrow> string \<Rightarrow> string option \<Rightarrow> outbox_enqueue_resolution result"
where
  "mk_outbox_enqueue_resolution decision state mid reason =
     raising
       (digest_checks mid ''message_id''
        @ [(decision = Enqueue_REJECT \<and> (reason = None \<or> reason = Some []),
              ''rejected enqueue resolutions require a reason''),
           (decision \<noteq> Enqueue_REJECT \<and> \<not> (reason = None \<or> reason = Some []),
              ''successful enqueue resolutions cannot contain a reason'')])
       (Inr \<lparr>oe_decision = decision, oe_state = state, oe_message_id = mid, oe_rejection_reason = reason\<rparr>)"

datatype outbox_ack_decision = Ack_ACKNOWLEDGED | Ack_REPLAY_EXISTING | Ack_REJECT

record outbox_ack_resolution =
  oa_decision :: outbox_ack_decision
  oa_state :: outbox_state
  oa_message_id :: string
  oa_rejection_reason :: "string option"

definition mk_outbox_ack_resolution ::
  "outbox_ack_decision \<Rightarrow> outbox_state \<Rightarrow> string \<Rightarrow> string option \<Rightarrow> outbox_ack_resolution result" where
  "mk_outbox_ack_resolution decision state mid reason =
     raising
       (digest_checks mid ''message_id''
        @ [(decision = Ack_REJECT \<and> (reason = None \<or> reason = Some []),
              ''rejected acknowledgement resolutions require a reason''),
           (decision \<noteq> Ack_REJECT \<and> \<not> (reason = None \<or> reason = Some []),
              ''successful acknowledgement resolutions cannot contain a reason'')])
       (Inr \<lparr>oa_decision = decision, oa_state = state, oa_message_id = mid, oa_rejection_reason = reason\<rparr>)"

definition resolve_outbox_enqueue ::
  "outbox_state \<Rightarrow> outbox_message \<Rightarrow> outbox_message list \<Rightarrow> outbox_enqueue_resolution result" where
  "resolve_outbox_enqueue state message prior_messages =
     (let existing = ox_messages state @ prior_messages
      in case filter (\<lambda>i. om_request_id i = om_request_id message) existing of
           r # rs \<Rightarrow>
             if list_ex (\<lambda>i. message_id i \<noteq> message_id message) (r # rs)
             then mk_outbox_enqueue_resolution Enqueue_CONFLICT state (message_id message) None
             else mk_outbox_enqueue_resolution Enqueue_REPLAY_EXISTING state (message_id r) None
         | [] \<Rightarrow>
             (case filter (\<lambda>i. message_id i = message_id message) existing of
                c # cs \<Rightarrow> mk_outbox_enqueue_resolution Enqueue_REPLAY_EXISTING state (message_id c) None
              | [] \<Rightarrow>
                  rbind (mk_outbox_state (sort_key message_id (ox_messages state @ [message]))
                           (ox_published state))
                    (\<lambda>next. mk_outbox_enqueue_resolution Enqueue_ENQUEUE next (message_id message) None)))"

definition acknowledge_outbox_message :: "outbox_state \<Rightarrow> string \<Rightarrow> outbox_ack_resolution result" where
  "acknowledge_outbox_message state mid =
     raising (digest_checks mid ''message_id'')
       (if mid \<notin> message_id ` set (ox_messages state) then
          mk_outbox_ack_resolution Ack_REJECT state mid (Some ''message is not present in the outbox'')
        else if mid \<in> ox_published state then
          mk_outbox_ack_resolution Ack_REPLAY_EXISTING state mid None
        else
          rbind (mk_outbox_state (ox_messages state) (ox_published state \<union> {mid}))
            (\<lambda>next. mk_outbox_ack_resolution Ack_ACKNOWLEDGED next mid None))"

section \<open>Invariant and requests\<close>

definition outbox_ok :: "outbox_state \<Rightarrow> bool" where
  "outbox_ok s \<longleftrightarrow> distinct (map message_id (ox_messages s)) \<and> distinct (map om_request_id (ox_messages s))
     \<and> sorted (map message_id (ox_messages s)) \<and> ox_published s \<subseteq> message_id ` set (ox_messages s)"

text \<open>Messages and acknowledgements are never lost.\<close>

definition outbox_le :: "outbox_state \<Rightarrow> outbox_state \<Rightarrow> bool" where
  "outbox_le s t \<longleftrightarrow> set (ox_messages s) \<subseteq> set (ox_messages t) \<and> ox_published s \<subseteq> ox_published t"

datatype outbox_request = Stage outbox_message "outbox_message list" | Acknowledge string

fun outbox_step :: "outbox_request \<Rightarrow> outbox_state \<Rightarrow> outbox_state result" where
  "outbox_step (Stage m prior) s = rbind (resolve_outbox_enqueue s m prior) (\<lambda>r. Inr (oe_state r))"
| "outbox_step (Acknowledge mid) s = rbind (acknowledge_outbox_message s mid) (\<lambda>r. Inr (oa_state r))"

lemma message_id_digest [simp]: "is_digest (message_id m)"
  by (simp add: message_id_def is_digest_digest)

lemma outbox_loop_Inr:
  "outbox_loop ms ids rqs = Inr out \<longleftrightarrow>
     out = ids \<union> message_id ` set ms \<and> distinct (map message_id ms) \<and> distinct (map om_request_id ms)
     \<and> message_id ` set ms \<inter> ids = {} \<and> om_request_id ` set ms \<inter> rqs = {}"
proof (induction ms arbitrary: ids rqs)
  case (Cons m ms)
  show ?case by (simp add: contract_simps Cons.IH) blast
qed auto

lemma sort_key_self: "sort_key f xs = xs \<longleftrightarrow> sorted (map f xs)"
  by (metis sort_key_id_if_sorted sorted_sort_key)

lemma mk_outbox_state_Inr:
  "mk_outbox_state ms pub = Inr s \<longleftrightarrow> s = \<lparr>ox_messages = ms, ox_published = pub\<rparr> \<and> outbox_ok s"
  by (auto simp: mk_outbox_state_def contract_simps outbox_loop_Inr outbox_ok_def sort_key_self)

lemma enqueue_resolution_simps:
  "is_digest mid \<Longrightarrow> d \<noteq> Enqueue_REJECT \<Longrightarrow> mk_outbox_enqueue_resolution d s mid None
     = Inr \<lparr>oe_decision = d, oe_state = s, oe_message_id = mid, oe_rejection_reason = None\<rparr>"
  by (simp add: mk_outbox_enqueue_resolution_def contract_simps)

lemma ack_resolution_simps:
  "is_digest mid \<Longrightarrow> d \<noteq> Ack_REJECT \<Longrightarrow> mk_outbox_ack_resolution d s mid None
     = Inr \<lparr>oa_decision = d, oa_state = s, oa_message_id = mid, oa_rejection_reason = None\<rparr>"
  "is_digest mid \<Longrightarrow> m \<noteq> [] \<Longrightarrow> mk_outbox_ack_resolution Ack_REJECT s mid (Some m)
     = Inr \<lparr>oa_decision = Ack_REJECT, oa_state = s, oa_message_id = mid, oa_rejection_reason = Some m\<rparr>"
  by (simp_all add: mk_outbox_ack_resolution_def contract_simps)

definition staged :: "outbox_state \<Rightarrow> outbox_message \<Rightarrow> outbox_state" where
  "staged s m = s\<lparr>ox_messages := sort_key message_id (ox_messages s @ [m])\<rparr>"

lemma staged_ok:
  assumes "outbox_ok s" "message_id m \<notin> message_id ` set (ox_messages s)"
    "om_request_id m \<notin> om_request_id ` set (ox_messages s)"
  shows "outbox_ok (staged s m)"
proof -
  have "distinct (map f (sort_key message_id (ox_messages s @ [m])))"
    if "distinct (map f (ox_messages s @ [m]))" for f :: "outbox_message \<Rightarrow> string"
    using that by (auto simp: distinct_map)
  with assms show ?thesis by (auto simp: outbox_ok_def staged_def simp del: sort_key_simps)
qed

lemma resolve_outbox_enqueue_total:
  assumes "outbox_ok s"
  shows "\<exists>r. resolve_outbox_enqueue s m prior = Inr r
     \<and> (oe_decision r = Enqueue_ENQUEUE \<longleftrightarrow>
          (\<forall>x \<in> set (ox_messages s @ prior). om_request_id x \<noteq> om_request_id m \<and> message_id x \<noteq> message_id m))
     \<and> oe_state r = (if oe_decision r = Enqueue_ENQUEUE then staged s m else s)
     \<and> (oe_decision r = Enqueue_CONFLICT \<longleftrightarrow>
          (\<exists>x \<in> set (ox_messages s @ prior). om_request_id x = om_request_id m \<and> message_id x \<noteq> message_id m))
     \<and> oe_decision r \<noteq> Enqueue_REJECT \<and> oe_message_id r = message_id m" (is "\<exists>r. ?P r")
proof -
  let ?all = "ox_messages s @ prior"
  let ?req = "filter (\<lambda>i. om_request_id i = om_request_id m) ?all"
  let ?con = "filter (\<lambda>i. message_id i = message_id m) ?all"
  have req: "x \<in> set ?req \<longleftrightarrow> x \<in> set ?all \<and> om_request_id x = om_request_id m" for x by auto
  have con: "x \<in> set ?con \<longleftrightarrow> x \<in> set ?all \<and> message_id x = message_id m" for x by auto
  show ?thesis
  proof (cases ?req)
    case (Cons r rs)
    have mem: "x \<in> set (r # rs) \<longleftrightarrow> x \<in> set ?all \<and> om_request_id x = om_request_id m" for x
      using req unfolding Cons .
    have "resolve_outbox_enqueue s m prior =
        (if list_ex (\<lambda>i. message_id i \<noteq> message_id m) (r # rs)
         then mk_outbox_enqueue_resolution Enqueue_CONFLICT s (message_id m) None
         else mk_outbox_enqueue_resolution Enqueue_REPLAY_EXISTING s (message_id r) None)"
      unfolding resolve_outbox_enqueue_def Let_def Cons by (simp only: list.case)
    moreover have "list_ex (\<lambda>i. message_id i \<noteq> message_id m) (r # rs) \<longleftrightarrow>
        (\<exists>x \<in> set ?all. om_request_id x = om_request_id m \<and> message_id x \<noteq> message_id m)"
      unfolding list_ex_iff using mem by blast
    moreover have "r \<in> set ?all" "om_request_id r = om_request_id m" using mem [of r] by auto
    ultimately show ?thesis by (auto simp: enqueue_resolution_simps)
  next
    case Nil
    then have none: "\<forall>x \<in> set ?all. om_request_id x \<noteq> om_request_id m" using req by (metis empty_iff empty_set)
    show ?thesis
    proof (cases ?con)
      case (Cons c cs)
      then have "c \<in> set ?all" "message_id c = message_id m" using con [of c] by auto
      moreover have "resolve_outbox_enqueue s m prior
          = mk_outbox_enqueue_resolution Enqueue_REPLAY_EXISTING s (message_id c) None"
        unfolding resolve_outbox_enqueue_def Let_def Nil Cons by (simp only: list.case)
      ultimately show ?thesis using none by (auto simp: enqueue_resolution_simps)
    next
      case no_content: Nil
      then have new: "\<forall>x \<in> set ?all. message_id x \<noteq> message_id m" using con by (metis empty_iff empty_set)
      have "outbox_ok (staged s m)" using assms none new by (intro staged_ok) auto
      then have "mk_outbox_state (sort_key message_id (ox_messages s @ [m])) (ox_published s) = Inr (staged s m)"
        by (simp add: mk_outbox_state_Inr staged_def)
      then have "resolve_outbox_enqueue s m prior
          = mk_outbox_enqueue_resolution Enqueue_ENQUEUE (staged s m) (message_id m) None"
        unfolding resolve_outbox_enqueue_def Let_def Nil no_content by simp
      with none new show ?thesis by (auto simp: enqueue_resolution_simps)
    qed
  qed
qed

lemma acknowledge_total:
  assumes "outbox_ok s" "is_digest mid"
  shows "\<exists>r. acknowledge_outbox_message s mid = Inr r
     \<and> (oa_decision r = Ack_ACKNOWLEDGED \<longleftrightarrow> mid \<in> message_id ` set (ox_messages s) - ox_published s)
     \<and> (oa_decision r = Ack_REJECT \<longleftrightarrow> mid \<notin> message_id ` set (ox_messages s))
     \<and> oa_state r = (if oa_decision r = Ack_ACKNOWLEDGED then s\<lparr>ox_published := insert mid (ox_published s)\<rparr> else s)"
proof -
  have "mk_outbox_state (ox_messages s) (insert mid (ox_published s)) = Inr (s\<lparr>ox_published := insert mid (ox_published s)\<rparr>)"
    if "mid \<in> message_id ` set (ox_messages s)"
    using that assms(1) by (simp add: mk_outbox_state_Inr outbox_ok_def)
  with assms show ?thesis
    by (auto simp: acknowledge_outbox_message_def digest_checks_def is_digest_def raising.simps
        ack_resolution_simps [unfolded is_digest_def])
qed

lemma outbox_step_keeps:
  assumes "outbox_ok s" "outbox_step r s = Inr t"
  shows "outbox_ok t \<and> outbox_le s t"
proof (cases r)
  case (Stage m prior)
  from resolve_outbox_enqueue_total [OF assms(1), of m prior] obtain q where
    "resolve_outbox_enqueue s m prior = Inr q"
    "oe_decision q = Enqueue_ENQUEUE \<longleftrightarrow>
       (\<forall>x \<in> set (ox_messages s @ prior). om_request_id x \<noteq> om_request_id m \<and> message_id x \<noteq> message_id m)"
    "oe_state q = (if oe_decision q = Enqueue_ENQUEUE then staged s m else s)" by blast
  moreover have "outbox_le s (staged s m)" by (auto simp: outbox_le_def staged_def)
  moreover have "outbox_ok (staged s m)" if "oe_decision q = Enqueue_ENQUEUE"
    using that calculation(2) by (intro staged_ok assms(1)) auto
  ultimately show ?thesis
    using assms Stage by (cases "oe_decision q = Enqueue_ENQUEUE") (auto simp: outbox_le_def)
next
  case (Acknowledge mid)
  with assms(2) have "is_digest mid" by (auto simp: acknowledge_outbox_message_def contract_simps)
  from acknowledge_total [OF assms(1) this] Acknowledge assms show ?thesis
    by (auto simp: outbox_le_def outbox_ok_def split: if_splits)
qed

interpretation outbox: guarded_machine outbox_step outbox_ok outbox_le
proof
  fix s r s'
  assume "outbox_ok s" "outbox_step r s = Inr s'"
  then show "outbox_ok s'" "outbox_le s s'" using outbox_step_keeps by blast+
qed (auto simp: outbox_le_def)

lemma acknowledged_pending:
  assumes "outbox_ok s" "x \<in> set (ox_messages s)"
  shows "\<exists>a. acknowledge_outbox_message s (message_id x) = Inr a
     \<and> set (pending_messages (oa_state a)) = set (pending_messages s) - {x}
     \<and> (\<exists>b. acknowledge_outbox_message (oa_state a) (message_id x) = Inr b
          \<and> oa_decision b = Ack_REPLAY_EXISTING \<and> oa_state b = oa_state a)"
proof -
  obtain a where a: "acknowledge_outbox_message s (message_id x) = Inr a"
    "oa_decision a = Ack_ACKNOWLEDGED \<longleftrightarrow> message_id x \<in> message_id ` set (ox_messages s) - ox_published s"
    "oa_state a = (if oa_decision a = Ack_ACKNOWLEDGED
       then s\<lparr>ox_published := insert (message_id x) (ox_published s)\<rparr> else s)"
    using acknowledge_total [OF assms(1) message_id_digest] by blast
  then have t: "oa_state a = s\<lparr>ox_published := insert (message_id x) (ox_published s)\<rparr>"
    using assms(2) by (cases "message_id x \<in> ox_published s") (auto simp: insert_absorb)
  have "outbox_ok (oa_state a)"
    using outbox_step_keeps [OF assms(1), of "Acknowledge (message_id x)"] a(1) by simp
  from acknowledge_total [OF this message_id_digest [of x]] obtain b where
    "acknowledge_outbox_message (oa_state a) (message_id x) = Inr b"
    "oa_decision b = Ack_ACKNOWLEDGED \<longleftrightarrow>
       message_id x \<in> message_id ` set (ox_messages (oa_state a)) - ox_published (oa_state a)"
    "oa_decision b = Ack_REJECT \<longleftrightarrow> message_id x \<notin> message_id ` set (ox_messages (oa_state a))"
    "oa_state b = (if oa_decision b = Ack_ACKNOWLEDGED then (oa_state a)\<lparr>ox_published :=
       insert (message_id x) (ox_published (oa_state a))\<rparr> else oa_state a)" by blast
  then have "\<exists>b. acknowledge_outbox_message (oa_state a) (message_id x) = Inr b
      \<and> oa_decision b = Ack_REPLAY_EXISTING \<and> oa_state b = oa_state a"
    using assms(2) t by (cases "oa_decision b") auto
  moreover have "set (pending_messages (oa_state a)) = set (pending_messages s) - {x}"
    using assms t by (auto simp: pending_messages_def outbox_ok_def distinct_map inj_on_def)
  ultimately show ?thesis using a(1) by blast
qed

lemma staged_again:
  assumes "outbox_ok (staged s m)"
  shows "\<exists>q. resolve_outbox_enqueue (staged s m) m [] = Inr q
     \<and> oe_decision q = Enqueue_REPLAY_EXISTING \<and> oe_state q = staged s m"
proof -
  obtain q where q: "resolve_outbox_enqueue (staged s m) m [] = Inr q"
    "oe_decision q = Enqueue_ENQUEUE \<longleftrightarrow> (\<forall>x \<in> set (ox_messages (staged s m) @ []).
       om_request_id x \<noteq> om_request_id m \<and> message_id x \<noteq> message_id m)"
    "oe_state q = (if oe_decision q = Enqueue_ENQUEUE then staged (staged s m) m else staged s m)"
    "oe_decision q = Enqueue_CONFLICT \<longleftrightarrow> (\<exists>x \<in> set (ox_messages (staged s m) @ []).
       om_request_id x = om_request_id m \<and> message_id x \<noteq> message_id m)" "oe_decision q \<noteq> Enqueue_REJECT"
    using resolve_outbox_enqueue_total [OF assms, of m "[]"] by blast
  have m: "m \<in> set (ox_messages (staged s m))" by (simp add: staged_def)
  have "x = m" if "x \<in> set (ox_messages (staged s m))" "om_request_id x = om_request_id m" for x
    using that m assms unfolding outbox_ok_def distinct_map inj_on_def by blast
  then have "oe_decision q \<noteq> Enqueue_CONFLICT" using q(4) by fastforce
  moreover have "oe_decision q \<noteq> Enqueue_ENQUEUE" using q(2) m by auto
  ultimately have "oe_decision q = Enqueue_REPLAY_EXISTING" using q(5) by (cases "oe_decision q") auto
  with q(1,3) show ?thesis by simp
qed

section \<open>Properties\<close>

text \<open>C29: the outbox neither loses nor duplicates. After any staging and acknowledgements a valid outbox
  is valid (message and request ids unique, message-id order, only known messages acknowledged) and
  keeps everything it had. Staging always answers: a message is stored exactly when neither its
  request nor its content is known, a request reused for other content is a conflict, and staging
  the same message again is a replay without effect. Acknowledging a known message always succeeds
  and takes exactly that message off the pending ones; doing it again changes nothing.\<close>

theorem outbox_exactly_once:
  assumes "outbox_ok s0" and s: "s = serve outbox_step rs s0"
  shows "outbox_ok s \<and> outbox_le s0 s
     \<and> (\<exists>r. resolve_outbox_enqueue s m prior = Inr r
        \<and> (oe_decision r = Enqueue_ENQUEUE \<longleftrightarrow> (\<forall>x \<in> set (ox_messages s @ prior).
             om_request_id x \<noteq> om_request_id m \<and> message_id x \<noteq> message_id m))
        \<and> (oe_decision r = Enqueue_CONFLICT \<longleftrightarrow> (\<exists>x \<in> set (ox_messages s @ prior).
             om_request_id x = om_request_id m \<and> message_id x \<noteq> message_id m))
        \<and> set (ox_messages (oe_state r)) = set (ox_messages s)
             \<union> (if oe_decision r = Enqueue_ENQUEUE then {m} else {})
        \<and> (oe_decision r = Enqueue_ENQUEUE \<longrightarrow>
             (\<exists>q. resolve_outbox_enqueue (oe_state r) m [] = Inr q
                \<and> oe_decision q = Enqueue_REPLAY_EXISTING \<and> oe_state q = oe_state r)))
     \<and> (\<forall>x \<in> set (ox_messages s). \<exists>a. acknowledge_outbox_message s (message_id x) = Inr a
        \<and> set (pending_messages (oa_state a)) = set (pending_messages s) - {x}
        \<and> (\<exists>b. acknowledge_outbox_message (oa_state a) (message_id x) = Inr b
             \<and> oa_decision b = Ack_REPLAY_EXISTING \<and> oa_state b = oa_state a))"
proof -
  have ok: "outbox_ok s" "outbox_le s0 s"
    unfolding s using assms(1) by (simp_all add: outbox.serve_inv outbox.serve_le)
  obtain r where r: "resolve_outbox_enqueue s m prior = Inr r"
    "oe_decision r = Enqueue_ENQUEUE \<longleftrightarrow> (\<forall>x \<in> set (ox_messages s @ prior).
             om_request_id x \<noteq> om_request_id m \<and> message_id x \<noteq> message_id m)"
    "oe_state r = (if oe_decision r = Enqueue_ENQUEUE then staged s m else s)"
    "oe_decision r = Enqueue_CONFLICT \<longleftrightarrow> (\<exists>x \<in> set (ox_messages s @ prior).
             om_request_id x = om_request_id m \<and> message_id x \<noteq> message_id m)"
    using resolve_outbox_enqueue_total [OF ok(1), of m prior] by blast
  have enq: "outbox_ok (staged s m)" if "oe_decision r = Enqueue_ENQUEUE"
    using that r(2) by (intro staged_ok ok(1)) auto
  have "set (ox_messages (oe_state r)) = set (ox_messages s)
             \<union> (if oe_decision r = Enqueue_ENQUEUE then {m} else {})"
    by (simp add: r(3) staged_def)
  moreover have "oe_decision r = Enqueue_ENQUEUE \<longrightarrow>
             (\<exists>q. resolve_outbox_enqueue (oe_state r) m [] = Inr q
                \<and> oe_decision q = Enqueue_REPLAY_EXISTING \<and> oe_state q = oe_state r)"
    using enq staged_again r(3) by simp
  moreover have "\<forall>x \<in> set (ox_messages s). \<exists>a. acknowledge_outbox_message s (message_id x) = Inr a
        \<and> set (pending_messages (oa_state a)) = set (pending_messages s) - {x}
        \<and> (\<exists>b. acknowledge_outbox_message (oa_state a) (message_id x) = Inr b
             \<and> oa_decision b = Ack_REPLAY_EXISTING \<and> oa_state b = oa_state a)"
    using acknowledged_pending [OF ok(1)] by blast
  ultimately show ?thesis using ok r by blast
qed

definition empty_outbox :: outbox_state where
  "empty_outbox = \<lparr>ox_messages = [], ox_published = {}\<rparr>"

definition sample_message :: outbox_message where
  "sample_message = \<lparr>om_request_id = digest_text ''r'', om_aggregate_type = ''attempt'',
     om_aggregate_id = ''a-1'', om_event_id = digest_text ''e'', om_topic = ''t'',
     om_payload_digest = digest_text ''p'', om_created_at = 0, om_available_at = 0\<rparr>"

lemma empty_outbox_ok: "outbox_ok empty_outbox"
  by (simp add: outbox_ok_def empty_outbox_def)

theorem outbox_exactly_once_witness:
  "outbox_ok empty_outbox
   \<and> (\<exists>r. resolve_outbox_enqueue empty_outbox sample_message [] = Inr r \<and> oe_decision r = Enqueue_ENQUEUE
        \<and> set (ox_messages (oe_state r)) = {sample_message})"
  using outbox_exactly_once [OF empty_outbox_ok, of empty_outbox "[]" sample_message "[]"] empty_outbox_ok
  by (auto simp: empty_outbox_def)

end
