(* ===== verification/Audit_Outbox.thy ===== *)
theory Audit_Outbox
  imports Audit_Journal Outbox
begin

text \<open>
  \<open>src/backend/app/strategy_lab_v2/audit_outbox.py\<close>: staging an audit entry and the outbox message that
  announces it as one step, over the journal of Audit_Journal and the outbox of Outbox.
\<close>

datatype audit_outbox_decision = Link_COMMIT | Link_REPLAY_EXISTING | Link_GAP | Link_CONFLICT | Link_REJECT

record audit_outbox_resolution =
  al_decision :: audit_outbox_decision
  al_journal :: audit_journal
  al_outbox :: outbox_state
  al_audit_entry_id :: string
  al_message_id :: string
  al_rejection_reason :: "string option"

definition mk_audit_outbox_resolution ::
  "audit_outbox_decision \<Rightarrow> audit_journal \<Rightarrow> outbox_state \<Rightarrow> string \<Rightarrow> string \<Rightarrow> string option
     \<Rightarrow> audit_outbox_resolution result" where
  "mk_audit_outbox_resolution decision journal outbox eid mid reason =
     raising
       (digest_checks eid ''audit_entry_id'' @ digest_checks mid ''message_id''
        @ [(decision \<in> {Link_GAP, Link_CONFLICT, Link_REJECT} \<and> (reason = None \<or> reason = Some []),
              ''non-committing resolutions require a reason''),
           (decision \<in> {Link_COMMIT, Link_REPLAY_EXISTING} \<and> \<not> (reason = None \<or> reason = Some []),
              ''successful resolutions cannot contain a reason'')])
       (Inr \<lparr>al_decision = decision, al_journal = journal, al_outbox = outbox, al_audit_entry_id = eid,
             al_message_id = mid, al_rejection_reason = reason\<rparr>)"

text \<open>\<open>_failed\<close> on the decisions of the two sides.\<close>

fun failed_audit :: "audit_append_decision \<Rightarrow> audit_outbox_decision option" where
  "failed_audit AuditAppend_GAP = Some Link_GAP"
| "failed_audit AuditAppend_CONFLICT = Some Link_CONFLICT"
| "failed_audit AuditAppend_REJECT = Some Link_REJECT"
| "failed_audit d = None"

fun failed_enqueue :: "outbox_enqueue_decision \<Rightarrow> audit_outbox_decision option" where
  "failed_enqueue Enqueue_REJECT = Some Link_REJECT"
| "failed_enqueue Enqueue_CONFLICT = Some Link_CONFLICT"
| "failed_enqueue d = None"

definition stage_audit_outbox ::
  "audit_journal \<Rightarrow> audit_entry \<Rightarrow> outbox_state \<Rightarrow> outbox_message \<Rightarrow> audit_entry list \<Rightarrow> outbox_message list
     \<Rightarrow> audit_outbox_resolution result" where
  "stage_audit_outbox journal entry outbox message prior_entries prior_messages =
     (let eid = entry_id entry; mid = message_id message
      in if om_event_id message \<noteq> eid then
           mk_audit_outbox_resolution Link_REJECT journal outbox eid mid
             (Some ''outbox event identity must match the audit entry'')
         else
           rbind (append_audit_entry journal entry prior_entries) (\<lambda>audit.
           rbind (resolve_outbox_enqueue outbox message prior_messages) (\<lambda>staged.
             let fa = failed_audit (aa_decision audit); fo = failed_enqueue (oe_decision staged)
             in case (if fa \<noteq> None then fa else fo) of
                  Some failure \<Rightarrow>
                    mk_audit_outbox_resolution failure journal outbox eid mid
                      (Some (if fa \<noteq> None then ''audit append cannot be staged'' else ''outbox enqueue cannot be staged''))
                | None \<Rightarrow>
                    if aa_decision audit = AuditAppend_REPLAY_EXISTING \<and> oe_decision staged = Enqueue_REPLAY_EXISTING
                    then mk_audit_outbox_resolution Link_REPLAY_EXISTING journal outbox eid mid None
                    else mk_audit_outbox_resolution Link_COMMIT (aa_journal audit) (oe_state staged) eid mid None)))"

section \<open>Linked states\<close>

text \<open>A journal and an outbox are linked when every entry has been announced: a message for it is stored.\<close>

type_synonym linked_state = "audit_journal \<times> outbox_state"

definition announced :: "outbox_state \<Rightarrow> audit_entry \<Rightarrow> bool" where
  "announced ob e \<longleftrightarrow> (\<exists>m. om_event_id m = entry_id e \<and> message_id m \<in> message_id ` set (ox_messages ob))"

fun linked_ok :: "linked_state \<Rightarrow> bool" where
  "linked_ok (j, ob) \<longleftrightarrow> audit_journal_ok j \<and> outbox_ok ob \<and> (\<forall>e \<in> set (aj_entries j). announced ob e)"

fun linked_le :: "linked_state \<Rightarrow> linked_state \<Rightarrow> bool" where
  "linked_le (j, ob) (k, pb) \<longleftrightarrow> prefix (aj_entries j) (aj_entries k) \<and> outbox_le ob pb"

fun stage_step :: "audit_entry \<times> outbox_message \<Rightarrow> linked_state \<Rightarrow> linked_state result" where
  "stage_step (e, m) (j, ob) = rbind (stage_audit_outbox j e ob m [] []) (\<lambda>r. Inr (al_journal r, al_outbox r))"

lemma mk_audit_outbox_resolution_Inr:
  "mk_audit_outbox_resolution d j ob eid mid m = Inr r \<Longrightarrow> al_decision r = d \<and> al_journal r = j \<and> al_outbox r = ob"
  by (auto simp: mk_audit_outbox_resolution_def raising_Inr_iff)

lemma mk_audit_outbox_resolution_answers:
  assumes "is_digest eid" "is_digest mid" "d \<in> {Link_COMMIT, Link_REPLAY_EXISTING} \<longleftrightarrow> m = None" "m \<noteq> Some []"
  shows "\<exists>r. mk_audit_outbox_resolution d j ob eid mid m = Inr r \<and> al_decision r = d \<and> al_journal r = j \<and> al_outbox r = ob"
  using assms by (cases d) (auto simp: mk_audit_outbox_resolution_def raising_Inr_iff digest_checks_def is_digest_def)

lemma failed_audit_cases: "d \<noteq> AuditAppend_STALE \<Longrightarrow>
    failed_audit d = None \<longleftrightarrow> d \<in> {AuditAppend_APPEND, AuditAppend_REPLAY_EXISTING}"
  by (cases d) auto

lemma failed_enqueue_cases: "failed_enqueue d = None \<longleftrightarrow> d \<in> {Enqueue_ENQUEUE, Enqueue_REPLAY_EXISTING}"
  by (cases d) auto

lemma failed_decisions:
  "failed_audit d = Some x \<Longrightarrow> x \<notin> {Link_COMMIT, Link_REPLAY_EXISTING}"
  "failed_enqueue d' = Some x \<Longrightarrow> x \<notin> {Link_COMMIT, Link_REPLAY_EXISTING}"
  by (cases d; auto) (cases d'; auto)

lemma append_replay_member:
  assumes ok: "audit_journal_ok j" and r: "append_audit_entry j e [] = Inr r" "aa_decision r = AuditAppend_REPLAY_EXISTING"
  shows "e \<in> set (aj_entries j)"
proof -
  let ?M = "filter (\<lambda>i. entry_id i = entry_id e) (scoped_entries j [])"
  have "ae_aggregate_type e = aj_aggregate_type j \<and> ae_aggregate_id e = aj_aggregate_id j"
  proof (rule ccontr)
    assume "\<not> ?thesis"
    then have "append_audit_entry j e [] = mk_audit_append_resolution AuditAppend_REJECT j
        (entry_id e) (next_sequence j) (Some ''entry must reference the journal aggregate'')"
      by (simp add: append_audit_entry_def Let_def)
    with r show False by (auto dest!: mk_audit_append_resolution_Inr)
  qed
  then have agg: "ae_aggregate_type e = aj_aggregate_type j" "ae_aggregate_id e = aj_aggregate_id j" by simp_all
  note br = append_audit_entry_branches [OF ok agg, of "[]"]
  have "?M \<noteq> []"
  proof
    assume "?M = []"
    then have "\<not> ?M \<noteq> []" by simp
    from r(1) [unfolded br if_not_P [OF this]] r(2) show False
      by (cases "list_ex (\<lambda>i. ae_sequence i = ae_sequence e) (scoped_entries j [])")
        (auto dest!: mk_audit_append_resolution_Inr split: if_split_asm)
  qed
  then have "hd ?M \<in> set ?M" by (rule hd_in_set)
  moreover have "\<not> list_ex (\<lambda>i. i \<noteq> e) ?M"
  proof
    assume "list_ex (\<lambda>i. i \<noteq> e) ?M"
    from r(1) [unfolded br if_P [OF \<open>?M \<noteq> []\<close>] if_P [OF this]] r(2) show False
      by (auto dest!: mk_audit_append_resolution_Inr)
  qed
  ultimately have "e \<in> set ?M" unfolding list_ex_iff by metis
  then show ?thesis by (simp add: scoped_entries_def)
qed

text \<open>Staging answers in one of three ways: nothing changes and a failure is reported, nothing changes and
  both sides are replays, or both sides hold the pair afterwards.\<close>

lemma stage_audit_outbox_answers:
  assumes ok: "audit_journal_ok j" "outbox_ok ob" and seq: "1 \<le> ae_sequence e"
  shows "\<exists>r. stage_audit_outbox j e ob m pe pm = Inr r
    \<and> (al_decision r \<noteq> Link_COMMIT \<longrightarrow> al_journal r = j \<and> al_outbox r = ob)
    \<and> (al_decision r = Link_COMMIT \<longrightarrow> om_event_id m = entry_id e
         \<and> (\<exists>a s. append_audit_entry j e pe = Inr a \<and> resolve_outbox_enqueue ob m pm = Inr s
              \<and> al_journal r = aa_journal a \<and> al_outbox r = oe_state s
              \<and> aa_decision a \<in> {AuditAppend_APPEND, AuditAppend_REPLAY_EXISTING}
              \<and> oe_decision s \<in> {Enqueue_ENQUEUE, Enqueue_REPLAY_EXISTING}
              \<and> (aa_decision a = AuditAppend_APPEND \<or> oe_decision s = Enqueue_ENQUEUE)))"
proof (cases "om_event_id m = entry_id e")
  case False
  obtain r where "mk_audit_outbox_resolution Link_REJECT j ob (entry_id e) (message_id m)
      (Some ''outbox event identity must match the audit entry'') = Inr r" "al_decision r = Link_REJECT"
      "al_journal r = j" "al_outbox r = ob"
    using mk_audit_outbox_resolution_answers [OF entry_id_digest [of e] message_id_digest [of m], of Link_REJECT
      "Some ''outbox event identity must match the audit entry''" j ob] by auto
  with False show ?thesis by (simp add: stage_audit_outbox_def)
next
  case True
  obtain a where a: "append_audit_entry j e pe = Inr a" "aa_decision a \<noteq> AuditAppend_STALE"
    using append_audit_entry_answers [OF ok(1) seq, of pe] by blast
  obtain s where s: "resolve_outbox_enqueue ob m pm = Inr s"
    using resolve_outbox_enqueue_total [OF ok(2), of m pm] by blast
  have run: "stage_audit_outbox j e ob m pe pm
    = (let fa = failed_audit (aa_decision a); fo = failed_enqueue (oe_decision s)
       in case (if fa \<noteq> None then fa else fo) of
            Some failure \<Rightarrow> mk_audit_outbox_resolution failure j ob (entry_id e) (message_id m)
              (Some (if fa \<noteq> None then ''audit append cannot be staged'' else ''outbox enqueue cannot be staged''))
          | None \<Rightarrow>
              if aa_decision a = AuditAppend_REPLAY_EXISTING \<and> oe_decision s = Enqueue_REPLAY_EXISTING
              then mk_audit_outbox_resolution Link_REPLAY_EXISTING j ob (entry_id e) (message_id m) None
              else mk_audit_outbox_resolution Link_COMMIT (aa_journal a) (oe_state s) (entry_id e) (message_id m) None)"
    using True a(1) s by (simp add: stage_audit_outbox_def Let_def)
  show ?thesis
  proof (cases "if failed_audit (aa_decision a) \<noteq> None then failed_audit (aa_decision a) else failed_enqueue (oe_decision s)")
    case (Some x)
    then have "x \<notin> {Link_COMMIT, Link_REPLAY_EXISTING}" using failed_decisions by (metis (full_types))
    moreover have "Some (if failed_audit (aa_decision a) \<noteq> None then ''audit append cannot be staged''
        else ''outbox enqueue cannot be staged'') \<noteq> Some []" by simp
    ultimately obtain r where "stage_audit_outbox j e ob m pe pm = Inr r" "al_decision r = x" "al_journal r = j" "al_outbox r = ob"
      unfolding run Let_def Some option.case
      using mk_audit_outbox_resolution_answers [OF entry_id_digest [of e] message_id_digest [of m], of x
        "Some (if failed_audit (aa_decision a) \<noteq> None then ''audit append cannot be staged''
           else ''outbox enqueue cannot be staged'')" j ob] by blast
    with \<open>x \<notin> _\<close> show ?thesis by auto
  next
    case None
    then have d: "aa_decision a \<in> {AuditAppend_APPEND, AuditAppend_REPLAY_EXISTING}"
      "oe_decision s \<in> {Enqueue_ENQUEUE, Enqueue_REPLAY_EXISTING}"
      using failed_audit_cases [OF a(2)] failed_enqueue_cases [of "oe_decision s"] by (auto split: if_splits)
    show ?thesis
    proof (cases "aa_decision a = AuditAppend_REPLAY_EXISTING \<and> oe_decision s = Enqueue_REPLAY_EXISTING")
      case both: True
      then obtain r where "stage_audit_outbox j e ob m pe pm = Inr r" "al_decision r = Link_REPLAY_EXISTING"
        "al_journal r = j" "al_outbox r = ob"
        unfolding run Let_def None option.case
        using mk_audit_outbox_resolution_answers [OF entry_id_digest [of e] message_id_digest [of m], of Link_REPLAY_EXISTING None j ob]
        by auto
      then show ?thesis by auto
    next
      case one: False
      then obtain r where "stage_audit_outbox j e ob m pe pm = Inr r" "al_decision r = Link_COMMIT"
        "al_journal r = aa_journal a" "al_outbox r = oe_state s"
        unfolding run Let_def None option.case
        using mk_audit_outbox_resolution_answers [OF entry_id_digest [of e] message_id_digest [of m], of Link_COMMIT None "aa_journal a" "oe_state s"]
        by auto
      with True a s d one show ?thesis by auto
    qed
  qed
qed

lemma announced_mono: "announced ob e \<Longrightarrow> outbox_le ob pb \<Longrightarrow> announced pb e"
  by (auto simp: announced_def outbox_le_def)

lemma stage_audit_outbox_cases:
  assumes "stage_audit_outbox j e ob m pe pm = Inr r"
  shows "al_journal r = j \<and> al_outbox r = ob
    \<or> om_event_id m = entry_id e
       \<and> (\<exists>a s. append_audit_entry j e pe = Inr a \<and> resolve_outbox_enqueue ob m pm = Inr s
            \<and> failed_enqueue (oe_decision s) = None \<and> al_journal r = aa_journal a \<and> al_outbox r = oe_state s)"
  using assms
  by (auto simp: stage_audit_outbox_def Let_def split: if_split_asm option.split_asm dest!: mk_audit_outbox_resolution_Inr)

lemma stage_step_keeps:
  assumes ok: "linked_ok (j, ob)" and t: "stage_step (e, m) (j, ob) = Inr (k, pb)"
  shows "linked_ok (k, pb) \<and> linked_le (j, ob) (k, pb)"
proof -
  have oks: "audit_journal_ok j" "outbox_ok ob" using ok by simp_all
  obtain r where r: "stage_audit_outbox j e ob m [] [] = Inr r" "k = al_journal r" "pb = al_outbox r"
    using t by auto
  consider (same) "k = j" "pb = ob"
    | (staged) a s where "om_event_id m = entry_id e" "append_audit_entry j e [] = Inr a" "k = aa_journal a"
        "resolve_outbox_enqueue ob m [] = Inr s" "pb = oe_state s" "oe_decision s \<noteq> Enqueue_CONFLICT"
    using stage_audit_outbox_cases [OF r(1)] r(2,3) by (auto simp: failed_enqueue_cases)
  then show ?thesis
  proof cases
    case same
    with ok show ?thesis by (simp add: outbox_le_def)
  next
    case (staged a s)
    note link = staged(1) and a = staged(2,3) and s = staged(4,5) and d = staged(6)
    have pb: "outbox_ok pb" "outbox_le ob pb"
      using outbox_step_keeps [OF oks(2), of "Stage m []"] s by simp_all
    have k: "audit_journal_ok k" "prefix (aj_entries j) (aj_entries k)" "set (aj_entries k) \<subseteq> insert e (set (aj_entries j))"
      using append_audit_entry_cases [OF a(1)] a(2) oks(1) by auto
    have "message_id m \<in> message_id ` set (ox_messages pb)"
    proof -
      obtain q where q: "resolve_outbox_enqueue ob m [] = Inr q"
        "oe_decision q = Enqueue_ENQUEUE \<longleftrightarrow>
          (\<forall>x \<in> set (ox_messages ob @ []). om_request_id x \<noteq> om_request_id m \<and> message_id x \<noteq> message_id m)"
        "oe_state q = (if oe_decision q = Enqueue_ENQUEUE then staged ob m else ob)"
        "oe_decision q = Enqueue_CONFLICT \<longleftrightarrow>
          (\<exists>x \<in> set (ox_messages ob @ []). om_request_id x = om_request_id m \<and> message_id x \<noteq> message_id m)"
        using resolve_outbox_enqueue_total [OF oks(2), of m "[]"] by blast
      have "q = s" using q(1) s(1) by simp
      show ?thesis
      proof (cases "oe_decision s = Enqueue_ENQUEUE")
        case True
        then show ?thesis using q(3) s(2) \<open>q = s\<close> by (simp add: staged_def)
      next
        case False
        then have "\<exists>x \<in> set (ox_messages ob). message_id x = message_id m" using q(2,4) d \<open>q = s\<close> by auto
        then show ?thesis using False q(3) s(2) \<open>q = s\<close> by (auto intro: rev_image_eqI)
      qed
    qed
    then have "announced pb e" using link by (auto simp: announced_def)
    moreover have "announced pb x" if "x \<in> set (aj_entries j)" for x
      using ok that pb(2) announced_mono by auto
    ultimately show ?thesis using k pb by auto
  qed
qed

interpretation linked: guarded_machine stage_step linked_ok linked_le
proof
  fix s r t
  assume s: "linked_ok s" "stage_step r s = Inr t"
  obtain e m j ob k pb where eq: "r = (e, m)" "s = (j, ob)" "t = (k, pb)" by (metis surj_pair)
  have "linked_ok t \<and> linked_le s t" using s unfolding eq by (rule stage_step_keeps)
  then show "linked_ok t" "linked_le s t" by simp_all
next
  fix s t u
  show "linked_le s s" by (cases s) (simp add: outbox_le_def)
  show "linked_le s t \<Longrightarrow> linked_le t u \<Longrightarrow> linked_le s u"
    by (cases s; cases t; cases u) (auto simp: outbox_le_def intro: prefix_order.trans)
qed

section \<open>Properties\<close>

text \<open>An audit entry and its message are staged together or not at all. After any staging requests the
  journal and the outbox are both valid, neither has lost anything, and every entry of the journal is
  announced by a stored message. Staging a valid entry always answers; without a commit both states
  are unchanged, and after a commit the journal holds the entry and the outbox holds the message. In
  particular no failure on one side leaves a change on the other.\<close>

theorem audit_outbox_atomic:
  assumes ok0: "linked_ok (j0, ob0)" and s: "(j, ob) = serve stage_step rs (j0, ob0)" and seq: "1 \<le> ae_sequence e"
  shows "linked_ok (j, ob) \<and> linked_le (j0, ob0) (j, ob)
    \<and> (\<exists>r. stage_audit_outbox j e ob m [] [] = Inr r \<and> linked_ok (al_journal r, al_outbox r)
        \<and> (al_decision r \<noteq> Link_COMMIT \<longrightarrow> al_journal r = j \<and> al_outbox r = ob)
        \<and> (al_decision r = Link_COMMIT \<longrightarrow> e \<in> set (aj_entries (al_journal r)) \<and> announced (al_outbox r) e
             \<and> (al_journal r, al_outbox r) \<noteq> (j, ob)))"
proof -
  have ok: "linked_ok (j, ob)" "linked_le (j0, ob0) (j, ob)"
    unfolding s using ok0 by (simp_all add: linked.serve_inv linked.serve_le)
  then have oks: "audit_journal_ok j" "outbox_ok ob" by simp_all
  obtain r where r: "stage_audit_outbox j e ob m [] [] = Inr r"
    "al_decision r \<noteq> Link_COMMIT \<longrightarrow> al_journal r = j \<and> al_outbox r = ob"
    "al_decision r = Link_COMMIT \<longrightarrow> (\<exists>a s. append_audit_entry j e [] = Inr a \<and> resolve_outbox_enqueue ob m [] = Inr s
       \<and> al_journal r = aa_journal a \<and> al_outbox r = oe_state s
       \<and> aa_decision a \<in> {AuditAppend_APPEND, AuditAppend_REPLAY_EXISTING}
       \<and> (aa_decision a = AuditAppend_APPEND \<or> oe_decision s = Enqueue_ENQUEUE))"
    using stage_audit_outbox_answers [OF oks seq, of m "[]" "[]"] by blast
  have after: "linked_ok (al_journal r, al_outbox r)"
    using stage_step_keeps [OF ok(1), of e m "al_journal r" "al_outbox r"] r(1) by simp
  have "e \<in> set (aj_entries (al_journal r)) \<and> (al_journal r, al_outbox r) \<noteq> (j, ob)" if commit: "al_decision r = Link_COMMIT"
  proof -
    obtain a s where a: "append_audit_entry j e [] = Inr a" "al_journal r = aa_journal a"
        "aa_decision a \<in> {AuditAppend_APPEND, AuditAppend_REPLAY_EXISTING}"
      and s: "resolve_outbox_enqueue ob m [] = Inr s" "al_outbox r = oe_state s"
        "aa_decision a = AuditAppend_APPEND \<or> oe_decision s = Enqueue_ENQUEUE"
      using r(3) commit by blast
    have e: "e \<in> set (aj_entries (aa_journal a))"
      using append_audit_entry_cases [OF a(1)] append_replay_member [OF oks(1) a(1)] a(3) by auto
    moreover have "(aa_journal a, oe_state s) \<noteq> (j, ob)"
    proof (cases "aa_decision a = AuditAppend_APPEND")
      case True
      then show ?thesis using append_audit_entry_cases [OF a(1)] by (auto dest: arg_cong [of _ _ aj_entries])
    next
      case False
      then have "oe_decision s = Enqueue_ENQUEUE" using s(3) by simp
      then have "oe_state s = staged ob m"
        using resolve_outbox_enqueue_total [OF oks(2), of m "[]"] s(1) by auto
      then have "length (ox_messages (oe_state s)) = Suc (length (ox_messages ob))" by (simp add: staged_def)
      then show ?thesis by auto
    qed
    ultimately show ?thesis using a(2) s(2) by simp
  qed
  with ok r(1,2) after show ?thesis by auto
qed

lemma sample_linked_ok: "linked_ok (sample_journal, empty_outbox)"
  using sample_journal_ok empty_outbox_ok by (simp add: sample_journal_def)

definition sample_notice :: outbox_message where
  "sample_notice = sample_message\<lparr>om_event_id := entry_id (sample_entry 1)\<rparr>"

theorem audit_outbox_atomic_witness:
  "linked_ok (sample_journal, empty_outbox)
   \<and> (\<exists>r. stage_audit_outbox sample_journal (sample_entry 1) empty_outbox sample_notice [] [] = Inr r
        \<and> linked_ok (al_journal r, al_outbox r))"
  using audit_outbox_atomic [OF sample_linked_ok, of sample_journal empty_outbox "[]" "sample_entry 1" sample_notice]
    sample_linked_ok
  by (auto simp: sample_entry_def simp del: linked_ok.simps)

end
