(* ===== verification/Execution_Event_Transaction.thy ===== *)
theory Execution_Event_Transaction
  imports Execution_Events Audit_Outbox
begin

text \<open>
  \<open>src/backend/app/strategy_lab_v2/execution_event_transaction.py\<close>: an execution event, its audit entry and
  the outbox message that announces the entry, resolved as one change over the event stream of
  Execution_Events and the linked journal and outbox of Audit_Outbox.
\<close>

section \<open>The decision\<close>

datatype event_commit_decision = EC_COMMITTED | EC_REPLAY_EXISTING | EC_GAP | EC_CONFLICT | EC_REJECT

record event_commit =
  ec_decision :: event_commit_decision
  ec_cursor :: stream_cursor
  ec_journal :: audit_journal
  ec_outbox :: outbox_state
  ec_event_id :: string
  ec_audit_entry_id :: string
  ec_message_id :: string
  ec_event_append_decision :: event_append_decision
  ec_audit_outbox_decision :: "audit_outbox_decision option"
  ec_rejection_reason :: "string option"

definition mk_event_commit ::
  "event_commit_decision \<Rightarrow> stream_cursor \<Rightarrow> audit_journal \<Rightarrow> outbox_state \<Rightarrow> string \<Rightarrow> string \<Rightarrow> string
     \<Rightarrow> event_append_decision \<Rightarrow> audit_outbox_decision option \<Rightarrow> string option \<Rightarrow> event_commit result" where
  "mk_event_commit decision cursor journal outbox eid aid mid append_decision link reason =
     raising
       (digest_checks eid ''event_id'' @ digest_checks aid ''audit_entry_id'' @ digest_checks mid ''message_id''
        @ [(decision \<in> {EC_GAP, EC_CONFLICT, EC_REJECT} \<and> no_reason reason, ''failed resolutions require a rejection reason''),
           (decision \<in> {EC_COMMITTED, EC_REPLAY_EXISTING} \<and> \<not> no_reason reason,
              ''successful resolutions cannot contain a rejection reason'')])
       (Inr \<lparr>ec_decision = decision, ec_cursor = cursor, ec_journal = journal, ec_outbox = outbox, ec_event_id = eid,
             ec_audit_entry_id = aid, ec_message_id = mid, ec_event_append_decision = append_decision,
             ec_audit_outbox_decision = link, ec_rejection_reason = reason\<rparr>)"

definition resolve_execution_event_transaction ::
  "execution_event \<Rightarrow> stream_cursor \<Rightarrow> audit_journal \<Rightarrow> audit_entry \<Rightarrow> outbox_state \<Rightarrow> outbox_message
     \<Rightarrow> execution_event list \<Rightarrow> audit_entry list \<Rightarrow> outbox_message list \<Rightarrow> event_commit result" where
  "resolve_execution_event_transaction event cursor journal entry outbox message prior_events prior_entries prior_messages =
     (let eid = event_id event; aid = entry_id entry; mid = message_id message;
          reject = (\<lambda>decision append_decision link reason.
            mk_event_commit decision cursor journal outbox eid aid mid append_decision link (Some reason))
      in if ae_aggregate_id entry \<noteq> xe_attempt_id event then
           reject EC_REJECT Append_CONFLICT None ''audit entry must reference the event attempt''
         else if ae_correlation_id entry \<noteq> Some eid then
           reject EC_REJECT Append_CONFLICT None ''audit entry correlation_id must match the canonical event''
         else if om_event_id message \<noteq> aid then
           reject EC_REJECT Append_CONFLICT None ''outbox event identity must match the audit entry''
         else caught (resolve_event_append event cursor prior_events) (reject EC_REJECT Append_CONFLICT None) (\<lambda>appended.
           if ea_decision appended = Append_GAP then
             reject EC_GAP (ea_decision appended) None ''execution event sequence has a gap''
           else if ea_decision appended = Append_CONFLICT then
             reject EC_CONFLICT (ea_decision appended) None ''execution event sequence conflicts with the cursor''
           else caught (stage_audit_outbox journal entry outbox message prior_entries prior_messages)
             (reject EC_REJECT (ea_decision appended) None) (\<lambda>staged.
             if al_decision staged \<in> {Link_GAP, Link_CONFLICT, Link_REJECT} then
               reject (if al_decision staged = Link_GAP then EC_GAP
                       else if al_decision staged = Link_CONFLICT then EC_CONFLICT else EC_REJECT)
                 (ea_decision appended) (Some (al_decision staged)) ''audit and outbox evidence cannot be staged''
             else mk_event_commit
               (if ea_decision appended = Append_REPLAY_EXISTING \<and> al_decision staged = Link_REPLAY_EXISTING
                then EC_REPLAY_EXISTING else EC_COMMITTED)
               (ea_cursor appended) (al_journal staged) (al_outbox staged) eid aid mid (ea_decision appended)
               (Some (al_decision staged)) None)))"

section \<open>Committed states\<close>

text \<open>What an adapter persists for one attempt: the event stream, and the journal with its outbox. Every
  committed event has an audit entry of its attempt that names it, and every entry is announced.\<close>

type_synonym commit_state = "event_stream \<times> linked_state"

definition audited :: "audit_journal \<Rightarrow> execution_event \<Rightarrow> bool" where
  "audited j e \<longleftrightarrow> (\<exists>a \<in> set (aj_entries j). ae_correlation_id a = Some (event_id e) \<and> ae_aggregate_id a = xe_attempt_id e)"

definition commit_state_ok :: "commit_state \<Rightarrow> bool" where
  "commit_state_ok s \<longleftrightarrow> event_stream_ok (fst s) \<and> linked_ok (snd s) \<and> (\<forall>e \<in> set (es_events (fst s)). audited (fst (snd s)) e)"

definition commit_state_le :: "commit_state \<Rightarrow> commit_state \<Rightarrow> bool" where
  "commit_state_le s t \<longleftrightarrow> prefix (es_events (fst s)) (es_events (fst t)) \<and> linked_le (snd s) (snd t)"

text \<open>The adapter stores the returned states and, when the event was appended, the event. An entry that its
  constructor refuses does not exist, so it never reaches the transaction.\<close>

definition committed_state :: "execution_event \<Rightarrow> event_stream \<Rightarrow> event_commit \<Rightarrow> commit_state" where
  "committed_state e s x =
     (\<lparr>es_cursor = ec_cursor x,
       es_events = (if ec_decision x = EC_COMMITTED \<and> ec_event_append_decision x = Append_APPEND
                    then es_events s @ [e] else es_events s)\<rparr>, ec_journal x, ec_outbox x)"

fun event_commit_step :: "execution_event \<times> audit_entry \<times> outbox_message \<Rightarrow> commit_state \<Rightarrow> commit_state result" where
  "event_commit_step (e, a, m) (s, j, ob) =
     (if audit_entry_ok a
      then rbind (resolve_execution_event_transaction e (es_cursor s) j a ob m (es_events s) [] [])
             (\<lambda>x. Inr (committed_state e s x))
      else Inr (s, j, ob))"

lemma mk_event_commit_fields:
  "mk_event_commit d c j ob e a m k l r = Inr x \<Longrightarrow> ec_decision x = d \<and> ec_cursor x = c \<and> ec_journal x = j
     \<and> ec_outbox x = ob \<and> ec_event_append_decision x = k"
  by (auto simp: mk_event_commit_def raising_Inr_iff)

lemma caught_eq_Inr:
  "caught r h f = Inr x \<longleftrightarrow> (\<exists>y. r = Inr y \<and> f y = Inr x) \<or> (\<exists>m. r \<in> {Inl (ValueError m), Inl (TypeError m)} \<and> h m = Inr x)"
  by (cases "(r, h, f)" rule: caught.cases) auto

lemma event_commit_cases:
  assumes "resolve_execution_event_transaction e c j a ob m es pa pm = Inr x"
  obtains (failed) "ec_decision x \<in> {EC_GAP, EC_CONFLICT, EC_REJECT}" "ec_cursor x = c" "ec_journal x = j" "ec_outbox x = ob"
  | (committed) appended staged where "ae_aggregate_id a = xe_attempt_id e" "ae_correlation_id a = Some (event_id e)"
      "om_event_id m = entry_id a" "resolve_event_append e c es = Inr appended" "ea_decision appended \<notin> {Append_GAP, Append_CONFLICT}"
      "stage_audit_outbox j a ob m pa pm = Inr staged" "al_decision staged \<notin> {Link_GAP, Link_CONFLICT, Link_REJECT}"
      "ec_decision x = (if ea_decision appended = Append_REPLAY_EXISTING \<and> al_decision staged = Link_REPLAY_EXISTING
         then EC_REPLAY_EXISTING else EC_COMMITTED)"
      "ec_cursor x = ea_cursor appended" "ec_journal x = al_journal staged" "ec_outbox x = al_outbox staged"
      "ec_event_append_decision x = ea_decision appended"
proof (cases "ec_decision x \<in> {EC_GAP, EC_CONFLICT, EC_REJECT}")
  case True
  then have kept: "mk_event_commit (if b then EC_REPLAY_EXISTING else EC_COMMITTED) c' j' ob' e' a' m' k l r \<noteq> Inr x"
    for b c' j' ob' e' a' m' k l r by (auto dest!: mk_event_commit_fields split: if_splits)
  have "ec_cursor x = c \<and> ec_journal x = j \<and> ec_outbox x = ob"
    using assms unfolding resolve_execution_event_transaction_def Let_def
    by (auto simp: caught_eq_Inr kept split: if_split_asm dest!: mk_event_commit_fields)
  with True show thesis by (intro failed) auto
next
  case False
  then have no: "mk_event_commit d c' j' ob' e' a' m' k l r \<noteq> Inr x" if "d \<in> {EC_GAP, EC_CONFLICT, EC_REJECT}"
    for d c' j' ob' e' a' m' k l r using that by (auto dest!: mk_event_commit_fields)
  have rej: "mk_event_commit (if b then EC_GAP else if b' then EC_CONFLICT else EC_REJECT) c' j' ob' e' a' m' k l r \<noteq> Inr x"
    for b b' c' j' ob' e' a' m' k l r by (rule no) auto
  obtain appended staged where done_: "ae_aggregate_id a = xe_attempt_id e" "ae_correlation_id a = Some (event_id e)"
      "om_event_id m = entry_id a" "resolve_event_append e c es = Inr appended" "ea_decision appended \<notin> {Append_GAP, Append_CONFLICT}"
      "stage_audit_outbox j a ob m pa pm = Inr staged" "al_decision staged \<notin> {Link_GAP, Link_CONFLICT, Link_REJECT}"
      "mk_event_commit (if ea_decision appended = Append_REPLAY_EXISTING \<and> al_decision staged = Link_REPLAY_EXISTING
         then EC_REPLAY_EXISTING else EC_COMMITTED) (ea_cursor appended) (al_journal staged) (al_outbox staged) (event_id e)
         (entry_id a) (message_id m) (ea_decision appended) (Some (al_decision staged)) None = Inr x"
    using assms unfolding resolve_execution_event_transaction_def Let_def
    by (auto simp: caught_eq_Inr no rej simp del: if_image_distrib split: if_split_asm)
  from mk_event_commit_fields [OF done_(8)] done_(1-7) show thesis by (intro committed) auto
qed

section \<open>A commit keeps the states together\<close>

lemma staged_entry:
  assumes "audit_journal_ok j" "outbox_ok ob" "1 \<le> ae_sequence a" "stage_audit_outbox j a ob m [] [] = Inr r"
    and "al_decision r \<notin> {Link_GAP, Link_CONFLICT, Link_REJECT}"
  shows "a \<in> set (aj_entries (al_journal r))"
proof -
  have link: "om_event_id m = entry_id a"
    using assms(4,5) by (auto simp: stage_audit_outbox_def Let_def split: if_split_asm dest!: mk_audit_outbox_resolution_Inr)
  obtain u where u: "append_audit_entry j a [] = Inr u" "aa_decision u \<noteq> AuditAppend_STALE"
    using append_audit_entry_answers [OF assms(1,3), of "[]"] by blast
  obtain w where w: "resolve_outbox_enqueue ob m [] = Inr w" using resolve_outbox_enqueue_total [OF assms(2), of m "[]"] by blast
  have run: "stage_audit_outbox j a ob m [] [] =
    (case (if failed_audit (aa_decision u) \<noteq> None then failed_audit (aa_decision u) else failed_enqueue (oe_decision w)) of
       Some failure \<Rightarrow> mk_audit_outbox_resolution failure j ob (entry_id a) (message_id m)
         (Some (if failed_audit (aa_decision u) \<noteq> None then ''audit append cannot be staged'' else ''outbox enqueue cannot be staged''))
     | None \<Rightarrow>
         if aa_decision u = AuditAppend_REPLAY_EXISTING \<and> oe_decision w = Enqueue_REPLAY_EXISTING
         then mk_audit_outbox_resolution Link_REPLAY_EXISTING j ob (entry_id a) (message_id m) None
         else mk_audit_outbox_resolution Link_COMMIT (aa_journal u) (oe_state w) (entry_id a) (message_id m) None)"
    using link u(1) w by (simp add: stage_audit_outbox_def Let_def)
  have "failed_audit (aa_decision u) = None"
  proof (rule ccontr)
    assume "failed_audit (aa_decision u) \<noteq> None"
    then obtain d where d: "failed_audit (aa_decision u) = Some d" by blast
    then have "d \<in> {Link_GAP, Link_CONFLICT, Link_REJECT}" by (cases "aa_decision u") auto
    moreover have "al_decision r = d" using assms(4) d by (auto simp: run dest!: mk_audit_outbox_resolution_Inr)
    ultimately show False using assms(5) by simp
  qed
  then have d: "aa_decision u \<in> {AuditAppend_APPEND, AuditAppend_REPLAY_EXISTING}" using failed_audit_cases [OF u(2)] by simp
  have "al_journal r = aa_journal u \<or> al_journal r = j \<and> aa_decision u = AuditAppend_REPLAY_EXISTING"
  proof (cases "failed_enqueue (oe_decision w)")
    case None
    with \<open>failed_audit _ = None\<close> assms(4) show ?thesis
      by (auto simp: run split: if_split_asm dest!: mk_audit_outbox_resolution_Inr)
  next
    case (Some x)
    then have "x \<in> {Link_GAP, Link_CONFLICT, Link_REJECT}" by (cases "oe_decision w") auto
    moreover have "al_decision r = x"
      using \<open>failed_audit _ = None\<close> Some assms(4) by (auto simp: run dest!: mk_audit_outbox_resolution_Inr)
    ultimately show ?thesis using assms(5) by simp
  qed
  with d append_audit_entry_cases [OF u(1)] append_replay_member [OF assms(1) u(1)] show ?thesis by auto
qed

lemma append_not_moved:
  "resolve_event_append e c es = Inr r \<Longrightarrow> ea_decision r \<noteq> Append_APPEND \<Longrightarrow> ea_cursor r = c"
  by (auto simp: resolve_event_append_def Let_def raising_Inr_iff mk_event_append_resolution_def split: if_splits)

lemma event_commit_keeps:
  assumes ok: "commit_state_ok (s, j, ob)" and a: "audit_entry_ok a"
    and x: "resolve_execution_event_transaction e (es_cursor s) j a ob m (es_events s) [] [] = Inr x"
  shows "commit_state_ok (committed_state e s x) \<and> commit_state_le (s, j, ob) (committed_state e s x)
    \<and> (ec_decision x \<in> {EC_COMMITTED, EC_REPLAY_EXISTING} \<longrightarrow> a \<in> set (aj_entries (ec_journal x))
         \<and> ae_aggregate_id a = xe_attempt_id e \<and> ae_correlation_id a = Some (event_id e))"
proof -
  have s: "event_stream_ok s" "linked_ok (j, ob)" "audit_journal_ok j" "outbox_ok ob" "\<forall>e \<in> set (es_events s). audited j e"
    using ok by (simp_all add: commit_state_ok_def)
  from x show ?thesis
  proof (cases rule: event_commit_cases)
    case failed
    then have "committed_state e s x = (s, j, ob)" by (auto simp: committed_state_def)
    with ok failed show ?thesis by (auto simp: commit_state_le_def linked.le_refl)
  next
    case (committed appended staged)
    have "stage_step (a, m) (j, ob) = Inr (al_journal staged, al_outbox staged)" using committed(6) by simp
    from stage_step_keeps [OF s(2) this]
    have link: "linked_ok (ec_journal x, ec_outbox x)" "linked_le (j, ob) (ec_journal x, ec_outbox x)"
      using committed(10,11) by simp_all
    have stored: "a \<in> set (aj_entries (ec_journal x))"
      using staged_entry [OF s(3,4) _ committed(6,7)] a committed(10) by (simp add: audit_entry_ok_def)
    then have e: "audited (ec_journal x) e" using committed(1,2) by (auto simp: audited_def)
    have old: "audited (ec_journal x) y" if "y \<in> set (es_events s)" for y
      using s(5) that link(2) by (fastforce simp: audited_def prefix_def)
    let ?t = "fst (committed_state e s x)"
    have "commit_event e s = Inr ?t"
      using committed(4,5,8,9,12) append_not_moved [OF committed(4)]
      by (cases "ea_decision appended") (auto simp: commit_event_def committed_state_def)
    then have "event_stream_ok ?t" "?t = s \<or> es_events ?t = es_events s @ [id e]"
      using events.log_inv [OF s(1)] events.log_append [OF s(1)] by blast+
    then have "commit_state_ok (committed_state e s x) \<and> commit_state_le (s, j, ob) (committed_state e s x)"
      using link old e by (auto simp: commit_state_ok_def commit_state_le_def committed_state_def)
    with stored committed(1,2) show ?thesis by simp
  qed
qed

interpretation event_commits: guarded_machine event_commit_step commit_state_ok commit_state_le
proof
  fix s r t
  assume s: "commit_state_ok s" "event_commit_step r s = Inr t"
  obtain e a m es j ob where eq: "r = (e, a, m)" "s = (es, j, ob)" by (metis surj_pair)
  have "commit_state_ok t \<and> commit_state_le s t"
  proof (cases "audit_entry_ok a")
    case True
    then obtain x where "resolve_execution_event_transaction e (es_cursor es) j a ob m (es_events es) [] [] = Inr x"
      "t = committed_state e es x" using s(2) by (auto simp: eq)
    with event_commit_keeps [of es j ob a e m x] s(1) True show ?thesis by (simp add: eq)
  next
    case False
    with s show ?thesis by (auto simp: eq commit_state_le_def linked.le_refl)
  qed
  then show "commit_state_ok t" "commit_state_le s t" by simp_all
next
  fix s t u
  show "commit_state_le s s" by (simp add: commit_state_le_def linked.le_refl)
  show "commit_state_le s t \<Longrightarrow> commit_state_le t u \<Longrightarrow> commit_state_le s u"
    using linked.le_trans prefix_order.trans unfolding commit_state_le_def by blast
qed

lemma event_append_clean: "clean (resolve_event_append e c es)"
  unfolding resolve_event_append_def Let_def
  by (auto intro!: clean_raising clean_rbind simp: mk_event_append_resolution_def mk_stream_cursor_def digest_checks_def
      opt_digest_checks_def split: if_splits)

lemma event_commit_answers:
  assumes "commit_state_ok (s, j, ob)" "audit_entry_ok a"
  shows "\<exists>x. resolve_execution_event_transaction e (es_cursor s) j a ob m (es_events s) [] [] = Inr x"
proof -
  have ok: "audit_journal_ok j" "outbox_ok ob" "1 \<le> ae_sequence a"
    using assms by (simp_all add: commit_state_ok_def audit_entry_ok_def)
  have mk: "\<exists>x. mk_event_commit d c k pb (event_id e) (entry_id a) (message_id m) n l r = Inr x"
    if "d \<in> {EC_COMMITTED, EC_REPLAY_EXISTING} \<longleftrightarrow> no_reason r" for d c k pb n l r
    using that by (cases d) (auto simp: mk_event_commit_def raising_Inr_iff digests_clean)
  obtain staged where staged: "stage_audit_outbox j a ob m [] [] = Inr staged"
    using stage_audit_outbox_answers [OF ok, of m "[]" "[]"] by blast
  consider y where "resolve_event_append e (es_cursor s) (es_events s) = Inr y"
    | k where "k \<noteq> []" "resolve_event_append e (es_cursor s) (es_events s) = Inl (ValueError k)"
    using event_append_clean [of e "es_cursor s" "es_events s"] unfolding clean_def by (metis sum.exhaust)
  then show ?thesis
  proof cases
    case 1
    with staged show ?thesis unfolding resolve_execution_event_transaction_def Let_def
      by (auto intro!: mk simp: no_reason_def)
  next
    case 2
    then show ?thesis unfolding resolve_execution_event_transaction_def Let_def
      by (auto intro!: mk simp: no_reason_def)
  qed
qed

section \<open>Properties\<close>

text \<open>C12: an execution event, its audit entry and its announcement are committed together or not at all. After
  any transactions the stream, the journal and the outbox are valid and have lost nothing, every committed
  event has an audit entry of its attempt that names it, and every entry is announced. The next transaction
  always answers: a gap, conflict or rejection returns the three states as they were, any other answer leaves
  the entry in the journal, announced, and moves the cursor only for a new event that is next in sequence.\<close>

theorem event_commit_atomic:
  assumes "commit_state_ok s0" "(s, j, ob) = serve event_commit_step rs s0" "audit_entry_ok a"
  shows "commit_state_ok (s, j, ob) \<and> commit_state_le s0 (s, j, ob)
    \<and> (\<exists>x. resolve_execution_event_transaction e (es_cursor s) j a ob m (es_events s) [] [] = Inr x
        \<and> commit_state_ok (committed_state e s x)
        \<and> (if ec_decision x \<in> {EC_GAP, EC_CONFLICT, EC_REJECT} then committed_state e s x = (s, j, ob)
           else a \<in> set (aj_entries (ec_journal x)) \<and> announced (ec_outbox x) a \<and> audited (ec_journal x) e
             \<and> (if ec_event_append_decision x = Append_APPEND
                then xe_sequence e = int (length (es_events s)) + 1 \<and> sc_sequence (ec_cursor x) = xe_sequence e
                  \<and> sc_last_event_id (ec_cursor x) = Some (event_id e)
                else ec_cursor x = es_cursor s)))"
proof -
  have ok: "commit_state_ok (s, j, ob)" and le: "commit_state_le s0 (s, j, ob)"
    unfolding assms(2) using assms(1) by (rule event_commits.serve_inv, rule event_commits.serve_le)
  obtain x where x: "resolve_execution_event_transaction e (es_cursor s) j a ob m (es_events s) [] [] = Inr x"
    using event_commit_answers [OF ok assms(3)] by blast
  note kept = event_commit_keeps [OF ok assms(3) x]
  have "if ec_decision x \<in> {EC_GAP, EC_CONFLICT, EC_REJECT} then committed_state e s x = (s, j, ob)
      else a \<in> set (aj_entries (ec_journal x)) \<and> announced (ec_outbox x) a \<and> audited (ec_journal x) e
        \<and> (if ec_event_append_decision x = Append_APPEND
           then xe_sequence e = int (length (es_events s)) + 1 \<and> sc_sequence (ec_cursor x) = xe_sequence e
             \<and> sc_last_event_id (ec_cursor x) = Some (event_id e)
           else ec_cursor x = es_cursor s)"
    using x
  proof (cases rule: event_commit_cases)
    case failed
    then show ?thesis by (auto simp: committed_state_def)
  next
    case (committed appended staged)
    then have d: "ec_decision x \<in> {EC_COMMITTED, EC_REPLAY_EXISTING}" by simp
    then have a: "a \<in> set (aj_entries (ec_journal x))" "ae_aggregate_id a = xe_attempt_id e" "ae_correlation_id a = Some (event_id e)"
      using kept by blast+
    moreover have "announced (ec_outbox x) a" using kept a(1) by (auto simp: commit_state_ok_def committed_state_def)
    moreover have "sc_sequence (es_cursor s) = int (length (es_events s))"
      using ok by (simp add: commit_state_ok_def event_stream_ok_def Let_def)
    then have "if ea_decision appended = Append_APPEND
        then xe_sequence e = int (length (es_events s)) + 1 \<and> sc_sequence (ea_cursor appended) = xe_sequence e
          \<and> sc_last_event_id (ea_cursor appended) = Some (event_id e) else ea_cursor appended = es_cursor s"
      using committed(4) by (auto simp: resolve_event_append_def Let_def raising_Inr_iff mk_event_append_resolution_def
          mk_stream_cursor_def split: if_splits)
    ultimately show ?thesis using d committed(9,12) by (auto simp: audited_def)
  qed
  with ok le x kept show ?thesis by blast
qed

definition sample_audit :: audit_entry where
  "sample_audit = (sample_entry 1)\<lparr>ae_aggregate_id := ''a-1'', ae_correlation_id := Some (event_id (sample_xevent 1))\<rparr>"

definition sample_attempt_journal :: audit_journal where
  "sample_attempt_journal = sample_journal\<lparr>aj_aggregate_id := ''a-1''\<rparr>"

lemma sample_commit_ok: "commit_state_ok (sample_stream, sample_attempt_journal, empty_outbox)"
  using sample_stream_ok sample_linked_ok
  by (simp add: commit_state_ok_def sample_attempt_journal_def audit_journal_ok_def sample_journal_def sample_stream_def
      blank_iff py_space_def)

theorem event_commit_atomic_witness:
  "audit_entry_ok sample_audit
   \<and> (\<exists>x. resolve_execution_event_transaction (sample_xevent 1) (es_cursor sample_stream) sample_attempt_journal sample_audit
          empty_outbox (sample_message\<lparr>om_event_id := entry_id sample_audit\<rparr>) [] [] [] = Inr x
        \<and> commit_state_ok (committed_state (sample_xevent 1) sample_stream x))"
proof -
  have "audit_entry_ok sample_audit"
    by (simp add: audit_entry_ok_def sample_audit_def sample_entry_def blank_iff py_space_def)
  with event_commit_atomic [OF sample_commit_ok, of sample_stream sample_attempt_journal empty_outbox "[]" sample_audit
      "sample_xevent 1" "sample_message\<lparr>om_event_id := entry_id sample_audit\<rparr>"]
  show ?thesis by (auto simp: sample_stream_def)
qed

end
