(* ===== verification/Submissions.thy ===== *)
theory Submissions
  imports Contracts Idempotency
begin

text \<open>
  \<open>src/backend/app/strategy_lab_v2/submissions.py\<close>: idempotent asynchronous submissions, their
  receipts and the HTTP status of the answer.
\<close>

datatype submission_decision =
    Submission_ACCEPT | Submission_REPLAY_EXISTING | Submission_IDEMPOTENCY_CONFLICT

record submission_request =
  sq_idempotency_key :: string
  sq_operation :: string
  sq_attempt_id :: string
  sq_payload_digest :: string
  sq_submitted_at :: instant

definition mk_submission_request ::
  "string \<Rightarrow> string \<Rightarrow> string \<Rightarrow> string \<Rightarrow> datetime \<Rightarrow> submission_request result" where
  "mk_submission_request idempotency_key operation attempt_id payload_digest submitted_at =
     raising
       ([(blank idempotency_key, ''submission idempotency_key must not be empty''),
         (blank operation, ''submission operation must not be empty''),
         (blank attempt_id, ''submission attempt_id must not be empty''),
         (length idempotency_key > 256, ''submission idempotency_key must not exceed 256 characters'')]
        @ digest_checks payload_digest ''payload_digest'')
       (with_aware submitted_at ''submission submitted_at must be timezone-aware'' (\<lambda>submitted.
          Inr \<lparr>sq_idempotency_key = idempotency_key, sq_operation = operation,
               sq_attempt_id = attempt_id, sq_payload_digest = payload_digest,
               sq_submitted_at = submitted\<rparr>))"

definition submission_fingerprint :: "submission_request \<Rightarrow> string" where
  "submission_fingerprint q = digest (PMapping
     [(''attempt_id'', PStr (sq_attempt_id q)),
      (''idempotency_key'', PStr (sq_idempotency_key q)),
      (''operation'', PStr (sq_operation q)),
      (''payload_digest'', PStr (sq_payload_digest q))])"

record submission_receipt =
  sr_request :: submission_request
  sr_accepted_at :: instant

definition mk_submission_receipt :: "submission_request \<Rightarrow> datetime \<Rightarrow> submission_receipt result" where
  "mk_submission_receipt request accepted_at =
     with_aware accepted_at ''receipt accepted_at must be timezone-aware'' (\<lambda>accepted.
       raising
         [(accepted < sq_submitted_at request, ''receipt accepted_at cannot precede submission'')]
         (Inr \<lparr>sr_request = request, sr_accepted_at = accepted\<rparr>))"

definition submission_id :: "submission_receipt \<Rightarrow> string" where
  "submission_id r = submission_fingerprint (sr_request r)"

definition receipt_http_status :: "submission_receipt \<Rightarrow> int" where
  "receipt_http_status r = 202"

record submission_resolution =
  sn_decision :: submission_decision
  sn_request_fingerprint :: string
  sn_existing_receipt :: "submission_receipt option"

definition mk_submission_resolution ::
  "submission_decision \<Rightarrow> string \<Rightarrow> submission_receipt option \<Rightarrow> submission_resolution result" where
  "mk_submission_resolution decision request_fp existing =
     raising
       (digest_checks request_fp ''request_fingerprint''
        @ [(decision = Submission_REPLAY_EXISTING \<and> existing = None,
              ''replay resolutions require an existing receipt''),
           (decision = Submission_IDEMPOTENCY_CONFLICT \<and> existing = None,
              ''conflict resolutions require the existing receipt'')])
       (Inr \<lparr>sn_decision = decision, sn_request_fingerprint = request_fp,
             sn_existing_receipt = existing\<rparr>)"

definition http_status :: "submission_resolution \<Rightarrow> int" where
  "http_status r = (if sn_decision r = Submission_IDEMPOTENCY_CONFLICT then 409 else 202)"

definition create_submission_receipt :: "submission_request \<Rightarrow> datetime \<Rightarrow> submission_receipt result" where
  "create_submission_receipt request accepted_at = mk_submission_receipt request accepted_at"

definition resolve_submission ::
  "submission_request \<Rightarrow> submission_receipt list \<Rightarrow> submission_resolution result" where
  "resolve_submission request prior_receipts =
     (case filter (\<lambda>i. sq_idempotency_key (sr_request i) = sq_idempotency_key request) prior_receipts of
        [] \<Rightarrow> mk_submission_resolution Submission_ACCEPT (submission_fingerprint request) None
      | existing # rest \<Rightarrow>
          raising
            [(list_ex (\<lambda>i. submission_fingerprint (sr_request i) \<noteq> submission_fingerprint (sr_request existing))
                rest,
                ''prior submission receipts contain conflicting idempotency records'')]
            (mk_submission_resolution
               (if submission_fingerprint (sr_request existing) = submission_fingerprint request
                then Submission_REPLAY_EXISTING else Submission_IDEMPOTENCY_CONFLICT)
               (submission_fingerprint request) (Some existing)))"

section \<open>Submission keeps one receipt per key\<close>

fun submission_view :: "submission_resolution \<Rightarrow> submission_receipt option keyed_answer" where
  "submission_view r = (case sn_decision r of
     Submission_ACCEPT \<Rightarrow> Fresh
   | Submission_REPLAY_EXISTING \<Rightarrow> Replay (sn_existing_receipt r)
   | Submission_IDEMPOTENCY_CONFLICT \<Rightarrow> Conflict (sn_existing_receipt r))"

definition submission_answer ::
  "submission_request \<Rightarrow> submission_receipt list \<Rightarrow> submission_receipt option keyed_answer result" where
  "submission_answer q ps = rbind (resolve_submission q ps) (\<lambda>r. Inr (submission_view r))"

lemma submission_fingerprint_digest [simp]: "is_digest (submission_fingerprint q)"
  by (simp add: submission_fingerprint_def is_digest_digest)

lemma submission_fingerprint_time:
  "submission_fingerprint (q\<lparr>sq_submitted_at := t\<rparr>) = submission_fingerprint q"
  by (simp add: submission_fingerprint_def)

lemma mk_submission_resolution_Inr:
  "is_digest f \<Longrightarrow> mk_submission_resolution Submission_ACCEPT f None =
     Inr \<lparr>sn_decision = Submission_ACCEPT, sn_request_fingerprint = f, sn_existing_receipt = None\<rparr>"
  "is_digest f \<Longrightarrow> mk_submission_resolution d f (Some p) =
     Inr \<lparr>sn_decision = d, sn_request_fingerprint = f, sn_existing_receipt = Some p\<rparr>"
  by (simp_all add: mk_submission_resolution_def contract_simps)

interpretation submissions: keyed_resolution submission_answer sr_request sq_idempotency_key
  submission_fingerprint Some
  by unfold_locales
    (auto simp: submission_answer_def resolve_submission_def mk_submission_resolution_Inr raising.simps
      list_ex_iff split: list.splits)

section \<open>Properties\<close>

text \<open>Submission is exactly once per idempotency key. When the accepted receipts are stored, there
  is one per key; retrying an accepted request, at whatever time, is answered 202 with the original
  receipt whatever was submitted in between, and reusing the key for another operation, attempt or
  payload is answered 409 with the original receipt.\<close>

theorem submission_exactly_once:
  assumes "one_per_key sr_request sq_idempotency_key ps"
    and "resolve_submission (sr_request p) ps = Inr r" "sn_decision r = Submission_ACCEPT"
    and "later = serve (register submission_answer sr_request) rs (ps @ [p])"
    and "sq_idempotency_key q = sq_idempotency_key (sr_request p)"
  shows "one_per_key sr_request sq_idempotency_key later
     \<and> (\<exists>s. resolve_submission q later = Inr s \<and> sn_existing_receipt s = Some p
        \<and> (submission_fingerprint q = submission_fingerprint (sr_request p) \<longrightarrow>
             sn_decision s = Submission_REPLAY_EXISTING \<and> http_status s = 202)
        \<and> (submission_fingerprint q \<noteq> submission_fingerprint (sr_request p) \<longrightarrow>
             sn_decision s = Submission_IDEMPOTENCY_CONFLICT \<and> http_status s = 409))
     \<and> (\<exists>s. resolve_submission ((sr_request p)\<lparr>sq_submitted_at := t\<rparr>) later = Inr s
        \<and> sn_decision s = Submission_REPLAY_EXISTING \<and> sn_existing_receipt s = Some p)"
proof -
  have fresh: "submission_answer (sr_request p) ps = Inr Fresh" using assms(2,3) by (simp add: submission_answer_def)
  have "one_per_key sr_request sq_idempotency_key (ps @ [p])"
    using submissions.register_one_per_key [OF assms(1), of p] fresh by (simp add: register_def)
  then have one: "one_per_key sr_request sq_idempotency_key later"
    unfolding assms(4) by (rule submissions.registry.serve_inv)
  have answer: "\<exists>s. resolve_submission q later = Inr s \<and> sn_existing_receipt s = Some p
      \<and> sn_decision s = (if submission_fingerprint q = submission_fingerprint (sr_request p)
           then Submission_REPLAY_EXISTING else Submission_IDEMPOTENCY_CONFLICT)"
    if key: "sq_idempotency_key q = sq_idempotency_key (sr_request p)" for q
  proof -
    obtain s where s: "resolve_submission q later = Inr s"
      "submission_view s = (if submission_fingerprint q = submission_fingerprint (sr_request p)
         then Replay (Some p) else Conflict (Some p))"
      using submissions.first_wins [OF assms(1) fresh assms(4) key] by (auto simp: submission_answer_def)
    then show ?thesis by (cases "sn_decision s") (auto split: if_splits)
  qed
  obtain s where "resolve_submission q later = Inr s" "sn_existing_receipt s = Some p"
    "sn_decision s = (if submission_fingerprint q = submission_fingerprint (sr_request p)
       then Submission_REPLAY_EXISTING else Submission_IDEMPOTENCY_CONFLICT)"
    using answer [OF assms(5)] by blast
  then have "\<exists>s. resolve_submission q later = Inr s \<and> sn_existing_receipt s = Some p
      \<and> (submission_fingerprint q = submission_fingerprint (sr_request p) \<longrightarrow>
           sn_decision s = Submission_REPLAY_EXISTING \<and> http_status s = 202)
      \<and> (submission_fingerprint q \<noteq> submission_fingerprint (sr_request p) \<longrightarrow>
           sn_decision s = Submission_IDEMPOTENCY_CONFLICT \<and> http_status s = 409)"
    by (intro exI [of _ s]) (simp add: http_status_def)
  with answer [of "(sr_request p)\<lparr>sq_submitted_at := t\<rparr>"] one
  show ?thesis by (auto simp: submission_fingerprint_time)
qed

definition sample_submission :: submission_request where
  "sample_submission = \<lparr>sq_idempotency_key = ''k'', sq_operation = ''run'', sq_attempt_id = ''a-1'',
     sq_payload_digest = digest_text ''p'', sq_submitted_at = 0\<rparr>"

definition sample_accepted_receipt :: submission_receipt where
  "sample_accepted_receipt = \<lparr>sr_request = sample_submission, sr_accepted_at = 1\<rparr>"

lemma sample_submission_accepted:
  "resolve_submission (sr_request sample_accepted_receipt) [] = Inr \<lparr>sn_decision = Submission_ACCEPT,
     sn_request_fingerprint = submission_fingerprint sample_submission, sn_existing_receipt = None\<rparr>"
  by (simp add: resolve_submission_def mk_submission_resolution_Inr sample_accepted_receipt_def)

theorem submission_exactly_once_witness:
  "\<exists>s. resolve_submission (sample_submission\<lparr>sq_submitted_at := 9\<rparr>) [sample_accepted_receipt] = Inr s
     \<and> sn_decision s = Submission_REPLAY_EXISTING \<and> sn_existing_receipt s = Some sample_accepted_receipt"
  using submission_exactly_once [OF _ sample_submission_accepted, of "[sample_accepted_receipt]" "[]"
      sample_submission 9]
  by (auto simp: one_per_key_def sample_accepted_receipt_def)

end
