(* ===== verification/Submission_Dispatch.thy ===== *)
theory Submission_Dispatch
  imports Submissions Dispatch
begin

text \<open>
  \<open>src/backend/app/strategy_lab_v2/submission_dispatch.py\<close>: the receipt of an accepted submission and the
  dispatch of its work, decided together. An adapter that commits the returned ledger and enqueues the
  envelope in one transaction never exposes a job without a receipt; a retry repairs a receipt whose
  dispatch was lost.
\<close>

section \<open>The decision\<close>

text \<open>The ledger is its one field, the receipts.\<close>

definition receipt_key :: "submission_receipt \<Rightarrow> string" where
  "receipt_key r = sq_idempotency_key (sr_request r)"

definition mk_receipt_ledger :: "submission_receipt list \<Rightarrow> submission_receipt list result" where
  "mk_receipt_ledger receipts =
     raising
       [(\<not> distinct (map receipt_key receipts), ''submission idempotency keys must be unique'')]
       (Inr (sort_key receipt_key receipts))"

datatype submission_dispatch_decision = SD_ENQUEUED | SD_REPLAY_EXISTING | SD_CONFLICT | SD_REJECT

record submission_dispatch =
  sd_decision :: submission_dispatch_decision
  sd_ledger :: "submission_receipt list"
  sd_request_fingerprint :: string
  sd_receipt :: "submission_receipt option"
  sd_dispatch_resolution :: "dispatch_resolution option"
  sd_envelope :: "dispatch_envelope option"
  sd_rejection_reason :: "string option"

definition mk_submission_dispatch ::
  "submission_dispatch_decision \<Rightarrow> submission_receipt list \<Rightarrow> string \<Rightarrow> submission_receipt option
     \<Rightarrow> dispatch_resolution option \<Rightarrow> dispatch_envelope option \<Rightarrow> string option \<Rightarrow> submission_dispatch result" where
  "mk_submission_dispatch decision ledger request_fp receipt dispatch envelope reason =
     raising
       (digest_checks request_fp ''request_fingerprint''
        @ [(decision \<in> {SD_ENQUEUED, SD_REPLAY_EXISTING} \<and> (receipt = None \<or> dispatch = None \<or> envelope = None),
              ''accepted resolutions require receipt and dispatch evidence''),
           (decision \<in> {SD_ENQUEUED, SD_REPLAY_EXISTING}
              \<and> dr_decision (the dispatch) \<notin> {Dispatch_ENQUEUE, Dispatch_REPLAY_EXISTING},
              ''accepted resolutions require an accepted dispatch''),
           (decision \<in> {SD_CONFLICT, SD_REJECT} \<and> no_reason reason, ''conflicts and rejections require a reason''),
           (decision \<notin> {SD_CONFLICT, SD_REJECT} \<and> \<not> no_reason reason,
              ''accepted resolutions cannot contain a rejection reason'')])
       (Inr \<lparr>sd_decision = decision, sd_ledger = ledger, sd_request_fingerprint = request_fp, sd_receipt = receipt,
             sd_dispatch_resolution = dispatch, sd_envelope = envelope, sd_rejection_reason = reason\<rparr>)"

definition reject_submission ::
  "submission_receipt list \<Rightarrow> string \<Rightarrow> submission_dispatch_decision \<Rightarrow> string \<Rightarrow> submission_dispatch result" where
  "reject_submission ledger request_fp decision reason =
     mk_submission_dispatch decision ledger request_fp None None None (Some reason)"

definition resolve_submission_dispatch ::
  "submission_receipt list \<Rightarrow> submission_request \<Rightarrow> dispatch_request \<Rightarrow> datetime \<Rightarrow> dispatch_request list
     \<Rightarrow> submission_dispatch result" where
  "resolve_submission_dispatch ledger request dispatch_request accepted_at prior_dispatches =
     with_aware accepted_at ''accepted_at must be timezone-aware'' (\<lambda>t.
       let reject = reject_submission ledger (submission_fingerprint request)
       in if t < sq_submitted_at request then reject SD_REJECT ''acceptance cannot precede submission''
          else if dq_attempt_id dispatch_request \<noteq> sq_attempt_id request then
            reject SD_REJECT ''dispatch references a different attempt''
          else if dq_payload_digest dispatch_request \<noteq> sq_payload_digest request then
            reject SD_REJECT ''dispatch payload differs from submission''
          else if dq_idempotency_key dispatch_request \<noteq> sq_idempotency_key request then
            reject SD_REJECT ''dispatch idempotency key differs from submission''
          else if dq_created_at dispatch_request < sq_submitted_at request then
            reject SD_REJECT ''dispatch cannot precede submission''
          else rbind (resolve_submission request ledger) (\<lambda>submission.
            if sn_decision submission = Submission_IDEMPOTENCY_CONFLICT then
              reject SD_CONFLICT ''submission idempotency key is bound to different content''
            else rbind (if sn_decision submission = Submission_REPLAY_EXISTING then Inr (sn_existing_receipt submission)
                        else rbind (create_submission_receipt request accepted_at) (\<lambda>r. Inr (Some r))) (\<lambda>existing.
              case existing of
                None \<Rightarrow> Inl AssertionError
              | Some receipt \<Rightarrow>
                  rbind (resolve_idempotent_dispatch dispatch_request prior_dispatches) (\<lambda>dispatch.
                    if dr_decision dispatch = Dispatch_IDEMPOTENCY_CONFLICT then
                      reject SD_CONFLICT ''dispatch idempotency key is bound to different content''
                    else if sn_decision submission = Submission_ACCEPT \<and> dr_decision dispatch = Dispatch_REPLAY_EXISTING then
                      reject SD_CONFLICT ''dispatch exists without a submission receipt''
                    else rbind (if sn_decision submission = Submission_ACCEPT then mk_receipt_ledger (ledger @ [receipt])
                                else Inr ledger) (\<lambda>next_ledger.
                      rbind (build_dispatch_envelope dispatch_request) (\<lambda>envelope.
                        mk_submission_dispatch
                          (if sn_decision submission = Submission_REPLAY_EXISTING
                              \<and> dr_decision dispatch = Dispatch_REPLAY_EXISTING
                           then SD_REPLAY_EXISTING else SD_ENQUEUED)
                          next_ledger (submission_fingerprint request) (Some receipt) (Some dispatch) (Some envelope) None))))))"

section \<open>What each state of the stores answers\<close>

definition sd_linked :: "instant \<Rightarrow> submission_request \<Rightarrow> dispatch_request \<Rightarrow> bool" where
  "sd_linked t q d \<longleftrightarrow> sq_submitted_at q \<le> t \<and> dq_attempt_id d = sq_attempt_id q \<and> dq_payload_digest d = sq_payload_digest q
     \<and> dq_idempotency_key d = sq_idempotency_key q \<and> sq_submitted_at q \<le> dq_created_at d"

type_synonym submission_store = "submission_receipt list \<times> dispatch_request list"

text \<open>What the two stores keep: one receipt and one dispatch per key, and no dispatch without a receipt, accepted
  no earlier than it was submitted, whose submission identity is that of some operation on the attempt
  and payload of the dispatch.\<close>

definition receipt_covers :: "submission_receipt \<Rightarrow> dispatch_request \<Rightarrow> bool" where
  "receipt_covers r d \<longleftrightarrow> receipt_key r = dq_idempotency_key d
     \<and> (\<exists>operation. submission_id r = submission_fingerprint \<lparr>sq_idempotency_key = dq_idempotency_key d,
          sq_operation = operation, sq_attempt_id = dq_attempt_id d, sq_payload_digest = dq_payload_digest d,
          sq_submitted_at = 0\<rparr>)"

definition submission_store_ok :: "submission_store \<Rightarrow> bool" where
  "submission_store_ok s \<longleftrightarrow> distinct (map receipt_key (fst s)) \<and> distinct (map dq_idempotency_key (snd s))
     \<and> (\<forall>r \<in> set (fst s). sq_submitted_at (sr_request r) \<le> sr_accepted_at r)
     \<and> (\<forall>d \<in> set (snd s). \<exists>r \<in> set (fst s). receipt_covers r d)"

definition submission_store_le :: "submission_store \<Rightarrow> submission_store \<Rightarrow> bool" where
  "submission_store_le s t \<longleftrightarrow> set (fst s) \<subseteq> set (fst t) \<and> prefix (snd s) (snd t)"

text \<open>The adapter: commit the ledger and append the enqueued dispatch.\<close>

definition submit_step ::
  "submission_request \<times> dispatch_request \<times> datetime \<Rightarrow> submission_store \<Rightarrow> submission_store result" where
  "submit_step c s = (case c of (q, d, now) \<Rightarrow>
     rbind (resolve_submission_dispatch (fst s) q d now (snd s)) (\<lambda>x.
       Inr (sd_ledger x,
            if sd_decision x = SD_ENQUEUED \<and> map_option dr_decision (sd_dispatch_resolution x) = Some Dispatch_ENQUEUE
            then snd s @ [d] else snd s)))"

lemma mk_receipt_ledger_Inr:
  "mk_receipt_ledger rs = Inr l \<longleftrightarrow> distinct (map receipt_key rs) \<and> l = sort_key receipt_key rs"
  by (auto simp: mk_receipt_ledger_def contract_simps)

lemma mk_submission_dispatch_simps:
  "is_digest fp \<Longrightarrow> dr_decision x \<noteq> Dispatch_IDEMPOTENCY_CONFLICT \<Longrightarrow> d \<in> {SD_ENQUEUED, SD_REPLAY_EXISTING} \<Longrightarrow>
     mk_submission_dispatch d l fp (Some r) (Some x) (Some e) None = Inr \<lparr>sd_decision = d, sd_ledger = l,
       sd_request_fingerprint = fp, sd_receipt = Some r, sd_dispatch_resolution = Some x, sd_envelope = Some e,
       sd_rejection_reason = None\<rparr>"
  "is_digest fp \<Longrightarrow> d \<in> {SD_CONFLICT, SD_REJECT} \<Longrightarrow> m \<noteq> [] \<Longrightarrow> reject_submission l fp d m = Inr \<lparr>sd_decision = d,
       sd_ledger = l, sd_request_fingerprint = fp, sd_receipt = None, sd_dispatch_resolution = None, sd_envelope = None,
       sd_rejection_reason = Some m\<rparr>"
  by (cases "dr_decision x"; auto simp: mk_submission_dispatch_def raising_Inr_iff digests_clean no_reason_def)
    (auto simp: mk_submission_dispatch_def reject_submission_def raising_Inr_iff digests_clean no_reason_def)

lemma resolve_submission_new:
  "\<forall>r \<in> set l. receipt_key r \<noteq> sq_idempotency_key q \<Longrightarrow> resolve_submission q l
     = Inr \<lparr>sn_decision = Submission_ACCEPT, sn_request_fingerprint = submission_fingerprint q, sn_existing_receipt = None\<rparr>"
  by (simp add: resolve_submission_def receipt_key_def mk_submission_resolution_Inr)

lemma resolve_submission_known:
  assumes "distinct (map receipt_key l)" "r \<in> set l" "receipt_key r = sq_idempotency_key q"
  shows "resolve_submission q l = Inr \<lparr>sn_decision = (if submission_fingerprint (sr_request r) = submission_fingerprint q
       then Submission_REPLAY_EXISTING else Submission_IDEMPOTENCY_CONFLICT),
     sn_request_fingerprint = submission_fingerprint q, sn_existing_receipt = Some r\<rparr>"
proof -
  have "one_per_key sr_request sq_idempotency_key l" using assms(1) by (simp add: one_per_key_def receipt_key_def [abs_def])
  from submissions.filter_key [OF this assms(2)] show ?thesis
    using assms(3) by (simp add: resolve_submission_def receipt_key_def raising.simps mk_submission_resolution_Inr)
qed

lemma unlinked_rejected:
  assumes "\<not> sd_linked t q d"
  shows "\<exists>m. m \<noteq> [] \<and> resolve_submission_dispatch l q d (Aware t z) ds
    = reject_submission l (submission_fingerprint q) SD_REJECT m"
proof -
  let ?reject = "reject_submission l (submission_fingerprint q) SD_REJECT"
  have first: "k \<noteq> [] \<Longrightarrow> (\<not> c \<Longrightarrow> \<exists>m. m \<noteq> [] \<and> x = ?reject m) \<Longrightarrow> \<exists>m. m \<noteq> [] \<and> (if c then ?reject k else x) = ?reject m"
    for k c x by auto
  show ?thesis
    unfolding resolve_submission_dispatch_def with_aware.simps Let_def
    by (intro first) (use assms in \<open>simp_all add: sd_linked_def\<close>)
qed

lemma linked_resolution:
  assumes "sd_linked t q d"
  shows "resolve_submission_dispatch l q d (Aware t z) ds =
    rbind (resolve_submission q l) (\<lambda>submission.
      if sn_decision submission = Submission_IDEMPOTENCY_CONFLICT then
        reject_submission l (submission_fingerprint q) SD_CONFLICT ''submission idempotency key is bound to different content''
      else rbind (if sn_decision submission = Submission_REPLAY_EXISTING then Inr (sn_existing_receipt submission)
                  else Inr (Some \<lparr>sr_request = q, sr_accepted_at = t\<rparr>)) (\<lambda>existing.
        case existing of
          None \<Rightarrow> Inl AssertionError
        | Some receipt \<Rightarrow>
            rbind (resolve_idempotent_dispatch d ds) (\<lambda>dispatch.
              if dr_decision dispatch = Dispatch_IDEMPOTENCY_CONFLICT then
                reject_submission l (submission_fingerprint q) SD_CONFLICT ''dispatch idempotency key is bound to different content''
              else if sn_decision submission = Submission_ACCEPT \<and> dr_decision dispatch = Dispatch_REPLAY_EXISTING then
                reject_submission l (submission_fingerprint q) SD_CONFLICT ''dispatch exists without a submission receipt''
              else rbind (if sn_decision submission = Submission_ACCEPT then mk_receipt_ledger (l @ [receipt]) else Inr l)
                (\<lambda>next_ledger. mk_submission_dispatch
                   (if sn_decision submission = Submission_REPLAY_EXISTING \<and> dr_decision dispatch = Dispatch_REPLAY_EXISTING
                    then SD_REPLAY_EXISTING else SD_ENQUEUED)
                   next_ledger (submission_fingerprint q) (Some receipt) (Some dispatch) (Some (envelope_for d)) None))))"
proof -
  have "create_submission_receipt q (Aware t z) = Inr \<lparr>sr_request = q, sr_accepted_at = t\<rparr>"
    using assms by (simp add: create_submission_receipt_def mk_submission_receipt_def raising_Inr_iff sd_linked_def)
  moreover have "\<not> t < sq_submitted_at q" "\<not> dq_created_at d < sq_submitted_at q" "dq_attempt_id d = sq_attempt_id q"
    "dq_payload_digest d = sq_payload_digest q" "dq_idempotency_key d = sq_idempotency_key q"
    using assms by (simp_all add: sd_linked_def)
  ultimately show ?thesis
    unfolding resolve_submission_dispatch_def with_aware.simps Let_def
    by (simp add: build_dispatch_envelope_Inr cong: if_cong option.case_cong)
qed

lemmas resolution_simps = mk_submission_dispatch_simps mk_receipt_ledger_Inr

text \<open>The five states of the stores for the key of a linked request.\<close>

lemma dispatch_new_key:
  assumes "submission_store_ok (l, ds)" "sd_linked t q d" "\<forall>r \<in> set l. receipt_key r \<noteq> sq_idempotency_key q"
  shows "\<exists>x. resolve_submission_dispatch l q d (Aware t z) ds = Inr x \<and> sd_decision x = SD_ENQUEUED
    \<and> sd_ledger x = sort_key receipt_key (l @ [\<lparr>sr_request = q, sr_accepted_at = t\<rparr>])
    \<and> sd_receipt x = Some \<lparr>sr_request = q, sr_accepted_at = t\<rparr> \<and> sd_envelope x = Some (envelope_for d)
    \<and> map_option dr_decision (sd_dispatch_resolution x) = Some Dispatch_ENQUEUE"
proof -
  have "\<forall>e \<in> set ds. dq_idempotency_key e \<noteq> dq_idempotency_key d"
    using assms by (fastforce simp: submission_store_ok_def receipt_covers_def sd_linked_def)
  note dispatch = resolve_dispatch_new [OF this]
  have "distinct (map receipt_key (l @ [\<lparr>sr_request = q, sr_accepted_at = t\<rparr>]))"
    using assms(1,3) by (auto simp: submission_store_ok_def receipt_key_def [of "\<lparr>sr_request = q, sr_accepted_at = t\<rparr>"])
  then have "mk_receipt_ledger (l @ [\<lparr>sr_request = q, sr_accepted_at = t\<rparr>])
      = Inr (sort_key receipt_key (l @ [\<lparr>sr_request = q, sr_accepted_at = t\<rparr>]))" by (simp add: mk_receipt_ledger_Inr)
  then show ?thesis
    by (simp add: linked_resolution [OF assms(2)] resolve_submission_new [OF assms(3)] dispatch mk_submission_dispatch_simps
        del: sort_key_simps)
qed

lemma dispatch_known_key:
  assumes "submission_store_ok (l, ds)" "sd_linked t q d" "r \<in> set l" "receipt_key r = sq_idempotency_key q"
  shows "submission_fingerprint (sr_request r) \<noteq> submission_fingerprint q \<Longrightarrow>
      \<exists>x. resolve_submission_dispatch l q d (Aware t z) ds = Inr x \<and> sd_decision x = SD_CONFLICT \<and> sd_ledger x = l
        \<and> sd_receipt x = None \<and> sd_envelope x = None \<and> sd_dispatch_resolution x = None"
    and "submission_fingerprint (sr_request r) = submission_fingerprint q \<Longrightarrow>
      \<forall>e \<in> set ds. dq_idempotency_key e \<noteq> dq_idempotency_key d \<Longrightarrow>
      \<exists>x. resolve_submission_dispatch l q d (Aware t z) ds = Inr x \<and> sd_decision x = SD_ENQUEUED \<and> sd_ledger x = l
        \<and> sd_receipt x = Some r \<and> sd_envelope x = Some (envelope_for d)
        \<and> map_option dr_decision (sd_dispatch_resolution x) = Some Dispatch_ENQUEUE"
    and "submission_fingerprint (sr_request r) = submission_fingerprint q \<Longrightarrow>
      e \<in> set ds \<Longrightarrow> dq_idempotency_key e = dq_idempotency_key d \<Longrightarrow>
      \<exists>x. resolve_submission_dispatch l q d (Aware t z) ds = Inr x \<and> sd_ledger x = l
        \<and> (if dispatch_fingerprint e = dispatch_fingerprint d
           then sd_decision x = SD_REPLAY_EXISTING \<and> sd_receipt x = Some r \<and> sd_envelope x = Some (envelope_for d)
           else sd_decision x = SD_CONFLICT \<and> sd_receipt x = None \<and> sd_envelope x = None)"
proof -
  have l: "distinct (map receipt_key l)" and ds: "distinct (map dq_idempotency_key ds)"
    using assms(1) by (simp_all add: submission_store_ok_def)
  note known = linked_resolution [OF assms(2)] resolve_submission_known [OF l assms(3,4)] mk_submission_dispatch_simps
  show "submission_fingerprint (sr_request r) \<noteq> submission_fingerprint q \<Longrightarrow>
      \<exists>x. resolve_submission_dispatch l q d (Aware t z) ds = Inr x \<and> sd_decision x = SD_CONFLICT \<and> sd_ledger x = l
        \<and> sd_receipt x = None \<and> sd_envelope x = None \<and> sd_dispatch_resolution x = None"
    by (simp add: known)
  show "\<exists>x. resolve_submission_dispatch l q d (Aware t z) ds = Inr x \<and> sd_decision x = SD_ENQUEUED \<and> sd_ledger x = l
        \<and> sd_receipt x = Some r \<and> sd_envelope x = Some (envelope_for d)
        \<and> map_option dr_decision (sd_dispatch_resolution x) = Some Dispatch_ENQUEUE"
    if "submission_fingerprint (sr_request r) = submission_fingerprint q"
      "\<forall>e \<in> set ds. dq_idempotency_key e \<noteq> dq_idempotency_key d"
    using that(1) by (simp add: known resolve_dispatch_new [OF that(2)])
  show "\<exists>x. resolve_submission_dispatch l q d (Aware t z) ds = Inr x \<and> sd_ledger x = l
        \<and> (if dispatch_fingerprint e = dispatch_fingerprint d
           then sd_decision x = SD_REPLAY_EXISTING \<and> sd_receipt x = Some r \<and> sd_envelope x = Some (envelope_for d)
           else sd_decision x = SD_CONFLICT \<and> sd_receipt x = None \<and> sd_envelope x = None)"
    if "submission_fingerprint (sr_request r) = submission_fingerprint q" "e \<in> set ds" "dq_idempotency_key e = dq_idempotency_key d"
    using that(1) by (cases "dispatch_fingerprint e = dispatch_fingerprint d")
      (simp_all add: known resolve_dispatch_known [OF ds that(2,3)])
qed

lemma linked_covers:
  "sd_linked t q d \<Longrightarrow> receipt_key r = sq_idempotency_key q \<Longrightarrow> submission_fingerprint (sr_request r) = submission_fingerprint q
     \<Longrightarrow> receipt_covers r d"
  by (auto simp: receipt_covers_def sd_linked_def submission_id_def submission_fingerprint_def)

lemma resolution_aware:
  "resolve_submission_dispatch l q d now ds = Inr x \<Longrightarrow> \<exists>t z. now = Aware t z"
  by (auto simp: resolve_submission_dispatch_def with_aware_eq_Inr)

text \<open>How an answer relates to the stores.\<close>

lemma dispatch_cases:
  assumes ok: "submission_store_ok (l, ds)" and x: "resolve_submission_dispatch l q d now ds = Inr x"
  obtains (declined) "sd_decision x \<in> {SD_CONFLICT, SD_REJECT}" "sd_ledger x = l" "sd_receipt x = None" "sd_envelope x = None"
  | (accepted) t z where "now = Aware t z" "sd_linked t q d" "sd_decision x = SD_ENQUEUED"
      "sd_ledger x = sort_key receipt_key (l @ [\<lparr>sr_request = q, sr_accepted_at = t\<rparr>])"
      "sd_receipt x = Some \<lparr>sr_request = q, sr_accepted_at = t\<rparr>" "sd_envelope x = Some (envelope_for d)"
      "\<forall>r \<in> set l. receipt_key r \<noteq> sq_idempotency_key q" "\<forall>e \<in> set ds. dq_idempotency_key e \<noteq> dq_idempotency_key d"
      "map_option dr_decision (sd_dispatch_resolution x) = Some Dispatch_ENQUEUE"
  | (repaired) t z r where "now = Aware t z" "sd_linked t q d" "sd_decision x = SD_ENQUEUED" "sd_ledger x = l" "r \<in> set l"
      "sd_receipt x = Some r" "sd_envelope x = Some (envelope_for d)" "receipt_key r = sq_idempotency_key q"
      "submission_fingerprint (sr_request r) = submission_fingerprint q"
      "\<forall>e \<in> set ds. dq_idempotency_key e \<noteq> dq_idempotency_key d"
      "map_option dr_decision (sd_dispatch_resolution x) = Some Dispatch_ENQUEUE"
  | (replayed) t z r e where "now = Aware t z" "sd_linked t q d" "sd_decision x = SD_REPLAY_EXISTING" "sd_ledger x = l"
      "r \<in> set l" "sd_receipt x = Some r" "sd_envelope x = Some (envelope_for d)" "receipt_key r = sq_idempotency_key q"
      "submission_fingerprint (sr_request r) = submission_fingerprint q" "e \<in> set ds"
      "dispatch_fingerprint e = dispatch_fingerprint d" "dq_idempotency_key e = dq_idempotency_key d"
proof -
  obtain t z where now: "now = Aware t z" using resolution_aware [OF x] by blast
  show thesis
  proof (cases "sd_linked t q d")
    case False
    then obtain m where "m \<noteq> []" "reject_submission l (submission_fingerprint q) SD_REJECT m = Inr x"
      using unlinked_rejected x now by metis
    then show thesis by (intro declined) (auto simp: mk_submission_dispatch_simps)
  next
    case linked: True
    show thesis
    proof (cases "\<exists>r \<in> set l. receipt_key r = sq_idempotency_key q")
      case False
      then have new: "\<forall>r \<in> set l. receipt_key r \<noteq> sq_idempotency_key q" by blast
      then have "\<forall>e \<in> set ds. dq_idempotency_key e \<noteq> dq_idempotency_key d"
        using ok linked by (fastforce simp: submission_store_ok_def receipt_covers_def sd_linked_def)
      with dispatch_new_key [OF ok linked new, of z] x now new linked show thesis by (intro accepted) auto
    next
      case True
      then obtain r where r: "r \<in> set l" "receipt_key r = sq_idempotency_key q" by blast
      note known = dispatch_known_key [OF ok linked r]
      consider "submission_fingerprint (sr_request r) \<noteq> submission_fingerprint q"
        | "submission_fingerprint (sr_request r) = submission_fingerprint q" "\<forall>e \<in> set ds. dq_idempotency_key e \<noteq> dq_idempotency_key d"
        | e where "submission_fingerprint (sr_request r) = submission_fingerprint q" "e \<in> set ds"
            "dq_idempotency_key e = dq_idempotency_key d" by blast
      then show thesis
      proof cases
        case 1
        from known(1) [OF this, of z] x now show thesis by (intro declined) auto
      next
        case 2
        from known(2) [OF this, of z] x now linked r 2 show thesis by (intro repaired [of t z r]) auto
      next
        case (3 e)
        note answer = known(3) [OF this, of z]
        show thesis
        proof (cases "dispatch_fingerprint e = dispatch_fingerprint d")
          case True
          with answer x now linked r 3 show thesis by (intro replayed [of t z r e]) auto
        next
          case False
          with answer x now show thesis by (intro declined) auto
        qed
      qed
    qed
  qed
qed

lemma submit_step_keeps:
  assumes ok: "submission_store_ok s" and step: "submit_step c s = Inr s'"
  shows "submission_store_ok s' \<and> submission_store_le s s'"
proof -
  obtain l ds q d now where c: "s = (l, ds)" "c = (q, d, now)" by (metis prod_cases3 surj_pair)
  obtain x where x: "resolve_submission_dispatch l q d now ds = Inr x"
    and s': "s' = (sd_ledger x, if sd_decision x = SD_ENQUEUED
        \<and> map_option dr_decision (sd_dispatch_resolution x) = Some Dispatch_ENQUEUE then ds @ [d] else ds)"
    using step by (auto simp: submit_step_def c)
  from ok [unfolded c(1)] x show ?thesis
  proof (cases rule: dispatch_cases)
    case declined
    then show ?thesis using ok s' c(1) by (auto simp: submission_store_le_def)
  next
    case (accepted t z)
    let ?r = "\<lparr>sr_request = q, sr_accepted_at = t\<rparr>"
    have "receipt_covers ?r d" using accepted(2) by (intro linked_covers [of t q]) (simp_all add: receipt_key_def)
    moreover have "distinct (map receipt_key (l @ [?r]))" using ok accepted(7)
      by (auto simp: submission_store_ok_def c(1) receipt_key_def [of ?r])
    then have "distinct (map receipt_key (sort_key receipt_key (l @ [?r])))" by (simp only: distinct_map set_sort distinct_sort)
    ultimately show ?thesis
      using ok accepted s' c(1) by (auto simp: submission_store_ok_def submission_store_le_def sd_linked_def)
  next
    case (repaired t z r)
    then have "receipt_covers r d" by (intro linked_covers)
    with repaired s' ok c(1) show ?thesis by (auto simp: submission_store_ok_def submission_store_le_def)
  next
    case replayed
    then show ?thesis using ok s' c(1) by (auto simp: submission_store_le_def)
  qed
qed

interpretation submission_stores: guarded_machine submit_step submission_store_ok submission_store_le
  by unfold_locales
    (use submit_step_keeps in blast, use submit_step_keeps in blast, auto simp: submission_store_le_def)

lemma submission_answered:
  assumes ok: "submission_store_ok (l, ds)"
  shows "\<exists>x. resolve_submission_dispatch l q d (Aware t z) ds = Inr x"
proof (cases "sd_linked t q d")
  case False
  then show ?thesis using unlinked_rejected [of t q d l z ds] by (auto simp: mk_submission_dispatch_simps)
next
  case True
  then show ?thesis
    using dispatch_new_key [OF ok True] dispatch_known_key [OF ok True] by (metis (no_types))
qed

text \<open>Once the receipt and the dispatch of a key are stored, what a later linked request with this key is answered.\<close>

lemma submission_replayed:
  assumes ok: "submission_store_ok (l, ds)" and stored: "r \<in> set l" "e \<in> set ds"
    and keys: "receipt_key r = sq_idempotency_key q" "dq_idempotency_key e = dq_idempotency_key d" and linked: "sd_linked t q d"
  shows "\<exists>y. resolve_submission_dispatch l q d (Aware t z) ds = Inr y \<and> sd_ledger y = l
    \<and> (if submission_fingerprint q = submission_fingerprint (sr_request r) \<and> dispatch_fingerprint d = dispatch_fingerprint e
       then sd_decision y = SD_REPLAY_EXISTING \<and> sd_receipt y = Some r
         \<and> map_option de_message_id (sd_envelope y) = Some (dispatch_fingerprint e)
       else sd_decision y = SD_CONFLICT \<and> sd_receipt y = None \<and> sd_envelope y = None)"
proof (cases "submission_fingerprint q = submission_fingerprint (sr_request r)")
  case True
  from dispatch_known_key(3) [OF ok linked stored(1) keys(1) True [symmetric] stored(2) keys(2), of z] True show ?thesis
    by (auto simp: envelope_for_def split: if_splits)
next
  case False
  from dispatch_known_key(1) [OF ok linked stored(1) keys(1) False [symmetric], of z] False show ?thesis by auto
qed

text \<open>What the stores hold after an accepted request.\<close>

lemma accepted_stored:
  assumes ok: "submission_store_ok (l, ds)" and x: "resolve_submission_dispatch l q d now ds = Inr x"
    and accepted: "sd_decision x \<notin> {SD_CONFLICT, SD_REJECT}"
  shows "\<exists>r e. sd_receipt x = Some r \<and> set (sd_ledger x) = insert r (set l) \<and> sd_envelope x = Some (envelope_for d)
    \<and> receipt_key r = sq_idempotency_key q \<and> submission_fingerprint (sr_request r) = submission_fingerprint q
    \<and> (\<exists>t. sd_linked t q d) \<and> (\<forall>s1. submit_step (q, d, now) (l, ds) = Inr s1 \<longrightarrow> e \<in> set (snd s1))
    \<and> dispatch_fingerprint e = dispatch_fingerprint d \<and> dq_idempotency_key e = dq_idempotency_key d"
  using ok x
proof (cases rule: dispatch_cases)
  case declined
  with accepted show ?thesis by blast
next
  case (accepted t z)
  let ?r = "\<lparr>sr_request = q, sr_accepted_at = t\<rparr>"
  show ?thesis by (rule exI [of _ ?r], rule exI [of _ d]) (use accepted x in \<open>auto simp: submit_step_def receipt_key_def\<close>)
next
  case (repaired t z r)
  show ?thesis by (rule exI [of _ r], rule exI [of _ d]) (use repaired x in \<open>auto simp: submit_step_def\<close>)
next
  case (replayed t z r e)
  show ?thesis by (rule exI [of _ r], rule exI [of _ e]) (use replayed x in \<open>auto simp: submit_step_def\<close>)
qed

section \<open>Properties\<close>

text \<open>C10: a submission is accepted and dispatched together or not at all, and once. On valid stores every request with a
  time zone is answered. A rejected or conflicting request leaves the receipts as they were and yields neither receipt nor
  message. An accepted one yields a receipt that is in the new ledger, which holds no other new receipt, and the message
  of the dispatch. Whatever is submitted afterwards, both stores stay valid and keep the receipt; a later linked request with the same key is
  answered with the same receipt and the same message when submission and dispatch are the same, with a conflict and
  without a message otherwise, and changes nothing.\<close>

theorem submission_dispatched_once:
  assumes ok: "submission_store_ok (l, ds)"
  shows "\<exists>x. resolve_submission_dispatch l q d (Aware t z) ds = Inr x
    \<and> (if sd_decision x \<in> {SD_CONFLICT, SD_REJECT} then sd_ledger x = l \<and> sd_receipt x = None \<and> sd_envelope x = None
       else \<exists>r. sd_receipt x = Some r \<and> set (sd_ledger x) = insert r (set l) \<and> receipt_covers r d
         \<and> sd_envelope x = Some (envelope_for d)
         \<and> (\<forall>s1 cs l' ds' t' z' q' d'. submit_step (q, d, Aware t z) (l, ds) = Inr s1 \<and> (l', ds') = serve submit_step cs s1
              \<and> sd_linked t' q' d' \<and> sq_idempotency_key q' = sq_idempotency_key q \<longrightarrow>
              submission_store_ok (l', ds') \<and> r \<in> set l'
              \<and> (\<exists>y. resolve_submission_dispatch l' q' d' (Aware t' z') ds' = Inr y \<and> sd_ledger y = l'
                   \<and> (if submission_fingerprint q' = submission_fingerprint q \<and> dispatch_fingerprint d' = dispatch_fingerprint d
                      then sd_decision y = SD_REPLAY_EXISTING \<and> sd_receipt y = sd_receipt x
                        \<and> map_option de_message_id (sd_envelope y) = map_option de_message_id (sd_envelope x)
                      else sd_decision y = SD_CONFLICT \<and> sd_receipt y = None \<and> sd_envelope y = None))))"
proof -
  obtain x where x: "resolve_submission_dispatch l q d (Aware t z) ds = Inr x" using submission_answered [OF ok] by blast
  show ?thesis
  proof (cases "sd_decision x \<in> {SD_CONFLICT, SD_REJECT}")
    case True
    from ok x have "sd_ledger x = l \<and> sd_receipt x = None \<and> sd_envelope x = None"
      by (cases rule: dispatch_cases) (use True in auto)
    with True x show ?thesis by auto
  next
    case False
    obtain r e where r: "sd_receipt x = Some r" "set (sd_ledger x) = insert r (set l)" "sd_envelope x = Some (envelope_for d)"
        "receipt_key r = sq_idempotency_key q" "submission_fingerprint (sr_request r) = submission_fingerprint q" "\<exists>t. sd_linked t q d"
      and e: "\<And>s1. submit_step (q, d, Aware t z) (l, ds) = Inr s1 \<Longrightarrow> e \<in> set (snd s1)"
        "dispatch_fingerprint e = dispatch_fingerprint d" "dq_idempotency_key e = dq_idempotency_key d"
      using accepted_stored [OF ok x False] by blast
    have s1: "submission_store_ok s1 \<and> fst s1 = sd_ledger x" if "submit_step (q, d, Aware t z) (l, ds) = Inr s1" for s1
      using submit_step_keeps [OF ok that] that x by (auto simp: submit_step_def)
    have later: "submission_store_ok (l', ds') \<and> r \<in> set l'
        \<and> (\<exists>y. resolve_submission_dispatch l' q' d' (Aware t' z') ds' = Inr y \<and> sd_ledger y = l'
             \<and> (if submission_fingerprint q' = submission_fingerprint q \<and> dispatch_fingerprint d' = dispatch_fingerprint d
                then sd_decision y = SD_REPLAY_EXISTING \<and> sd_receipt y = sd_receipt x
                  \<and> map_option de_message_id (sd_envelope y) = map_option de_message_id (sd_envelope x)
                else sd_decision y = SD_CONFLICT \<and> sd_receipt y = None \<and> sd_envelope y = None))"
      if step: "submit_step (q, d, Aware t z) (l, ds) = Inr s1" and run: "(l', ds') = serve submit_step cs s1"
        and q': "sd_linked t' q' d'" "sq_idempotency_key q' = sq_idempotency_key q" for s1 cs l' ds' t' z' q' d'
    proof -
      have ok': "submission_store_ok (l', ds')" and le: "submission_store_le s1 (l', ds')"
        unfolding run using s1 [OF step] by (simp_all add: submission_stores.serve_inv submission_stores.serve_le)
      have stored: "r \<in> set l'" "e \<in> set ds'"
        using le s1 [OF step] r(2) e(1) [OF step] by (auto simp: submission_store_le_def prefix_def)
      have keys: "receipt_key r = sq_idempotency_key q'" "dq_idempotency_key e = dq_idempotency_key d'"
        using r(4,6) e(3) q' by (auto simp: sd_linked_def)
      from submission_replayed [OF ok' stored keys q'(1), of z'] ok' stored(1) show ?thesis
        using r(1,3,5) e(2) by (auto simp: envelope_for_def split: if_splits)
    qed
    have "receipt_covers r d" using r(4,5,6) linked_covers by blast
    with False x r(1-3) later show ?thesis by (intro exI [of _ x]) auto
  qed
qed

lemma sample_linked: "sd_linked 1 sample_submission sample_dispatch"
  by (simp add: sd_linked_def sample_submission_def sample_dispatch_def)

theorem submission_dispatched_once_witness:
  "\<exists>x y. resolve_submission_dispatch [] sample_submission sample_dispatch (Aware 1 0) [] = Inr x \<and> sd_decision x = SD_ENQUEUED
     \<and> resolve_submission_dispatch (sd_ledger x) sample_submission sample_dispatch (Aware 1 0) [sample_dispatch] = Inr y
     \<and> sd_decision y = SD_REPLAY_EXISTING \<and> sd_receipt y = sd_receipt x"
proof -
  have ok: "submission_store_ok ([], [])" by (simp add: submission_store_ok_def)
  obtain x where x: "resolve_submission_dispatch [] sample_submission sample_dispatch (Aware 1 0) [] = Inr x"
      "sd_decision x = SD_ENQUEUED" "map_option dr_decision (sd_dispatch_resolution x) = Some Dispatch_ENQUEUE"
    using dispatch_new_key [OF ok sample_linked, of 0] by auto
  then have step: "submit_step (sample_submission, sample_dispatch, Aware 1 0) ([], []) = Inr (sd_ledger x, [sample_dispatch])"
    by (simp add: submit_step_def)
  have run: "(sd_ledger x, [sample_dispatch]) = serve submit_step [] (sd_ledger x, [sample_dispatch])" by simp
  have "sd_decision x \<notin> {SD_CONFLICT, SD_REJECT}" using x(2) by simp
  with submission_dispatched_once [OF ok, of sample_submission sample_dispatch 1 0] x(1) step run sample_linked
  have "\<exists>y. resolve_submission_dispatch (sd_ledger x) sample_submission sample_dispatch (Aware 1 0) [sample_dispatch] = Inr y
      \<and> sd_decision y = SD_REPLAY_EXISTING \<and> sd_receipt y = sd_receipt x"
    by (metis (no_types) sum.inject(2))
  with x show ?thesis by blast
qed

end
