(* ===== verification/Search_State.thy ===== *)
theory Search_State
  imports Contracts "HOL-Library.Sublist"
begin

text \<open>
  \<open>src/backend/app/strategy_lab_v2/search_state.py\<close>: the resumable, cancellable queue of the candidates of a
  search, its start, terminal, cancellation and append operations.
\<close>

datatype search_phase =
    Candidate_PENDING | Candidate_RUNNING | Candidate_SUCCEEDED | Candidate_FAILED | Candidate_CANCELLED

definition terminal_candidate_phases :: "search_phase set" where
  "terminal_candidate_phases = {Candidate_SUCCEEDED, Candidate_FAILED, Candidate_CANCELLED}"

record search_candidate =
  sc_candidate_index :: int
  sc_trial_fingerprint :: string
  sc_phase :: search_phase
  sc_attempt_id :: "string option"
  sc_attempt_count :: int
  sc_result_fingerprint :: "string option"
  sc_updated_at :: "instant option"

definition mk_search_candidate ::
  "int \<Rightarrow> string \<Rightarrow> search_phase \<Rightarrow> string option \<Rightarrow> int \<Rightarrow> string option \<Rightarrow> datetime option
     \<Rightarrow> search_candidate result" where
  "mk_search_candidate candidate_index trial_fingerprint phase attempt_id attempt_count result_fingerprint updated_at =
     raising
       ([(candidate_index < 0, ''candidate_index must be a non-negative integer'')]
        @ digest_checks trial_fingerprint ''trial_fingerprint''
        @ [((case attempt_id of None \<Rightarrow> False | Some a \<Rightarrow> blank a), ''attempt_id must not be empty''),
           (attempt_count < 0, ''attempt_count must be a non-negative integer'')]
        @ (case phase of
             Candidate_PENDING \<Rightarrow>
               [(attempt_id \<noteq> None \<or> attempt_count \<noteq> 0 \<or> result_fingerprint \<noteq> None,
                   ''pending candidates cannot contain attempts or results'')]
           | Candidate_RUNNING \<Rightarrow>
               [(attempt_id = None \<or> attempt_count < 1 \<or> result_fingerprint \<noteq> None,
                   ''running candidates require one active attempt and no result'')]
           | Candidate_SUCCEEDED \<Rightarrow>
               [(attempt_id = None \<or> attempt_count < 1 \<or> result_fingerprint = None,
                   ''successful candidates require an attempt and result'')]
               @ opt_digest_checks result_fingerprint ''result_fingerprint''
           | _ \<Rightarrow>
               [(attempt_id = None \<or> attempt_count < 1 \<or> result_fingerprint \<noteq> None,
                   ''failed or cancelled candidates require an attempt and no result'')]))
       (with_aware_opt updated_at ''updated_at must be timezone-aware'' (\<lambda>updated.
          Inr \<lparr>sc_candidate_index = candidate_index, sc_trial_fingerprint = trial_fingerprint, sc_phase = phase,
               sc_attempt_id = attempt_id, sc_attempt_count = attempt_count,
               sc_result_fingerprint = result_fingerprint, sc_updated_at = updated\<rparr>))"

definition search_candidate_remake :: "search_candidate \<Rightarrow> search_candidate result" where
  "search_candidate_remake c =
     mk_search_candidate (sc_candidate_index c) (sc_trial_fingerprint c) (sc_phase c) (sc_attempt_id c)
       (sc_attempt_count c) (sc_result_fingerprint c) (map_option utc (sc_updated_at c))"

record search_execution =
  se_experiment_fingerprint :: string
  se_candidates :: "search_candidate list"
  se_cancellation_requested :: bool
  se_cancellation_request_id :: "string option"
  se_updated_at :: "instant option"

definition mk_search_execution ::
  "string \<Rightarrow> search_candidate list \<Rightarrow> bool \<Rightarrow> string option \<Rightarrow> datetime option \<Rightarrow> search_execution result" where
  "mk_search_execution experiment_fingerprint candidates requested request_id updated_at =
     raising
       (digest_checks experiment_fingerprint ''experiment_fingerprint''
        @ [(candidates = [], ''search execution requires at least one candidate''),
           (map sc_candidate_index candidates \<noteq> map int [0..<length candidates],
              ''search candidate indices must be contiguous''),
           (\<not> distinct (map sc_trial_fingerprint candidates), ''search trial fingerprints must be unique'')]
        @ opt_digest_checks request_id ''cancellation_request_id''
        @ [(requested \<and> request_id = None, ''cancelled searches require a cancellation request identity''),
           (\<not> requested \<and> request_id \<noteq> None,
              ''uncancelled searches cannot contain a cancellation request identity'')])
       (with_aware_opt updated_at ''updated_at must be timezone-aware'' (\<lambda>updated.
          Inr \<lparr>se_experiment_fingerprint = experiment_fingerprint, se_candidates = candidates,
               se_cancellation_requested = requested, se_cancellation_request_id = request_id,
               se_updated_at = updated\<rparr>))"

definition search_execution_remake :: "search_execution \<Rightarrow> search_execution result" where
  "search_execution_remake s =
     mk_search_execution (se_experiment_fingerprint s) (se_candidates s) (se_cancellation_requested s)
       (se_cancellation_request_id s) (map_option utc (se_updated_at s))"

definition pending_candidate_indices :: "search_execution \<Rightarrow> int list" where
  "pending_candidate_indices s =
     map sc_candidate_index (filter (\<lambda>c. sc_phase c = Candidate_PENDING) (se_candidates s))"

definition search_complete :: "search_execution \<Rightarrow> bool" where
  "search_complete s \<longleftrightarrow> list_all (\<lambda>c. sc_phase c \<in> terminal_candidate_phases) (se_candidates s)"

text \<open>The comprehension that builds pending candidates, numbered from \<open>start\<close>.\<close>

fun pending_candidates :: "int \<Rightarrow> string list \<Rightarrow> datetime option \<Rightarrow> search_candidate list result" where
  "pending_candidates start [] now = Inr []"
| "pending_candidates start (f # fs) now =
     rbind (mk_search_candidate start f Candidate_PENDING None 0 None now) (\<lambda>c.
       rbind (pending_candidates (start + 1) fs now) (\<lambda>cs. Inr (c # cs)))"

definition trial_checks :: "string list \<Rightarrow> (bool \<times> string) list" where
  "trial_checks fs = concat (map (\<lambda>f. digest_checks f ''trial_fingerprint'') fs)"

definition new_search_execution_state :: "string \<Rightarrow> string list \<Rightarrow> datetime option \<Rightarrow> search_execution result" where
  "new_search_execution_state experiment_fingerprint trial_fingerprints now =
     raising
       (digest_checks experiment_fingerprint ''experiment_fingerprint''
        @ [(trial_fingerprints = [], ''trial_fingerprints must be a non-empty tuple'')]
        @ trial_checks trial_fingerprints
        @ [(\<not> distinct trial_fingerprints, ''trial_fingerprints must be unique'')])
       (with_aware_opt now ''now must be timezone-aware'' (\<lambda>_.
          rbind (pending_candidates 0 trial_fingerprints now) (\<lambda>candidates.
            mk_search_execution experiment_fingerprint candidates False None now)))"

datatype search_decision = Search_APPLY | Search_REPLAY_EXISTING | Search_REJECT

record search_resolution =
  sr_decision :: search_decision
  sr_state :: search_execution
  sr_candidate_index :: "int option"
  sr_rejection_reason :: "string option"

definition mk_search_resolution ::
  "search_decision \<Rightarrow> search_execution \<Rightarrow> int option \<Rightarrow> string option \<Rightarrow> search_resolution result" where
  "mk_search_resolution decision state candidate_index reason =
     raising
       [(decision = Search_REJECT \<and> (reason = None \<or> reason = Some []), ''rejected search transitions require a reason''),
        (decision \<noteq> Search_REJECT \<and> \<not> (reason = None \<or> reason = Some []),
           ''successful search transitions cannot contain a reason'')]
       (Inr \<lparr>sr_decision = decision, sr_state = state, sr_candidate_index = candidate_index,
             sr_rejection_reason = reason\<rparr>)"

definition search_candidate_at :: "search_execution \<Rightarrow> int \<Rightarrow> search_candidate result" where
  "search_candidate_at s i =
     raising [(i < 0 \<or> i \<ge> int (length (se_candidates s)), ''candidate_index is outside the search'')]
       (Inr (se_candidates s ! nat i))"

definition before_update :: "instant \<Rightarrow> search_execution \<Rightarrow> bool" where
  "before_update t s \<longleftrightarrow> (case se_updated_at s of None \<Rightarrow> False | Some u \<Rightarrow> t < u)"

definition replace_candidate :: "search_execution \<Rightarrow> search_candidate \<Rightarrow> datetime \<Rightarrow> search_execution result" where
  "replace_candidate s c now =
     with_aware now ''now must be timezone-aware'' (\<lambda>t.
       raising [(before_update t s, ''search transition time cannot move backwards'')]
         (rbind (search_candidate_remake (c\<lparr>sc_updated_at := Some t\<rparr>)) (\<lambda>c'.
            search_execution_remake (s\<lparr>se_candidates := (se_candidates s)[nat (sc_candidate_index c) := c'],
              se_updated_at := Some t\<rparr>))))"

definition start_search_candidate ::
  "search_execution \<Rightarrow> int \<Rightarrow> string \<Rightarrow> datetime \<Rightarrow> search_resolution result" where
  "start_search_candidate state i attempt_id now =
     raising [(blank attempt_id, ''attempt_id must not be empty'')]
       (with_aware now ''now must be timezone-aware'' (\<lambda>t.
        rbind (search_candidate_at state i) (\<lambda>candidate.
          let rejected = (\<lambda>reason. mk_search_resolution Search_REJECT state (Some i) (Some reason))
          in if se_cancellation_requested state then rejected ''search cancellation has been requested''
             else if sc_phase candidate = Candidate_RUNNING then
               (if sc_attempt_id candidate = Some attempt_id
                then mk_search_resolution Search_REPLAY_EXISTING state (Some i) None
                else rejected ''candidate already has a different active attempt'')
             else if sc_phase candidate \<in> {Candidate_SUCCEEDED, Candidate_CANCELLED} then
               rejected ''terminal candidate cannot be started''
             else if before_update t state then rejected ''candidate start time cannot move backwards''
             else
               rbind (search_candidate_remake (candidate\<lparr>sc_phase := Candidate_RUNNING,
                        sc_attempt_id := Some attempt_id, sc_attempt_count := sc_attempt_count candidate + 1,
                        sc_result_fingerprint := None\<rparr>)) (\<lambda>running.
               rbind (replace_candidate state running now) (\<lambda>next.
                 mk_search_resolution Search_APPLY next (Some i) None)))))"

definition record_search_candidate_terminal ::
  "search_execution \<Rightarrow> int \<Rightarrow> string \<Rightarrow> search_phase \<Rightarrow> datetime \<Rightarrow> string option \<Rightarrow> search_resolution result" where
  "record_search_candidate_terminal state i attempt_id phase now result_fingerprint =
     raising [(blank attempt_id, ''attempt_id must not be empty'')]
       (with_aware now ''now must be timezone-aware'' (\<lambda>t.
        raising
          ((phase \<notin> terminal_candidate_phases, ''terminal candidate records require a terminal phase'')
           # (if phase = Candidate_SUCCEEDED
              then digest_checks (case result_fingerprint of None \<Rightarrow> [] | Some r \<Rightarrow> r) ''result_fingerprint''
              else [(result_fingerprint \<noteq> None, ''failed or cancelled candidates cannot contain a result'')]))
          (rbind (search_candidate_at state i) (\<lambda>candidate.
            let rejected = (\<lambda>reason. mk_search_resolution Search_REJECT state (Some i) (Some reason))
            in if sc_phase candidate \<in> terminal_candidate_phases then
                 (if sc_attempt_id candidate = Some attempt_id \<and> sc_phase candidate = phase
                     \<and> sc_result_fingerprint candidate = result_fingerprint
                  then mk_search_resolution Search_REPLAY_EXISTING state (Some i) None
                  else rejected ''terminal candidate content conflicts with the existing receipt'')
               else if sc_phase candidate \<noteq> Candidate_RUNNING \<or> sc_attempt_id candidate \<noteq> Some attempt_id then
                 rejected ''terminal receipt must match the active candidate attempt''
               else if se_cancellation_requested state \<and> phase \<noteq> Candidate_CANCELLED then
                 rejected ''cancelled searches require cancelled candidate receipts''
               else
                 rbind (search_candidate_remake (candidate\<lparr>sc_phase := phase,
                          sc_result_fingerprint := result_fingerprint\<rparr>)) (\<lambda>terminal.
                 rbind (replace_candidate state terminal now) (\<lambda>next.
                   mk_search_resolution Search_APPLY next (Some i) None))))))"

definition request_search_cancellation :: "search_execution \<Rightarrow> string \<Rightarrow> datetime \<Rightarrow> search_resolution result" where
  "request_search_cancellation state request_id now =
     raising (digest_checks request_id ''request_id'')
       (with_aware now ''now must be timezone-aware'' (\<lambda>t.
          let rejected = (\<lambda>reason. mk_search_resolution Search_REJECT state None (Some reason))
          in if se_cancellation_requested state then
               (if se_cancellation_request_id state = Some request_id
                then mk_search_resolution Search_REPLAY_EXISTING state None None
                else rejected ''search cancellation is already bound to another request'')
             else if search_complete state then rejected ''completed searches cannot be cancelled''
             else if before_update t state then rejected ''cancellation time cannot move backwards''
             else
               rbind (search_execution_remake (state\<lparr>se_cancellation_requested := True,
                        se_cancellation_request_id := Some request_id, se_updated_at := Some t\<rparr>)) (\<lambda>next.
                 mk_search_resolution Search_APPLY next None None)))"

definition append_search_candidates ::
  "search_execution \<Rightarrow> string list \<Rightarrow> datetime \<Rightarrow> search_resolution result" where
  "append_search_candidates state trial_fingerprints now =
     raising
       ([(trial_fingerprints = [], ''trial_fingerprints must be a non-empty tuple'')]
        @ trial_checks trial_fingerprints
        @ [(\<not> distinct trial_fingerprints, ''appended trial fingerprints must be unique'')])
       (with_aware now ''now must be timezone-aware'' (\<lambda>t.
          let existing = map sc_trial_fingerprint (se_candidates state);
              rejected = (\<lambda>reason. mk_search_resolution Search_REJECT state None (Some reason))
          in if length trial_fingerprints \<le> length existing
                \<and> drop (length existing - length trial_fingerprints) existing = trial_fingerprints then
               mk_search_resolution Search_REPLAY_EXISTING state None None
             else if se_cancellation_requested state then
               rejected ''cancelled searches cannot append candidate phases''
             else if \<not> search_complete state
                \<or> list_ex (\<lambda>c. sc_phase c \<noteq> Candidate_SUCCEEDED) (se_candidates state) then
               rejected ''candidate phases can append only after every prior candidate succeeds''
             else if set existing \<inter> set trial_fingerprints \<noteq> {} then
               rejected ''appended trials must not reuse an existing trial identity''
             else if before_update t state then
               rejected ''candidate phase append time cannot move backwards''
             else
               rbind (pending_candidates (int (length (se_candidates state))) trial_fingerprints (Some now)) (\<lambda>appended.
               rbind (search_execution_remake (state\<lparr>se_candidates := se_candidates state @ appended,
                        se_updated_at := Some t\<rparr>)) (\<lambda>next.
                 mk_search_resolution Search_APPLY next (Some (int (length (se_candidates state)))) None))))"

section \<open>Invariant\<close>

definition search_candidate_ok :: "search_candidate \<Rightarrow> bool" where
  "search_candidate_ok c \<longleftrightarrow> 0 \<le> sc_candidate_index c \<and> is_digest (sc_trial_fingerprint c)
     \<and> (\<forall>a. sc_attempt_id c = Some a \<longrightarrow> \<not> blank a)
     \<and> (if sc_phase c = Candidate_PENDING then sc_attempt_id c = None \<and> sc_attempt_count c = 0
        else sc_attempt_id c \<noteq> None \<and> 1 \<le> sc_attempt_count c)
     \<and> (if sc_phase c = Candidate_SUCCEEDED then \<exists>r. sc_result_fingerprint c = Some r \<and> is_digest r
        else sc_result_fingerprint c = None)"

definition search_shape_ok :: "search_execution \<Rightarrow> bool" where
  "search_shape_ok s \<longleftrightarrow> is_digest (se_experiment_fingerprint s) \<and> se_candidates s \<noteq> []
     \<and> map sc_candidate_index (se_candidates s) = map int [0..<length (se_candidates s)]
     \<and> distinct (map sc_trial_fingerprint (se_candidates s))
     \<and> (\<forall>r. se_cancellation_request_id s = Some r \<longrightarrow> is_digest r)
     \<and> (se_cancellation_requested s \<longleftrightarrow> se_cancellation_request_id s \<noteq> None)"

definition search_ok :: "search_execution \<Rightarrow> bool" where
  "search_ok s \<longleftrightarrow> search_shape_ok s \<and> (\<forall>c \<in> set (se_candidates s). search_candidate_ok c)"

lemma mk_search_candidate_ok: "mk_search_candidate i f p a n r u = Inr c \<Longrightarrow> search_candidate_ok c"
  by (cases p) (auto simp: mk_search_candidate_def search_candidate_ok_def is_digest_def digest_checks_def
      opt_digest_checks_def contract_simps split: option.splits)

lemma mk_search_candidate_fields:
  "mk_search_candidate i f p a n r u = Inr c \<Longrightarrow> sc_candidate_index c = i \<and> sc_trial_fingerprint c = f \<and> sc_phase c = p"
  by (cases p) (auto simp: mk_search_candidate_def digest_checks_def opt_digest_checks_def contract_simps
      split: option.splits)

lemma search_candidate_remake_iff: "search_candidate_remake c = Inr d \<longleftrightarrow> search_candidate_ok c \<and> d = c"
  by (cases c; cases "sc_phase c"; cases "sc_updated_at c")
    (auto simp: search_candidate_remake_def mk_search_candidate_def search_candidate_ok_def is_digest_def
      digest_checks_def opt_digest_checks_def contract_simps utc_def split: option.splits)

interpretation candidate: validated search_candidate_remake search_candidate_ok
  by unfold_locales (rule search_candidate_remake_iff)

lemma search_execution_remake_iff: "search_execution_remake s = Inr t \<longleftrightarrow> search_shape_ok s \<and> t = s"
  by (cases s; cases "se_updated_at s"; cases "se_cancellation_request_id s")
    (auto simp: search_execution_remake_def mk_search_execution_def search_shape_ok_def is_digest_def
      digest_checks_def opt_digest_checks_def contract_simps utc_def split: option.splits)

interpretation search: validated search_execution_remake search_shape_ok
  by unfold_locales (rule search_execution_remake_iff)

lemma mk_search_resolution_Inr:
  "mk_search_resolution d s i m = Inr r \<Longrightarrow> sr_decision r = d \<and> sr_state r = s \<and> sr_candidate_index r = i"
  by (auto simp: mk_search_resolution_def contract_simps)

lemma replace_candidate_Inr:
  "replace_candidate s c now = Inr t \<longleftrightarrow>
     (\<exists>u z. now = Aware u z \<and> \<not> before_update u s \<and> search_candidate_ok (c\<lparr>sc_updated_at := Some u\<rparr>)
        \<and> t = s\<lparr>se_candidates := (se_candidates s)[nat (sc_candidate_index c) := c\<lparr>sc_updated_at := Some u\<rparr>],
                se_updated_at := Some u\<rparr> \<and> search_shape_ok t)"
  by (auto simp: replace_candidate_def contract_simps search_candidate_remake_iff search_execution_remake_iff)

lemma search_candidate_at_Inr:
  "search_candidate_at s i = Inr c \<longleftrightarrow> 0 \<le> i \<and> i < int (length (se_candidates s)) \<and> c = se_candidates s ! nat i"
  by (auto simp: search_candidate_at_def contract_simps)

lemma candidate_position:
  assumes "search_shape_ok s" "n < length (se_candidates s)"
  shows "sc_candidate_index (se_candidates s ! n) = int n"
proof -
  have "map sc_candidate_index (se_candidates s) ! n = map int [0..<length (se_candidates s)] ! n"
    using assms(1) by (simp add: search_shape_ok_def)
  with assms(2) show ?thesis by simp
qed

lemma pending_candidates_Inr:
  "pending_candidates k fs now = Inr cs \<Longrightarrow> map sc_trial_fingerprint cs = fs
     \<and> (\<forall>c \<in> set cs. search_candidate_ok c \<and> sc_phase c = Candidate_PENDING)"
  by (induction fs arbitrary: k cs) (auto dest: mk_search_candidate_ok mk_search_candidate_fields)

section \<open>One step of a candidate\<close>

text \<open>How one candidate may move: a start of a pending or failed candidate, when the search is not
  cancelled, or a terminal receipt for its running attempt.\<close>

definition candidate_moves :: "bool \<Rightarrow> search_candidate \<Rightarrow> search_candidate \<Rightarrow> bool" where
  "candidate_moves cancelled c d \<longleftrightarrow> sc_candidate_index d = sc_candidate_index c
     \<and> sc_trial_fingerprint d = sc_trial_fingerprint c
     \<and> (if sc_phase d = Candidate_RUNNING
        then \<not> cancelled \<and> sc_phase c \<in> {Candidate_PENDING, Candidate_FAILED}
           \<and> sc_attempt_count d = sc_attempt_count c + 1
        else sc_phase c = Candidate_RUNNING \<and> sc_phase d \<in> terminal_candidate_phases
           \<and> (cancelled \<longrightarrow> sc_phase d = Candidate_CANCELLED)
           \<and> sc_attempt_count d = sc_attempt_count c \<and> sc_attempt_id d = sc_attempt_id c)"

definition candidate_updated :: "search_execution \<Rightarrow> search_execution \<Rightarrow> bool" where
  "candidate_updated s t \<longleftrightarrow> (\<exists>n d u. n < length (se_candidates s) \<and> search_candidate_ok d \<and> \<not> before_update u s
     \<and> candidate_moves (se_cancellation_requested s) (se_candidates s ! n) d
     \<and> t = s\<lparr>se_candidates := (se_candidates s)[n := d], se_updated_at := Some u\<rparr>)"

lemma phase_cases: "p \<notin> {Candidate_SUCCEEDED, Candidate_CANCELLED} \<Longrightarrow> p \<noteq> Candidate_RUNNING
    \<Longrightarrow> p \<in> {Candidate_PENDING, Candidate_FAILED}"
  by (cases p) auto

lemma start_search_candidate_cases:
  assumes ok: "search_shape_ok s" and r: "start_search_candidate s i a now = Inr r"
  shows "sr_state r = s \<or> sr_decision r = Search_APPLY \<and> candidate_updated s (sr_state r) \<and> search_shape_ok (sr_state r)"
proof -
  define c where "c = se_candidates s ! nat i"
  obtain t z where i: "now = Aware t z" "0 \<le> i" "i < int (length (se_candidates s))"
    using r by (auto simp: start_search_candidate_def contract_simps search_candidate_at_Inr)
  have pos: "nat (sc_candidate_index c) = nat i" using candidate_position [OF ok, of "nat i"] i by (simp add: c_def)
  let ?d = "c\<lparr>sc_phase := Candidate_RUNNING, sc_attempt_id := Some a, sc_attempt_count := sc_attempt_count c + 1,
    sc_result_fingerprint := None, sc_updated_at := Some t\<rparr>"
  have "candidate_updated s next" if "replace_candidate s (c\<lparr>sc_phase := Candidate_RUNNING, sc_attempt_id := Some a,
      sc_attempt_count := sc_attempt_count c + 1, sc_result_fingerprint := None\<rparr>) now = Inr next"
    "\<not> se_cancellation_requested s" "sc_phase c \<in> {Candidate_PENDING, Candidate_FAILED}" for "next"
    using that pos i unfolding candidate_updated_def
    by (intro exI [of _ "nat i"] exI [of _ ?d] exI [of _ t])
      (auto simp: replace_candidate_Inr candidate_moves_def c_def)
  then show ?thesis
    using r phase_cases [of "sc_phase c"]
    by (auto simp: start_search_candidate_def Let_def contract_simps search_candidate_at_Inr search_candidate_remake_iff
        c_def [symmetric] replace_candidate_Inr dest!: mk_search_resolution_Inr split: if_splits)
qed

lemma record_terminal_cases:
  assumes ok: "search_shape_ok s" and r: "record_search_candidate_terminal s i a p now f = Inr r"
  shows "sr_state r = s \<or> sr_decision r = Search_APPLY \<and> candidate_updated s (sr_state r) \<and> search_shape_ok (sr_state r)"
proof -
  define c where "c = se_candidates s ! nat i"
  obtain t z where i: "now = Aware t z" "0 \<le> i" "i < int (length (se_candidates s))" and p: "p \<in> terminal_candidate_phases"
    using r by (auto simp: record_search_candidate_terminal_def raising_Inr_iff with_aware_eq_Inr search_candidate_at_Inr)
  have pos: "nat (sc_candidate_index c) = nat i" using candidate_position [OF ok, of "nat i"] i by (simp add: c_def)
  let ?d = "c\<lparr>sc_phase := p, sc_result_fingerprint := f, sc_updated_at := Some t\<rparr>"
  have "candidate_updated s next"
    if "replace_candidate s (c\<lparr>sc_phase := p, sc_result_fingerprint := f\<rparr>) now = Inr next"
      "sc_phase c = Candidate_RUNNING" "se_cancellation_requested s \<longrightarrow> p = Candidate_CANCELLED" for "next"
    using that pos i p unfolding candidate_updated_def
    by (intro exI [of _ "nat i"] exI [of _ ?d] exI [of _ t])
      (auto simp: replace_candidate_Inr candidate_moves_def c_def terminal_candidate_phases_def)
  then show ?thesis
    using r
    by (auto simp: record_search_candidate_terminal_def Let_def raising_Inr_iff with_aware_eq_Inr search_candidate_at_Inr
        search_candidate_remake_iff c_def [symmetric] replace_candidate_Inr dest!: mk_search_resolution_Inr split: if_splits)
qed

lemma request_cancellation_cases:
  assumes "request_search_cancellation s i now = Inr r"
  shows "sr_state r = s \<or> (\<exists>u. \<not> se_cancellation_requested s \<and> \<not> before_update u s \<and> search_shape_ok (sr_state r)
    \<and> \<not> search_complete s
    \<and> sr_state r = s\<lparr>se_cancellation_requested := True, se_cancellation_request_id := Some i, se_updated_at := Some u\<rparr>)"
  using assms
  by (auto simp: request_search_cancellation_def Let_def contract_simps search_execution_remake_iff
      dest!: mk_search_resolution_Inr split: if_splits)

lemma append_candidates_cases:
  assumes "append_search_candidates s fs now = Inr r"
  shows "sr_state r = s \<or> (\<exists>u cs. \<not> se_cancellation_requested s \<and> \<not> before_update u s \<and> search_shape_ok (sr_state r)
    \<and> (\<forall>c \<in> set (se_candidates s). sc_phase c = Candidate_SUCCEEDED)
    \<and> map sc_trial_fingerprint cs = fs \<and> (\<forall>c \<in> set cs. search_candidate_ok c \<and> sc_phase c = Candidate_PENDING)
    \<and> sr_state r = s\<lparr>se_candidates := se_candidates s @ cs, se_updated_at := Some u\<rparr>)"
  using assms
  by (auto simp: append_search_candidates_def Let_def raising_Inr_iff with_aware_eq_Inr search_execution_remake_iff list_ex_iff
      dest!: mk_search_resolution_Inr pending_candidates_Inr split: if_splits)

section \<open>Requests to a search\<close>

datatype search_request =
    Start int string datetime
  | Finish int string search_phase datetime "string option"
  | Cancel_Search string datetime
  | Append_Trials "string list" datetime

fun search_resolve :: "search_request \<Rightarrow> search_execution \<Rightarrow> search_resolution result" where
  "search_resolve (Start i a now) s = start_search_candidate s i a now"
| "search_resolve (Finish i a p now f) s = record_search_candidate_terminal s i a p now f"
| "search_resolve (Cancel_Search i now) s = request_search_cancellation s i now"
| "search_resolve (Append_Trials fs now) s = append_search_candidates s fs now"

definition search_step :: "search_request \<Rightarrow> search_execution \<Rightarrow> search_execution result" where
  "search_step q s = rbind (search_resolve q s) (\<lambda>r. Inr (sr_state r))"

definition candidate_le :: "bool \<Rightarrow> search_candidate \<Rightarrow> search_candidate \<Rightarrow> bool" where
  "candidate_le cancelled c d \<longleftrightarrow> sc_trial_fingerprint d = sc_trial_fingerprint c
     \<and> sc_attempt_count c \<le> sc_attempt_count d
     \<and> (sc_phase c \<in> {Candidate_SUCCEEDED, Candidate_CANCELLED} \<longrightarrow> d = c)
     \<and> (sc_phase c = Candidate_FAILED \<longrightarrow> d = c \<or> sc_attempt_count c < sc_attempt_count d)
     \<and> (sc_phase d = Candidate_PENDING \<longrightarrow> d = c)
     \<and> (cancelled \<longrightarrow> d = c \<or> sc_phase c = Candidate_RUNNING \<and> sc_phase d = Candidate_CANCELLED)"

definition search_le :: "search_execution \<Rightarrow> search_execution \<Rightarrow> bool" where
  "search_le s t \<longleftrightarrow> se_experiment_fingerprint t = se_experiment_fingerprint s
     \<and> length (se_candidates s) \<le> length (se_candidates t)
     \<and> (\<forall>n < length (se_candidates s).
          candidate_le (se_cancellation_requested s) (se_candidates s ! n) (se_candidates t ! n))
     \<and> (se_cancellation_requested s \<longrightarrow> length (se_candidates t) = length (se_candidates s)
          \<and> se_cancellation_requested t \<and> se_cancellation_request_id t = se_cancellation_request_id s)
     \<and> (\<forall>u. se_updated_at s = Some u \<longrightarrow> (\<exists>v \<ge> u. se_updated_at t = Some v))"

lemma candidate_le_refl: "candidate_le b c c"
  by (simp add: candidate_le_def)

lemma candidate_le_trans:
  assumes cd: "candidate_le b c d" and de: "candidate_le b' d e" and b: "b \<longrightarrow> b'"
  shows "candidate_le b c e"
proof -
  have "sc_phase c \<in> {Candidate_SUCCEEDED, Candidate_CANCELLED} \<longrightarrow> e = c"
  proof
    assume c: "sc_phase c \<in> {Candidate_SUCCEEDED, Candidate_CANCELLED}"
    then have "d = c" using cd unfolding candidate_le_def by blast
    with c de show "e = c" unfolding candidate_le_def by blast
  qed
  moreover have "sc_phase c = Candidate_FAILED \<longrightarrow> e = c \<or> sc_attempt_count c < sc_attempt_count e"
  proof
    assume c: "sc_phase c = Candidate_FAILED"
    have count: "sc_attempt_count d \<le> sc_attempt_count e" using de unfolding candidate_le_def by blast
    from c cd consider "d = c" | "sc_attempt_count c < sc_attempt_count d" unfolding candidate_le_def by blast
    then show "e = c \<or> sc_attempt_count c < sc_attempt_count e"
    proof cases
      case 1
      with c de show ?thesis unfolding candidate_le_def by blast
    next
      case 2
      with count show ?thesis by simp
    qed
  qed
  moreover have "sc_phase e = Candidate_PENDING \<longrightarrow> e = c"
  proof
    assume e: "sc_phase e = Candidate_PENDING"
    then have "e = d" using de unfolding candidate_le_def by blast
    with e cd show "e = c" unfolding candidate_le_def by blast
  qed
  moreover have "e = c \<or> sc_phase c = Candidate_RUNNING \<and> sc_phase e = Candidate_CANCELLED" if b
  proof -
    have cd': "d = c \<or> sc_phase c = Candidate_RUNNING \<and> sc_phase d = Candidate_CANCELLED"
      using cd that unfolding candidate_le_def by blast
    moreover have "e = d \<or> sc_phase d = Candidate_RUNNING \<and> sc_phase e = Candidate_CANCELLED"
      using de that b unfolding candidate_le_def by blast
    ultimately show ?thesis by auto
  qed
  moreover have "sc_trial_fingerprint e = sc_trial_fingerprint c"
    using cd de unfolding candidate_le_def by (elim conjE) (rule trans)
  moreover have "sc_attempt_count c \<le> sc_attempt_count e"
    using cd de unfolding candidate_le_def by (elim conjE) (rule order_trans)
  ultimately show ?thesis unfolding candidate_le_def by blast
qed

lemma candidate_moves_le: "candidate_moves b c d \<Longrightarrow> candidate_le b c d"
  by (auto simp: candidate_moves_def candidate_le_def terminal_candidate_phases_def split: if_splits)

lemma search_le_refl: "search_le s s"
  by (simp add: search_le_def candidate_le_refl)

lemma search_le_trans:
  assumes st: "search_le s t" and tu: "search_le t u"
  shows "search_le s u"
proof -
  have "candidate_le (se_cancellation_requested s) (se_candidates s ! n) (se_candidates u ! n)"
    if "n < length (se_candidates s)" for n
  proof (rule candidate_le_trans)
    show "candidate_le (se_cancellation_requested s) (se_candidates s ! n) (se_candidates t ! n)"
      using st that by (simp add: search_le_def)
    show "candidate_le (se_cancellation_requested t) (se_candidates t ! n) (se_candidates u ! n)"
      using st tu that by (simp add: search_le_def)
    show "se_cancellation_requested s \<longrightarrow> se_cancellation_requested t" using st by (simp add: search_le_def)
  qed
  moreover have "\<exists>v \<ge> x. se_updated_at u = Some v" if "se_updated_at s = Some x" for x
    using st tu that unfolding search_le_def by (meson order_trans)
  moreover have "length (se_candidates s) \<le> length (se_candidates u)"
    "se_experiment_fingerprint u = se_experiment_fingerprint s"
    using st tu by (simp_all add: search_le_def)
  moreover have "length (se_candidates u) = length (se_candidates s) \<and> se_cancellation_requested u
      \<and> se_cancellation_request_id u = se_cancellation_request_id s" if "se_cancellation_requested s"
    using st tu that by (simp add: search_le_def)
  ultimately show ?thesis by (simp add: search_le_def)
qed

lemma candidate_updated_le:
  assumes "candidate_updated s t"
  shows "search_le s t"
proof -
  obtain n d u where t: "n < length (se_candidates s)" "\<not> before_update u s"
    "candidate_moves (se_cancellation_requested s) (se_candidates s ! n) d"
    "t = s\<lparr>se_candidates := (se_candidates s)[n := d], se_updated_at := Some u\<rparr>"
    using assms by (auto simp: candidate_updated_def)
  with candidate_moves_le [OF t(3)] show ?thesis
    by (auto simp: search_le_def before_update_def not_less nth_list_update candidate_le_refl)
qed

lemma candidate_updated_ok: "candidate_updated s t \<Longrightarrow> search_ok s \<Longrightarrow> search_shape_ok t \<Longrightarrow> search_ok t"
  by (auto simp: candidate_updated_def search_ok_def dest!: set_update_subset_insert [THEN subsetD])

lemma search_step_keeps:
  assumes ok: "search_ok s" and t: "search_step q s = Inr t"
  shows "search_ok t \<and> search_le s t"
proof -
  obtain r where r: "search_resolve q s = Inr r" "t = sr_state r" using t by (auto simp: search_step_def)
  have sh: "search_shape_ok s" using ok by (simp add: search_ok_def)
  consider (same) "t = s" | (moved) "candidate_updated s t" "search_shape_ok t"
    | (cancelled) u i where "\<not> se_cancellation_requested s" "\<not> before_update u s" "search_shape_ok t"
        "t = s\<lparr>se_cancellation_requested := True, se_cancellation_request_id := Some i, se_updated_at := Some u\<rparr>"
    | (appended) u cs where "\<not> se_cancellation_requested s" "\<not> before_update u s" "search_shape_ok t"
        "\<forall>c \<in> set cs. search_candidate_ok c" "t = s\<lparr>se_candidates := se_candidates s @ cs, se_updated_at := Some u\<rparr>"
  proof (cases q)
    case (Start i a now)
    then show thesis using r start_search_candidate_cases [OF sh, of i a now r] same moved by auto
  next
    case (Finish i a p now f)
    then show thesis using r record_terminal_cases [OF sh, of i a p now f r] same moved by auto
  next
    case (Cancel_Search i now)
    then show thesis using r request_cancellation_cases [of s i now r] same cancelled by auto
  next
    case (Append_Trials fs now)
    then show thesis using r append_candidates_cases [of s fs now r] same appended by auto
  qed
  then show ?thesis
  proof cases
    case same
    with ok show ?thesis by (simp add: search_le_refl)
  next
    case moved
    with ok show ?thesis by (simp add: candidate_updated_le candidate_updated_ok)
  next
    case cancelled
    with ok show ?thesis
      by (auto simp: search_ok_def search_le_def before_update_def nth_append candidate_le_refl not_less)
  next
    case appended
    with ok show ?thesis
      by (auto simp: search_ok_def search_le_def before_update_def nth_append candidate_le_refl not_less)
  qed
qed

interpretation searches: guarded_machine search_step search_ok search_le
  by unfold_locales (auto dest: search_step_keeps intro: search_le_refl search_le_trans)

lemma search_shape_update:
  assumes "search_shape_ok s" "n < length (se_candidates s)" "sc_candidate_index d = int n"
    "sc_trial_fingerprint d = sc_trial_fingerprint (se_candidates s ! n)"
  shows "search_shape_ok (s\<lparr>se_candidates := (se_candidates s)[n := d], se_updated_at := u\<rparr>)"
proof -
  have "map sc_candidate_index ((se_candidates s)[n := d]) = map sc_candidate_index (se_candidates s)"
    "map sc_trial_fingerprint ((se_candidates s)[n := d]) = map sc_trial_fingerprint (se_candidates s)"
    using assms candidate_position [OF assms(1,2)] by (simp_all add: map_update list_update_same_conv)
  with assms(1) show ?thesis by (simp add: search_shape_ok_def)
qed

lemma replace_candidate_at:
  assumes ok: "search_shape_ok s" "n < length (se_candidates s)" "\<not> before_update t s"
    and d: "search_candidate_ok d" "sc_candidate_index d = int n"
      "sc_trial_fingerprint d = sc_trial_fingerprint (se_candidates s ! n)"
  shows "replace_candidate s d (Aware t z)
    = Inr (s\<lparr>se_candidates := (se_candidates s)[n := d\<lparr>sc_updated_at := Some t\<rparr>], se_updated_at := Some t\<rparr>)"
proof -
  have "search_candidate_ok (d\<lparr>sc_updated_at := Some t\<rparr>)" using d(1) by (simp add: search_candidate_ok_def)
  then show ?thesis
    using ok d search_shape_update [OF ok(1,2), of "d\<lparr>sc_updated_at := Some t\<rparr>" "Some t"]
    by (simp add: replace_candidate_Inr)
qed

definition with_candidate :: "search_execution \<Rightarrow> nat \<Rightarrow> search_candidate \<Rightarrow> instant \<Rightarrow> search_execution" where
  "with_candidate s n d t = s\<lparr>se_candidates := (se_candidates s)[n := d\<lparr>sc_updated_at := Some t\<rparr>], se_updated_at := Some t\<rparr>"

lemma start_applies:
  assumes ok: "search_ok s" and n: "n < length (se_candidates s)" and c: "c = se_candidates s ! n"
    and st: "\<not> se_cancellation_requested s" "sc_phase c \<in> {Candidate_PENDING, Candidate_FAILED}"
      "\<not> before_update t s" "\<not> blank a"
  defines "d \<equiv> c\<lparr>sc_phase := Candidate_RUNNING, sc_attempt_id := Some a, sc_attempt_count := sc_attempt_count c + 1,
    sc_result_fingerprint := None\<rparr>"
  shows "start_search_candidate s (int n) a (Aware t z) = Inr \<lparr>sr_decision = Search_APPLY,
    sr_state = with_candidate s n d t, sr_candidate_index = Some (int n), sr_rejection_reason = None\<rparr>"
proof -
  have sh: "search_shape_ok s" and cok: "search_candidate_ok c" using ok n by (auto simp: search_ok_def c)
  then have "search_candidate_ok d" "sc_candidate_index d = int n" "sc_trial_fingerprint d = sc_trial_fingerprint (se_candidates s ! n)"
    using st candidate_position [OF sh n] by (auto simp: search_candidate_ok_def d_def c)
  with replace_candidate_at [OF sh n st(3)] have "replace_candidate s d (Aware t z) = Inr (with_candidate s n d t)"
    "search_candidate_remake d = Inr d"
    by (simp_all add: search_candidate_remake_iff with_candidate_def)
  then show ?thesis
    using st n
    by (auto simp: start_search_candidate_def search_candidate_at_def Let_def raising.simps mk_search_resolution_def c [symmetric] d_def)
qed

lemma finish_applies:
  assumes ok: "search_ok s" and n: "n < length (se_candidates s)" and c: "c = se_candidates s ! n"
    and st: "sc_phase c = Candidate_RUNNING" "sc_attempt_id c = Some a" "\<not> before_update t s"
      "p \<in> terminal_candidate_phases" "se_cancellation_requested s \<longrightarrow> p = Candidate_CANCELLED"
      "if p = Candidate_SUCCEEDED then \<exists>r. f = Some r \<and> is_digest r else f = None"
  shows "record_search_candidate_terminal s (int n) a p (Aware t z) f = Inr \<lparr>sr_decision = Search_APPLY,
    sr_state = with_candidate s n (c\<lparr>sc_phase := p, sc_result_fingerprint := f\<rparr>) t,
    sr_candidate_index = Some (int n), sr_rejection_reason = None\<rparr>"
proof -
  let ?d = "c\<lparr>sc_phase := p, sc_result_fingerprint := f\<rparr>"
  have sh: "search_shape_ok s" and cok: "search_candidate_ok c" using ok n by (auto simp: search_ok_def c)
  then have "search_candidate_ok ?d" "sc_candidate_index ?d = int n"
    "sc_trial_fingerprint ?d = sc_trial_fingerprint (se_candidates s ! n)"
    using st candidate_position [OF sh n]
    by (auto simp: search_candidate_ok_def c terminal_candidate_phases_def split: if_splits)
  with replace_candidate_at [OF sh n st(3)] have rep: "replace_candidate s ?d (Aware t z) = Inr (with_candidate s n ?d t)"
    "search_candidate_remake ?d = Inr ?d"
    by (simp_all add: search_candidate_remake_iff with_candidate_def)
  have "\<not> blank a" using cok st(2) by (simp add: search_candidate_ok_def)
  moreover have "raising (if p = Candidate_SUCCEEDED
              then digest_checks (case f of None \<Rightarrow> [] | Some r \<Rightarrow> r) ''result_fingerprint''
              else [(f \<noteq> None, ''failed or cancelled candidates cannot contain a result'')]) k = k" for k :: "search_resolution result"
    using st(6) by (auto simp: digest_checks_def is_digest_def raising.simps split: if_splits)
  ultimately show ?thesis
    using st n rep
    by (simp add: record_search_candidate_terminal_def search_candidate_at_def Let_def raising.simps(2)
        c [symmetric] terminal_candidate_phases_def)
      (simp add: raising.simps mk_search_resolution_def)
qed

section \<open>Properties\<close>

text \<open>C31: the search queue keeps its design. After any starts, terminal receipts, cancellations and appends, in
  any order, a valid search is valid: its candidates stay contiguously numbered, each bound to its own
  trial for good, and attempt counts and times never go back. A succeeded or cancelled candidate never
  changes again; a failed one changes only with a further attempt, and not at all once cancellation is requested. No
  candidate returns to pending, and once cancellation is requested no candidate is added or started and a running one can
  only be cancelled.\<close>

theorem search_requests:
  assumes "search_ok s0" and s: "s = serve search_step qs s0" and n: "n < length (se_candidates s0)"
  shows "search_ok s \<and> search_le s0 s
    \<and> sc_trial_fingerprint (se_candidates s ! n) = sc_trial_fingerprint (se_candidates s0 ! n)
    \<and> (sc_phase (se_candidates s0 ! n) \<in> {Candidate_SUCCEEDED, Candidate_CANCELLED} \<longrightarrow>
         se_candidates s ! n = se_candidates s0 ! n)
    \<and> (sc_phase (se_candidates s0 ! n) = Candidate_FAILED \<longrightarrow> se_candidates s ! n = se_candidates s0 ! n
         \<or> \<not> se_cancellation_requested s0 \<and> sc_attempt_count (se_candidates s0 ! n) < sc_attempt_count (se_candidates s ! n))"
proof -
  have "search_ok s" "search_le s0 s"
    unfolding s using assms(1) by (simp_all add: searches.serve_inv searches.serve_le)
  moreover from this(2) n have le: "candidate_le (se_cancellation_requested s0) (se_candidates s0 ! n) (se_candidates s ! n)"
    by (simp add: search_le_def)
  moreover have "se_candidates s ! n = se_candidates s0 ! n"
    if "sc_phase (se_candidates s0 ! n) = Candidate_FAILED" "se_cancellation_requested s0"
  proof -
    have "sc_phase (se_candidates s0 ! n) \<noteq> Candidate_RUNNING" using that(1) by simp
    with le that(2) show ?thesis unfolding candidate_le_def by blast
  qed
  ultimately show ?thesis unfolding candidate_le_def by blast
qed

definition sample_search :: search_execution where
  "sample_search = \<lparr>se_experiment_fingerprint = digest_text ''x'',
     se_candidates = [\<lparr>sc_candidate_index = 0, sc_trial_fingerprint = digest_text ''t'', sc_phase = Candidate_PENDING,
       sc_attempt_id = None, sc_attempt_count = 0, sc_result_fingerprint = None, sc_updated_at = None\<rparr>],
     se_cancellation_requested = False, se_cancellation_request_id = None, se_updated_at = None\<rparr>"

lemma sample_search_ok: "search_ok sample_search"
  by (simp add: search_ok_def search_shape_ok_def search_candidate_ok_def sample_search_def)

lemma sample_search_size: "0 < length (se_candidates sample_search)"
  by (simp add: sample_search_def)

text \<open>A search whose first candidate has succeeded and whose second has failed.\<close>

definition closed_search :: search_execution where
  "closed_search = \<lparr>se_experiment_fingerprint = digest_text ''x'',
     se_candidates =
       [\<lparr>sc_candidate_index = 0, sc_trial_fingerprint = ''sha256:'' @ replicate 64 CHR ''0'', sc_phase = Candidate_SUCCEEDED,
          sc_attempt_id = Some ''a-1'', sc_attempt_count = 1, sc_result_fingerprint = Some (digest_text ''r''), sc_updated_at = Some 3\<rparr>,
        \<lparr>sc_candidate_index = 1, sc_trial_fingerprint = ''sha256:'' @ replicate 64 CHR ''1'', sc_phase = Candidate_FAILED,
          sc_attempt_id = Some ''a-2'', sc_attempt_count = 1, sc_result_fingerprint = None, sc_updated_at = Some 4\<rparr>],
     se_cancellation_requested = False, se_cancellation_request_id = None, se_updated_at = Some 4\<rparr>"

theorem search_requests_witness:
  "search_ok closed_search
   \<and> (let s = serve search_step [Start 0 ''a-3'' (utc 5), Start 1 ''a-4'' (utc 6), Cancel_Search (digest_text ''c'') (utc 7)] closed_search
      in se_candidates s ! 0 = se_candidates closed_search ! 0
         \<and> (se_candidates s ! 1 = se_candidates closed_search ! 1 \<or> 1 < sc_attempt_count (se_candidates s ! 1)))"
proof -
  have "is_digest (''sha256:'' @ replicate 64 CHR ''0'')" "is_digest (''sha256:'' @ replicate 64 CHR ''1'')"
    by (auto simp: is_digest_def digest_prefix_ok_def is_hex_def intro!: int16_ok_hex)
  then have ok: "search_ok closed_search"
    by (simp add: search_ok_def search_shape_ok_def search_candidate_ok_def closed_search_def blank_iff py_space_def
        replicate_eq_replicate)
  have n: "0 < length (se_candidates closed_search)" "1 < length (se_candidates closed_search)" by (simp_all add: closed_search_def)
  have "sc_phase (se_candidates closed_search ! 0) = Candidate_SUCCEEDED" "sc_phase (se_candidates closed_search ! 1) = Candidate_FAILED"
    "sc_attempt_count (se_candidates closed_search ! 1) = 1" by (simp_all add: closed_search_def)
  with search_requests [OF ok refl n(1), of "[Start 0 ''a-3'' (utc 5), Start 1 ''a-4'' (utc 6), Cancel_Search (digest_text ''c'') (utc 7)]"]
    search_requests [OF ok refl n(2), of "[Start 0 ''a-3'' (utc 5), Start 1 ''a-4'' (utc 6), Cancel_Search (digest_text ''c'') (utc 7)]"] ok
  show ?thesis unfolding Let_def by auto
qed

text \<open>Starting and closing a candidate is exactly once. A pending or failed candidate of a search that is
  not cancelled can always be started (no earlier than the last update): exactly this candidate becomes
  running, with the new attempt and one more attempt counted, and starting it again with the same
  attempt changes nothing and replays. The terminal receipt of the running attempt is then applied to
  exactly this candidate, and reporting it again replays.\<close>

theorem candidate_exactly_once:
  assumes ok: "search_ok s" and n: "n < length (se_candidates s)"
    and st: "\<not> se_cancellation_requested s" "sc_phase (se_candidates s ! n) \<in> {Candidate_PENDING, Candidate_FAILED}"
      "\<not> before_update t s" "\<not> blank a" "t \<le> t'"
    and p: "p \<in> terminal_candidate_phases" "if p = Candidate_SUCCEEDED then \<exists>r. f = Some r \<and> is_digest r else f = None"
  shows "\<exists>r1 r2. start_search_candidate s (int n) a (Aware t z) = Inr r1 \<and> sr_decision r1 = Search_APPLY
    \<and> record_search_candidate_terminal (sr_state r1) (int n) a p (Aware t' z) f = Inr r2 \<and> sr_decision r2 = Search_APPLY
    \<and> (\<forall>m < length (se_candidates s). m \<noteq> n \<longrightarrow> se_candidates (sr_state r2) ! m = se_candidates s ! m)
    \<and> sc_phase (se_candidates (sr_state r1) ! n) = Candidate_RUNNING
    \<and> sc_attempt_count (se_candidates (sr_state r2) ! n) = sc_attempt_count (se_candidates s ! n) + 1
    \<and> sc_phase (se_candidates (sr_state r2) ! n) = p \<and> sc_result_fingerprint (se_candidates (sr_state r2) ! n) = f
    \<and> sr_decision (projr (start_search_candidate (sr_state r1) (int n) a (Aware t' z))) = Search_REPLAY_EXISTING
    \<and> sr_state (projr (start_search_candidate (sr_state r1) (int n) a (Aware t' z))) = sr_state r1
    \<and> sr_decision (projr (record_search_candidate_terminal (sr_state r2) (int n) a p (Aware t' z) f)) = Search_REPLAY_EXISTING
    \<and> sr_state (projr (record_search_candidate_terminal (sr_state r2) (int n) a p (Aware t' z) f)) = sr_state r2"
proof -
  let ?c = "se_candidates s ! n"
  define d where "d = ?c\<lparr>sc_phase := Candidate_RUNNING, sc_attempt_id := Some a, sc_attempt_count := sc_attempt_count ?c + 1,
    sc_result_fingerprint := None\<rparr>"
  define s1 where "s1 = with_candidate s n d t"
  define c1 where "c1 = d\<lparr>sc_updated_at := Some t\<rparr>"
  define d2 where "d2 = c1\<lparr>sc_phase := p, sc_result_fingerprint := f\<rparr>"
  define s2 where "s2 = with_candidate s1 n d2 t'"
  have start: "start_search_candidate s (int n) a (Aware t z) = Inr \<lparr>sr_decision = Search_APPLY, sr_state = s1,
      sr_candidate_index = Some (int n), sr_rejection_reason = None\<rparr>"
    using start_applies [OF ok n refl st(1-4)] by (simp add: s1_def d_def)
  then have ok1: "search_ok s1"
    using searches.step_inv [OF ok, of "Start (int n) a (Aware t z)" s1] by (simp add: search_step_def)
  have c1: "c1 = se_candidates s1 ! n" "n < length (se_candidates s1)" "sc_phase c1 = Candidate_RUNNING"
    "sc_attempt_id c1 = Some a" "\<not> before_update t' s1" "\<not> se_cancellation_requested s1"
    using n st by (simp_all add: s1_def c1_def d_def with_candidate_def before_update_def)
  have finish: "record_search_candidate_terminal s1 (int n) a p (Aware t' z) f = Inr \<lparr>sr_decision = Search_APPLY,
      sr_state = s2, sr_candidate_index = Some (int n), sr_rejection_reason = None\<rparr>"
    using finish_applies [OF ok1 c1(2,1,3,4,5) p(1) _ p(2)] c1(6) by (simp add: s2_def d2_def)
  have again1: "start_search_candidate s1 (int n) a (Aware t' z) = Inr \<lparr>sr_decision = Search_REPLAY_EXISTING, sr_state = s1,
      sr_candidate_index = Some (int n), sr_rejection_reason = None\<rparr>"
    using st(4) c1
    by (simp add: start_search_candidate_def search_candidate_at_def raising.simps mk_search_resolution_def)
  have c2: "sc_phase (se_candidates s2 ! n) = p" "sc_attempt_id (se_candidates s2 ! n) = Some a"
    "sc_result_fingerprint (se_candidates s2 ! n) = f" "n < length (se_candidates s2)"
    using c1 by (simp_all add: s2_def d2_def with_candidate_def)
  have again2: "record_search_candidate_terminal s2 (int n) a p (Aware t' z) f = Inr \<lparr>sr_decision = Search_REPLAY_EXISTING,
      sr_state = s2, sr_candidate_index = Some (int n), sr_rejection_reason = None\<rparr>"
    using st(4) c2 p
    by (auto simp: record_search_candidate_terminal_def search_candidate_at_def Let_def raising.simps mk_search_resolution_def
        digest_checks_def is_digest_def terminal_candidate_phases_def)
  have "se_candidates s2 ! m = se_candidates s ! m" if "m \<noteq> n" for m
    using that by (simp add: s2_def s1_def with_candidate_def)
  moreover have "sc_attempt_count (se_candidates s2 ! n) = sc_attempt_count ?c + 1"
    using n by (simp add: s2_def s1_def with_candidate_def d2_def c1_def d_def)
  ultimately show ?thesis using start finish again1 again2 c1(1,3) c2 by auto
qed

theorem candidate_exactly_once_witness:
  "\<exists>r1 r2. start_search_candidate sample_search (int 0) ''a-1'' (Aware 5 0) = Inr r1
     \<and> record_search_candidate_terminal (sr_state r1) (int 0) ''a-1'' Candidate_SUCCEEDED (Aware 9 0) (Some (digest_text ''r'')) = Inr r2
     \<and> sc_phase (se_candidates (sr_state r2) ! 0) = Candidate_SUCCEEDED"
proof -
  have "\<not> se_cancellation_requested sample_search"
    "sc_phase (se_candidates sample_search ! 0) \<in> {Candidate_PENDING, Candidate_FAILED}"
    "\<not> before_update 5 sample_search" "\<not> blank ''a-1''" "(5 :: int) \<le> 9"
    "Candidate_SUCCEEDED \<in> terminal_candidate_phases"
    "if Candidate_SUCCEEDED = Candidate_SUCCEEDED
      then \<exists>r. Some (digest_text ''r'') = Some r \<and> is_digest r else Some (digest_text ''r'') = None"
    by (simp_all add: sample_search_def before_update_def blank_iff py_space_def terminal_candidate_phases_def)
  from candidate_exactly_once [OF sample_search_ok sample_search_size this, where z = 0] show ?thesis
    by blast
qed

text \<open>C38: a cancelled search with a candidate still pending can never be completed. Once cancellation is
  requested the pending candidate can be neither started nor closed, whatever requests follow, so
  the search stays incomplete for ever although workers are meant to close its candidates.\<close>

theorem cancelled_pending_stuck:
  assumes ok: "search_ok s0" "se_cancellation_requested s0" and n: "n < length (se_candidates s0)"
    and pending: "sc_phase (se_candidates s0 ! n) = Candidate_PENDING" and s: "s = serve search_step qs s0"
  shows "se_candidates s ! n = se_candidates s0 ! n \<and> \<not> search_complete s
    \<and> (\<forall>q r. search_resolve q s = Inr r \<longrightarrow> se_candidates (sr_state r) ! n = se_candidates s0 ! n)"
proof -
  have stays: "se_candidates (serve search_step qs s0) ! n = se_candidates s0 ! n
      \<and> n < length (se_candidates (serve search_step qs s0))" for qs
  proof -
    have le: "search_le s0 (serve search_step qs s0)" by (rule searches.serve_le [OF ok(1)])
    then have "candidate_le True (se_candidates s0 ! n) (se_candidates (serve search_step qs s0) ! n)"
      using ok(2) n by (auto simp: search_le_def)
    then have "se_candidates (serve search_step qs s0) ! n = se_candidates s0 ! n
        \<or> sc_phase (se_candidates s0 ! n) = Candidate_RUNNING"
      unfolding candidate_le_def by blast
    then have "se_candidates (serve search_step qs s0) ! n = se_candidates s0 ! n" using pending by simp
    moreover have "n < length (se_candidates (serve search_step qs s0))" using le n by (simp add: search_le_def)
    ultimately show ?thesis by simp
  qed
  have "se_candidates s ! n \<in> set (se_candidates s)" by (rule nth_mem) (use stays [of qs] in \<open>simp add: s\<close>)
  then have "\<not> search_complete s"
    using stays [of qs] pending
    by (auto simp: s search_complete_def list_all_iff terminal_candidate_phases_def intro!: bexI [of _ "se_candidates s ! n"])
  moreover have "se_candidates (sr_state r) ! n = se_candidates s0 ! n" if "search_resolve q s = Inr r" for q r
    using stays [of "qs @ [q]"] that by (simp add: s serve_append served_def search_step_def)
  ultimately show ?thesis using stays [of qs] by (simp add: s)
qed

theorem cancelled_pending_stuck_witness:
  "\<not> search_complete (serve search_step [Start 0 ''a-1'' (utc 7)]
     (sample_search\<lparr>se_cancellation_requested := True, se_cancellation_request_id := Some (digest_text ''c'')\<rparr>))"
proof -
  have "search_ok (sample_search\<lparr>se_cancellation_requested := True, se_cancellation_request_id := Some (digest_text ''c'')\<rparr>)"
    "0 < length (se_candidates (sample_search\<lparr>se_cancellation_requested := True,
       se_cancellation_request_id := Some (digest_text ''c'')\<rparr>))"
    "sc_phase (se_candidates (sample_search\<lparr>se_cancellation_requested := True,
       se_cancellation_request_id := Some (digest_text ''c'')\<rparr>) ! 0) = Candidate_PENDING"
    using sample_search_ok by (simp_all add: search_ok_def search_shape_ok_def sample_search_def)
  from cancelled_pending_stuck [OF this(1) _ this(2,3) refl, of "[Start 0 ''a-1'' (utc 7)]"] show ?thesis by simp
qed

end
