(* ===== verification/Workers.thy ===== *)
theory Workers
  imports Contracts "HOL-Library.Product_Lexorder"
begin

text \<open>
  \<open>src/backend/app/strategy_lab_v2/workers.py\<close>: worker profiles, the serial reservation pool of a worker
  process, and the deterministic ranking of the pools an attempt may be sent to. The process
  environment is an argument (a map from names to values), and so is the host name of the process.
\<close>

datatype worker_kind = Worker_BACKTEST | Worker_FORWARD

record worker_profile =
  wf_worker_id :: string
  wf_kind :: worker_kind
  wf_runtime_profile_fingerprint :: string
  wf_isolation_required :: bool
  wf_engine_disposal_required :: bool
  wf_max_concurrent_nodes :: int

definition mk_worker_profile ::
  "string \<Rightarrow> worker_kind \<Rightarrow> string \<Rightarrow> bool \<Rightarrow> bool \<Rightarrow> int \<Rightarrow> worker_profile result" where
  "mk_worker_profile worker_id kind fingerprint isolation disposal nodes =
     raising
       ([(blank worker_id, ''worker_id must not be empty'')]
        @ digest_checks fingerprint ''runtime_profile_fingerprint''
        @ [(nodes \<noteq> 1, ''each worker process must permit exactly one concurrent engine node'')])
       (Inr \<lparr>wf_worker_id = worker_id, wf_kind = kind, wf_runtime_profile_fingerprint = fingerprint,
             wf_isolation_required = isolation, wf_engine_disposal_required = disposal,
             wf_max_concurrent_nodes = nodes\<rparr>)"

definition forward_worker_runtime_profile_fingerprint_from_environment ::
  "(string \<rightharpoonup> string) \<Rightarrow> string option result" where
  "forward_worker_runtime_profile_fingerprint_from_environment env =
     (case env ''STRATEGY_LAB_V2_FORWARD_RUNTIME_PROFILE_FINGERPRINT'' of
        None \<Rightarrow> Inr None
      | Some fingerprint \<Rightarrow>
          if blank fingerprint then Inr None
          else rbind (require_sha256_digest fingerprint ''STRATEGY_LAB_V2_FORWARD_RUNTIME_PROFILE_FINGERPRINT'')
                 (\<lambda>_. Inr (Some fingerprint)))"

definition or_else :: "string option \<Rightarrow> string option \<Rightarrow> string option" where
  "or_else a b = (if a = None \<or> a = Some [] then b else a)"

definition forward_worker_profile_from_environment ::
  "string \<Rightarrow> (string \<rightharpoonup> string) \<Rightarrow> worker_profile option result" where
  "forward_worker_profile_from_environment hostname env =
     rbind (forward_worker_runtime_profile_fingerprint_from_environment env) (\<lambda>found.
       case found of
         None \<Rightarrow> Inr None
       | Some fingerprint \<Rightarrow>
           let worker_id = or_else (or_else (env ''STRATEGY_LAB_V2_FORWARD_WORKER_ID'') (env ''HOSTNAME''))
                 (Some (''forward-worker-'' @ hostname))
           in rbind (mk_worker_profile (the worker_id) Worker_FORWARD fingerprint True True 1) (\<lambda>p. Inr (Some p)))"

record worker_reservation =
  wr_reservation_id :: string
  wr_worker_id :: string
  wr_kind :: worker_kind
  wr_attempt_id :: string
  wr_acquired_at :: instant
  wr_released_at :: "instant option"

definition mk_worker_reservation ::
  "string \<Rightarrow> string \<Rightarrow> worker_kind \<Rightarrow> string \<Rightarrow> datetime \<Rightarrow> datetime option \<Rightarrow> worker_reservation result" where
  "mk_worker_reservation reservation_id worker_id kind attempt_id acquired_at released_at =
     raising
       ([(blank reservation_id, ''reservation_id must not be empty''),
         (blank worker_id, ''worker_id must not be empty''),
         (blank attempt_id, ''attempt_id must not be empty'')]
        @ digest_checks reservation_id ''reservation_id'')
       (with_aware acquired_at ''reservation acquired_at must be timezone-aware'' (\<lambda>acquired.
        with_aware_opt released_at ''reservation released_at must be timezone-aware'' (\<lambda>released.
        raising
          [((case released of None \<Rightarrow> False | Some r \<Rightarrow> r < acquired),
              ''reservation release cannot precede acquisition'')]
          (Inr \<lparr>wr_reservation_id = reservation_id, wr_worker_id = worker_id, wr_kind = kind,
                wr_attempt_id = attempt_id, wr_acquired_at = acquired, wr_released_at = released\<rparr>))))"

definition worker_reservation_remake :: "worker_reservation \<Rightarrow> worker_reservation result" where
  "worker_reservation_remake r =
     mk_worker_reservation (wr_reservation_id r) (wr_worker_id r) (wr_kind r) (wr_attempt_id r)
       (utc (wr_acquired_at r)) (map_option utc (wr_released_at r))"

definition active :: "worker_reservation \<Rightarrow> bool" where
  "active r \<longleftrightarrow> wr_released_at r = None"

record worker_pool =
  wp_profile :: worker_profile
  wp_reservations :: "worker_reservation list"

definition mk_worker_pool :: "worker_profile \<Rightarrow> worker_reservation list \<Rightarrow> worker_pool result" where
  "mk_worker_pool profile reservations =
     (let active_attempts = map wr_attempt_id (filter active reservations)
      in raising
           [(list_ex (\<lambda>r. wr_worker_id r \<noteq> wf_worker_id profile \<or> wr_kind r \<noteq> wf_kind profile) reservations,
               ''reservations must reference the pool worker and kind''),
            (\<not> distinct (map wr_reservation_id reservations), ''reservation ids must be unique''),
            (int (length active_attempts) > wf_max_concurrent_nodes profile,
               ''worker pool exceeds its serial capacity''),
            (\<not> distinct active_attempts, ''an attempt cannot hold multiple active worker reservations'')]
           (Inr \<lparr>wp_profile = profile, wp_reservations = sort_key wr_reservation_id reservations\<rparr>))"

definition active_reservations :: "worker_pool \<Rightarrow> worker_reservation list" where
  "active_reservations pool = filter active (wp_reservations pool)"

datatype worker_reservation_decision = Reserve_ACCEPT | Reserve_REPLAY_EXISTING | Reserve_SATURATED | Reserve_REJECT

record worker_reservation_resolution =
  wx_decision :: worker_reservation_decision
  wx_pool :: worker_pool
  wx_reservation :: "worker_reservation option"
  wx_rejection_reason :: "string option"

definition mk_worker_reservation_resolution ::
  "worker_reservation_decision \<Rightarrow> worker_pool \<Rightarrow> worker_reservation option \<Rightarrow> string option
     \<Rightarrow> worker_reservation_resolution result" where
  "mk_worker_reservation_resolution decision pool reservation reason =
     raising
       [(decision \<in> {Reserve_ACCEPT, Reserve_REPLAY_EXISTING} \<and> reservation = None,
           ''accepted and replay resolutions require a reservation''),
        (decision = Reserve_REJECT \<and> (reason = None \<or> reason = Some []), ''rejected reservations require a reason''),
        (decision \<noteq> Reserve_REJECT \<and> \<not> (reason = None \<or> reason = Some []),
           ''non-rejected reservations cannot contain a rejection reason'')]
       (Inr \<lparr>wx_decision = decision, wx_pool = pool, wx_reservation = reservation, wx_rejection_reason = reason\<rparr>)"

definition reserve_worker_slot ::
  "worker_pool \<Rightarrow> string \<Rightarrow> string \<Rightarrow> datetime \<Rightarrow> worker_reservation_resolution result" where
  "reserve_worker_slot pool attempt_id reservation_id acquired_at =
     raising ([(blank attempt_id, ''attempt_id must not be empty'')] @ digest_checks reservation_id ''reservation_id'')
       (with_aware acquired_at ''reservation acquired_at must be timezone-aware'' (\<lambda>acquired.
          let rejected = (\<lambda>reason. mk_worker_reservation_resolution Reserve_REJECT pool None (Some reason));
              profile = wp_profile pool
          in if \<not> wf_isolation_required profile then rejected ''worker isolation is required''
             else if \<not> wf_engine_disposal_required profile then rejected ''engine disposal is required''
             else case find (\<lambda>r. wr_reservation_id r = reservation_id) (wp_reservations pool) of
               Some r \<Rightarrow>
                 if wr_attempt_id r \<noteq> attempt_id \<or> \<not> active r then rejected ''reservation id is already bound''
                 else mk_worker_reservation_resolution Reserve_REPLAY_EXISTING pool (Some r) None
             | None \<Rightarrow>
                 (case find (\<lambda>r. wr_attempt_id r = attempt_id) (active_reservations pool) of
                    Some r \<Rightarrow> mk_worker_reservation_resolution Reserve_REPLAY_EXISTING pool (Some r) None
                  | None \<Rightarrow>
                      if int (length (active_reservations pool)) \<ge> wf_max_concurrent_nodes profile then
                        mk_worker_reservation_resolution Reserve_SATURATED pool None None
                      else
                        rbind (mk_worker_reservation reservation_id (wf_worker_id profile) (wf_kind profile)
                                 attempt_id (utc acquired) None) (\<lambda>reservation.
                        rbind (mk_worker_pool profile (wp_reservations pool @ [reservation])) (\<lambda>next.
                          mk_worker_reservation_resolution Reserve_ACCEPT next (Some reservation) None)))))"

text \<open>\<open>datetime.min\<close> in UTC, the rank of a pool that was never used.\<close>

definition datetime_min :: instant where
  "datetime_min = - 62135596800000000"

definition pool_last_used :: "worker_pool \<Rightarrow> instant" where
  "pool_last_used pool =
     (case wp_reservations pool of [] \<Rightarrow> datetime_min | rs \<Rightarrow> Max (wr_acquired_at ` set rs))"

definition pool_rank :: "string \<Rightarrow> string \<Rightarrow> worker_pool \<Rightarrow> instant \<times> string" where
  "pool_rank purpose attempt_id pool = (pool_last_used pool,
     digest (PMapping [(''attempt_id'', PStr attempt_id), (''purpose'', PStr purpose),
       (''worker_id'', PStr (wf_worker_id (wp_profile pool)))]))"

definition safe_worker :: "worker_kind \<Rightarrow> worker_pool \<Rightarrow> bool" where
  "safe_worker kind pool \<longleftrightarrow> wf_kind (wp_profile pool) = kind \<and> wf_isolation_required (wp_profile pool)
     \<and> wf_engine_disposal_required (wp_profile pool)"

definition holds_attempt :: "string \<Rightarrow> worker_pool \<Rightarrow> bool" where
  "holds_attempt attempt_id pool \<longleftrightarrow> list_ex (\<lambda>r. active r \<and> wr_attempt_id r = attempt_id) (wp_reservations pool)"

definition rank_available_backtest_worker_pools :: "worker_pool list \<Rightarrow> string \<Rightarrow> worker_pool list result" where
  "rank_available_backtest_worker_pools pools attempt_id =
     (let already_reserved = filter (holds_attempt attempt_id) pools;
          available = filter (\<lambda>p. safe_worker Worker_BACKTEST p \<and> active_reservations p = []) pools
      in raising
           [(blank attempt_id, ''attempt_id must not be empty''),
            (\<not> distinct (map (\<lambda>p. wf_worker_id (wp_profile p)) pools),
               ''worker pools must have unique profile identities''),
            (length already_reserved > 1, ''an attempt cannot be reserved on multiple worker profiles'')]
           (if already_reserved \<noteq> [] then
              raising
                [(\<not> safe_worker Worker_BACKTEST (hd already_reserved),
                    ''existing attempt reservation is not on a safe backtest worker'')]
                (Inr already_reserved)
            else Inr (sort_key (pool_rank ''strategy-lab-v2-worker-profile-selection-v1'' attempt_id) available)))"

definition rank_available_forward_worker_pools :: "worker_pool list \<Rightarrow> string \<Rightarrow> worker_pool list result" where
  "rank_available_forward_worker_pools pools attempt_id =
     (let already_reserved = filter (holds_attempt attempt_id) pools;
          available = filter (\<lambda>p. safe_worker Worker_FORWARD p \<and> active_reservations p = []) pools
      in raising
           [(blank attempt_id, ''attempt_id must not be empty''),
            (\<not> distinct (map (\<lambda>p. wf_worker_id (wp_profile p)) pools),
               ''worker pools must have unique profile identities''),
            (length already_reserved > 1, ''a forward instance cannot be reserved on multiple worker profiles'')]
           (if already_reserved \<noteq> [] then
              raising
                [(\<not> safe_worker Worker_FORWARD (hd already_reserved),
                    ''existing forward reservation is not on a safe forward worker'')]
                (Inr already_reserved)
            else Inr (sort_key (pool_rank ''strategy-lab-v2-forward-worker-profile-selection-v1'' attempt_id) available)))"

text \<open>The position of the first reservation with the given id.\<close>

fun reservation_index :: "string \<Rightarrow> worker_reservation list \<Rightarrow> nat option" where
  "reservation_index i [] = None"
| "reservation_index i (r # rs) =
     (if wr_reservation_id r = i then Some 0 else map_option Suc (reservation_index i rs))"

definition release_worker_slot :: "worker_pool \<Rightarrow> string \<Rightarrow> datetime \<Rightarrow> worker_pool result" where
  "release_worker_slot pool reservation_id released_at =
     raising (digest_checks reservation_id ''reservation_id'')
       (with_aware released_at ''reservation released_at must be timezone-aware'' (\<lambda>released.
          case reservation_index reservation_id (wp_reservations pool) of
            None \<Rightarrow> Inl (ValueError ''reservation_id is not present in the worker pool'')
          | Some i \<Rightarrow>
              let reservation = wp_reservations pool ! i
              in if \<not> active reservation then Inr pool
                 else rbind (worker_reservation_remake (reservation\<lparr>wr_released_at := Some released\<rparr>)) (\<lambda>updated.
                        mk_worker_pool (wp_profile pool) ((wp_reservations pool)[i := updated]))))"

section \<open>The pool invariant\<close>

definition worker_profile_ok :: "worker_profile \<Rightarrow> bool" where
  "worker_profile_ok f \<longleftrightarrow> \<not> blank (wf_worker_id f) \<and> is_digest (wf_runtime_profile_fingerprint f)
     \<and> wf_max_concurrent_nodes f = 1"

definition worker_reservation_ok :: "worker_reservation \<Rightarrow> bool" where
  "worker_reservation_ok r \<longleftrightarrow> is_digest (wr_reservation_id r) \<and> \<not> blank (wr_reservation_id r)
     \<and> \<not> blank (wr_worker_id r) \<and> \<not> blank (wr_attempt_id r)
     \<and> (\<forall>t. wr_released_at r = Some t \<longrightarrow> wr_acquired_at r \<le> t)"

definition worker_pool_ok :: "worker_pool \<Rightarrow> bool" where
  "worker_pool_ok p \<longleftrightarrow> worker_profile_ok (wp_profile p)
     \<and> (\<forall>r \<in> set (wp_reservations p). worker_reservation_ok r
          \<and> wr_worker_id r = wf_worker_id (wp_profile p) \<and> wr_kind r = wf_kind (wp_profile p))
     \<and> distinct (map wr_reservation_id (wp_reservations p)) \<and> sorted (map wr_reservation_id (wp_reservations p))
     \<and> length (active_reservations p) \<le> 1"

lemma mk_worker_profile_ok: "mk_worker_profile i k d a b n = Inr f \<Longrightarrow> worker_profile_ok f"
  by (auto simp: mk_worker_profile_def worker_profile_ok_def is_digest_def digest_checks_def contract_simps)

lemma mk_worker_reservation_Inr:
  "mk_worker_reservation i w k a acquired rel = Inr r \<Longrightarrow> worker_reservation_ok r"
  by (auto simp: mk_worker_reservation_def worker_reservation_ok_def is_digest_def digest_checks_def contract_simps)

lemma worker_reservation_remake_iff: "worker_reservation_remake r = Inr s \<longleftrightarrow> worker_reservation_ok r \<and> s = r"
  by (cases r; cases "wr_released_at r")
    (auto simp: worker_reservation_remake_def mk_worker_reservation_def worker_reservation_ok_def is_digest_def
      digest_checks_def contract_simps utc_def)

interpretation reservation: validated worker_reservation_remake worker_reservation_ok
  by unfold_locales (rule worker_reservation_remake_iff)

lemma mk_worker_pool_iff:
  assumes "worker_profile_ok f"
  shows "mk_worker_pool f rs = Inr p \<longleftrightarrow>
    (\<forall>r \<in> set rs. wr_worker_id r = wf_worker_id f \<and> wr_kind r = wf_kind f)
    \<and> distinct (map wr_reservation_id rs) \<and> length (filter active rs) \<le> 1
    \<and> p = \<lparr>wp_profile = f, wp_reservations = sort_key wr_reservation_id rs\<rparr>"
proof -
  have "distinct (map g xs)" if "length xs \<le> 1" for g :: "worker_reservation \<Rightarrow> string" and xs
    using that by (cases xs) auto
  then show ?thesis
    using assms by (auto simp: mk_worker_pool_def Let_def contract_simps list_ex_iff worker_profile_ok_def)
qed

lemma filter_sort_length: "length (filter P (sort_key f xs)) = length (filter P xs)"
  by (metis filter_sort length_sort)

lemma distinct_map_sort: "distinct (map f (sort_key f xs)) = distinct (map f xs)"
  by (metis length_map length_sort card_distinct distinct_card set_map set_sort)

lemma mk_worker_pool_ok:
  assumes "worker_profile_ok f" "mk_worker_pool f rs = Inr p" "\<forall>r \<in> set rs. worker_reservation_ok r"
  shows "worker_pool_ok p \<and> wp_profile p = f \<and> set (wp_reservations p) = set rs"
  using assms
  by (auto simp: mk_worker_pool_iff worker_pool_ok_def active_reservations_def filter_sort_length distinct_map_sort)

lemma reservation_index_Some:
  "reservation_index i rs = Some n \<Longrightarrow> n < length rs \<and> wr_reservation_id (rs ! n) = i"
  by (induction rs arbitrary: n) (auto split: if_splits)

lemma reservation_index_None: "reservation_index i rs = None \<longleftrightarrow> i \<notin> wr_reservation_id ` set rs"
  by (induction rs) auto

lemma mk_worker_reservation_resolution_Inr:
  "mk_worker_reservation_resolution d p r m = Inr x \<Longrightarrow>
     x = \<lparr>wx_decision = d, wx_pool = p, wx_reservation = r, wx_rejection_reason = m\<rparr>"
  by (auto simp: mk_worker_reservation_resolution_def contract_simps)

lemma mk_worker_reservation_resolution_simps:
  "mk_worker_reservation_resolution Reserve_ACCEPT p (Some r) None =
     Inr \<lparr>wx_decision = Reserve_ACCEPT, wx_pool = p, wx_reservation = Some r, wx_rejection_reason = None\<rparr>"
  "mk_worker_reservation_resolution Reserve_REPLAY_EXISTING p (Some r) None =
     Inr \<lparr>wx_decision = Reserve_REPLAY_EXISTING, wx_pool = p, wx_reservation = Some r, wx_rejection_reason = None\<rparr>"
  "mk_worker_reservation_resolution Reserve_SATURATED p None None =
     Inr \<lparr>wx_decision = Reserve_SATURATED, wx_pool = p, wx_reservation = None, wx_rejection_reason = None\<rparr>"
  "m \<noteq> [] \<Longrightarrow> mk_worker_reservation_resolution Reserve_REJECT p None (Some m) =
     Inr \<lparr>wx_decision = Reserve_REJECT, wx_pool = p, wx_reservation = None, wx_rejection_reason = Some m\<rparr>"
  by (simp_all add: mk_worker_reservation_resolution_def raising.simps)

section \<open>The slot a pool implements\<close>

text \<open>The abstract state of a pool: the reservation and the attempt its one engine node runs, and the
  reservation ids that have been used.\<close>

record slot =
  sl_holder :: "(string \<times> string) option"
  sl_used :: "string set"

definition slot_of :: "worker_pool \<Rightarrow> slot" where
  "slot_of p = \<lparr>sl_holder = (case active_reservations p of [] \<Rightarrow> None
       | r # _ \<Rightarrow> Some (wr_reservation_id r, wr_attempt_id r)),
     sl_used = wr_reservation_id ` set (wp_reservations p)\<rparr>"

text \<open>The specification of the two operations on the slot.\<close>

definition slot_reserve :: "string \<Rightarrow> string \<Rightarrow> slot \<Rightarrow> worker_reservation_decision \<times> slot" where
  "slot_reserve a i s =
     (if i \<in> sl_used s then (if sl_holder s = Some (i, a) then Reserve_REPLAY_EXISTING else Reserve_REJECT, s)
      else case sl_holder s of
        Some (j, b) \<Rightarrow> (if b = a then Reserve_REPLAY_EXISTING else Reserve_SATURATED, s)
      | None \<Rightarrow> (Reserve_ACCEPT, \<lparr>sl_holder = Some (i, a), sl_used = insert i (sl_used s)\<rparr>))"

definition slot_release :: "string \<Rightarrow> slot \<Rightarrow> slot" where
  "slot_release i s = (if \<exists>a. sl_holder s = Some (i, a) then s\<lparr>sl_holder := None\<rparr> else s)"

lemma slot_holder_None: "sl_holder (slot_of p) = None \<longleftrightarrow> active_reservations p = []"
  by (auto simp: slot_of_def split: list.splits)

lemma slot_holder_Some:
  assumes "worker_pool_ok p"
  shows "sl_holder (slot_of p) = Some (i, a) \<longleftrightarrow>
    (\<exists>r. active_reservations p = [r] \<and> wr_reservation_id r = i \<and> wr_attempt_id r = a)"
  using assms by (cases "active_reservations p") (auto simp: slot_of_def worker_pool_ok_def)

lemma slot_of_pool:
  assumes "filter active rs = xs" "length xs \<le> 1"
  shows "slot_of \<lparr>wp_profile = f, wp_reservations = sort_key wr_reservation_id rs\<rparr> =
    \<lparr>sl_holder = (case xs of [] \<Rightarrow> None | r # _ \<Rightarrow> Some (wr_reservation_id r, wr_attempt_id r)),
     sl_used = wr_reservation_id ` set rs\<rparr>"
proof -
  have "filter active (sort_key wr_reservation_id rs) = sort_key wr_reservation_id xs"
    using assms(1) by (simp add: filter_sort)
  also have "\<dots> = xs" using assms(2) by (cases xs) auto
  finally show ?thesis by (simp add: slot_of_def active_reservations_def)
qed

lemma find_reservation:
  "find (\<lambda>r. wr_reservation_id r = i) rs = None \<longleftrightarrow> i \<notin> wr_reservation_id ` set rs"
  by (auto simp: find_None_iff)

lemma set_active_reservations: "set (active_reservations p) = {r \<in> set (wp_reservations p). active r}"
  by (simp add: active_reservations_def)

lemma active_member:
  assumes "active_reservations p = [q]"
  shows "q \<in> set (wp_reservations p) \<and> active q"
  using set_active_reservations [of p] unfolding assms by auto

lemma only_active:
  assumes "active_reservations p = [q]" "r \<in> set (wp_reservations p)" "active r"
  shows "r = q"
  using set_active_reservations [of p] assms(2,3) unfolding assms(1) by auto

lemma reserve_known:
  assumes ok: "worker_pool_ok p" and r: "find (\<lambda>r. wr_reservation_id r = i) (wp_reservations p) = Some r"
  shows "i \<in> sl_used (slot_of p)" "r \<in> set (wp_reservations p)"
    "wr_attempt_id r = a \<and> active r \<longleftrightarrow> sl_holder (slot_of p) = Some (i, a)"
proof -
  from r have m: "r \<in> set (wp_reservations p)" "wr_reservation_id r = i" by (auto simp: find_Some_iff)
  then show "i \<in> sl_used (slot_of p)" "r \<in> set (wp_reservations p)" by (auto simp: slot_of_def)
  have "r = q" if "q \<in> set (wp_reservations p)" "wr_reservation_id q = i" for q
    using ok m that by (auto simp: worker_pool_ok_def distinct_map dest: inj_onD)
  moreover have "active_reservations p = [r]" if "active r"
  proof -
    have "r \<in> set (active_reservations p)" using that m by (simp add: active_reservations_def)
    moreover have "length (active_reservations p) \<le> 1" using ok by (simp add: worker_pool_ok_def)
    ultimately show ?thesis by (cases "active_reservations p") auto
  qed
  ultimately show "wr_attempt_id r = a \<and> active r \<longleftrightarrow> sl_holder (slot_of p) = Some (i, a)"
    unfolding slot_holder_Some [OF ok] using m active_member [of p] by metis
qed

lemma accepted_reservation:
  assumes ok: "worker_pool_ok p" and idle: "active_reservations p = []"
    and i: "is_digest i" "i \<notin> wr_reservation_id ` set (wp_reservations p)" and a: "\<not> blank a"
  shows "\<exists>r q. mk_worker_reservation i (wf_worker_id (wp_profile p)) (wf_kind (wp_profile p)) a (utc t) None = Inr r
    \<and> mk_worker_pool (wp_profile p) (wp_reservations p @ [r]) = Inr q
    \<and> worker_pool_ok q \<and> wp_profile q = wp_profile p \<and> set (wp_reservations q) = insert r (set (wp_reservations p))
    \<and> slot_of q = \<lparr>sl_holder = Some (i, a), sl_used = insert i (sl_used (slot_of p))\<rparr>
    \<and> active r \<and> wr_attempt_id r = a"
proof -
  let ?f = "wp_profile p"
  let ?r = "\<lparr>wr_reservation_id = i, wr_worker_id = wf_worker_id ?f, wr_kind = wf_kind ?f, wr_attempt_id = a,
    wr_acquired_at = t, wr_released_at = None\<rparr>"
  let ?rs = "wp_reservations p @ [?r]"
  have f: "worker_profile_ok ?f" using ok by (simp add: worker_pool_ok_def)
  have r: "mk_worker_reservation i (wf_worker_id ?f) (wf_kind ?f) a (utc t) None = Inr ?r"
    using f a i is_digest_not_blank [OF i(1)]
    by (simp add: mk_worker_reservation_def worker_profile_ok_def is_digest_def digest_checks_def raising.simps)
  have act: "filter active ?rs = [?r]" using idle by (simp add: active_reservations_def active_def)
  have q: "mk_worker_pool ?f ?rs = Inr \<lparr>wp_profile = ?f, wp_reservations = sort_key wr_reservation_id ?rs\<rparr>"
    unfolding mk_worker_pool_iff [OF f] using ok i act by (auto simp: worker_pool_ok_def)
  have rs: "\<forall>r \<in> set ?rs. worker_reservation_ok r"
    using ok mk_worker_reservation_Inr [OF r] by (auto simp: worker_pool_ok_def)
  show ?thesis
    using r q mk_worker_pool_ok [OF f q rs] slot_of_pool [OF act, of ?f]
    by (auto simp: slot_of_def active_def)
qed

lemma reserve_refines:
  assumes ok: "worker_pool_ok p" and safe: "safe_worker k p" and a: "\<not> blank a" and i: "is_digest i"
  shows "\<exists>x. reserve_worker_slot p a i (Aware t z) = Inr x \<and> worker_pool_ok (wx_pool x)
    \<and> (wx_decision x, slot_of (wx_pool x)) = slot_reserve a i (slot_of p)
    \<and> wp_profile (wx_pool x) = wp_profile p
    \<and> (wx_decision x = Reserve_ACCEPT \<longrightarrow>
         (\<exists>r. wx_reservation x = Some r \<and> set (wp_reservations (wx_pool x)) = insert r (set (wp_reservations p))))
    \<and> (wx_decision x \<noteq> Reserve_ACCEPT \<longrightarrow> wx_pool x = p)
    \<and> (wx_decision x \<in> {Reserve_ACCEPT, Reserve_REPLAY_EXISTING} \<longrightarrow>
         (\<exists>r \<in> set (active_reservations (wx_pool x)). wx_reservation x = Some r \<and> wr_attempt_id r = a))"
proof (cases "find (\<lambda>r. wr_reservation_id r = i) (wp_reservations p)")
  case (Some r)
  show ?thesis
    using ok safe a i Some reserve_known [OF ok Some]
    by (auto simp: reserve_worker_slot_def raising.simps raising_append digest_checks_def is_digest_def Let_def safe_worker_def
        mk_worker_reservation_resolution_simps slot_reserve_def active_reservations_def)
next
  case None
  then have unused: "i \<notin> wr_reservation_id ` set (wp_reservations p)" "i \<notin> sl_used (slot_of p)"
    by (auto simp: find_reservation slot_of_def)
  show ?thesis
  proof (cases "active_reservations p")
    case Nil
    obtain r q where r: "mk_worker_reservation i (wf_worker_id (wp_profile p)) (wf_kind (wp_profile p)) a (utc t) None = Inr r"
      "mk_worker_pool (wp_profile p) (wp_reservations p @ [r]) = Inr q" "active r" "wr_attempt_id r = a"
      and q: "worker_pool_ok q" "wp_profile q = wp_profile p" "set (wp_reservations q) = insert r (set (wp_reservations p))"
        "slot_of q = \<lparr>sl_holder = Some (i, a), sl_used = insert i (sl_used (slot_of p))\<rparr>"
      using accepted_reservation [OF ok Nil i unused(1) a, of t] by blast
    have "wf_max_concurrent_nodes (wp_profile p) = 1" using ok by (simp add: worker_pool_ok_def worker_profile_ok_def)
    then have "reserve_worker_slot p a i (Aware t z) = Inr \<lparr>wx_decision = Reserve_ACCEPT, wx_pool = q,
        wx_reservation = Some r, wx_rejection_reason = None\<rparr>"
      using safe a i None Nil r(1,2)
      by (simp add: reserve_worker_slot_def raising.simps digest_checks_def is_digest_def Let_def safe_worker_def
          mk_worker_reservation_resolution_simps)
    moreover have "slot_reserve a i (slot_of p) = (Reserve_ACCEPT, slot_of q)"
    proof -
      have "sl_holder (slot_of p) = None" using Nil by (simp add: slot_holder_None)
      then show ?thesis using unused(2) q(4) by (simp add: slot_reserve_def)
    qed
    ultimately show ?thesis using q(1-3) r(3,4) by (auto simp: active_reservations_def)
  next
    case (Cons r rs)
    then have "rs = []" "wf_max_concurrent_nodes (wp_profile p) = 1"
      using ok by (auto simp: worker_pool_ok_def worker_profile_ok_def)
    with Cons show ?thesis
      using ok safe a i None unused(2)
      by (auto simp: reserve_worker_slot_def raising.simps raising_append digest_checks_def is_digest_def Let_def safe_worker_def
          mk_worker_reservation_resolution_simps slot_reserve_def slot_of_def)
  qed
qed

lemma released_reservation:
  assumes ok: "worker_pool_ok p" and n: "n < length (wp_reservations p)" "active (wp_reservations p ! n)"
    and t: "wr_acquired_at (wp_reservations p ! n) \<le> t"
  defines "r \<equiv> wp_reservations p ! n"
  defines "u \<equiv> r\<lparr>wr_released_at := Some t\<rparr>"
  shows "\<exists>q. mk_worker_pool (wp_profile p) ((wp_reservations p)[n := u]) = Inr q \<and> worker_pool_ok q
    \<and> wp_profile q = wp_profile p \<and> set (wp_reservations q) = insert u (set (wp_reservations p) - {r})
    \<and> slot_of q = (slot_of p)\<lparr>sl_holder := None\<rparr> \<and> sl_holder (slot_of p) = Some (wr_reservation_id r, wr_attempt_id r)"
proof -
  let ?f = "wp_profile p" and ?rs = "(wp_reservations p)[n := u]"
  have f: "worker_profile_ok ?f" and d: "distinct (wp_reservations p)" and one: "length (active_reservations p) \<le> 1"
    using ok by (auto simp: worker_pool_ok_def distinct_map)
  have set: "set ?rs = insert u (set (wp_reservations p) - {r})" using d n by (simp add: set_update_distinct r_def)
  have "r \<in> set (active_reservations p)" using n by (simp add: active_reservations_def r_def)
  with one have only: "active_reservations p = [r]" by (cases "active_reservations p") auto
  from only_active [OF only] have act: "filter active ?rs = []" using set by (auto simp: filter_empty_conv u_def active_def)
  have ids: "map wr_reservation_id ?rs = map wr_reservation_id (wp_reservations p)"
    using n by (simp add: map_update u_def r_def list_update_same_conv)
  have rin: "r \<in> set (wp_reservations p)" using n by (simp add: r_def)
  have q: "mk_worker_pool ?f ?rs = Inr \<lparr>wp_profile = ?f, wp_reservations = sort_key wr_reservation_id ?rs\<rparr>"
    unfolding mk_worker_pool_iff [OF f] using ok set act ids rin by (auto simp: worker_pool_ok_def u_def)
  have rs: "\<forall>r \<in> set ?rs. worker_reservation_ok r"
    using ok rin t set by (auto simp: worker_pool_ok_def worker_reservation_ok_def u_def r_def)
  have "wr_reservation_id ` set ?rs = wr_reservation_id ` set (wp_reservations p)"
    using arg_cong [OF ids, of List.set] by simp
  moreover have "slot_of p = \<lparr>sl_holder = Some (wr_reservation_id r, wr_attempt_id r),
      sl_used = wr_reservation_id ` set (wp_reservations p)\<rparr>"
    using only by (simp add: slot_of_def)
  ultimately show ?thesis using q mk_worker_pool_ok [OF f q rs] slot_of_pool [OF act, of ?f] set by simp
qed

definition slot_freed :: "worker_pool \<Rightarrow> worker_reservation \<Rightarrow> instant \<Rightarrow> worker_pool \<Rightarrow> bool" where
  "slot_freed p r t q \<longleftrightarrow> worker_pool_ok q \<and> wp_profile q = wp_profile p
     \<and> slot_of q = slot_release (wr_reservation_id r) (slot_of p)
     \<and> set (wp_reservations q) = insert (r\<lparr>wr_released_at := Some t\<rparr>) (set (wp_reservations p) - {r})"

lemma release_refines:
  assumes ok: "worker_pool_ok p" and i: "is_digest i" "i \<in> sl_used (slot_of p)"
  shows "\<exists>r \<in> set (wp_reservations p). wr_reservation_id r = i
    \<and> (if \<not> active r then release_worker_slot p i (Aware t z) = Inr p \<and> slot_release i (slot_of p) = slot_of p
       else if t < wr_acquired_at r then
         release_worker_slot p i (Aware t z) = Inl (ValueError ''reservation release cannot precede acquisition'')
       else \<exists>q. release_worker_slot p i (Aware t z) = Inr q \<and> slot_freed p r t q)"
proof -
  obtain n where idx: "reservation_index i (wp_reservations p) = Some n"
    using i(2) reservation_index_None [of i "wp_reservations p"] by (auto simp: slot_of_def)
  define r where "r = wp_reservations p ! n"
  from reservation_index_Some [OF idx] have n: "n < length (wp_reservations p)" "wr_reservation_id r = i"
    by (auto simp: r_def)
  then have r: "r \<in> set (wp_reservations p)" by (simp add: r_def)
  have rok: "worker_reservation_ok r" using ok r by (simp add: worker_pool_ok_def)
  have unique: "r = q" if "q \<in> set (wp_reservations p)" "wr_reservation_id q = i" for q
    using ok r n(2) that by (auto simp: worker_pool_ok_def distinct_map dest: inj_onD)
  note run = release_worker_slot_def raising.simps digest_checks_def Let_def
  have dig: "digest_prefix_ok i" "int16_ok (drop (length ''sha256:'') i)" using i(1) by (simp_all add: is_digest_def)
  consider (released) "\<not> active r" | (early) "active r" "t < wr_acquired_at r" | (freed) "active r" "wr_acquired_at r \<le> t"
    by linarith
  then show ?thesis
  proof cases
    case released
    have "\<not> (\<exists>a. sl_holder (slot_of p) = Some (i, a))"
      using unique released active_member [of p] by (auto simp: slot_holder_Some [OF ok])
    then have "release_worker_slot p i (Aware t z) = Inr p \<and> slot_release i (slot_of p) = slot_of p"
      using dig idx released by (simp add: run r_def slot_release_def)
    with released show ?thesis by (intro bexI [OF _ r]) (simp add: n(2))
  next
    case early
    have "worker_reservation_remake (r\<lparr>wr_released_at := Some t\<rparr>)
        = Inl (ValueError ''reservation release cannot precede acquisition'')"
      using early rok
      by (simp add: worker_reservation_remake_def mk_worker_reservation_def worker_reservation_ok_def is_digest_def
          digest_checks_def raising.simps)
    then have "release_worker_slot p i (Aware t z) = Inl (ValueError ''reservation release cannot precede acquisition'')"
      using dig idx early(1) by (simp add: run r_def)
    with early show ?thesis by (intro bexI [OF _ r]) (simp add: n(2))
  next
    case freed
    obtain q where q: "mk_worker_pool (wp_profile p) ((wp_reservations p)[n := r\<lparr>wr_released_at := Some t\<rparr>]) = Inr q"
      "worker_pool_ok q" "wp_profile q = wp_profile p"
      "set (wp_reservations q) = insert (r\<lparr>wr_released_at := Some t\<rparr>) (set (wp_reservations p) - {r})"
      "slot_of q = (slot_of p)\<lparr>sl_holder := None\<rparr>" "sl_holder (slot_of p) = Some (wr_reservation_id r, wr_attempt_id r)"
      using released_reservation [OF ok n(1)] freed by (auto simp: r_def)
    have "worker_reservation_remake (r\<lparr>wr_released_at := Some t\<rparr>) = Inr (r\<lparr>wr_released_at := Some t\<rparr>)"
      using rok freed by (simp add: worker_reservation_remake_iff worker_reservation_ok_def)
    then have "release_worker_slot p i (Aware t z) = Inr q"
      using dig idx freed(1) q(1) by (simp add: run r_def)
    moreover have "slot_freed p r t q" using q by (simp add: slot_freed_def slot_release_def)
    ultimately show ?thesis using freed by (intro bexI [OF _ r]) (simp add: n(2))
  qed
qed

section \<open>Requests to a pool\<close>

datatype worker_request = Reserve string string datetime | Free string datetime

fun worker_step :: "worker_request \<Rightarrow> worker_pool \<Rightarrow> worker_pool result" where
  "worker_step (Reserve a i now) p = rbind (reserve_worker_slot p a i now) (\<lambda>x. Inr (wx_pool x))"
| "worker_step (Free i now) p = release_worker_slot p i now"

text \<open>A pool only moves forward: its profile stays, and a reservation stays as it is, except that an active
  one may be released once.\<close>

definition worker_le :: "worker_pool \<Rightarrow> worker_pool \<Rightarrow> bool" where
  "worker_le p q \<longleftrightarrow> wp_profile q = wp_profile p
     \<and> (\<forall>r \<in> set (wp_reservations p). \<exists>s \<in> set (wp_reservations q).
          s = r \<or> active r \<and> (\<exists>t. s = r\<lparr>wr_released_at := Some t\<rparr>))"

lemma reserve_unsafe:
  assumes "reserve_worker_slot p a i now = Inr x" "\<not> safe_worker (wf_kind (wp_profile p)) p"
  shows "wx_pool x = p"
  using assms
  by (auto simp: reserve_worker_slot_def safe_worker_def Let_def contract_simps split: if_splits
      dest: mk_worker_reservation_resolution_Inr)

lemma reserve_inputs:
  "reserve_worker_slot p a i now = Inr x \<Longrightarrow> \<not> blank a \<and> is_digest i \<and> (\<exists>t z. now = Aware t z)"
  by (auto simp: reserve_worker_slot_def is_digest_def digest_checks_def contract_simps)

lemma release_inputs:
  assumes "release_worker_slot p i now = Inr q"
  shows "is_digest i \<and> i \<in> sl_used (slot_of p) \<and> (\<exists>t z. now = Aware t z)"
  using assms reservation_index_None [of i "wp_reservations p"]
  by (auto simp: release_worker_slot_def is_digest_def digest_checks_def contract_simps slot_of_def split: option.splits)

lemma reserve_step:
  assumes ok: "worker_pool_ok p" and x: "reserve_worker_slot p a i now = Inr x"
  shows "worker_pool_ok (wx_pool x) \<and> worker_le p (wx_pool x)"
proof (cases "safe_worker (wf_kind (wp_profile p)) p")
  case True
  obtain t z where now: "\<not> blank a" "is_digest i" "now = Aware t z" using reserve_inputs [OF x] by blast
  show ?thesis
    using reserve_refines [OF ok True now(1,2), of t z] x now(3) ok
    by (cases "wx_decision x = Reserve_ACCEPT") (auto simp: worker_le_def)
qed (use reserve_unsafe [OF x] ok in \<open>auto simp: worker_le_def\<close>)

lemma release_step:
  assumes ok: "worker_pool_ok p" and q: "release_worker_slot p i now = Inr q"
  shows "worker_pool_ok q \<and> worker_le p q \<and> slot_of q = slot_release i (slot_of p)"
proof -
  obtain t z where i: "is_digest i" "i \<in> sl_used (slot_of p)" "now = Aware t z" using release_inputs [OF q] by blast
  show ?thesis
    using release_refines [OF ok i(1,2), of t z] q ok i(3)
    by (auto simp: worker_le_def slot_freed_def split: if_splits)
qed

interpretation worker_pools: guarded_machine worker_step worker_pool_ok worker_le
proof
  fix p r q
  assume "worker_pool_ok p" "worker_step r p = Inr q"
  then show "worker_pool_ok q" "worker_le p q"
    using reserve_step release_step by (cases r; auto)+
next
  fix p q o'
  show "worker_le p p" by (auto simp: worker_le_def)
  assume pq: "worker_le p q" and qo: "worker_le q o'"
  show "worker_le p o'"
    unfolding worker_le_def
  proof (intro conjI ballI)
    show "wp_profile o' = wp_profile p" using pq qo by (simp add: worker_le_def)
    fix r assume "r \<in> set (wp_reservations p)"
    then obtain s where s: "s \<in> set (wp_reservations q)" "s = r \<or> active r \<and> (\<exists>t. s = r\<lparr>wr_released_at := Some t\<rparr>)"
      using pq by (auto simp: worker_le_def)
    then obtain u where "u \<in> set (wp_reservations o')" "u = s \<or> active s \<and> (\<exists>t. u = s\<lparr>wr_released_at := Some t\<rparr>)"
      using qo by (auto simp: worker_le_def)
    with s show "\<exists>s \<in> set (wp_reservations o'). s = r \<or> active r \<and> (\<exists>t. s = r\<lparr>wr_released_at := Some t\<rparr>)"
      by (auto simp: active_def)
  qed
qed

section \<open>Properties\<close>

text \<open>C5: the reservation pool refines a single slot. After any reservations and releases a valid pool is
  valid, runs at most one engine node, keeps every reservation it ever had and releases each at most
  once. On a safe worker, reserving always answers exactly as the slot does: the free slot is taken by
  a new reservation, the attempt that holds it is answered with its own reservation, another attempt
  finds it saturated, and a used reservation id is never bound again. A release frees the slot exactly
  when it names the reservation that holds it.\<close>

theorem worker_slot_refines:
  assumes "worker_pool_ok p0" and p: "p = serve worker_step rs p0"
    and "safe_worker k p" "\<not> blank a" "is_digest i"
  shows "worker_pool_ok p \<and> worker_le p0 p \<and> length (active_reservations p) \<le> 1
    \<and> (\<exists>x. reserve_worker_slot p a i (Aware t z) = Inr x
          \<and> (wx_decision x, slot_of (wx_pool x)) = slot_reserve a i (slot_of p)
          \<and> (wx_decision x \<in> {Reserve_ACCEPT, Reserve_REPLAY_EXISTING} \<longrightarrow>
               (\<exists>r \<in> set (active_reservations (wx_pool x)). wx_reservation x = Some r \<and> wr_attempt_id r = a)))
    \<and> (\<forall>q. release_worker_slot p i (Aware t z) = Inr q \<longrightarrow> slot_of q = slot_release i (slot_of p))"
proof -
  have ok: "worker_pool_ok p" "worker_le p0 p"
    unfolding p using assms(1) by (simp_all add: worker_pools.serve_inv worker_pools.serve_le)
  have "length (active_reservations p) \<le> 1" using ok(1) by (simp add: worker_pool_ok_def)
  with ok release_step [OF ok(1)] show ?thesis
    using reserve_refines [OF ok(1) assms(3-5), of t z] by auto
qed

definition sample_profile :: worker_profile where
  "sample_profile = \<lparr>wf_worker_id = ''w-1'', wf_kind = Worker_BACKTEST,
     wf_runtime_profile_fingerprint = digest_text ''runtime'', wf_isolation_required = True,
     wf_engine_disposal_required = True, wf_max_concurrent_nodes = 1\<rparr>"

definition sample_pool :: worker_pool where
  "sample_pool = \<lparr>wp_profile = sample_profile, wp_reservations = []\<rparr>"

lemma sample_pool_ok: "worker_pool_ok sample_pool \<and> safe_worker Worker_BACKTEST sample_pool"
  by (simp add: worker_pool_ok_def worker_profile_ok_def sample_pool_def sample_profile_def active_reservations_def
      safe_worker_def blank_iff py_space_def)

theorem worker_slot_refines_witness:
  "worker_pool_ok sample_pool
   \<and> (\<exists>x. reserve_worker_slot sample_pool ''a-1'' (digest_text ''r'') (Aware 5 0) = Inr x
        \<and> wx_decision x = Reserve_ACCEPT \<and> sl_holder (slot_of (wx_pool x)) = Some (digest_text ''r'', ''a-1''))"
proof -
  have "slot_reserve ''a-1'' (digest_text ''r'') (slot_of sample_pool)
      = (Reserve_ACCEPT, \<lparr>sl_holder = Some (digest_text ''r'', ''a-1''), sl_used = {digest_text ''r''}\<rparr>)"
    by (simp add: slot_reserve_def slot_of_def sample_pool_def active_reservations_def)
  then show ?thesis
    using worker_slot_refines [of sample_pool sample_pool "[]" Worker_BACKTEST "''a-1''" "digest_text ''r''" 5 0]
      sample_pool_ok
    by (auto simp: blank_iff py_space_def)
qed

definition rank_pools :: "worker_kind \<Rightarrow> worker_pool list \<Rightarrow> string \<Rightarrow> worker_pool list result" where
  "rank_pools kind pools a = (case kind of Worker_BACKTEST \<Rightarrow> rank_available_backtest_worker_pools pools a
     | Worker_FORWARD \<Rightarrow> rank_available_forward_worker_pools pools a)"

lemma rank_pools_Inr:
  "\<exists>purpose. rank_pools kind pools a = Inr ps \<longleftrightarrow>
     \<not> blank a \<and> distinct (map (\<lambda>p. wf_worker_id (wp_profile p)) pools) \<and> length (filter (holds_attempt a) pools) \<le> 1
     \<and> (if filter (holds_attempt a) pools \<noteq> []
         then safe_worker kind (hd (filter (holds_attempt a) pools)) \<and> ps = filter (holds_attempt a) pools
         else ps = sort_key (pool_rank purpose a) (filter (\<lambda>p. safe_worker kind p \<and> active_reservations p = []) pools))"
  by (cases kind)
    (auto simp: rank_pools_def rank_available_backtest_worker_pools_def rank_available_forward_worker_pools_def Let_def
      contract_simps)

lemma holds_attempt_iff:
  assumes "worker_pool_ok p"
  shows "holds_attempt a p \<longleftrightarrow> (\<exists>i. sl_holder (slot_of p) = Some (i, a))"
proof -
  have "holds_attempt a p \<longleftrightarrow> (\<exists>r \<in> set (active_reservations p). wr_attempt_id r = a)"
    by (auto simp: holds_attempt_def list_ex_iff active_reservations_def)
  also have "\<dots> \<longleftrightarrow> (\<exists>i. sl_holder (slot_of p) = Some (i, a))"
    using assms by (cases "active_reservations p") (auto simp: slot_of_def worker_pool_ok_def)
  finally show ?thesis .
qed

lemma ranked_reservable:
  assumes "worker_pool_ok p" "safe_worker kind p" "holds_attempt a p \<or> active_reservations p = []"
    "\<not> blank a" "is_digest i" "i \<notin> sl_used (slot_of p)"
  shows "\<exists>x. reserve_worker_slot p a i (Aware t z) = Inr x \<and> wx_decision x \<in> {Reserve_ACCEPT, Reserve_REPLAY_EXISTING}"
proof -
  have "fst (slot_reserve a i (slot_of p)) \<in> {Reserve_ACCEPT, Reserve_REPLAY_EXISTING}"
    using assms(3,6) by (auto simp: slot_reserve_def holds_attempt_iff [OF assms(1)] slot_holder_None [symmetric])
  with reserve_refines [OF assms(1,2,4,5), of t z] show ?thesis by (auto simp: prod_eq_iff)
qed

lemma sorted_rank_last_used: "sorted (map (pool_rank purpose a) ps) \<Longrightarrow> sorted (map pool_last_used ps)"
  by (induction ps) (auto simp: pool_rank_def less_eq_prod_def)

text \<open>The dispatch ranking names exactly the workers that can take the attempt. When an attempt already
  holds a reservation, the ranking is that one pool, so a replay never moves to another worker;
  otherwise it is every idle safe pool of the kind, once, least recently used first. Reserving the
  attempt on any ranked pool, under an unused reservation id, succeeds.\<close>

theorem ranking_exact:
  assumes ok: "\<forall>p \<in> set pools. worker_pool_ok p" and ranked: "rank_pools kind pools a = Inr ps"
  shows "distinct ps \<and> sorted (map pool_last_used ps) \<and> (\<forall>p \<in> set ps. safe_worker kind p)
    \<and> set ps = (if \<exists>p \<in> set pools. holds_attempt a p then {p \<in> set pools. holds_attempt a p}
                else {p \<in> set pools. safe_worker kind p \<and> active_reservations p = []})
    \<and> ((\<exists>p \<in> set pools. holds_attempt a p) \<longrightarrow> length ps = 1)
    \<and> (\<forall>p \<in> set ps. \<forall>i t z. is_digest i \<and> i \<notin> sl_used (slot_of p) \<longrightarrow>
         (\<exists>x. reserve_worker_slot p a i (Aware t z) = Inr x
            \<and> wx_decision x \<in> {Reserve_ACCEPT, Reserve_REPLAY_EXISTING}))"
proof -
  obtain purpose where a: "\<not> blank a" and d: "distinct (map (\<lambda>p. wf_worker_id (wp_profile p)) pools)"
    and one: "length (filter (holds_attempt a) pools) \<le> 1"
    and ps: "if filter (holds_attempt a) pools \<noteq> []
         then safe_worker kind (hd (filter (holds_attempt a) pools)) \<and> ps = filter (holds_attempt a) pools
         else ps = sort_key (pool_rank purpose a) (filter (\<lambda>p. safe_worker kind p \<and> active_reservations p = []) pools)"
    using rank_pools_Inr [of kind pools a ps] ranked by auto
  have d': "distinct pools" using d by (simp add: distinct_map)
  show ?thesis
  proof (cases "filter (holds_attempt a) pools")
    case Nil
    then have none: "\<not> (\<exists>p \<in> set pools. holds_attempt a p)" by (auto simp: filter_empty_conv)
    have "sorted (map (pool_rank purpose a) ps)" using ps Nil by simp
    then have "sorted (map pool_last_used ps)" by (rule sorted_rank_last_used)
    with none Nil ps d' ok ranked_reservable [OF _ _ _ a] show ?thesis by auto
  next
    case (Cons p qs)
    then have p: "ps = [p]" "safe_worker kind p" using one ps by auto
    have S: "{q \<in> set pools. holds_attempt a q} = {p}"
      using ps Cons p by (metis list.distinct(1) list.set(1,2) set_filter)
    then have mem: "p \<in> set pools" "holds_attempt a p" by auto
    then have ex: "\<exists>q \<in> set pools. holds_attempt a q" by blast
    show ?thesis unfolding S p(1) using ex p(2) mem ok ranked_reservable [OF _ p(2) _ a] by simp
  qed
qed

theorem ranking_exact_witness:
  "\<exists>ps. rank_pools Worker_BACKTEST [sample_pool] ''a-1'' = Inr ps \<and> set ps = {sample_pool}
     \<and> (\<exists>x. reserve_worker_slot sample_pool ''a-1'' (digest_text ''r'') (Aware 5 0) = Inr x
          \<and> wx_decision x \<in> {Reserve_ACCEPT, Reserve_REPLAY_EXISTING})"
proof -
  have r: "rank_pools Worker_BACKTEST [sample_pool] ''a-1'' = Inr [sample_pool]"
    by (simp add: rank_pools_def rank_available_backtest_worker_pools_def Let_def raising.simps holds_attempt_def
        sample_pool_def sample_profile_def safe_worker_def active_reservations_def blank_iff py_space_def)
  have "digest_text ''r'' \<notin> sl_used (slot_of sample_pool)" by (simp add: slot_of_def sample_pool_def)
  with r ranking_exact [OF _ r] sample_pool_ok show ?thesis by auto
qed

end
