(* ===== verification/Runtime_Isolation.thy ===== *)
theory Runtime_Isolation
  imports Contracts
begin

text \<open>
  \<open>src/backend/app/strategy_lab_v2/runtime.py\<close>: the fail-closed preflight of the sandbox a strategy runs in.
\<close>

datatype isolation_decision = Isolation_ALLOW | Isolation_REJECT

record isolation_profile =
  ip_runtime_image_digest :: string
  ip_runtime_abi :: string
  ip_network_disabled :: bool
  ip_read_only_root :: bool
  ip_capabilities_dropped :: bool
  ip_secrets_disabled :: bool
  ip_wall_timeout_seconds :: int
  ip_cpu_limit_seconds :: int
  ip_memory_limit_bytes :: int
  ip_output_limit_bytes :: int
  ip_allowed_dependency_digests :: "string set"

definition mk_isolation_profile ::
  "string \<Rightarrow> string \<Rightarrow> bool \<Rightarrow> bool \<Rightarrow> bool \<Rightarrow> bool \<Rightarrow> int \<Rightarrow> int \<Rightarrow> int \<Rightarrow> int \<Rightarrow> string list
     \<Rightarrow> isolation_profile result" where
  "mk_isolation_profile img abi network root capabilities secrets wall cpu memory output dependencies =
     raising
       (digest_checks img ''runtime_image_digest''
        @ [(blank abi, ''runtime_abi must not be empty''),
           (wall \<le> 0, ''wall_timeout_seconds must be a positive integer''),
           (cpu \<le> 0, ''cpu_limit_seconds must be a positive integer''),
           (memory \<le> 0, ''memory_limit_bytes must be a positive integer''),
           (output \<le> 0, ''output_limit_bytes must be a positive integer'')]
        @ concat (map (\<lambda>d. digest_checks d ''allowed_dependency_digest'') dependencies))
       (Inr \<lparr>ip_runtime_image_digest = img, ip_runtime_abi = abi, ip_network_disabled = network,
             ip_read_only_root = root, ip_capabilities_dropped = capabilities, ip_secrets_disabled = secrets,
             ip_wall_timeout_seconds = wall, ip_cpu_limit_seconds = cpu, ip_memory_limit_bytes = memory,
             ip_output_limit_bytes = output, ip_allowed_dependency_digests = set dependencies\<rparr>)"

definition isolation_profile_fingerprint :: "isolation_profile \<Rightarrow> string" where
  "isolation_profile_fingerprint p = digest (dataclass_py ''app.strategy_lab_v2.runtime.RuntimeIsolationProfile''
     [(''runtime_image_digest'', PStr (ip_runtime_image_digest p)),
      (''runtime_abi'', PStr (ip_runtime_abi p)),
      (''network_disabled'', PBool (ip_network_disabled p)),
      (''read_only_root'', PBool (ip_read_only_root p)),
      (''capabilities_dropped'', PBool (ip_capabilities_dropped p)),
      (''secrets_disabled'', PBool (ip_secrets_disabled p)),
      (''wall_timeout_seconds'', PInt (ip_wall_timeout_seconds p)),
      (''cpu_limit_seconds'', PInt (ip_cpu_limit_seconds p)),
      (''memory_limit_bytes'', PInt (ip_memory_limit_bytes p)),
      (''output_limit_bytes'', PInt (ip_output_limit_bytes p)),
      (''allowed_dependency_digests'', str_set_py (ip_allowed_dependency_digests p))])"

record isolation_request =
  iq_attempt_id :: string
  iq_dependency_digests :: "string list"
  iq_network_requested :: bool
  iq_writable_paths_requested :: "string list"
  iq_secret_names_requested :: "string list"

definition mk_isolation_request ::
  "string \<Rightarrow> string list \<Rightarrow> bool \<Rightarrow> string list \<Rightarrow> string list \<Rightarrow> isolation_request result" where
  "mk_isolation_request attempt_id dependencies network paths secrets =
     raising
       ([(blank attempt_id, ''attempt_id must not be empty''),
         (\<not> distinct dependencies, ''dependency digests must be unique'')]
        @ concat (map (\<lambda>d. digest_checks d ''dependency_digest'') dependencies)
        @ [(list_ex blank paths, ''writable_paths_requested must contain non-empty strings''),
           (\<not> distinct paths, ''writable_paths_requested must not contain duplicates''),
           (list_ex blank secrets, ''secret_names_requested must contain non-empty strings''),
           (\<not> distinct secrets, ''secret_names_requested must not contain duplicates'')])
       (Inr \<lparr>iq_attempt_id = attempt_id, iq_dependency_digests = dependencies, iq_network_requested = network,
             iq_writable_paths_requested = paths, iq_secret_names_requested = secrets\<rparr>)"

definition str_tuple_py :: "string list \<Rightarrow> pyval" where
  "str_tuple_py xs = PTuple (map PStr xs)"

definition isolation_request_py :: "isolation_request \<Rightarrow> pyval" where
  "isolation_request_py q = dataclass_py ''app.strategy_lab_v2.runtime.RuntimeIsolationRequest''
     [(''attempt_id'', PStr (iq_attempt_id q)),
      (''dependency_digests'', str_tuple_py (iq_dependency_digests q)),
      (''network_requested'', PBool (iq_network_requested q)),
      (''writable_paths_requested'', str_tuple_py (iq_writable_paths_requested q)),
      (''secret_names_requested'', str_tuple_py (iq_secret_names_requested q))]"

definition isolation_request_fingerprint :: "isolation_request \<Rightarrow> string" where
  "isolation_request_fingerprint q = digest (isolation_request_py q)"

record isolation_report =
  rt_decision :: isolation_decision
  rt_profile_fingerprint :: string
  rt_request_fingerprint :: string
  rt_rejection_reasons :: "string list"
  rt_missing_dependency_digests :: "string list"

definition mk_isolation_report ::
  "isolation_decision \<Rightarrow> string \<Rightarrow> string \<Rightarrow> string list \<Rightarrow> string list \<Rightarrow> isolation_report result" where
  "mk_isolation_report decision profile_fp request_fp reasons missing =
     raising
       (digest_checks profile_fp ''profile_fingerprint'' @ digest_checks request_fp ''request_fingerprint''
        @ [(\<not> distinct reasons \<or> list_ex blank reasons, ''rejection reasons must be unique and non-empty'')]
        @ concat (map (\<lambda>d. digest_checks d ''missing_dependency_digest'') missing)
        @ [(\<not> distinct missing, ''missing dependency digests must be unique''),
           (decision = Isolation_ALLOW \<and> reasons \<noteq> [], ''allowed isolation reports cannot contain rejection reasons''),
           (decision = Isolation_ALLOW \<and> missing \<noteq> [],
              ''allowed isolation reports cannot contain missing dependencies'')])
       (Inr \<lparr>rt_decision = decision, rt_profile_fingerprint = profile_fp, rt_request_fingerprint = request_fp,
             rt_rejection_reasons = reasons, rt_missing_dependency_digests = missing\<rparr>)"

definition reason_if :: "bool \<Rightarrow> string \<Rightarrow> string list" where
  "reason_if b m = (if b then [m] else [])"

definition preflight_runtime_isolation :: "isolation_profile \<Rightarrow> isolation_request \<Rightarrow> isolation_report result" where
  "preflight_runtime_isolation profile request =
     (let missing = sort (remdups (filter (\<lambda>d. d \<notin> ip_allowed_dependency_digests profile) (iq_dependency_digests request)));
          reasons =
            reason_if (\<not> ip_network_disabled profile) ''network_must_be_disabled''
            @ reason_if (\<not> ip_read_only_root profile) ''root_filesystem_must_be_read_only''
            @ reason_if (\<not> ip_capabilities_dropped profile) ''container_capabilities_must_be_dropped''
            @ reason_if (\<not> ip_secrets_disabled profile) ''runtime_secrets_must_be_disabled''
            @ reason_if (iq_network_requested request) ''strategy_requested_network_access''
            @ reason_if (iq_writable_paths_requested request \<noteq> []) ''strategy_requested_writable_paths''
            @ reason_if (iq_secret_names_requested request \<noteq> []) ''strategy_requested_secrets''
            @ reason_if (missing \<noteq> []) ''dependency_digest_not_vetted''
      in mk_isolation_report (if reasons \<noteq> [] then Isolation_REJECT else Isolation_ALLOW)
           (isolation_profile_fingerprint profile) (isolation_request_fingerprint request) reasons missing)"

section \<open>The preflight is total and fail-closed\<close>

definition isolation_profile_ok :: "isolation_profile \<Rightarrow> bool" where
  "isolation_profile_ok p \<longleftrightarrow> is_digest (ip_runtime_image_digest p) \<and> \<not> blank (ip_runtime_abi p)
     \<and> 0 < ip_wall_timeout_seconds p \<and> 0 < ip_cpu_limit_seconds p \<and> 0 < ip_memory_limit_bytes p
     \<and> 0 < ip_output_limit_bytes p \<and> (\<forall>d \<in> ip_allowed_dependency_digests p. is_digest d)"

definition isolation_request_ok :: "isolation_request \<Rightarrow> bool" where
  "isolation_request_ok q \<longleftrightarrow> \<not> blank (iq_attempt_id q) \<and> distinct (iq_dependency_digests q)
     \<and> (\<forall>d \<in> set (iq_dependency_digests q). is_digest d)
     \<and> (\<forall>x \<in> set (iq_writable_paths_requested q). \<not> blank x) \<and> distinct (iq_writable_paths_requested q)
     \<and> (\<forall>x \<in> set (iq_secret_names_requested q). \<not> blank x) \<and> distinct (iq_secret_names_requested q)"

text \<open>What the sandbox must guarantee before a strategy may start.\<close>

definition sandbox_secure :: "isolation_profile \<Rightarrow> isolation_request \<Rightarrow> bool" where
  "sandbox_secure p q \<longleftrightarrow> ip_network_disabled p \<and> ip_read_only_root p \<and> ip_capabilities_dropped p \<and> ip_secrets_disabled p
     \<and> \<not> iq_network_requested q \<and> iq_writable_paths_requested q = [] \<and> iq_secret_names_requested q = []
     \<and> set (iq_dependency_digests q) \<subseteq> ip_allowed_dependency_digests p"

lemma mk_isolation_profile_ok: "mk_isolation_profile i a n r c s w u m out ds = Inr p \<Longrightarrow> isolation_profile_ok p"
  by (auto simp: mk_isolation_profile_def isolation_profile_ok_def raising_Inr_iff digests_clean all_digests_clean)

lemma mk_isolation_request_ok: "mk_isolation_request i ds n ps ss = Inr q \<Longrightarrow> isolation_request_ok q"
  by (auto simp: mk_isolation_request_def isolation_request_ok_def raising_Inr_iff all_digests_clean list_ex_iff)

lemma encodable_str_tuple [simp]: "encodable (str_tuple_py xs)"
  by (simp add: str_tuple_py_def list_all_iff)

lemma encodable_isolation_request [simp]: "encodable (isolation_request_py q)"
  by (simp add: isolation_request_py_def)

lemma isolation_fingerprint_digests [simp]:
  "is_digest (isolation_profile_fingerprint p)" "is_digest (isolation_request_fingerprint q)"
  by (simp_all add: isolation_profile_fingerprint_def isolation_request_fingerprint_def is_digest_digest)

definition missing_dependencies :: "isolation_profile \<Rightarrow> isolation_request \<Rightarrow> string list" where
  "missing_dependencies p q = sort (remdups (filter (\<lambda>d. d \<notin> ip_allowed_dependency_digests p) (iq_dependency_digests q)))"

definition isolation_reasons :: "isolation_profile \<Rightarrow> isolation_request \<Rightarrow> string list" where
  "isolation_reasons p q =
     reason_if (\<not> ip_network_disabled p) ''network_must_be_disabled''
     @ reason_if (\<not> ip_read_only_root p) ''root_filesystem_must_be_read_only''
     @ reason_if (\<not> ip_capabilities_dropped p) ''container_capabilities_must_be_dropped''
     @ reason_if (\<not> ip_secrets_disabled p) ''runtime_secrets_must_be_disabled''
     @ reason_if (iq_network_requested q) ''strategy_requested_network_access''
     @ reason_if (iq_writable_paths_requested q \<noteq> []) ''strategy_requested_writable_paths''
     @ reason_if (iq_secret_names_requested q \<noteq> []) ''strategy_requested_secrets''
     @ reason_if (missing_dependencies p q \<noteq> []) ''dependency_digest_not_vetted''"

lemma set_missing: "set (missing_dependencies p q) = set (iq_dependency_digests q) - ip_allowed_dependency_digests p"
  by (auto simp: missing_dependencies_def)

lemma missing_Nil: "missing_dependencies p q = [] \<longleftrightarrow> set (iq_dependency_digests q) \<subseteq> ip_allowed_dependency_digests p"
  using set_missing [of p q] by (metis Diff_eq_empty_iff set_empty)

lemma isolation_reasons_Nil: "isolation_reasons p q = [] \<longleftrightarrow> sandbox_secure p q"
  by (auto simp: isolation_reasons_def reason_if_def sandbox_secure_def missing_Nil)

text \<open>The reasons are a selection from a fixed list of distinct messages.\<close>

lemma reason_if_selects:
  "reason_if b m @ map snd (filter fst xs) = map snd (filter fst ((b, m) # xs))"
  "reason_if b m = map snd (filter fst [(b, m)])"
  by (simp_all add: reason_if_def)

lemma selected_wf:
  assumes "distinct (map snd xs)" "list_all (\<lambda>x. \<not> blank (snd x)) xs"
  shows "distinct (map snd (filter fst xs)) \<and> \<not> list_ex blank (map snd (filter fst xs))"
  using assms by (auto simp: distinct_map list_ex_iff list_all_iff intro: inj_on_subset)

lemma isolation_reasons_wf: "distinct (isolation_reasons p q) \<and> \<not> list_ex blank (isolation_reasons p q)"
proof -
  have "\<exists>xs. isolation_reasons p q = map snd (filter fst xs) \<and> distinct (map snd xs) \<and> list_all (\<lambda>x. \<not> blank (snd x)) xs"
    unfolding isolation_reasons_def reason_if_selects(2) [of _ "''dependency_digest_not_vetted''"]
    by (simp only: reason_if_selects(1), intro exI conjI, rule refl) (simp_all add: blank_iff py_space_def)
  then show ?thesis using selected_wf by metis
qed

lemma preflight_isolation_answers:
  assumes "isolation_request_ok q"
  shows "preflight_runtime_isolation p q = Inr
    \<lparr>rt_decision = (if sandbox_secure p q then Isolation_ALLOW else Isolation_REJECT),
     rt_profile_fingerprint = isolation_profile_fingerprint p, rt_request_fingerprint = isolation_request_fingerprint q,
     rt_rejection_reasons = isolation_reasons p q, rt_missing_dependency_digests = missing_dependencies p q\<rparr>"
proof -
  have "preflight_runtime_isolation p q = mk_isolation_report
      (if isolation_reasons p q \<noteq> [] then Isolation_REJECT else Isolation_ALLOW)
      (isolation_profile_fingerprint p) (isolation_request_fingerprint q) (isolation_reasons p q) (missing_dependencies p q)"
    by (simp add: preflight_runtime_isolation_def Let_def isolation_reasons_def missing_dependencies_def)
  moreover have "\<forall>d \<in> set (missing_dependencies p q). is_digest d"
    using assms by (auto simp: set_missing isolation_request_ok_def)
  moreover have "distinct (missing_dependencies p q)" by (simp add: missing_dependencies_def)
  moreover have "sandbox_secure p q \<longrightarrow> missing_dependencies p q = []" by (simp add: sandbox_secure_def missing_Nil)
  ultimately show ?thesis
    using isolation_reasons_wf [of p q]
    by (auto simp: mk_isolation_report_def raising_Inr_iff digests_clean all_digests_clean isolation_reasons_Nil)
qed

end
