(* ===== verification/Runtime_Execution.thy ===== *)
theory Runtime_Execution
  imports Runtime_Isolation
begin

text \<open>
  \<open>src/backend/app/strategy_lab_v2/runtime_execution.py\<close>: the request to run a strategy in a sandbox, its preflight,
  and the receipts of the running process.
\<close>

section \<open>Entry points\<close>

text \<open>\<open>str.split\<close> with a one-character separator.\<close>

fun split_on :: "char \<Rightarrow> string \<Rightarrow> string list" where
  "split_on c [] = [[]]"
| "split_on c (x # xs) =
     (if x = c then [] # split_on c xs else (x # hd (split_on c xs)) # tl (split_on c xs))"

text \<open>\<open>str.isidentifier\<close> on U+0000 to U+00FF.\<close>

definition identifier_start :: "char \<Rightarrow> bool" where
  "identifier_start c = (let n = (of_char c :: nat)
     in 65 \<le> n \<and> n \<le> 90 \<or> 97 \<le> n \<and> n \<le> 122 \<or> n = 95 \<or> n = 170 \<or> n = 181 \<or> n = 186
        \<or> 192 \<le> n \<and> n \<noteq> 215 \<and> n \<noteq> 247)"

definition identifier_continue :: "char \<Rightarrow> bool" where
  "identifier_continue c = (let n = (of_char c :: nat)
     in identifier_start c \<or> 48 \<le> n \<and> n \<le> 57 \<or> n = 183)"

fun isidentifier :: "string \<Rightarrow> bool" where
  "isidentifier [] \<longleftrightarrow> False"
| "isidentifier (c # cs) \<longleftrightarrow> identifier_start c \<and> list_all identifier_continue cs"

definition entrypoint_ok :: "string \<Rightarrow> bool" where
  "entrypoint_ok value \<longleftrightarrow> length (split_on CHR '':'' value) = 2
     \<and> \<not> list_ex (\<lambda>part. part = [] \<or> list_ex (\<lambda>token. \<not> isidentifier token) (split_on CHR ''.'' part))
         (split_on CHR '':'' value)"

section \<open>Requests and their preflight\<close>

record runtime_request =
  rq_request_id :: string
  rq_attempt_id :: string
  rq_package_fingerprint :: string
  rq_source_digest :: string
  rq_input_bundle_digest :: string
  rq_runtime_profile_fingerprint :: string
  rq_entrypoint :: string
  rq_isolation_request :: isolation_request
  rq_submitted_at :: instant

definition mk_runtime_request ::
  "string \<Rightarrow> string \<Rightarrow> string \<Rightarrow> string \<Rightarrow> string \<Rightarrow> string \<Rightarrow> string \<Rightarrow> isolation_request \<Rightarrow> datetime
     \<Rightarrow> runtime_request result" where
  "mk_runtime_request request_id attempt_id package source input_bundle runtime_profile entrypoint isolation submitted_at =
     raising
       (digest_checks request_id ''request_id''
        @ [(blank attempt_id, ''attempt_id must not be empty'')]
        @ digest_checks package ''package_fingerprint'' @ digest_checks source ''source_digest''
        @ digest_checks input_bundle ''input_bundle_digest''
        @ digest_checks runtime_profile ''runtime_profile_fingerprint''
        @ [(\<not> entrypoint_ok entrypoint, ''entrypoint must use module.path:callable syntax''),
           (iq_attempt_id isolation \<noteq> attempt_id, ''isolation request must reference the runtime attempt'')])
       (with_aware submitted_at ''submitted_at must be timezone-aware'' (\<lambda>submitted.
          Inr \<lparr>rq_request_id = request_id, rq_attempt_id = attempt_id, rq_package_fingerprint = package,
               rq_source_digest = source, rq_input_bundle_digest = input_bundle,
               rq_runtime_profile_fingerprint = runtime_profile, rq_entrypoint = entrypoint,
               rq_isolation_request = isolation, rq_submitted_at = submitted\<rparr>))"

definition runtime_request_fingerprint :: "runtime_request \<Rightarrow> string" where
  "runtime_request_fingerprint q = digest (PMapping
     [(''attempt_id'', PStr (rq_attempt_id q)),
      (''entrypoint'', PStr (rq_entrypoint q)),
      (''input_bundle_digest'', PStr (rq_input_bundle_digest q)),
      (''isolation_request'', isolation_request_py (rq_isolation_request q)),
      (''package_fingerprint'', PStr (rq_package_fingerprint q)),
      (''request_id'', PStr (rq_request_id q)),
      (''runtime_profile_fingerprint'', PStr (rq_runtime_profile_fingerprint q)),
      (''source_digest'', PStr (rq_source_digest q))])"

datatype runtime_decision = Runtime_ALLOW | Runtime_REJECT

record runtime_preflight =
  rf_request_fingerprint :: string
  rf_profile_fingerprint :: string
  rf_isolation_report :: isolation_report
  rf_decision :: runtime_decision
  rf_rejection_reasons :: "string list"

definition mk_runtime_preflight ::
  "string \<Rightarrow> string \<Rightarrow> isolation_report \<Rightarrow> runtime_decision \<Rightarrow> string list \<Rightarrow> runtime_preflight result" where
  "mk_runtime_preflight request_fp profile_fp report decision reasons =
     raising
       (digest_checks request_fp ''request_fingerprint'' @ digest_checks profile_fp ''profile_fingerprint''
        @ [(list_ex blank reasons, ''runtime rejection reasons must be non-empty strings''),
           (\<not> distinct reasons, ''runtime rejection reasons must be unique''),
           (decision = Runtime_ALLOW \<and> reasons \<noteq> [],
              ''allowed runtime preflights cannot contain rejection reasons''),
           (decision = Runtime_REJECT \<and> reasons = [], ''rejected runtime preflights require rejection reasons'')])
       (Inr \<lparr>rf_request_fingerprint = request_fp, rf_profile_fingerprint = profile_fp, rf_isolation_report = report,
             rf_decision = decision, rf_rejection_reasons = reasons\<rparr>)"

definition preflight_strategy_runtime :: "runtime_request \<Rightarrow> isolation_profile \<Rightarrow> runtime_preflight result" where
  "preflight_strategy_runtime request profile =
     rbind (preflight_runtime_isolation profile (rq_isolation_request request)) (\<lambda>report.
       let rejection_reasons = rt_rejection_reasons report
             @ (if rq_runtime_profile_fingerprint request \<noteq> isolation_profile_fingerprint profile
                then [''runtime_profile_identity_mismatch''] else []);
           reasons = sort (remdups rejection_reasons)
       in mk_runtime_preflight (runtime_request_fingerprint request) (isolation_profile_fingerprint profile) report
            (if reasons = [] then Runtime_ALLOW else Runtime_REJECT) reasons)"

section \<open>Execution receipts\<close>

datatype runtime_phase = Runtime_ACCEPTED | Runtime_RUNNING | Runtime_SUCCEEDED | Runtime_FAILED | Runtime_CANCELLED

definition terminal_runtime_phases :: "runtime_phase set" where
  "terminal_runtime_phases = {Runtime_SUCCEEDED, Runtime_FAILED, Runtime_CANCELLED}"

record runtime_update =
  ru_request_fingerprint :: string
  ru_attempt_id :: string
  ru_sequence :: int
  ru_phase :: runtime_phase
  ru_observed_at :: instant
  ru_output_digest :: "string option"
  ru_output_bytes :: "int option"
  ru_error_digest :: "string option"

definition mk_runtime_update ::
  "string \<Rightarrow> string \<Rightarrow> int \<Rightarrow> runtime_phase \<Rightarrow> datetime \<Rightarrow> string option \<Rightarrow> int option \<Rightarrow> string option
     \<Rightarrow> runtime_update result" where
  "mk_runtime_update request_fp attempt_id sequence phase observed_at output_digest output_bytes error_digest =
     raising
       (digest_checks request_fp ''request_fingerprint''
        @ [(blank attempt_id, ''attempt_id must not be empty''),
           (sequence < 1, ''runtime sequence must be a positive integer'')])
       (with_aware observed_at ''observed_at must be timezone-aware'' (\<lambda>observed.
        raising
          (opt_digest_checks output_digest ''output_digest''
           @ [((case output_bytes of None \<Rightarrow> False | Some n \<Rightarrow> n < 0), ''output_bytes must be a non-negative integer'')]
           @ opt_digest_checks error_digest ''error_digest''
           @ (case phase of
                Runtime_SUCCEEDED \<Rightarrow>
                  [(output_digest = None \<or> output_bytes = None \<or> error_digest \<noteq> None,
                      ''successful runtime updates require output identity and size'')]
              | Runtime_FAILED \<Rightarrow>
                  [(error_digest = None \<or> output_digest \<noteq> None \<or> output_bytes \<noteq> None,
                      ''failed runtime updates require an error and no output'')]
              | _ \<Rightarrow>
                  [(output_digest \<noteq> None \<or> output_bytes \<noteq> None \<or> error_digest \<noteq> None,
                      ''non-terminal runtime updates cannot contain output or error'')]))
          (Inr \<lparr>ru_request_fingerprint = request_fp, ru_attempt_id = attempt_id, ru_sequence = sequence,
                ru_phase = phase, ru_observed_at = observed, ru_output_digest = output_digest,
                ru_output_bytes = output_bytes, ru_error_digest = error_digest\<rparr>)))"

record runtime_state =
  rs_request_fingerprint :: string
  rs_attempt_id :: string
  rs_profile_fingerprint :: string
  rs_output_limit_bytes :: int
  rs_sequence :: int
  rs_phase :: runtime_phase
  rs_updated_at :: instant
  rs_output_digest :: "string option"
  rs_output_bytes :: "int option"
  rs_error_digest :: "string option"

definition mk_runtime_state ::
  "string \<Rightarrow> string \<Rightarrow> string \<Rightarrow> int \<Rightarrow> int \<Rightarrow> runtime_phase \<Rightarrow> datetime \<Rightarrow> string option \<Rightarrow> int option
     \<Rightarrow> string option \<Rightarrow> runtime_state result" where
  "mk_runtime_state request_fp attempt_id profile_fp limit sequence phase updated_at output_digest output_bytes error_digest =
     raising
       (digest_checks request_fp ''request_fingerprint''
        @ [(blank attempt_id, ''attempt_id must not be empty'')]
        @ digest_checks profile_fp ''profile_fingerprint''
        @ [(limit \<le> 0, ''output_limit_bytes must be a positive integer''),
           (sequence < 0, ''runtime state sequence must be non-negative'')])
       (with_aware updated_at ''updated_at must be timezone-aware'' (\<lambda>updated.
        raising
          ([(sequence = 0 \<and> phase \<noteq> Runtime_ACCEPTED, ''sequence-zero runtime state must be accepted''),
            ((case output_bytes of None \<Rightarrow> False | Some n \<Rightarrow> n < 0 \<or> n > limit),
               ''runtime output exceeds the declared limit'')]
           @ (case phase of
                Runtime_SUCCEEDED \<Rightarrow>
                  (output_digest = None \<or> output_bytes = None \<or> error_digest \<noteq> None,
                      ''successful runtime state requires output identity and size'')
                  # opt_digest_checks output_digest ''output_digest''
              | Runtime_FAILED \<Rightarrow>
                  (error_digest = None \<or> output_digest \<noteq> None \<or> output_bytes \<noteq> None,
                      ''failed runtime state requires an error and no output'')
                  # opt_digest_checks error_digest ''error_digest''
              | _ \<Rightarrow>
                  [(output_digest \<noteq> None \<or> output_bytes \<noteq> None \<or> error_digest \<noteq> None,
                      ''non-terminal runtime state cannot contain output or error'')]))
          (Inr \<lparr>rs_request_fingerprint = request_fp, rs_attempt_id = attempt_id, rs_profile_fingerprint = profile_fp,
                rs_output_limit_bytes = limit, rs_sequence = sequence, rs_phase = phase, rs_updated_at = updated,
                rs_output_digest = output_digest, rs_output_bytes = output_bytes, rs_error_digest = error_digest\<rparr>)))"

definition new_runtime_execution_state ::
  "runtime_preflight \<Rightarrow> string \<Rightarrow> int \<Rightarrow> datetime \<Rightarrow> runtime_state result" where
  "new_runtime_execution_state preflight attempt_id limit accepted_at =
     raising
       [(rf_decision preflight \<noteq> Runtime_ALLOW, ''runtime execution requires an allowed preflight''),
        (blank attempt_id, ''attempt_id must not be empty''),
        (limit \<le> 0, ''output_limit_bytes must be a positive integer'')]
       (with_aware accepted_at ''accepted_at must be timezone-aware'' (\<lambda>_.
          mk_runtime_state (rf_request_fingerprint preflight) attempt_id (rf_profile_fingerprint preflight) limit 0
            Runtime_ACCEPTED accepted_at None None None))"

datatype runtime_execution_decision = RuntimeUpdate_APPLY | RuntimeUpdate_REPLAY_EXISTING

record runtime_resolution =
  rx_decision :: runtime_execution_decision
  rx_state :: runtime_state

definition apply_runtime_execution_update :: "runtime_state \<Rightarrow> runtime_update \<Rightarrow> runtime_resolution result" where
  "apply_runtime_execution_update state update =
     raising
       [(ru_request_fingerprint update \<noteq> rs_request_fingerprint state \<or> ru_attempt_id update \<noteq> rs_attempt_id state,
           ''runtime update must reference the same request and attempt''),
        (ru_observed_at update < rs_updated_at state, ''runtime update time cannot move backwards'')]
       (if ru_sequence update \<le> rs_sequence state then
          (if ru_sequence update = rs_sequence state \<and> ru_phase update = rs_phase state
              \<and> ru_observed_at update = rs_updated_at state \<and> ru_output_digest update = rs_output_digest state
              \<and> ru_output_bytes update = rs_output_bytes state \<and> ru_error_digest update = rs_error_digest state
           then Inr \<lparr>rx_decision = RuntimeUpdate_REPLAY_EXISTING, rx_state = state\<rparr>
           else Inl (ValueError ''runtime update sequence conflicts with the existing state''))
        else
          raising
            [(rs_phase state \<in> terminal_runtime_phases, ''terminal runtime state cannot receive updates''),
             (ru_phase update = Runtime_SUCCEEDED \<and> the (ru_output_bytes update) > rs_output_limit_bytes state,
                ''runtime output exceeds the declared limit'')]
            (rbind (mk_runtime_state (rs_request_fingerprint state) (rs_attempt_id state)
                      (rs_profile_fingerprint state) (rs_output_limit_bytes state) (ru_sequence update)
                      (ru_phase update) (utc (ru_observed_at update)) (ru_output_digest update)
                      (ru_output_bytes update) (ru_error_digest update))
               (\<lambda>next. Inr \<lparr>rx_decision = RuntimeUpdate_APPLY, rx_state = next\<rparr>)))"

section \<open>Invariant and requests\<close>

definition runtime_state_ok :: "runtime_state \<Rightarrow> bool" where
  "runtime_state_ok s \<longleftrightarrow> is_digest (rs_request_fingerprint s) \<and> \<not> blank (rs_attempt_id s)
     \<and> is_digest (rs_profile_fingerprint s) \<and> 0 < rs_output_limit_bytes s \<and> 0 \<le> rs_sequence s
     \<and> (rs_sequence s = 0 \<longrightarrow> rs_phase s = Runtime_ACCEPTED)
     \<and> (if rs_phase s = Runtime_SUCCEEDED
        then \<exists>d n. rs_output_digest s = Some d \<and> is_digest d \<and> rs_output_bytes s = Some n \<and> 0 \<le> n
               \<and> n \<le> rs_output_limit_bytes s
        else rs_output_digest s = None \<and> rs_output_bytes s = None)
     \<and> (if rs_phase s = Runtime_FAILED then \<exists>d. rs_error_digest s = Some d \<and> is_digest d
        else rs_error_digest s = None)"

definition runtime_le :: "runtime_state \<Rightarrow> runtime_state \<Rightarrow> bool" where
  "runtime_le s t \<longleftrightarrow> rs_request_fingerprint t = rs_request_fingerprint s \<and> rs_attempt_id t = rs_attempt_id s
     \<and> rs_profile_fingerprint t = rs_profile_fingerprint s \<and> rs_output_limit_bytes t = rs_output_limit_bytes s
     \<and> rs_sequence s \<le> rs_sequence t \<and> rs_updated_at s \<le> rs_updated_at t
     \<and> (rs_phase s \<in> terminal_runtime_phases \<longrightarrow> t = s)"

definition runtime_step :: "runtime_update \<Rightarrow> runtime_state \<Rightarrow> runtime_state result" where
  "runtime_step u s = rbind (apply_runtime_execution_update s u) (\<lambda>r. Inr (rx_state r))"

definition runtime_updated :: "runtime_state \<Rightarrow> runtime_update \<Rightarrow> runtime_state" where
  "runtime_updated s u = s\<lparr>rs_sequence := ru_sequence u, rs_phase := ru_phase u, rs_updated_at := ru_observed_at u,
     rs_output_digest := ru_output_digest u, rs_output_bytes := ru_output_bytes u, rs_error_digest := ru_error_digest u\<rparr>"

lemma mk_runtime_state_iff:
  "mk_runtime_state f a p l n ph (Aware t z) od ob ed = Inr s \<longleftrightarrow>
     s = \<lparr>rs_request_fingerprint = f, rs_attempt_id = a, rs_profile_fingerprint = p, rs_output_limit_bytes = l,
          rs_sequence = n, rs_phase = ph, rs_updated_at = t, rs_output_digest = od, rs_output_bytes = ob,
          rs_error_digest = ed\<rparr> \<and> runtime_state_ok s"
  by (cases ph)
    (auto simp: mk_runtime_state_def runtime_state_ok_def raising_Inr_iff digests_clean opt_digests_clean
      split: option.splits)

lemma apply_runtime_update_applied:
  assumes "rs_sequence s < ru_sequence u"
  shows "apply_runtime_execution_update s u = Inr r \<longleftrightarrow>
     ru_request_fingerprint u = rs_request_fingerprint s \<and> ru_attempt_id u = rs_attempt_id s
     \<and> rs_updated_at s \<le> ru_observed_at u \<and> rs_phase s \<notin> terminal_runtime_phases
     \<and> runtime_state_ok (runtime_updated s u)
     \<and> r = \<lparr>rx_decision = RuntimeUpdate_APPLY, rx_state = runtime_updated s u\<rparr>"
proof -
  have "(\<exists>t. mk_runtime_state (rs_request_fingerprint s) (rs_attempt_id s) (rs_profile_fingerprint s)
      (rs_output_limit_bytes s) (ru_sequence u) (ru_phase u) (Aware (ru_observed_at u) 0) (ru_output_digest u)
      (ru_output_bytes u) (ru_error_digest u) = Inr t \<and> r = \<lparr>rx_decision = RuntimeUpdate_APPLY, rx_state = t\<rparr>)
    \<longleftrightarrow> runtime_state_ok (runtime_updated s u) \<and> r = \<lparr>rx_decision = RuntimeUpdate_APPLY, rx_state = runtime_updated s u\<rparr>"
    by (cases s) (auto simp: mk_runtime_state_iff runtime_updated_def)
  moreover have "\<not> (ru_phase u = Runtime_SUCCEEDED \<and> the (ru_output_bytes u) > rs_output_limit_bytes s)"
    if "runtime_state_ok (runtime_updated s u)"
    using that by (auto simp: runtime_state_ok_def runtime_updated_def)
  ultimately show ?thesis
    using assms by (auto simp: apply_runtime_execution_update_def raising_Inr_iff utc_def not_less)
qed

lemma apply_runtime_update_old:
  assumes "ru_sequence u \<le> rs_sequence s" "apply_runtime_execution_update s u = Inr r"
  shows "r = \<lparr>rx_decision = RuntimeUpdate_REPLAY_EXISTING, rx_state = s\<rparr> \<and> runtime_updated s u = s"
  using assms
  by (cases s) (auto simp: apply_runtime_execution_update_def raising_Inr_iff runtime_updated_def split: if_splits)

lemma runtime_step_keeps:
  assumes "runtime_state_ok s" "runtime_step u s = Inr t"
  shows "runtime_state_ok t \<and> runtime_le s t"
proof -
  obtain r where r: "apply_runtime_execution_update s u = Inr r" "t = rx_state r"
    using assms(2) by (auto simp: runtime_step_def)
  show ?thesis
  proof (cases "ru_sequence u \<le> rs_sequence s")
    case True
    with apply_runtime_update_old [OF True r(1)] r(2) assms(1) show ?thesis by (simp add: runtime_le_def)
  next
    case False
    then have "rs_sequence s < ru_sequence u" by simp
    with r assms(1) show ?thesis by (auto simp: apply_runtime_update_applied runtime_le_def runtime_updated_def)
  qed
qed

interpretation runtimes: guarded_machine runtime_step runtime_state_ok runtime_le
proof
  fix s r t
  assume s: "runtime_state_ok s" "runtime_step r s = Inr t"
  show "runtime_state_ok t" "runtime_le s t" using runtime_step_keeps [OF s] by simp_all
qed (auto simp: runtime_le_def)

section \<open>Preflight\<close>

definition runtime_allowed :: "runtime_request \<Rightarrow> isolation_profile \<Rightarrow> bool" where
  "runtime_allowed q p \<longleftrightarrow> sandbox_secure p (rq_isolation_request q)
     \<and> rq_runtime_profile_fingerprint q = isolation_profile_fingerprint p"

lemma runtime_request_fingerprint_digest [simp]: "is_digest (runtime_request_fingerprint q)"
  by (simp add: runtime_request_fingerprint_def is_digest_digest)

lemma sort_remdups_Nil: "sort (remdups xs) = [] \<longleftrightarrow> xs = []"
proof -
  have "sort (remdups xs) = [] \<longleftrightarrow> set (sort (remdups xs)) = {}" by (rule set_empty [symmetric])
  also have "\<dots> \<longleftrightarrow> xs = []" by simp
  finally show ?thesis .
qed

lemma preflight_strategy_runtime_answers:
  assumes "isolation_request_ok (rq_isolation_request q)"
  shows "\<exists>f. preflight_strategy_runtime q p = Inr f \<and> (rf_decision f = Runtime_ALLOW \<longleftrightarrow> runtime_allowed q p)
    \<and> rf_request_fingerprint f = runtime_request_fingerprint q
    \<and> rf_profile_fingerprint f = isolation_profile_fingerprint p"
proof -
  let ?rs = "isolation_reasons p (rq_isolation_request q)
    @ (if rq_runtime_profile_fingerprint q \<noteq> isolation_profile_fingerprint p then [''runtime_profile_identity_mismatch''] else [])"
  have "?rs = [] \<longleftrightarrow> runtime_allowed q p" by (simp add: isolation_reasons_Nil runtime_allowed_def)
  moreover have "sort (remdups ?rs) = [] \<longleftrightarrow> ?rs = []" by (rule sort_remdups_Nil)
  moreover have "\<not> list_ex blank (sort (remdups ?rs))"
    using isolation_reasons_wf [of p "rq_isolation_request q"] by (auto simp: list_ex_iff blank_iff py_space_def)
  ultimately show ?thesis
    by (auto simp: preflight_strategy_runtime_def preflight_isolation_answers [OF assms] Let_def mk_runtime_preflight_def
        raising_Inr_iff digests_clean)
qed

section \<open>Properties\<close>

text \<open>C18: strategy execution is fail-closed. The preflight of a request always answers, and allows it exactly
  when the profile disables the network, secrets and capabilities and has a read-only root, the
  strategy asks for no network, writable path or secret, every dependency is vetted and the request
  names exactly this profile. An execution can be started only from an allowed preflight, and starts
  accepted, bound to the request and the profile.\<close>

theorem runtime_fail_closed:
  assumes "isolation_request_ok (rq_isolation_request q)" "\<not> blank a" "0 < limit"
  shows "\<exists>f. preflight_strategy_runtime q p = Inr f \<and> (rf_decision f = Runtime_ALLOW \<longleftrightarrow> runtime_allowed q p)
    \<and> (if runtime_allowed q p
       then \<exists>s. new_runtime_execution_state f a limit (Aware t z) = Inr s \<and> runtime_state_ok s
              \<and> rs_phase s = Runtime_ACCEPTED \<and> rs_sequence s = 0
              \<and> rs_request_fingerprint s = runtime_request_fingerprint q
              \<and> rs_profile_fingerprint s = isolation_profile_fingerprint p
       else new_runtime_execution_state f a limit (Aware t z)
              = Inl (ValueError ''runtime execution requires an allowed preflight''))"
proof -
  obtain f where f: "preflight_strategy_runtime q p = Inr f" "rf_decision f = Runtime_ALLOW \<longleftrightarrow> runtime_allowed q p"
    "rf_request_fingerprint f = runtime_request_fingerprint q" "rf_profile_fingerprint f = isolation_profile_fingerprint p"
    using preflight_strategy_runtime_answers [OF assms(1), of p] by blast
  have "\<exists>s. new_runtime_execution_state f a limit (Aware t z) = Inr s \<and> runtime_state_ok s
      \<and> rs_phase s = Runtime_ACCEPTED \<and> rs_sequence s = 0 \<and> rs_request_fingerprint s = runtime_request_fingerprint q
      \<and> rs_profile_fingerprint s = isolation_profile_fingerprint p" if "runtime_allowed q p"
    using that f assms(2,3)
    by (auto simp: new_runtime_execution_state_def raising_Inr_iff mk_runtime_state_iff runtime_state_ok_def)
  with f show ?thesis by (auto simp: new_runtime_execution_state_def raising.simps)
qed

definition sample_isolation :: isolation_request where
  "sample_isolation = \<lparr>iq_attempt_id = ''a-1'', iq_dependency_digests = [], iq_network_requested = False,
     iq_writable_paths_requested = [], iq_secret_names_requested = []\<rparr>"

definition sample_sandbox :: isolation_profile where
  "sample_sandbox = \<lparr>ip_runtime_image_digest = digest_text ''i'', ip_runtime_abi = ''abi'', ip_network_disabled = True,
     ip_read_only_root = True, ip_capabilities_dropped = True, ip_secrets_disabled = True, ip_wall_timeout_seconds = 300,
     ip_cpu_limit_seconds = 300, ip_memory_limit_bytes = 536870912, ip_output_limit_bytes = 16777216,
     ip_allowed_dependency_digests = {}\<rparr>"

definition sample_runtime_request :: runtime_request where
  "sample_runtime_request = \<lparr>rq_request_id = digest_text ''q'', rq_attempt_id = ''a-1'',
     rq_package_fingerprint = digest_text ''p'', rq_source_digest = digest_text ''s'',
     rq_input_bundle_digest = digest_text ''b'',
     rq_runtime_profile_fingerprint = isolation_profile_fingerprint sample_sandbox, rq_entrypoint = ''m:f'',
     rq_isolation_request = sample_isolation, rq_submitted_at = 0\<rparr>"

lemma sample_allowed: "runtime_allowed sample_runtime_request sample_sandbox"
  by (simp add: runtime_allowed_def sandbox_secure_def sample_runtime_request_def sample_isolation_def sample_sandbox_def)

lemma sample_isolation_ok: "isolation_request_ok (rq_isolation_request sample_runtime_request)"
  by (simp add: isolation_request_ok_def sample_runtime_request_def sample_isolation_def blank_iff py_space_def)

theorem runtime_fail_closed_witness:
  "\<exists>f s. preflight_strategy_runtime sample_runtime_request sample_sandbox = Inr f
     \<and> new_runtime_execution_state f ''a-1'' 100 (Aware 5 0) = Inr s \<and> rs_phase s = Runtime_ACCEPTED"
proof -
  have "\<not> blank ''a-1''" "(0 :: int) < 100" by (simp_all add: blank_iff py_space_def)
  from runtime_fail_closed [OF sample_isolation_ok this, of sample_sandbox 5 0] sample_allowed show ?thesis by auto
qed

text \<open>The receipts of a running strategy are monotone. After any receipts a valid runtime state is valid,
  bound to its request, attempt and profile; sequence and time never go back, and a finished runtime
  never changes again. A success carries the digest of an output within the declared limit, a failure
  an error digest and no output. A receipt is applied exactly when it is newer, not earlier, of this
  run, the run is not finished and the result is valid; applying it again replays.\<close>

theorem runtime_receipts:
  assumes "runtime_state_ok s0" and s: "s = serve runtime_step us s0"
  shows "runtime_state_ok s \<and> runtime_le s0 s
    \<and> (\<forall>n. rs_output_bytes s = Some n \<longrightarrow> 0 \<le> n \<and> n \<le> rs_output_limit_bytes s0)
    \<and> (rs_sequence s < ru_sequence u \<longrightarrow>
         (apply_runtime_execution_update s u = Inr \<lparr>rx_decision = RuntimeUpdate_APPLY, rx_state = runtime_updated s u\<rparr>
          \<longleftrightarrow> ru_request_fingerprint u = rs_request_fingerprint s \<and> ru_attempt_id u = rs_attempt_id s
            \<and> rs_updated_at s \<le> ru_observed_at u \<and> rs_phase s \<notin> terminal_runtime_phases
            \<and> runtime_state_ok (runtime_updated s u)))
    \<and> (\<forall>r. apply_runtime_execution_update s u = Inr r \<longrightarrow> rx_state r = runtime_updated s u
          \<and> apply_runtime_execution_update (rx_state r) u
              = Inr \<lparr>rx_decision = RuntimeUpdate_REPLAY_EXISTING, rx_state = rx_state r\<rparr>)"
proof -
  have ok: "runtime_state_ok s" "runtime_le s0 s"
    unfolding s using assms(1) by (simp_all add: runtimes.serve_inv runtimes.serve_le)
  have "0 \<le> n \<and> n \<le> rs_output_limit_bytes s0" if "rs_output_bytes s = Some n" for n
    using ok that by (auto simp: runtime_state_ok_def runtime_le_def split: if_splits)
  moreover have "rx_state r = runtime_updated s u \<and> apply_runtime_execution_update (rx_state r) u
      = Inr \<lparr>rx_decision = RuntimeUpdate_REPLAY_EXISTING, rx_state = rx_state r\<rparr>"
    if "apply_runtime_execution_update s u = Inr r" for r
  proof -
    have st: "rx_state r = runtime_updated s u"
      using apply_runtime_update_old [OF _ that] apply_runtime_update_applied [of s u r] that
      by (cases "ru_sequence u \<le> rs_sequence s") auto
    have "ru_request_fingerprint u = rs_request_fingerprint s" "ru_attempt_id u = rs_attempt_id s"
      using that by (auto simp: apply_runtime_execution_update_def raising_Inr_iff)
    then show ?thesis unfolding st by (simp add: apply_runtime_execution_update_def raising.simps runtime_updated_def)
  qed
  ultimately show ?thesis using ok apply_runtime_update_applied by blast
qed

definition sample_runtime :: runtime_state where
  "sample_runtime = \<lparr>rs_request_fingerprint = digest_text ''q'', rs_attempt_id = ''a-1'',
     rs_profile_fingerprint = digest_text ''p'', rs_output_limit_bytes = 100, rs_sequence = 0, rs_phase = Runtime_ACCEPTED,
     rs_updated_at = 0, rs_output_digest = None, rs_output_bytes = None, rs_error_digest = None\<rparr>"

definition sample_receipt_update :: runtime_update where
  "sample_receipt_update = \<lparr>ru_request_fingerprint = digest_text ''q'', ru_attempt_id = ''a-1'', ru_sequence = 1,
     ru_phase = Runtime_SUCCEEDED, ru_observed_at = 5, ru_output_digest = Some (digest_text ''o''),
     ru_output_bytes = Some 7, ru_error_digest = None\<rparr>"

lemma sample_runtime_ok: "runtime_state_ok sample_runtime"
  by (simp add: runtime_state_ok_def sample_runtime_def blank_iff py_space_def)

theorem runtime_receipts_witness:
  "runtime_state_ok sample_runtime
   \<and> apply_runtime_execution_update sample_runtime sample_receipt_update
      = Inr \<lparr>rx_decision = RuntimeUpdate_APPLY, rx_state = runtime_updated sample_runtime sample_receipt_update\<rparr>"
  using runtime_receipts [OF sample_runtime_ok, of sample_runtime "[]" sample_receipt_update] sample_runtime_ok
  by (auto simp: sample_runtime_def sample_receipt_update_def runtime_updated_def runtime_state_ok_def
      terminal_runtime_phases_def)

end
