(* ===== verification/Capabilities.thy ===== *)
theory Capabilities
  imports Contracts "HOL-Library.Product_Lexorder"
begin

text \<open>
  \<open>src/backend/app/strategy_lab_v2/capabilities.py\<close>: the preflight of data capabilities. Each
  requirement of a run is matched against the capability cells of its instrument; a requirement with a
  gap is unsupported unless degraded operation is allowed and a substitution is declared for every gap.

  A Python frozenset is a \<open>set\<close>. The interpreter's ISO 8601 reader, \<open>datetime.fromisoformat\<close>, is the
  argument \<open>fromisoformat\<close> of the definitions that use it: \<open>None\<close> is its \<open>ValueError\<close>, and every theorem
  holds for each such reader.
\<close>

section \<open>Enumerations\<close>

datatype product_class =
    Product_EQUITY | Product_CRYPTO | Product_FUTURE | Product_OPTION | Product_FX | Product_OTHER

fun product_class_value :: "product_class \<Rightarrow> string" where
  "product_class_value Product_EQUITY = ''equity''"
| "product_class_value Product_CRYPTO = ''crypto''"
| "product_class_value Product_FUTURE = ''future''"
| "product_class_value Product_OPTION = ''option''"
| "product_class_value Product_FX = ''fx''"
| "product_class_value Product_OTHER = ''other''"

datatype adjustment_mode = Adjust_RAW | Adjust_SPLIT_ADJUSTED | Adjust_TOTAL_RETURN

fun adjustment_value :: "adjustment_mode \<Rightarrow> string" where
  "adjustment_value Adjust_RAW = ''raw''"
| "adjustment_value Adjust_SPLIT_ADJUSTED = ''split_adjusted''"
| "adjustment_value Adjust_TOTAL_RETURN = ''total_return''"

datatype event_granularity = Granularity_TICK | Granularity_TRADE | Granularity_QUOTE | Granularity_BAR

fun granularity_value :: "event_granularity \<Rightarrow> string" where
  "granularity_value Granularity_TICK = ''tick''"
| "granularity_value Granularity_TRADE = ''trade''"
| "granularity_value Granularity_QUOTE = ''quote''"
| "granularity_value Granularity_BAR = ''bar''"

datatype preflight_class = Preflight_RIGOROUS | Preflight_DEGRADED | Preflight_UNSUPPORTED

fun preflight_class_value :: "preflight_class \<Rightarrow> string" where
  "preflight_class_value Preflight_RIGOROUS = ''rigorous''"
| "preflight_class_value Preflight_DEGRADED = ''degraded''"
| "preflight_class_value Preflight_UNSUPPORTED = ''unsupported''"

section \<open>Requirements and cells\<close>

record capability_requirement =
  cq_instrument_id :: string
  cq_product_class :: product_class
  cq_event_granularity :: event_granularity
  cq_event_type :: string
  cq_timeframe :: string
  cq_start :: instant
  cq_end :: instant
  cq_adjustment :: adjustment_mode
  cq_session :: string
  cq_feed :: string
  cq_execution_model :: string
  cq_account_model :: string
  cq_corporate_action_semantics :: string

definition mk_capability_requirement ::
  "string \<Rightarrow> product_class \<Rightarrow> event_granularity \<Rightarrow> string \<Rightarrow> string \<Rightarrow> datetime \<Rightarrow> datetime \<Rightarrow> adjustment_mode
     \<Rightarrow> string \<Rightarrow> string \<Rightarrow> string \<Rightarrow> string \<Rightarrow> string \<Rightarrow> capability_requirement result" where
  "mk_capability_requirement instrument_id product granularity event_type timeframe start stop adjustment session feed
       execution_model account_model corporate =
     raising
       [(blank instrument_id, ''instrument_id must not be empty''),
        (blank event_type, ''event_type must not be empty''),
        (blank timeframe, ''timeframe must not be empty''),
        (blank session, ''session must not be empty''),
        (blank feed, ''feed must not be empty''),
        (blank execution_model, ''execution_model must not be empty''),
        (blank account_model, ''account_model must not be empty''),
        (blank corporate, ''corporate_action_semantics must not be empty'')]
       (with_aware start ''start must be timezone-aware'' (\<lambda>s.
        with_aware stop ''end must be timezone-aware'' (\<lambda>e.
        raising
          [(s \<ge> e, ''required history start must precede end'')]
          (Inr \<lparr>cq_instrument_id = instrument_id, cq_product_class = product, cq_event_granularity = granularity,
                cq_event_type = event_type, cq_timeframe = timeframe, cq_start = s, cq_end = e,
                cq_adjustment = adjustment, cq_session = session, cq_feed = feed,
                cq_execution_model = execution_model, cq_account_model = account_model,
                cq_corporate_action_semantics = corporate\<rparr>))))"

record capability_cell =
  cc_instrument_id :: string
  cc_product_class :: product_class
  cc_event_granularities :: "event_granularity set"
  cc_event_types :: "string set"
  cc_timeframes :: "string set"
  cc_adjustments :: "adjustment_mode set"
  cc_sessions :: "string set"
  cc_feeds :: "string set"
  cc_execution_models :: "string set"
  cc_account_models :: "string set"
  cc_corporate_action_semantics :: "string set"
  cc_history_start :: instant
  cc_history_end :: instant
  cc_evidence_digest :: string

definition mk_capability_cell ::
  "string \<Rightarrow> product_class \<Rightarrow> event_granularity set \<Rightarrow> string set \<Rightarrow> string set \<Rightarrow> adjustment_mode set \<Rightarrow> string set
     \<Rightarrow> string set \<Rightarrow> string set \<Rightarrow> string set \<Rightarrow> string set \<Rightarrow> datetime \<Rightarrow> datetime \<Rightarrow> string \<Rightarrow> capability_cell result" where
  "mk_capability_cell instrument_id product granularities event_types timeframes adjustments sessions feeds
       execution_models account_models corporate history_start history_end evidence =
     raising
       [(blank instrument_id, ''instrument_id must not be empty''),
        (blank evidence, ''evidence_digest must not be empty'')]
       (with_aware history_start ''history_start must be timezone-aware'' (\<lambda>s.
        with_aware history_end ''history_end must be timezone-aware'' (\<lambda>e.
        raising
          ([(s \<ge> e, ''capability history must have a positive interval''),
            (granularities = {} \<or> event_types = {} \<or> timeframes = {} \<or> adjustments = {} \<or> sessions = {} \<or> feeds = {}
               \<or> execution_models = {} \<or> account_models = {} \<or> corporate = {},
               ''capability cells must declare non-empty supported values''),
            (\<exists>x \<in> event_types. blank x, ''event_types must contain non-empty strings''),
            (\<exists>x \<in> timeframes \<union> sessions \<union> feeds \<union> execution_models \<union> account_models \<union> corporate. blank x,
               ''capability cell string values must not be empty'')]
           @ digest_checks evidence ''evidence_digest'')
          (Inr \<lparr>cc_instrument_id = instrument_id, cc_product_class = product, cc_event_granularities = granularities,
                cc_event_types = event_types, cc_timeframes = timeframes, cc_adjustments = adjustments,
                cc_sessions = sessions, cc_feeds = feeds, cc_execution_models = execution_models,
                cc_account_models = account_models, cc_corporate_action_semantics = corporate,
                cc_history_start = s, cc_history_end = e, cc_evidence_digest = evidence\<rparr>))))"

section \<open>Degradations\<close>

record degradation =
  dg_instrument_id :: string
  dg_field :: string
  dg_substituted_value :: string
  dg_reason :: string

definition degradable_fields :: "string list" where
  "degradable_fields =
     [''event_granularity'', ''event_type'', ''timeframe'', ''history_start'', ''history_end'', ''adjustment'',
      ''session'', ''feed'', ''execution_model'', ''account_model'', ''corporate_action_semantics'']"

definition mk_degradation :: "string \<Rightarrow> string \<Rightarrow> string \<Rightarrow> string \<Rightarrow> degradation result" where
  "mk_degradation instrument_id field value reason =
     raising
       [(blank instrument_id \<or> field \<notin> set degradable_fields,
           ''degradation must identify an instrument and supported field''),
        (blank value \<or> blank reason, ''degradation requires a replacement value and reason'')]
       (Inr \<lparr>dg_instrument_id = instrument_id, dg_field = field, dg_substituted_value = value, dg_reason = reason\<rparr>)"

definition degradation_key :: "degradation \<Rightarrow> string \<times> string" where
  "degradation_key d = (dg_instrument_id d, dg_field d)"

section \<open>Decisions\<close>

record capability_decision =
  cd_requirement :: capability_requirement
  cd_classification :: preflight_class
  cd_evidence_digest :: "string option"
  cd_gaps :: "string list"
  cd_degradations :: "degradation list"
  cd_ranking_eligible :: bool

definition mk_capability_decision ::
  "capability_requirement \<Rightarrow> preflight_class \<Rightarrow> string option \<Rightarrow> string list \<Rightarrow> degradation list \<Rightarrow> bool
     \<Rightarrow> capability_decision result" where
  "mk_capability_decision requirement classification evidence gaps degradations eligible =
     raising
       ([(list_ex blank gaps, ''capability gaps must be non-empty strings''),
         (\<not> distinct gaps, ''capability gaps must be unique''),
         (\<not> distinct (map dg_field degradations), ''decision degradations must be unique by field''),
         (list_ex (\<lambda>d. dg_instrument_id d \<noteq> cq_instrument_id requirement) degradations,
            ''decision degradations must belong to its requirement instrument''),
         (\<not> dg_field ` set degradations \<subseteq> set gaps, ''decision degradations must correspond to capability gaps'')]
        @ opt_digest_checks evidence ''evidence_digest''
        @ [(classification = Preflight_RIGOROUS \<and> (gaps \<noteq> [] \<or> \<not> eligible \<or> degradations \<noteq> []),
              ''rigorous decisions must be gap-free and ranking eligible''),
           (classification \<in> {Preflight_RIGOROUS, Preflight_DEGRADED} \<and> evidence = None,
              ''executable decisions require capability evidence''),
           (classification = Preflight_DEGRADED \<and> (gaps = [] \<or> eligible \<or> dg_field ` set degradations \<noteq> set gaps),
              ''degraded decisions require explicit substitutions for every gap''),
           (classification = Preflight_UNSUPPORTED \<and> (gaps = [] \<or> eligible),
              ''unsupported decisions require gaps and cannot be ranking eligible'')])
       (Inr \<lparr>cd_requirement = requirement, cd_classification = classification, cd_evidence_digest = evidence,
             cd_gaps = gaps, cd_degradations = degradations, cd_ranking_eligible = eligible\<rparr>)"

section \<open>Canonical form\<close>

definition product_py :: "product_class \<Rightarrow> pyval" where
  "product_py p = PEnum ''app.strategy_lab_v2.contracts.ProductClass'' (PStr (product_class_value p))"

definition granularity_py :: "event_granularity \<Rightarrow> pyval" where
  "granularity_py g = PEnum ''app.strategy_lab_v2.contracts.EventGranularity'' (PStr (granularity_value g))"

definition adjustment_py :: "adjustment_mode \<Rightarrow> pyval" where
  "adjustment_py a = PEnum ''app.strategy_lab_v2.contracts.AdjustmentMode'' (PStr (adjustment_value a))"

definition requirement_py :: "capability_requirement \<Rightarrow> pyval" where
  "requirement_py q = dataclass_py ''app.strategy_lab_v2.capabilities.CapabilityRequirement''
     [(''instrument_id'', PStr (cq_instrument_id q)),
      (''product_class'', product_py (cq_product_class q)),
      (''event_granularity'', granularity_py (cq_event_granularity q)),
      (''event_type'', PStr (cq_event_type q)),
      (''timeframe'', PStr (cq_timeframe q)),
      (''start'', time_py (cq_start q)),
      (''end'', time_py (cq_end q)),
      (''adjustment'', adjustment_py (cq_adjustment q)),
      (''session'', PStr (cq_session q)),
      (''feed'', PStr (cq_feed q)),
      (''execution_model'', PStr (cq_execution_model q)),
      (''account_model'', PStr (cq_account_model q)),
      (''corporate_action_semantics'', PStr (cq_corporate_action_semantics q))]"

definition cell_py :: "capability_cell \<Rightarrow> pyval" where
  "cell_py c = dataclass_py ''app.strategy_lab_v2.capabilities.CapabilityCell''
     [(''instrument_id'', PStr (cc_instrument_id c)),
      (''product_class'', product_py (cc_product_class c)),
      (''event_granularities'', PSet (map granularity_py (filter (\<lambda>g. g \<in> cc_event_granularities c)
          [Granularity_TICK, Granularity_TRADE, Granularity_QUOTE, Granularity_BAR]))),
      (''event_types'', str_set_py (cc_event_types c)),
      (''timeframes'', str_set_py (cc_timeframes c)),
      (''adjustments'', PSet (map adjustment_py (filter (\<lambda>a. a \<in> cc_adjustments c)
          [Adjust_RAW, Adjust_SPLIT_ADJUSTED, Adjust_TOTAL_RETURN]))),
      (''sessions'', str_set_py (cc_sessions c)),
      (''feeds'', str_set_py (cc_feeds c)),
      (''execution_models'', str_set_py (cc_execution_models c)),
      (''account_models'', str_set_py (cc_account_models c)),
      (''corporate_action_semantics'', str_set_py (cc_corporate_action_semantics c)),
      (''history_start'', time_py (cc_history_start c)),
      (''history_end'', time_py (cc_history_end c)),
      (''evidence_digest'', PStr (cc_evidence_digest c))]"

definition degradation_py :: "degradation \<Rightarrow> pyval" where
  "degradation_py d = dataclass_py ''app.strategy_lab_v2.capabilities.Degradation''
     [(''instrument_id'', PStr (dg_instrument_id d)),
      (''field'', PStr (dg_field d)),
      (''substituted_value'', PStr (dg_substituted_value d)),
      (''reason'', PStr (dg_reason d))]"

definition decision_py :: "capability_decision \<Rightarrow> pyval" where
  "decision_py d = dataclass_py ''app.strategy_lab_v2.capabilities.CapabilityDecision''
     [(''requirement'', requirement_py (cd_requirement d)),
      (''classification'', PEnum ''app.strategy_lab_v2.capabilities.PreflightClass''
          (PStr (preflight_class_value (cd_classification d)))),
      (''evidence_digest'', opt_py PStr (cd_evidence_digest d)),
      (''gaps'', PTuple (map PStr (cd_gaps d))),
      (''degradations'', PTuple (map degradation_py (cd_degradations d))),
      (''ranking_eligible'', PBool (cd_ranking_eligible d))]"

definition report_digest :: "capability_decision list \<Rightarrow> bool \<Rightarrow> degradation list \<Rightarrow> string" where
  "report_digest decisions allow degradations = digest (PMapping
     [(''decisions'', PTuple (map decision_py decisions)),
      (''allow_degraded'', PBool allow),
      (''degradations'', PTuple (map degradation_py degradations))])"

section \<open>Reports\<close>

record preflight_report =
  pr_decisions :: "capability_decision list"
  pr_fingerprint :: string
  pr_allow_degraded :: bool
  pr_degradations :: "degradation list"

definition mk_preflight_report ::
  "capability_decision list \<Rightarrow> string \<Rightarrow> bool \<Rightarrow> degradation list \<Rightarrow> preflight_report result" where
  "mk_preflight_report decisions fingerprint allow degradations =
     raising
       ([(decisions = [], ''preflight reports require decisions''),
         (\<not> distinct (map cd_requirement decisions), ''preflight decisions must have unique requirements''),
         (\<not> distinct (map degradation_key degradations),
            ''preflight degradations must be unique by instrument and field''),
         ((\<Union>d \<in> set decisions. degradation_key ` set (cd_degradations d)) \<noteq> degradation_key ` set degradations,
            ''preflight degradations must match the decision substitutions''),
         (\<not> allow \<and> list_ex (\<lambda>d. cd_classification d = Preflight_DEGRADED) decisions,
            ''degraded decisions require allow_degraded'')]
        @ digest_checks fingerprint ''preflight fingerprint''
        @ [(fingerprint \<noteq> report_digest decisions allow degradations,
              ''preflight fingerprint does not match its decisions'')])
       (Inr \<lparr>pr_decisions = decisions, pr_fingerprint = fingerprint, pr_allow_degraded = allow,
             pr_degradations = degradations\<rparr>)"

definition report_classification :: "preflight_report \<Rightarrow> preflight_class" where
  "report_classification r =
     (let classes = cd_classification ` set (pr_decisions r)
      in if Preflight_UNSUPPORTED \<in> classes then Preflight_UNSUPPORTED
         else if Preflight_DEGRADED \<in> classes then Preflight_DEGRADED
         else Preflight_RIGOROUS)"

definition report_executable :: "preflight_report \<Rightarrow> bool" where
  "report_executable r \<longleftrightarrow> report_classification r \<noteq> Preflight_UNSUPPORTED"

definition report_ranking_eligible :: "preflight_report \<Rightarrow> bool" where
  "report_ranking_eligible r \<longleftrightarrow> report_executable r \<and> list_all cd_ranking_eligible (pr_decisions r)"

section \<open>The preflight\<close>

definition capability_checks :: "capability_requirement \<Rightarrow> capability_cell \<Rightarrow> (string \<times> bool) list" where
  "capability_checks q c =
     [(''event_granularity'', cq_event_granularity q \<in> cc_event_granularities c),
      (''event_type'', cq_event_type q \<in> cc_event_types c),
      (''timeframe'', cq_timeframe q \<in> cc_timeframes c),
      (''history_start'', cq_start q \<ge> cc_history_start c),
      (''history_end'', cq_end q \<le> cc_history_end c),
      (''adjustment'', cq_adjustment q \<in> cc_adjustments c),
      (''session'', cq_session q \<in> cc_sessions c),
      (''feed'', cq_feed q \<in> cc_feeds c),
      (''execution_model'', cq_execution_model q \<in> cc_execution_models c),
      (''account_model'', cq_account_model q \<in> cc_account_models c),
      (''corporate_action_semantics'', cq_corporate_action_semantics q \<in> cc_corporate_action_semantics c)]"

definition capability_gaps :: "capability_requirement \<Rightarrow> capability_cell \<Rightarrow> string list" where
  "capability_gaps q c = map fst (filter (\<lambda>(name, supported). \<not> supported) (capability_checks q c))"

text \<open>\<open>value.replace("Z", "+00:00")\<close>.\<close>

definition replace_zulu :: "string \<Rightarrow> string" where
  "replace_zulu s = concat (map (\<lambda>c. if c = CHR ''Z'' then ''+00:00'' else [c]) s)"

definition field_values :: "capability_cell \<Rightarrow> (string \<times> string set) list" where
  "field_values c =
     [(''event_granularity'', granularity_value ` cc_event_granularities c),
      (''event_type'', cc_event_types c),
      (''timeframe'', cc_timeframes c),
      (''adjustment'', adjustment_value ` cc_adjustments c),
      (''session'', cc_sessions c),
      (''feed'', cc_feeds c),
      (''execution_model'', cc_execution_models c),
      (''account_model'', cc_account_models c),
      (''corporate_action_semantics'', cc_corporate_action_semantics c)]"

definition substitution_is_supported ::
  "(string \<Rightarrow> datetime option) \<Rightarrow> degradation \<Rightarrow> capability_cell \<Rightarrow> bool" where
  "substitution_is_supported fromisoformat d c =
     (case map_of (field_values c) (dg_field d) of
        Some values \<Rightarrow> dg_substituted_value d \<in> values
      | None \<Rightarrow>
          (case fromisoformat (replace_zulu (dg_substituted_value d)) of
             None \<Rightarrow> False
           | Some (Naive w) \<Rightarrow> False
           | Some (Aware i z) \<Rightarrow>
               if dg_field d = ''history_start'' then i = cc_history_start c
               else if dg_field d = ''history_end'' then i = cc_history_end c
               else False))"

definition requirement_key ::
  "capability_requirement \<Rightarrow> string \<times> string \<times> string \<times> string \<times> string \<times> instant \<times> instant \<times> string \<times> string
     \<times> string \<times> string \<times> string \<times> string" where
  "requirement_key q =
     (cq_instrument_id q, product_class_value (cq_product_class q), granularity_value (cq_event_granularity q),
      cq_event_type q, cq_timeframe q, cq_start q, cq_end q, adjustment_value (cq_adjustment q), cq_session q,
      cq_feed q, cq_execution_model q, cq_account_model q, cq_corporate_action_semantics q)"

definition degradation_sort_key :: "degradation \<Rightarrow> string \<times> string \<times> string \<times> string" where
  "degradation_sort_key d = (dg_instrument_id d, dg_field d, dg_substituted_value d, dg_reason d)"

text \<open>The body of the candidate loop: what a cell offers to a requirement, and its place in the choice.\<close>

definition declared_for :: "degradation list \<Rightarrow> capability_requirement \<Rightarrow> capability_cell \<Rightarrow> degradation list" where
  "declared_for degradations q c =
     filter (\<lambda>d. dg_instrument_id d = cq_instrument_id q \<and> dg_field d \<in> set (capability_gaps q c)) degradations"

definition candidate_class ::
  "bool \<Rightarrow> degradation list \<Rightarrow> capability_requirement \<Rightarrow> capability_cell \<Rightarrow> preflight_class" where
  "candidate_class allow degradations q c =
     (let gaps = capability_gaps q c;
          complete = gaps \<noteq> [] \<and> dg_field ` set (declared_for degradations q c) = set gaps
      in if gaps = [] then Preflight_RIGOROUS
         else if allow \<and> complete then Preflight_DEGRADED
         else Preflight_UNSUPPORTED)"

fun class_rank :: "preflight_class \<Rightarrow> nat" where
  "class_rank Preflight_RIGOROUS = 0"
| "class_rank Preflight_DEGRADED = 1"
| "class_rank Preflight_UNSUPPORTED = 2"

definition candidate_key ::
  "bool \<Rightarrow> degradation list \<Rightarrow> capability_requirement \<Rightarrow> capability_cell \<Rightarrow> nat \<times> nat \<times> string \<times> string" where
  "candidate_key allow degradations q c =
     (class_rank (candidate_class allow degradations q c), length (capability_gaps q c), cc_evidence_digest c,
      digest (cell_py c))"

definition matching_cells :: "capability_requirement \<Rightarrow> capability_cell list \<Rightarrow> capability_cell list" where
  "matching_cells q cells =
     filter (\<lambda>c. cc_instrument_id c = cq_instrument_id q \<and> cc_product_class c = cq_product_class q) cells"

fun join_str :: "string \<Rightarrow> string list \<Rightarrow> string" where
  "join_str sep [] = []"
| "join_str sep [x] = x"
| "join_str sep (x # y # ys) = x @ sep @ join_str sep (y # ys)"

text \<open>\<open>repr\<close> of a string, of a pair of strings and of a list of such pairs: single quotes unless the
  text holds one and no double quote; a character that is not printable is escaped.\<close>

definition repr_char :: "char \<Rightarrow> char \<Rightarrow> string" where
  "repr_char quote c = (let n = (of_char c :: int)
     in if c = quote \<or> c = CHR 0x5C then [CHR 0x5C, c]
        else if n = 9 then [CHR 0x5C, CHR ''t'']
        else if n = 10 then [CHR 0x5C, CHR ''n'']
        else if n = 13 then [CHR 0x5C, CHR ''r'']
        else if n < 32 \<or> 127 \<le> n \<and> n \<le> 160 \<or> n = 173 then [CHR 0x5C, CHR ''x''] @ hex_of 2 n
        else [c])"

definition str_repr :: "string \<Rightarrow> string" where
  "str_repr s =
     (let quote = (if CHR 0x27 \<in> set s \<and> CHR 0x22 \<notin> set s then CHR 0x22 else CHR 0x27)
      in quote # concat (map (repr_char quote) s) @ [quote])"

definition pairs_repr :: "(string \<times> string) list \<Rightarrow> string" where
  "pairs_repr ps = ''['' @ join_str '', '' (map (\<lambda>(a, b). ''('' @ str_repr a @ '', '' @ str_repr b @ '')'') ps) @ '']''"

fun preflight_loop ::
  "(string \<Rightarrow> datetime option) \<Rightarrow> capability_cell list \<Rightarrow> bool \<Rightarrow> degradation list \<Rightarrow> capability_requirement list
     \<Rightarrow> capability_decision list \<Rightarrow> (string \<times> string) set
     \<Rightarrow> (capability_decision list \<times> (string \<times> string) set) result" where
  "preflight_loop fromisoformat cells allow degradations [] decisions used = Inr (decisions, used)"
| "preflight_loop fromisoformat cells allow degradations (q # qs) decisions used =
     (let matching = matching_cells q cells
      in if matching = [] then
           rbind (mk_capability_decision q Preflight_UNSUPPORTED None [''instrument_coverage''] [] False) (\<lambda>decision.
             preflight_loop fromisoformat cells allow degradations qs (decisions @ [decision]) used)
         else
           let cell = arg_min_list (candidate_key allow degradations q) matching;
               declared = declared_for degradations q cell;
               classification = candidate_class allow degradations q cell;
               invalid = filter (\<lambda>d. \<not> substitution_is_supported fromisoformat d cell) declared
           in raising
                [(invalid \<noteq> [], ''degradation substitutions must match values supported by the selected cell: ''
                    @ join_str '', '' (map (\<lambda>d. dg_instrument_id d @ ''.'' @ dg_field d) invalid))]
                (rbind (mk_capability_decision q classification (Some (cc_evidence_digest cell))
                          (capability_gaps q cell) declared (classification = Preflight_RIGOROUS)) (\<lambda>decision.
                  preflight_loop fromisoformat cells allow degradations qs (decisions @ [decision])
                    (used \<union> degradation_key ` set declared))))"

definition preflight_capabilities ::
  "(string \<Rightarrow> datetime option) \<Rightarrow> capability_requirement list \<Rightarrow> capability_cell list \<Rightarrow> bool \<Rightarrow> degradation list
     \<Rightarrow> preflight_report result" where
  "preflight_capabilities fromisoformat requirements cells allow degradations =
     raising
       [(requirements = [], ''preflight requires at least one capability requirement''),
        (\<not> distinct requirements, ''capability requirements must not contain duplicates'')]
       (let requirements = sort_key requirement_key requirements;
            degradations = sort_key degradation_sort_key degradations
        in raising
             [(\<not> distinct (map degradation_key degradations),
                 ''only one degradation may be declared for an instrument field'')]
             (rbind (preflight_loop fromisoformat cells allow degradations requirements [] {}) (\<lambda>(decisions, used).
              let unused = degradation_key ` set degradations - used
              in raising
                   [(unused \<noteq> {}, ''degradations do not correspond to capability gaps: ''
                       @ pairs_repr (sorted_list_of_set unused))]
                   (mk_preflight_report decisions (report_digest decisions allow degradations) allow degradations))))"

section \<open>What the constructors establish\<close>

definition capability_requirement_ok :: "capability_requirement \<Rightarrow> bool" where
  "capability_requirement_ok q \<longleftrightarrow> \<not> blank (cq_instrument_id q) \<and> \<not> blank (cq_event_type q) \<and> \<not> blank (cq_timeframe q)
     \<and> \<not> blank (cq_session q) \<and> \<not> blank (cq_feed q) \<and> \<not> blank (cq_execution_model q) \<and> \<not> blank (cq_account_model q)
     \<and> \<not> blank (cq_corporate_action_semantics q) \<and> cq_start q < cq_end q"

definition capability_cell_ok :: "capability_cell \<Rightarrow> bool" where
  "capability_cell_ok c \<longleftrightarrow> \<not> blank (cc_instrument_id c) \<and> is_digest (cc_evidence_digest c)
     \<and> cc_history_start c < cc_history_end c \<and> cc_event_granularities c \<noteq> {} \<and> cc_adjustments c \<noteq> {}
     \<and> (\<forall>A \<in> {cc_event_types c, cc_timeframes c, cc_sessions c, cc_feeds c, cc_execution_models c, cc_account_models c,
               cc_corporate_action_semantics c}. A \<noteq> {} \<and> (\<forall>x \<in> A. \<not> blank x))"

lemma mk_capability_requirement_ok:
  "mk_capability_requirement i p g et tf s e a se f em am ca = Inr q \<Longrightarrow> capability_requirement_ok q"
  by (auto simp: mk_capability_requirement_def raising_Inr_iff with_aware_eq_Inr capability_requirement_ok_def)

lemma mk_capability_cell_ok:
  "mk_capability_cell i p g et tf a se f em am ca s e ev = Inr c \<Longrightarrow> capability_cell_ok c"
  unfolding mk_capability_cell_def raising_Inr_iff with_aware_eq_Inr
  by (elim conjE exE) (auto simp: digests_clean capability_cell_ok_def)

lemma encodable_capabilities [simp]:
  "encodable (requirement_py q)" "encodable (cell_py c)" "encodable (degradation_py d)" "encodable (decision_py x)"
  by (simp_all add: requirement_py_def cell_py_def degradation_py_def decision_py_def product_py_def granularity_py_def
      adjustment_py_def list_all_iff)

lemma is_digest_report [simp]: "is_digest (report_digest xs b ds)"
  by (simp add: report_digest_def is_digest_digest list_all_iff)

lemma report_executable_iff:
  "report_executable r \<longleftrightarrow> (\<forall>x \<in> set (pr_decisions r). cd_classification x \<noteq> Preflight_UNSUPPORTED)"
  unfolding report_executable_def report_classification_def Let_def by (auto simp: image_iff eq_commute [of _ "cd_classification _"])

section \<open>The choice of a cell\<close>

definition serves :: "capability_requirement \<Rightarrow> capability_cell \<Rightarrow> bool" where
  "serves q c \<longleftrightarrow> cc_instrument_id c = cq_instrument_id q \<and> cc_product_class c = cq_product_class q"

definition covers :: "capability_requirement \<Rightarrow> capability_cell \<Rightarrow> bool" where
  "covers q c \<longleftrightarrow> serves q c \<and> capability_gaps q c = []"

text \<open>A substitution is declared for every gap the cell leaves.\<close>

definition gaps_declared :: "degradation list \<Rightarrow> capability_requirement \<Rightarrow> capability_cell \<Rightarrow> bool" where
  "gaps_declared ds q c \<longleftrightarrow>
     (\<forall>g \<in> set (capability_gaps q c). \<exists>d \<in> set ds. degradation_key d = (cq_instrument_id q, g))"

definition chosen_cell :: "bool \<Rightarrow> degradation list \<Rightarrow> capability_cell list \<Rightarrow> capability_requirement \<Rightarrow> capability_cell" where
  "chosen_cell allow ds cs q = arg_min_list (candidate_key allow ds q) (matching_cells q cs)"

definition decision_for ::
  "bool \<Rightarrow> degradation list \<Rightarrow> capability_cell list \<Rightarrow> capability_requirement \<Rightarrow> capability_decision" where
  "decision_for allow ds cs q =
     (if matching_cells q cs = [] then
        \<lparr>cd_requirement = q, cd_classification = Preflight_UNSUPPORTED, cd_evidence_digest = None,
         cd_gaps = [''instrument_coverage''], cd_degradations = [], cd_ranking_eligible = False\<rparr>
      else let c = chosen_cell allow ds cs q
        in \<lparr>cd_requirement = q, cd_classification = candidate_class allow ds q c,
            cd_evidence_digest = Some (cc_evidence_digest c), cd_gaps = capability_gaps q c,
            cd_degradations = declared_for ds q c,
            cd_ranking_eligible = (candidate_class allow ds q c = Preflight_RIGOROUS)\<rparr>)"

definition substitutions_supported ::
  "(string \<Rightarrow> datetime option) \<Rightarrow> bool \<Rightarrow> degradation list \<Rightarrow> capability_cell list \<Rightarrow> capability_requirement \<Rightarrow> bool" where
  "substitutions_supported fromisoformat allow ds cs q \<longleftrightarrow>
     list_all (\<lambda>d. substitution_is_supported fromisoformat d (chosen_cell allow ds cs q))
       (cd_degradations (decision_for allow ds cs q))"

lemma cd_requirement_decision_for [simp]: "cd_requirement (decision_for b ds cs q) = q"
  by (simp add: decision_for_def Let_def)

lemma set_matching_cells: "set (matching_cells q cs) = {c \<in> set cs. serves q c}"
  by (auto simp: matching_cells_def serves_def)

lemma checked_fields: "map fst (capability_checks q c) = degradable_fields"
  by (simp add: capability_checks_def degradable_fields_def)

lemma degradable_fields_facts: "distinct degradable_fields" "\<forall>g \<in> set degradable_fields. \<not> blank g"
  by (simp_all add: degradable_fields_def blank_iff py_space_def)

lemma distinct_gaps: "distinct (capability_gaps q c)"
  using degradable_fields_facts(1) by (simp add: capability_gaps_def distinct_map_filter checked_fields)

lemma set_gaps: "set (capability_gaps q c) \<subseteq> set degradable_fields"
  unfolding checked_fields [of q c, symmetric] capability_gaps_def by auto

lemma gap_not_blank: "g \<in> set (capability_gaps q c) \<Longrightarrow> \<not> blank g"
  using set_gaps degradable_fields_facts(2) by blast

lemma chosen_cell_in: "matching_cells q cs \<noteq> [] \<Longrightarrow> chosen_cell b ds cs q \<in> set cs \<and> serves q (chosen_cell b ds cs q)"
  using arg_min_list_in [of "matching_cells q cs"] by (auto simp: chosen_cell_def set_matching_cells)

lemma chosen_cell_least:
  assumes "c \<in> set cs" "serves q c"
  shows "candidate_key b ds q (chosen_cell b ds cs q) \<le> candidate_key b ds q c"
  unfolding chosen_cell_def using assms by (intro arg_min_list_le) (simp add: set_matching_cells)

lemma chosen_class_least:
  assumes "c \<in> set cs" "serves q c"
  shows "class_rank (candidate_class b ds q (chosen_cell b ds cs q)) \<le> class_rank (candidate_class b ds q c)"
  using chosen_cell_least [OF assms, of b ds] by (auto simp: candidate_key_def less_eq_prod_def)

lemma gaps_declared_iff: "gaps_declared ds q c \<longleftrightarrow> dg_field ` set (declared_for ds q c) = set (capability_gaps q c)"
proof -
  have "dg_field ` set (declared_for ds q c)
      = {g \<in> set (capability_gaps q c). \<exists>d \<in> set ds. degradation_key d = (cq_instrument_id q, g)}"
    by (auto simp: declared_for_def degradation_key_def image_iff)
  then show ?thesis by (auto simp: gaps_declared_def)
qed

lemma candidate_class_cases:
  "candidate_class b ds q c = Preflight_RIGOROUS \<longleftrightarrow> capability_gaps q c = []"
  "candidate_class b ds q c = Preflight_DEGRADED \<longleftrightarrow> capability_gaps q c \<noteq> [] \<and> b \<and> gaps_declared ds q c"
  "candidate_class b ds q c = Preflight_UNSUPPORTED \<longleftrightarrow> capability_gaps q c \<noteq> [] \<and> \<not> (b \<and> gaps_declared ds q c)"
  by (auto simp: candidate_class_def Let_def gaps_declared_iff)

lemma decision_rigorous:
  "cd_classification (decision_for b ds cs q) = Preflight_RIGOROUS \<longleftrightarrow> (\<exists>c \<in> set cs. covers q c)"
proof
  assume r: "cd_classification (decision_for b ds cs q) = Preflight_RIGOROUS"
  then have "matching_cells q cs \<noteq> []" by (auto simp: decision_for_def)
  with r chosen_cell_in [OF this] show "\<exists>c \<in> set cs. covers q c"
    by (auto simp: decision_for_def Let_def covers_def candidate_class_cases)
next
  assume "\<exists>c \<in> set cs. covers q c"
  then obtain c where c: "c \<in> set cs" "serves q c" "capability_gaps q c = []" by (auto simp: covers_def)
  then have "candidate_class b ds q c = Preflight_RIGOROUS" by (simp add: candidate_class_cases)
  then have "class_rank (candidate_class b ds q (chosen_cell b ds cs q)) = 0"
    using chosen_class_least [OF c(1,2), of b ds] by simp
  moreover have "matching_cells q cs \<noteq> []" using c set_matching_cells [of q cs] by auto
  ultimately show "cd_classification (decision_for b ds cs q) = Preflight_RIGOROUS"
    by (cases "candidate_class b ds q (chosen_cell b ds cs q)") (auto simp: decision_for_def Let_def)
qed

lemma eligible_iff: "cd_ranking_eligible (decision_for b ds cs q) \<longleftrightarrow> cd_classification (decision_for b ds cs q) = Preflight_RIGOROUS"
  by (simp add: decision_for_def Let_def)

lemma decision_degraded:
  "cd_classification (decision_for b ds cs q) = Preflight_DEGRADED
     \<longleftrightarrow> b \<and> \<not> (\<exists>c \<in> set cs. covers q c) \<and> (\<exists>c \<in> set cs. serves q c \<and> gaps_declared ds q c)" (is "?L \<longleftrightarrow> ?R")
proof
  assume L: ?L
  then have m: "matching_cells q cs \<noteq> []" by (auto simp: decision_for_def)
  have "\<not> (\<exists>c \<in> set cs. covers q c)" using L decision_rigorous [of b ds cs q] by auto
  with L m chosen_cell_in [OF m] show ?R by (auto simp: decision_for_def Let_def candidate_class_cases)
next
  assume R: ?R
  then obtain c where c: "c \<in> set cs" "serves q c" "gaps_declared ds q c" by blast
  then have "capability_gaps q c \<noteq> []" using R by (auto simp: covers_def)
  then have "candidate_class b ds q c = Preflight_DEGRADED" using R c by (simp add: candidate_class_cases)
  then have "class_rank (candidate_class b ds q (chosen_cell b ds cs q)) \<le> 1"
    using chosen_class_least [OF c(1,2), of b ds] by simp
  moreover have m: "matching_cells q cs \<noteq> []" using c set_matching_cells [of q cs] by auto
  moreover have "candidate_class b ds q (chosen_cell b ds cs q) \<noteq> Preflight_RIGOROUS"
    using R chosen_cell_in [OF m] by (auto simp: candidate_class_cases covers_def)
  ultimately show ?L
    by (cases "candidate_class b ds q (chosen_cell b ds cs q)") (auto simp: decision_for_def Let_def)
qed

lemma decision_executable:
  assumes "cd_classification (decision_for b ds cs q) \<noteq> Preflight_UNSUPPORTED" "substitutions_supported f b ds cs q"
  shows "\<exists>c \<in> set cs. serves q c \<and> cd_evidence_digest (decision_for b ds cs q) = Some (cc_evidence_digest c)
    \<and> cd_gaps (decision_for b ds cs q) = capability_gaps q c
    \<and> (\<forall>g \<in> set (capability_gaps q c). \<exists>d \<in> set ds. degradation_key d = (cq_instrument_id q, g)
          \<and> substitution_is_supported f d c)"
proof -
  let ?c = "chosen_cell b ds cs q"
  have m: "matching_cells q cs \<noteq> []" using assms(1) by (auto simp: decision_for_def)
  have "\<exists>d \<in> set ds. degradation_key d = (cq_instrument_id q, g) \<and> substitution_is_supported f d ?c"
    if g: "g \<in> set (capability_gaps q ?c)" for g
  proof -
    have "candidate_class b ds q ?c \<noteq> Preflight_UNSUPPORTED" using assms(1) m by (simp add: decision_for_def Let_def)
    then have "gaps_declared ds q ?c" using g by (auto simp: candidate_class_cases)
    then obtain d where d: "d \<in> set ds" "degradation_key d = (cq_instrument_id q, g)"
      using g by (auto simp: gaps_declared_def)
    then have "d \<in> set (declared_for ds q ?c)" using g by (simp add: declared_for_def degradation_key_def)
    then have "substitution_is_supported f d ?c"
      using assms(2) m by (simp add: substitutions_supported_def decision_for_def Let_def list_all_iff)
    with d show ?thesis by blast
  qed
  with chosen_cell_in [OF m, of b ds] m show ?thesis by (intro bexI [of _ ?c]) (auto simp: decision_for_def Let_def)
qed

section \<open>When a preflight succeeds\<close>

lemma declared_fields_distinct:
  assumes "distinct (map degradation_key ds)"
  shows "distinct (map dg_field (declared_for ds q c))"
proof -
  have "inj_on degradation_key (set ds)" "distinct ds" using assms by (auto simp: distinct_map)
  then have "inj_on dg_field (set (declared_for ds q c))"
    by (auto simp: inj_on_def declared_for_def degradation_key_def)
  with \<open>distinct ds\<close> show ?thesis by (simp add: distinct_map declared_for_def)
qed

lemma mk_decision_for:
  assumes "distinct (map degradation_key ds)" "\<forall>c \<in> set cs. is_digest (cc_evidence_digest c)"
  shows "matching_cells q cs = [] \<Longrightarrow>
      mk_capability_decision q Preflight_UNSUPPORTED None [''instrument_coverage''] [] False = Inr (decision_for b ds cs q)"
    and "matching_cells q cs \<noteq> [] \<Longrightarrow> c = chosen_cell b ds cs q \<Longrightarrow>
      mk_capability_decision q (candidate_class b ds q c) (Some (cc_evidence_digest c)) (capability_gaps q c)
        (declared_for ds q c) (candidate_class b ds q c = Preflight_RIGOROUS) = Inr (decision_for b ds cs q)"
proof -
  show "matching_cells q cs = [] \<Longrightarrow>
      mk_capability_decision q Preflight_UNSUPPORTED None [''instrument_coverage''] [] False = Inr (decision_for b ds cs q)"
    by (simp add: mk_capability_decision_def decision_for_def raising_Inr_iff opt_digests_clean blank_iff py_space_def)
  assume m: "matching_cells q cs \<noteq> []" and c: "c = chosen_cell b ds cs q"
  have "is_digest (cc_evidence_digest c)" using chosen_cell_in [OF m, of b ds] assms(2) by (simp add: c)
  moreover have "declared_for ds q c = []" if "capability_gaps q c = []" using that by (simp add: declared_for_def)
  moreover have "dg_field ` set (declared_for ds q c) \<subseteq> set (capability_gaps q c)"
    "\<not> list_ex (\<lambda>d. dg_instrument_id d \<noteq> cq_instrument_id q) (declared_for ds q c)"
    by (auto simp: declared_for_def list_ex_iff)
  moreover have "\<not> list_ex blank (capability_gaps q c)" by (auto simp: list_ex_iff gap_not_blank)
  ultimately show "mk_capability_decision q (candidate_class b ds q c) (Some (cc_evidence_digest c)) (capability_gaps q c)
        (declared_for ds q c) (candidate_class b ds q c = Preflight_RIGOROUS) = Inr (decision_for b ds cs q)"
    using m distinct_gaps [of q c] declared_fields_distinct [OF assms(1), of q c]
    unfolding mk_capability_decision_def raising_Inr_iff
    by (auto simp: opt_digests_clean candidate_class_cases gaps_declared_iff decision_for_def Let_def simp flip: c)
qed

lemma preflight_loop_iff:
  assumes "distinct (map degradation_key ds)" "\<forall>c \<in> set cs. is_digest (cc_evidence_digest c)"
  shows "preflight_loop f cs b ds qs acc used = Inr r \<longleftrightarrow>
    (\<forall>q \<in> set qs. substitutions_supported f b ds cs q)
    \<and> r = (acc @ map (decision_for b ds cs) qs,
          used \<union> (\<Union>q \<in> set qs. degradation_key ` set (cd_degradations (decision_for b ds cs q))))"
proof (induction qs arbitrary: acc used)
  case (Cons q qs)
  show ?case
  proof (cases "matching_cells q cs = []")
    case True
    then have "substitutions_supported f b ds cs q" "cd_degradations (decision_for b ds cs q) = []"
      by (simp_all add: substitutions_supported_def decision_for_def)
    with True show ?thesis by (simp add: mk_decision_for(1) [OF assms True, of b] Cons.IH)
  next
    case False
    let ?c = "chosen_cell b ds cs q"
    have d: "cd_degradations (decision_for b ds cs q) = declared_for ds q ?c"
      using False by (simp add: decision_for_def Let_def)
    have "filter (\<lambda>d. \<not> substitution_is_supported f d ?c) (declared_for ds q ?c) = []
        \<longleftrightarrow> substitutions_supported f b ds cs q"
      by (simp add: substitutions_supported_def d filter_empty_conv list_all_iff)
    with False show ?thesis
      by (simp add: chosen_cell_def [symmetric] Let_def contract_simps mk_decision_for(2) [OF assms False refl, of b] Cons.IH d
          Un_assoc)
  qed
qed auto

lemma degraded_supported_only_allowed:
  "cd_classification (decision_for b ds cs q) = Preflight_DEGRADED \<Longrightarrow> b"
  by (simp add: decision_degraded)

lemma sort_degradations [simp]:
  "distinct (map degradation_key (sort_key k ds)) \<longleftrightarrow> distinct (map degradation_key ds)"
  by (simp add: distinct_map)

text \<open>A preflight succeeds exactly when its inputs are duplicate free, the substitutions declared for the
  chosen cells are supported by them, and no declared substitution is left over.\<close>

definition preflight_admissible ::
  "(string \<Rightarrow> datetime option) \<Rightarrow> capability_requirement list \<Rightarrow> capability_cell list \<Rightarrow> bool \<Rightarrow> degradation list \<Rightarrow> bool" where
  "preflight_admissible f rs cs b ds \<longleftrightarrow> rs \<noteq> [] \<and> distinct rs \<and> distinct (map degradation_key ds)
     \<and> (\<forall>q \<in> set rs. substitutions_supported f b ds cs q)
     \<and> (\<forall>d \<in> set ds. \<exists>q \<in> set rs. d \<in> set (cd_degradations (decision_for b ds cs q)))"

lemma decision_degradations: "set (cd_degradations (decision_for b ds cs q)) \<subseteq> set ds"
  by (auto simp: decision_for_def declared_for_def Let_def)

lemma keys_used_iff:
  assumes "distinct (map degradation_key ds)"
  shows "degradation_key ` set ds \<subseteq> (\<Union>q \<in> A. degradation_key ` set (cd_degradations (decision_for b ds cs q)))
    \<longleftrightarrow> (\<forall>d \<in> set ds. \<exists>q \<in> A. d \<in> set (cd_degradations (decision_for b ds cs q)))" (is "?L \<longleftrightarrow> ?R")
proof
  assume L: ?L
  show ?R
  proof
    fix d assume d: "d \<in> set ds"
    then obtain q e where q: "q \<in> A" "e \<in> set (cd_degradations (decision_for b ds cs q))" "degradation_key e = degradation_key d"
      using L by fastforce
    then have "e = d" using d assms decision_degradations by (metis distinct_map inj_onD subsetD)
    with q show "\<exists>q \<in> A. d \<in> set (cd_degradations (decision_for b ds cs q))" by blast
  qed
qed blast

lemma mk_report:
  assumes "qs \<noteq> []" "distinct qs" "distinct (map degradation_key ds)"
    and "\<forall>d \<in> set ds. \<exists>q \<in> set qs. d \<in> set (cd_degradations (decision_for b ds cs q))"
  shows "mk_preflight_report (map (decision_for b ds cs) qs) (report_digest (map (decision_for b ds cs) qs) b ds) b ds
    = Inr \<lparr>pr_decisions = map (decision_for b ds cs) qs, pr_fingerprint = report_digest (map (decision_for b ds cs) qs) b ds,
           pr_allow_degraded = b, pr_degradations = ds\<rparr>"
proof -
  have "(\<Union>q \<in> set qs. set (cd_degradations (decision_for b ds cs q))) = set ds"
    using assms(4) decision_degradations by fast
  then have "(\<Union>q \<in> set qs. degradation_key ` set (cd_degradations (decision_for b ds cs q))) = degradation_key ` set ds"
    by (metis image_UN)
  moreover have "map cd_requirement (map (decision_for b ds cs) qs) = qs" by (simp add: comp_def)
  moreover have "b \<or> \<not> list_ex (\<lambda>d. cd_classification d = Preflight_DEGRADED) (map (decision_for b ds cs) qs)"
    by (auto simp: list_ex_iff dest: degraded_supported_only_allowed)
  ultimately show ?thesis using assms(1-3) unfolding mk_preflight_report_def raising_Inr_iff
    by (simp add: digests_clean disj_commute)
qed

lemma preflight_iff_sorted:
  fixes ds rs
  assumes "\<forall>c \<in> set cs. is_digest (cc_evidence_digest c)"
  defines "es \<equiv> sort_key degradation_sort_key ds" and "qs \<equiv> sort_key requirement_key rs"
  shows "preflight_capabilities f rs cs b ds = Inr r \<longleftrightarrow> preflight_admissible f rs cs b es
    \<and> r = \<lparr>pr_decisions = map (decision_for b es cs) qs, pr_fingerprint = report_digest (map (decision_for b es cs) qs) b es,
           pr_allow_degraded = b, pr_degradations = es\<rparr>"
proof -
  let ?used = "\<Union>q \<in> set rs. degradation_key ` set (cd_degradations (decision_for b es cs q))"
  have sets: "set qs = set rs" "set es = set ds" "distinct qs = distinct rs" "qs = [] \<longleftrightarrow> rs = []"
    by (auto simp: qs_def es_def) (metis length_0_conv length_sort)
  have "preflight_capabilities f rs cs b ds = Inr r \<longleftrightarrow> rs \<noteq> [] \<and> distinct rs \<and> distinct (map degradation_key es)
      \<and> (\<forall>q \<in> set rs. substitutions_supported f b es cs q) \<and> degradation_key ` set es \<subseteq> ?used
      \<and> mk_preflight_report (map (decision_for b es cs) qs) (report_digest (map (decision_for b es cs) qs) b es) b es = Inr r"
  proof (cases "distinct (map degradation_key es)")
    case True
    show ?thesis
      unfolding preflight_capabilities_def Let_def es_def [symmetric] qs_def [symmetric]
      using preflight_loop_iff [OF True assms(1), of f b qs "[]" "{}"] True sets
      by (auto simp: contract_simps)
  next
    case False
    then show ?thesis
      unfolding preflight_capabilities_def Let_def es_def [symmetric] qs_def [symmetric] by (simp add: contract_simps)
  qed
  moreover have "degradation_key ` set es \<subseteq> ?used
      \<longleftrightarrow> (\<forall>d \<in> set es. \<exists>q \<in> set rs. d \<in> set (cd_degradations (decision_for b es cs q)))"
    if "distinct (map degradation_key es)" using keys_used_iff [OF that] .
  ultimately show ?thesis
    using mk_report [of qs es b cs] sets unfolding preflight_admissible_def by auto
qed

lemma decision_for_set:
  assumes "set es = set ds"
  shows "chosen_cell b es cs q = chosen_cell b ds cs q"
    and "set (cd_degradations (decision_for b es cs q)) = set (cd_degradations (decision_for b ds cs q))"
    and "cd_classification (decision_for b es cs q) = cd_classification (decision_for b ds cs q)"
proof -
  have d: "set (declared_for es q c) = set (declared_for ds q c)" for c using assms by (simp add: declared_for_def)
  then have k: "candidate_class b es q = candidate_class b ds q" by (simp add: fun_eq_iff candidate_class_def)
  then show c: "chosen_cell b es cs q = chosen_cell b ds cs q"
    by (simp add: chosen_cell_def candidate_key_def [abs_def])
  show "set (cd_degradations (decision_for b es cs q)) = set (cd_degradations (decision_for b ds cs q))"
    "cd_classification (decision_for b es cs q) = cd_classification (decision_for b ds cs q)"
    by (simp_all add: decision_for_def Let_def c d k)
qed

lemma preflight_admissible_sorted:
  "preflight_admissible f rs cs b (sort_key k ds) \<longleftrightarrow> preflight_admissible f rs cs b ds"
proof -
  note sorted = decision_for_set [where es = "sort_key k ds" and ds = ds, OF set_sort]
  show ?thesis by (simp add: preflight_admissible_def substitutions_supported_def list_all_iff sorted)
qed

text \<open>What an executable decision rests on: a cell that serves the requirement and, in degraded operation, a
  declared substitution for each gap that the cell supports.\<close>

definition requirement_served ::
  "(string \<Rightarrow> datetime option) \<Rightarrow> degradation list \<Rightarrow> capability_requirement \<Rightarrow> capability_cell \<Rightarrow> bool" where
  "requirement_served f ds q c \<longleftrightarrow> serves q c
     \<and> (\<forall>g \<in> set (capability_gaps q c). \<exists>d \<in> set ds. degradation_key d = (cq_instrument_id q, g) \<and> substitution_is_supported f d c)"

lemma preflight_served:
  assumes "\<forall>c \<in> set cs. is_digest (cc_evidence_digest c)" "preflight_capabilities f rs cs b ds = Inr rep"
  shows "cd_requirement ` set (pr_decisions rep) = set rs" and "is_digest (pr_fingerprint rep)"
    and "x \<in> set (pr_decisions rep) \<Longrightarrow> cd_classification x \<noteq> Preflight_UNSUPPORTED \<Longrightarrow>
      \<exists>c \<in> set cs. requirement_served f ds (cd_requirement x) c \<and> cd_evidence_digest x = Some (cc_evidence_digest c)
        \<and> cd_gaps x = capability_gaps (cd_requirement x) c \<and> (cd_gaps x = [] \<or> b)"
proof -
  let ?es = "sort_key degradation_sort_key ds"
  from assms(2) preflight_iff_sorted [OF assms(1), of f rs b ds rep]
  have adm: "preflight_admissible f rs cs b ?es" and dec: "pr_decisions rep = map (decision_for b ?es cs) (sort_key requirement_key rs)"
    and "is_digest (pr_fingerprint rep)" by simp_all
  then show "cd_requirement ` set (pr_decisions rep) = set rs" "is_digest (pr_fingerprint rep)" by (simp_all add: image_image)
  assume x: "x \<in> set (pr_decisions rep)" "cd_classification x \<noteq> Preflight_UNSUPPORTED"
  then obtain q where q: "q \<in> set rs" "x = decision_for b ?es cs q" by (auto simp: dec)
  then have "substitutions_supported f b ?es cs q" using adm by (simp add: preflight_admissible_def)
  then obtain c where c: "c \<in> set cs" "serves q c" "cd_evidence_digest x = Some (cc_evidence_digest c)"
    "cd_gaps x = capability_gaps q c" "\<forall>g \<in> set (capability_gaps q c). \<exists>d \<in> set ds.
       degradation_key d = (cq_instrument_id q, g) \<and> substitution_is_supported f d c"
    using decision_executable [of b ?es cs q f] x(2) q(2) by auto
  have "cd_gaps x = [] \<or> b"
  proof (cases "cd_classification x")
    case Preflight_RIGOROUS
    then have "cd_gaps x = []" using q(2) by (auto simp: decision_for_def Let_def candidate_class_cases split: if_splits)
    then show ?thesis ..
  next
    case Preflight_DEGRADED
    then show ?thesis using q(2) degraded_supported_only_allowed by blast
  qed (use x(2) in simp)
  with c q(2) show "\<exists>c \<in> set cs. requirement_served f ds (cd_requirement x) c \<and> cd_evidence_digest x = Some (cc_evidence_digest c)
        \<and> cd_gaps x = capability_gaps (cd_requirement x) c \<and> (cd_gaps x = [] \<or> b)"
    by (auto simp: requirement_served_def)
qed

section \<open>Order\<close>

lemma product_class_value_inject [simp]: "product_class_value p = product_class_value p' \<longleftrightarrow> p = p'"
  by (cases p; cases p') simp_all

lemma granularity_value_inject [simp]: "granularity_value g = granularity_value g' \<longleftrightarrow> g = g'"
  by (cases g; cases g') simp_all

lemma adjustment_value_inject [simp]: "adjustment_value a = adjustment_value a' \<longleftrightarrow> a = a'"
  by (cases a; cases a') simp_all

lemma inj_requirement_key: "inj requirement_key"
  by (rule injI) (simp add: requirement_key_def)

lemma inj_degradation_sort_key: "inj degradation_sort_key"
  by (rule injI) (simp add: degradation_sort_key_def)

lemma inj_candidate_key: "inj_on (\<lambda>c. digest (cell_py c)) A \<Longrightarrow> inj_on (candidate_key b ds q) A"
  by (auto simp: inj_on_def candidate_key_def)

lemma chosen_cell_set:
  assumes "set cs = set cs'" "inj_on (\<lambda>c. digest (cell_py c)) (set cs)"
  shows "arg_min_list (candidate_key b ds q) (matching_cells q cs) = arg_min_list (candidate_key b ds q) (matching_cells q cs')"
    and "matching_cells q cs = [] \<longleftrightarrow> matching_cells q cs' = []"
proof -
  have eq: "set (matching_cells q cs) = set (matching_cells q cs')" using assms(1) by (simp add: set_matching_cells)
  moreover have "inj_on (candidate_key b ds q) (set (matching_cells q cs))"
    using assms(2) by (intro inj_candidate_key) (auto simp: set_matching_cells inj_on_def)
  ultimately show "arg_min_list (candidate_key b ds q) (matching_cells q cs)
      = arg_min_list (candidate_key b ds q) (matching_cells q cs')" by (rule arg_min_list_set)
  show "matching_cells q cs = [] \<longleftrightarrow> matching_cells q cs' = []" using eq by (metis set_empty)
qed

lemma preflight_loop_cells:
  assumes "set cs = set cs'" "inj_on (\<lambda>c. digest (cell_py c)) (set cs)"
  shows "preflight_loop f cs b ds qs acc used = preflight_loop f cs' b ds qs acc used"
  by (induction qs arbitrary: acc used) (simp_all add: chosen_cell_set [OF assms] Let_def)

section \<open>Properties\<close>

definition sample_requirement :: "string \<Rightarrow> capability_requirement" where
  "sample_requirement timeframe = \<lparr>cq_instrument_id = ''AAPL'', cq_product_class = Product_EQUITY,
     cq_event_granularity = Granularity_BAR, cq_event_type = ''bar'', cq_timeframe = timeframe, cq_start = 10, cq_end = 20,
     cq_adjustment = Adjust_RAW, cq_session = ''regular'', cq_feed = ''sip'', cq_execution_model = ''bar_close'',
     cq_account_model = ''cash'', cq_corporate_action_semantics = ''split''\<rparr>"

definition sample_cell :: "string \<Rightarrow> string \<Rightarrow> capability_cell" where
  "sample_cell timeframe evidence = \<lparr>cc_instrument_id = ''AAPL'', cc_product_class = Product_EQUITY,
     cc_event_granularities = {Granularity_BAR}, cc_event_types = {''bar''}, cc_timeframes = {timeframe},
     cc_adjustments = {Adjust_RAW}, cc_sessions = {''regular''}, cc_feeds = {''sip''}, cc_execution_models = {''bar_close''},
     cc_account_models = {''cash''}, cc_corporate_action_semantics = {''split''}, cc_history_start = 0,
     cc_history_end = 30, cc_evidence_digest = evidence\<rparr>"

definition sample_degradation :: degradation where
  "sample_degradation = \<lparr>dg_instrument_id = ''AAPL'', dg_field = ''timeframe'', dg_substituted_value = ''1d'',
     dg_reason = ''hourly bars are not licensed''\<rparr>"

lemma sample_gaps: "capability_gaps (sample_requirement t) (sample_cell u e) = (if t = u then [] else [''timeframe''])"
  by (simp add: capability_gaps_def capability_checks_def sample_requirement_def sample_cell_def)

lemma sample_serves [simp]: "serves (sample_requirement t) (sample_cell u e)"
  by (simp add: serves_def sample_requirement_def sample_cell_def)

lemma sample_declared:
  "t \<noteq> u \<Longrightarrow> declared_for [sample_degradation] (sample_requirement t) (sample_cell u e) = [sample_degradation]"
  by (simp add: declared_for_def sample_gaps) (simp add: sample_degradation_def sample_requirement_def)

lemma sample_supported: "substitution_is_supported f sample_degradation (sample_cell u e) \<longleftrightarrow> u = ''1d''"
  by (auto simp: substitution_is_supported_def sample_degradation_def field_values_def sample_cell_def)

lemma sample_decision:
  assumes "t \<noteq> u" "chosen_cell True [sample_degradation] cs (sample_requirement t) = sample_cell u e" "sample_cell u e \<in> set cs"
  shows "cd_degradations (decision_for True [sample_degradation] cs (sample_requirement t)) = [sample_degradation]"
    and "substitutions_supported f True [sample_degradation] cs (sample_requirement t) \<longleftrightarrow> u = ''1d''"
    and "cd_classification (decision_for True [sample_degradation] cs (sample_requirement t)) = Preflight_DEGRADED"
proof -
  have m: "matching_cells (sample_requirement t) cs \<noteq> []"
    using assms(3) set_matching_cells [of "sample_requirement t" cs] sample_serves by auto
  have "gaps_declared [sample_degradation] (sample_requirement t) (sample_cell u e)"
    using assms(1) by (simp add: gaps_declared_iff sample_declared sample_gaps) (simp add: sample_degradation_def)
  then have "candidate_class True [sample_degradation] (sample_requirement t) (sample_cell u e) = Preflight_DEGRADED"
    using assms(1) by (simp add: candidate_class_cases sample_gaps)
  then show "cd_degradations (decision_for True [sample_degradation] cs (sample_requirement t)) = [sample_degradation]"
    "cd_classification (decision_for True [sample_degradation] cs (sample_requirement t)) = Preflight_DEGRADED"
    using m assms(1,2) by (simp_all add: decision_for_def Let_def sample_declared)
  then show "substitutions_supported f True [sample_degradation] cs (sample_requirement t) \<longleftrightarrow> u = ''1d''"
    using assms(2) by (simp add: substitutions_supported_def sample_supported)
qed

lemma sample_one_cell:
  "chosen_cell b ds [sample_cell u e] (sample_requirement t) = sample_cell u e"
  using set_matching_cells [of "sample_requirement t" "[sample_cell u e]"]
  by (simp add: chosen_cell_def matching_cells_def sample_requirement_def sample_cell_def)

lemma sample_preflight:
  assumes "is_digest e"
  shows "\<exists>r. preflight_capabilities f [sample_requirement ''1h''] [sample_cell ''1d'' e] True [sample_degradation] = Inr r
    \<and> report_classification r = Preflight_DEGRADED"
proof -
  have d: "''1h'' \<noteq> ''1d''" "sample_cell ''1d'' e \<in> set [sample_cell ''1d'' e]" by simp_all
  note decided = sample_decision [OF d(1) sample_one_cell d(2)]
  have "preflight_admissible f [sample_requirement ''1h''] [sample_cell ''1d'' e] True [sample_degradation]"
    by (simp add: preflight_admissible_def decided)
  moreover have "\<forall>c \<in> set [sample_cell ''1d'' e]. is_digest (cc_evidence_digest c)" using assms by (simp add: sample_cell_def)
  ultimately show ?thesis
    by (simp add: preflight_iff_sorted report_classification_def decided)
qed

text \<open>C15: gaps fail closed. A preflight decides every requirement once. A requirement is rigorous exactly when
  some cell of its instrument and product class supports all of it, and degraded only when degraded
  operation is allowed, no cell supports all of it and a substitution is declared for every gap. A
  requirement that is not unsupported rests on the evidence of one cell that serves it, whose every gap
  has a declared substitution that cell supports; results are eligible for ranking exactly when every
  requirement is supported without a gap.\<close>

theorem preflight_fail_closed:
  assumes "\<forall>c \<in> set cs. capability_cell_ok c" "preflight_capabilities f rs cs b ds = Inr rep"
  shows "mset (map cd_requirement (pr_decisions rep)) = mset rs
    \<and> (\<forall>x \<in> set (pr_decisions rep).
         (cd_classification x = Preflight_RIGOROUS \<longleftrightarrow> (\<exists>c \<in> set cs. covers (cd_requirement x) c))
       \<and> (cd_classification x = Preflight_DEGRADED \<longleftrightarrow> b \<and> \<not> (\<exists>c \<in> set cs. covers (cd_requirement x) c)
            \<and> (\<exists>c \<in> set cs. serves (cd_requirement x) c \<and> gaps_declared ds (cd_requirement x) c))
       \<and> (cd_classification x \<noteq> Preflight_UNSUPPORTED \<longrightarrow> (\<exists>c \<in> set cs. requirement_served f ds (cd_requirement x) c
            \<and> cd_evidence_digest x = Some (cc_evidence_digest c) \<and> cd_gaps x = capability_gaps (cd_requirement x) c)))
    \<and> (report_ranking_eligible rep \<longleftrightarrow> (\<forall>q \<in> set rs. \<exists>c \<in> set cs. covers q c))"
proof -
  let ?es = "sort_key degradation_sort_key ds"
  have ok: "\<forall>c \<in> set cs. is_digest (cc_evidence_digest c)" using assms(1) by (auto simp: capability_cell_ok_def)
  from assms(2) preflight_iff_sorted [OF this, of f rs b ds rep]
  have dec: "pr_decisions rep = map (decision_for b ?es cs) (sort_key requirement_key rs)" by simp
  have declared: "gaps_declared ?es q c \<longleftrightarrow> gaps_declared ds q c" for q c by (simp add: gaps_declared_def)
  have "report_ranking_eligible rep \<longleftrightarrow> (\<forall>q \<in> set rs. cd_classification (decision_for b ?es cs q) = Preflight_RIGOROUS)"
    by (auto simp: report_ranking_eligible_def report_executable_iff dec list_all_iff eligible_iff)
  then have "report_ranking_eligible rep \<longleftrightarrow> (\<forall>q \<in> set rs. \<exists>c \<in> set cs. covers q c)" by (simp add: decision_rigorous)
  moreover have "mset (map cd_requirement (pr_decisions rep)) = mset rs" by (simp add: dec comp_def)
  moreover have "(cd_classification x = Preflight_RIGOROUS \<longleftrightarrow> (\<exists>c \<in> set cs. covers (cd_requirement x) c))
      \<and> (cd_classification x = Preflight_DEGRADED \<longleftrightarrow> b \<and> \<not> (\<exists>c \<in> set cs. covers (cd_requirement x) c)
           \<and> (\<exists>c \<in> set cs. serves (cd_requirement x) c \<and> gaps_declared ds (cd_requirement x) c))"
    if "x \<in> set (pr_decisions rep)" for x
    using that by (auto simp: dec decision_rigorous decision_degraded declared)
  ultimately show ?thesis using preflight_served(3) [OF ok assms(2)] by blast
qed

theorem preflight_fail_closed_witness:
  "capability_cell_ok (sample_cell ''1d'' (digest_text ''evidence''))
   \<and> (\<exists>r. preflight_capabilities (\<lambda>s. None) [sample_requirement ''1h''] [sample_cell ''1d'' (digest_text ''evidence'')] True
          [sample_degradation] = Inr r \<and> \<not> report_ranking_eligible r
        \<and> (\<forall>x \<in> set (pr_decisions r). cd_classification x = Preflight_DEGRADED))"
proof -
  let ?c = "sample_cell ''1d'' (digest_text ''evidence'')"
  have ok: "capability_cell_ok ?c" by (simp add: sample_cell_def capability_cell_ok_def blank_iff py_space_def)
  obtain r where r: "preflight_capabilities (\<lambda>s. None) [sample_requirement ''1h''] [?c] True [sample_degradation] = Inr r"
    using sample_preflight [of "digest_text ''evidence''"] by auto
  have "\<not> covers (sample_requirement ''1h'') ?c" by (simp add: covers_def sample_gaps)
  moreover have "gaps_declared [sample_degradation] (sample_requirement ''1h'') ?c"
    by (simp add: gaps_declared_def sample_gaps) (simp add: sample_degradation_def degradation_key_def sample_requirement_def)
  moreover have "\<forall>c \<in> set [?c]. capability_cell_ok c" using ok by simp
  note closed = preflight_fail_closed [OF this r]
  have "cd_requirement x = sample_requirement ''1h''" if "x \<in> set (pr_decisions r)" for x
    using conjunct1 [OF closed] that by (metis image_eqI list.set_map set_mset_mset set_ConsD list.set(1) empty_iff)
  ultimately show ?thesis using ok r closed by (intro conjI exI [of _ r]) auto
qed

text \<open>A preflight does not depend on the order of its inputs. Reordering requirements and degradations,
  and reordering or repeating cells, gives the same report with the same fingerprint, or the same error,
  provided distinct cells have distinct content digests.\<close>

theorem preflight_order_independent:
  assumes "mset rs = mset rs'" "set cs = set cs'" "mset ds = mset ds'" "inj_on (\<lambda>c. digest (cell_py c)) (set cs)"
  shows "preflight_capabilities f rs cs b ds = preflight_capabilities f rs' cs' b ds'"
proof -
  have "sort_key requirement_key rs = sort_key requirement_key rs'"
    "sort_key degradation_sort_key ds = sort_key degradation_sort_key ds'"
    using assms(1,3) by (auto intro: sort_key_perm inj_requirement_key inj_degradation_sort_key)
  moreover have "rs = [] \<longleftrightarrow> rs' = []" "distinct rs \<longleftrightarrow> distinct rs'"
    using assms(1) by (auto dest: mset_eq_imp_distinct_iff)
  ultimately show ?thesis by (simp add: preflight_capabilities_def preflight_loop_cells [OF assms(2,4)])
qed

theorem preflight_order_independent_witness:
  "preflight_capabilities (\<lambda>s. None) [sample_requirement ''1h'', sample_requirement ''1d''] [sample_cell ''1d'' (digest_text ''evidence'')] True []
     = preflight_capabilities (\<lambda>s. None) [sample_requirement ''1d'', sample_requirement ''1h'']
         [sample_cell ''1d'' (digest_text ''evidence''), sample_cell ''1d'' (digest_text ''evidence'')] True []"
  by (rule preflight_order_independent) simp_all

text \<open>C37: the cell is chosen before its substitutions are looked at, so more capability can refuse a run. Take any
  preflight that succeeds with degraded operation, a requirement none of whose cells covers it without a gap, and a
  further cell that serves this requirement with no more gaps, all declared, on evidence whose digest sorts before that of
  the other cells. If this cell does not support one of the declared substitutions, the preflight with the cell added raises.\<close>

theorem added_cell_refuses_preflight:
  assumes before: "preflight_capabilities f rs cs True ds = Inr r" and q: "q \<in> set rs"
    and digests: "\<forall>c \<in> set (cs @ [new]). is_digest (cc_evidence_digest c)"
    and new: "serves q new" "gaps_declared ds q new"
    and first: "\<forall>c \<in> set cs. serves q c \<longrightarrow> \<not> covers q c \<and> length (capability_gaps q new) \<le> length (capability_gaps q c)
      \<and> cc_evidence_digest new < cc_evidence_digest c"
    and unsupported: "d \<in> set (declared_for ds q new)" "\<not> substitution_is_supported f d new"
  shows "\<exists>e. preflight_capabilities f rs (cs @ [new]) True ds = Inl e"
proof -
  have gaps: "capability_gaps q new \<noteq> []" using unsupported(1) by (auto simp: declared_for_def)
  then have degraded: "candidate_class True ds q new = Preflight_DEGRADED" using new(2) by (simp add: candidate_class_cases)
  have least: "candidate_key True ds q new < candidate_key True ds q c" if "c \<in> set cs" "serves q c" for c
  proof -
    have "candidate_class True ds q c \<noteq> Preflight_RIGOROUS" using first that by (simp add: candidate_class_cases covers_def)
    then have "class_rank (candidate_class True ds q c) \<ge> 1" by (cases "candidate_class True ds q c") simp_all
    moreover have "length (capability_gaps q new) \<le> length (capability_gaps q c)" "cc_evidence_digest new < cc_evidence_digest c"
      using first that by blast+
    ultimately show ?thesis by (auto simp: candidate_key_def degraded)
  qed
  have matching: "new \<in> set (matching_cells q (cs @ [new]))" using new(1) by (simp add: set_matching_cells)
  then have some: "matching_cells q (cs @ [new]) \<noteq> []" by auto
  have chosen: "chosen_cell True ds (cs @ [new]) q = new"
  proof (rule ccontr)
    assume other: "chosen_cell True ds (cs @ [new]) q \<noteq> new"
    then have "candidate_key True ds q new < candidate_key True ds q (chosen_cell True ds (cs @ [new]) q)"
      using chosen_cell_in [OF some, of True ds] least by auto
    moreover have "candidate_key True ds q (chosen_cell True ds (cs @ [new]) q) \<le> candidate_key True ds q new"
      using chosen_cell_least matching new(1) by auto
    ultimately show False by simp
  qed
  then have "cd_degradations (decision_for True ds (cs @ [new]) q) = declared_for ds q new"
    using some by (simp add: decision_for_def Let_def)
  then have "\<not> substitutions_supported f True ds (cs @ [new]) q"
    using chosen unsupported by (auto simp: substitutions_supported_def list_all_iff)
  then have "\<not> preflight_admissible f rs (cs @ [new]) True ds" using q by (auto simp: preflight_admissible_def)
  then have "preflight_capabilities f rs (cs @ [new]) True ds \<noteq> Inr u" for u
    using preflight_iff_sorted [OF digests] by (simp add: preflight_admissible_sorted)
  then show ?thesis by (metis sum.exhaust)
qed

theorem added_cell_refuses_preflight_witness:
  "\<exists>r e. preflight_capabilities (\<lambda>s. None) [sample_requirement ''1h''] [sample_cell ''1d'' (''sha256:'' @ replicate 64 CHR ''1'')]
           True [sample_degradation] = Inr r
     \<and> preflight_capabilities (\<lambda>s. None) [sample_requirement ''1h'']
           [sample_cell ''1d'' (''sha256:'' @ replicate 64 CHR ''1''), sample_cell ''4h'' (''sha256:'' @ replicate 64 CHR ''0'')]
           True [sample_degradation] = Inl e"
proof -
  let ?e1 = "''sha256:'' @ replicate 64 CHR ''0''" and ?e2 = "''sha256:'' @ replicate 64 CHR ''1''"
  let ?q = "sample_requirement ''1h''" and ?f = "\<lambda>s. None"
  have digests: "is_digest ?e1" "is_digest ?e2"
    by (auto simp: is_digest_def digest_prefix_ok_def is_hex_def intro!: int16_ok_hex)
  obtain r where r: "preflight_capabilities ?f [?q] [sample_cell ''1d'' ?e2] True [sample_degradation] = Inr r"
    using sample_preflight [OF digests(2)] by blast
  have "?e1 < ?e2" by (simp add: numeral_eq_Suc)
  have "\<exists>e. preflight_capabilities ?f [?q] ([sample_cell ''1d'' ?e2] @ [sample_cell ''4h'' ?e1]) True [sample_degradation] = Inl e"
  proof (rule added_cell_refuses_preflight [OF r])
    show "gaps_declared [sample_degradation] ?q (sample_cell ''4h'' ?e1)"
      by (simp add: gaps_declared_iff sample_declared sample_gaps) (simp add: sample_degradation_def)
    show "\<forall>c \<in> set ([sample_cell ''1d'' ?e2] @ [sample_cell ''4h'' ?e1]). is_digest (cc_evidence_digest c)"
      using digests by (simp add: sample_cell_def)
    show "\<forall>c \<in> set [sample_cell ''1d'' ?e2]. serves ?q c \<longrightarrow> \<not> covers ?q c
        \<and> length (capability_gaps ?q (sample_cell ''4h'' ?e1)) \<le> length (capability_gaps ?q c)
        \<and> cc_evidence_digest (sample_cell ''4h'' ?e1) < cc_evidence_digest c"
      using \<open>?e1 < ?e2\<close> by (simp add: covers_def sample_gaps) (simp add: sample_cell_def)
    show "sample_degradation \<in> set (declared_for [sample_degradation] ?q (sample_cell ''4h'' ?e1))" by (simp add: sample_declared)
    show "\<not> substitution_is_supported ?f sample_degradation (sample_cell ''4h'' ?e1)" by (simp add: sample_supported)
  qed simp_all
  then show ?thesis using r by auto
qed

end
