(* ===== verification/Execution_Capabilities.thy ===== *)
theory Execution_Capabilities
  imports Capabilities
begin

text \<open>
  \<open>src/backend/app/strategy_lab_v2/execution_capabilities.py\<close>: a data preflight is bound to the
  registered capability of one engine build, and the gaps of either side stop the execution.
\<close>

section \<open>Bindings\<close>

record capability_binding =
  xb_engine_name :: string
  xb_engine_version :: string
  xb_engine_build_digest :: string
  xb_conformance_fingerprint :: string
  xb_product_classes :: "product_class set"
  xb_execution_models :: "string set"
  xb_account_models :: "string set"
  xb_authoritative :: bool

definition mk_capability_binding ::
  "string \<Rightarrow> string \<Rightarrow> string \<Rightarrow> string \<Rightarrow> product_class set \<Rightarrow> string set \<Rightarrow> string set \<Rightarrow> bool \<Rightarrow> capability_binding result" where
  "mk_capability_binding engine_name engine_version build conformance products execution_models account_models authoritative =
     raising
       ([(blank engine_name, ''engine_name must not be empty''),
         (blank engine_version, ''engine_version must not be empty'')]
        @ digest_checks build ''engine_build_digest'' @ digest_checks conformance ''conformance_fingerprint''
        @ [(products = {}, ''execution capability must declare product classes''),
           (execution_models = {} \<or> (\<exists>x \<in> execution_models. blank x), ''execution_models must contain non-empty strings''),
           (account_models = {} \<or> (\<exists>x \<in> account_models. blank x), ''account_models must contain non-empty strings'')])
       (Inr \<lparr>xb_engine_name = engine_name, xb_engine_version = engine_version, xb_engine_build_digest = build,
             xb_conformance_fingerprint = conformance, xb_product_classes = products,
             xb_execution_models = execution_models, xb_account_models = account_models,
             xb_authoritative = authoritative\<rparr>)"

definition binding_fingerprint :: "capability_binding \<Rightarrow> string" where
  "binding_fingerprint b = digest (dataclass_py ''app.strategy_lab_v2.execution_capabilities.ExecutionCapabilityBinding''
     [(''engine_name'', PStr (xb_engine_name b)),
      (''engine_version'', PStr (xb_engine_version b)),
      (''engine_build_digest'', PStr (xb_engine_build_digest b)),
      (''conformance_fingerprint'', PStr (xb_conformance_fingerprint b)),
      (''product_classes'', PSet (map product_py (filter (\<lambda>p. p \<in> xb_product_classes b)
          [Product_EQUITY, Product_CRYPTO, Product_FUTURE, Product_OPTION, Product_FX, Product_OTHER]))),
      (''execution_models'', str_set_py (xb_execution_models b)),
      (''account_models'', str_set_py (xb_account_models b)),
      (''authoritative'', PBool (xb_authoritative b))])"

section \<open>The decision\<close>

record capability_preflight =
  cp_report_fingerprint :: string
  cp_binding_fingerprint :: string
  cp_classification :: preflight_class
  cp_gaps :: "string list"
  cp_authoritative :: bool

definition mk_capability_preflight ::
  "string \<Rightarrow> string \<Rightarrow> preflight_class \<Rightarrow> string list \<Rightarrow> bool \<Rightarrow> capability_preflight result" where
  "mk_capability_preflight report_fp binding_fp classification gaps authoritative =
     raising
       (digest_checks report_fp ''report_fingerprint'' @ digest_checks binding_fp ''binding_fingerprint''
        @ [(list_ex blank gaps, ''execution capability gaps must be non-empty strings''),
           (\<not> distinct gaps, ''execution capability gaps must be unique'')])
       (Inr \<lparr>cp_report_fingerprint = report_fp, cp_binding_fingerprint = binding_fp,
             cp_classification = classification, cp_gaps = gaps, cp_authoritative = authoritative\<rparr>)"

definition executable :: "capability_preflight \<Rightarrow> bool" where
  "executable c \<longleftrightarrow> cp_classification c \<noteq> Preflight_UNSUPPORTED \<and> cp_gaps c = []"

definition can_publish_authoritative_results :: "capability_preflight \<Rightarrow> bool" where
  "can_publish_authoritative_results c \<longleftrightarrow> executable c \<and> cp_authoritative c"

definition requirement_engine_gaps :: "capability_binding \<Rightarrow> capability_requirement \<Rightarrow> string list" where
  "requirement_engine_gaps binding q =
     (if cq_product_class q \<notin> xb_product_classes binding
        then [''product_class:'' @ product_class_value (cq_product_class q)] else [])
   @ (if cq_execution_model q \<notin> xb_execution_models binding
        then [''execution_model:'' @ cq_execution_model q] else [])
   @ (if cq_account_model q \<notin> xb_account_models binding
        then [''account_model:'' @ cq_account_model q] else [])"

definition preflight_execution_capability ::
  "preflight_report \<Rightarrow> capability_binding \<Rightarrow> capability_preflight result" where
  "preflight_execution_capability report binding =
     (let gaps = (if report_classification report = Preflight_UNSUPPORTED then [''data_preflight_unsupported''] else [])
                 @ concat (map (\<lambda>decision. requirement_engine_gaps binding (cd_requirement decision)) (pr_decisions report));
          classification = (if gaps \<noteq> [] then Preflight_UNSUPPORTED else report_classification report)
      in mk_capability_preflight (pr_fingerprint report) (binding_fingerprint binding) classification
           (sorted_list_of_set (set gaps)) (xb_authoritative binding))"

section \<open>What it decides\<close>

definition engine_supports :: "capability_binding \<Rightarrow> capability_requirement \<Rightarrow> bool" where
  "engine_supports binding q \<longleftrightarrow> cq_product_class q \<in> xb_product_classes binding
     \<and> cq_execution_model q \<in> xb_execution_models binding \<and> cq_account_model q \<in> xb_account_models binding"

lemma binding_digest [simp]: "is_digest (binding_fingerprint b)"
  by (simp add: binding_fingerprint_def is_digest_digest product_py_def list_all_iff)

lemma engine_gaps_Nil: "requirement_engine_gaps b q = [] \<longleftrightarrow> engine_supports b q"
  by (simp add: requirement_engine_gaps_def engine_supports_def)

lemma engine_gap_not_blank: "g \<in> set (requirement_engine_gaps b q) \<Longrightarrow> \<not> blank g"
  by (auto simp: requirement_engine_gaps_def blank_iff py_space_def split: if_splits)

lemma preflight_execution_decides:
  assumes "is_digest (pr_fingerprint r)"
  shows "\<exists>p. preflight_execution_capability r b = Inr p \<and> cp_report_fingerprint p = pr_fingerprint r
    \<and> cp_binding_fingerprint p = binding_fingerprint b \<and> cp_authoritative p = xb_authoritative b
    \<and> (executable p \<longleftrightarrow> report_executable r \<and> (\<forall>x \<in> set (pr_decisions r). engine_supports b (cd_requirement x)))
    \<and> (executable p \<longrightarrow> cp_classification p = report_classification r)"
proof -
  define gaps where "gaps = (if report_classification r = Preflight_UNSUPPORTED then [''data_preflight_unsupported''] else [])
      @ concat (map (\<lambda>decision. requirement_engine_gaps b (cd_requirement decision)) (pr_decisions r))"
  have "\<not> blank ''data_preflight_unsupported''" by (simp add: blank_iff py_space_def)
  then have blank: "\<not> list_ex blank (sorted_list_of_set (set gaps))"
    by (auto simp: list_ex_iff gaps_def engine_gap_not_blank split: if_splits)
  have none: "gaps = [] \<longleftrightarrow> report_executable r \<and> (\<forall>x \<in> set (pr_decisions r). engine_supports b (cd_requirement x))"
    by (auto simp: gaps_def report_executable_def engine_gaps_Nil)
  have "sorted_list_of_set (set gaps) = [] \<longleftrightarrow> gaps = []" by (simp add: sorted_list_of_set_eq_Nil_iff)
  then show ?thesis
    unfolding preflight_execution_capability_def gaps_def [symmetric] Let_def
    using assms blank none
    by (auto simp: mk_capability_preflight_def raising_Inr_iff digests_clean executable_def report_executable_def)
qed

end
