(* ===== verification/Execution_Admission.thy ===== *)
theory Execution_Admission
  imports Workers Runtime_Execution Lifecycle Execution_Capabilities
begin

text \<open>
  \<open>src/backend/app/strategy_lab_v2/execution.py\<close> and \<open>admission.py\<close>: the gates between a running attempt and a worker. Authorization binds the
  attempt to its trial, source, capability and lease; admission binds the authorization and an allowed
  runtime preflight to one reservation of a worker pool, and keeps a ledger of receipts.
\<close>

section \<open>Authorization\<close>

text \<open>\<open>StrategySourceValidation\<close>, and the two attributes of a \<open>ScientificTrial\<close> that are read here.\<close>

record source_validation =
  sv_source_digest :: string
  sv_violations :: "string list"

record trial_ref =
  st_trial_id :: string
  st_preflight_fingerprint :: string

record authorization =
  az_trial_id :: string
  az_attempt_id :: string
  az_source_digest :: string
  az_trial_preflight_fingerprint :: string
  az_capability_preflight_fingerprint :: string
  az_lease_id :: string
  az_lease_worker_id :: string
  az_authorized_at :: instant
  az_authoritative :: bool

definition mk_authorization ::
  "string \<Rightarrow> string \<Rightarrow> string \<Rightarrow> string \<Rightarrow> string \<Rightarrow> string \<Rightarrow> string \<Rightarrow> datetime \<Rightarrow> bool \<Rightarrow> authorization result" where
  "mk_authorization trial_id attempt_id source trial_fp capability_fp lease_id worker_id authorized_at authoritative =
     raising
       ([(blank trial_id, ''authorization trial_id must not be empty''),
         (blank attempt_id, ''authorization attempt_id must not be empty''),
         (blank source, ''authorization source_digest must not be empty''),
         (blank trial_fp, ''authorization trial_preflight_fingerprint must not be empty''),
         (blank capability_fp, ''authorization capability_preflight_fingerprint must not be empty''),
         (blank lease_id, ''authorization lease_id must not be empty''),
         (blank worker_id, ''authorization lease_worker_id must not be empty'')]
        @ digest_checks source ''source_digest'' @ digest_checks trial_fp ''trial_preflight_fingerprint''
        @ digest_checks capability_fp ''capability_preflight_fingerprint'')
       (with_aware authorized_at ''authorization time must be timezone-aware'' (\<lambda>authorized.
          Inr \<lparr>az_trial_id = trial_id, az_attempt_id = attempt_id, az_source_digest = source,
               az_trial_preflight_fingerprint = trial_fp, az_capability_preflight_fingerprint = capability_fp,
               az_lease_id = lease_id, az_lease_worker_id = worker_id, az_authorized_at = authorized,
               az_authoritative = authoritative\<rparr>))"

definition authorization_fingerprint :: "authorization \<Rightarrow> string" where
  "authorization_fingerprint z = digest (dataclass_py ''app.strategy_lab_v2.execution.ExecutionAuthorization''
     [(''trial_id'', PStr (az_trial_id z)),
      (''attempt_id'', PStr (az_attempt_id z)),
      (''source_digest'', PStr (az_source_digest z)),
      (''trial_preflight_fingerprint'', PStr (az_trial_preflight_fingerprint z)),
      (''capability_preflight_fingerprint'', PStr (az_capability_preflight_fingerprint z)),
      (''lease_id'', PStr (az_lease_id z)),
      (''lease_worker_id'', PStr (az_lease_worker_id z)),
      (''authorized_at'', time_py (az_authorized_at z)),
      (''authoritative'', PBool (az_authoritative z))])"

definition authorize_execution ::
  "trial_ref \<Rightarrow> run_attempt \<Rightarrow> source_validation \<Rightarrow> capability_preflight \<Rightarrow> attempt_lease \<Rightarrow> datetime
     \<Rightarrow> authorization result" where
  "authorize_execution trial attempt source capability lease now =
     with_aware now ''authorization time must be timezone-aware'' (\<lambda>_.
     raising
       [(ra_state attempt \<noteq> Attempt_RUNNING, ''execution authorization requires a running attempt''),
        (ra_trial_id attempt \<noteq> st_trial_id trial, ''execution attempt must reference the scientific trial''),
        (sv_violations source \<noteq> [], ''execution authorization requires accepted strategy source''),
        (cp_report_fingerprint capability \<noteq> st_preflight_fingerprint trial,
           ''execution capability must reference the trial preflight''),
        (\<not> executable capability, ''execution capability preflight is not executable''),
        (ls_attempt_id lease \<noteq> ra_attempt_id attempt, ''execution lease must reference the running attempt'')]
       (rbind (status_at lease now) (\<lambda>status.
        raising [(status \<noteq> Lease_ACTIVE, ''execution authorization requires an active lease'')]
          (mk_authorization (st_trial_id trial) (ra_attempt_id attempt) (sv_source_digest source)
             (st_preflight_fingerprint trial) (cp_binding_fingerprint capability) (ls_lease_id lease)
             (ls_worker_id lease) now (can_publish_authoritative_results capability)))))"

section \<open>Admission\<close>

fun worker_kind_value :: "worker_kind \<Rightarrow> string" where
  "worker_kind_value Worker_BACKTEST = ''backtest''"
| "worker_kind_value Worker_FORWARD = ''forward''"

record admission_request =
  aq_authorization_fingerprint :: string
  aq_runtime_request_fingerprint :: string
  aq_attempt_id :: string
  aq_worker_id :: string
  aq_worker_kind :: worker_kind
  aq_worker_profile_fingerprint :: string
  aq_reservation_id :: string
  aq_requested_at :: instant

definition mk_admission_request ::
  "string \<Rightarrow> string \<Rightarrow> string \<Rightarrow> string \<Rightarrow> worker_kind \<Rightarrow> string \<Rightarrow> string \<Rightarrow> datetime \<Rightarrow> admission_request result" where
  "mk_admission_request authorization_fp runtime_fp attempt_id worker_id kind profile_fp reservation_id requested_at =
     raising
       (digest_checks authorization_fp ''authorization_fingerprint''
        @ digest_checks runtime_fp ''runtime_request_fingerprint''
        @ digest_checks profile_fp ''worker_profile_fingerprint''
        @ digest_checks reservation_id ''reservation_id''
        @ [(blank attempt_id, ''attempt_id must not be empty''), (blank worker_id, ''worker_id must not be empty'')])
       (with_aware requested_at ''requested_at must be timezone-aware'' (\<lambda>requested.
          Inr \<lparr>aq_authorization_fingerprint = authorization_fp, aq_runtime_request_fingerprint = runtime_fp,
               aq_attempt_id = attempt_id, aq_worker_id = worker_id, aq_worker_kind = kind,
               aq_worker_profile_fingerprint = profile_fp, aq_reservation_id = reservation_id,
               aq_requested_at = requested\<rparr>))"

definition admission_request_fingerprint :: "admission_request \<Rightarrow> string" where
  "admission_request_fingerprint q = digest (PMapping
     [(''attempt_id'', PStr (aq_attempt_id q)),
      (''authorization_fingerprint'', PStr (aq_authorization_fingerprint q)),
      (''reservation_id'', PStr (aq_reservation_id q)),
      (''runtime_request_fingerprint'', PStr (aq_runtime_request_fingerprint q)),
      (''worker_id'', PStr (aq_worker_id q)),
      (''worker_kind'', PEnum ''app.strategy_lab_v2.workers.WorkerKind'' (PStr (worker_kind_value (aq_worker_kind q)))),
      (''worker_profile_fingerprint'', PStr (aq_worker_profile_fingerprint q))])"

record execution_admission =
  ad_request_fingerprint :: string
  ad_authorization_fingerprint :: string
  ad_runtime_request_fingerprint :: string
  ad_attempt_id :: string
  ad_worker_id :: string
  ad_worker_kind :: worker_kind
  ad_worker_profile_fingerprint :: string
  ad_reservation_id :: string
  ad_admitted_at :: instant
  ad_authoritative :: bool

definition mk_execution_admission ::
  "string \<Rightarrow> string \<Rightarrow> string \<Rightarrow> string \<Rightarrow> string \<Rightarrow> worker_kind \<Rightarrow> string \<Rightarrow> string \<Rightarrow> datetime \<Rightarrow> bool
     \<Rightarrow> execution_admission result" where
  "mk_execution_admission request_fp authorization_fp runtime_fp attempt_id worker_id kind profile_fp reservation_id
       admitted_at authoritative =
     raising
       (digest_checks request_fp ''request_fingerprint'' @ digest_checks authorization_fp ''authorization_fingerprint''
        @ digest_checks runtime_fp ''runtime_request_fingerprint''
        @ digest_checks profile_fp ''worker_profile_fingerprint'' @ digest_checks reservation_id ''reservation_id''
        @ [(blank attempt_id, ''attempt_id must not be empty''), (blank worker_id, ''worker_id must not be empty'')])
       (with_aware admitted_at ''admitted_at must be timezone-aware'' (\<lambda>admitted.
          Inr \<lparr>ad_request_fingerprint = request_fp, ad_authorization_fingerprint = authorization_fp,
               ad_runtime_request_fingerprint = runtime_fp, ad_attempt_id = attempt_id, ad_worker_id = worker_id,
               ad_worker_kind = kind, ad_worker_profile_fingerprint = profile_fp,
               ad_reservation_id = reservation_id, ad_admitted_at = admitted, ad_authoritative = authoritative\<rparr>))"

text \<open>The ledger is its one field, the admissions.\<close>

definition mk_admission_ledger :: "execution_admission list \<Rightarrow> execution_admission list result" where
  "mk_admission_ledger admissions =
     raising
       [(\<not> distinct (map ad_request_fingerprint admissions), ''admission request fingerprints must be unique''),
        (\<not> distinct (map ad_attempt_id admissions), ''an attempt may have only one admission receipt''),
        (\<not> distinct (map ad_reservation_id admissions), ''admission reservation ids must be unique'')]
       (Inr (sort_key ad_request_fingerprint admissions))"

datatype execution_admission_decision =
    Execution_ADMIT | Execution_REPLAY_EXISTING | Execution_SATURATED | Execution_CONFLICT | Execution_REJECT

record execution_admission_resolution =
  ex_decision :: execution_admission_decision
  ex_ledger :: "execution_admission list"
  ex_pool :: worker_pool
  ex_request_fingerprint :: string
  ex_admission :: "execution_admission option"
  ex_rejection_reason :: "string option"

definition mk_execution_admission_resolution ::
  "execution_admission_decision \<Rightarrow> execution_admission list \<Rightarrow> worker_pool \<Rightarrow> string \<Rightarrow> execution_admission option
     \<Rightarrow> string option \<Rightarrow> execution_admission_resolution result" where
  "mk_execution_admission_resolution decision ledger pool request_fp admission reason =
     raising
       (digest_checks request_fp ''request_fingerprint''
        @ [(decision \<in> {Execution_ADMIT, Execution_REPLAY_EXISTING} \<and> admission = None,
              ''admitted resolutions require an admission receipt''),
           (decision \<in> {Execution_CONFLICT, Execution_REJECT} \<and> no_reason reason,
              ''conflicts and rejections require a reason''),
           (decision \<in> {Execution_SATURATED, Execution_ADMIT, Execution_REPLAY_EXISTING} \<and> \<not> no_reason reason,
              ''non-rejected admission resolutions cannot contain a reason'')])
       (Inr \<lparr>ex_decision = decision, ex_ledger = ledger, ex_pool = pool, ex_request_fingerprint = request_fp,
             ex_admission = admission, ex_rejection_reason = reason\<rparr>)"

definition reject_admission ::
  "execution_admission list \<Rightarrow> worker_pool \<Rightarrow> string \<Rightarrow> string \<Rightarrow> execution_admission_resolution result" where
  "reject_admission ledger pool request_fp reason =
     mk_execution_admission_resolution Execution_REJECT ledger pool request_fp None (Some reason)"

definition resolve_execution_admission ::
  "execution_admission list \<Rightarrow> authorization \<Rightarrow> runtime_request \<Rightarrow> runtime_preflight \<Rightarrow> worker_pool \<Rightarrow> string \<Rightarrow> datetime
     \<Rightarrow> execution_admission_resolution result" where
  "resolve_execution_admission ledger authorization runtime preflight pool reservation_id now =
     raising (digest_checks reservation_id ''reservation_id'')
       (with_aware now ''admission time must be timezone-aware'' (\<lambda>t.
        rbind (mk_admission_request (authorization_fingerprint authorization) (runtime_request_fingerprint runtime)
                 (az_attempt_id authorization) (wf_worker_id (wp_profile pool)) (wf_kind (wp_profile pool))
                 (wf_runtime_profile_fingerprint (wp_profile pool)) reservation_id now) (\<lambda>request.
        let fp = admission_request_fingerprint request;
            rejected = reject_admission ledger pool fp;
            profile = wp_profile pool
        in if t < az_authorized_at authorization then rejected ''admission time cannot precede authorization''
           else if t < rq_submitted_at runtime then rejected ''admission time cannot precede runtime submission''
           else if az_attempt_id authorization \<noteq> rq_attempt_id runtime then
             rejected ''authorization and runtime request reference different attempts''
           else if az_source_digest authorization \<noteq> rq_source_digest runtime then
             rejected ''authorization and runtime source digests differ''
           else if az_lease_worker_id authorization \<noteq> wf_worker_id profile then
             rejected ''authorization lease is bound to a different worker''
           else if rq_runtime_profile_fingerprint runtime \<noteq> wf_runtime_profile_fingerprint profile then
             rejected ''runtime request profile does not match worker profile''
           else if rf_request_fingerprint preflight \<noteq> runtime_request_fingerprint runtime then
             rejected ''runtime preflight references a different request''
           else if rf_profile_fingerprint preflight \<noteq> wf_runtime_profile_fingerprint profile then
             rejected ''runtime preflight profile does not match worker profile''
           else if rf_decision preflight \<noteq> Runtime_ALLOW then rejected ''runtime preflight is not accepted''
           else case find (\<lambda>ad. ad_attempt_id ad = aq_attempt_id request) ledger of
             Some existing \<Rightarrow>
               if ad_request_fingerprint existing \<noteq> fp then
                 mk_execution_admission_resolution Execution_CONFLICT ledger pool fp None
                   (Some ''attempt is already bound to different admission content'')
               else if find (\<lambda>r. wr_reservation_id r = ad_reservation_id existing
                        \<and> wr_attempt_id r = ad_attempt_id existing) (active_reservations pool) = None then
                 rejected ''admission receipt is missing its active worker reservation''
               else mk_execution_admission_resolution Execution_REPLAY_EXISTING ledger pool fp (Some existing) None
           | None \<Rightarrow>
               rbind (reserve_worker_slot pool (aq_attempt_id request) (aq_reservation_id request) now) (\<lambda>x.
                 if wx_decision x = Reserve_SATURATED then
                   mk_execution_admission_resolution Execution_SATURATED ledger pool fp None None
                 else if wx_decision x = Reserve_REJECT then
                   rejected (reason_or (wx_rejection_reason x) ''worker reservation rejected'')
                 else if wx_decision x = Reserve_REPLAY_EXISTING then
                   rejected ''worker reservation exists without an admission receipt''
                 else case wx_reservation x of
                   None \<Rightarrow> Inl AssertionError
                 | Some r \<Rightarrow>
                     rbind (mk_execution_admission fp (aq_authorization_fingerprint request)
                              (aq_runtime_request_fingerprint request) (aq_attempt_id request) (aq_worker_id request)
                              (aq_worker_kind request) (aq_worker_profile_fingerprint request) (wr_reservation_id r)
                              now (az_authoritative authorization)) (\<lambda>admission.
                     rbind (mk_admission_ledger (ledger @ [admission])) (\<lambda>next.
                       mk_execution_admission_resolution Execution_ADMIT next (wx_pool x) fp (Some admission) None))))))"

section \<open>What the constructors establish\<close>

definition authorization_ok :: "authorization \<Rightarrow> bool" where
  "authorization_ok z \<longleftrightarrow> \<not> blank (az_trial_id z) \<and> \<not> blank (az_attempt_id z) \<and> is_digest (az_source_digest z)
     \<and> is_digest (az_trial_preflight_fingerprint z) \<and> is_digest (az_capability_preflight_fingerprint z)
     \<and> \<not> blank (az_lease_id z) \<and> \<not> blank (az_lease_worker_id z)"

definition admission_ok :: "execution_admission \<Rightarrow> bool" where
  "admission_ok ad \<longleftrightarrow> is_digest (ad_request_fingerprint ad) \<and> is_digest (ad_authorization_fingerprint ad)
     \<and> is_digest (ad_runtime_request_fingerprint ad) \<and> is_digest (ad_worker_profile_fingerprint ad)
     \<and> is_digest (ad_reservation_id ad) \<and> \<not> blank (ad_attempt_id ad) \<and> \<not> blank (ad_worker_id ad)"

definition admission_ledger_ok :: "execution_admission list \<Rightarrow> bool" where
  "admission_ledger_ok l \<longleftrightarrow> (\<forall>ad \<in> set l. admission_ok ad) \<and> distinct (map ad_request_fingerprint l)
     \<and> distinct (map ad_attempt_id l) \<and> distinct (map ad_reservation_id l) \<and> sorted (map ad_request_fingerprint l)"

text \<open>The ledger and the pool are persisted together: every reservation that still runs has its receipt.\<close>

definition receipted :: "execution_admission list \<Rightarrow> worker_pool \<Rightarrow> bool" where
  "receipted l p \<longleftrightarrow> (\<forall>r \<in> set (active_reservations p). \<exists>ad \<in> set l.
     ad_reservation_id ad = wr_reservation_id r \<and> ad_attempt_id ad = wr_attempt_id r \<and> ad_worker_id ad = wr_worker_id r)"

type_synonym admission_state = "execution_admission list \<times> worker_pool"

definition admission_state_ok :: "admission_state \<Rightarrow> bool" where
  "admission_state_ok s \<longleftrightarrow> admission_ledger_ok (fst s) \<and> worker_pool_ok (snd s) \<and> receipted (fst s) (snd s)"

definition admission_state_le :: "admission_state \<Rightarrow> admission_state \<Rightarrow> bool" where
  "admission_state_le s t \<longleftrightarrow> set (fst s) \<subseteq> set (fst t) \<and> worker_le (snd s) (snd t)"

text \<open>The gates before the ledger is consulted.\<close>

definition admission_gates ::
  "instant \<Rightarrow> authorization \<Rightarrow> runtime_request \<Rightarrow> runtime_preflight \<Rightarrow> worker_pool \<Rightarrow> bool" where
  "admission_gates t z q f p \<longleftrightarrow> az_authorized_at z \<le> t \<and> rq_submitted_at q \<le> t
     \<and> az_attempt_id z = rq_attempt_id q \<and> az_source_digest z = rq_source_digest q
     \<and> az_lease_worker_id z = wf_worker_id (wp_profile p)
     \<and> rq_runtime_profile_fingerprint q = wf_runtime_profile_fingerprint (wp_profile p)
     \<and> rf_request_fingerprint f = runtime_request_fingerprint q
     \<and> rf_profile_fingerprint f = wf_runtime_profile_fingerprint (wp_profile p)
     \<and> rf_decision f = Runtime_ALLOW"

definition intent :: "authorization \<Rightarrow> runtime_request \<Rightarrow> worker_pool \<Rightarrow> string \<Rightarrow> instant \<Rightarrow> admission_request" where
  "intent z q p i t = \<lparr>aq_authorization_fingerprint = authorization_fingerprint z,
     aq_runtime_request_fingerprint = runtime_request_fingerprint q, aq_attempt_id = az_attempt_id z,
     aq_worker_id = wf_worker_id (wp_profile p), aq_worker_kind = wf_kind (wp_profile p),
     aq_worker_profile_fingerprint = wf_runtime_profile_fingerprint (wp_profile p), aq_reservation_id = i,
     aq_requested_at = t\<rparr>"

definition receipt_for ::
  "authorization \<Rightarrow> runtime_request \<Rightarrow> worker_pool \<Rightarrow> string \<Rightarrow> instant \<Rightarrow> execution_admission" where
  "receipt_for z q p i t = \<lparr>ad_request_fingerprint = admission_request_fingerprint (intent z q p i t),
     ad_authorization_fingerprint = authorization_fingerprint z,
     ad_runtime_request_fingerprint = runtime_request_fingerprint q, ad_attempt_id = az_attempt_id z,
     ad_worker_id = wf_worker_id (wp_profile p), ad_worker_kind = wf_kind (wp_profile p),
     ad_worker_profile_fingerprint = wf_runtime_profile_fingerprint (wp_profile p), ad_reservation_id = i,
     ad_admitted_at = t, ad_authoritative = az_authoritative z\<rparr>"

lemma admission_digests [simp]:
  "is_digest (authorization_fingerprint z)" "is_digest (admission_request_fingerprint q)"
  by (simp_all add: authorization_fingerprint_def admission_request_fingerprint_def is_digest_digest)

lemma mk_authorization_ok: "mk_authorization t a s tf cf l w now b = Inr z \<Longrightarrow> authorization_ok z"
  by (auto simp: mk_authorization_def raising_Inr_iff with_aware_eq_Inr digests_clean authorization_ok_def)

lemma mk_intent:
  assumes "worker_pool_ok p"
  shows "mk_admission_request (authorization_fingerprint z) (runtime_request_fingerprint q) (az_attempt_id z)
     (wf_worker_id (wp_profile p)) (wf_kind (wp_profile p)) (wf_runtime_profile_fingerprint (wp_profile p)) i now = Inr r
   \<longleftrightarrow> \<not> blank (az_attempt_id z) \<and> is_digest i \<and> (\<exists>t zn. now = Aware t zn \<and> r = intent z q p i t)"
  using assms
  by (auto simp: mk_admission_request_def raising_Inr_iff with_aware_eq_Inr digests_clean intent_def
      worker_pool_ok_def worker_profile_ok_def)

lemma mk_receipt:
  assumes "worker_pool_ok p" "is_digest i" "\<not> blank (az_attempt_id z)"
  shows "mk_execution_admission (admission_request_fingerprint (intent z q p i t)) (authorization_fingerprint z)
     (runtime_request_fingerprint q) (az_attempt_id z) (wf_worker_id (wp_profile p)) (wf_kind (wp_profile p))
     (wf_runtime_profile_fingerprint (wp_profile p)) i (Aware t zn) (az_authoritative z) = Inr (receipt_for z q p i t)"
    "admission_ok (receipt_for z q p i t)"
  using assms
  by (auto simp: mk_execution_admission_def raising_Inr_iff digests_clean receipt_for_def admission_ok_def
      worker_pool_ok_def worker_profile_ok_def)

lemma mk_admission_ledger_Inr:
  "mk_admission_ledger ads = Inr l \<longleftrightarrow> l = sort_key ad_request_fingerprint ads
     \<and> distinct (map ad_request_fingerprint ads) \<and> distinct (map ad_attempt_id ads) \<and> distinct (map ad_reservation_id ads)"
  by (auto simp: mk_admission_ledger_def contract_simps)

lemma mk_admission_ledger_ok:
  assumes "mk_admission_ledger ads = Inr l" "\<forall>ad \<in> set ads. admission_ok ad"
  shows "admission_ledger_ok l \<and> set l = set ads"
proof -
  have d: "distinct (map g (sort_key ad_request_fingerprint ads)) \<longleftrightarrow> distinct (map g ads)"
    for g :: "execution_admission \<Rightarrow> string"
    by (simp add: distinct_map)
  from assms show ?thesis by (simp add: mk_admission_ledger_Inr admission_ledger_ok_def d)
qed

lemma mk_execution_admission_resolution_simps:
  "is_digest fp \<Longrightarrow> mk_execution_admission_resolution Execution_ADMIT l p fp (Some ad) None = Inr \<lparr>ex_decision = Execution_ADMIT,
     ex_ledger = l, ex_pool = p, ex_request_fingerprint = fp, ex_admission = Some ad, ex_rejection_reason = None\<rparr>"
  "is_digest fp \<Longrightarrow> mk_execution_admission_resolution Execution_REPLAY_EXISTING l p fp (Some ad) None
     = Inr \<lparr>ex_decision = Execution_REPLAY_EXISTING,
     ex_ledger = l, ex_pool = p, ex_request_fingerprint = fp, ex_admission = Some ad, ex_rejection_reason = None\<rparr>"
  "is_digest fp \<Longrightarrow> mk_execution_admission_resolution Execution_SATURATED l p fp None None = Inr \<lparr>ex_decision = Execution_SATURATED,
     ex_ledger = l, ex_pool = p, ex_request_fingerprint = fp, ex_admission = None, ex_rejection_reason = None\<rparr>"
  "is_digest fp \<Longrightarrow> m \<noteq> [] \<Longrightarrow> mk_execution_admission_resolution Execution_CONFLICT l p fp None (Some m)
     = Inr \<lparr>ex_decision = Execution_CONFLICT,
     ex_ledger = l, ex_pool = p, ex_request_fingerprint = fp, ex_admission = None, ex_rejection_reason = Some m\<rparr>"
  "is_digest fp \<Longrightarrow> m \<noteq> [] \<Longrightarrow> reject_admission l p fp m = Inr \<lparr>ex_decision = Execution_REJECT,
     ex_ledger = l, ex_pool = p, ex_request_fingerprint = fp, ex_admission = None, ex_rejection_reason = Some m\<rparr>"
  by (simp_all add: mk_execution_admission_resolution_def reject_admission_def raising_Inr_iff digests_clean no_reason_def)

section \<open>How a resolution comes about\<close>

lemma reserve_accepts_safe:
  "reserve_worker_slot p a i now = Inr w \<Longrightarrow> wx_decision w = Reserve_ACCEPT \<Longrightarrow> safe_worker (wf_kind (wp_profile p)) p"
  by (auto simp: reserve_worker_slot_def safe_worker_def Let_def contract_simps split: if_splits
      dest: mk_worker_reservation_resolution_Inr)

lemma reserve_accepted_id:
  "reserve_worker_slot p a i now = Inr w \<Longrightarrow> wx_decision w = Reserve_ACCEPT \<Longrightarrow>
     \<exists>r. wx_reservation w = Some r \<and> wr_reservation_id r = i \<and> wr_attempt_id r = a \<and> active r"
  by (auto simp: reserve_worker_slot_def Let_def contract_simps mk_worker_reservation_def active_def
      split: if_splits option.splits dest!: mk_worker_reservation_resolution_Inr)

lemma reserve_accepted:
  assumes ok: "worker_pool_ok p" and w: "reserve_worker_slot p a i now = Inr w" "wx_decision w = Reserve_ACCEPT"
  shows "sl_holder (slot_of (wx_pool w)) = Some (i, a) \<and> sl_holder (slot_of p) = None
     \<and> worker_pool_ok (wx_pool w) \<and> worker_le p (wx_pool w) \<and> wp_profile (wx_pool w) = wp_profile p"
proof -
  obtain t z where now: "\<not> blank a" "is_digest i" "now = Aware t z" using reserve_inputs [OF w(1)] by blast
  note refined = reserve_refines [OF ok reserve_accepts_safe [OF w] now(1,2), of t z]
  have "slot_reserve a i (slot_of p) = (Reserve_ACCEPT, slot_of (wx_pool w))"
    using refined w now(3) by auto
  then have "sl_holder (slot_of (wx_pool w)) = Some (i, a) \<and> sl_holder (slot_of p) = None"
    by (auto simp: slot_reserve_def split: if_splits option.splits) (metis slot.select_convs(1))
  moreover have "wp_profile (wx_pool w) = wp_profile p" using refined w now(3) by auto
  ultimately show ?thesis using reserve_step [OF ok w(1)] by blast
qed

lemma resolution_fields:
  "mk_execution_admission_resolution d l p fp ad m = Inr x \<Longrightarrow>
     ex_decision x = d \<and> ex_ledger x = l \<and> ex_pool x = p \<and> ex_admission x = ad"
  "reject_admission l p fp r = Inr x \<Longrightarrow>
     ex_decision x = Execution_REJECT \<and> ex_ledger x = l \<and> ex_pool x = p \<and> ex_admission x = None"
  by (auto simp: mk_execution_admission_resolution_def reject_admission_def raising_Inr_iff)

lemma refused_first:
  "k \<noteq> [] \<Longrightarrow> (\<not> c \<Longrightarrow> \<exists>m. m \<noteq> [] \<and> x = f m) \<Longrightarrow> \<exists>m. m \<noteq> [] \<and> (if c then f k else x) = f m"
  by auto

lemma admission_inputs:
  assumes "worker_pool_ok p" "resolve_execution_admission l z q f p i now = Inr x"
  shows "is_digest i \<and> \<not> blank (az_attempt_id z) \<and> (\<exists>t zn. now = Aware t zn)"
  using assms by (auto simp: resolve_execution_admission_def raising_Inr_iff digests_clean with_aware_eq_Inr mk_intent)

lemma admission_entry:
  assumes "worker_pool_ok p" "is_digest i" "\<not> blank (az_attempt_id z)"
  shows "raising (digest_checks i ''reservation_id'') k = k"
    "mk_admission_request (authorization_fingerprint z) (runtime_request_fingerprint q) (az_attempt_id z)
       (wf_worker_id (wp_profile p)) (wf_kind (wp_profile p)) (wf_runtime_profile_fingerprint (wp_profile p)) i (Aware t zn)
     = Inr (intent z q p i t)"
proof -
  show "raising (digest_checks i ''reservation_id'') k = k"
    using assms(2) by (simp add: raising.simps digest_checks_def is_digest_def)
qed (use assms in \<open>subst mk_intent; auto\<close>)

lemma gates_closed:
  assumes ok: "worker_pool_ok p" "is_digest i" "\<not> blank (az_attempt_id z)" and closed: "\<not> admission_gates t z q f p"
  shows "\<exists>m. m \<noteq> [] \<and> resolve_execution_admission l z q f p i (Aware t zn)
     = reject_admission l p (admission_request_fingerprint (intent z q p i t)) m"
  unfolding resolve_execution_admission_def admission_entry [OF ok] with_aware.simps rbind.simps Let_def
  by (intro refused_first) (use closed in \<open>simp_all add: admission_gates_def\<close>)

lemma gates_open:
  assumes ok: "worker_pool_ok p" "is_digest i" "\<not> blank (az_attempt_id z)" and gates: "admission_gates t z q f p"
  defines "fp \<equiv> admission_request_fingerprint (intent z q p i t)"
  shows "resolve_execution_admission l z q f p i (Aware t zn) =
    (case find (\<lambda>ad. ad_attempt_id ad = az_attempt_id z) l of
       Some ad \<Rightarrow>
         if ad_request_fingerprint ad \<noteq> fp then
           mk_execution_admission_resolution Execution_CONFLICT l p fp None
             (Some ''attempt is already bound to different admission content'')
         else if find (\<lambda>r. wr_reservation_id r = ad_reservation_id ad \<and> wr_attempt_id r = ad_attempt_id ad)
                   (active_reservations p) = None then
           reject_admission l p fp ''admission receipt is missing its active worker reservation''
         else mk_execution_admission_resolution Execution_REPLAY_EXISTING l p fp (Some ad) None
     | None \<Rightarrow>
         rbind (reserve_worker_slot p (az_attempt_id z) i (Aware t zn)) (\<lambda>x.
           if wx_decision x = Reserve_SATURATED then mk_execution_admission_resolution Execution_SATURATED l p fp None None
           else if wx_decision x = Reserve_REJECT then
             reject_admission l p fp (reason_or (wx_rejection_reason x) ''worker reservation rejected'')
           else if wx_decision x = Reserve_REPLAY_EXISTING then
             reject_admission l p fp ''worker reservation exists without an admission receipt''
           else rbind (mk_admission_ledger (l @ [receipt_for z q p i t])) (\<lambda>next.
                  mk_execution_admission_resolution Execution_ADMIT next (wx_pool x) fp (Some (receipt_for z q p i t)) None)))"
proof -
  have accepted: "(case wx_reservation x of None \<Rightarrow> Inl AssertionError | Some r \<Rightarrow>
       rbind (mk_execution_admission fp (authorization_fingerprint z) (runtime_request_fingerprint q) (az_attempt_id z)
         (wf_worker_id (wp_profile p)) (wf_kind (wp_profile p)) (wf_runtime_profile_fingerprint (wp_profile p))
         (wr_reservation_id r) (Aware t zn) (az_authoritative z)) k) = k (receipt_for z q p i t)"
    if x: "reserve_worker_slot p (az_attempt_id z) i (Aware t zn) = Inr x" "wx_decision x \<noteq> Reserve_SATURATED"
      "wx_decision x \<noteq> Reserve_REJECT" "wx_decision x \<noteq> Reserve_REPLAY_EXISTING" for x
      and k :: "execution_admission \<Rightarrow> execution_admission_resolution result"
  proof -
    have "wx_decision x = Reserve_ACCEPT" using x(2-4) by (cases "wx_decision x") auto
    then obtain r where "wx_reservation x = Some r" "wr_reservation_id r = i" using reserve_accepted_id [OF x(1)] by blast
    then show ?thesis using mk_receipt(1) [OF ok] by (simp add: fp_def)
  qed
  have g: "\<not> t < az_authorized_at z" "\<not> t < rq_submitted_at q" "az_attempt_id z = rq_attempt_id q"
    "az_source_digest z = rq_source_digest q" "az_lease_worker_id z = wf_worker_id (wp_profile p)"
    "rq_runtime_profile_fingerprint q = wf_runtime_profile_fingerprint (wp_profile p)"
    "rf_request_fingerprint f = runtime_request_fingerprint q"
    "rf_profile_fingerprint f = wf_runtime_profile_fingerprint (wp_profile p)" "rf_decision f = Runtime_ALLOW"
    using gates by (simp_all add: admission_gates_def)
  show ?thesis
    unfolding resolve_execution_admission_def admission_entry [OF ok] with_aware.simps rbind.simps Let_def fp_def [symmetric]
    using g accepted
    by (cases "reserve_worker_slot p (az_attempt_id z) i (Aware t zn)")
      (simp_all add: intent_def cong: option.case_cong if_cong)
qed

lemma resolution_cases:
  assumes ok: "worker_pool_ok p" and x: "resolve_execution_admission l z q f p i now = Inr x"
  obtains (declined) "ex_ledger x = l" "ex_pool x = p" "ex_admission x = None"
      "ex_decision x \<in> {Execution_CONFLICT, Execution_REJECT, Execution_SATURATED}"
      "ex_decision x = Execution_SATURATED \<Longrightarrow> find (\<lambda>ad. ad_attempt_id ad = az_attempt_id z) l = None"
  | (replayed) t zn ad r where "now = Aware t zn" "admission_gates t z q f p" "ex_ledger x = l" "ex_pool x = p"
      "ex_decision x = Execution_REPLAY_EXISTING" "ex_admission x = Some ad" "ad \<in> set l" "ad_attempt_id ad = az_attempt_id z"
      "r \<in> set (active_reservations p)" "wr_reservation_id r = ad_reservation_id ad" "wr_attempt_id r = ad_attempt_id ad"
  | (admitted) t zn w where "now = Aware t zn" "admission_gates t z q f p" "az_attempt_id z \<notin> ad_attempt_id ` set l"
      "reserve_worker_slot p (az_attempt_id z) i now = Inr w" "wx_decision w = Reserve_ACCEPT"
      "mk_admission_ledger (l @ [receipt_for z q p i t]) = Inr (ex_ledger x)" "ex_pool x = wx_pool w"
      "ex_decision x = Execution_ADMIT" "ex_admission x = Some (receipt_for z q p i t)"
      "admission_ok (receipt_for z q p i t)"
proof -
  obtain t zn where i: "is_digest i" "\<not> blank (az_attempt_id z)" and now: "now = Aware t zn"
    using admission_inputs [OF ok x] by blast
  show thesis
  proof (cases "admission_gates t z q f p")
    case False
    then obtain m where "reject_admission l p (admission_request_fingerprint (intent z q p i t)) m = Inr x"
      using gates_closed [OF ok i False] x now by metis
    from resolution_fields(2) [OF this] show thesis by (intro declined) auto
  next
    case True
    note run = x [unfolded now gates_open [OF ok i True]]
    show thesis
    proof (cases "find (\<lambda>ad. ad_attempt_id ad = az_attempt_id z) l")
      case (Some ad)
      then have ad: "ad \<in> set l" "ad_attempt_id ad = az_attempt_id z" by (auto simp: find_Some_iff)
      let ?held = "find (\<lambda>r. wr_reservation_id r = ad_reservation_id ad \<and> wr_attempt_id r = ad_attempt_id ad)
        (active_reservations p)"
      show thesis
      proof (cases "ad_request_fingerprint ad = admission_request_fingerprint (intent z q p i t) \<and> ?held \<noteq> None")
        case True
        then obtain r where r: "?held = Some r" by blast
        then have "r \<in> set (active_reservations p)" "wr_reservation_id r = ad_reservation_id ad" "wr_attempt_id r = ad_attempt_id ad"
          by (auto simp: find_Some_iff)
        with run Some True \<open>admission_gates t z q f p\<close> ad now show thesis
          by (intro replayed [of t zn ad r]) (auto dest!: resolution_fields)
      next
        case False
        have "ex_decision x \<in> {Execution_CONFLICT, Execution_REJECT} \<and> ex_ledger x = l \<and> ex_pool x = p \<and> ex_admission x = None"
          using run Some False by (auto split: if_splits dest!: resolution_fields)
        then show thesis by (intro declined) auto
      qed
    next
      case None
      then have new: "az_attempt_id z \<notin> ad_attempt_id ` set l" by (auto simp: find_None_iff)
      from run None obtain w where w: "reserve_worker_slot p (az_attempt_id z) i (Aware t zn) = Inr w" by auto
      show thesis
      proof (cases "wx_decision w")
        case Reserve_ACCEPT
        with run None w show thesis
          by (auto dest!: resolution_fields intro: admitted [OF now True new w [folded now]] mk_receipt(2) [OF ok i])
      qed (use run None w in \<open>auto dest!: resolution_fields intro: declined\<close>)
    qed
  qed
qed

lemma holder_active:
  assumes "worker_pool_ok p" "r \<in> set (active_reservations p)"
  shows "sl_holder (slot_of p) = Some (wr_reservation_id r, wr_attempt_id r)"
  using assms by (cases "active_reservations p") (auto simp: slot_of_def worker_pool_ok_def)

lemma receipted_holder:
  assumes "worker_pool_ok p"
  shows "receipted l p \<longleftrightarrow> (\<forall>i a. sl_holder (slot_of p) = Some (i, a) \<longrightarrow>
    (\<exists>ad \<in> set l. ad_reservation_id ad = i \<and> ad_attempt_id ad = a \<and> ad_worker_id ad = wf_worker_id (wp_profile p)))"
proof -
  have w: "wr_worker_id r = wf_worker_id (wp_profile p)" if "r \<in> set (active_reservations p)" for r
    using that assms by (auto simp: active_reservations_def worker_pool_ok_def)
  show ?thesis
    using assms w
    by (cases "active_reservations p") (auto simp: receipted_def slot_of_def worker_pool_ok_def)
qed

lemma admission_keeps:
  assumes ok: "admission_state_ok (l, p)" and x: "resolve_execution_admission l z q f p i now = Inr x"
  shows "admission_state_ok (ex_ledger x, ex_pool x) \<and> admission_state_le (l, p) (ex_ledger x, ex_pool x)"
proof -
  have l: "admission_ledger_ok l" and p: "worker_pool_ok p" and r: "receipted l p"
    using ok by (simp_all add: admission_state_ok_def)
  from p x show ?thesis
  proof (cases rule: resolution_cases)
    case (admitted t zn w)
    have "\<forall>ad \<in> set (l @ [receipt_for z q p i t]). admission_ok ad"
      using l admitted(10) by (auto simp: admission_ledger_ok_def)
    from mk_admission_ledger_ok [OF admitted(6) this]
    have l': "admission_ledger_ok (ex_ledger x)" "set (ex_ledger x) = insert (receipt_for z q p i t) (set l)" by auto
    note w = reserve_accepted [OF p admitted(4,5)]
    then have "receipted (ex_ledger x) (ex_pool x)"
      using l'(2) admitted(7) by (auto simp: receipted_holder receipt_for_def)
    with l' w admitted(7) show ?thesis by (auto simp: admission_state_ok_def admission_state_le_def)
  qed (use ok in \<open>auto simp: admission_state_le_def worker_pools.le_refl\<close>)
qed

section \<open>Serving admissions and releases\<close>

datatype admission_action =
    Admit authorization runtime_request runtime_preflight string datetime
  | Retire string datetime

fun admission_step :: "admission_action \<Rightarrow> admission_state \<Rightarrow> admission_state result" where
  "admission_step (Admit z q f i now) s =
     rbind (resolve_execution_admission (fst s) z q f (snd s) i now) (\<lambda>x. Inr (ex_ledger x, ex_pool x))"
| "admission_step (Retire i now) s = rbind (release_worker_slot (snd s) i now) (\<lambda>p. Inr (fst s, p))"

lemma retire_keeps:
  assumes ok: "admission_state_ok (l, p)" and q: "release_worker_slot p i now = Inr q"
  shows "admission_state_ok (l, q) \<and> admission_state_le (l, p) (l, q)"
proof -
  have p: "worker_pool_ok p" using ok by (simp add: admission_state_ok_def)
  note r = release_step [OF p q]
  then have "wp_profile q = wp_profile p" by (simp add: worker_le_def)
  with r p ok show ?thesis
    by (auto simp: admission_state_ok_def admission_state_le_def receipted_holder slot_release_def split: if_splits)
qed

interpretation admissions_ledger: guarded_machine admission_step admission_state_ok admission_state_le
proof
  fix s r s'
  assume "admission_state_ok s" "admission_step r s = Inr s'"
  then show "admission_state_ok s'" "admission_state_le s s'"
    by (cases r; cases s; auto dest: admission_keeps retire_keeps)+
next
  fix s t u
  show "admission_state_le s s" by (simp add: admission_state_le_def worker_pools.le_refl)
  show "admission_state_le s t \<Longrightarrow> admission_state_le t u \<Longrightarrow> admission_state_le s u"
    by (auto simp: admission_state_le_def intro: worker_pools.le_trans)
qed

section \<open>Authorization and admission together\<close>

text \<open>When an attempt is authorized: it runs, its trial, source, capability and lease agree with it, and the
  lease is active.\<close>

definition execution_ready ::
  "trial_ref \<Rightarrow> run_attempt \<Rightarrow> source_validation \<Rightarrow> capability_preflight \<Rightarrow> attempt_lease \<Rightarrow> instant \<Rightarrow> bool" where
  "execution_ready tr a src cap lease t \<longleftrightarrow> ra_state a = Attempt_RUNNING \<and> ra_trial_id a = st_trial_id tr
     \<and> sv_violations src = [] \<and> cp_report_fingerprint cap = st_preflight_fingerprint tr \<and> executable cap
     \<and> ls_attempt_id lease = ra_attempt_id a \<and> status_at lease (utc t) = Inr Lease_ACTIVE"

definition authorized ::
  "trial_ref \<Rightarrow> run_attempt \<Rightarrow> source_validation \<Rightarrow> capability_preflight \<Rightarrow> attempt_lease \<Rightarrow> instant \<Rightarrow> authorization" where
  "authorized tr a src cap lease t = \<lparr>az_trial_id = st_trial_id tr, az_attempt_id = ra_attempt_id a,
     az_source_digest = sv_source_digest src, az_trial_preflight_fingerprint = st_preflight_fingerprint tr,
     az_capability_preflight_fingerprint = cp_binding_fingerprint cap, az_lease_id = ls_lease_id lease,
     az_lease_worker_id = ls_worker_id lease, az_authorized_at = t,
     az_authoritative = can_publish_authoritative_results cap\<rparr>"

text \<open>What the constructors of the arguments establish.\<close>

definition authorizable ::
  "trial_ref \<Rightarrow> run_attempt \<Rightarrow> source_validation \<Rightarrow> capability_preflight \<Rightarrow> attempt_lease \<Rightarrow> bool" where
  "authorizable tr a src cap lease \<longleftrightarrow> run_attempt_ok a \<and> is_digest (sv_source_digest src)
     \<and> is_digest (st_preflight_fingerprint tr) \<and> is_digest (cp_binding_fingerprint cap) \<and> attempt_lease_ok lease"

lemma authorize_execution_iff:
  assumes "authorizable tr a src cap lease"
  shows "authorize_execution tr a src cap lease now = Inr z \<longleftrightarrow>
    (\<exists>t zn. now = Aware t zn \<and> execution_ready tr a src cap lease t \<and> z = authorized tr a src cap lease t)"
proof -
  have status: "status_at lease (Aware t zn) = status_at lease (utc t)" for t zn
    by (simp add: status_at_def utc_def)
  show ?thesis
    using assms
    by (auto simp: authorize_execution_def mk_authorization_def raising_Inr_iff with_aware_eq_Inr digests_clean
        execution_ready_def authorized_def authorizable_def run_attempt_ok_def attempt_lease_ok_def is_digest_not_blank status)
qed

lemma fresh_ledger:
  assumes "admission_ledger_ok l" "ad_attempt_id ad \<notin> ad_attempt_id ` set l" "ad_reservation_id ad \<notin> ad_reservation_id ` set l"
    "ad_request_fingerprint ad \<notin> ad_request_fingerprint ` set l"
  shows "mk_admission_ledger (l @ [ad]) = Inr (sort_key ad_request_fingerprint (l @ [ad]))"
  using assms by (auto simp: mk_admission_ledger_Inr admission_ledger_ok_def)

lemma fresh_admission:
  assumes ok: "admission_state_ok (l, p)" and safe: "safe_worker k p" and idle: "sl_holder (slot_of p) = None"
    and i: "is_digest i" "i \<notin> sl_used (slot_of p)" "i \<notin> ad_reservation_id ` set l" and z: "\<not> blank (az_attempt_id z)"
    and gates: "admission_gates t z q f p" and new: "az_attempt_id z \<notin> ad_attempt_id ` set l"
      "admission_request_fingerprint (intent z q p i t) \<notin> ad_request_fingerprint ` set l"
  shows "\<exists>x. resolve_execution_admission l z q f p i (Aware t zn) = Inr x \<and> ex_decision x = Execution_ADMIT
    \<and> ex_admission x = Some (receipt_for z q p i t)"
proof -
  have l: "admission_ledger_ok l" and p: "worker_pool_ok p" using ok by (simp_all add: admission_state_ok_def)
  have "fst (slot_reserve (az_attempt_id z) i (slot_of p)) = Reserve_ACCEPT" using idle i by (simp add: slot_reserve_def)
  then obtain w where w: "reserve_worker_slot p (az_attempt_id z) i (Aware t zn) = Inr w" "wx_decision w = Reserve_ACCEPT"
    using reserve_refines [OF p safe z i(1), of t zn] by (metis fst_conv)
  have "find (\<lambda>ad. ad_attempt_id ad = az_attempt_id z) l = None" using new(1) by (force simp: find_None_iff)
  moreover have "mk_admission_ledger (l @ [receipt_for z q p i t])
      = Inr (sort_key ad_request_fingerprint (l @ [receipt_for z q p i t]))"
    using new i(3) by (intro fresh_ledger [OF l]) (simp_all add: receipt_for_def)
  ultimately show ?thesis
    using w by (simp add: gates_open [OF p i(1) z gates] mk_execution_admission_resolution_simps)
qed

section \<open>Properties\<close>

text \<open>An attempt that passes every gate on an idle worker.\<close>

definition sample_trial :: trial_ref where
  "sample_trial = \<lparr>st_trial_id = ''t-1'', st_preflight_fingerprint = digest_text ''f''\<rparr>"

definition sample_running :: run_attempt where
  "sample_running = \<lparr>ra_attempt_id = ''a-1'', ra_trial_id = ''t-1'', ra_ordinal = 1, ra_state = Attempt_RUNNING,
     ra_created_at = 0, ra_updated_at = 0\<rparr>"

definition sample_source :: source_validation where
  "sample_source = \<lparr>sv_source_digest = digest_text ''s'', sv_violations = []\<rparr>"

definition sample_capability :: capability_preflight where
  "sample_capability = \<lparr>cp_report_fingerprint = digest_text ''f'', cp_binding_fingerprint = digest_text ''c'',
     cp_classification = Preflight_RIGOROUS, cp_gaps = [], cp_authoritative = True\<rparr>"

definition sample_held_lease :: attempt_lease where
  "sample_held_lease = \<lparr>ls_attempt_id = ''a-1'', ls_worker_id = ''w-1'', ls_lease_id = ''l-1'', ls_leased_at = 0,
     ls_heartbeat_at = 0, ls_expires_at = 100, ls_released_at = None\<rparr>"

definition sample_idle :: worker_pool where
  "sample_idle = sample_pool\<lparr>wp_profile := sample_profile\<lparr>wf_runtime_profile_fingerprint :=
     isolation_profile_fingerprint sample_sandbox\<rparr>\<rparr>"

lemma sample_authorizable: "authorizable sample_trial sample_running sample_source sample_capability sample_held_lease"
  by (simp add: authorizable_def sample_trial_def sample_running_def sample_source_def sample_capability_def
      sample_held_lease_def run_attempt_ok_def attempt_lease_ok_def blank_iff py_space_def)

lemma sample_ready: "execution_ready sample_trial sample_running sample_source sample_capability sample_held_lease 5"
  by (simp add: execution_ready_def sample_trial_def sample_running_def sample_source_def sample_capability_def
      sample_held_lease_def executable_def status_at_def raising.simps)

lemma sample_idle_ok:
  "admission_state_ok ([], sample_idle)" "safe_worker Worker_BACKTEST sample_idle" "sl_holder (slot_of sample_idle) = None"
  "sl_used (slot_of sample_idle) = {}" "wf_worker_id (wp_profile sample_idle) = ''w-1''"
  "isolation_profile_fingerprint sample_sandbox = wf_runtime_profile_fingerprint (wp_profile sample_idle)"
  by (simp_all add: admission_state_ok_def admission_ledger_ok_def receipted_def worker_pool_ok_def worker_profile_ok_def
      sample_idle_def sample_pool_def sample_profile_def active_reservations_def safe_worker_def slot_of_def blank_iff py_space_def)

lemma sample_idle_admits:
  "\<exists>z f x. resolve_execution_admission [] z sample_runtime_request f sample_idle (digest_text ''r'') (Aware 7 0) = Inr x
     \<and> ex_decision x = Execution_ADMIT"
proof -
  let ?z = "authorized sample_trial sample_running sample_source sample_capability sample_held_lease 5"
  obtain f where f: "preflight_strategy_runtime sample_runtime_request sample_sandbox = Inr f" "rf_decision f = Runtime_ALLOW"
    "rf_request_fingerprint f = runtime_request_fingerprint sample_runtime_request"
    "rf_profile_fingerprint f = isolation_profile_fingerprint sample_sandbox"
    using preflight_strategy_runtime_answers [OF sample_isolation_ok, of sample_sandbox] sample_allowed by blast
  then have "admission_gates 7 ?z sample_runtime_request f sample_idle"
    using sample_idle_ok(5,6)
    by (simp add: admission_gates_def authorized_def sample_running_def sample_source_def sample_held_lease_def)
      (simp add: sample_runtime_request_def)
  moreover have "\<not> blank (az_attempt_id ?z)" by (simp add: authorized_def sample_running_def blank_iff py_space_def)
  ultimately show ?thesis
    using fresh_admission [OF sample_idle_ok(1,2,3), of "digest_text ''r''" ?z 7 sample_runtime_request f 0] sample_idle_ok(4)
    by auto
qed

text \<open>C6: admission is gated and leaves no half-made receipt. From a consistent ledger and pool, every answer
  keeps them consistent (each running reservation has its receipt, one node at a time) and forgets no
  receipt; anything but an admission leaves both as they were. An admission or its replay is answered
  only when the authorization, the runtime request, its allowed preflight and the worker profile agree
  and the time is not before authorization and submission; the receipt is in the ledger and its
  reservation holds the worker's only slot. A new receipt carries the requested reservation and the
  authority of the authorization.\<close>

theorem execution_admission_gated:
  assumes "admission_state_ok (l, p)" "resolve_execution_admission l z q f p i now = Inr x"
  shows "admission_state_ok (ex_ledger x, ex_pool x) \<and> admission_state_le (l, p) (ex_ledger x, ex_pool x)
    \<and> (ex_decision x \<noteq> Execution_ADMIT \<longrightarrow> ex_ledger x = l \<and> ex_pool x = p)
    \<and> (ex_decision x \<in> {Execution_ADMIT, Execution_REPLAY_EXISTING} \<longrightarrow>
        (\<exists>t zn ad. now = Aware t zn \<and> admission_gates t z q f p \<and> ex_admission x = Some ad
           \<and> ad \<in> set (ex_ledger x) \<and> ad_attempt_id ad = az_attempt_id z
           \<and> sl_holder (slot_of (ex_pool x)) = Some (ad_reservation_id ad, ad_attempt_id ad)
           \<and> (ex_decision x = Execution_ADMIT \<longrightarrow> ad_reservation_id ad = i \<and> ad_authoritative ad = az_authoritative z)))"
proof -
  have p: "worker_pool_ok p" using assms(1) by (simp add: admission_state_ok_def)
  note keeps = admission_keeps [OF assms]
  from p assms(2) show ?thesis
  proof (cases rule: resolution_cases)
    case declined
    with keeps show ?thesis by auto
  next
    case (replayed t zn ad r)
    with keeps holder_active [OF p replayed(9)] show ?thesis by auto
  next
    case (admitted t zn w)
    have "receipt_for z q p i t \<in> set (ex_ledger x)" using admitted(6) by (simp add: mk_admission_ledger_Inr)
    with keeps reserve_accepted [OF p admitted(4,5)] admitted show ?thesis by (simp add: receipt_for_def)
  qed
qed

theorem execution_admission_gated_witness:
  "admission_state_ok ([], sample_idle)
   \<and> (\<exists>z f x t zn ad. resolve_execution_admission [] z sample_runtime_request f sample_idle (digest_text ''r'') (Aware 7 0) = Inr x
        \<and> ex_decision x = Execution_ADMIT \<and> Aware 7 0 = Aware t zn \<and> admission_gates t z sample_runtime_request f sample_idle
        \<and> ex_admission x = Some ad \<and> ad_reservation_id ad = digest_text ''r'')"
proof -
  obtain z f x where x: "resolve_execution_admission [] z sample_runtime_request f sample_idle (digest_text ''r'') (Aware 7 0) = Inr x"
    "ex_decision x = Execution_ADMIT"
    using sample_idle_admits by blast
  from execution_admission_gated [OF sample_idle_ok(1) x(1)] x sample_idle_ok(1) show ?thesis by blast
qed

text \<open>An attempt is admitted at most once. After an admission and any further admissions and releases on
  the same ledger and pool, no request for that attempt is admitted again and none changes the state:
  it is replayed with the very receipt while its reservation still holds the slot, and is a conflict or
  a rejection otherwise, whatever authorization, runtime request, reservation and time it comes with.\<close>

theorem execution_admitted_once:
  assumes "admission_state_ok (l, p)" "resolve_execution_admission l z q f p i now = Inr x"
    and "ex_decision x = Execution_ADMIT" "(l', p') = serve admission_step rs (ex_ledger x, ex_pool x)"
    and "az_attempt_id z' = az_attempt_id z" "resolve_execution_admission l' z' q' f' p' i' now' = Inr y"
  shows "ex_decision y \<in> {Execution_REPLAY_EXISTING, Execution_CONFLICT, Execution_REJECT}
    \<and> ex_ledger y = l' \<and> ex_pool y = p'
    \<and> (ex_decision y = Execution_REPLAY_EXISTING \<longrightarrow> ex_admission y = ex_admission x
         \<and> sl_holder (slot_of p') = Some (i, az_attempt_id z))"
proof -
  have p: "worker_pool_ok p" using assms(1) by (simp add: admission_state_ok_def)
  obtain t zn where t: "mk_admission_ledger (l @ [receipt_for z q p i t]) = Inr (ex_ledger x)"
    "ex_admission x = Some (receipt_for z q p i t)"
    using p assms(2) by (cases rule: resolution_cases) (use assms(3) in auto)
  let ?ad = "receipt_for z q p i t"
  have ad: "?ad \<in> set (ex_ledger x)" "ad_attempt_id ?ad = az_attempt_id z" "ad_reservation_id ?ad = i"
    using t(1) by (simp_all add: mk_admission_ledger_Inr receipt_for_def)
  have s: "admission_state_ok (ex_ledger x, ex_pool x)" using admission_keeps [OF assms(1,2)] by blast
  then have ok: "admission_state_ok (l', p')" and le: "admission_state_le (ex_ledger x, ex_pool x) (l', p')"
    unfolding assms(4) using admissions_ledger.serve_inv admissions_ledger.serve_le by blast+
  have p': "worker_pool_ok p'" and in': "?ad \<in> set l'" and d: "distinct (map ad_attempt_id l')"
    using ok le ad(1) by (auto simp: admission_state_ok_def admission_state_le_def admission_ledger_ok_def)
  have unique: "ad' = ?ad" if "ad' \<in> set l'" "ad_attempt_id ad' = az_attempt_id z" for ad'
    using that in' d ad(2) by (metis distinct_map inj_onD)
  from p' assms(6) show ?thesis
  proof (cases rule: resolution_cases)
    case declined
    have "find (\<lambda>ad. ad_attempt_id ad = az_attempt_id z') l' \<noteq> None" using in' ad(2) assms(5) by (auto simp: find_None_iff)
    with declined show ?thesis by auto
  next
    case (replayed t2 zn2 ad2 r)
    then have "ad2 = ?ad" using unique assms(5) by simp
    with replayed holder_active [OF p' replayed(9)] t(2) ad assms(5) show ?thesis by simp
  next
    case admitted
    with in' ad(2) assms(5) show ?thesis by force
  qed
qed

theorem execution_admitted_once_witness:
  "\<exists>z f x. resolve_execution_admission [] z sample_runtime_request f sample_idle (digest_text ''r'') (Aware 7 0) = Inr x
     \<and> ex_decision x = Execution_ADMIT
     \<and> (\<forall>y. resolve_execution_admission (ex_ledger x) z sample_runtime_request f (ex_pool x) (digest_text ''r'') (Aware 8 0) = Inr y
          \<longrightarrow> ex_decision y \<noteq> Execution_ADMIT)"
proof -
  obtain z f x where x: "resolve_execution_admission [] z sample_runtime_request f sample_idle (digest_text ''r'') (Aware 7 0) = Inr x"
    "ex_decision x = Execution_ADMIT"
    using sample_idle_admits by blast
  have "ex_decision y \<noteq> Execution_ADMIT"
    if "resolve_execution_admission (ex_ledger x) z sample_runtime_request f (ex_pool x) (digest_text ''r'') (Aware 8 0) = Inr y" for y
    using execution_admitted_once [OF sample_idle_ok(1) x _ _ that, of "[]"] by auto
  with x show ?thesis by blast
qed

text \<open>C14: every gate open means admitted. A running attempt with an accepted source, an executable capability
  and an active lease on the worker is authorized; when the sandbox profile of that worker allows its
  runtime request, the worker is safe and idle, and the attempt, reservation and request identity are
  new, the attempt is admitted, and the receipt is authoritative exactly when the capability is.\<close>

theorem authorized_attempt_admitted:
  assumes "authorizable tr a src cap lease" "execution_ready tr a src cap lease t0"
    and "admission_state_ok (l, p)" "safe_worker k p" "sl_holder (slot_of p) = None"
      "ls_worker_id lease = wf_worker_id (wp_profile p)"
    and "isolation_request_ok (rq_isolation_request q)" "runtime_allowed q sandbox"
      "isolation_profile_fingerprint sandbox = wf_runtime_profile_fingerprint (wp_profile p)"
      "rq_attempt_id q = ra_attempt_id a" "rq_source_digest q = sv_source_digest src"
    and "t0 \<le> t" "rq_submitted_at q \<le> t"
    and "is_digest i" "i \<notin> sl_used (slot_of p)" "i \<notin> ad_reservation_id ` set l" "ra_attempt_id a \<notin> ad_attempt_id ` set l"
      "admission_request_fingerprint (intent (authorized tr a src cap lease t0) q p i t) \<notin> ad_request_fingerprint ` set l"
  shows "\<exists>z f x. authorize_execution tr a src cap lease (Aware t0 z0) = Inr z \<and> preflight_strategy_runtime q sandbox = Inr f
    \<and> resolve_execution_admission l z q f p i (Aware t zn) = Inr x \<and> ex_decision x = Execution_ADMIT
    \<and> (\<exists>ad. ex_admission x = Some ad \<and> ad_attempt_id ad = ra_attempt_id a \<and> ad_reservation_id ad = i
          \<and> ad_worker_id ad = ls_worker_id lease \<and> (ad_authoritative ad \<longleftrightarrow> cp_authoritative cap))"
proof -
  let ?z = "authorized tr a src cap lease t0"
  have z: "authorize_execution tr a src cap lease (Aware t0 z0) = Inr ?z"
    using assms(2) by (simp add: authorize_execution_iff [OF assms(1)])
  obtain f where f: "preflight_strategy_runtime q sandbox = Inr f" "rf_decision f = Runtime_ALLOW"
    "rf_request_fingerprint f = runtime_request_fingerprint q" "rf_profile_fingerprint f = isolation_profile_fingerprint sandbox"
    using preflight_strategy_runtime_answers [OF assms(7), of sandbox] assms(8) by blast
  have "admission_gates t ?z q f p"
    using f(2-4) assms(6,8-13) by (simp add: admission_gates_def authorized_def runtime_allowed_def)
  moreover have "\<not> blank (az_attempt_id ?z)" using assms(1) by (simp add: authorizable_def run_attempt_ok_def authorized_def)
  moreover have "az_attempt_id ?z \<notin> ad_attempt_id ` set l" using assms(17) by (simp add: authorized_def)
  ultimately obtain x where "resolve_execution_admission l ?z q f p i (Aware t zn) = Inr x" "ex_decision x = Execution_ADMIT"
    "ex_admission x = Some (receipt_for ?z q p i t)"
    using fresh_admission [OF assms(3,4,5,14,15,16), of ?z t q f zn] assms(18) by blast
  moreover have "az_authoritative ?z \<longleftrightarrow> cp_authoritative cap"
    using assms(2) by (simp add: authorized_def can_publish_authoritative_results_def execution_ready_def)
  ultimately show ?thesis using z f(1) assms(6) by (auto simp: receipt_for_def authorized_def)
qed

theorem authorized_attempt_admitted_witness:
  "execution_ready sample_trial sample_running sample_source sample_capability sample_held_lease 5
   \<and> (\<exists>z f x. authorize_execution sample_trial sample_running sample_source sample_capability sample_held_lease (Aware 5 0) = Inr z
        \<and> preflight_strategy_runtime sample_runtime_request sample_sandbox = Inr f
        \<and> resolve_execution_admission [] z sample_runtime_request f sample_idle (digest_text ''r'') (Aware 7 0) = Inr x
        \<and> ex_decision x = Execution_ADMIT)"
proof -
  have q: "rq_attempt_id sample_runtime_request = ra_attempt_id sample_running"
    "rq_source_digest sample_runtime_request = sv_source_digest sample_source" "rq_submitted_at sample_runtime_request \<le> 7"
    "ls_worker_id sample_held_lease = wf_worker_id (wp_profile sample_idle)"
    using sample_idle_ok(5)
    by (simp_all add: sample_runtime_request_def sample_running_def sample_source_def sample_held_lease_def)
  show ?thesis
    using authorized_attempt_admitted [OF sample_authorizable sample_ready sample_idle_ok(1,2,3) q(4) sample_isolation_ok
        sample_allowed sample_idle_ok(6) q(1,2) _ q(3), of "digest_text ''r''" 0 0] sample_idle_ok(4) sample_ready
    by auto
qed

text \<open>C16: an authorized execution rests on supported data and a supporting engine. When the capability of the
  attempt is the binding of an engine to the data preflight of its requirements, authorization implies
  that every requirement is served by a cell, that each gap of the cell is substituted by a declared value
  the cell supports and only when degraded operation was allowed, and that the engine supports the
  requirement's product class, execution model and account model. The authorization names both
  fingerprints and is authoritative exactly when the engine binding is.\<close>

theorem authorized_run_supported:
  assumes "\<forall>c \<in> set cs. capability_cell_ok c" "preflight_capabilities f rs cs b ds = Inr rep"
    and "preflight_execution_capability rep binding = Inr cap" "authorize_execution tr a src cap lease now = Inr z"
  shows "(\<forall>q \<in> set rs. engine_supports binding q
       \<and> (\<exists>c \<in> set cs. requirement_served f ds q c \<and> (capability_gaps q c = [] \<or> b)))
    \<and> az_trial_preflight_fingerprint z = pr_fingerprint rep
    \<and> az_capability_preflight_fingerprint z = binding_fingerprint binding
    \<and> (az_authoritative z \<longleftrightarrow> xb_authoritative binding)"
proof -
  have ok: "\<forall>c \<in> set cs. is_digest (cc_evidence_digest c)" using assms(1) by (auto simp: capability_cell_ok_def)
  note served = preflight_served [OF ok assms(2)]
  from preflight_execution_decides [OF served(2), of binding] assms(3)
  have cap: "cp_report_fingerprint cap = pr_fingerprint rep" "cp_binding_fingerprint cap = binding_fingerprint binding"
    "cp_authoritative cap = xb_authoritative binding"
    "executable cap \<longleftrightarrow> report_executable rep \<and> (\<forall>x \<in> set (pr_decisions rep). engine_supports binding (cd_requirement x))"
    by auto
  from assms(4) have az: "executable cap" "cp_report_fingerprint cap = st_preflight_fingerprint tr"
    "az_trial_preflight_fingerprint z = st_preflight_fingerprint tr"
    "az_capability_preflight_fingerprint z = cp_binding_fingerprint cap"
    "az_authoritative z = can_publish_authoritative_results cap"
    by (auto simp: authorize_execution_def mk_authorization_def raising_Inr_iff with_aware_eq_Inr)
  have "engine_supports binding q \<and> (\<exists>c \<in> set cs. requirement_served f ds q c \<and> (capability_gaps q c = [] \<or> b))"
    if q: "q \<in> set rs" for q
  proof -
    obtain x where x: "x \<in> set (pr_decisions rep)" "q = cd_requirement x" using q unfolding served(1) [symmetric] by blast
    have "cd_classification x \<noteq> Preflight_UNSUPPORTED"
      using az(1) cap(4) x(1) by (simp add: report_executable_iff)
    with served(3) [OF x(1)] x az(1) cap(4) show ?thesis by metis
  qed
  with az cap(1-3) show ?thesis by (auto simp: can_publish_authoritative_results_def)
qed

definition sample_binding :: capability_binding where
  "sample_binding = \<lparr>xb_engine_name = ''nautilus'', xb_engine_version = ''1'', xb_engine_build_digest = digest_text ''b'',
     xb_conformance_fingerprint = digest_text ''c'', xb_product_classes = {Product_EQUITY},
     xb_execution_models = {''bar_close''}, xb_account_models = {''cash''}, xb_authoritative = True\<rparr>"

theorem authorized_run_supported_witness:
  "\<exists>rep cap tr z. preflight_capabilities (\<lambda>s. None) [sample_requirement ''1h''] [sample_cell ''1d'' (digest_text ''e'')] True
        [sample_degradation] = Inr rep
     \<and> preflight_execution_capability rep sample_binding = Inr cap
     \<and> authorize_execution tr sample_running sample_source cap sample_held_lease (Aware 5 0) = Inr z \<and> az_authoritative z"
proof -
  let ?cs = "[sample_cell ''1d'' (digest_text ''e'')]"
  have ok: "\<forall>c \<in> set ?cs. capability_cell_ok c" by (simp add: sample_cell_def capability_cell_ok_def blank_iff py_space_def)
  then have digests: "\<forall>c \<in> set ?cs. is_digest (cc_evidence_digest c)" by (simp add: capability_cell_ok_def)
  obtain rep where rep: "preflight_capabilities (\<lambda>s. None) [sample_requirement ''1h''] ?cs True [sample_degradation] = Inr rep"
    "report_executable rep"
    using sample_preflight [of "digest_text ''e''" "\<lambda>s. None"] by (auto simp: report_executable_def)
  note served = preflight_served [OF digests rep(1)]
  have "cd_requirement x \<in> set [sample_requirement ''1h'']" if "x \<in> set (pr_decisions rep)" for x
    unfolding served(1) [symmetric] using that by (rule imageI)
  moreover have "engine_supports sample_binding (sample_requirement ''1h'')"
    by (simp add: engine_supports_def sample_binding_def sample_requirement_def)
  ultimately have "\<forall>x \<in> set (pr_decisions rep). engine_supports sample_binding (cd_requirement x)" by fastforce
  then obtain cap where cap: "preflight_execution_capability rep sample_binding = Inr cap"
    "cp_report_fingerprint cap = pr_fingerprint rep" "cp_binding_fingerprint cap = binding_fingerprint sample_binding" "executable cap"
    using preflight_execution_decides [OF served(2), of sample_binding] rep(2) by auto
  let ?tr = "sample_trial\<lparr>st_preflight_fingerprint := pr_fingerprint rep\<rparr>"
  have "authorizable ?tr sample_running sample_source cap sample_held_lease"
    using sample_authorizable served(2) cap(3) by (simp add: authorizable_def)
  moreover have "execution_ready ?tr sample_running sample_source cap sample_held_lease 5"
    using sample_ready cap(2,4) by (simp add: execution_ready_def)
  ultimately obtain z where z: "authorize_execution ?tr sample_running sample_source cap sample_held_lease (Aware 5 0) = Inr z"
    by (auto simp: authorize_execution_iff)
  have "az_authoritative z" using authorized_run_supported [OF ok rep(1) cap(1) z] by (simp add: sample_binding_def)
  with rep(1) cap(1) z show ?thesis by blast
qed

end
