(* ===== verification/Search_Dispatch.thy ===== *)
theory Search_Dispatch
  imports Search_State Execution_Admission Dispatch
begin

text \<open>
  \<open>src/backend/app/strategy_lab_v2/search_dispatch.py\<close>: the start of a search candidate, its admission on a
  worker and the queue message, decided together. Any gate that fails returns the three states as they
  were.
\<close>

section \<open>The decision\<close>

datatype search_dispatch_decision = SX_ENQUEUE | SX_REPLAY_EXISTING | SX_SATURATED | SX_CONFLICT | SX_REJECT

record search_dispatch =
  sx_decision :: search_dispatch_decision
  sx_search_state :: search_execution
  sx_admission_ledger :: "execution_admission list"
  sx_pool :: worker_pool
  sx_dispatch_resolution :: "dispatch_resolution option"
  sx_envelope :: "dispatch_envelope option"
  sx_rejection_reason :: "string option"

definition mk_search_dispatch ::
  "search_dispatch_decision \<Rightarrow> search_execution \<Rightarrow> execution_admission list \<Rightarrow> worker_pool \<Rightarrow> dispatch_resolution option
     \<Rightarrow> dispatch_envelope option \<Rightarrow> string option \<Rightarrow> search_dispatch result" where
  "mk_search_dispatch decision state ledger pool dispatch envelope reason =
     raising
       [(decision \<in> {SX_ENQUEUE, SX_REPLAY_EXISTING} \<and> (dispatch = None \<or> envelope = None),
           ''successful dispatch resolutions require dispatch evidence''),
        (decision \<in> {SX_ENQUEUE, SX_REPLAY_EXISTING} \<and> dr_decision (the dispatch)
             \<noteq> (if decision = SX_ENQUEUE then Dispatch_ENQUEUE else Dispatch_REPLAY_EXISTING),
           ''search dispatch decision must match dispatch evidence''),
        (decision \<in> {SX_CONFLICT, SX_REJECT} \<and> no_reason reason, ''conflicting and rejected dispatches require a reason''),
        (decision \<notin> {SX_REJECT, SX_CONFLICT} \<and> \<not> no_reason reason,
           ''successful or saturated dispatches cannot contain a reason'')]
       (Inr \<lparr>sx_decision = decision, sx_search_state = state, sx_admission_ledger = ledger, sx_pool = pool,
             sx_dispatch_resolution = dispatch, sx_envelope = envelope, sx_rejection_reason = reason\<rparr>)"

definition reject_search_dispatch ::
  "search_execution \<Rightarrow> execution_admission list \<Rightarrow> worker_pool \<Rightarrow> search_dispatch_decision \<Rightarrow> string
     \<Rightarrow> search_dispatch result" where
  "reject_search_dispatch state ledger pool decision reason =
     mk_search_dispatch decision state ledger pool None None (Some reason)"

definition resolve_search_dispatch ::
  "search_execution \<Rightarrow> int \<Rightarrow> string \<Rightarrow> authorization \<Rightarrow> runtime_request \<Rightarrow> runtime_preflight \<Rightarrow> execution_admission list
     \<Rightarrow> worker_pool \<Rightarrow> string \<Rightarrow> dispatch_request \<Rightarrow> dispatch_request list \<Rightarrow> datetime \<Rightarrow> search_dispatch result" where
  "resolve_search_dispatch state i attempt_id authorization runtime preflight ledger pool reservation_id dispatch_request
       prior_dispatches now =
     (let reject = reject_search_dispatch state ledger pool
      in if dq_attempt_id dispatch_request \<noteq> attempt_id then
           reject SX_REJECT ''dispatch request references a different attempt''
         else if list_ex (\<lambda>d. dispatch_fingerprint d \<noteq> dispatch_fingerprint dispatch_request)
                   (filter (\<lambda>d. dq_attempt_id d = attempt_id) prior_dispatches) then
           reject SX_CONFLICT ''attempt is already bound to different dispatch content''
         else with_aware now ''dispatch time must be timezone-aware'' (\<lambda>t.
           if t < dq_created_at dispatch_request then
             reject SX_REJECT ''dispatch time cannot precede request creation''
           else rbind (start_search_candidate state i attempt_id now) (\<lambda>started.
             if sr_decision started = Search_REJECT then
               reject SX_REJECT (reason_or (sr_rejection_reason started) ''search candidate rejected'')
             else rbind (resolve_execution_admission ledger authorization runtime preflight pool reservation_id now) (\<lambda>admitted.
               if ex_decision admitted = Execution_SATURATED then
                 mk_search_dispatch SX_SATURATED state ledger pool None None None
               else if ex_decision admitted = Execution_CONFLICT then
                 reject SX_CONFLICT (reason_or (ex_rejection_reason admitted) ''execution admission conflicts'')
               else if ex_decision admitted = Execution_REJECT then
                 reject SX_REJECT (reason_or (ex_rejection_reason admitted) ''execution admission rejected'')
               else if ex_admission admitted = None then Inl AssertionError
               else rbind (resolve_idempotent_dispatch dispatch_request prior_dispatches) (\<lambda>dispatch.
                 if dr_decision dispatch = Dispatch_IDEMPOTENCY_CONFLICT then
                   reject SX_CONFLICT ''dispatch idempotency key is bound to different content''
                 else if ex_decision admitted = Execution_ADMIT \<and> dr_decision dispatch = Dispatch_REPLAY_EXISTING then
                   reject SX_CONFLICT ''dispatch exists without an execution admission receipt''
                 else rbind (build_dispatch_envelope dispatch_request) (\<lambda>envelope.
                   mk_search_dispatch
                     (if dr_decision dispatch = Dispatch_ENQUEUE then SX_ENQUEUE else SX_REPLAY_EXISTING)
                     (sr_state started) (ex_ledger admitted) (ex_pool admitted) (Some dispatch) (Some envelope) None))))))"

section \<open>How an answer comes about\<close>

lemma search_dispatch_fields:
  "mk_search_dispatch d s l p r e m = Inr x \<Longrightarrow> sx_decision x = d \<and> sx_search_state x = s \<and> sx_admission_ledger x = l
     \<and> sx_pool x = p \<and> sx_envelope x = e"
  "reject_search_dispatch s l p d k = Inr x \<Longrightarrow> sx_decision x = d \<and> sx_search_state x = s \<and> sx_admission_ledger x = l
     \<and> sx_pool x = p \<and> sx_envelope x = None"
  by (auto simp: mk_search_dispatch_def reject_search_dispatch_def raising_Inr_iff)

lemma start_candidate_runs:
  assumes ok: "search_shape_ok s" and r: "start_search_candidate s i a now = Inr r" "sr_decision r \<noteq> Search_REJECT"
  shows "0 \<le> i \<and> i < int (length (se_candidates s)) \<and> sc_phase (se_candidates (sr_state r) ! nat i) = Candidate_RUNNING
    \<and> sc_attempt_id (se_candidates (sr_state r) ! nat i) = Some a"
proof -
  define c where "c = se_candidates s ! nat i"
  have i: "0 \<le> i" "i < int (length (se_candidates s))"
    using r(1) by (auto simp: start_search_candidate_def contract_simps search_candidate_at_Inr)
  have pos: "nat (sc_candidate_index c) = nat i" using candidate_position [OF ok, of "nat i"] i by (simp add: c_def)
  then show ?thesis
    using r i
    by (auto simp: start_search_candidate_def Let_def contract_simps search_candidate_at_Inr search_candidate_remake_iff
        c_def [symmetric] replace_candidate_Inr dest!: mk_search_resolution_Inr split: if_splits)
      (simp_all add: c_def)
qed

lemma search_dispatch_cases:
  assumes "resolve_search_dispatch s i a z q f l p k d ps now = Inr x"
  obtains (declined) "sx_decision x \<in> {SX_SATURATED, SX_CONFLICT, SX_REJECT}" "sx_search_state x = s"
      "sx_admission_ledger x = l" "sx_pool x = p" "sx_envelope x = None"
  | (staged) started admitted dispatch t zn where "now = Aware t zn" "dq_created_at d \<le> t" "dq_attempt_id d = a"
      "\<forall>e \<in> set ps. dq_attempt_id e = a \<longrightarrow> dispatch_fingerprint e = dispatch_fingerprint d"
      "start_search_candidate s i a now = Inr started" "sr_decision started \<noteq> Search_REJECT"
      "resolve_execution_admission l z q f p k now = Inr admitted"
      "ex_decision admitted \<notin> {Execution_SATURATED, Execution_CONFLICT, Execution_REJECT}"
      "resolve_idempotent_dispatch d ps = Inr dispatch"
      "sx_decision x = (if dr_decision dispatch = Dispatch_ENQUEUE then SX_ENQUEUE else SX_REPLAY_EXISTING)"
      "dr_decision dispatch \<noteq> Dispatch_IDEMPOTENCY_CONFLICT"
      "\<not> (ex_decision admitted = Execution_ADMIT \<and> dr_decision dispatch = Dispatch_REPLAY_EXISTING)"
      "sx_search_state x = sr_state started" "sx_admission_ledger x = ex_ledger admitted" "sx_pool x = ex_pool admitted"
      "sx_envelope x = Some (envelope_for d)"
proof (cases "sx_decision x \<in> {SX_ENQUEUE, SX_REPLAY_EXISTING}")
  case True
  have rejects: "reject_search_dispatch s l p e m \<noteq> Inr x" if "e \<in> {SX_CONFLICT, SX_REJECT}" for e m
    using search_dispatch_fields(2) [of s l p e m x] that True by auto
  have full: "mk_search_dispatch SX_SATURATED s l p None None None \<noteq> Inr x"
    using search_dispatch_fields(1) [of SX_SATURATED s l p None None None x] True by auto
  from assms rejects full show thesis
    unfolding resolve_search_dispatch_def Let_def
    by (auto simp: with_aware_eq_Inr build_dispatch_envelope_Inr list_ex_iff split: if_splits
        dest!: search_dispatch_fields(1) intro!: staged)
next
  case False
  from assms show thesis
    unfolding resolve_search_dispatch_def Let_def
    by (auto simp: with_aware_eq_Inr split: if_splits dest!: search_dispatch_fields intro!: declined)
      (use False in \<open>auto\<close>)
qed

lemma admitted_holds:
  assumes ok: "admission_state_ok (l, p)" and x: "resolve_execution_admission l z q f p k now = Inr x"
    and "ex_decision x \<notin> {Execution_SATURATED, Execution_CONFLICT, Execution_REJECT}"
  shows "\<exists>ad \<in> set (ex_ledger x). ad_attempt_id ad = az_attempt_id z
    \<and> sl_holder (slot_of (ex_pool x)) = Some (ad_reservation_id ad, az_attempt_id z)"
proof -
  have p: "worker_pool_ok p" using ok by (simp add: admission_state_ok_def)
  from p x show ?thesis
  proof (cases rule: resolution_cases)
    case declined
    with assms(3) show ?thesis by auto
  next
    case (replayed t zn ad r)
    with holder_active [OF p replayed(9)] show ?thesis by (intro bexI [of _ ad]) auto
  next
    case (admitted t zn w)
    let ?ad = "receipt_for z q p k t"
    have "?ad \<in> set (ex_ledger x)" using admitted(6) by (simp add: mk_admission_ledger_Inr)
    moreover have "sl_holder (slot_of (ex_pool x)) = Some (k, az_attempt_id z)"
      using reserve_accepted [OF p admitted(4,5)] admitted(7) by simp
    ultimately show ?thesis by (intro bexI [of _ ?ad]) (auto simp: receipt_for_def)
  qed
qed

section \<open>Properties\<close>

text \<open>C11: a candidate starts, is admitted and is dispatched together or not at all. From valid states the answer
  is valid states. Either a queue message is returned, and then the candidate runs under the attempt of
  that message, which no earlier message gives other content, and a receipt of the authorized attempt
  holds the worker's slot; or the search, the ledger and the pool are returned as they were, without a
  message. The function itself does not compare the authorized attempt with the attempt of the candidate (its caller
  \<open>postgres_search_dispatch.py\<close> does): when they are the same, the worker is held by the attempt the candidate runs under.\<close>

theorem search_dispatch_atomic:
  assumes "search_ok s" "admission_state_ok (l, p)" "resolve_search_dispatch s i a z q f l p k d ps now = Inr x"
  shows "search_ok (sx_search_state x) \<and> admission_state_ok (sx_admission_ledger x, sx_pool x)
    \<and> search_le s (sx_search_state x) \<and> admission_state_le (l, p) (sx_admission_ledger x, sx_pool x)
    \<and> (if sx_decision x \<in> {SX_ENQUEUE, SX_REPLAY_EXISTING}
       then sx_envelope x = Some (envelope_for d) \<and> dq_attempt_id d = a \<and> 0 \<le> i \<and> i < int (length (se_candidates s))
         \<and> sc_phase (se_candidates (sx_search_state x) ! nat i) = Candidate_RUNNING
         \<and> sc_attempt_id (se_candidates (sx_search_state x) ! nat i) = Some a
         \<and> (\<forall>e \<in> set ps. dq_attempt_id e = a \<longrightarrow> dispatch_fingerprint e = dispatch_fingerprint d)
         \<and> (\<exists>ad \<in> set (sx_admission_ledger x). ad_attempt_id ad = az_attempt_id z
              \<and> sl_holder (slot_of (sx_pool x)) = Some (ad_reservation_id ad, az_attempt_id z))
         \<and> (az_attempt_id z = a \<longrightarrow>
              map_option snd (sl_holder (slot_of (sx_pool x))) = sc_attempt_id (se_candidates (sx_search_state x) ! nat i))
       else sx_envelope x = None \<and> sx_search_state x = s \<and> sx_admission_ledger x = l \<and> sx_pool x = p)"
  using assms(3)
proof (cases rule: search_dispatch_cases)
  case declined
  with assms(1,2) show ?thesis by (auto simp: searches.le_refl admissions_ledger.le_refl)
next
  case (staged started admitted dispatch t zn)
  have shape: "search_shape_ok s" using assms(1) by (simp add: search_ok_def)
  have "search_step (Start i a now) s = Inr (sr_state started)" using staged(5) by (simp add: search_step_def)
  from search_step_keeps [OF assms(1) this] have "search_ok (sr_state started)" "search_le s (sr_state started)" by simp_all
  moreover note admission_keeps [OF assms(2) staged(7)] start_candidate_runs [OF shape staged(5,6)]
    admitted_holds [OF assms(2) staged(7,8)]
  moreover have "sx_decision x \<in> {SX_ENQUEUE, SX_REPLAY_EXISTING}" using staged(10) by auto
  ultimately show ?thesis using staged(3,4,13-16) by auto
qed

definition sample_job :: dispatch_request where
  "sample_job = \<lparr>dq_idempotency_key = ''k'', dq_attempt_id = ''a-1'', dq_payload_digest = digest_text ''p'',
     dq_queue_name = ''q'', dq_created_at = 0\<rparr>"

theorem search_dispatch_atomic_witness:
  "\<exists>z f x. resolve_search_dispatch sample_search 0 ''a-1'' z sample_runtime_request f [] sample_idle (digest_text ''r'')
        sample_job [] (Aware 7 0) = Inr x
     \<and> sx_decision x = SX_ENQUEUE \<and> sx_envelope x = Some (envelope_for sample_job)"
proof -
  obtain z f y where y: "resolve_execution_admission [] z sample_runtime_request f sample_idle (digest_text ''r'') (Aware 7 0) = Inr y"
    "ex_decision y = Execution_ADMIT" "\<exists>ad. ex_admission y = Some ad"
    using sample_idle_admits sample_idle_ok(1) by (auto simp: admission_state_ok_def elim: resolution_cases)
  obtain r where r: "start_search_candidate sample_search 0 ''a-1'' (Aware 7 0) = Inr r" "sr_decision r = Search_APPLY"
    using start_applies [OF sample_search_ok sample_search_size refl, of 7 "''a-1''" 0]
    by (simp add: sample_search_def before_update_def blank_iff py_space_def)
  let ?x = "\<lparr>sx_decision = SX_ENQUEUE, sx_search_state = sr_state r, sx_admission_ledger = ex_ledger y, sx_pool = ex_pool y,
     sx_dispatch_resolution = Some \<lparr>dr_decision = Dispatch_ENQUEUE, dr_request_fingerprint = dispatch_fingerprint sample_job,
       dr_existing_fingerprint = None\<rparr>, sx_envelope = Some (envelope_for sample_job), sx_rejection_reason = None\<rparr>"
  have staged: "resolve_search_dispatch sample_search 0 ''a-1'' z sample_runtime_request f [] sample_idle (digest_text ''r'')
      sample_job [] (Aware 7 0) = Inr ?x"
    using y r
    by (auto simp: resolve_search_dispatch_def sample_job_def resolve_dispatch_new build_dispatch_envelope_Inr
        mk_search_dispatch_def raising_Inr_iff no_reason_def)
  from search_dispatch_atomic [OF sample_search_ok sample_idle_ok(1) this] staged show ?thesis
    by (intro exI [of _ z] exI [of _ f] exI [of _ ?x]) simp
qed

end
