(* ===== verification/Progress.thy ===== *)
theory Progress
  imports Contracts
begin

text \<open>
  \<open>src/backend/app/strategy_lab_v2/progress.py\<close>: ordered progress updates and cancellation of one
  execution attempt.
\<close>

datatype progress_phase =
    Phase_QUEUED | Phase_PREPARING | Phase_RUNNING | Phase_FINALIZING | Phase_SUCCEEDED
  | Phase_FAILED | Phase_CANCELLED

definition terminal_phases :: "progress_phase set" where
  "terminal_phases = {Phase_SUCCEEDED, Phase_FAILED, Phase_CANCELLED}"

record progress_update =
  pu_attempt_id :: string
  pu_sequence :: int
  pu_phase :: progress_phase
  pu_completed_units :: int
  pu_total_units :: int
  pu_emitted_at :: instant
  pu_detail :: string

definition mk_progress_update ::
  "string \<Rightarrow> int \<Rightarrow> progress_phase \<Rightarrow> int \<Rightarrow> int \<Rightarrow> datetime \<Rightarrow> string \<Rightarrow> progress_update result" where
  "mk_progress_update attempt_id sequence phase completed_units total_units emitted_at detail =
     raising
       [(blank attempt_id, ''progress attempt_id must not be empty''),
        (sequence < 1, ''progress sequence must be a positive integer''),
        (completed_units < 0, ''progress completed_units must be a non-negative integer''),
        (total_units < 0, ''progress total_units must be a non-negative integer''),
        (completed_units > total_units, ''progress completed_units cannot exceed total_units'')]
       (with_aware emitted_at ''progress emitted_at must be timezone-aware'' (\<lambda>emitted.
          Inr \<lparr>pu_attempt_id = attempt_id, pu_sequence = sequence, pu_phase = phase,
               pu_completed_units = completed_units, pu_total_units = total_units,
               pu_emitted_at = emitted, pu_detail = detail\<rparr>))"

record cancellation_request =
  cq_request_id :: string
  cq_attempt_id :: string
  cq_requested_at :: instant
  cq_reason :: string

definition mk_cancellation_request ::
  "string \<Rightarrow> string \<Rightarrow> datetime \<Rightarrow> string \<Rightarrow> cancellation_request result" where
  "mk_cancellation_request request_id attempt_id requested_at reason =
     raising
       [(blank request_id, ''cancellation request_id must not be empty''),
        (blank attempt_id, ''cancellation attempt_id must not be empty''),
        (blank reason, ''cancellation reason must not be empty'')]
       (with_aware requested_at ''cancellation requested_at must be timezone-aware'' (\<lambda>requested.
          Inr \<lparr>cq_request_id = request_id, cq_attempt_id = attempt_id, cq_requested_at = requested,
               cq_reason = reason\<rparr>))"

record progress_state =
  pg_attempt_id :: string
  pg_sequence :: int
  pg_phase :: progress_phase
  pg_completed_units :: int
  pg_total_units :: int
  pg_cancellation_requested :: bool
  pg_updated_at :: instant

definition mk_progress_state ::
  "string \<Rightarrow> int \<Rightarrow> progress_phase \<Rightarrow> int \<Rightarrow> int \<Rightarrow> bool \<Rightarrow> datetime \<Rightarrow> progress_state result" where
  "mk_progress_state attempt_id sequence phase completed_units total_units cancellation_requested
       updated_at =
     raising
       [(blank attempt_id, ''progress state attempt_id must not be empty''),
        (sequence < 0, ''progress state sequence must be non-negative''),
        (completed_units < 0, ''progress state completed_units must be a non-negative integer''),
        (total_units < 0, ''progress state total_units must be a non-negative integer''),
        (completed_units > total_units, ''progress state completed_units cannot exceed total_units'')]
       (with_aware updated_at ''progress state updated_at must be timezone-aware'' (\<lambda>updated.
          Inr \<lparr>pg_attempt_id = attempt_id, pg_sequence = sequence, pg_phase = phase,
               pg_completed_units = completed_units, pg_total_units = total_units,
               pg_cancellation_requested = cancellation_requested, pg_updated_at = updated\<rparr>))"

definition progress_state_remake :: "progress_state \<Rightarrow> progress_state result" where
  "progress_state_remake s =
     mk_progress_state (pg_attempt_id s) (pg_sequence s) (pg_phase s) (pg_completed_units s)
       (pg_total_units s) (pg_cancellation_requested s) (utc (pg_updated_at s))"

definition new_progress_state :: "string \<Rightarrow> int \<Rightarrow> datetime \<Rightarrow> progress_state result" where
  "new_progress_state attempt_id total_units now =
     mk_progress_state attempt_id 0 Phase_QUEUED 0 total_units False now"

definition apply_progress_update :: "progress_state \<Rightarrow> progress_update \<Rightarrow> progress_state result" where
  "apply_progress_update state update =
     raising
       [(pu_attempt_id update \<noteq> pg_attempt_id state, ''progress update must reference the same attempt''),
        (pu_sequence update \<le> pg_sequence state, ''progress sequence must be strictly increasing''),
        (pg_phase state \<in> terminal_phases, ''terminal progress state cannot receive updates''),
        (pu_total_units update \<noteq> pg_total_units state, ''progress total_units cannot change''),
        (pu_completed_units update < pg_completed_units state,
           ''progress completed_units cannot move backwards''),
        (pg_cancellation_requested state \<and> pu_phase update \<noteq> Phase_CANCELLED,
           ''cancelled attempts can only publish a cancelled terminal update''),
        (pu_phase update = Phase_SUCCEEDED \<and> pu_completed_units update \<noteq> pu_total_units update,
           ''successful progress must complete all units'')]
       (progress_state_remake
          (state\<lparr>pg_sequence := pu_sequence update, pg_phase := pu_phase update,
                 pg_completed_units := pu_completed_units update, pg_updated_at := pu_emitted_at update\<rparr>))"

definition request_cancellation :: "progress_state \<Rightarrow> cancellation_request \<Rightarrow> progress_state result" where
  "request_cancellation state request =
     raising
       [(cq_attempt_id request \<noteq> pg_attempt_id state, ''cancellation must reference the same attempt'')]
       (if pg_phase state \<in> terminal_phases then Inr state
        else
          raising [(cq_requested_at request < pg_updated_at state, ''cancellation time cannot move backwards'')]
            (if pg_cancellation_requested state then Inr state
             else progress_state_remake
                    (state\<lparr>pg_cancellation_requested := True, pg_updated_at := cq_requested_at request\<rparr>)))"

section \<open>Invariant and requests\<close>

text \<open>Besides the checks of \<open>__post_init__\<close>: a reached success has completed all units.\<close>

definition progress_ok :: "progress_state \<Rightarrow> bool" where
  "progress_ok s \<longleftrightarrow> \<not> blank (pg_attempt_id s) \<and> 0 \<le> pg_sequence s \<and> 0 \<le> pg_completed_units s
     \<and> pg_completed_units s \<le> pg_total_units s
     \<and> (pg_phase s = Phase_SUCCEEDED \<longrightarrow> pg_completed_units s = pg_total_units s)"

definition progress_le :: "progress_state \<Rightarrow> progress_state \<Rightarrow> bool" where
  "progress_le s t \<longleftrightarrow> pg_attempt_id t = pg_attempt_id s \<and> pg_total_units t = pg_total_units s
     \<and> pg_sequence s \<le> pg_sequence t \<and> pg_completed_units s \<le> pg_completed_units t
     \<and> (pg_cancellation_requested s \<longrightarrow> pg_cancellation_requested t)
     \<and> (pg_phase s \<in> terminal_phases \<longrightarrow> t = s)
     \<and> (pg_cancellation_requested s \<longrightarrow> pg_phase t \<in> {pg_phase s, Phase_CANCELLED})"

datatype progress_request = Report progress_update | Cancel cancellation_request

fun progress_step :: "progress_request \<Rightarrow> progress_state \<Rightarrow> progress_state result" where
  "progress_step (Report u) s = apply_progress_update s u"
| "progress_step (Cancel c) s = request_cancellation s c"

lemma progress_state_remake_Inr:
  "progress_state_remake s = Inr t \<longleftrightarrow>
     \<not> blank (pg_attempt_id s) \<and> 0 \<le> pg_sequence s \<and> 0 \<le> pg_completed_units s \<and> 0 \<le> pg_total_units s
     \<and> pg_completed_units s \<le> pg_total_units s \<and> t = s"
  by (auto simp: progress_state_remake_def mk_progress_state_def contract_simps utc_def)

lemma new_progress_state_ok: "new_progress_state a n now = Inr s \<Longrightarrow> progress_ok s \<and> pg_sequence s = 0"
  by (auto simp: new_progress_state_def mk_progress_state_def progress_ok_def contract_simps)

lemma apply_progress_update_Inr:
  assumes "progress_ok s"
  shows "apply_progress_update s u = Inr t \<longleftrightarrow>
     pu_attempt_id u = pg_attempt_id s \<and> pg_sequence s < pu_sequence u \<and> pg_phase s \<notin> terminal_phases
     \<and> pu_total_units u = pg_total_units s \<and> pg_completed_units s \<le> pu_completed_units u
     \<and> pu_completed_units u \<le> pu_total_units u
     \<and> (pg_cancellation_requested s \<longrightarrow> pu_phase u = Phase_CANCELLED)
     \<and> (pu_phase u = Phase_SUCCEEDED \<longrightarrow> pu_completed_units u = pu_total_units u)
     \<and> t = s\<lparr>pg_sequence := pu_sequence u, pg_phase := pu_phase u,
             pg_completed_units := pu_completed_units u, pg_updated_at := pu_emitted_at u\<rparr>"
  using assms by (auto simp: apply_progress_update_def contract_simps progress_state_remake_Inr progress_ok_def)

lemma request_cancellation_Inr:
  assumes "progress_ok s"
  shows "request_cancellation s c = Inr t \<longleftrightarrow>
     cq_attempt_id c = pg_attempt_id s
     \<and> (if pg_phase s \<in> terminal_phases then t = s
        else pg_updated_at s \<le> cq_requested_at c
          \<and> t = (if pg_cancellation_requested s then s
                 else s\<lparr>pg_cancellation_requested := True, pg_updated_at := cq_requested_at c\<rparr>))"
  using assms
  by (auto simp: request_cancellation_def contract_simps progress_state_remake_Inr progress_ok_def
      split: if_splits)

lemma progress_step_keeps:
  assumes "progress_ok s" "progress_step r s = Inr t"
  shows "progress_ok t \<and> progress_le s t"
  using assms
  by (cases r)
    (auto simp: apply_progress_update_Inr request_cancellation_Inr progress_ok_def progress_le_def
      terminal_phases_def split: if_splits)

interpretation progress: guarded_machine progress_step progress_ok progress_le
proof
  fix s r s'
  assume "progress_ok s" "progress_step r s = Inr s'"
  then show "progress_ok s'" "progress_le s s'" using progress_step_keeps by blast+
next
  fix s t u
  show "progress_le s s" by (simp add: progress_le_def)
  show "progress_le s t \<Longrightarrow> progress_le t u \<Longrightarrow> progress_le s u"
    by (auto simp: progress_le_def terminal_phases_def)
qed

section \<open>Properties\<close>

text \<open>C32: progress is monotone and cancellation sticks. Whatever updates and cancellations arrive, a
  valid progress state stays valid, the sequence and the completed units never go back, the total
  never changes, success means every unit completed, a terminal phase is final, and once
  cancellation is requested the only phase still reachable is cancelled. Repeating a cancellation
  right after it was recorded changes nothing.\<close>

theorem progress_monotone:
  assumes "progress_ok s"
  shows "progress_ok (serve progress_step rs s) \<and> progress_le s (serve progress_step rs s)
     \<and> progress_le (serve progress_step rs s) (serve progress_step (rs @ qs) s)
     \<and> (\<forall>c t. request_cancellation (serve progress_step rs s) c = Inr t \<longrightarrow>
          request_cancellation t c = Inr t
          \<and> (pg_phase t \<notin> terminal_phases \<longrightarrow> pg_cancellation_requested t))"
proof -
  let ?s = "serve progress_step rs s"
  have ok: "progress_ok ?s" using assms by (rule progress.serve_inv)
  have "request_cancellation t c = Inr t \<and> (pg_phase t \<notin> terminal_phases \<longrightarrow> pg_cancellation_requested t)"
    if "request_cancellation ?s c = Inr t" for c t
  proof -
    have "progress_ok t" using progress_step_keeps [OF ok, of "Cancel c" t] that by simp
    then show ?thesis using that ok by (auto simp: request_cancellation_Inr split: if_splits)
  qed
  with ok assms show ?thesis by (simp add: progress.serve_le progress.serve_later)
qed

definition sample_progress :: progress_state where
  "sample_progress = \<lparr>pg_attempt_id = ''a-1'', pg_sequence = 0, pg_phase = Phase_QUEUED,
     pg_completed_units = 0, pg_total_units = 2, pg_cancellation_requested = False, pg_updated_at = 0\<rparr>"

definition sample_update :: "int \<Rightarrow> progress_phase \<Rightarrow> int \<Rightarrow> progress_update" where
  "sample_update n ph k = \<lparr>pu_attempt_id = ''a-1'', pu_sequence = n, pu_phase = ph, pu_completed_units = k,
     pu_total_units = 2, pu_emitted_at = n, pu_detail = []\<rparr>"

lemma sample_progress_ok: "progress_ok sample_progress"
  by (simp add: progress_ok_def sample_progress_def blank_iff py_space_def)

theorem progress_monotone_witness:
  "progress_ok sample_progress
   \<and> serve progress_step [Report (sample_update 1 Phase_RUNNING 1), Report (sample_update 1 Phase_FAILED 1),
       Report (sample_update 2 Phase_SUCCEEDED 2), Report (sample_update 3 Phase_FAILED 2)] sample_progress
     = sample_progress\<lparr>pg_sequence := 2, pg_phase := Phase_SUCCEEDED, pg_completed_units := 2, pg_updated_at := 2\<rparr>
   \<and> progress_ok (serve progress_step [Report (sample_update 1 Phase_RUNNING 1)] sample_progress)"
proof (intro conjI)
  show "serve progress_step [Report (sample_update 1 Phase_RUNNING 1), Report (sample_update 1 Phase_FAILED 1),
       Report (sample_update 2 Phase_SUCCEEDED 2), Report (sample_update 3 Phase_FAILED 2)] sample_progress
     = sample_progress\<lparr>pg_sequence := 2, pg_phase := Phase_SUCCEEDED, pg_completed_units := 2, pg_updated_at := 2\<rparr>"
    by code_simp
qed (use sample_progress_ok progress_monotone [OF sample_progress_ok] in blast)+

text \<open>The time of a progress state is not monotone. An update is ordered by its sequence number
  alone, so one emitted earlier than the last recorded instant is applied and moves \<open>updated_at\<close>
  back, while a cancellation is refused for doing so.\<close>

theorem progress_time_unordered:
  assumes "progress_ok s" "pg_phase s \<notin> terminal_phases"
  shows "\<exists>u s'. pu_emitted_at u = t \<and> apply_progress_update s u = Inr s' \<and> pg_updated_at s' = t
     \<and> (\<forall>c. t < pg_updated_at s \<longrightarrow> cq_requested_at c = t \<longrightarrow> (\<exists>e. request_cancellation s c = Inl e))"
proof -
  let ?u = "\<lparr>pu_attempt_id = pg_attempt_id s, pu_sequence = pg_sequence s + 1, pu_phase = Phase_CANCELLED,
    pu_completed_units = pg_completed_units s, pu_total_units = pg_total_units s, pu_emitted_at = t, pu_detail = []\<rparr>"
  have "\<exists>e. request_cancellation s c = Inl e" if "t < pg_updated_at s" "cq_requested_at c = t" for c
    using that assms by (cases "request_cancellation s c") (auto simp: request_cancellation_Inr)
  moreover have "apply_progress_update s ?u = Inr (s\<lparr>pg_sequence := pg_sequence s + 1, pg_phase := Phase_CANCELLED,
      pg_completed_units := pg_completed_units s, pg_updated_at := t\<rparr>)"
    using assms by (simp add: apply_progress_update_Inr progress_ok_def)
  ultimately show ?thesis by (intro exI [of _ ?u] exI) auto
qed

theorem progress_time_unordered_witness:
  "\<exists>u s'. pu_emitted_at u = -5 \<and> apply_progress_update sample_progress u = Inr s' \<and> pg_updated_at s' = -5"
  using progress_time_unordered [OF sample_progress_ok, of "-5"]
  by (auto simp: sample_progress_def terminal_phases_def)

end
