(* ===== verification/Outcomes.thy ===== *)
theory Outcomes
  imports Contracts
begin

text \<open>
  \<open>src/backend/app/strategy_lab_v2/outcomes.py\<close>: the latest outcome of an accepted submission and the
  status updates it accepts. The error of an update (an \<open>ApiError\<close>) is only compared and tested for
  presence here, so it is a type parameter.
\<close>

datatype outcome_status =
    Outcome_ACCEPTED | Outcome_RUNNING | Outcome_SUCCEEDED | Outcome_FAILED | Outcome_CANCELLED

fun outcome_status_value :: "outcome_status \<Rightarrow> string" where
  "outcome_status_value Outcome_ACCEPTED = ''accepted''"
| "outcome_status_value Outcome_RUNNING = ''running''"
| "outcome_status_value Outcome_SUCCEEDED = ''succeeded''"
| "outcome_status_value Outcome_FAILED = ''failed''"
| "outcome_status_value Outcome_CANCELLED = ''cancelled''"

datatype outcome_decision = Outcome_APPLY | Outcome_REPLAY_EXISTING | Outcome_CONFLICT

fun allowed_transitions :: "outcome_status \<Rightarrow> outcome_status set" where
  "allowed_transitions Outcome_ACCEPTED =
     {Outcome_ACCEPTED, Outcome_RUNNING, Outcome_SUCCEEDED, Outcome_FAILED, Outcome_CANCELLED}"
| "allowed_transitions Outcome_RUNNING =
     {Outcome_RUNNING, Outcome_SUCCEEDED, Outcome_FAILED, Outcome_CANCELLED}"
| "allowed_transitions Outcome_SUCCEEDED = {Outcome_SUCCEEDED}"
| "allowed_transitions Outcome_FAILED = {Outcome_FAILED}"
| "allowed_transitions Outcome_CANCELLED = {Outcome_CANCELLED}"

record 'e outcome_update =
  ou_submission_id :: string
  ou_attempt_id :: string
  ou_sequence :: int
  ou_status :: outcome_status
  ou_observed_at :: instant
  ou_result_digest :: "string option"
  ou_error :: "'e option"

definition mk_outcome_update ::
  "string \<Rightarrow> string \<Rightarrow> int \<Rightarrow> outcome_status \<Rightarrow> datetime \<Rightarrow> string option \<Rightarrow> 'e option
     \<Rightarrow> 'e outcome_update result" where
  "mk_outcome_update submission_id attempt_id sequence status observed_at result_digest error =
     raising
       ([(blank submission_id, ''outcome submission_id must not be empty''),
         (blank attempt_id, ''outcome attempt_id must not be empty'')]
        @ digest_checks submission_id ''submission_id''
        @ [(sequence < 1, ''outcome sequence must be a positive integer'')])
       (with_aware observed_at ''outcome observed_at must be timezone-aware'' (\<lambda>observed.
        raising
          (opt_digest_checks result_digest ''result_digest''
           @ [(status = Outcome_SUCCEEDED \<and> (result_digest = None \<or> error \<noteq> None),
                 ''successful outcomes require a result and no error''),
              (status \<in> {Outcome_FAILED, Outcome_CANCELLED} \<and> result_digest \<noteq> None,
                 ''terminal non-success outcomes must not include a result''),
              (status \<notin> {Outcome_SUCCEEDED, Outcome_FAILED, Outcome_CANCELLED}
                 \<and> (result_digest \<noteq> None \<or> error \<noteq> None),
                 ''non-terminal outcomes cannot include a result or error'')])
          (Inr \<lparr>ou_submission_id = submission_id, ou_attempt_id = attempt_id, ou_sequence = sequence,
                ou_status = status, ou_observed_at = observed, ou_result_digest = result_digest,
                ou_error = error\<rparr>)))"

record 'e execution_outcome =
  eo_submission_id :: string
  eo_attempt_id :: string
  eo_sequence :: int
  eo_status :: outcome_status
  eo_updated_at :: instant
  eo_result_digest :: "string option"
  eo_error :: "'e option"

definition mk_execution_outcome ::
  "string \<Rightarrow> string \<Rightarrow> int \<Rightarrow> outcome_status \<Rightarrow> datetime \<Rightarrow> string option \<Rightarrow> 'e option
     \<Rightarrow> 'e execution_outcome result" where
  "mk_execution_outcome submission_id attempt_id sequence status updated_at result_digest error =
     with_aware updated_at ''outcome updated_at must be timezone-aware'' (\<lambda>updated.
       let made = Inr \<lparr>eo_submission_id = submission_id, eo_attempt_id = attempt_id, eo_sequence = sequence,
                       eo_status = status, eo_updated_at = updated, eo_result_digest = result_digest,
                       eo_error = error\<rparr>
       in raising [(sequence < 0, ''outcome state sequence must be non-negative'')]
            (if sequence = 0 then
               raising
                 ([(status \<noteq> Outcome_ACCEPTED, ''sequence-zero outcomes must be accepted''),
                   (result_digest \<noteq> None \<or> error \<noteq> None,
                      ''sequence-zero outcomes cannot contain a result or error''),
                   (blank submission_id, ''outcome submission_id must not be empty'')]
                  @ digest_checks submission_id ''submission_id''
                  @ [(blank attempt_id, ''outcome attempt_id must not be empty'')])
                 made
             else
               rbind (mk_outcome_update submission_id attempt_id sequence status (utc updated)
                        result_digest error)
                 (\<lambda>_. made)))"

record 'e outcome_resolution =
  or_decision :: outcome_decision
  or_state :: "'e execution_outcome"

definition new_execution_outcome :: "string \<Rightarrow> string \<Rightarrow> datetime \<Rightarrow> 'e execution_outcome result" where
  "new_execution_outcome submission_id attempt_id accepted_at =
     with_aware accepted_at ''accepted_at must be timezone-aware'' (\<lambda>_.
       mk_execution_outcome submission_id attempt_id 0 Outcome_ACCEPTED accepted_at None None)"

definition apply_outcome_update ::
  "'e execution_outcome \<Rightarrow> 'e outcome_update \<Rightarrow> 'e outcome_resolution result" where
  "apply_outcome_update state update =
     raising
       [(ou_submission_id update \<noteq> eo_submission_id state \<or> ou_attempt_id update \<noteq> eo_attempt_id state,
           ''outcome update must reference the same submission and attempt''),
        (ou_observed_at update < eo_updated_at state, ''outcome time cannot move backwards'')]
       (if ou_sequence update \<le> eo_sequence state then
          (if ou_sequence update = eo_sequence state \<and> ou_status update = eo_status state
              \<and> ou_observed_at update = eo_updated_at state
              \<and> ou_result_digest update = eo_result_digest state \<and> ou_error update = eo_error state
           then Inr \<lparr>or_decision = Outcome_REPLAY_EXISTING, or_state = state\<rparr>
           else Inl (ValueError ''outcome sequence conflicts with the existing state''))
        else
          raising
            [(ou_status update \<notin> allowed_transitions (eo_status state),
                ''illegal outcome transition: '' @ outcome_status_value (eo_status state) @ '' -> ''
                  @ outcome_status_value (ou_status update))]
            (rbind (mk_execution_outcome (ou_submission_id update) (ou_attempt_id update) (ou_sequence update)
                      (ou_status update) (utc (ou_observed_at update)) (ou_result_digest update)
                      (ou_error update))
               (\<lambda>next_state. Inr \<lparr>or_decision = Outcome_APPLY, or_state = next_state\<rparr>)))"

section \<open>Invariant and requests\<close>

definition terminal_outcome :: "outcome_status \<Rightarrow> bool" where
  "terminal_outcome st \<longleftrightarrow> st \<in> {Outcome_SUCCEEDED, Outcome_FAILED, Outcome_CANCELLED}"

definition outcome_ok :: "'e execution_outcome \<Rightarrow> bool" where
  "outcome_ok s \<longleftrightarrow> \<not> blank (eo_submission_id s) \<and> \<not> blank (eo_attempt_id s) \<and> is_digest (eo_submission_id s)
     \<and> 0 \<le> eo_sequence s \<and> (eo_sequence s = 0 \<longrightarrow> eo_status s = Outcome_ACCEPTED)
     \<and> (\<forall>d. eo_result_digest s = Some d \<longrightarrow> is_digest d)
     \<and> (eo_result_digest s \<noteq> None \<longleftrightarrow> eo_status s = Outcome_SUCCEEDED)
     \<and> (eo_error s \<noteq> None \<longrightarrow> eo_status s \<in> {Outcome_FAILED, Outcome_CANCELLED})"

definition outcome_le :: "'e execution_outcome \<Rightarrow> 'e execution_outcome \<Rightarrow> bool" where
  "outcome_le s t \<longleftrightarrow> eo_submission_id t = eo_submission_id s \<and> eo_attempt_id t = eo_attempt_id s
     \<and> eo_sequence s \<le> eo_sequence t \<and> eo_updated_at s \<le> eo_updated_at t
     \<and> eo_status t \<in> allowed_transitions (eo_status s)"

definition outcome_step :: "'e outcome_update \<Rightarrow> 'e execution_outcome \<Rightarrow> 'e execution_outcome result" where
  "outcome_step u s = rbind (apply_outcome_update s u) (\<lambda>r. Inr (or_state r))"

definition outcome_of :: "'e outcome_update \<Rightarrow> 'e execution_outcome" where
  "outcome_of u = \<lparr>eo_submission_id = ou_submission_id u, eo_attempt_id = ou_attempt_id u,
     eo_sequence = ou_sequence u, eo_status = ou_status u, eo_updated_at = ou_observed_at u,
     eo_result_digest = ou_result_digest u, eo_error = ou_error u\<rparr>"

lemma mk_execution_outcome_ok:
  "mk_execution_outcome si a n st t d e = Inr s \<Longrightarrow> outcome_ok s"
  by (cases st)
    (auto simp: mk_execution_outcome_def mk_outcome_update_def outcome_ok_def contract_simps Let_def utc_def
      split: if_splits)

lemma mk_execution_outcome_fields:
  "mk_execution_outcome (ou_submission_id u) (ou_attempt_id u) (ou_sequence u) (ou_status u)
     (utc (ou_observed_at u)) (ou_result_digest u) (ou_error u) = Inr s \<Longrightarrow> s = outcome_of u"
  by (auto simp: mk_execution_outcome_def outcome_of_def contract_simps Let_def split: if_splits)

lemma apply_outcome_update_cases:
  assumes "apply_outcome_update s u = Inr r"
  obtains (replay) "or_decision r = Outcome_REPLAY_EXISTING" "or_state r = s" "outcome_of u = s"
  | (applied) "or_decision r = Outcome_APPLY" "or_state r = outcome_of u" "outcome_ok (outcome_of u)"
      "ou_submission_id u = eo_submission_id s" "ou_attempt_id u = eo_attempt_id s"
      "eo_sequence s < ou_sequence u" "eo_updated_at s \<le> ou_observed_at u"
      "ou_status u \<in> allowed_transitions (eo_status s)"
proof (cases "ou_sequence u \<le> eo_sequence s")
  case True
  with assms show thesis
    by (intro replay) (auto simp: apply_outcome_update_def contract_simps outcome_of_def split: if_splits)
next
  case False
  then obtain t where t: "mk_execution_outcome (ou_submission_id u) (ou_attempt_id u) (ou_sequence u)
      (ou_status u) (utc (ou_observed_at u)) (ou_result_digest u) (ou_error u) = Inr t"
      "r = \<lparr>or_decision = Outcome_APPLY, or_state = t\<rparr>"
    using assms by (auto simp: apply_outcome_update_def contract_simps)
  from mk_execution_outcome_fields [OF t(1)] mk_execution_outcome_ok [OF t(1)] t(2) False assms
  show thesis by (intro applied) (auto simp: apply_outcome_update_def contract_simps)
qed

lemma allowed_transitions_refl [simp]: "st \<in> allowed_transitions st"
  by (cases st) auto

lemma allowed_transitions_trans:
  "b \<in> allowed_transitions a \<Longrightarrow> c \<in> allowed_transitions b \<Longrightarrow> c \<in> allowed_transitions a"
  by (cases a; cases b) auto

lemma outcome_step_keeps:
  assumes "outcome_ok s" "outcome_step u s = Inr t"
  shows "outcome_ok t \<and> outcome_le s t"
proof -
  obtain r where r: "apply_outcome_update s u = Inr r" "t = or_state r"
    using assms(2) by (auto simp: outcome_step_def)
  from r(1) show ?thesis
    by (cases rule: apply_outcome_update_cases)
      (use assms(1) r(2) in \<open>auto simp: outcome_le_def outcome_of_def\<close>)
qed

interpretation outcomes: guarded_machine outcome_step outcome_ok outcome_le
proof
  fix s r s'
  assume "outcome_ok s" "outcome_step r s = Inr s'"
  then show "outcome_ok s'" "outcome_le s s'" using outcome_step_keeps by blast+
qed (auto simp: outcome_le_def intro: allowed_transitions_trans)

section \<open>Properties\<close>

text \<open>Outcomes move forward and end once. Whatever updates arrive, a valid outcome stays valid (a
  result exactly for a success, an error only for a failure or cancellation), keeps its submission
  and attempt, never moves its sequence or time back, and follows the transition table, so a
  terminal status is final; and delivering an applied update again is a replay without effect.\<close>

theorem outcome_history:
  assumes "outcome_ok s" and t: "t = serve outcome_step rs s"
  shows "outcome_ok t \<and> outcome_le s t \<and> (terminal_outcome (eo_status s) \<longrightarrow> eo_status t = eo_status s)
     \<and> (\<forall>u r. apply_outcome_update t u = Inr r \<longrightarrow>
          (\<exists>q. apply_outcome_update (or_state r) u = Inr q \<and> or_decision q = Outcome_REPLAY_EXISTING
             \<and> or_state q = or_state r))"
proof -
  have ok: "outcome_ok t" "outcome_le s t"
    unfolding t using assms(1) by (simp_all add: outcomes.serve_inv outcomes.serve_le)
  have same: "apply_outcome_update (outcome_of u) u
      = Inr \<lparr>or_decision = Outcome_REPLAY_EXISTING, or_state = outcome_of u\<rparr>" for u :: "'a outcome_update"
    by (simp add: apply_outcome_update_def outcome_of_def raising.simps)
  have "\<exists>q. apply_outcome_update (or_state r) u = Inr q \<and> or_decision q = Outcome_REPLAY_EXISTING
      \<and> or_state q = or_state r" if "apply_outcome_update t u = Inr r" for u r
    using that by (cases rule: apply_outcome_update_cases) (use same [of u] in auto)
  moreover have "terminal_outcome (eo_status s) \<longrightarrow> eo_status t = eo_status s"
    using ok(2) by (cases "eo_status s") (auto simp: outcome_le_def terminal_outcome_def)
  ultimately show ?thesis using ok by blast
qed

definition sample_outcome :: "unit execution_outcome" where
  "sample_outcome = \<lparr>eo_submission_id = ''sha256:'' @ replicate 64 (CHR ''b''), eo_attempt_id = ''a-1'',
     eo_sequence = 0, eo_status = Outcome_ACCEPTED, eo_updated_at = 0, eo_result_digest = None,
     eo_error = None\<rparr>"

definition sample_outcome_update :: "int \<Rightarrow> char \<Rightarrow> unit outcome_update" where
  "sample_outcome_update n c = \<lparr>ou_submission_id = ''sha256:'' @ replicate 64 (CHR ''b''), ou_attempt_id = ''a-1'',
     ou_sequence = n, ou_status = Outcome_SUCCEEDED, ou_observed_at = n,
     ou_result_digest = Some (''sha256:'' @ replicate 64 c), ou_error = None\<rparr>"

lemma sample_outcome_ok: "outcome_ok sample_outcome"
proof -
  have "mk_execution_outcome (''sha256:'' @ replicate 64 (CHR ''b'')) ''a-1'' 0 Outcome_ACCEPTED (utc 0) None
      (None :: unit option) = Inr sample_outcome" by code_simp
  then show ?thesis by (rule mk_execution_outcome_ok)
qed

lemma sample_outcome_served:
  "serve outcome_step [sample_outcome_update 1 (CHR ''c'')] sample_outcome
     = outcome_of (sample_outcome_update 1 (CHR ''c''))"
  by code_simp

theorem outcome_history_witness:
  "outcome_ok sample_outcome
   \<and> outcome_ok (serve outcome_step [sample_outcome_update 1 (CHR ''c'')] sample_outcome)
   \<and> eo_status (serve outcome_step [sample_outcome_update 1 (CHR ''c'')] sample_outcome) = Outcome_SUCCEEDED"
proof -
  have "eo_status (outcome_of (sample_outcome_update 1 (CHR ''c''))) = Outcome_SUCCEEDED"
    by (simp add: outcome_of_def sample_outcome_update_def)
  moreover note outcome_history [OF sample_outcome_ok refl, of "[sample_outcome_update 1 (CHR ''c'')]"]
  ultimately show ?thesis using sample_outcome_ok unfolding sample_outcome_served by blast
qed

text \<open>A published result can be replaced. The transition table lets a terminal status repeat, and
  nothing compares the result: for every succeeded outcome and every other digest there is a later
  update that is applied, not refused, and leaves the outcome succeeded with the other digest. The
  conflict decision the module declares is never returned.\<close>

theorem succeeded_result_replaceable:
  assumes "outcome_ok s" "eo_status s = Outcome_SUCCEEDED" "is_digest d"
  shows "(\<exists>u r. apply_outcome_update s u = Inr r \<and> or_decision r = Outcome_APPLY
       \<and> or_state r = s\<lparr>eo_sequence := eo_sequence s + 1, eo_result_digest := Some d\<rparr>)
     \<and> (\<forall>u r. apply_outcome_update s u = Inr r \<longrightarrow> or_decision r \<noteq> Outcome_CONFLICT)"
proof
  let ?u = "\<lparr>ou_submission_id = eo_submission_id s, ou_attempt_id = eo_attempt_id s,
    ou_sequence = eo_sequence s + 1, ou_status = Outcome_SUCCEEDED, ou_observed_at = eo_updated_at s,
    ou_result_digest = Some d, ou_error = None\<rparr>"
  have "eo_error s = None" using assms by (auto simp: outcome_ok_def)
  then have "apply_outcome_update s ?u = Inr \<lparr>or_decision = Outcome_APPLY,
      or_state = s\<lparr>eo_sequence := eo_sequence s + 1, eo_result_digest := Some d\<rparr>\<rparr>"
    using assms
    by (simp add: apply_outcome_update_def contract_simps mk_execution_outcome_def mk_outcome_update_def Let_def
        outcome_ok_def)
  then show "\<exists>u r. apply_outcome_update s u = Inr r \<and> or_decision r = Outcome_APPLY
       \<and> or_state r = s\<lparr>eo_sequence := eo_sequence s + 1, eo_result_digest := Some d\<rparr>"
    by (intro exI [of _ ?u] exI) auto
  show "\<forall>u r. apply_outcome_update s u = Inr r \<longrightarrow> or_decision r \<noteq> Outcome_CONFLICT"
    by (auto elim: apply_outcome_update_cases)
qed

lemma sample_succeeded_ok: "outcome_ok (outcome_of (sample_outcome_update 1 (CHR ''c'')))"
  using outcomes.serve_inv [OF sample_outcome_ok, of "[sample_outcome_update 1 (CHR ''c'')]"]
  by (simp only: sample_outcome_served)

theorem succeeded_result_replaceable_witness:
  "\<exists>u r. apply_outcome_update (outcome_of (sample_outcome_update 1 (CHR ''c''))) u = Inr r
     \<and> or_decision r = Outcome_APPLY \<and> eo_result_digest (or_state r) = Some (digest_text ''other'')"
  using succeeded_result_replaceable [OF sample_succeeded_ok, of "digest_text ''other''"]
  by (auto simp: outcome_of_def sample_outcome_update_def) fastforce

end
