(* ===== verification/Commands.thy ===== *)
theory Commands
  imports Progress Outcomes
begin

text \<open>
  \<open>src/backend/app/strategy_lab_v2/commands.py\<close>: idempotent cancel and retry commands, decided against
  the attempt's recorded outcome and progress.
\<close>

datatype command_kind = Command_CANCEL | Command_RETRY

fun command_kind_value :: "command_kind \<Rightarrow> string" where
  "command_kind_value Command_CANCEL = ''cancel''"
| "command_kind_value Command_RETRY = ''retry''"

record execution_command =
  xc_command_id :: string
  xc_attempt_id :: string
  xc_kind :: command_kind
  xc_requested_at :: instant
  xc_reason :: string

definition mk_execution_command ::
  "string \<Rightarrow> string \<Rightarrow> command_kind \<Rightarrow> datetime \<Rightarrow> string \<Rightarrow> execution_command result" where
  "mk_execution_command command_id attempt_id kind requested_at reason =
     raising
       (digest_checks command_id ''command_id'' @ [(blank attempt_id, ''attempt_id must not be empty'')])
       (with_aware requested_at ''requested_at must be timezone-aware'' (\<lambda>requested.
        raising [(blank reason, ''reason must not be empty'')]
          (Inr \<lparr>xc_command_id = command_id, xc_attempt_id = attempt_id, xc_kind = kind,
                xc_requested_at = requested, xc_reason = reason\<rparr>)))"

definition command_fingerprint :: "execution_command \<Rightarrow> string" where
  "command_fingerprint c = digest (PMapping
     [(''attempt_id'', PStr (xc_attempt_id c)),
      (''command_id'', PStr (xc_command_id c)),
      (''kind'', PEnum ''app.strategy_lab_v2.commands.ExecutionCommandKind''
         (PStr (command_kind_value (xc_kind c)))),
      (''reason'', PStr (xc_reason c))])"

datatype command_effect = Effect_CANCELLATION_REQUESTED | Effect_RETRY_REQUESTED

record command_receipt =
  xr_command_id :: string
  xr_command_fingerprint :: string
  xr_attempt_id :: string
  xr_kind :: command_kind
  xr_effect :: command_effect
  xr_accepted_at :: instant

definition mk_command_receipt ::
  "string \<Rightarrow> string \<Rightarrow> string \<Rightarrow> command_kind \<Rightarrow> command_effect \<Rightarrow> datetime \<Rightarrow> command_receipt result" where
  "mk_command_receipt command_id fp attempt_id kind effect accepted_at =
     raising
       (digest_checks command_id ''command_id''
        @ digest_checks fp ''command_fingerprint''
        @ [(blank attempt_id, ''attempt_id must not be empty'')])
       (with_aware accepted_at ''accepted_at must be timezone-aware'' (\<lambda>accepted.
          Inr \<lparr>xr_command_id = command_id, xr_command_fingerprint = fp, xr_attempt_id = attempt_id,
               xr_kind = kind, xr_effect = effect, xr_accepted_at = accepted\<rparr>))"

type_synonym command_ledger = "command_receipt list"

definition mk_command_ledger :: "command_receipt list \<Rightarrow> command_ledger result" where
  "mk_command_ledger receipts =
     raising [(\<not> distinct (map xr_command_id receipts), ''command ids must be unique'')]
       (Inr (sort_key xr_command_id receipts))"

datatype command_decision = Command_ACCEPT | Command_REPLAY_EXISTING | Command_CONFLICT | Command_REJECT

record command_resolution =
  xn_decision :: command_decision
  xn_ledger :: command_ledger
  xn_command_fingerprint :: string
  xn_receipt :: "command_receipt option"
  xn_rejection_reason :: "string option"

definition mk_command_resolution ::
  "command_decision \<Rightarrow> command_ledger \<Rightarrow> string \<Rightarrow> command_receipt option \<Rightarrow> string option
     \<Rightarrow> command_resolution result" where
  "mk_command_resolution decision ledger fp receipt reason =
     raising
       (digest_checks fp ''command_fingerprint''
        @ [(decision \<in> {Command_ACCEPT, Command_REPLAY_EXISTING} \<and> receipt = None,
              ''accepted command resolutions require a receipt''),
           (decision \<in> {Command_CONFLICT, Command_REJECT} \<and> (reason = None \<or> reason = Some []),
              ''conflicts and rejections require a reason''),
           (decision \<notin> {Command_CONFLICT, Command_REJECT} \<and> \<not> (reason = None \<or> reason = Some []),
              ''successful command resolutions cannot contain a reason'')])
       (Inr \<lparr>xn_decision = decision, xn_ledger = ledger, xn_command_fingerprint = fp,
             xn_receipt = receipt, xn_rejection_reason = reason\<rparr>)"

definition resolve_execution_command ::
  "command_ledger \<Rightarrow> execution_command \<Rightarrow> 'e execution_outcome \<Rightarrow> progress_state \<Rightarrow> datetime
     \<Rightarrow> command_resolution result" where
  "resolve_execution_command ledger command outcome progress accepted_at =
     with_aware accepted_at ''accepted_at must be timezone-aware'' (\<lambda>accepted.
     raising [(accepted < xc_requested_at command, ''command acceptance cannot precede request'')]
       (let fp = command_fingerprint command;
            reject = (\<lambda>r. mk_command_resolution Command_REJECT ledger fp None (Some r));
            accept = (\<lambda>effect.
              rbind (mk_command_receipt (xc_command_id command) fp (xc_attempt_id command) (xc_kind command)
                       effect accepted_at) (\<lambda>receipt.
              rbind (mk_command_ledger (ledger @ [receipt])) (\<lambda>next.
                mk_command_resolution Command_ACCEPT next fp (Some receipt) None)))
        in if xc_attempt_id command \<noteq> eo_attempt_id outcome
              \<or> xc_attempt_id command \<noteq> pg_attempt_id progress then
             reject ''command attempt does not match outcome and progress''
           else case find (\<lambda>i. xr_command_id i = xc_command_id command) ledger of
             Some existing \<Rightarrow>
               if xr_command_fingerprint existing = fp
               then mk_command_resolution Command_REPLAY_EXISTING ledger fp (Some existing) None
               else mk_command_resolution Command_CONFLICT ledger fp None
                      (Some ''command id is already bound to different content'')
           | None \<Rightarrow>
               if xc_kind command = Command_CANCEL then
                 (if eo_status outcome \<in> {Outcome_SUCCEEDED, Outcome_FAILED, Outcome_CANCELLED}
                     \<or> pg_phase progress \<in> {Phase_SUCCEEDED, Phase_FAILED, Phase_CANCELLED}
                  then reject ''terminal executions cannot be cancelled''
                  else accept Effect_CANCELLATION_REQUESTED)
               else
                 (if eo_status outcome \<noteq> Outcome_FAILED \<or> pg_phase progress \<noteq> Phase_FAILED
                  then reject ''retry requires a failed execution''
                  else accept Effect_RETRY_REQUESTED)))"

section \<open>Decisions\<close>

definition command_ok :: "execution_command \<Rightarrow> bool" where
  "command_ok c \<longleftrightarrow> is_digest (xc_command_id c) \<and> \<not> blank (xc_attempt_id c) \<and> \<not> blank (xc_reason c)"

definition ledger_ok :: "command_ledger \<Rightarrow> bool" where
  "ledger_ok l \<longleftrightarrow> distinct (map xr_command_id l) \<and> sorted (map xr_command_id l)"

text \<open>When a command may take effect, and the receipt it then gets.\<close>

definition command_allowed :: "execution_command \<Rightarrow> 'e execution_outcome \<Rightarrow> progress_state \<Rightarrow> bool" where
  "command_allowed c out pg \<longleftrightarrow> (case xc_kind c of
     Command_CANCEL \<Rightarrow> \<not> terminal_outcome (eo_status out) \<and> pg_phase pg \<notin> terminal_phases
   | Command_RETRY \<Rightarrow> eo_status out = Outcome_FAILED \<and> pg_phase pg = Phase_FAILED)"

definition command_receipt_of :: "execution_command \<Rightarrow> instant \<Rightarrow> command_receipt" where
  "command_receipt_of c t = \<lparr>xr_command_id = xc_command_id c, xr_command_fingerprint = command_fingerprint c,
     xr_attempt_id = xc_attempt_id c, xr_kind = xc_kind c,
     xr_effect = (case xc_kind c of Command_CANCEL \<Rightarrow> Effect_CANCELLATION_REQUESTED
                  | Command_RETRY \<Rightarrow> Effect_RETRY_REQUESTED),
     xr_accepted_at = t\<rparr>"

lemma mk_execution_command_ok: "mk_execution_command i a k t r = Inr c \<Longrightarrow> command_ok c"
  by (auto simp: mk_execution_command_def command_ok_def contract_simps)

lemma command_fingerprint_digest [simp]: "is_digest (command_fingerprint c)"
  by (simp add: command_fingerprint_def is_digest_digest)

lemma mk_command_resolution_simps:
  "is_digest f \<Longrightarrow> m \<noteq> [] \<Longrightarrow> d \<in> {Command_CONFLICT, Command_REJECT} \<Longrightarrow> mk_command_resolution d l f None (Some m)
     = Inr \<lparr>xn_decision = d, xn_ledger = l, xn_command_fingerprint = f, xn_receipt = None,
            xn_rejection_reason = Some m\<rparr>"
  "is_digest f \<Longrightarrow> d \<in> {Command_ACCEPT, Command_REPLAY_EXISTING} \<Longrightarrow> mk_command_resolution d l f (Some r) None
     = Inr \<lparr>xn_decision = d, xn_ledger = l, xn_command_fingerprint = f, xn_receipt = Some r,
            xn_rejection_reason = None\<rparr>"
  by (auto simp: mk_command_resolution_def contract_simps)

lemma ledger_add:
  assumes "ledger_ok l" "find (\<lambda>i. xr_command_id i = xr_command_id r) l = None"
  shows "mk_command_ledger (l @ [r]) = Inr (sort_key xr_command_id (l @ [r]))"
    "ledger_ok (sort_key xr_command_id (l @ [r]))"
proof -
  have d: "distinct (map xr_command_id (l @ [r]))"
    using assms by (auto simp: ledger_ok_def find_None_iff)
  then show "mk_command_ledger (l @ [r]) = Inr (sort_key xr_command_id (l @ [r]))"
    by (simp add: mk_command_ledger_def contract_simps)
  have "distinct (map xr_command_id (sort_key xr_command_id (l @ [r])))"
    using d by (auto simp: distinct_map)
  then show "ledger_ok (sort_key xr_command_id (l @ [r]))" by (simp add: ledger_ok_def del: sort_key_simps)
qed

lemma resolve_execution_command_answers:
  assumes "ledger_ok l" "command_ok c" "xc_requested_at c \<le> t"
  shows "resolve_execution_command l c out pg (Aware t z) = Inr
     (if xc_attempt_id c \<noteq> eo_attempt_id out \<or> xc_attempt_id c \<noteq> pg_attempt_id pg
      then \<lparr>xn_decision = Command_REJECT, xn_ledger = l, xn_command_fingerprint = command_fingerprint c,
            xn_receipt = None, xn_rejection_reason = Some ''command attempt does not match outcome and progress''\<rparr>
      else case find (\<lambda>i. xr_command_id i = xc_command_id c) l of
        Some r \<Rightarrow>
          if xr_command_fingerprint r = command_fingerprint c
          then \<lparr>xn_decision = Command_REPLAY_EXISTING, xn_ledger = l,
                xn_command_fingerprint = command_fingerprint c, xn_receipt = Some r, xn_rejection_reason = None\<rparr>
          else \<lparr>xn_decision = Command_CONFLICT, xn_ledger = l, xn_command_fingerprint = command_fingerprint c,
                xn_receipt = None, xn_rejection_reason = Some ''command id is already bound to different content''\<rparr>
      | None \<Rightarrow>
          if command_allowed c out pg
          then \<lparr>xn_decision = Command_ACCEPT, xn_ledger = sort_key xr_command_id (l @ [command_receipt_of c t]),
                xn_command_fingerprint = command_fingerprint c, xn_receipt = Some (command_receipt_of c t),
                xn_rejection_reason = None\<rparr>
          else \<lparr>xn_decision = Command_REJECT, xn_ledger = l, xn_command_fingerprint = command_fingerprint c,
                xn_receipt = None,
                xn_rejection_reason = Some (case xc_kind c of
                  Command_CANCEL \<Rightarrow> ''terminal executions cannot be cancelled''
                | Command_RETRY \<Rightarrow> ''retry requires a failed execution'')\<rparr>)"
proof -
  have receipt: "mk_command_receipt (xc_command_id c) (command_fingerprint c) (xc_attempt_id c) (xc_kind c)
      (case xc_kind c of Command_CANCEL \<Rightarrow> Effect_CANCELLATION_REQUESTED | Command_RETRY \<Rightarrow> Effect_RETRY_REQUESTED)
      (Aware t z) = Inr (command_receipt_of c t)"
    using assms(2) by (simp add: mk_command_receipt_def command_ok_def command_receipt_of_def contract_simps)
  have id: "xr_command_id (command_receipt_of c t) = xc_command_id c" by (simp add: command_receipt_of_def)
  show ?thesis
    using assms(3) receipt ledger_add(1) [OF assms(1), of "command_receipt_of c t"]
    by (cases "xc_kind c"; cases "find (\<lambda>i. xr_command_id i = xc_command_id c) l")
      (auto simp: resolve_execution_command_def raising.simps Let_def mk_command_resolution_simps id
        command_allowed_def terminal_outcome_def terminal_phases_def)
qed

fun command_step ::
  "execution_command \<times> 'e execution_outcome \<times> progress_state \<times> datetime \<Rightarrow> command_ledger \<Rightarrow> command_ledger result"
where
  "command_step (c, out, pg, now) l = rbind (resolve_execution_command l c out pg now) (\<lambda>r. Inr (xn_ledger r))"

lemma resolve_execution_command_ledger:
  assumes "resolve_execution_command l c out pg now = Inr r"
  shows "xn_ledger r = l \<or> (\<exists>x. mk_command_ledger (l @ [x]) = Inr (xn_ledger r))"
  using assms
  by (auto simp: resolve_execution_command_def mk_command_resolution_def contract_simps Let_def
      split: if_splits option.splits)

lemma mk_command_ledger_ok: "mk_command_ledger rs = Inr l \<Longrightarrow> ledger_ok l \<and> set l = set rs"
  by (auto simp: mk_command_ledger_def contract_simps ledger_ok_def distinct_map)

interpretation commands: guarded_machine command_step ledger_ok "\<lambda>l m. set l \<subseteq> set m"
proof
  fix l r l'
  assume "ledger_ok l" "command_step r l = Inr l'"
  then show "ledger_ok l'" "set l \<subseteq> set l'"
    by (cases r; auto dest!: resolve_execution_command_ledger dest: mk_command_ledger_ok)+
qed auto

text \<open>The answer to a command whose id is bound to a receipt.\<close>

definition bound_answer :: "command_receipt \<Rightarrow> execution_command \<Rightarrow> command_resolution \<Rightarrow> bool" where
  "bound_answer r d q \<longleftrightarrow>
     (if command_fingerprint d = xr_command_fingerprint r
      then xn_decision q = Command_REPLAY_EXISTING \<and> xn_receipt q = Some r
      else xn_decision q = Command_CONFLICT)"

lemma ledger_find:
  assumes "ledger_ok l" "r \<in> set l"
  shows "find (\<lambda>i. xr_command_id i = xr_command_id r) l = Some r"
proof (cases "find (\<lambda>i. xr_command_id i = xr_command_id r) l")
  case None
  with assms(2) show ?thesis by (auto simp: find_None_iff)
next
  case (Some q)
  then have "q \<in> set l" "xr_command_id q = xr_command_id r" by (auto simp: find_Some_iff)
  with assms have "q = r" by (auto simp: ledger_ok_def distinct_map inj_on_def)
  with Some show ?thesis by simp
qed

lemma bound_command_answered:
  assumes "ledger_ok m" "r \<in> set m" "xc_command_id d = xr_command_id r" "command_ok d" "xc_requested_at d \<le> u"
    "xc_attempt_id d = eo_attempt_id out" "xc_attempt_id d = pg_attempt_id pg"
  shows "\<exists>q. resolve_execution_command (serve command_step qs m) d out pg (Aware u y) = Inr q \<and> bound_answer r d q"
proof -
  have m: "ledger_ok (serve command_step qs m)" "r \<in> set (serve command_step qs m)"
    using commands.serve_inv [OF assms(1), of qs] commands.serve_le [OF assms(1), of qs] assms(2) by auto
  have "find (\<lambda>i. xr_command_id i = xc_command_id d) (serve command_step qs m) = Some r"
    using ledger_find [OF m] assms(3) by simp
  with resolve_execution_command_answers [OF m(1) assms(4,5), of out pg y] assms(6,7)
  show ?thesis by (auto simp: bound_answer_def)
qed

section \<open>Properties\<close>

text \<open>A command takes effect at most once. Whatever commands were served, the ledger keeps one
  receipt per command id and forgets none. A valid command of the attempt is always answered; it is
  accepted exactly when its id is new and its precondition holds (cancel: neither outcome nor
  progress terminal; retry: both failed), and from then on, after any further commands and whatever
  became of the execution, the same command is answered with that receipt and another command
  under its id with a conflict.\<close>

theorem command_exactly_once:
  assumes "ledger_ok l0" and l: "l = serve command_step rs l0"
    and "command_ok c" "xc_requested_at c \<le> t"
    and "xc_attempt_id c = eo_attempt_id out" "xc_attempt_id c = pg_attempt_id pg"
  shows "ledger_ok l \<and> set l0 \<subseteq> set l
    \<and> (\<exists>r. resolve_execution_command l c out pg (Aware t z) = Inr r
      \<and> (xn_decision r = Command_ACCEPT \<longleftrightarrow>
           xc_command_id c \<notin> xr_command_id ` set l \<and> command_allowed c out pg)
      \<and> (xn_decision r = Command_ACCEPT \<longrightarrow> set (xn_ledger r) = insert (command_receipt_of c t) (set l)
         \<and> (\<forall>qs d out' pg' u y. xc_command_id d = xc_command_id c \<longrightarrow> command_ok d \<longrightarrow> xc_requested_at d \<le> u
             \<longrightarrow> xc_attempt_id d = eo_attempt_id out' \<longrightarrow> xc_attempt_id d = pg_attempt_id pg' \<longrightarrow>
             (\<exists>q. resolve_execution_command (serve command_step qs (xn_ledger r)) d out' pg' (Aware u y) = Inr q
                \<and> bound_answer (command_receipt_of c t) d q))))"
proof -
  have ok: "ledger_ok l" "set l0 \<subseteq> set l"
    unfolding l using assms(1) by (simp_all add: commands.serve_inv commands.serve_le)
  define r where "r = command_receipt_of c t"
  have rid: "xr_command_id r = xc_command_id c" "xr_command_fingerprint r = command_fingerprint c"
    by (simp_all add: r_def command_receipt_of_def)
  show ?thesis
  proof (cases "find (\<lambda>i. xr_command_id i = xc_command_id c) l")
    case None
    then have new: "xc_command_id c \<notin> xr_command_id ` set l" by (auto simp: find_None_iff)
    have "ledger_ok (sort_key xr_command_id (l @ [r]))"
      using ledger_add(2) [OF ok(1), of r] None rid(1) by simp
    note later = bound_command_answered [OF this, of r, unfolded rid(1)]
    show ?thesis
      using resolve_execution_command_answers [OF ok(1) assms(3,4), of out pg z] assms(5,6) None new ok
      by (auto simp flip: r_def simp del: sort_key_simps intro!: later)
  next
    case (Some x)
    then have "xc_command_id c \<in> xr_command_id ` set l"
      by (auto simp: find_Some_iff intro: rev_image_eqI [OF nth_mem])
    with resolve_execution_command_answers [OF ok(1) assms(3,4), of out pg z] assms(5,6) Some ok
    show ?thesis by auto
  qed
qed

definition sample_cancel :: execution_command where
  "sample_cancel = \<lparr>xc_command_id = digest_text ''c'', xc_attempt_id = ''a-1'', xc_kind = Command_CANCEL,
     xc_requested_at = 1, xc_reason = ''stop''\<rparr>"

lemma sample_cancel_ok: "command_ok sample_cancel"
  by (simp add: command_ok_def sample_cancel_def blank_iff py_space_def)

theorem command_exactly_once_witness:
  "command_ok sample_cancel
   \<and> (\<exists>r. resolve_execution_command [] sample_cancel sample_outcome sample_progress (Aware 2 0) = Inr r
        \<and> xn_decision r = Command_ACCEPT)"
  using command_exactly_once [where ?l0.0 = "[]" and rs = "[]" and l = "[]" and c = sample_cancel and t = 2
      and z = 0 and out = sample_outcome and pg = sample_progress] sample_cancel_ok
  by (auto simp: ledger_ok_def sample_cancel_def sample_outcome_def sample_progress_def command_allowed_def
      terminal_outcome_def terminal_phases_def)

text \<open>A finished execution refuses commands for good. Once the recorded outcome is a success or a
  cancellation, no cancel or retry command is accepted any more, whatever further outcome and
  progress updates arrive; once it is a failure, none is accepted but a retry.\<close>

theorem finished_execution_refuses:
  assumes "outcome_ok out" "terminal_outcome (eo_status out)" and "ledger_ok l" "command_ok c"
    and "xc_requested_at c \<le> t" and "eo_status out = Outcome_FAILED \<longrightarrow> xc_kind c = Command_CANCEL"
  shows "\<exists>r. resolve_execution_command l c (serve outcome_step us out) (serve progress_step ps pg) (Aware t z) = Inr r
     \<and> xn_decision r \<noteq> Command_ACCEPT \<and> xn_ledger r = l"
proof -
  let ?out = "serve outcome_step us out"
  have "eo_status ?out \<in> allowed_transitions (eo_status out)"
    using outcomes.serve_le [OF assms(1), of us] by (simp add: outcome_le_def)
  then have "eo_status ?out = eo_status out"
    using assms(2) by (cases "eo_status out") (auto simp: terminal_outcome_def)
  then have no: "\<not> command_allowed c ?out (serve progress_step ps pg)"
    using assms(2,6) by (cases "xc_kind c") (auto simp: command_allowed_def terminal_outcome_def)
  show ?thesis
    unfolding resolve_execution_command_answers [OF assms(3-5)]
    by (simp add: no split: option.split)
qed

theorem finished_execution_refuses_witness:
  "\<exists>r. resolve_execution_command [] sample_cancel
        (serve outcome_step [] (outcome_of (sample_outcome_update 1 (CHR ''c''))))
        (serve progress_step [] sample_progress) (Aware 2 0) = Inr r \<and> xn_decision r \<noteq> Command_ACCEPT"
  using finished_execution_refuses [OF sample_succeeded_ok _ _ sample_cancel_ok, of "[]" 2 "[]" "[]" sample_progress 0]
  by (auto simp: terminal_outcome_def outcome_of_def sample_outcome_update_def ledger_ok_def sample_cancel_def)

end
