(* ===== verification/Execution_Terminal.thy ===== *)
theory Execution_Terminal
  imports Submissions Outcomes Progress Runtime_Execution
begin

text \<open>
  \<open>src/backend/app/strategy_lab_v2/execution_terminal.py\<close>: the projection of a finished runtime to the public outcome
  and progress of its submission, as one decision. Of the official result manifest the function reads
  the attempt it belongs to and its fingerprint, which are what \<open>result_ref\<close> holds; the API error stays the
  type parameter it is in Outcomes.
\<close>

record result_ref =
  rr_attempt_id :: string
  rr_fingerprint :: string

datatype terminal_decision =
    Terminal_SUCCEEDED | Terminal_FAILED | Terminal_CANCELLED | Terminal_REPLAY_EXISTING | Terminal_REJECT

record 'e terminal_resolution =
  tr_decision :: terminal_decision
  tr_outcome :: "'e execution_outcome"
  tr_progress :: progress_state
  tr_rejection_reason :: "string option"

definition mk_terminal_resolution ::
  "terminal_decision \<Rightarrow> 'e execution_outcome \<Rightarrow> progress_state \<Rightarrow> string option \<Rightarrow> 'e terminal_resolution result" where
  "mk_terminal_resolution decision outcome progress reason =
     raising
       [(decision = Terminal_REJECT \<and> (reason = None \<or> reason = Some []),
           ''rejected terminal resolutions require a reason''),
        (decision \<noteq> Terminal_REJECT \<and> \<not> (reason = None \<or> reason = Some []),
           ''accepted terminal resolutions cannot contain a reason'')]
       (Inr \<lparr>tr_decision = decision, tr_outcome = outcome, tr_progress = progress, tr_rejection_reason = reason\<rparr>)"

definition reject_terminal :: "'e execution_outcome \<Rightarrow> progress_state \<Rightarrow> string \<Rightarrow> 'e terminal_resolution result" where
  "reject_terminal outcome progress reason = mk_terminal_resolution Terminal_REJECT outcome progress (Some reason)"

definition finished_outcome :: "outcome_status \<Rightarrow> bool" where
  "finished_outcome st \<longleftrightarrow> st \<in> {Outcome_SUCCEEDED, Outcome_FAILED, Outcome_CANCELLED}"

text \<open>The tail of the function, once the desired states are known.\<close>

definition project_terminal ::
  "'e execution_outcome \<Rightarrow> progress_state \<Rightarrow> outcome_status \<Rightarrow> progress_phase \<Rightarrow> string option \<Rightarrow> 'e option \<Rightarrow> datetime
     \<Rightarrow> terminal_decision \<Rightarrow> 'e terminal_resolution result" where
  "project_terminal outcome progress desired_outcome desired_progress result_digest error observed_at decision =
     (if finished_outcome (eo_status outcome) \<or> pg_phase progress \<in> terminal_phases then
        (if eo_status outcome = desired_outcome \<and> pg_phase progress = desired_progress
            \<and> (desired_outcome = Outcome_SUCCEEDED \<and> eo_result_digest outcome = result_digest
               \<or> desired_outcome = Outcome_FAILED \<and> eo_error outcome = error
               \<or> desired_outcome = Outcome_CANCELLED \<and> eo_error outcome = None)
         then mk_terminal_resolution Terminal_REPLAY_EXISTING outcome progress None
         else reject_terminal outcome progress ''terminal outcome and progress conflict with runtime'')
      else
        case rbind (mk_outcome_update (eo_submission_id outcome) (eo_attempt_id outcome) (eo_sequence outcome + 1)
                      desired_outcome observed_at result_digest error) (\<lambda>update.
             rbind (apply_outcome_update outcome update) (\<lambda>outcome_resolution.
             rbind (mk_progress_update (pg_attempt_id progress) (pg_sequence progress + 1) desired_progress
                      (if desired_progress = Phase_SUCCEEDED then pg_total_units progress else pg_completed_units progress)
                      (pg_total_units progress) observed_at ''runtime terminal materialized'') (\<lambda>progress_update.
             rbind (apply_progress_update progress progress_update) (\<lambda>progress_state.
               Inr (or_state outcome_resolution, progress_state))))) of
          Inl (TypeError m) \<Rightarrow> reject_terminal outcome progress m
        | Inl (ValueError m) \<Rightarrow> reject_terminal outcome progress m
        | Inl err \<Rightarrow> Inl err
        | Inr (o', p) \<Rightarrow> mk_terminal_resolution decision o' p None)"

definition materialize_execution_terminal ::
  "submission_receipt \<Rightarrow> runtime_state \<Rightarrow> 'e execution_outcome \<Rightarrow> progress_state \<Rightarrow> result_ref option \<Rightarrow> 'e option
     \<Rightarrow> datetime \<Rightarrow> 'e terminal_resolution result" where
  "materialize_execution_terminal receipt runtime outcome progress result error observed_at =
     with_aware observed_at ''observed_at must be timezone-aware'' (\<lambda>observed.
       let rejected = reject_terminal outcome progress;
           project = (\<lambda>st ph digest. project_terminal outcome progress st ph digest error observed_at)
       in if submission_id receipt \<noteq> eo_submission_id outcome then
            rejected ''submission and outcome identities differ''
          else if sq_attempt_id (sr_request receipt) \<noteq> rs_attempt_id runtime then
            rejected ''submission and runtime attempts differ''
          else if eo_attempt_id outcome \<noteq> rs_attempt_id runtime \<or> pg_attempt_id progress \<noteq> rs_attempt_id runtime then
            rejected ''terminal records reference different attempts''
          else if observed < max (rs_updated_at runtime) (max (eo_updated_at outcome) (pg_updated_at progress)) then
            rejected ''terminal observation time cannot move backwards''
          else case rs_phase runtime of
            Runtime_SUCCEEDED \<Rightarrow>
              if result = None \<or> error \<noteq> None then rejected ''successful runtime requires a result and no error''
              else if rr_attempt_id (the result) \<noteq> rs_attempt_id runtime then
                rejected ''result manifest references a different attempt''
              else if rs_output_digest runtime = None then
                rejected ''successful runtime is missing output evidence''
              else if pg_cancellation_requested progress then rejected ''cancelled execution cannot succeed''
              else project Outcome_SUCCEEDED Phase_SUCCEEDED (Some (rr_fingerprint (the result))) Terminal_SUCCEEDED
          | Runtime_FAILED \<Rightarrow>
              if error = None \<or> result \<noteq> None then rejected ''failed runtime requires an error and no result''
              else if pg_cancellation_requested progress then rejected ''cancelled execution cannot fail''
              else project Outcome_FAILED Phase_FAILED None Terminal_FAILED
          | Runtime_CANCELLED \<Rightarrow>
              if error \<noteq> None \<or> result \<noteq> None then rejected ''cancelled runtime cannot contain result or error''
              else if \<not> pg_cancellation_requested progress then
                rejected ''cancelled runtime requires a cancellation request''
              else project Outcome_CANCELLED Phase_CANCELLED None Terminal_CANCELLED
          | _ \<Rightarrow> rejected ''runtime execution is not terminal'')"

section \<open>The projection of valid evidence never fails\<close>

definition outcome_evidence :: "outcome_status \<Rightarrow> string option \<Rightarrow> 'e option \<Rightarrow> bool" where
  "outcome_evidence st d err \<longleftrightarrow>
     (if st = Outcome_SUCCEEDED then (\<exists>x. d = Some x \<and> is_digest x) \<and> err = None else d = None)"

definition closed_outcome :: "'e execution_outcome \<Rightarrow> outcome_status \<Rightarrow> string option \<Rightarrow> 'e option \<Rightarrow> instant \<Rightarrow> 'e execution_outcome" where
  "closed_outcome o' st d err t = o'\<lparr>eo_sequence := eo_sequence o' + 1, eo_status := st, eo_updated_at := t,
     eo_result_digest := d, eo_error := err\<rparr>"

definition closed_progress :: "progress_state \<Rightarrow> progress_phase \<Rightarrow> instant \<Rightarrow> progress_state" where
  "closed_progress p ph t = p\<lparr>pg_sequence := pg_sequence p + 1, pg_phase := ph,
     pg_completed_units := (if ph = Phase_SUCCEEDED then pg_total_units p else pg_completed_units p), pg_updated_at := t\<rparr>"

lemma outcome_closes:
  assumes ok: "outcome_ok o'" and unfinished: "\<not> finished_outcome (eo_status o')" "eo_updated_at o' \<le> t"
    and st: "finished_outcome st" "outcome_evidence st d err"
  shows "\<exists>u. mk_outcome_update (eo_submission_id o') (eo_attempt_id o') (eo_sequence o' + 1) st (Aware t z) d err = Inr u
    \<and> apply_outcome_update o' u = Inr \<lparr>or_decision = Outcome_APPLY, or_state = closed_outcome o' st d err t\<rparr>"
proof -
  have seq: "0 \<le> eo_sequence o'" and ids: "\<not> blank (eo_submission_id o')" "\<not> blank (eo_attempt_id o')" "is_digest (eo_submission_id o')"
    using ok by (simp_all add: outcome_ok_def)
  have made: "mk_outcome_update (eo_submission_id o') (eo_attempt_id o') (eo_sequence o' + 1) st (Aware x y) d err
      = Inr \<lparr>ou_submission_id = eo_submission_id o', ou_attempt_id = eo_attempt_id o', ou_sequence = eo_sequence o' + 1,
          ou_status = st, ou_observed_at = x, ou_result_digest = d, ou_error = err\<rparr>" for x y
    using seq ids st
    by (auto simp: mk_outcome_update_def raising_Inr_iff digests_clean opt_digests_clean outcome_evidence_def
        finished_outcome_def split: if_splits)
  have "st \<in> allowed_transitions (eo_status o')"
    using unfinished(1) st(1) by (cases "eo_status o'") (auto simp: finished_outcome_def)
  then show ?thesis
    using made [of t z] made [of t 0] seq unfinished(2)
    by (cases o')
      (auto simp: apply_outcome_update_def mk_execution_outcome_def Let_def raising.simps utc_def closed_outcome_def)
qed

lemma progress_closes:
  assumes ok: "progress_ok p" and unfinished: "pg_phase p \<notin> terminal_phases"
    and ph: "ph \<in> terminal_phases" "pg_cancellation_requested p \<longrightarrow> ph = Phase_CANCELLED"
  shows "\<exists>u. mk_progress_update (pg_attempt_id p) (pg_sequence p + 1) ph
      (if ph = Phase_SUCCEEDED then pg_total_units p else pg_completed_units p) (pg_total_units p) (Aware t z) m = Inr u
    \<and> apply_progress_update p u = Inr (closed_progress p ph t)"
proof -
  have "mk_progress_update (pg_attempt_id p) (pg_sequence p + 1) ph
      (if ph = Phase_SUCCEEDED then pg_total_units p else pg_completed_units p) (pg_total_units p) (Aware t z) m
    = Inr \<lparr>pu_attempt_id = pg_attempt_id p, pu_sequence = pg_sequence p + 1, pu_phase = ph,
        pu_completed_units = (if ph = Phase_SUCCEEDED then pg_total_units p else pg_completed_units p),
        pu_total_units = pg_total_units p, pu_emitted_at = t, pu_detail = m\<rparr>"
    using ok by (auto simp: mk_progress_update_def raising.simps progress_ok_def)
  then show ?thesis
    using ok unfinished ph by (auto simp: apply_progress_update_Inr closed_progress_def progress_ok_def)
qed

lemma mk_terminal_resolution_simps:
  "d \<noteq> Terminal_REJECT \<Longrightarrow> mk_terminal_resolution d o' p None
     = Inr \<lparr>tr_decision = d, tr_outcome = o', tr_progress = p, tr_rejection_reason = None\<rparr>"
  "m \<noteq> [] \<Longrightarrow> reject_terminal o' p m
     = Inr \<lparr>tr_decision = Terminal_REJECT, tr_outcome = o', tr_progress = p, tr_rejection_reason = Some m\<rparr>"
  by (simp_all add: mk_terminal_resolution_def reject_terminal_def raising.simps)

text \<open>What the evidence of a terminal decision must be, and what the records must be to accept it.\<close>

definition terminal_open :: "'e execution_outcome \<Rightarrow> progress_state \<Rightarrow> bool" where
  "terminal_open o' p \<longleftrightarrow> \<not> finished_outcome (eo_status o') \<and> pg_phase p \<notin> terminal_phases"

lemma project_terminal_open:
  assumes "outcome_ok o'" "progress_ok p" "terminal_open o' p" "eo_updated_at o' \<le> t"
    and "finished_outcome st" "outcome_evidence st d err" "ph \<in> terminal_phases"
      "pg_cancellation_requested p \<longrightarrow> ph = Phase_CANCELLED" "dec \<noteq> Terminal_REJECT"
  shows "project_terminal o' p st ph d err (Aware t z) dec
    = Inr \<lparr>tr_decision = dec, tr_outcome = closed_outcome o' st d err t, tr_progress = closed_progress p ph t,
        tr_rejection_reason = None\<rparr>"
proof -
  obtain u where u: "mk_outcome_update (eo_submission_id o') (eo_attempt_id o') (eo_sequence o' + 1) st (Aware t z) d err = Inr u"
    "apply_outcome_update o' u = Inr \<lparr>or_decision = Outcome_APPLY, or_state = closed_outcome o' st d err t\<rparr>"
    using outcome_closes [OF assms(1) _ assms(4,5,6)] assms(3) by (auto simp: terminal_open_def)
  obtain v where v: "mk_progress_update (pg_attempt_id p) (pg_sequence p + 1) ph
      (if ph = Phase_SUCCEEDED then pg_total_units p else pg_completed_units p) (pg_total_units p) (Aware t z)
      ''runtime terminal materialized'' = Inr v" "apply_progress_update p v = Inr (closed_progress p ph t)"
    using progress_closes [OF assms(2) _ assms(7,8), of t z "''runtime terminal materialized''"] assms(3)
    unfolding terminal_open_def by blast
  from u v assms(3,9) show ?thesis
    by (simp add: project_terminal_def terminal_open_def mk_terminal_resolution_simps)
qed

lemma project_terminal_closed:
  assumes "\<not> terminal_open o' p"
  shows "\<exists>r. project_terminal o' p st ph d err now dec = Inr r \<and> tr_decision r \<in> {Terminal_REPLAY_EXISTING, Terminal_REJECT}
    \<and> tr_outcome r = o' \<and> tr_progress r = p"
  using assms by (auto simp: project_terminal_def terminal_open_def mk_terminal_resolution_simps)

lemma closed_outcome_keeps:
  assumes "outcome_ok o'" "\<not> finished_outcome (eo_status o')" "eo_updated_at o' \<le> t" "finished_outcome st" "outcome_evidence st d err"
  shows "outcome_ok (closed_outcome o' st d err t) \<and> outcome_le o' (closed_outcome o' st d err t)"
proof -
  have "st \<in> allowed_transitions (eo_status o')"
    using assms(2,4) by (cases "eo_status o'") (auto simp: finished_outcome_def)
  with assms show ?thesis
    by (auto simp: outcome_ok_def outcome_le_def closed_outcome_def outcome_evidence_def finished_outcome_def split: if_splits)
qed

lemma closed_progress_keeps:
  assumes "progress_ok p" "pg_phase p \<notin> terminal_phases" "pg_cancellation_requested p \<longrightarrow> ph = Phase_CANCELLED"
  shows "progress_ok (closed_progress p ph t) \<and> progress_le p (closed_progress p ph t)"
  using assms by (auto simp: progress_ok_def progress_le_def closed_progress_def)

fun outcome_of_runtime :: "runtime_phase \<Rightarrow> outcome_status" where
  "outcome_of_runtime Runtime_SUCCEEDED = Outcome_SUCCEEDED"
| "outcome_of_runtime Runtime_FAILED = Outcome_FAILED"
| "outcome_of_runtime Runtime_CANCELLED = Outcome_CANCELLED"
| "outcome_of_runtime Runtime_RUNNING = Outcome_RUNNING"
| "outcome_of_runtime Runtime_ACCEPTED = Outcome_ACCEPTED"

fun progress_of_runtime :: "runtime_phase \<Rightarrow> progress_phase" where
  "progress_of_runtime Runtime_SUCCEEDED = Phase_SUCCEEDED"
| "progress_of_runtime Runtime_FAILED = Phase_FAILED"
| "progress_of_runtime Runtime_CANCELLED = Phase_CANCELLED"
| "progress_of_runtime Runtime_RUNNING = Phase_RUNNING"
| "progress_of_runtime Runtime_ACCEPTED = Phase_QUEUED"

fun decision_of_runtime :: "runtime_phase \<Rightarrow> terminal_decision" where
  "decision_of_runtime Runtime_SUCCEEDED = Terminal_SUCCEEDED"
| "decision_of_runtime Runtime_FAILED = Terminal_FAILED"
| "decision_of_runtime Runtime_CANCELLED = Terminal_CANCELLED"
| "decision_of_runtime _ = Terminal_REJECT"

text \<open>The evidence a finished runtime must come with.\<close>

definition terminal_ready ::
  "submission_receipt \<Rightarrow> runtime_state \<Rightarrow> 'e execution_outcome \<Rightarrow> progress_state \<Rightarrow> result_ref option \<Rightarrow> 'e option \<Rightarrow> instant
     \<Rightarrow> bool" where
  "terminal_ready q rt o' p result err t \<longleftrightarrow> submission_id q = eo_submission_id o'
     \<and> sq_attempt_id (sr_request q) = rs_attempt_id rt \<and> eo_attempt_id o' = rs_attempt_id rt
     \<and> pg_attempt_id p = rs_attempt_id rt
     \<and> rs_updated_at rt \<le> t \<and> eo_updated_at o' \<le> t \<and> pg_updated_at p \<le> t
     \<and> (case rs_phase rt of
          Runtime_SUCCEEDED \<Rightarrow> (\<exists>m. result = Some m \<and> rr_attempt_id m = rs_attempt_id rt) \<and> err = None
            \<and> rs_output_digest rt \<noteq> None \<and> \<not> pg_cancellation_requested p
        | Runtime_FAILED \<Rightarrow> err \<noteq> None \<and> result = None \<and> \<not> pg_cancellation_requested p
        | Runtime_CANCELLED \<Rightarrow> err = None \<and> result = None \<and> pg_cancellation_requested p
        | _ \<Rightarrow> False)"

lemma materialize_ready:
  assumes "terminal_ready q rt o' p result err t"
  shows "materialize_execution_terminal q rt o' p result err (Aware t z)
    = project_terminal o' p (outcome_of_runtime (rs_phase rt)) (progress_of_runtime (rs_phase rt))
        (map_option rr_fingerprint result) err (Aware t z) (decision_of_runtime (rs_phase rt))"
  using assms
  by (cases "rs_phase rt") (auto simp: materialize_execution_terminal_def terminal_ready_def Let_def)

lemma materialize_not_ready:
  assumes "\<not> terminal_ready q rt o' p result err t"
  shows "\<exists>m. m \<noteq> [] \<and> materialize_execution_terminal q rt o' p result err (Aware t z) = reject_terminal o' p m"
proof -
  have "materialize_execution_terminal q rt o' p result err (Aware t z)
      \<in> reject_terminal o' p ` {m. m \<noteq> []}" if "rs_phase rt = ph" for ph
    using assms that
    by (cases ph)
      (auto simp: materialize_execution_terminal_def terminal_ready_def Let_def not_less less_max_iff_disj)
  then show ?thesis by auto
qed

lemma ready_evidence:
  assumes "terminal_ready q rt o' p result err t" "\<forall>m. result = Some m \<longrightarrow> is_digest (rr_fingerprint m)"
  shows "finished_outcome (outcome_of_runtime (rs_phase rt))"
    "outcome_evidence (outcome_of_runtime (rs_phase rt)) (map_option rr_fingerprint result) err"
    "progress_of_runtime (rs_phase rt) \<in> terminal_phases"
    "pg_cancellation_requested p \<longrightarrow> progress_of_runtime (rs_phase rt) = Phase_CANCELLED"
    "decision_of_runtime (rs_phase rt) \<notin> {Terminal_REJECT, Terminal_REPLAY_EXISTING}"
    "eo_updated_at o' \<le> t"
  using assms
  by (cases "rs_phase rt"; auto simp: terminal_ready_def finished_outcome_def outcome_evidence_def terminal_phases_def)+

lemma materialize_applies:
  assumes ok: "outcome_ok o'" "progress_ok p" and "terminal_open o' p"
    and "terminal_ready q rt o' p result err t" "\<forall>m. result = Some m \<longrightarrow> is_digest (rr_fingerprint m)"
  shows "materialize_execution_terminal q rt o' p result err (Aware t z)
    = Inr \<lparr>tr_decision = decision_of_runtime (rs_phase rt),
        tr_outcome = closed_outcome o' (outcome_of_runtime (rs_phase rt)) (map_option rr_fingerprint result) err t,
        tr_progress = closed_progress p (progress_of_runtime (rs_phase rt)) t, tr_rejection_reason = None\<rparr>"
proof -
  note e = ready_evidence [OF assms(4,5)]
  have "decision_of_runtime (rs_phase rt) \<noteq> Terminal_REJECT" using e(5) by simp
  with materialize_ready [OF assms(4)] project_terminal_open [OF ok assms(3) e(6) e(1-4)] show ?thesis by simp
qed

lemma materialize_replays:
  assumes "terminal_ready q rt o' p result err t" "\<forall>m. result = Some m \<longrightarrow> is_digest (rr_fingerprint m)"
  defines "o1 \<equiv> closed_outcome o' (outcome_of_runtime (rs_phase rt)) (map_option rr_fingerprint result) err t"
    and "p1 \<equiv> closed_progress p (progress_of_runtime (rs_phase rt)) t"
  shows "materialize_execution_terminal q rt o1 p1 result err (Aware t z)
    = Inr \<lparr>tr_decision = Terminal_REPLAY_EXISTING, tr_outcome = o1, tr_progress = p1, tr_rejection_reason = None\<rparr>"
proof -
  have "terminal_ready q rt o1 p1 result err t"
    using assms(1) by (cases "rs_phase rt") (auto simp: terminal_ready_def o1_def p1_def closed_outcome_def closed_progress_def)
  moreover have "project_terminal o1 p1 (outcome_of_runtime (rs_phase rt)) (progress_of_runtime (rs_phase rt))
      (map_option rr_fingerprint result) err (Aware t z) (decision_of_runtime (rs_phase rt))
    = Inr \<lparr>tr_decision = Terminal_REPLAY_EXISTING, tr_outcome = o1, tr_progress = p1, tr_rejection_reason = None\<rparr>"
    using assms(1)
    by (cases "rs_phase rt")
      (auto simp: terminal_ready_def project_terminal_def o1_def p1_def closed_outcome_def closed_progress_def
        finished_outcome_def mk_terminal_resolution_simps)
  ultimately show ?thesis by (simp add: materialize_ready)
qed

section \<open>Properties\<close>

text \<open>C17: a finished runtime is published whole or not at all. Projecting a runtime to a valid outcome and a
  valid progress always answers, keeps both valid and moves both forward. It is accepted exactly when
  the records belong together, no time goes back, the evidence fits the phase (a result and an output
  for a success, an error for a failure, a cancellation request for a cancellation) and neither record
  is finished; then outcome and progress reach the state of the runtime together, with the fingerprint
  of the result, and projecting again replays. Otherwise nothing changes.\<close>

theorem terminal_projection:
  assumes ok: "outcome_ok o'" "progress_ok p" and res: "\<forall>m. result = Some m \<longrightarrow> is_digest (rr_fingerprint m)"
  shows "\<exists>r. materialize_execution_terminal q rt o' p result err (Aware t z) = Inr r
    \<and> outcome_ok (tr_outcome r) \<and> outcome_le o' (tr_outcome r)
    \<and> progress_ok (tr_progress r) \<and> progress_le p (tr_progress r)
    \<and> (tr_decision r \<in> {Terminal_REJECT, Terminal_REPLAY_EXISTING} \<longrightarrow> tr_outcome r = o' \<and> tr_progress r = p)
    \<and> (tr_decision r \<notin> {Terminal_REJECT, Terminal_REPLAY_EXISTING} \<longleftrightarrow>
         terminal_ready q rt o' p result err t \<and> terminal_open o' p)
    \<and> (tr_decision r \<notin> {Terminal_REJECT, Terminal_REPLAY_EXISTING} \<longrightarrow>
         eo_status (tr_outcome r) = outcome_of_runtime (rs_phase rt)
         \<and> pg_phase (tr_progress r) = progress_of_runtime (rs_phase rt)
         \<and> eo_result_digest (tr_outcome r) = map_option rr_fingerprint result \<and> eo_error (tr_outcome r) = err
         \<and> materialize_execution_terminal q rt (tr_outcome r) (tr_progress r) result err (Aware t z)
             = Inr \<lparr>tr_decision = Terminal_REPLAY_EXISTING, tr_outcome = tr_outcome r, tr_progress = tr_progress r,
                 tr_rejection_reason = None\<rparr>)"
proof (cases "terminal_ready q rt o' p result err t")
  case False
  then obtain m where "m \<noteq> []" "materialize_execution_terminal q rt o' p result err (Aware t z) = reject_terminal o' p m"
    using materialize_not_ready by blast
  with False ok outcomes.le_refl [of o'] progress.le_refl [of p] show ?thesis by (simp add: mk_terminal_resolution_simps)
next
  case ready: True
  note e = ready_evidence [OF ready res]
  show ?thesis
  proof (cases "terminal_open o' p")
    case False
    then obtain r where "materialize_execution_terminal q rt o' p result err (Aware t z) = Inr r"
      "tr_decision r \<in> {Terminal_REPLAY_EXISTING, Terminal_REJECT}" "tr_outcome r = o'" "tr_progress r = p"
      unfolding materialize_ready [OF ready] using project_terminal_closed by blast
    with False ok outcomes.le_refl [of o'] progress.le_refl [of p] show ?thesis by auto
  next
    case True
    then have "\<not> finished_outcome (eo_status o')" "pg_phase p \<notin> terminal_phases" by (simp_all add: terminal_open_def)
    from closed_outcome_keeps [OF ok(1) this(1) e(6,1,2)] closed_progress_keeps [OF ok(2) this(2) e(4)]
      materialize_applies [OF ok True ready res, of z] materialize_replays [OF ready res, of z] e(5) ready True
    show ?thesis by (simp add: closed_outcome_def closed_progress_def)
  qed
qed

definition sample_done_runtime :: runtime_state where
  "sample_done_runtime = runtime_updated sample_runtime sample_receipt_update"

definition sample_open_outcome :: "unit execution_outcome" where
  "sample_open_outcome = \<lparr>eo_submission_id = submission_id sample_accepted_receipt,
     eo_attempt_id = sq_attempt_id (sr_request sample_accepted_receipt), eo_sequence = 0, eo_status = Outcome_ACCEPTED,
     eo_updated_at = 0, eo_result_digest = None, eo_error = None\<rparr>"

definition sample_result :: result_ref where
  "sample_result = \<lparr>rr_attempt_id = ''a-1'', rr_fingerprint = digest_text ''m''\<rparr>"

lemma sample_open_outcome_ok: "outcome_ok sample_open_outcome"
proof -
  have "\<not> blank ''a-1''" by (simp add: blank_iff py_space_def)
  then show ?thesis
    by (simp add: outcome_ok_def sample_open_outcome_def submission_id_def sample_accepted_receipt_def sample_submission_def
        is_digest_not_blank)
qed

lemma sample_terminal:
  "\<forall>m. Some sample_result = Some m \<longrightarrow> is_digest (rr_fingerprint m)"
  "terminal_ready sample_accepted_receipt sample_done_runtime sample_open_outcome sample_progress (Some sample_result) None 9"
  "terminal_open sample_open_outcome sample_progress"
  by (simp_all add: sample_open_outcome_def sample_accepted_receipt_def sample_submission_def
      sample_result_def terminal_ready_def sample_done_runtime_def runtime_updated_def sample_runtime_def
      sample_receipt_update_def sample_progress_def terminal_open_def finished_outcome_def terminal_phases_def)

theorem terminal_projection_witness:
  "\<exists>r. materialize_execution_terminal sample_accepted_receipt sample_done_runtime sample_open_outcome sample_progress
       (Some sample_result) None (Aware 9 0) = Inr r
     \<and> eo_status (tr_outcome r) = Outcome_SUCCEEDED \<and> pg_phase (tr_progress r) = Phase_SUCCEEDED"
proof -
  have "rs_phase sample_done_runtime = Runtime_SUCCEEDED"
    by (simp add: sample_done_runtime_def runtime_updated_def sample_receipt_update_def)
  with terminal_projection [OF sample_open_outcome_ok sample_progress_ok sample_terminal(1),
      of sample_accepted_receipt sample_done_runtime None 9 0] sample_terminal(2,3)
  show ?thesis by auto
qed

end
