(* ===== verification/Lease_Observations.thy ===== *)
theory Lease_Observations
  imports Lifecycle Append_Log
begin

text \<open>
  \<open>src/backend/app/strategy_lab_v2/lease_observations.py\<close>: the ordered heartbeats and the release a
  worker reports for its lease.
\<close>

datatype lease_observation_kind = Lease_HEARTBEAT | Lease_RELEASE

fun lease_observation_kind_value :: "lease_observation_kind \<Rightarrow> string" where
  "lease_observation_kind_value Lease_HEARTBEAT = ''heartbeat''"
| "lease_observation_kind_value Lease_RELEASE = ''release''"

record lease_observation =
  lo_observation_id :: string
  lo_lease_id :: string
  lo_worker_id :: string
  lo_attempt_id :: string
  lo_sequence :: int
  lo_kind :: lease_observation_kind
  lo_observed_at :: instant
  lo_expires_at :: "instant option"

definition mk_lease_observation ::
  "string \<Rightarrow> string \<Rightarrow> string \<Rightarrow> string \<Rightarrow> int \<Rightarrow> lease_observation_kind \<Rightarrow> datetime \<Rightarrow> datetime option
     \<Rightarrow> lease_observation result" where
  "mk_lease_observation observation_id lease_id worker_id attempt_id sequence kind observed_at expires_at =
     raising
       (digest_checks observation_id ''observation_id''
        @ [(blank lease_id, ''lease_id must not be empty''),
           (blank worker_id, ''worker_id must not be empty''),
           (blank attempt_id, ''attempt_id must not be empty''),
           (sequence < 1, ''lease observation sequence must be positive'')])
       (with_aware observed_at ''observed_at must be timezone-aware'' (\<lambda>observed.
        with_aware_opt expires_at ''expires_at must be timezone-aware'' (\<lambda>expires.
        raising
          [((case expires of None \<Rightarrow> False | Some x \<Rightarrow> x \<le> observed),
              ''lease heartbeat expiry must follow observation time''),
           (kind = Lease_HEARTBEAT \<and> expires = None, ''heartbeat observations require expires_at''),
           (kind = Lease_RELEASE \<and> expires \<noteq> None, ''release observations cannot contain expires_at'')]
          (Inr \<lparr>lo_observation_id = observation_id, lo_lease_id = lease_id, lo_worker_id = worker_id,
                lo_attempt_id = attempt_id, lo_sequence = sequence, lo_kind = kind,
                lo_observed_at = observed, lo_expires_at = expires\<rparr>))))"

definition lease_observation_fingerprint :: "lease_observation \<Rightarrow> string" where
  "lease_observation_fingerprint o' = digest (dataclass_py ''app.strategy_lab_v2.lease_observations.LeaseObservation''
     [(''observation_id'', PStr (lo_observation_id o')),
      (''lease_id'', PStr (lo_lease_id o')),
      (''worker_id'', PStr (lo_worker_id o')),
      (''attempt_id'', PStr (lo_attempt_id o')),
      (''sequence'', PInt (lo_sequence o')),
      (''kind'', PEnum ''app.strategy_lab_v2.lease_observations.LeaseObservationKind''
         (PStr (lease_observation_kind_value (lo_kind o')))),
      (''observed_at'', time_py (lo_observed_at o')),
      (''expires_at'', opt_py time_py (lo_expires_at o'))])"

record lease_observation_state =
  lx_lease :: attempt_lease
  lx_applied :: "lease_observation list"

definition lease_matches :: "attempt_lease \<Rightarrow> lease_observation \<Rightarrow> bool" where
  "lease_matches l o' \<longleftrightarrow> lo_lease_id o' = ls_lease_id l \<and> lo_worker_id o' = ls_worker_id l
     \<and> lo_attempt_id o' = ls_attempt_id l"

definition heartbeats :: "lease_observation list \<Rightarrow> lease_observation list" where
  "heartbeats os = filter (\<lambda>o'. lo_kind o' = Lease_HEARTBEAT) os"

definition mk_lease_observation_state ::
  "attempt_lease \<Rightarrow> lease_observation list \<Rightarrow> lease_observation_state result" where
  "mk_lease_observation_state lease observations =
     (let ordered = sort_key lo_sequence observations
      in raising
           [(\<not> list_all (lease_matches lease) observations, ''observations must reference the state lease''),
            (map lo_sequence ordered \<noteq> map int [1..<Suc (length ordered)],
               ''applied lease observation sequences must be contiguous from one''),
            (\<not> distinct (map lo_observation_id ordered), ''observation ids must be unique''),
            (list_ex (\<lambda>o'. lo_kind o' = Lease_RELEASE) (butlast ordered), ''no observations may follow a release''),
            (list_ex (\<lambda>(p, c). lo_observed_at c < lo_observed_at p) (zip ordered (drop 1 ordered)),
               ''lease observation times must be monotonic''),
            (heartbeats ordered \<noteq> []
               \<and> (ls_heartbeat_at lease \<noteq> lo_observed_at (last (heartbeats ordered))
                   \<or> Some (ls_expires_at lease) \<noteq> lo_expires_at (last (heartbeats ordered))),
               ''lease must match its latest heartbeat observation''),
            (ordered \<noteq> [] \<and> lo_kind (last ordered) = Lease_RELEASE
               \<and> ls_released_at lease \<noteq> Some (lo_observed_at (last ordered)),
               ''released lease must match the release observation'')]
           (Inr \<lparr>lx_lease = lease, lx_applied = ordered\<rparr>))"

definition last_sequence :: "lease_observation_state \<Rightarrow> int" where
  "last_sequence s = int (length (lx_applied s))"

datatype lease_observation_decision =
    LeaseObs_APPLY | LeaseObs_REPLAY_EXISTING | LeaseObs_GAP | LeaseObs_STALE | LeaseObs_CONFLICT
  | LeaseObs_REJECT

record lease_observation_resolution =
  ln_decision :: lease_observation_decision
  ln_state :: lease_observation_state
  ln_expected_sequence :: int
  ln_rejection_reason :: "string option"

definition mk_lease_observation_resolution ::
  "lease_observation_decision \<Rightarrow> lease_observation_state \<Rightarrow> int \<Rightarrow> string option
     \<Rightarrow> lease_observation_resolution result" where
  "mk_lease_observation_resolution decision state expected reason =
     raising
       [(expected < 1, ''expected_sequence must be a positive integer''),
        (decision \<in> {LeaseObs_CONFLICT, LeaseObs_REJECT} \<and> (reason = None \<or> reason = Some []),
           ''conflicts and rejections require a reason''),
        (decision \<notin> {LeaseObs_CONFLICT, LeaseObs_REJECT} \<and> \<not> (reason = None \<or> reason = Some []),
           ''non-error resolutions cannot contain a rejection reason'')]
       (Inr \<lparr>ln_decision = decision, ln_state = state, ln_expected_sequence = expected,
             ln_rejection_reason = reason\<rparr>)"

definition apply_lease_observation ::
  "lease_observation_state \<Rightarrow> lease_observation \<Rightarrow> lease_observation_resolution result" where
  "apply_lease_observation state observation =
     (let lease = lx_lease state;
          expected = last_sequence state + 1;
          apply = (\<lambda>next_lease.
            rbind (mk_lease_observation_state next_lease (lx_applied state @ [observation])) (\<lambda>next_state.
              mk_lease_observation_resolution LeaseObs_APPLY next_state expected None))
      in if \<not> lease_matches lease observation then
           mk_lease_observation_resolution LeaseObs_REJECT state expected
             (Some ''observation identity does not match the lease'')
         else case find (\<lambda>i. lo_observation_id i = lo_observation_id observation) (lx_applied state) of
           Some existing \<Rightarrow>
             if lease_observation_fingerprint existing = lease_observation_fingerprint observation
             then mk_lease_observation_resolution LeaseObs_REPLAY_EXISTING state expected None
             else mk_lease_observation_resolution LeaseObs_CONFLICT state expected
                    (Some ''observation id is already bound to different content'')
         | None \<Rightarrow>
             if lo_sequence observation > expected then
               mk_lease_observation_resolution LeaseObs_GAP state expected None
             else if lo_sequence observation < expected then
               mk_lease_observation_resolution LeaseObs_STALE state expected None
             else
               rbind (status_at lease (utc (lo_observed_at observation))) (\<lambda>status.
                 if lo_kind observation = Lease_HEARTBEAT then
                   (if status \<noteq> Lease_ACTIVE then
                      mk_lease_observation_resolution LeaseObs_REJECT state expected
                        (Some (''cannot heartbeat a '' @ lease_status_value status @ '' lease''))
                    else
                      rbind (attempt_lease_remake
                               (lease\<lparr>ls_heartbeat_at := lo_observed_at observation,
                                      ls_expires_at := the (lo_expires_at observation)\<rparr>))
                        apply)
                 else if ls_released_at lease \<noteq> None then
                   mk_lease_observation_resolution LeaseObs_REJECT state expected
                     (Some ''lease is already released'')
                 else rbind (release lease (utc (lo_observed_at observation))) apply))"

section \<open>Invariant and requests\<close>

definition lease_observation_ok :: "lease_observation \<Rightarrow> bool" where
  "lease_observation_ok o' \<longleftrightarrow> is_digest (lo_observation_id o') \<and> \<not> blank (lo_lease_id o')
     \<and> \<not> blank (lo_worker_id o') \<and> \<not> blank (lo_attempt_id o') \<and> 1 \<le> lo_sequence o'
     \<and> (lo_expires_at o' \<noteq> None \<longleftrightarrow> lo_kind o' = Lease_HEARTBEAT)
     \<and> (\<forall>x. lo_expires_at o' = Some x \<longrightarrow> lo_observed_at o' < x)"

definition lease_stream_ok :: "lease_observation_state \<Rightarrow> bool" where
  "lease_stream_ok s \<longleftrightarrow> (let l = lx_lease s; os = lx_applied s in
     attempt_lease_ok l \<and> (\<forall>o' \<in> set os. lease_matches l o')
     \<and> map lo_sequence os = map int [1..<Suc (length os)] \<and> distinct (map lo_observation_id os)
     \<and> (\<forall>o' \<in> set (butlast os). lo_kind o' = Lease_HEARTBEAT)
     \<and> sorted (map lo_observed_at os)
     \<and> (heartbeats os \<noteq> [] \<longrightarrow> ls_heartbeat_at l = lo_observed_at (last (heartbeats os))
          \<and> Some (ls_expires_at l) = lo_expires_at (last (heartbeats os)))
     \<and> (os \<noteq> [] \<and> lo_kind (last os) = Lease_RELEASE \<longrightarrow> ls_released_at l = Some (lo_observed_at (last os))))"

definition observe_lease :: "lease_observation \<Rightarrow> lease_observation_state \<Rightarrow> lease_observation_state result" where
  "observe_lease o' s = rbind (apply_lease_observation s o') (\<lambda>r. Inr (ln_state r))"

lemma mk_lease_observation_ok: "mk_lease_observation i l w a n k t x = Inr o' \<Longrightarrow> lease_observation_ok o'"
  by (cases k) (auto simp: mk_lease_observation_def lease_observation_ok_def contract_simps)

lemma adjacent_sorted:
  "\<not> list_ex (\<lambda>(p, c). f c < f p) (zip xs (drop 1 xs)) \<longleftrightarrow> sorted (map (f :: 'a \<Rightarrow> int) xs)"
proof (induction xs)
  case (Cons x xs)
  then show ?case
  proof (cases xs)
    case (Cons y ys)
    then have "(\<forall>z \<in> set xs. f x \<le> f z) \<longleftrightarrow> f x \<le> f y" if "sorted (map f xs)"
      using that by auto
    with Cons.IH Cons show ?thesis by (auto simp: not_less)
  qed simp
qed simp

lemma not_heartbeat [simp]: "k \<noteq> Lease_HEARTBEAT \<longleftrightarrow> k = Lease_RELEASE" "k \<noteq> Lease_RELEASE \<longleftrightarrow> k = Lease_HEARTBEAT"
  by (cases k; simp)+

lemma no_release: "\<not> list_ex (\<lambda>o'. lo_kind o' = Lease_RELEASE) os \<longleftrightarrow> (\<forall>o' \<in> set os. lo_kind o' = Lease_HEARTBEAT)"
  by (simp add: list_ex_iff)

lemma mk_lease_observation_state_ok:
  assumes "mk_lease_observation_state l os = Inr s" "attempt_lease_ok l"
  shows "lease_stream_ok s \<and> lx_lease s = l \<and> lx_applied s = sort_key lo_sequence os"
  using assms
  by (auto simp: mk_lease_observation_state_def lease_stream_ok_def Let_def contract_simps no_release
      adjacent_sorted [simplified] list_all_iff simp del: upt_Suc)

lemma contiguous_sorted: "sorted (map int [1..<Suc n])"
  by (simp add: sorted_map sorted_wrt_map flip: strict_sorted_iff del: upt_Suc)

lemma sort_contiguous:
  assumes "map f (os :: 'a list) = map int [1..<Suc (length os)]" "f (o' :: 'a) = int (length os) + 1"
  shows "sort_key f (os @ [o']) = os @ [o']"
proof (rule sort_key_id_if_sorted)
  have "map f (os @ [o']) = map int [1..<Suc (length (os @ [o']))]" using assms by simp
  then show "sorted (map f (os @ [o']))" by (metis contiguous_sorted)
qed

lemma mk_lease_observation_resolution_Inr:
  "mk_lease_observation_resolution d s n m = Inr r \<Longrightarrow> ln_decision r = d \<and> ln_state r = s"
  by (auto simp: mk_lease_observation_resolution_def contract_simps)

text \<open>Every answer either keeps the stream or is an \<open>APPLY\<close> whose stream is extended by the observation,
  under the guards of the kind the observation has.\<close>

definition lease_applied :: "lease_observation_state \<Rightarrow> lease_observation \<Rightarrow> lease_observation_state \<Rightarrow> bool" where
  "lease_applied s o' t \<longleftrightarrow> lx_applied t = lx_applied s @ [o'] \<and> lease_stream_ok t
     \<and> lo_sequence o' = last_sequence s + 1
     \<and> (if lo_kind o' = Lease_HEARTBEAT then
          status_at (lx_lease s) (utc (lo_observed_at o')) = Inr Lease_ACTIVE
          \<and> lx_lease t = (lx_lease s)\<lparr>ls_heartbeat_at := lo_observed_at o',
                                      ls_expires_at := the (lo_expires_at o')\<rparr>
        else ls_released_at (lx_lease s) = None
          \<and> lx_lease t = (lx_lease s)\<lparr>ls_released_at := Some (lo_observed_at o')\<rparr>)"

lemma apply_lease_observation_cases:
  assumes ok: "lease_stream_ok s" and r: "apply_lease_observation s o' = Inr r"
  shows "if ln_decision r = LeaseObs_APPLY then lease_applied s o' (ln_state r) else ln_state r = s"
proof -
  have contiguous: "map lo_sequence (lx_applied s) = map int [1..<Suc (length (lx_applied s))]"
    using ok by (simp add: lease_stream_ok_def Let_def del: upt_Suc)
  note sorted = sort_contiguous [OF contiguous]
  have extended: "lease_stream_ok t \<and> lx_lease t = l \<and> lx_applied t = lx_applied s @ [o']"
    if "mk_lease_observation_state l (lx_applied s @ [o']) = Inr t" "attempt_lease_ok l"
      "lo_sequence o' = last_sequence s + 1" for l t
    using mk_lease_observation_state_ok [OF that(1,2)] sorted [of o'] that(3) by (simp add: last_sequence_def)
  show ?thesis
    using r unfolding apply_lease_observation_def Let_def
    by (auto simp: lease_applied_def contract_simps attempt_lease_remake_iff release_Inr utc_def
        dest!: mk_lease_observation_resolution_Inr dest: extended
        split: if_splits option.splits)
qed

lemma observe_lease_Inr: "observe_lease o' s = Inr t \<longleftrightarrow> (\<exists>r. apply_lease_observation s o' = Inr r \<and> ln_state r = t)"
  by (auto simp: observe_lease_def)

lemma observe_lease_cases:
  assumes "lease_stream_ok s" "observe_lease o' s = Inr t"
  shows "t = s \<or> lease_applied s o' t"
proof -
  obtain r where "apply_lease_observation s o' = Inr r" "t = ln_state r"
    using assms(2) by (auto simp: observe_lease_Inr)
  then show ?thesis using apply_lease_observation_cases [OF assms(1), of o' r] by (auto split: if_splits)
qed

interpretation lease_streams: append_log lx_applied lo_sequence "\<lambda>o'. o'" observe_lease lease_stream_ok
proof
  fix s r s'
  assume s: "lease_stream_ok s" "observe_lease r s = Inr s'"
  then show "lease_stream_ok s'" "s' = s \<or> lx_applied s' = lx_applied s @ [r]"
    using observe_lease_cases [OF s] by (auto simp: lease_applied_def)
qed (simp add: lease_stream_ok_def Let_def del: upt_Suc)

definition lease_fixed :: "lease_observation_state \<Rightarrow> lease_observation_state \<Rightarrow> bool" where
  "lease_fixed s t \<longleftrightarrow> ls_lease_id (lx_lease t) = ls_lease_id (lx_lease s)
     \<and> ls_worker_id (lx_lease t) = ls_worker_id (lx_lease s) \<and> ls_attempt_id (lx_lease t) = ls_attempt_id (lx_lease s)
     \<and> ls_leased_at (lx_lease t) = ls_leased_at (lx_lease s)
     \<and> (ls_released_at (lx_lease s) \<noteq> None \<longrightarrow> ls_released_at (lx_lease t) = ls_released_at (lx_lease s))"

interpretation fixed_leases: guarded_machine observe_lease lease_stream_ok lease_fixed
proof
  fix s r s'
  assume s: "lease_stream_ok s" "observe_lease r s = Inr s'"
  show "lease_stream_ok s'" by (rule lease_streams.log_inv [OF s])
  show "lease_fixed s s'" using observe_lease_cases [OF s] by (auto simp: lease_fixed_def lease_applied_def split: if_splits)
qed (auto simp: lease_fixed_def)

definition lease_closed :: "lease_observation_state \<Rightarrow> bool" where
  "lease_closed s \<longleftrightarrow> lx_applied s \<noteq> [] \<and> lo_kind (last (lx_applied s)) = Lease_RELEASE"

lemma closed_final:
  assumes "lease_stream_ok s" "lease_closed s"
  shows "serve observe_lease os s = s"
proof (induction os)
  case (Cons o' os)
  have "\<not> lease_applied s o' t" for t
    using assms(2) by (auto simp: lease_applied_def lease_closed_def lease_stream_ok_def Let_def)
  then have "served observe_lease o' s = s"
    using observe_lease_cases [OF assms(1)] by (auto simp: served_def split: sum.splits)
  with Cons.IH show ?case by simp
qed simp

lemma replayed_observation:
  assumes ok: "lease_stream_ok s" and o': "o' \<in> set (lx_applied s)"
  shows "apply_lease_observation s o' = Inr \<lparr>ln_decision = LeaseObs_REPLAY_EXISTING, ln_state = s,
    ln_expected_sequence = last_sequence s + 1, ln_rejection_reason = None\<rparr>"
proof -
  have "find (\<lambda>i. lo_observation_id i = lo_observation_id o') (lx_applied s) = Some o'"
  proof -
    obtain x where x: "find (\<lambda>i. lo_observation_id i = lo_observation_id o') (lx_applied s) = Some x"
      using o' by (cases "find (\<lambda>i. lo_observation_id i = lo_observation_id o') (lx_applied s)")
        (auto simp: find_None_iff)
    then have "x \<in> set (lx_applied s)" "lo_observation_id x = lo_observation_id o'"
      by (auto simp: find_Some_iff)
    with ok o' have "x = o'" by (auto simp: lease_stream_ok_def Let_def distinct_map dest: inj_onD)
    with x show ?thesis by simp
  qed
  then show ?thesis
    using ok o'
    by (simp add: apply_lease_observation_def lease_stream_ok_def Let_def mk_lease_observation_resolution_def
        last_sequence_def raising.simps)
qed

section \<open>Properties\<close>

text \<open>The heartbeats and the release reported for a lease form one exact stream. After any observations
  a valid state is valid (the stream is contiguous, of this lease, with distinct ids, in time order,
  nothing follows a release, and the lease carries the times of its latest heartbeat), it extends
  what it was, and the lease keeps its identity. After a release nothing changes any more. Only
  \<open>APPLY\<close> changes the state, by exactly the next observation in sequence, and a heartbeat is applied
  only to a lease that was active at its time. Reporting an applied observation again replays it.\<close>

theorem lease_stream_exact:
  assumes ok0: "lease_stream_ok s0" and s: "s = serve observe_lease os s0"
  shows "lease_stream_ok s \<and> prefix (lx_applied s0) (lx_applied s) \<and> lease_fixed s0 s
    \<and> (lease_closed s0 \<longrightarrow> s = s0)
    \<and> (\<forall>r. apply_lease_observation s o' = Inr r \<longrightarrow>
         (if ln_decision r = LeaseObs_APPLY then lease_applied s o' (ln_state r) else ln_state r = s))
    \<and> (o' \<in> set (lx_applied s) \<longrightarrow>
         (\<exists>r. apply_lease_observation s o' = Inr r \<and> ln_decision r = LeaseObs_REPLAY_EXISTING \<and> ln_state r = s))"
proof -
  have ok: "lease_stream_ok s" unfolding s by (rule lease_streams.machine.serve_inv [OF ok0])
  have "prefix (lx_applied s0) (lx_applied s)" unfolding s by (rule lease_streams.machine.serve_le [OF ok0])
  moreover have "lease_fixed s0 s" unfolding s by (rule fixed_leases.serve_le [OF ok0])
  moreover have "lease_closed s0 \<longrightarrow> s = s0" using closed_final [OF ok0] by (simp add: s)
  ultimately show ?thesis
    using ok apply_lease_observation_cases [OF ok] replayed_observation [OF ok] by simp
qed

definition sample_heartbeat :: "int \<Rightarrow> instant \<Rightarrow> instant \<Rightarrow> lease_observation" where
  "sample_heartbeat n t x = \<lparr>lo_observation_id = digest_text (int_str n), lo_lease_id = ls_lease_id sample_lease,
     lo_worker_id = ls_worker_id sample_lease, lo_attempt_id = ls_attempt_id sample_lease, lo_sequence = n,
     lo_kind = Lease_HEARTBEAT, lo_observed_at = t, lo_expires_at = Some x\<rparr>"

definition sample_lease_stream :: lease_observation_state where
  "sample_lease_stream = \<lparr>lx_lease = sample_lease, lx_applied = []\<rparr>"

lemma sample_lease_stream_ok: "lease_stream_ok sample_lease_stream"
  by (simp add: lease_stream_ok_def sample_lease_stream_def sample_lease_ok heartbeats_def)

lemma first_heartbeat:
  assumes "lease_matches l o'" "lo_sequence o' = 1" "lo_kind o' = Lease_HEARTBEAT" "lo_expires_at o' = Some x"
    and ok: "attempt_lease_ok (l\<lparr>ls_heartbeat_at := lo_observed_at o', ls_expires_at := x\<rparr>)"
    and "lo_observed_at o' < ls_expires_at l" "ls_released_at l = None"
  shows "apply_lease_observation \<lparr>lx_lease = l, lx_applied = []\<rparr> o'
    = Inr \<lparr>ln_decision = LeaseObs_APPLY,
        ln_state = \<lparr>lx_lease = l\<lparr>ls_heartbeat_at := lo_observed_at o', ls_expires_at := x\<rparr>, lx_applied = [o']\<rparr>,
        ln_expected_sequence = 1, ln_rejection_reason = None\<rparr>"
proof -
  have "attempt_lease_remake (l\<lparr>ls_heartbeat_at := lo_observed_at o', ls_expires_at := x\<rparr>)
      = Inr (l\<lparr>ls_heartbeat_at := lo_observed_at o', ls_expires_at := x\<rparr>)"
    using ok by (simp add: attempt_lease_remake_iff)
  moreover have "status_at l (utc (lo_observed_at o')) = Inr Lease_ACTIVE"
    using ok assms(6,7) by (auto simp: status_at_Inr utc_def attempt_lease_ok_def)
  ultimately show ?thesis
    using assms(1-4)
    by (simp add: apply_lease_observation_def last_sequence_def mk_lease_observation_state_def
        mk_lease_observation_resolution_def lease_matches_def heartbeats_def raising.simps)
qed

theorem lease_stream_exact_witness:
  "lease_stream_ok sample_lease_stream
   \<and> (\<exists>r. apply_lease_observation sample_lease_stream (sample_heartbeat 1 5 15) = Inr r
        \<and> ls_expires_at (lx_lease (ln_state r)) = 15 \<and> lx_applied (ln_state r) = [sample_heartbeat 1 5 15])"
  using lease_stream_exact [OF sample_lease_stream_ok, of sample_lease_stream "[]" "sample_heartbeat 1 5 15"]
    first_heartbeat [of sample_lease "sample_heartbeat 1 5 15" 15] sample_lease_stream_ok
  by (simp add: sample_lease_stream_def sample_heartbeat_def lease_matches_def sample_lease_def
      attempt_lease_ok_def blank_iff py_space_def lease_applied_def)

text \<open>The observation stream does not enforce the order that renewing a lease enforces. The first
  heartbeat observation of a lease is applied even when its time lies before the heartbeat the lease
  already has, and then moves the heartbeat of the lease backwards (and can shorten the lease), where
  \<open>renew\<close> at the same time raises.\<close>

theorem heartbeat_moves_back:
  assumes l: "attempt_lease_ok l" "ls_released_at l = None" and o': "lease_observation_ok o'" "lease_matches l o'"
    "lo_sequence o' = 1" "lo_kind o' = Lease_HEARTBEAT"
    and earlier: "ls_leased_at l \<le> lo_observed_at o'" "lo_observed_at o' < ls_heartbeat_at l"
  shows "(\<exists>r. apply_lease_observation \<lparr>lx_lease = l, lx_applied = []\<rparr> o' = Inr r \<and> ln_decision r = LeaseObs_APPLY
            \<and> ls_heartbeat_at (lx_lease (ln_state r)) < ls_heartbeat_at l
            \<and> Some (ls_expires_at (lx_lease (ln_state r))) = lo_expires_at o')
    \<and> (\<forall>d > 0. renew l (utc (lo_observed_at o')) d = Inl (ValueError ''lease heartbeat cannot move backwards''))"
proof -
  obtain x where x: "lo_expires_at o' = Some x" "lo_observed_at o' < x"
    using o'(1,4) by (auto simp: lease_observation_ok_def)
  have "attempt_lease_ok (l\<lparr>ls_heartbeat_at := lo_observed_at o', ls_expires_at := x\<rparr>)"
    "lo_observed_at o' < ls_expires_at l"
    using l earlier x by (auto simp: attempt_lease_ok_def)
  then show ?thesis
    using first_heartbeat [OF o'(2,3,4) x(1)] l(2) x earlier by (simp add: renew_def raising.simps)
qed

theorem heartbeat_moves_back_witness:
  "lease_observation_ok (sample_heartbeat 1 5 9)
   \<and> (\<exists>r. apply_lease_observation \<lparr>lx_lease = sample_lease\<lparr>ls_heartbeat_at := 8\<rparr>, lx_applied = []\<rparr>
             (sample_heartbeat 1 5 9) = Inr r \<and> Some (ls_expires_at (lx_lease (ln_state r))) = Some 9)"
proof -
  have "lease_observation_ok (sample_heartbeat 1 5 9)"
    by (simp add: lease_observation_ok_def sample_heartbeat_def sample_lease_def is_digest_digest_text blank_iff py_space_def)
  with heartbeat_moves_back [of "sample_lease\<lparr>ls_heartbeat_at := 8\<rparr>" "sample_heartbeat 1 5 9"] sample_lease_ok
  show ?thesis
    by (auto simp: attempt_lease_ok_def sample_lease_def sample_heartbeat_def lease_matches_def)
qed

end
