(* ===== verification/Recovery.thy ===== *)
theory Recovery
  imports Lifecycle
begin

text \<open>
  \<open>src/backend/app/strategy_lab_v2/recovery.py\<close>: the bounded exponential retry policy, the recovery plan of
  the latest attempt of a trial, and the queued attempt a retry plan materialises. The properties
  bound the delay and the number of attempts a recovery can create.
\<close>

datatype recovery_reason =
    Reason_WORKER_CRASH | Reason_LEASE_EXPIRED | Reason_TRANSIENT_ENGINE_ERROR
  | Reason_ARTIFACT_PUBLISH_FAILURE | Reason_CANCELLED

datatype recovery_disposition = Recovery_RETRY | Recovery_TERMINAL | Recovery_NOOP

definition default_retryable_reasons :: "recovery_reason set" where
  "default_retryable_reasons = {Reason_WORKER_CRASH, Reason_LEASE_EXPIRED, Reason_TRANSIENT_ENGINE_ERROR,
     Reason_ARTIFACT_PUBLISH_FAILURE}"

record retry_policy =
  rp_max_attempts :: int
  rp_retryable_reasons :: "recovery_reason set"
  rp_initial_backoff :: timedelta
  rp_max_backoff :: timedelta

definition mk_retry_policy :: "int \<Rightarrow> recovery_reason set \<Rightarrow> timedelta \<Rightarrow> timedelta \<Rightarrow> retry_policy result" where
  "mk_retry_policy max_attempts reasons initial_backoff max_backoff =
     raising
       [(max_attempts < 1, ''max_attempts must be a positive integer''),
        (Reason_CANCELLED \<in> reasons, ''cancelled attempts require explicit non-retryable handling''),
        (initial_backoff \<le> 0, ''initial_backoff must be positive''),
        (max_backoff \<le> 0, ''max_backoff must be positive''),
        (max_backoff < initial_backoff, ''max_backoff must be at least initial_backoff'')]
       (Inr \<lparr>rp_max_attempts = max_attempts, rp_retryable_reasons = reasons,
             rp_initial_backoff = initial_backoff, rp_max_backoff = max_backoff\<rparr>)"

text \<open>The loop of \<open>backoff_for\<close>: double and cap, leaving early once the cap is reached.\<close>

fun backoff_loop :: "nat \<Rightarrow> timedelta \<Rightarrow> timedelta \<Rightarrow> timedelta" where
  "backoff_loop 0 cap delay = delay"
| "backoff_loop (Suc n) cap delay =
     (let delay' = min (delay * 2) cap in if delay' = cap then delay' else backoff_loop n cap delay')"

definition backoff_for :: "retry_policy \<Rightarrow> int \<Rightarrow> timedelta result" where
  "backoff_for p next_ordinal =
     raising [(next_ordinal < 2, ''next retry ordinal must be at least two'')]
       (Inr (backoff_loop (nat (next_ordinal - 2)) (rp_max_backoff p) (rp_initial_backoff p)))"

record recovery_plan =
  rn_disposition :: recovery_disposition
  rn_reason :: recovery_reason
  rn_trial_id :: string
  rn_prior_attempt_id :: string
  rn_prior_ordinal :: int
  rn_next_ordinal :: "int option"
  rn_retry_at :: "instant option"
  rn_rationale :: string

definition mk_recovery_plan ::
  "recovery_disposition \<Rightarrow> recovery_reason \<Rightarrow> string \<Rightarrow> string \<Rightarrow> int \<Rightarrow> int option \<Rightarrow> datetime option
     \<Rightarrow> string \<Rightarrow> recovery_plan result" where
  "mk_recovery_plan disposition reason trial_id prior_attempt_id prior_ordinal next_ordinal retry_at rationale =
     raising
       [(blank trial_id \<or> blank prior_attempt_id, ''recovery identity must not be empty''),
        (prior_ordinal < 1, ''prior_ordinal must be positive''),
        (blank rationale, ''recovery rationale must not be empty'')]
       (with_aware_opt retry_at ''retry_at must be timezone-aware'' (\<lambda>at.
        raising
          [(disposition = Recovery_RETRY \<and> (next_ordinal \<noteq> Some (prior_ordinal + 1) \<or> at = None),
              ''retry plans require the next ordinal and retry_at''),
           (disposition \<noteq> Recovery_RETRY \<and> (next_ordinal \<noteq> None \<or> at \<noteq> None),
              ''non-retry plans cannot schedule an attempt'')]
          (Inr \<lparr>rn_disposition = disposition, rn_reason = reason, rn_trial_id = trial_id,
                rn_prior_attempt_id = prior_attempt_id, rn_prior_ordinal = prior_ordinal,
                rn_next_ordinal = next_ordinal, rn_retry_at = at, rn_rationale = rationale\<rparr>)))"

definition materialize_retry_attempt ::
  "(int \<Rightarrow> instant) \<Rightarrow> recovery_plan \<Rightarrow> run_attempt list \<Rightarrow> string \<Rightarrow> run_attempt result" where
  "materialize_retry_attempt host plan prior_attempts attempt_id =
     raising
       [(rn_disposition plan \<noteq> Recovery_RETRY, ''only retry plans can materialize an attempt''),
        (rn_retry_at plan = None, ''retry plan is missing retry_at'')]
       (rbind (create_retry_attempt host prior_attempts attempt_id (utc (the (rn_retry_at plan)))) (\<lambda>attempt.
        raising
          [(ra_trial_id attempt \<noteq> rn_trial_id plan \<or> Some (ra_ordinal attempt) \<noteq> rn_next_ordinal plan,
              ''prior attempts do not match the recovery plan'')]
          (Inr attempt)))"

definition terminal_states :: "attempt_state set" where
  "terminal_states = {Attempt_SUCCEEDED, Attempt_FAILED, Attempt_CANCELLED}"

definition validate_attempt_chain :: "run_attempt list \<Rightarrow> run_attempt list result" where
  "validate_attempt_chain prior_attempts =
     (let ordered = sort_key ra_ordinal prior_attempts
      in raising
           [(prior_attempts = [], ''recovery requires at least one prior attempt''),
            (map ra_ordinal ordered \<noteq> map int [1..<Suc (length ordered)],
               ''attempt ordinals must be contiguous from one''),
            (card (ra_trial_id ` set ordered) \<noteq> 1,
               ''all attempts in a recovery chain must reference one trial''),
            (list_ex (\<lambda>a. ra_state a \<notin> terminal_states) (butlast ordered),
               ''all earlier attempts must be terminal before recovery'')]
           (Inr ordered))"

definition shifted :: "datetime \<Rightarrow> timedelta \<Rightarrow> datetime" where
  "shifted d k = (case d of Naive w \<Rightarrow> Naive (w + k) | Aware i z \<Rightarrow> Aware (i + k) z)"

definition plan_attempt_recovery ::
  "run_attempt list \<Rightarrow> recovery_reason \<Rightarrow> datetime \<Rightarrow> retry_policy \<Rightarrow> recovery_plan result" where
  "plan_attempt_recovery prior_attempts reason observed_at policy =
     with_aware observed_at ''recovery observation time must be timezone-aware'' (\<lambda>observed.
       rbind (validate_attempt_chain prior_attempts) (\<lambda>ordered.
         let latest = last ordered;
             unscheduled = (\<lambda>disposition.
               mk_recovery_plan disposition reason (ra_trial_id latest) (ra_attempt_id latest) (ra_ordinal latest)
                 None None)
         in raising
              [(observed < ra_updated_at latest,
                  ''recovery observation time cannot precede the latest attempt''),
               (ra_state latest \<notin> terminal_states, ''only a terminal attempt can be recovered'')]
              (if ra_state latest = Attempt_SUCCEEDED then
                 unscheduled Recovery_NOOP ''attempt already succeeded''
               else if reason \<notin> rp_retryable_reasons policy \<or> ra_state latest = Attempt_CANCELLED then
                 unscheduled Recovery_TERMINAL
                   (if reason \<notin> rp_retryable_reasons policy then ''recovery reason is not retryable''
                    else ''cancelled attempts are not retried by default'')
               else if int (length ordered) \<ge> rp_max_attempts policy then
                 unscheduled Recovery_TERMINAL ''retry attempt limit exhausted''
               else
                 rbind (backoff_for policy (ra_ordinal latest + 1)) (\<lambda>backoff.
                   mk_recovery_plan Recovery_RETRY reason (ra_trial_id latest) (ra_attempt_id latest)
                     (ra_ordinal latest) (Some (ra_ordinal latest + 1)) (Some (shifted observed_at backoff))
                     ''terminal infrastructure failure is eligible for retry''))))"

section \<open>The retry policy\<close>

definition retry_policy_ok :: "retry_policy \<Rightarrow> bool" where
  "retry_policy_ok p \<longleftrightarrow> 1 \<le> rp_max_attempts p \<and> Reason_CANCELLED \<notin> rp_retryable_reasons p
     \<and> 0 < rp_initial_backoff p \<and> rp_initial_backoff p \<le> rp_max_backoff p"

lemma mk_retry_policy_iff:
  "mk_retry_policy n R i m = Inr p \<longleftrightarrow>
     p = \<lparr>rp_max_attempts = n, rp_retryable_reasons = R, rp_initial_backoff = i, rp_max_backoff = m\<rparr> \<and> retry_policy_ok p"
  by (auto simp: mk_retry_policy_def retry_policy_ok_def contract_simps)

lemma backoff_loop_capped:
  assumes "0 \<le> delay" "delay \<le> cap"
  shows "backoff_loop n cap delay = min (delay * 2 ^ n) cap"
  using assms
proof (induction n arbitrary: delay)
  case (Suc n)
  show ?case
  proof (cases "delay * 2 < cap")
    case True
    then show ?thesis using Suc.IH [of "delay * 2"] Suc.prems by (simp add: Let_def mult.assoc)
  next
    case False
    have "delay * 2 \<le> delay * 2 ^ Suc n" using Suc.prems(1) by (intro mult_left_mono) simp_all
    with False show ?thesis by (simp add: Let_def)
  qed
qed simp

definition capped_backoff :: "retry_policy \<Rightarrow> nat \<Rightarrow> timedelta" where
  "capped_backoff p k = min (rp_initial_backoff p * 2 ^ k) (rp_max_backoff p)"

lemma backoff_for_exact:
  assumes "retry_policy_ok p" "2 \<le> n"
  shows "backoff_for p n = Inr (capped_backoff p (nat (n - 2)))"
  using assms backoff_loop_capped [of "rp_initial_backoff p" "rp_max_backoff p"]
  by (simp add: backoff_for_def raising.simps retry_policy_ok_def capped_backoff_def)

lemma capped_backoff_mono:
  assumes "retry_policy_ok p" "j \<le> k"
  shows "capped_backoff p j \<le> capped_backoff p k"
proof -
  have "rp_initial_backoff p * 2 ^ j \<le> rp_initial_backoff p * 2 ^ k"
    using assms by (intro mult_left_mono power_increasing) (auto simp: retry_policy_ok_def)
  then show ?thesis by (auto simp: capped_backoff_def)
qed

lemma capped_backoff_0: "retry_policy_ok p \<Longrightarrow> capped_backoff p 0 = rp_initial_backoff p"
  by (simp add: capped_backoff_def retry_policy_ok_def)

lemma capped_backoff_bounds:
  "retry_policy_ok p \<Longrightarrow> rp_initial_backoff p \<le> capped_backoff p k \<and> capped_backoff p k \<le> rp_max_backoff p"
  using capped_backoff_mono [of p 0 k] by (simp add: capped_backoff_0) (simp add: capped_backoff_def)

section \<open>Recovery of a chain of attempts\<close>

lemma terminal_states_iff: "s \<in> terminal_states \<longleftrightarrow> s \<in> {Attempt_SUCCEEDED, Attempt_FAILED, Attempt_CANCELLED}"
  by (simp add: terminal_states_def)

lemma validate_attempt_chain_Inr:
  "validate_attempt_chain c = Inr os \<longleftrightarrow>
     c \<noteq> [] \<and> os = sort_key ra_ordinal c \<and> map ra_ordinal os = map int [1..<Suc (length os)]
     \<and> card (ra_trial_id ` set c) = 1 \<and> (\<forall>a \<in> set (butlast os). ra_state a \<in> terminal_states)"
  by (auto simp: validate_attempt_chain_def Let_def contract_simps list_ex_iff simp del: upt_Suc)

lemma chain_last_ordinal:
  assumes "map ra_ordinal os = map int [1..<Suc (length os)]" "os \<noteq> []"
  shows "ra_ordinal (last os) = int (length os)"
proof -
  have "ra_ordinal (last os) = last (map int [1..<Suc (length os)])" using assms by (metis last_map)
  with assms(2) show ?thesis by (simp add: Suc_le_eq)
qed

lemma validated_chain:
  assumes "validate_attempt_chain c = Inr os"
  shows "os \<noteq> [] \<and> length os = length c \<and> set os = set c \<and> last os \<in> set c \<and> ra_ordinal (last os) = int (length c)"
proof -
  from assms have os: "os = sort_key ra_ordinal c" "c \<noteq> []" "map ra_ordinal os = map int [1..<Suc (length os)]"
    by (auto simp: validate_attempt_chain_Inr simp del: upt_Suc)
  then have ne: "os \<noteq> []" "set os = set c" "length os = length c"
    by (metis length_0_conv length_sort, simp_all add: os(1) del: upt_Suc)
  then have "last os \<in> set c" by (metis last_in_set)
  with ne chain_last_ordinal [OF os(3)] show ?thesis by simp
qed

text \<open>What the policy decides for a chain of \<open>n\<close> attempts whose latest ended in \<open>state\<close>.\<close>

definition recovery_verdict :: "retry_policy \<Rightarrow> recovery_reason \<Rightarrow> attempt_state \<Rightarrow> nat \<Rightarrow> recovery_disposition" where
  "recovery_verdict p reason state n =
     (if state = Attempt_SUCCEEDED then Recovery_NOOP
      else if state = Attempt_FAILED \<and> reason \<in> rp_retryable_reasons p \<and> int n < rp_max_attempts p
      then Recovery_RETRY else Recovery_TERMINAL)"

lemma mk_recovery_plan_unscheduled:
  assumes "\<not> blank trial" "\<not> blank i" "1 \<le> n" "d \<noteq> Recovery_RETRY" "\<not> blank m"
  shows "mk_recovery_plan d reason trial i n None None m
    = Inr \<lparr>rn_disposition = d, rn_reason = reason, rn_trial_id = trial, rn_prior_attempt_id = i,
        rn_prior_ordinal = n, rn_next_ordinal = None, rn_retry_at = None, rn_rationale = m\<rparr>"
  using assms by (simp add: mk_recovery_plan_def raising.simps)

lemma mk_recovery_plan_scheduled:
  assumes "\<not> blank trial" "\<not> blank i" "1 \<le> n" "\<not> blank m"
  shows "mk_recovery_plan Recovery_RETRY reason trial i n (Some (n + 1)) (Some (Aware t z)) m
    = Inr \<lparr>rn_disposition = Recovery_RETRY, rn_reason = reason, rn_trial_id = trial,
        rn_prior_attempt_id = i, rn_prior_ordinal = n, rn_next_ordinal = Some (n + 1),
        rn_retry_at = Some t, rn_rationale = m\<rparr>"
  using assms by (simp add: mk_recovery_plan_def raising.simps)

definition retry_instant :: "retry_policy \<Rightarrow> instant \<Rightarrow> nat \<Rightarrow> instant" where
  "retry_instant p t n = t + capped_backoff p (n - 1)"

lemma plan_attempt_recovery_answers:
  assumes p: "retry_policy_ok p" and c: "validate_attempt_chain c = Inr os" "run_attempt_ok (last os)"
    and t: "ra_state (last os) \<in> terminal_states" "ra_updated_at (last os) \<le> t"
  shows "\<exists>plan. plan_attempt_recovery c reason (Aware t z) p = Inr plan
    \<and> rn_disposition plan = recovery_verdict p reason (ra_state (last os)) (length c)
    \<and> rn_reason plan = reason
    \<and> rn_trial_id plan = ra_trial_id (last os) \<and> rn_prior_attempt_id plan = ra_attempt_id (last os)
    \<and> rn_prior_ordinal plan = int (length c)
    \<and> rn_next_ordinal plan = (if rn_disposition plan = Recovery_RETRY then Some (int (length c) + 1) else None)
    \<and> rn_retry_at plan = (if rn_disposition plan = Recovery_RETRY then Some (retry_instant p t (length c)) else None)"
proof -
  note os = validated_chain [OF c(1)]
  have "backoff_for p (ra_ordinal (last os) + 1) = Inr (capped_backoff p (length c - 1))"
  proof -
    have "length c \<noteq> 0" using os by auto
    then have "nat (int (length c) + 1 - 2) = length c - 1" "2 \<le> int (length c) + 1" by linarith+
    with os backoff_for_exact [OF p] show ?thesis by simp
  qed
  moreover have "\<not> blank (ra_trial_id (last os))" "\<not> blank (ra_attempt_id (last os))" "1 \<le> int (length c)"
    using c(2) os by (auto simp: run_attempt_ok_def)
  moreover have "\<not> blank ''attempt already succeeded''" "\<not> blank ''recovery reason is not retryable''"
    "\<not> blank ''cancelled attempts are not retried by default''" "\<not> blank ''retry attempt limit exhausted''"
    "\<not> blank ''terminal infrastructure failure is eligible for retry''"
    by (simp_all add: blank_iff py_space_def)
  ultimately show ?thesis
    using c(1) t os
    by (auto simp: plan_attempt_recovery_def Let_def raising.simps terminal_states_iff shifted_def retry_instant_def
        mk_recovery_plan_unscheduled mk_recovery_plan_scheduled recovery_verdict_def)
qed

lemma mk_recovery_plan_disposition:
  "mk_recovery_plan d reason trial i n next at m = Inr plan \<Longrightarrow> rn_disposition plan = d"
  by (auto simp: mk_recovery_plan_def contract_simps)

lemma retry_below_limit:
  assumes "plan_attempt_recovery c reason obs p = Inr plan" "rn_disposition plan = Recovery_RETRY"
  shows "int (length c) < rp_max_attempts p"
  using assms
  by (auto simp: plan_attempt_recovery_def Let_def contract_simps not_le
      dest: mk_recovery_plan_disposition validated_chain split: if_splits)

lemma materialized_retry:
  assumes c: "validate_attempt_chain c = Inr os" "run_attempt_ok (last os)" "ra_state (last os) = Attempt_FAILED"
    and plan: "rn_disposition plan = Recovery_RETRY" "rn_trial_id plan = ra_trial_id (last os)"
      "rn_next_ordinal plan = Some (int (length c) + 1)" "rn_retry_at plan = Some t"
    and t: "ra_updated_at (last os) \<le> t" and i: "\<not> blank i" "i \<notin> ra_attempt_id ` set c"
  shows "materialize_retry_attempt host plan c i
    = Inr \<lparr>ra_attempt_id = i, ra_trial_id = ra_trial_id (last os), ra_ordinal = int (length c) + 1,
        ra_state = Attempt_QUEUED, ra_created_at = t, ra_updated_at = t\<rparr>"
proof -
  from c(1) have os: "c \<noteq> []" "os = sort_key ra_ordinal c" "map ra_ordinal os = map int [1..<Suc (length c)]"
    "card (ra_trial_id ` set c) = 1" "\<forall>a \<in> set (butlast os). attempt_terminal a"
    using validated_chain [OF c(1)]
    by (auto simp: validate_attempt_chain_Inr terminal_states_def attempt_terminal_def simp del: upt_Suc)
  have "create_retry_attempt host c i (utc t)
      = Inr \<lparr>ra_attempt_id = i, ra_trial_id = ra_trial_id (last os), ra_ordinal = int (length c) + 1,
          ra_state = Attempt_QUEUED, ra_created_at = t, ra_updated_at = t\<rparr>"
    unfolding create_retry_attempt_Inr Let_def os(2) [symmetric]
    using os c(2,3) t i by (simp add: utc_def run_attempt_ok_def)
  then show ?thesis using plan by (simp add: materialize_retry_attempt_def raising.simps)
qed

text \<open>One recovery of a trial: the plan for its chain schedules a retry, the retry is materialised, and the
  new attempt then goes through any transition requests.\<close>

inductive recovery_step :: "(int \<Rightarrow> instant) \<Rightarrow> retry_policy \<Rightarrow> run_attempt list \<Rightarrow> run_attempt list \<Rightarrow> bool" for host p where
  retried: "plan_attempt_recovery c reason observed_at p = Inr plan
    \<Longrightarrow> materialize_retry_attempt host plan c i = Inr a
    \<Longrightarrow> recovery_step host p c (c @ [serve (attempt_step host) qs a])"

inductive_cases recovery_stepE: "recovery_step host p c c'"

lemma recovery_step_length:
  assumes "recovery_step host p c c'"
  shows "length c' = Suc (length c) \<and> int (length c') \<le> rp_max_attempts p"
  using assms
proof (rule recovery_stepE)
  fix reason obs plan i a qs
  assume "c' = c @ [serve (attempt_step host) qs a]" "plan_attempt_recovery c reason obs p = Inr plan"
    "materialize_retry_attempt host plan c i = Inr a"
  then show ?thesis using retry_below_limit [of c reason obs p plan]
    by (auto simp: materialize_retry_attempt_def contract_simps)
qed

lemma recovery_run_length:
  "(recovery_step host p ^^ n) c c' \<Longrightarrow>
     length c' = length c + n \<and> (n \<noteq> 0 \<longrightarrow> int (length c') \<le> rp_max_attempts p)"
proof (induction n arbitrary: c')
  case (Suc n)
  from Suc.prems obtain d where "(recovery_step host p ^^ n) c d" "recovery_step host p d c'" by auto
  then show ?case using Suc.IH recovery_step_length by force
qed simp

lemma no_endless_recovery:
  assumes "\<And>k. recovery_step host p (f k) (f (Suc k))"
  shows False
proof -
  have "(recovery_step host p ^^ n) (f 0) (f n)" for n
    using assms by (induction n) auto
  from recovery_run_length [OF this [of "Suc (nat (rp_max_attempts p))"]] show False
    by (auto split: if_splits)
qed

section \<open>Properties\<close>

text \<open>C34: the retry delay is the capped exponential \<open>min (initial * 2 ^ (n - 2)) max\<close> of the ordinal \<open>n\<close> of the
  retry. It lies between the initial and the maximal backoff and never decreases with the ordinal;
  the loop of \<open>backoff_for\<close> with its early exit computes exactly this closed form. The docstring of the code promises the
  exponent \<open>ordinal - 1\<close>: wherever that value is below the cap, the delay of the code is exactly half of it, so the first
  retry waits the initial backoff and not twice it.\<close>

theorem backoff_exact:
  assumes "retry_policy_ok p" "2 \<le> n" "n \<le> m"
  shows "backoff_for p n = Inr (min (rp_initial_backoff p * 2 ^ nat (n - 2)) (rp_max_backoff p))
    \<and> (\<exists>d e. backoff_for p n = Inr d \<and> backoff_for p m = Inr e
          \<and> rp_initial_backoff p \<le> d \<and> d \<le> e \<and> e \<le> rp_max_backoff p)
    \<and> (rp_initial_backoff p * 2 ^ nat (n - 1) \<le> rp_max_backoff p \<longrightarrow>
         (\<exists>d. backoff_for p n = Inr d \<and> 2 * d = rp_initial_backoff p * 2 ^ nat (n - 1)))
    \<and> backoff_for p 2 = Inr (rp_initial_backoff p)"
proof -
  have "nat (n - 2) \<le> nat (m - 2)" "2 \<le> m" "nat (n - 1) = Suc (nat (n - 2))" using assms by linarith+
  moreover have "0 \<le> rp_initial_backoff p * 2 ^ nat (n - 2)" using assms(1) by (simp add: retry_policy_ok_def)
  ultimately show ?thesis
    using assms backoff_for_exact [OF assms(1)] capped_backoff_mono [OF assms(1)] capped_backoff_bounds [OF assms(1)]
      capped_backoff_0 [OF assms(1)]
    by (auto simp: capped_backoff_def)
qed

definition default_policy :: retry_policy where
  "default_policy = \<lparr>rp_max_attempts = 3, rp_retryable_reasons = default_retryable_reasons,
     rp_initial_backoff = 5000000, rp_max_backoff = 300000000\<rparr>"

lemma default_policy_ok: "retry_policy_ok default_policy"
  by (simp add: retry_policy_ok_def default_policy_def default_retryable_reasons_def)

theorem backoff_exact_witness:
  "retry_policy_ok default_policy \<and> backoff_for default_policy 4 = Inr 20000000
   \<and> (\<exists>d. backoff_for default_policy 4 = Inr d \<and> 2 * d = rp_initial_backoff default_policy * 2 ^ 3)"
  using backoff_exact [OF default_policy_ok, of 4 9] default_policy_ok by (simp add: default_policy_def)

text \<open>The recovery plan is total and exact. For a valid chain of attempts whose latest is finished, the plan
  always answers: nothing is done after a success, a retry is scheduled exactly when the latest
  attempt failed for a retryable reason below the attempt limit, and everything else is terminal. A
  retry is scheduled within the backoff window after the observation and, given a new attempt id,
  materialises the next queued attempt of the same trial at that time.\<close>

theorem recovery_plan_exact:
  assumes p: "retry_policy_ok p" and c: "validate_attempt_chain c = Inr os" "run_attempt_ok (last os)"
    and t: "ra_state (last os) \<in> terminal_states" "ra_updated_at (last os) \<le> t"
    and i: "\<not> blank i" "i \<notin> ra_attempt_id ` set c"
  shows "\<exists>plan. plan_attempt_recovery c reason (Aware t z) p = Inr plan
    \<and> rn_disposition plan = recovery_verdict p reason (ra_state (last os)) (length c)
    \<and> rn_prior_attempt_id plan = ra_attempt_id (last os)
    \<and> (rn_disposition plan \<noteq> Recovery_RETRY \<longrightarrow> rn_retry_at plan = None \<and> rn_next_ordinal plan = None)
    \<and> (rn_disposition plan = Recovery_RETRY \<longrightarrow>
         (\<exists>u. t + rp_initial_backoff p \<le> u \<and> u \<le> t + rp_max_backoff p \<and> rn_retry_at plan = Some u
            \<and> materialize_retry_attempt host plan c i
                = Inr \<lparr>ra_attempt_id = i, ra_trial_id = ra_trial_id (last os), ra_ordinal = int (length c) + 1,
                    ra_state = Attempt_QUEUED, ra_created_at = u, ra_updated_at = u\<rparr>))"
proof -
  obtain plan where plan: "plan_attempt_recovery c reason (Aware t z) p = Inr plan"
    "rn_disposition plan = recovery_verdict p reason (ra_state (last os)) (length c)"
    "rn_trial_id plan = ra_trial_id (last os)" "rn_prior_attempt_id plan = ra_attempt_id (last os)"
    "rn_next_ordinal plan = (if rn_disposition plan = Recovery_RETRY then Some (int (length c) + 1) else None)"
    "rn_retry_at plan = (if rn_disposition plan = Recovery_RETRY then Some (retry_instant p t (length c)) else None)"
    using plan_attempt_recovery_answers [OF p c t, of reason z] by blast
  let ?u = "retry_instant p t (length c)"
  have u: "t + rp_initial_backoff p \<le> ?u" "?u \<le> t + rp_max_backoff p" "ra_updated_at (last os) \<le> ?u"
    using capped_backoff_bounds [OF p, of "length c - 1"] t(2) p by (simp_all add: retry_instant_def retry_policy_ok_def)
  have "materialize_retry_attempt host plan c i
      = Inr \<lparr>ra_attempt_id = i, ra_trial_id = ra_trial_id (last os), ra_ordinal = int (length c) + 1,
          ra_state = Attempt_QUEUED, ra_created_at = ?u, ra_updated_at = ?u\<rparr>" if "rn_disposition plan = Recovery_RETRY"
  proof (rule materialized_retry [OF c _ that plan(3) _ _ u(3) i])
    show "ra_state (last os) = Attempt_FAILED"
      using that plan(2) by (auto simp: recovery_verdict_def split: if_splits)
  qed (use that plan in simp_all)
  with plan u show ?thesis by (intro exI [of _ plan]) simp
qed

definition sample_failed :: run_attempt where
  "sample_failed = sample_attempt\<lparr>ra_state := Attempt_FAILED, ra_updated_at := 7\<rparr>"

lemma sample_failed_chain: "validate_attempt_chain [sample_failed] = Inr [sample_failed]"
  by code_simp

theorem recovery_plan_exact_witness:
  "\<exists>plan. plan_attempt_recovery [sample_failed] Reason_WORKER_CRASH (Aware 9 0) default_policy = Inr plan
    \<and> rn_disposition plan = Recovery_RETRY \<and> (\<exists>a. materialize_retry_attempt id plan [sample_failed] ''a-2'' = Inr a)"
  using recovery_plan_exact [OF default_policy_ok sample_failed_chain, of 9 "''a-2''" Reason_WORKER_CRASH 0 id]
    sample_attempt_ok
  by (fastforce simp: sample_failed_def run_attempt_ok_def terminal_states_def blank_iff py_space_def
      recovery_verdict_def default_policy_def default_retryable_reasons_def sample_attempt_def)

text \<open>C20: recovery ends. Every recovery of a trial adds one attempt and needs fewer attempts than the policy
  allows, so \<open>n\<close> recoveries in a row leave a chain of at most \<open>max_attempts\<close> attempts, whatever the
  recorded reasons and the fates of the attempts, and no trial is recovered forever.\<close>

theorem recovery_terminates:
  "((recovery_step host p ^^ n) c c' \<longrightarrow>
      length c' = length c + n \<and> (n \<noteq> 0 \<longrightarrow> int (length c') \<le> rp_max_attempts p))
   \<and> \<not> (\<exists>f. \<forall>k. recovery_step host p (f k) (f (Suc k)))"
  using recovery_run_length no_endless_recovery by blast

lemma sample_recovery:
  "(recovery_step id default_policy ^^ 1) [sample_failed]
     [sample_failed, \<lparr>ra_attempt_id = ''a-2'', ra_trial_id = ''t-1'', ra_ordinal = 2, ra_state = Attempt_QUEUED,
        ra_created_at = 5000009, ra_updated_at = 5000009\<rparr>]"
proof -
  have "rbind (plan_attempt_recovery [sample_failed] Reason_WORKER_CRASH (Aware 9 0) default_policy)
      (\<lambda>plan. materialize_retry_attempt id plan [sample_failed] ''a-2'')
      = Inr \<lparr>ra_attempt_id = ''a-2'', ra_trial_id = ''t-1'', ra_ordinal = 2, ra_state = Attempt_QUEUED,
          ra_created_at = 5000009, ra_updated_at = 5000009\<rparr>"
    by code_simp
  then show ?thesis using recovery_step.retried [where qs = "[]"] by fastforce
qed

theorem recovery_terminates_witness:
  "\<exists>c'. (recovery_step id default_policy ^^ 1) [sample_failed] c' \<and> length c' = 2
     \<and> int (length c') \<le> rp_max_attempts default_policy"
  using recovery_terminates [where host = id and p = default_policy and n = 1 and c = "[sample_failed]"] sample_recovery by fastforce

end
