(* ===== verification/Worker_Recovery.thy ===== *)
theory Worker_Recovery
  imports Execution_Admission Lease_Observations Recovery
begin

text \<open>
  \<open>src/backend/app/strategy_lab_v2/worker_recovery.py\<close>: recovery of a worker. One decision releases the
  reservation of the latest attempt, closes its lease stream, plans the retry (Recovery) and keeps a
  receipt, so that a recovery interrupted between those writes can be resumed. \<open>host\<close> is the host's
  reading of naive times, as in Lifecycle.
\<close>

fun recovery_reason_value :: "recovery_reason \<Rightarrow> string" where
  "recovery_reason_value Reason_WORKER_CRASH = ''worker_crash''"
| "recovery_reason_value Reason_LEASE_EXPIRED = ''lease_expired''"
| "recovery_reason_value Reason_TRANSIENT_ENGINE_ERROR = ''transient_engine_error''"
| "recovery_reason_value Reason_ARTIFACT_PUBLISH_FAILURE = ''artifact_publish_failure''"
| "recovery_reason_value Reason_CANCELLED = ''cancelled''"

fun recovery_disposition_value :: "recovery_disposition \<Rightarrow> string" where
  "recovery_disposition_value Recovery_RETRY = ''retry''"
| "recovery_disposition_value Recovery_TERMINAL = ''terminal''"
| "recovery_disposition_value Recovery_NOOP = ''noop''"

definition reason_py :: "recovery_reason \<Rightarrow> pyval" where
  "reason_py r = PEnum ''app.strategy_lab_v2.recovery.RecoveryReason'' (PStr (recovery_reason_value r))"

definition recovery_plan_fingerprint :: "recovery_plan \<Rightarrow> string" where
  "recovery_plan_fingerprint n = digest (dataclass_py ''app.strategy_lab_v2.recovery.RecoveryPlan''
     [(''disposition'', PEnum ''app.strategy_lab_v2.recovery.RecoveryDisposition''
         (PStr (recovery_disposition_value (rn_disposition n)))),
      (''reason'', reason_py (rn_reason n)),
      (''trial_id'', PStr (rn_trial_id n)),
      (''prior_attempt_id'', PStr (rn_prior_attempt_id n)),
      (''prior_ordinal'', PInt (rn_prior_ordinal n)),
      (''next_ordinal'', opt_py PInt (rn_next_ordinal n)),
      (''retry_at'', opt_py time_py (rn_retry_at n)),
      (''rationale'', PStr (rn_rationale n))])"

datatype worker_recovery_decision =
    Recover_RETRY_SCHEDULED | Recover_TERMINAL | Recover_NOOP | Recover_REPLAY_EXISTING | Recover_CONFLICT | Recover_REJECT

record recovery_record =
  rc_recovery_fingerprint :: string
  rc_attempt_id :: string
  rc_reservation_id :: string
  rc_decision :: worker_recovery_decision
  rc_reason :: recovery_reason
  rc_plan_fingerprint :: string
  rc_next_attempt_id :: "string option"
  rc_lease_observation_fingerprint :: string
  rc_lease_observation_sequence :: int
  rc_released_at :: instant

definition mk_recovery_record ::
  "string \<Rightarrow> string \<Rightarrow> string \<Rightarrow> worker_recovery_decision \<Rightarrow> recovery_reason \<Rightarrow> string \<Rightarrow> string option \<Rightarrow> string \<Rightarrow> int
     \<Rightarrow> datetime \<Rightarrow> recovery_record result" where
  "mk_recovery_record recovery_fp attempt_id reservation_id decision reason plan_fp next_attempt_id observation_fp sequence
       released_at =
     raising
       (digest_checks recovery_fp ''recovery_fingerprint'' @ digest_checks reservation_id ''reservation_id''
        @ digest_checks plan_fp ''plan_fingerprint'' @ digest_checks observation_fp ''lease_observation_fingerprint''
        @ [(blank attempt_id, ''attempt_id must not be empty''),
           ((case next_attempt_id of None \<Rightarrow> False | Some i \<Rightarrow> blank i), ''next_attempt_id must be non-empty when provided''),
           (sequence < 1, ''lease_observation_sequence must be a positive integer'')])
       (with_aware released_at ''released_at must be timezone-aware'' (\<lambda>released.
          Inr \<lparr>rc_recovery_fingerprint = recovery_fp, rc_attempt_id = attempt_id, rc_reservation_id = reservation_id,
               rc_decision = decision, rc_reason = reason, rc_plan_fingerprint = plan_fp,
               rc_next_attempt_id = next_attempt_id, rc_lease_observation_fingerprint = observation_fp,
               rc_lease_observation_sequence = sequence, rc_released_at = released\<rparr>))"

text \<open>The ledger is its one field, the records.\<close>

definition mk_recovery_ledger :: "recovery_record list \<Rightarrow> recovery_record list result" where
  "mk_recovery_ledger records =
     raising
       [(\<not> distinct (map rc_recovery_fingerprint records), ''recovery fingerprints must be unique''),
        (\<not> distinct (map rc_attempt_id records), ''an attempt may have only one recovery receipt''),
        (\<not> distinct (map rc_reservation_id records), ''a reservation may have only one recovery receipt'')]
       (Inr (sort_key rc_recovery_fingerprint records))"

record worker_recovery =
  wy_decision :: worker_recovery_decision
  wy_plan :: "recovery_plan option"
  wy_pool :: worker_pool
  wy_lease_state :: lease_observation_state
  wy_next_attempt :: "run_attempt option"
  wy_released_reservation_id :: "string option"
  wy_rejection_reason :: "string option"
  wy_ledger :: "recovery_record list"
  wy_release_observation :: "lease_observation option"

definition plans :: "recovery_plan option \<Rightarrow> recovery_disposition \<Rightarrow> bool" where
  "plans plan d \<longleftrightarrow> map_option rn_disposition plan = Some d"

definition mk_worker_recovery ::
  "worker_recovery_decision \<Rightarrow> recovery_plan option \<Rightarrow> worker_pool \<Rightarrow> lease_observation_state \<Rightarrow> run_attempt option
     \<Rightarrow> string option \<Rightarrow> string option \<Rightarrow> recovery_record list \<Rightarrow> lease_observation option \<Rightarrow> worker_recovery result" where
  "mk_worker_recovery decision plan pool lease_state next_attempt released_id reason ledger observation =
     raising
       (opt_digest_checks released_id ''released_reservation_id''
        @ [(decision = Recover_RETRY_SCHEDULED \<and> \<not> plans plan Recovery_RETRY, ''retry decisions require a retry plan''),
           (decision = Recover_RETRY_SCHEDULED \<and> (next_attempt = None \<or> released_id = None),
              ''retry decisions require a queued attempt and released reservation''),
           (decision \<in> {Recover_TERMINAL, Recover_NOOP, Recover_REPLAY_EXISTING} \<and> plan = None,
              ''terminal/replay decisions require a recovery plan''),
           (decision \<in> {Recover_TERMINAL, Recover_NOOP, Recover_REPLAY_EXISTING}
              \<and> \<not> (plans plan Recovery_TERMINAL \<or> plans plan Recovery_NOOP \<or> plans plan Recovery_RETRY),
              ''terminal/no-op/replay decisions require a matching recovery plan''),
           (decision \<in> {Recover_TERMINAL, Recover_NOOP} \<and> (plans plan Recovery_RETRY \<or> next_attempt \<noteq> None),
              ''terminal/no-op decisions cannot create an attempt''),
           (decision = Recover_REPLAY_EXISTING \<and> plans plan Recovery_RETRY \<and> (next_attempt = None \<or> released_id = None),
              ''replayed retry decisions require a queued attempt and released reservation''),
           (decision = Recover_CONFLICT \<and> (plan \<noteq> None \<or> next_attempt \<noteq> None),
              ''conflicting recovery cannot contain a plan or next attempt''),
           (decision = Recover_REJECT \<and> (plan \<noteq> None \<or> next_attempt \<noteq> None),
              ''rejected recovery cannot contain a plan or next attempt''),
           (decision \<in> {Recover_RETRY_SCHEDULED, Recover_TERMINAL, Recover_NOOP, Recover_REPLAY_EXISTING} \<and> observation = None,
              ''successful recovery requires its durable release observation''),
           (decision \<in> {Recover_REJECT, Recover_CONFLICT} \<and> observation \<noteq> None,
              ''rejected/conflicting recovery cannot contain a release observation''),
           (decision \<in> {Recover_REJECT, Recover_CONFLICT} \<and> no_reason reason,
              ''rejected/conflicting recovery requires a reason''),
           (decision \<notin> {Recover_REJECT, Recover_CONFLICT} \<and> \<not> no_reason reason,
              ''successful recovery cannot contain a rejection reason'')])
       (Inr \<lparr>wy_decision = decision, wy_plan = plan, wy_pool = pool, wy_lease_state = lease_state,
             wy_next_attempt = next_attempt, wy_released_reservation_id = released_id, wy_rejection_reason = reason,
             wy_ledger = ledger, wy_release_observation = observation\<rparr>)"

definition reject_recovery ::
  "worker_pool \<Rightarrow> recovery_record list \<Rightarrow> lease_observation_state \<Rightarrow> string \<Rightarrow> worker_recovery result" where
  "reject_recovery pool ledger lease_state reason =
     mk_worker_recovery Recover_REJECT None pool lease_state None None (Some reason) ledger None"

definition release_observation ::
  "lease_observation_state \<Rightarrow> string \<Rightarrow> datetime \<Rightarrow> int \<Rightarrow> lease_observation result" where
  "release_observation lease_state recovery_fp observed_at sequence =
     (let lease = lx_lease lease_state
      in mk_lease_observation
           (digest (PMapping
              [(''kind'', PEnum ''app.strategy_lab_v2.lease_observations.LeaseObservationKind''
                  (PStr (lease_observation_kind_value Lease_RELEASE))),
               (''lease_id'', PStr (ls_lease_id lease)),
               (''recovery_fingerprint'', PStr recovery_fp)]))
           (ls_lease_id lease) (ls_worker_id lease) (ls_attempt_id lease) sequence Lease_RELEASE observed_at None)"

text \<open>\<open>max(attempts, key=...)\<close>: the first attempt with the greatest ordinal.\<close>

fun latest_attempt :: "run_attempt \<Rightarrow> run_attempt list \<Rightarrow> run_attempt" where
  "latest_attempt m [] = m"
| "latest_attempt m (a # as) = latest_attempt (if ra_ordinal m < ra_ordinal a then a else m) as"

definition recovery_fingerprint ::
  "run_attempt option \<Rightarrow> recovery_plan \<Rightarrow> string \<Rightarrow> recovery_reason \<Rightarrow> string \<Rightarrow> string" where
  "recovery_fingerprint next_attempt plan attempt_id reason reservation_id = digest (PMapping
     [(''next_attempt_id'', opt_py PStr (map_option ra_attempt_id next_attempt)),
      (''plan_fingerprint'', PStr (recovery_plan_fingerprint plan)),
      (''prior_attempt_id'', PStr attempt_id),
      (''reason'', reason_py reason),
      (''reservation_id'', PStr reservation_id)])"

section \<open>Resolution\<close>

text \<open>The branch of an attempt that has a receipt: check the receipt and finish what is missing.\<close>

definition resume_recovery ::
  "(int \<Rightarrow> instant) \<Rightarrow> run_attempt list \<Rightarrow> lease_observation_state \<Rightarrow> worker_pool \<Rightarrow> recovery_record list
     \<Rightarrow> worker_reservation \<Rightarrow> recovery_plan \<Rightarrow> string \<Rightarrow> recovery_record \<Rightarrow> worker_recovery result" where
  "resume_recovery host attempts lease_state pool ledger reservation plan recovery_fp existing =
     (let rejected = reject_recovery pool ledger lease_state
      in if rc_recovery_fingerprint existing \<noteq> recovery_fp then
           mk_worker_recovery Recover_CONFLICT None pool lease_state None None
             (Some ''attempt is already bound to different recovery content'') ledger None
         else
           rbind (release_observation lease_state (rc_recovery_fingerprint existing) (utc (rc_released_at existing))
                    (rc_lease_observation_sequence existing)) (\<lambda>observation.
             if lease_observation_fingerprint observation \<noteq> rc_lease_observation_fingerprint existing then
               rejected ''recovery receipt release observation does not match its fingerprint''
             else
               let persisted = list_ex (\<lambda>o'. lease_observation_fingerprint o' = rc_lease_observation_fingerprint existing)
                     (lx_applied lease_state);
                   finish = (\<lambda>pool' lease'.
                     rbind (case rc_next_attempt_id existing of
                              None \<Rightarrow> Inr None
                            | Some i \<Rightarrow> rbind (materialize_retry_attempt host plan attempts i) (\<lambda>a. Inr (Some a)))
                       (\<lambda>replay_attempt.
                          mk_worker_recovery Recover_REPLAY_EXISTING (Some plan) pool' lease' replay_attempt
                            (Some (rc_reservation_id existing)) None ledger (Some observation)))
               in if active reservation then
                    if \<not> persisted \<and> last_sequence lease_state + 1 \<noteq> rc_lease_observation_sequence existing then
                      rejected ''recovery receipt cannot resume from the current lease sequence''
                    else
                      rbind (apply_lease_observation lease_state observation) (\<lambda>lease_resolution.
                        if ln_decision lease_resolution \<notin> {LeaseObs_APPLY, LeaseObs_REPLAY_EXISTING} then
                          rejected (reason_or (ln_rejection_reason lease_resolution)
                                      ''recovery receipt release observation cannot be replayed'')
                        else
                          case release_worker_slot pool (wr_reservation_id reservation) (utc (rc_released_at existing)) of
                            Inl (ValueError m) \<Rightarrow> rejected m
                          | Inl err \<Rightarrow> Inl err
                          | Inr replay_pool \<Rightarrow> finish replay_pool (ln_state lease_resolution))
                  else if wr_released_at reservation \<noteq> Some (rc_released_at existing) then
                    rejected ''worker reservation release time differs from recovery receipt''
                  else if \<not> persisted then
                    rejected ''recovery receipt exists but lease release observation is missing''
                  else finish pool lease_state))"

text \<open>The branch of an attempt that is recovered for the first time.\<close>

definition first_recovery ::
  "lease_observation_state \<Rightarrow> worker_pool \<Rightarrow> recovery_record list \<Rightarrow> recovery_reason \<Rightarrow> instant \<Rightarrow> run_attempt
     \<Rightarrow> worker_reservation \<Rightarrow> recovery_plan \<Rightarrow> run_attempt option \<Rightarrow> string \<Rightarrow> worker_recovery result" where
  "first_recovery lease_state pool ledger reason observed latest reservation plan next_attempt recovery_fp =
     (let rejected = reject_recovery pool ledger lease_state;
          proceed =
            (if \<not> active reservation then
               rejected ''worker reservation is already released without a recovery receipt''
             else
               rbind (release_observation lease_state recovery_fp (utc observed) (last_sequence lease_state + 1)) (\<lambda>observation.
               rbind (apply_lease_observation lease_state observation) (\<lambda>lease_resolution.
                 if ln_decision lease_resolution \<noteq> LeaseObs_APPLY then
                   rejected (reason_or (ln_rejection_reason lease_resolution) ''lease release observation was rejected'')
                 else
                   rbind (release_worker_slot pool (wr_reservation_id reservation) (utc observed)) (\<lambda>released_pool.
                   let decision = (if rn_disposition plan = Recovery_RETRY then Recover_RETRY_SCHEDULED
                                   else if rn_disposition plan = Recovery_NOOP then Recover_NOOP else Recover_TERMINAL)
                   in rbind (mk_recovery_record recovery_fp (ra_attempt_id latest) (wr_reservation_id reservation) decision reason
                               (recovery_plan_fingerprint plan) (map_option ra_attempt_id next_attempt)
                               (lease_observation_fingerprint observation) (lo_sequence observation) (utc observed)) (\<lambda>record.
                      rbind (mk_recovery_ledger (ledger @ [record])) (\<lambda>next_ledger.
                        mk_worker_recovery decision (Some plan) released_pool (ln_state lease_resolution) next_attempt
                          (Some (wr_reservation_id reservation)) None next_ledger (Some observation)))))))
      in if reason = Reason_LEASE_EXPIRED then
           rbind (status_at (lx_lease lease_state) (utc observed)) (\<lambda>status.
             if status \<noteq> Lease_EXPIRED then rejected ''lease-expired recovery requires an expired lease'' else proceed)
         else proceed)"

definition resolve_worker_recovery ::
  "(int \<Rightarrow> instant) \<Rightarrow> run_attempt list \<Rightarrow> execution_admission list \<Rightarrow> lease_observation_state \<Rightarrow> worker_pool
     \<Rightarrow> recovery_record list \<Rightarrow> recovery_reason \<Rightarrow> datetime \<Rightarrow> retry_policy \<Rightarrow> string option \<Rightarrow> worker_recovery result" where
  "resolve_worker_recovery host attempts admissions lease_state pool ledger reason observed_at policy next_attempt_id =
     with_aware observed_at ''recovery observation time must be timezone-aware'' (\<lambda>observed.
       if attempts = [] then Inl (TypeError ''prior_attempts must contain RunAttempt values'')
       else
         let latest = latest_attempt (hd attempts) (tl attempts);
             rejected = reject_recovery pool ledger lease_state;
             lease = lx_lease lease_state
         in case find (\<lambda>ad. ad_attempt_id ad = ra_attempt_id latest) admissions of
              None \<Rightarrow> rejected ''latest attempt has no execution admission receipt''
            | Some admission \<Rightarrow>
                if ra_attempt_id latest \<noteq> ls_attempt_id lease then rejected ''latest attempt does not match the lease''
                else if ad_worker_id admission \<noteq> ls_worker_id lease then
                  rejected ''admission and lease reference different workers''
                else if ls_worker_id lease \<noteq> wf_worker_id (wp_profile pool) then
                  rejected ''lease is bound to a different worker pool''
                else case find (\<lambda>r. wr_reservation_id r = ad_reservation_id admission \<and> wr_attempt_id r = ra_attempt_id latest)
                            (wp_reservations pool) of
                  None \<Rightarrow> rejected ''admission has no active worker reservation''
                | Some reservation \<Rightarrow>
                    rbind (plan_attempt_recovery attempts reason (utc observed) policy) (\<lambda>plan.
                      let retry = (rn_disposition plan = Recovery_RETRY)
                      in if retry \<and> (case next_attempt_id of None \<Rightarrow> True | Some i \<Rightarrow> blank i) then
                           rejected ''retry recovery requires a next attempt identity''
                         else
                           rbind (if retry then rbind (materialize_retry_attempt host plan attempts (the next_attempt_id))
                                                  (\<lambda>a. Inr (Some a)) else Inr None) (\<lambda>next_attempt.
                             let recovery_fp = recovery_fingerprint next_attempt plan (ra_attempt_id latest) reason
                                   (wr_reservation_id reservation)
                             in case find (\<lambda>c. rc_attempt_id c = ra_attempt_id latest) ledger of
                                  Some existing \<Rightarrow>
                                    resume_recovery host attempts lease_state pool ledger reservation plan recovery_fp existing
                                | None \<Rightarrow>
                                    first_recovery lease_state pool ledger reason observed latest reservation plan
                                      next_attempt recovery_fp)))"

section \<open>What a recovery relies on\<close>

text \<open>The common part of every decision: the latest attempt has an admission, its lease and its reservation on
  this worker, the policy answers a plan, and a retry has its queued attempt.\<close>

definition recoverable ::
  "(int \<Rightarrow> instant) \<Rightarrow> run_attempt list \<Rightarrow> execution_admission list \<Rightarrow> lease_observation_state \<Rightarrow> worker_pool
     \<Rightarrow> recovery_reason \<Rightarrow> instant \<Rightarrow> retry_policy \<Rightarrow> string option
     \<Rightarrow> run_attempt \<Rightarrow> worker_reservation \<Rightarrow> recovery_plan \<Rightarrow> run_attempt option \<Rightarrow> bool" where
  "recoverable host as ads s p reason t policy nid latest r plan next \<longleftrightarrow>
     as \<noteq> [] \<and> latest = latest_attempt (hd as) (tl as)
     \<and> (\<exists>ad. find (\<lambda>ad. ad_attempt_id ad = ra_attempt_id latest) ads = Some ad
          \<and> ra_attempt_id latest = ls_attempt_id (lx_lease s) \<and> ad_worker_id ad = ls_worker_id (lx_lease s)
          \<and> ls_worker_id (lx_lease s) = wf_worker_id (wp_profile p)
          \<and> find (\<lambda>r. wr_reservation_id r = ad_reservation_id ad \<and> wr_attempt_id r = ra_attempt_id latest)
              (wp_reservations p) = Some r)
     \<and> plan_attempt_recovery as reason (utc t) policy = Inr plan
     \<and> (if rn_disposition plan = Recovery_RETRY
        then \<exists>i a. nid = Some i \<and> \<not> blank i \<and> materialize_retry_attempt host plan as i = Inr a \<and> next = Some a
        else next = None)"

lemma mk_worker_recovery_fields:
  "mk_worker_recovery d n p s a i m l o' = Inr x \<Longrightarrow> wy_decision x = d \<and> wy_plan x = n \<and> wy_pool x = p
     \<and> wy_lease_state x = s \<and> wy_next_attempt x = a \<and> wy_ledger x = l \<and> wy_release_observation x = o'"
  unfolding mk_worker_recovery_def raising_Inr_iff by (drule conjunct2) auto

definition undone :: "worker_pool \<Rightarrow> recovery_record list \<Rightarrow> lease_observation_state \<Rightarrow> worker_recovery \<Rightarrow> bool" where
  "undone p l s x \<longleftrightarrow> wy_decision x \<in> {Recover_CONFLICT, Recover_REJECT} \<and> wy_pool x = p \<and> wy_lease_state x = s
     \<and> wy_ledger x = l \<and> wy_plan x = None \<and> wy_next_attempt x = None"

lemma reject_recovery_undone: "reject_recovery p l s m = Inr x \<Longrightarrow> undone p l s x"
  by (auto simp: reject_recovery_def undone_def dest: mk_worker_recovery_fields)

lemma resolve_recoverable:
  assumes "recoverable host as ads s p reason t policy nid latest r plan next"
  shows "resolve_worker_recovery host as ads s p l reason (Aware t z) policy nid =
    (let fp = recovery_fingerprint next plan (ra_attempt_id latest) reason (wr_reservation_id r)
     in case find (\<lambda>c. rc_attempt_id c = ra_attempt_id latest) l of
          Some e \<Rightarrow> resume_recovery host as s p l r plan fp e
        | None \<Rightarrow> first_recovery s p l reason t latest r plan next fp)"
  using assms by (auto simp: recoverable_def resolve_worker_recovery_def Let_def split: if_splits option.splits)

lemma resolve_recovery_cases:
  assumes "resolve_worker_recovery host as ads s p l reason obs policy nid = Inr x"
  obtains (refused) "undone p l s x"
  | (found) t z latest r plan "next" where "obs = Aware t z"
      "recoverable host as ads s p reason t policy nid latest r plan next"
proof -
  obtain t z where obs: "obs = Aware t z" using assms by (auto simp: resolve_worker_recovery_def with_aware_eq_Inr)
  have "undone p l s x \<or> (\<exists>latest r plan next. recoverable host as ads s p reason t policy nid latest r plan next)"
    using assms unfolding obs resolve_worker_recovery_def Let_def with_aware.simps recoverable_def
    by (auto split: if_splits option.splits dest: reject_recovery_undone)
  then show thesis using refused found obs by blast
qed

definition closing :: "lease_observation_state \<Rightarrow> string \<Rightarrow> instant \<Rightarrow> int \<Rightarrow> lease_observation" where
  "closing s fp t n = \<lparr>lo_observation_id = digest (PMapping
       [(''kind'', PEnum ''app.strategy_lab_v2.lease_observations.LeaseObservationKind''
           (PStr (lease_observation_kind_value Lease_RELEASE))),
        (''lease_id'', PStr (ls_lease_id (lx_lease s))), (''recovery_fingerprint'', PStr fp)]),
     lo_lease_id = ls_lease_id (lx_lease s), lo_worker_id = ls_worker_id (lx_lease s),
     lo_attempt_id = ls_attempt_id (lx_lease s), lo_sequence = n, lo_kind = Lease_RELEASE, lo_observed_at = t,
     lo_expires_at = None\<rparr>"

lemma release_observation_closing:
  assumes "lease_stream_ok s" "1 \<le> n"
  shows "release_observation s fp (utc t) n = Inr (closing s fp t n)"
proof -
  have "attempt_lease_ok (lx_lease s)" using assms(1) by (simp add: lease_stream_ok_def Let_def)
  with assms(2) show ?thesis
    by (simp add: release_observation_def mk_lease_observation_def closing_def raising_Inr_iff Let_def digests_clean
        is_digest_digest attempt_lease_ok_def)
qed

lemma closing_fixed: "lease_fixed s s' \<Longrightarrow> closing s' fp t n = closing s fp t n"
  by (simp add: closing_def lease_fixed_def)

lemma last_sequence_nonneg [simp]: "0 \<le> last_sequence s"
  by (simp add: last_sequence_def)

section \<open>First recoveries\<close>

definition plan_decision :: "recovery_plan \<Rightarrow> worker_recovery_decision" where
  "plan_decision plan = (if rn_disposition plan = Recovery_RETRY then Recover_RETRY_SCHEDULED
     else if rn_disposition plan = Recovery_NOOP then Recover_NOOP else Recover_TERMINAL)"

definition receipt_of ::
  "lease_observation_state \<Rightarrow> recovery_reason \<Rightarrow> instant \<Rightarrow> run_attempt \<Rightarrow> worker_reservation \<Rightarrow> recovery_plan
     \<Rightarrow> run_attempt option \<Rightarrow> string \<Rightarrow> recovery_record" where
  "receipt_of s reason t latest r plan next fp = \<lparr>rc_recovery_fingerprint = fp, rc_attempt_id = ra_attempt_id latest,
     rc_reservation_id = wr_reservation_id r, rc_decision = plan_decision plan, rc_reason = reason,
     rc_plan_fingerprint = recovery_plan_fingerprint plan, rc_next_attempt_id = map_option ra_attempt_id next,
     rc_lease_observation_fingerprint = lease_observation_fingerprint (closing s fp t (last_sequence s + 1)),
     rc_lease_observation_sequence = last_sequence s + 1, rc_released_at = t\<rparr>"

definition recovered ::
  "lease_observation_state \<Rightarrow> worker_pool \<Rightarrow> recovery_record list \<Rightarrow> recovery_reason \<Rightarrow> instant \<Rightarrow> run_attempt
     \<Rightarrow> worker_reservation \<Rightarrow> recovery_plan \<Rightarrow> run_attempt option \<Rightarrow> string \<Rightarrow> worker_recovery \<Rightarrow> bool" where
  "recovered s p l reason t latest r plan next fp x \<longleftrightarrow> active r
     \<and> (\<exists>n. apply_lease_observation s (closing s fp t (last_sequence s + 1)) = Inr n \<and> ln_decision n = LeaseObs_APPLY
          \<and> wy_lease_state x = ln_state n)
     \<and> release_worker_slot p (wr_reservation_id r) (utc t) = Inr (wy_pool x)
     \<and> mk_recovery_ledger (l @ [receipt_of s reason t latest r plan next fp]) = Inr (wy_ledger x)
     \<and> wy_decision x = plan_decision plan \<and> wy_plan x = Some plan \<and> wy_next_attempt x = next
     \<and> wy_release_observation x = Some (closing s fp t (last_sequence s + 1))"

lemma first_recovery_cases:
  assumes ok: "lease_stream_ok s" and x: "first_recovery s p l reason t latest r plan next fp = Inr x"
  shows "undone p l s x \<or> recovered s p l reason t latest r plan next fp x"
proof -
  let ?proceed = "if \<not> active r then reject_recovery p l s ''worker reservation is already released without a recovery receipt''
    else rbind (apply_lease_observation s (closing s fp t (last_sequence s + 1))) (\<lambda>n.
      if ln_decision n \<noteq> LeaseObs_APPLY
      then reject_recovery p l s (reason_or (ln_rejection_reason n) ''lease release observation was rejected'')
      else rbind (release_worker_slot p (wr_reservation_id r) (utc t)) (\<lambda>p'.
        rbind (mk_recovery_record fp (ra_attempt_id latest) (wr_reservation_id r) (plan_decision plan) reason
          (recovery_plan_fingerprint plan) (map_option ra_attempt_id next)
          (lease_observation_fingerprint (closing s fp t (last_sequence s + 1))) (last_sequence s + 1) (utc t)) (\<lambda>c.
        rbind (mk_recovery_ledger (l @ [c])) (\<lambda>l'.
          mk_worker_recovery (plan_decision plan) (Some plan) p' (ln_state n) next (Some (wr_reservation_id r)) None l'
            (Some (closing s fp t (last_sequence s + 1)))))))"
  have o': "release_observation s fp (utc t) (last_sequence s + 1) = Inr (closing s fp t (last_sequence s + 1))"
    by (rule release_observation_closing [OF ok]) simp
  have seq: "lo_sequence (closing s fp t n) = n" for n by (simp add: closing_def)
  have made: "c = receipt_of s reason t latest r plan next fp"
    if "mk_recovery_record fp (ra_attempt_id latest) (wr_reservation_id r) (plan_decision plan) reason
      (recovery_plan_fingerprint plan) (map_option ra_attempt_id next)
      (lease_observation_fingerprint (closing s fp t (last_sequence s + 1))) (last_sequence s + 1) (utc t) = Inr c" for c
    using that unfolding mk_recovery_record_def raising_Inr_iff with_aware_utc receipt_of_def by (drule_tac conjunct2) simp
  have "undone p l s x \<or> ?proceed = Inr x"
    using x unfolding first_recovery_def Let_def o' rbind.simps seq plan_decision_def [symmetric]
    by (auto split: if_splits dest: reject_recovery_undone)
  then show ?thesis
    by (auto simp: recovered_def split: if_splits dest: reject_recovery_undone dest!: made mk_worker_recovery_fields)
qed

definition recovery_record_ok :: "recovery_record \<Rightarrow> bool" where
  "recovery_record_ok c \<longleftrightarrow> is_digest (rc_recovery_fingerprint c) \<and> is_digest (rc_reservation_id c)
     \<and> is_digest (rc_plan_fingerprint c) \<and> is_digest (rc_lease_observation_fingerprint c)
     \<and> \<not> blank (rc_attempt_id c) \<and> (\<forall>i. rc_next_attempt_id c = Some i \<longrightarrow> \<not> blank i)
     \<and> 1 \<le> rc_lease_observation_sequence c"

definition recovery_ledger_ok :: "recovery_record list \<Rightarrow> bool" where
  "recovery_ledger_ok l \<longleftrightarrow> (\<forall>c \<in> set l. recovery_record_ok c) \<and> distinct (map rc_recovery_fingerprint l)
     \<and> distinct (map rc_attempt_id l) \<and> distinct (map rc_reservation_id l) \<and> sorted (map rc_recovery_fingerprint l)"

lemma mk_recovery_ledger_Inr:
  "mk_recovery_ledger cs = Inr l \<longleftrightarrow> l = sort_key rc_recovery_fingerprint cs
     \<and> distinct (map rc_recovery_fingerprint cs) \<and> distinct (map rc_attempt_id cs) \<and> distinct (map rc_reservation_id cs)"
  by (auto simp: mk_recovery_ledger_def contract_simps)

lemma mk_recovery_ledger_ok:
  assumes "mk_recovery_ledger cs = Inr l" "\<forall>c \<in> set cs. recovery_record_ok c"
  shows "recovery_ledger_ok l \<and> set l = set cs"
proof -
  have d: "distinct (map g (sort_key rc_recovery_fingerprint cs)) \<longleftrightarrow> distinct (map g cs)" for g :: "recovery_record \<Rightarrow> string"
    by (simp add: distinct_map)
  from assms show ?thesis by (simp add: mk_recovery_ledger_Inr recovery_ledger_ok_def d)
qed

lemma recovery_digests [simp]:
  "is_digest (recovery_fingerprint a n i reason r)" "is_digest (recovery_plan_fingerprint n)"
  "is_digest (lease_observation_fingerprint o')"
  by (simp_all add: recovery_fingerprint_def recovery_plan_fingerprint_def lease_observation_fingerprint_def is_digest_digest
      reason_py_def opt_py_def split: option.splits)

lemma materialized_id: "materialize_retry_attempt host plan as i = Inr a \<Longrightarrow> ra_attempt_id a = i \<and> ra_state a = Attempt_QUEUED"
  by (auto simp: materialize_retry_attempt_def contract_simps create_retry_attempt_Inr Let_def)

lemma recoverable_facts:
  assumes "recoverable host as ads s p reason t policy nid latest r plan next" "lease_stream_ok s" "worker_pool_ok p"
  shows "r \<in> set (wp_reservations p)" "wr_attempt_id r = ra_attempt_id latest" "\<not> blank (ra_attempt_id latest)"
    "is_digest (wr_reservation_id r)" "(next \<noteq> None) = (rn_disposition plan = Recovery_RETRY)"
    "\<And>a. next = Some a \<Longrightarrow> nid = Some (ra_attempt_id a) \<and> \<not> blank (ra_attempt_id a) \<and> ra_state a = Attempt_QUEUED
        \<and> materialize_retry_attempt host plan as (ra_attempt_id a) = Inr a"
    "wr_reservation_id r \<in> sl_used (slot_of p)"
proof -
  show r: "r \<in> set (wp_reservations p)" "wr_attempt_id r = ra_attempt_id latest"
    using assms(1) by (auto simp: recoverable_def find_Some_iff)
  show "\<not> blank (ra_attempt_id latest)"
    using assms(1,2) by (auto simp: recoverable_def lease_stream_ok_def attempt_lease_ok_def Let_def)
  show "is_digest (wr_reservation_id r)" using r assms(3) by (simp add: worker_pool_ok_def worker_reservation_ok_def)
  show "(next \<noteq> None) = (rn_disposition plan = Recovery_RETRY)"
    using assms(1) by (auto simp: recoverable_def split: if_splits)
  show "nid = Some (ra_attempt_id a) \<and> \<not> blank (ra_attempt_id a) \<and> ra_state a = Attempt_QUEUED
        \<and> materialize_retry_attempt host plan as (ra_attempt_id a) = Inr a" if "next = Some a" for a
    using assms(1) that materialized_id by (auto simp: recoverable_def split: if_splits)
  show "wr_reservation_id r \<in> sl_used (slot_of p)" using r by (simp add: slot_of_def)
qed

section \<open>Resumed recoveries\<close>

definition resumed ::
  "lease_observation_state \<Rightarrow> worker_pool \<Rightarrow> recovery_record list \<Rightarrow> worker_reservation \<Rightarrow> recovery_plan \<Rightarrow> recovery_record
     \<Rightarrow> worker_recovery \<Rightarrow> bool" where
  "resumed s p l r plan e x \<longleftrightarrow>
     (let o' = closing s (rc_recovery_fingerprint e) (rc_released_at e) (rc_lease_observation_sequence e)
      in wy_decision x = Recover_REPLAY_EXISTING \<and> wy_plan x = Some plan \<and> wy_ledger x = l
         \<and> lease_observation_fingerprint o' = rc_lease_observation_fingerprint e \<and> wy_release_observation x = Some o'
         \<and> (if active r
            then (\<exists>n. apply_lease_observation s o' = Inr n \<and> ln_decision n \<in> {LeaseObs_APPLY, LeaseObs_REPLAY_EXISTING}
                    \<and> wy_lease_state x = ln_state n)
               \<and> release_worker_slot p (wr_reservation_id r) (utc (rc_released_at e)) = Inr (wy_pool x)
            else wr_released_at r = Some (rc_released_at e) \<and> wy_pool x = p \<and> wy_lease_state x = s
               \<and> (\<exists>o'' \<in> set (lx_applied s). lease_observation_fingerprint o'' = rc_lease_observation_fingerprint e)))"

definition finish_resume ::
  "(int \<Rightarrow> instant) \<Rightarrow> run_attempt list \<Rightarrow> recovery_record list \<Rightarrow> recovery_plan \<Rightarrow> recovery_record \<Rightarrow> lease_observation
     \<Rightarrow> worker_pool \<Rightarrow> lease_observation_state \<Rightarrow> worker_recovery result" where
  "finish_resume host as l plan e o' p' s' =
     rbind (case rc_next_attempt_id e of None \<Rightarrow> Inr None
            | Some i \<Rightarrow> rbind (materialize_retry_attempt host plan as i) (\<lambda>a. Inr (Some a)))
       (\<lambda>a. mk_worker_recovery Recover_REPLAY_EXISTING (Some plan) p' s' a (Some (rc_reservation_id e)) None l (Some o'))"

lemma resume_recovery_unfold:
  assumes "lease_stream_ok s" "recovery_record_ok e"
  defines "o' \<equiv> closing s (rc_recovery_fingerprint e) (rc_released_at e) (rc_lease_observation_sequence e)"
  defines "persisted \<equiv> \<exists>o'' \<in> set (lx_applied s). lease_observation_fingerprint o'' = rc_lease_observation_fingerprint e"
  shows "resume_recovery host as s p l r plan fp e =
    (if rc_recovery_fingerprint e \<noteq> fp then
       mk_worker_recovery Recover_CONFLICT None p s None None
         (Some ''attempt is already bound to different recovery content'') l None
     else if lease_observation_fingerprint o' \<noteq> rc_lease_observation_fingerprint e then
       reject_recovery p l s ''recovery receipt release observation does not match its fingerprint''
     else if active r then
       if \<not> persisted \<and> last_sequence s + 1 \<noteq> rc_lease_observation_sequence e then
         reject_recovery p l s ''recovery receipt cannot resume from the current lease sequence''
       else rbind (apply_lease_observation s o') (\<lambda>n.
         if ln_decision n \<notin> {LeaseObs_APPLY, LeaseObs_REPLAY_EXISTING} then
           reject_recovery p l s (reason_or (ln_rejection_reason n) ''recovery receipt release observation cannot be replayed'')
         else case release_worker_slot p (wr_reservation_id r) (utc (rc_released_at e)) of
             Inl (ValueError m) \<Rightarrow> reject_recovery p l s m
           | Inl err \<Rightarrow> Inl err
           | Inr p' \<Rightarrow> finish_resume host as l plan e o' p' (ln_state n))
     else if wr_released_at r \<noteq> Some (rc_released_at e) then
       reject_recovery p l s ''worker reservation release time differs from recovery receipt''
     else if \<not> persisted then
       reject_recovery p l s ''recovery receipt exists but lease release observation is missing''
     else finish_resume host as l plan e o' p s)"
proof -
  have "1 \<le> rc_lease_observation_sequence e" using assms(2) by (simp add: recovery_record_ok_def)
  then have o': "release_observation s (rc_recovery_fingerprint e) (utc (rc_released_at e)) (rc_lease_observation_sequence e) = Inr o'"
    unfolding o'_def by (rule release_observation_closing [OF assms(1)])
  have persisted: "list_ex (\<lambda>o'. lease_observation_fingerprint o' = rc_lease_observation_fingerprint e) (lx_applied s) = persisted"
    by (simp add: list_ex_iff persisted_def)
  show ?thesis
    unfolding resume_recovery_def Let_def o' rbind.simps persisted finish_resume_def by (rule refl)
qed

lemma resume_recovery_cases:
  assumes "lease_stream_ok s" "recovery_record_ok e" "resume_recovery host as s p l r plan fp e = Inr x"
  shows "undone p l s x \<or> resumed s p l r plan e x"
proof -
  have conflict: "undone p l s x" if "mk_worker_recovery Recover_CONFLICT None p s None None m l None = Inr x" for m
    using mk_worker_recovery_fields [OF that] by (simp add: undone_def)
  have finish: "wy_decision x = Recover_REPLAY_EXISTING \<and> wy_plan x = Some plan \<and> wy_ledger x = l
      \<and> wy_release_observation x = Some o' \<and> wy_pool x = p' \<and> wy_lease_state x = s'"
    if "finish_resume host as l plan e o' p' s' = Inr x" for o' p' s'
    using that by (auto simp: finish_resume_def dest: mk_worker_recovery_fields)
  show ?thesis
    using assms(3) unfolding resume_recovery_unfold [OF assms(1,2)]
    by (auto simp: resumed_def Let_def split: if_splits sum.splits py_error.splits
        dest: conflict reject_recovery_undone dest!: finish)
qed

section \<open>Effects\<close>

lemma reservation_active_holder:
  assumes "worker_pool_ok p" "r \<in> set (wp_reservations p)"
  shows "active r \<longleftrightarrow> sl_holder (slot_of p) = Some (wr_reservation_id r, wr_attempt_id r)"
    "\<not> active r \<Longrightarrow> sl_holder (slot_of p) \<noteq> Some (wr_reservation_id r, a)"
proof -
  have same: "q = r" if "q \<in> set (wp_reservations p)" "wr_reservation_id q = wr_reservation_id r" for q
    using that assms by (metis distinct_map inj_onD worker_pool_ok_def)
  show "active r \<longleftrightarrow> sl_holder (slot_of p) = Some (wr_reservation_id r, wr_attempt_id r)"
    using assms same active_member [of p] holder_active [OF assms(1), of r]
    by (auto simp: slot_holder_Some [OF assms(1)] set_active_reservations)
  show "sl_holder (slot_of p) \<noteq> Some (wr_reservation_id r, a)" if "\<not> active r"
    using that same active_member [of p] by (auto simp: slot_holder_Some [OF assms(1)])
qed

lemma slot_release_free: "sl_holder (slot_release i sl) \<noteq> Some (i, a)"
  by (auto simp: slot_release_def)

lemma lease_observed:
  assumes "lease_stream_ok s" "apply_lease_observation s o' = Inr n"
  shows "lease_stream_ok (ln_state n) \<and> lease_fixed s (ln_state n) \<and> prefix (lx_applied s) (lx_applied (ln_state n))"
proof -
  have "observe_lease o' s = Inr (ln_state n)" using assms(2) by (auto simp: observe_lease_Inr)
  then have "serve observe_lease [o'] s = ln_state n" by (simp add: served_def)
  then show ?thesis
    using lease_streams.machine.serve_inv [OF assms(1), of "[o']"] lease_streams.machine.serve_le [OF assms(1), of "[o']"]
      fixed_leases.serve_le [OF assms(1), of "[o']"] by simp
qed

lemma closing_applied:
  assumes "lease_stream_ok s" "apply_lease_observation s o' = Inr n" "ln_decision n = LeaseObs_APPLY" "lo_kind o' = Lease_RELEASE"
  shows "ls_released_at (lx_lease s) = None \<and> ls_released_at (lx_lease (ln_state n)) = Some (lo_observed_at o')
    \<and> lx_applied (ln_state n) = lx_applied s @ [o']"
  using apply_lease_observation_cases [OF assms(1,2)] assms(3,4) by (simp add: lease_applied_def)

definition recovery_state_ok :: "lease_observation_state \<Rightarrow> worker_pool \<Rightarrow> recovery_record list \<Rightarrow> bool" where
  "recovery_state_ok s p l \<longleftrightarrow> lease_stream_ok s \<and> worker_pool_ok p \<and> recovery_ledger_ok l"

definition recovery_state_le ::
  "lease_observation_state \<times> worker_pool \<times> recovery_record list \<Rightarrow> lease_observation_state \<times> worker_pool \<times> recovery_record list
     \<Rightarrow> bool" where
  "recovery_state_le a b \<longleftrightarrow> (case (a, b) of ((s, p, l), (s', p', l')) \<Rightarrow>
     lease_fixed s s' \<and> prefix (lx_applied s) (lx_applied s') \<and> worker_le p p' \<and> set l \<subseteq> set l')"

lemma recovered_effect:
  assumes ok: "recovery_state_ok s p l" and rec: "recoverable host as ads s p reason t policy nid latest r plan next"
    and x: "recovered s p l reason t latest r plan next (recovery_fingerprint next plan i reason j) x"
  shows "recovery_state_ok (wy_lease_state x) (wy_pool x) (wy_ledger x)
    \<and> recovery_state_le (s, p, l) (wy_lease_state x, wy_pool x, wy_ledger x)
    \<and> sl_holder (slot_of p) = Some (wr_reservation_id r, ra_attempt_id latest) \<and> sl_holder (slot_of (wy_pool x)) = None
    \<and> ls_released_at (lx_lease s) = None \<and> ls_released_at (lx_lease (wy_lease_state x)) = Some t
    \<and> set (wy_ledger x) = insert (receipt_of s reason t latest r plan next (recovery_fingerprint next plan i reason j)) (set l)
    \<and> ra_attempt_id latest \<notin> rc_attempt_id ` set l"
proof -
  let ?c = "receipt_of s reason t latest r plan next (recovery_fingerprint next plan i reason j)"
  have s: "lease_stream_ok s" and p: "worker_pool_ok p" and l: "recovery_ledger_ok l"
    using ok by (simp_all add: recovery_state_ok_def)
  note facts = recoverable_facts [OF rec s p]
  have c: "recovery_record_ok ?c"
    using facts(3,4) facts(6) by (auto simp: recovery_record_ok_def receipt_of_def)
  have led: "mk_recovery_ledger (l @ [?c]) = Inr (wy_ledger x)" using x by (simp add: recovered_def)
  have new: "ra_attempt_id latest \<notin> rc_attempt_id ` set l"
    using led by (simp add: mk_recovery_ledger_Inr receipt_of_def)
  have l': "recovery_ledger_ok (wy_ledger x)" "set (wy_ledger x) = insert ?c (set l)"
    using mk_recovery_ledger_ok [OF led] l c by (auto simp: recovery_ledger_ok_def)
  obtain n where n: "apply_lease_observation s (closing s (recovery_fingerprint next plan i reason j) t (last_sequence s + 1)) = Inr n"
    "ln_decision n = LeaseObs_APPLY" "wy_lease_state x = ln_state n" and act: "active r"
    using x by (auto simp: recovered_def)
  have rel: "release_worker_slot p (wr_reservation_id r) (utc t) = Inr (wy_pool x)" using x by (simp add: recovered_def)
  note freed = release_step [OF p rel]
  have held: "sl_holder (slot_of p) = Some (wr_reservation_id r, ra_attempt_id latest)"
    using act reservation_active_holder(1) [OF p facts(1)] facts(2) by simp
  then have "sl_holder (slot_of (wy_pool x)) = None" using freed by (simp add: slot_release_def)
  with l' new held freed lease_observed [OF s n(1)] closing_applied [OF s n(1,2)] n(3) show ?thesis
    by (auto simp: recovery_state_ok_def recovery_state_le_def closing_def)
qed

lemma resumed_effect:
  assumes ok: "recovery_state_ok s p l" and rec: "recoverable host as ads s p reason t policy nid latest r plan next"
    and x: "resumed s p l r plan e x"
  shows "recovery_state_ok (wy_lease_state x) (wy_pool x) (wy_ledger x)
    \<and> recovery_state_le (s, p, l) (wy_lease_state x, wy_pool x, wy_ledger x)
    \<and> (\<forall>a. sl_holder (slot_of (wy_pool x)) \<noteq> Some (wr_reservation_id r, a))
    \<and> (\<exists>o' \<in> set (lx_applied (wy_lease_state x)). lease_observation_fingerprint o' = rc_lease_observation_fingerprint e)"
proof -
  have s: "lease_stream_ok s" and p: "worker_pool_ok p" using ok by (simp_all add: recovery_state_ok_def)
  have r: "r \<in> set (wp_reservations p)" by (rule recoverable_facts(1) [OF rec s p])
  have led: "wy_ledger x = l" using x by (simp add: resumed_def Let_def)
  let ?o = "closing s (rc_recovery_fingerprint e) (rc_released_at e) (rc_lease_observation_sequence e)"
  have fp: "lease_observation_fingerprint ?o = rc_lease_observation_fingerprint e" using x by (simp add: resumed_def Let_def)
  show ?thesis
  proof (cases "active r")
    case True
    then obtain n where n: "apply_lease_observation s ?o = Inr n" "ln_decision n \<in> {LeaseObs_APPLY, LeaseObs_REPLAY_EXISTING}"
      "wy_lease_state x = ln_state n" "release_worker_slot p (wr_reservation_id r) (utc (rc_released_at e)) = Inr (wy_pool x)"
      using x by (auto simp: resumed_def Let_def)
    have "\<exists>o' \<in> set (lx_applied (ln_state n)). lease_observation_fingerprint o' = rc_lease_observation_fingerprint e"
    proof (cases "ln_decision n = LeaseObs_APPLY")
      case True
      with closing_applied [OF s n(1)] fp show ?thesis by (auto simp: closing_def)
    next
      case False
      then have "\<exists>o' \<in> set (lx_applied s). lease_observation_fingerprint o' = lease_observation_fingerprint ?o"
        using n(1,2) by (auto simp: apply_lease_observation_def Let_def contract_simps find_Some_iff
            dest!: mk_lease_observation_resolution_Inr split: if_splits option.splits)
      moreover have "ln_state n = s" using apply_lease_observation_cases [OF s n(1)] False by simp
      ultimately show ?thesis using fp by simp
    qed
    with release_step [OF p n(4)] lease_observed [OF s n(1)] n(3) led ok show ?thesis
      by (auto simp: recovery_state_ok_def recovery_state_le_def slot_release_free)
  next
    case False
    with x have "wy_pool x = p" "wy_lease_state x = s"
      "\<exists>o'' \<in> set (lx_applied s). lease_observation_fingerprint o'' = rc_lease_observation_fingerprint e"
      by (simp_all add: resumed_def Let_def)
    with ok led reservation_active_holder(2) [OF p r False] show ?thesis
      by (simp add: recovery_state_le_def fixed_leases.le_refl worker_pools.le_refl)
  qed
qed

lemma recovery_outcomes:
  assumes ok: "recovery_state_ok s p l" and x: "resolve_worker_recovery host as ads s p l reason obs policy nid = Inr x"
  obtains (refused) "undone p l s x"
  | (first) t z latest r plan "next" where "obs = Aware t z" "recoverable host as ads s p reason t policy nid latest r plan next"
      "recovered s p l reason t latest r plan next
         (recovery_fingerprint next plan (ra_attempt_id latest) reason (wr_reservation_id r)) x"
  | (again) t z latest r plan "next" e where "obs = Aware t z" "recoverable host as ads s p reason t policy nid latest r plan next"
      "e \<in> set l" "rc_attempt_id e = ra_attempt_id latest" "resumed s p l r plan e x"
  using x
proof (cases rule: resolve_recovery_cases)
  case (found t z latest r plan "next")
  have s: "lease_stream_ok s" and l: "\<forall>c \<in> set l. recovery_record_ok c"
    using ok by (simp_all add: recovery_state_ok_def recovery_ledger_ok_def)
  let ?fp = "recovery_fingerprint next plan (ra_attempt_id latest) reason (wr_reservation_id r)"
  show thesis
  proof (cases "find (\<lambda>c. rc_attempt_id c = ra_attempt_id latest) l")
    case None
    then have "first_recovery s p l reason t latest r plan next ?fp = Inr x"
      using x unfolding found(1) resolve_recoverable [OF found(2)] by simp
    from first_recovery_cases [OF s this] show thesis using refused first [OF found] by blast
  next
    case (Some e)
    then have e: "e \<in> set l" "rc_attempt_id e = ra_attempt_id latest" by (auto simp: find_Some_iff)
    have "resume_recovery host as s p l r plan ?fp e = Inr x"
      using x Some unfolding found(1) resolve_recoverable [OF found(2)] by simp
    from resume_recovery_cases [OF s _ this] l e show thesis using refused again [OF found e] by blast
  qed
qed (rule refused)

section \<open>The same recovery after a restart\<close>

lemma recoverable_moves:
  assumes "recoverable host as ads s p reason t policy nid latest r plan next" "lease_fixed s s'" "worker_pool_ok p'"
    "wp_profile p' = wp_profile p" "r' \<in> set (wp_reservations p')" "wr_reservation_id r' = wr_reservation_id r"
    "wr_attempt_id r' = wr_attempt_id r"
  shows "recoverable host as ads s' p' reason t policy nid latest r' plan next"
proof -
  obtain ad where ad: "find (\<lambda>ad. ad_attempt_id ad = ra_attempt_id latest) ads = Some ad"
    "ra_attempt_id latest = ls_attempt_id (lx_lease s)" "ad_worker_id ad = ls_worker_id (lx_lease s)"
    "ls_worker_id (lx_lease s) = wf_worker_id (wp_profile p)"
    "find (\<lambda>r. wr_reservation_id r = ad_reservation_id ad \<and> wr_attempt_id r = ra_attempt_id latest) (wp_reservations p) = Some r"
    using assms(1) by (auto simp: recoverable_def)
  have r: "wr_reservation_id r = ad_reservation_id ad" "wr_attempt_id r = ra_attempt_id latest"
    using find_mem [OF ad(5)] by auto
  have "find (\<lambda>r. wr_reservation_id r = ad_reservation_id ad \<and> wr_attempt_id r = ra_attempt_id latest) (wp_reservations p') = Some r'"
  proof (rule find_unique [OF assms(5)])
    fix q assume "q \<in> set (wp_reservations p')" "wr_reservation_id q = ad_reservation_id ad \<and> wr_attempt_id q = ra_attempt_id latest"
    then show "q = r'" using assms(3,5,6) r by (metis distinct_map inj_onD worker_pool_ok_def)
  qed (use assms(6,7) r in simp)
  with ad(1-4) assms(1,2,4) show ?thesis by (auto simp: recoverable_def lease_fixed_def)
qed

lemma released_reservation_found:
  assumes p: "worker_pool_ok p" and r: "r \<in> set (wp_reservations p)" "active r"
    and q: "release_worker_slot p (wr_reservation_id r) (utc t) = Inr q"
  shows "r\<lparr>wr_released_at := Some t\<rparr> \<in> set (wp_reservations q) \<and> worker_pool_ok q \<and> wp_profile q = wp_profile p"
proof -
  have i: "is_digest (wr_reservation_id r)" "wr_reservation_id r \<in> sl_used (slot_of p)"
    using release_inputs [OF q] by auto
  obtain r' where r': "r' \<in> set (wp_reservations p)" "wr_reservation_id r' = wr_reservation_id r"
    "if \<not> active r' then release_worker_slot p (wr_reservation_id r) (Aware t 0) = Inr p
         \<and> slot_release (wr_reservation_id r) (slot_of p) = slot_of p
     else if t < wr_acquired_at r' then release_worker_slot p (wr_reservation_id r) (Aware t 0)
         = Inl (ValueError ''reservation release cannot precede acquisition'')
     else \<exists>q. release_worker_slot p (wr_reservation_id r) (Aware t 0) = Inr q \<and> slot_freed p r' t q"
    using release_refines [OF p i, of t 0] by blast
  moreover have "r' = r" using r'(1,2) r(1) p by (metis distinct_map inj_onD worker_pool_ok_def)
  ultimately show ?thesis using q r(2) by (auto simp: utc_def slot_freed_def split: if_splits)
qed

definition replayed_as :: "worker_recovery \<Rightarrow> string \<Rightarrow> worker_recovery" where
  "replayed_as x i = x\<lparr>wy_decision := Recover_REPLAY_EXISTING, wy_released_reservation_id := Some i,
     wy_rejection_reason := None\<rparr>"

lemma finish_resume_same:
  assumes rec: "recoverable host as ads s p reason t policy nid latest r plan next" and ok: "lease_stream_ok s" "worker_pool_ok p"
    and x: "recovered s0 p0 l reason t latest r0 plan next fp x" "wr_reservation_id r0 = wr_reservation_id r"
  shows "finish_resume host as (wy_ledger x) plan (receipt_of s0 reason t latest r0 plan next fp)
      (closing s0 fp t (last_sequence s0 + 1)) (wy_pool x) (wy_lease_state x) = Inr (replayed_as x (wr_reservation_id r))"
proof -
  note facts = recoverable_facts(4-6) [OF rec ok]
  have "(case map_option ra_attempt_id next of None \<Rightarrow> Inr None
      | Some i \<Rightarrow> rbind (materialize_retry_attempt host plan as i) (\<lambda>a. Inr (Some a))) = Inr next"
    using facts(3) by (cases "next") auto
  moreover have "mk_worker_recovery Recover_REPLAY_EXISTING (Some plan) (wy_pool x) (wy_lease_state x) next
      (Some (wr_reservation_id r)) None (wy_ledger x) (Some (closing s0 fp t (last_sequence s0 + 1)))
      = Inr (replayed_as x (wr_reservation_id r))"
    using facts(1,2) x(1)
    by (cases x; cases "rn_disposition plan")
      (auto simp: mk_worker_recovery_def raising_Inr_iff opt_digests_clean plans_def no_reason_def replayed_as_def recovered_def)
  ultimately show ?thesis using x(2) by (simp add: finish_resume_def receipt_of_def)
qed

lemma recovered_facts:
  assumes ok: "recovery_state_ok s p l" and rec: "recoverable host as ads s p reason t policy nid latest r plan next"
    and fp: "fp = recovery_fingerprint next plan (ra_attempt_id latest) reason (wr_reservation_id r)"
    and c: "c = receipt_of s reason t latest r plan next fp" and o': "o' = closing s fp t (last_sequence s + 1)"
    and done': "recovered s p l reason t latest r plan next fp x"
  shows "find (\<lambda>c. rc_attempt_id c = ra_attempt_id latest) (wy_ledger x) = Some c" "recovery_record_ok c"
    and "lease_stream_ok (wy_lease_state x)" "lease_fixed s (wy_lease_state x)" "o' \<in> set (lx_applied (wy_lease_state x))"
    and "lease_fixed s s1 \<Longrightarrow>
      closing s1 (rc_recovery_fingerprint c) (rc_released_at c) (rc_lease_observation_sequence c) = o'"
    and "rc_recovery_fingerprint c = fp \<and> rc_released_at c = t \<and> rc_lease_observation_sequence c = last_sequence s + 1
      \<and> rc_lease_observation_fingerprint c = lease_observation_fingerprint o' \<and> rc_attempt_id c = ra_attempt_id latest"
proof -
  have s: "lease_stream_ok s" using ok by (simp add: recovery_state_ok_def)
  show fields: "rc_recovery_fingerprint c = fp \<and> rc_released_at c = t \<and> rc_lease_observation_sequence c = last_sequence s + 1
      \<and> rc_lease_observation_fingerprint c = lease_observation_fingerprint o' \<and> rc_attempt_id c = ra_attempt_id latest"
    by (simp add: c receipt_of_def o')
  note effect = recovered_effect [OF ok rec done' [unfolded fp], folded fp, folded c]
  have led: "recovery_ledger_ok (wy_ledger x)" "c \<in> set (wy_ledger x)" and s2: "lease_stream_ok (wy_lease_state x)"
      "lease_fixed s (wy_lease_state x)"
    using effect by (auto simp: recovery_state_ok_def recovery_state_le_def)
  then show "recovery_record_ok c" "lease_stream_ok (wy_lease_state x)" "lease_fixed s (wy_lease_state x)"
    by (simp_all add: recovery_ledger_ok_def)
  show "find (\<lambda>c. rc_attempt_id c = ra_attempt_id latest) (wy_ledger x) = Some c"
  proof (rule find_unique [OF led(2)])
    fix y assume "y \<in> set (wy_ledger x)" "rc_attempt_id y = ra_attempt_id latest"
    then show "y = c" using led fields by (metis distinct_map inj_onD recovery_ledger_ok_def)
  qed (use fields in simp)
  obtain n where n: "apply_lease_observation s o' = Inr n" "ln_decision n = LeaseObs_APPLY" "wy_lease_state x = ln_state n"
    using done' by (auto simp: recovered_def o')
  have "lo_kind o' = Lease_RELEASE" by (simp add: o' closing_def)
  then show "o' \<in> set (lx_applied (wy_lease_state x))" using closing_applied [OF s n(1,2)] n(3) by simp
  show "closing s1 (rc_recovery_fingerprint c) (rc_released_at c) (rc_lease_observation_sequence c) = o'" if "lease_fixed s s1"
    using closing_fixed [OF that] fields by (simp add: o')
qed

lemma resumed_answer:
  assumes ok: "recovery_state_ok s p l" and rec: "recoverable host as ads s p reason t policy nid latest r plan next"
    and fp: "fp = recovery_fingerprint next plan (ra_attempt_id latest) reason (wr_reservation_id r)"
    and c: "c = receipt_of s reason t latest r plan next fp" and o': "o' = closing s fp t (last_sequence s + 1)"
    and done': "recovered s p l reason t latest r plan next fp x"
    and s1: "lease_stream_ok s1" "lease_fixed s s1" and p1: "worker_pool_ok p1" "wp_profile p1 = wp_profile p"
    and r': "r' \<in> set (wp_reservations p1)" "wr_reservation_id r' = wr_reservation_id r" "wr_attempt_id r' = wr_attempt_id r"
    and run: "resume_recovery host as s1 p1 (wy_ledger x) r' plan fp c
      = finish_resume host as (wy_ledger x) plan c o' (wy_pool x) (wy_lease_state x)"
  shows "resolve_worker_recovery host as ads s1 p1 (wy_ledger x) reason (Aware t z') policy nid
    = Inr (replayed_as x (wr_reservation_id r))"
proof -
  note moved = recoverable_moves [OF rec s1(2) p1 r']
  have "resolve_worker_recovery host as ads s1 p1 (wy_ledger x) reason (Aware t z') policy nid
      = resume_recovery host as s1 p1 (wy_ledger x) r' plan fp c"
    unfolding resolve_recoverable [OF moved] Let_def recovered_facts(1) [OF ok rec fp c o' done'] using r'(2) by (simp add: fp)
  then show ?thesis using run finish_resume_same [OF moved s1(1) p1(1) done'] r'(2) by (simp add: c o')
qed

section \<open>A crashed worker\<close>

lemma first_recovery_proceeds:
  assumes rec: "recoverable host as ads s p reason t policy nid latest r plan next" and ok: "lease_stream_ok s" "worker_pool_ok p"
    and o': "apply_lease_observation s (closing s fp t (last_sequence s + 1)) = Inr n" "ln_decision n = LeaseObs_APPLY"
    and r: "active r" "release_worker_slot p (wr_reservation_id r) (utc t) = Inr p'"
    and l: "mk_recovery_ledger (l @ [receipt_of s reason t latest r plan next fp]) = Inr l'"
    and "is_digest fp" "reason \<noteq> Reason_LEASE_EXPIRED"
  shows "\<exists>x. first_recovery s p l reason t latest r plan next fp = Inr x \<and> wy_decision x = plan_decision plan"
proof -
  note facts = recoverable_facts(3-6) [OF rec ok]
  have seq: "lo_sequence (closing s fp t n) = n" for n by (simp add: closing_def)
  have "mk_recovery_record fp (ra_attempt_id latest) (wr_reservation_id r) (plan_decision plan) reason
      (recovery_plan_fingerprint plan) (map_option ra_attempt_id next)
      (lease_observation_fingerprint (closing s fp t (last_sequence s + 1))) (last_sequence s + 1) (utc t)
    = Inr (receipt_of s reason t latest r plan next fp)"
    using facts assms(9) last_sequence_nonneg [of s]
    by (auto simp: mk_recovery_record_def raising_Inr_iff digests_clean receipt_of_def not_less split: option.splits
        simp del: last_sequence_nonneg)
  moreover have "release_observation s fp (utc t) (last_sequence s + 1) = Inr (closing s fp t (last_sequence s + 1))"
    by (rule release_observation_closing [OF ok(1)]) simp
  moreover have "\<exists>x. mk_worker_recovery (plan_decision plan) (Some plan) p' (ln_state n) next (Some (wr_reservation_id r)) None l'
      (Some (closing s fp t (last_sequence s + 1))) = Inr x \<and> wy_decision x = plan_decision plan"
    using facts(2,3)
    by (cases "rn_disposition plan")
      (auto simp: mk_worker_recovery_def raising_Inr_iff opt_digests_clean plans_def no_reason_def plan_decision_def)
  ultimately show ?thesis
    using o' r l assms(10) unfolding first_recovery_def Let_def plan_decision_def [symmetric] by (simp add: seq)
qed

lemma first_release:
  assumes "attempt_lease_ok l" "lease_matches l o'" "lo_sequence o' = 1" "lo_kind o' = Lease_RELEASE"
    "ls_heartbeat_at l \<le> lo_observed_at o'" "ls_released_at l = None"
  shows "\<exists>n. apply_lease_observation \<lparr>lx_lease = l, lx_applied = []\<rparr> o' = Inr n \<and> ln_decision n = LeaseObs_APPLY"
proof -
  have "release l (utc (lo_observed_at o')) = Inr (l\<lparr>ls_released_at := Some (lo_observed_at o')\<rparr>)"
    using assms(1,5,6) by (auto simp: release_Inr utc_def attempt_lease_ok_def)
  moreover have "\<exists>st. status_at l (utc (lo_observed_at o')) = Inr st"
    using assms(1,5) by (simp add: status_at_def raising.simps attempt_lease_ok_def)
  ultimately show ?thesis
    using assms(2-4,6)
    by (auto simp: apply_lease_observation_def last_sequence_def mk_lease_observation_state_def
        mk_lease_observation_resolution_def lease_matches_def heartbeats_def raising.simps)
qed

definition sample_held :: worker_reservation where
  "sample_held = \<lparr>wr_reservation_id = digest_text ''r'', wr_worker_id = ''w-1'', wr_kind = Worker_BACKTEST,
     wr_attempt_id = ''a-1'', wr_acquired_at = 0, wr_released_at = None\<rparr>"

definition sample_busy :: worker_pool where
  "sample_busy = \<lparr>wp_profile = sample_profile, wp_reservations = [sample_held]\<rparr>"

definition sample_receipt :: execution_admission where
  "sample_receipt = \<lparr>ad_request_fingerprint = digest_text ''q'', ad_authorization_fingerprint = digest_text ''z'',
     ad_runtime_request_fingerprint = digest_text ''q'', ad_attempt_id = ''a-1'', ad_worker_id = ''w-1'',
     ad_worker_kind = Worker_BACKTEST, ad_worker_profile_fingerprint = digest_text ''runtime'',
     ad_reservation_id = digest_text ''r'', ad_admitted_at = 0, ad_authoritative = True\<rparr>"

definition sample_plan :: recovery_plan where
  "sample_plan = \<lparr>rn_disposition = Recovery_RETRY, rn_reason = Reason_WORKER_CRASH, rn_trial_id = ''t-1'',
     rn_prior_attempt_id = ''a-1'', rn_prior_ordinal = 1, rn_next_ordinal = Some 2, rn_retry_at = Some 5000009,
     rn_rationale = ''terminal infrastructure failure is eligible for retry''\<rparr>"

definition sample_retry :: run_attempt where
  "sample_retry = \<lparr>ra_attempt_id = ''a-2'', ra_trial_id = ''t-1'', ra_ordinal = 2, ra_state = Attempt_QUEUED,
     ra_created_at = 5000009, ra_updated_at = 5000009\<rparr>"

lemma sample_planned:
  "plan_attempt_recovery [sample_failed] Reason_WORKER_CRASH (utc 9) default_policy = Inr sample_plan"
  "materialize_retry_attempt id sample_plan [sample_failed] ''a-2'' = Inr sample_retry"
  by code_simp+

lemma sample_crash_ok: "recovery_state_ok sample_lease_stream sample_busy []"
proof -
  have "\<not> blank (digest_text ''r'')" by (simp add: is_digest_not_blank is_digest_digest_text)
  moreover have "\<not> blank ''w-1''" "\<not> blank ''a-1''" by (simp_all add: blank_iff py_space_def)
  ultimately show ?thesis
    using sample_lease_stream_ok
    by (simp add: recovery_state_ok_def worker_pool_ok_def worker_profile_ok_def recovery_ledger_ok_def sample_busy_def
        sample_profile_def sample_held_def worker_reservation_ok_def active_reservations_def is_digest_digest_text)
qed

lemma sample_recoverable:
  "recoverable id [sample_failed] [sample_receipt] sample_lease_stream sample_busy Reason_WORKER_CRASH 9 default_policy
     (Some ''a-2'') sample_failed sample_held sample_plan (Some sample_retry)"
  using sample_planned
  by (simp add: recoverable_def sample_plan_def sample_receipt_def sample_failed_def sample_attempt_def
      sample_lease_stream_def sample_lease_def sample_busy_def sample_profile_def sample_held_def blank_iff py_space_def)

lemma sample_crash_recovered:
  "\<exists>x. resolve_worker_recovery id [sample_failed] [sample_receipt] sample_lease_stream sample_busy [] Reason_WORKER_CRASH
      (Aware 9 0) default_policy (Some ''a-2'') = Inr x \<and> wy_decision x = Recover_RETRY_SCHEDULED"
proof -
  let ?fp = "recovery_fingerprint (Some sample_retry) sample_plan (ra_attempt_id sample_failed) Reason_WORKER_CRASH
    (wr_reservation_id sample_held)"
  have s: "lease_stream_ok sample_lease_stream" and p: "worker_pool_ok sample_busy"
    using sample_crash_ok by (simp_all add: recovery_state_ok_def)
  obtain n where n: "apply_lease_observation sample_lease_stream
      (closing sample_lease_stream ?fp 9 (last_sequence sample_lease_stream + 1)) = Inr n" "ln_decision n = LeaseObs_APPLY"
    using first_release [OF sample_lease_ok, of "closing sample_lease_stream ?fp 9 (last_sequence sample_lease_stream + 1)"]
    by (auto simp: sample_lease_stream_def closing_def last_sequence_def lease_matches_def sample_lease_def)
  have act: "active sample_held" by (simp add: active_def sample_held_def)
  obtain q where "release_worker_slot sample_busy (wr_reservation_id sample_held) (utc 9) = Inr q"
    using release_refines [OF p, of "wr_reservation_id sample_held" 9 0] act
      recoverable_facts(4,7) [OF sample_recoverable s p]
    by (auto simp: sample_busy_def utc_def sample_held_def)
  moreover have "\<exists>l. mk_recovery_ledger ([] @ [receipt_of sample_lease_stream Reason_WORKER_CRASH 9 sample_failed sample_held
      sample_plan (Some sample_retry) ?fp]) = Inr l"
    by (simp add: mk_recovery_ledger_Inr)
  ultimately have "\<exists>x. first_recovery sample_lease_stream sample_busy [] Reason_WORKER_CRASH 9 sample_failed sample_held sample_plan
      (Some sample_retry) ?fp = Inr x \<and> wy_decision x = plan_decision sample_plan"
    using first_recovery_proceeds [OF sample_recoverable s p n act] by fastforce
  then show ?thesis
    unfolding resolve_recoverable [OF sample_recoverable] by (simp add: plan_decision_def sample_plan_def)
qed

section \<open>Properties\<close>

text \<open>C7: worker recovery releases, closes and records together. From a valid lease stream, pool and ledger every
  answer keeps them valid and only moves them forward. A conflict or rejection changes nothing. A fresh
  recovery happens only for an attempt without a receipt: it held the worker's slot, the slot is free
  afterwards, its lease was open and is released at the observed time, exactly one receipt is added,
  and a queued next attempt exists exactly when a retry was decided, under the identity in the receipt. A
  replay adds no receipt, and after it the admitted reservation does not hold the slot and the receipt's
  release observation is in the lease stream.\<close>

theorem worker_recovery_atomic:
  assumes "recovery_state_ok s p l" "resolve_worker_recovery host as ads s p l reason obs policy nid = Inr x"
  shows "recovery_state_ok (wy_lease_state x) (wy_pool x) (wy_ledger x)
    \<and> recovery_state_le (s, p, l) (wy_lease_state x, wy_pool x, wy_ledger x)
    \<and> (wy_decision x \<in> {Recover_CONFLICT, Recover_REJECT} \<longrightarrow> undone p l s x)
    \<and> (wy_decision x \<in> {Recover_RETRY_SCHEDULED, Recover_TERMINAL, Recover_NOOP} \<longrightarrow>
        (\<exists>c t z. obs = Aware t z \<and> set (wy_ledger x) = insert c (set l) \<and> rc_attempt_id c \<notin> rc_attempt_id ` set l
           \<and> sl_holder (slot_of p) = Some (rc_reservation_id c, rc_attempt_id c) \<and> sl_holder (slot_of (wy_pool x)) = None
           \<and> ls_released_at (lx_lease s) = None \<and> ls_released_at (lx_lease (wy_lease_state x)) = Some t
           \<and> (wy_next_attempt x \<noteq> None \<longleftrightarrow> wy_decision x = Recover_RETRY_SCHEDULED)
           \<and> rc_next_attempt_id c = map_option ra_attempt_id (wy_next_attempt x)))
    \<and> (wy_decision x = Recover_REPLAY_EXISTING \<longrightarrow> wy_ledger x = l
        \<and> (\<exists>c \<in> set l. \<exists>ad \<in> set ads. ad_attempt_id ad = rc_attempt_id c
             \<and> (\<forall>a. sl_holder (slot_of (wy_pool x)) \<noteq> Some (ad_reservation_id ad, a))
             \<and> (\<exists>o' \<in> set (lx_applied (wy_lease_state x)).
                  lease_observation_fingerprint o' = rc_lease_observation_fingerprint c)))"
proof -
  have p: "worker_pool_ok p" and s: "lease_stream_ok s" using assms(1) by (simp_all add: recovery_state_ok_def)
  from assms show ?thesis
  proof (cases rule: recovery_outcomes)
    case refused
    with assms(1) show ?thesis
      by (auto simp: undone_def recovery_state_le_def fixed_leases.le_refl worker_pools.le_refl)
  next
    case (first t z latest r plan "next")
    let ?fp = "recovery_fingerprint next plan (ra_attempt_id latest) reason (wr_reservation_id r)"
    let ?c = "receipt_of s reason t latest r plan next ?fp"
    have c: "rc_attempt_id ?c = ra_attempt_id latest" "rc_reservation_id ?c = wr_reservation_id r"
      "rc_next_attempt_id ?c = map_option ra_attempt_id next"
      by (simp_all add: receipt_of_def)
    have x: "wy_decision x = plan_decision plan" "wy_next_attempt x = next" using first(3) by (simp_all add: recovered_def)
    have d: "(next \<noteq> None) = (wy_decision x = Recover_RETRY_SCHEDULED)"
      "wy_decision x \<in> {Recover_RETRY_SCHEDULED, Recover_TERMINAL, Recover_NOOP}"
      using recoverable_facts(5) [OF first(2) s p] x(1) by (auto simp: plan_decision_def)
    note effect = recovered_effect [OF assms(1) first(2,3)]
    then have "\<exists>c t z. obs = Aware t z \<and> set (wy_ledger x) = insert c (set l) \<and> rc_attempt_id c \<notin> rc_attempt_id ` set l
           \<and> sl_holder (slot_of p) = Some (rc_reservation_id c, rc_attempt_id c) \<and> sl_holder (slot_of (wy_pool x)) = None
           \<and> ls_released_at (lx_lease s) = None \<and> ls_released_at (lx_lease (wy_lease_state x)) = Some t
           \<and> (wy_next_attempt x \<noteq> None \<longleftrightarrow> wy_decision x = Recover_RETRY_SCHEDULED)
           \<and> rc_next_attempt_id c = map_option ra_attempt_id (wy_next_attempt x)"
      using first(1) c d(1) x(2) by (intro exI [of _ ?c] exI [of _ t] exI [of _ z]) simp
    with effect d(2) show ?thesis by auto
  next
    case (again t z latest r plan "next" e)
    obtain ad where ad: "ad \<in> set ads" "ad_attempt_id ad = rc_attempt_id e" "ad_reservation_id ad = wr_reservation_id r"
      using again(2,4) unfolding recoverable_def by (metis (mono_tags, lifting) find_mem)
    have x: "wy_decision x = Recover_REPLAY_EXISTING" "wy_ledger x = l" using again(5) by (simp_all add: resumed_def Let_def)
    note effect = resumed_effect [OF assms(1) again(2,5)]
    then have "\<exists>c \<in> set l. \<exists>ad \<in> set ads. ad_attempt_id ad = rc_attempt_id c
             \<and> (\<forall>a. sl_holder (slot_of (wy_pool x)) \<noteq> Some (ad_reservation_id ad, a))
             \<and> (\<exists>o' \<in> set (lx_applied (wy_lease_state x)).
                  lease_observation_fingerprint o' = rc_lease_observation_fingerprint c)"
      using ad again(3) by (intro bexI [of _ e] bexI [of _ ad]) simp_all
    with effect x show ?thesis by simp
  qed
qed

theorem worker_recovery_atomic_witness:
  "recovery_state_ok sample_lease_stream sample_busy []
   \<and> (\<exists>x. resolve_worker_recovery id [sample_failed] [sample_receipt] sample_lease_stream sample_busy [] Reason_WORKER_CRASH
        (Aware 9 0) default_policy (Some ''a-2'') = Inr x
      \<and> sl_holder (slot_of (wy_pool x)) = None \<and> wy_next_attempt x \<noteq> None)"
proof -
  obtain x where x: "resolve_worker_recovery id [sample_failed] [sample_receipt] sample_lease_stream sample_busy []
      Reason_WORKER_CRASH (Aware 9 0) default_policy (Some ''a-2'') = Inr x" "wy_decision x = Recover_RETRY_SCHEDULED"
    using sample_crash_recovered by blast
  from worker_recovery_atomic [OF sample_crash_ok x(1)] x sample_crash_ok show ?thesis by auto
qed

text \<open>C8: an interrupted recovery is resumed to the same result. Once a recovery has stored its receipt, running the
  same recovery again answers a replay with the same plan, next attempt, release observation, pool, lease
  stream and ledger, in each state a crash between the writes can leave behind: neither the lease nor the
  pool written, only the lease written, or both.\<close>

theorem worker_recovery_resumes:
  assumes ok: "recovery_state_ok s p l" and x: "resolve_worker_recovery host as ads s p l reason (Aware t z) policy nid = Inr x"
    and fresh: "wy_decision x \<in> {Recover_RETRY_SCHEDULED, Recover_TERMINAL, Recover_NOOP}"
    and crash: "(s', p') \<in> {(s, p), (wy_lease_state x, p), (wy_lease_state x, wy_pool x)}"
  shows "\<exists>y. resolve_worker_recovery host as ads s' p' (wy_ledger x) reason (Aware t z') policy nid = Inr y
    \<and> wy_decision y = Recover_REPLAY_EXISTING \<and> wy_plan y = wy_plan x \<and> wy_next_attempt y = wy_next_attempt x
    \<and> wy_pool y = wy_pool x \<and> wy_lease_state y = wy_lease_state x \<and> wy_ledger y = wy_ledger x
    \<and> wy_release_observation y = wy_release_observation x"
proof -
  have s: "lease_stream_ok s" and p: "worker_pool_ok p" using ok by (simp_all add: recovery_state_ok_def)
  obtain latest r plan "next" where rec: "recoverable host as ads s p reason t policy nid latest r plan next"
    and done': "recovered s p l reason t latest r plan next
       (recovery_fingerprint next plan (ra_attempt_id latest) reason (wr_reservation_id r)) x"
    using ok x by (cases rule: recovery_outcomes) (use fresh in \<open>auto simp: undone_def resumed_def Let_def\<close>)
  define fp where "fp = recovery_fingerprint next plan (ra_attempt_id latest) reason (wr_reservation_id r)"
  define c where "c = receipt_of s reason t latest r plan next fp"
  define o' where "o' = closing s fp t (last_sequence s + 1)"
  note facts = recovered_facts [OF ok rec fp_def c_def o'_def done' [folded fp_def]]
  note answer = resumed_answer [OF ok rec fp_def c_def o'_def done' [folded fp_def]]
  note r = recoverable_facts(1) [OF rec s p]
  obtain n where n: "apply_lease_observation s o' = Inr n" "ln_decision n = LeaseObs_APPLY" "wy_lease_state x = ln_state n"
    and act: "active r" and rel: "release_worker_slot p (wr_reservation_id r) (utc t) = Inr (wy_pool x)"
    using done' by (auto simp: recovered_def o'_def fp_def)
  from crash consider "s' = s" "p' = p" | "s' = wy_lease_state x" "p' = p" | "s' = wy_lease_state x" "p' = wy_pool x" by auto
  then have "resolve_worker_recovery host as ads s' p' (wy_ledger x) reason (Aware t z') policy nid
      = Inr (replayed_as x (wr_reservation_id r))"
  proof cases
    case 1
    have "resume_recovery host as s p (wy_ledger x) r plan fp c
        = finish_resume host as (wy_ledger x) plan c o' (wy_pool x) (wy_lease_state x)"
      unfolding resume_recovery_unfold [OF s facts(2)] facts(6) [OF fixed_leases.le_refl] using facts(7) n act rel by simp
    then show ?thesis unfolding 1 using s p r by (intro answer [where r' = r]) (simp_all add: fixed_leases.le_refl)
  next
    case 2
    have "resume_recovery host as (wy_lease_state x) p (wy_ledger x) r plan fp c
        = finish_resume host as (wy_ledger x) plan c o' (wy_pool x) (wy_lease_state x)"
      unfolding resume_recovery_unfold [OF facts(3,2)] facts(6) [OF facts(4)]
      using facts(5,7) act rel replayed_observation [OF facts(3,5)] by auto
    then show ?thesis unfolding 2 using facts(3,4) p r by (intro answer [where r' = r]) simp_all
  next
    case 3
    have "resume_recovery host as (wy_lease_state x) (wy_pool x) (wy_ledger x) (r\<lparr>wr_released_at := Some t\<rparr>) plan fp c
        = finish_resume host as (wy_ledger x) plan c o' (wy_pool x) (wy_lease_state x)"
      unfolding resume_recovery_unfold [OF facts(3,2)] facts(6) [OF facts(4)]
      using facts(5,7) by (auto simp: active_def)
    then show ?thesis
      unfolding 3 using facts(3,4) released_reservation_found [OF p r act rel]
      by (intro answer [where r' = "r\<lparr>wr_released_at := Some t\<rparr>"]) simp_all
  qed
  then show ?thesis by (simp add: replayed_as_def)
qed

theorem worker_recovery_resumes_witness:
  "\<exists>x y. resolve_worker_recovery id [sample_failed] [sample_receipt] sample_lease_stream sample_busy [] Reason_WORKER_CRASH
        (Aware 9 0) default_policy (Some ''a-2'') = Inr x
     \<and> resolve_worker_recovery id [sample_failed] [sample_receipt] (wy_lease_state x) sample_busy (wy_ledger x)
        Reason_WORKER_CRASH (Aware 9 0) default_policy (Some ''a-2'') = Inr y
     \<and> wy_decision y = Recover_REPLAY_EXISTING \<and> wy_pool y = wy_pool x"
proof -
  obtain x where x: "resolve_worker_recovery id [sample_failed] [sample_receipt] sample_lease_stream sample_busy []
      Reason_WORKER_CRASH (Aware 9 0) default_policy (Some ''a-2'') = Inr x" "wy_decision x = Recover_RETRY_SCHEDULED"
    using sample_crash_recovered by blast
  from worker_recovery_resumes [OF sample_crash_ok x(1), of "wy_lease_state x" sample_busy 0] x show ?thesis by auto
qed

end
