(* ===== verification/Worker_Settlement.thy ===== *)
theory Worker_Settlement
  imports Worker_Recovery
begin

text \<open>
  \<open>src/backend/app/strategy_lab_v2/worker_settlement.py\<close>: the end of an admitted execution. One decision closes the
  lease stream, releases the worker's reservation and keeps a receipt bound to the admission and to the
  evidence of the execution. The evidence is known by the attributes that are read of it.
\<close>

section \<open>Receipts\<close>

definition execution_admission_fingerprint :: "execution_admission \<Rightarrow> string" where
  "execution_admission_fingerprint a = digest (dataclass_py ''app.strategy_lab_v2.admission.ExecutionAdmission''
     [(''request_fingerprint'', PStr (ad_request_fingerprint a)),
      (''authorization_fingerprint'', PStr (ad_authorization_fingerprint a)),
      (''runtime_request_fingerprint'', PStr (ad_runtime_request_fingerprint a)),
      (''attempt_id'', PStr (ad_attempt_id a)),
      (''worker_id'', PStr (ad_worker_id a)),
      (''worker_kind'', PEnum ''app.strategy_lab_v2.workers.WorkerKind'' (PStr (worker_kind_value (ad_worker_kind a)))),
      (''worker_profile_fingerprint'', PStr (ad_worker_profile_fingerprint a)),
      (''reservation_id'', PStr (ad_reservation_id a)),
      (''admitted_at'', time_py (ad_admitted_at a)),
      (''authoritative'', PBool (ad_authoritative a))])"

text \<open>A \<open>WorkerExecutionResolution\<close>: three attributes of its orchestration plan, and its fingerprint.\<close>

record worker_execution =
  we_plan_admission_fingerprint :: string
  we_plan_attempt_id :: string
  we_plan_worker_id :: string
  we_fingerprint :: string

datatype settlement_decision = Settle_RELEASED | Settle_REPLAY_EXISTING | Settle_CONFLICT | Settle_REJECT

record settlement_record =
  sm_settlement_fingerprint :: string
  sm_admission_fingerprint :: string
  sm_worker_execution_fingerprint :: string
  sm_attempt_id :: string
  sm_reservation_id :: string
  sm_worker_id :: string
  sm_lease_observation_fingerprint :: string
  sm_released_at :: instant

definition mk_settlement_record ::
  "string \<Rightarrow> string \<Rightarrow> string \<Rightarrow> string \<Rightarrow> string \<Rightarrow> string \<Rightarrow> string \<Rightarrow> datetime \<Rightarrow> settlement_record result" where
  "mk_settlement_record settlement_fp admission_fp execution_fp attempt_id reservation_id worker_id observation_fp released_at =
     raising
       (digest_checks settlement_fp ''settlement_fingerprint'' @ digest_checks admission_fp ''admission_fingerprint''
        @ digest_checks execution_fp ''worker_execution_fingerprint'' @ digest_checks reservation_id ''reservation_id''
        @ digest_checks observation_fp ''lease_observation_fingerprint''
        @ [(blank attempt_id, ''attempt_id must not be empty''), (blank worker_id, ''worker_id must not be empty'')])
       (with_aware released_at ''released_at must be timezone-aware'' (\<lambda>released.
          Inr \<lparr>sm_settlement_fingerprint = settlement_fp, sm_admission_fingerprint = admission_fp,
               sm_worker_execution_fingerprint = execution_fp, sm_attempt_id = attempt_id,
               sm_reservation_id = reservation_id, sm_worker_id = worker_id,
               sm_lease_observation_fingerprint = observation_fp, sm_released_at = released\<rparr>))"

text \<open>The ledger is its one field, the records.\<close>

definition mk_settlement_ledger :: "settlement_record list \<Rightarrow> settlement_record list result" where
  "mk_settlement_ledger records =
     raising
       [(\<not> distinct (map sm_settlement_fingerprint records), ''settlement fingerprints must be unique''),
        (\<not> distinct (map sm_attempt_id records), ''an attempt may have only one worker settlement''),
        (\<not> distinct (map sm_reservation_id records), ''a reservation may have only one worker settlement'')]
       (Inr (sort_key sm_settlement_fingerprint records))"

record settlement =
  so_decision :: settlement_decision
  so_ledger :: "settlement_record list"
  so_pool :: worker_pool
  so_lease_state :: lease_observation_state
  so_settlement_fingerprint :: string
  so_record :: "settlement_record option"
  so_rejection_reason :: "string option"
  so_observation :: "lease_observation option"

definition mk_settlement ::
  "settlement_decision \<Rightarrow> settlement_record list \<Rightarrow> worker_pool \<Rightarrow> lease_observation_state \<Rightarrow> string
     \<Rightarrow> settlement_record option \<Rightarrow> string option \<Rightarrow> lease_observation option \<Rightarrow> settlement result" where
  "mk_settlement decision ledger pool lease_state settlement_fp record' reason observation =
     raising
       (digest_checks settlement_fp ''settlement_fingerprint''
        @ [(decision \<in> {Settle_RELEASED, Settle_REPLAY_EXISTING} \<and> record' = None,
              ''released resolutions require a settlement record''),
           (decision \<in> {Settle_CONFLICT, Settle_REJECT} \<and> no_reason reason, ''conflicts and rejections require a reason''),
           (decision \<in> {Settle_RELEASED, Settle_REPLAY_EXISTING} \<and> \<not> no_reason reason,
              ''released resolutions cannot contain a rejection reason''),
           (decision \<in> {Settle_RELEASED, Settle_REPLAY_EXISTING} \<and> observation = None,
              ''released resolutions require the lease observation'')])
       (Inr \<lparr>so_decision = decision, so_ledger = ledger, so_pool = pool, so_lease_state = lease_state,
             so_settlement_fingerprint = settlement_fp, so_record = record', so_rejection_reason = reason,
             so_observation = observation\<rparr>)"

section \<open>The settlement\<close>

definition reject_settlement ::
  "settlement_record list \<Rightarrow> worker_pool \<Rightarrow> lease_observation_state \<Rightarrow> string \<Rightarrow> settlement result" where
  "reject_settlement ledger pool lease_state reason =
     mk_settlement Settle_REJECT ledger pool lease_state (digest (PMapping [(''reason'', PStr reason)])) None (Some reason) None"

definition settlement_release_observation ::
  "lease_observation_state \<Rightarrow> string \<Rightarrow> datetime \<Rightarrow> lease_observation result" where
  "settlement_release_observation lease_state settlement_fp released_at =
     (let lease = lx_lease lease_state
      in mk_lease_observation
           (digest (PMapping
              [(''kind'', PEnum ''app.strategy_lab_v2.lease_observations.LeaseObservationKind''
                  (PStr (lease_observation_kind_value Lease_RELEASE))),
               (''lease_id'', PStr (ls_lease_id lease)),
               (''settlement_fingerprint'', PStr settlement_fp)]))
           (ls_lease_id lease) (ls_worker_id lease) (ls_attempt_id lease) (last_sequence lease_state + 1)
           Lease_RELEASE released_at None)"

definition settlement_fingerprint :: "execution_admission \<Rightarrow> worker_execution \<Rightarrow> instant \<Rightarrow> string" where
  "settlement_fingerprint admission execution released = digest (PMapping
     [(''admission_fingerprint'', PStr (execution_admission_fingerprint admission)),
      (''attempt_id'', PStr (ad_attempt_id admission)),
      (''released_at'', time_py released),
      (''reservation_id'', PStr (ad_reservation_id admission)),
      (''worker_execution_fingerprint'', PStr (we_fingerprint execution))])"

text \<open>The branch of an attempt that has a receipt.\<close>

definition replay_settlement ::
  "settlement_record list \<Rightarrow> worker_pool \<Rightarrow> lease_observation_state \<Rightarrow> worker_reservation \<Rightarrow> string \<Rightarrow> settlement_record
     \<Rightarrow> settlement result" where
  "replay_settlement ledger pool lease_state reservation settlement_fp existing =
     (let rejected = reject_settlement ledger pool lease_state
      in if sm_settlement_fingerprint existing \<noteq> settlement_fp then
           mk_settlement Settle_CONFLICT ledger pool lease_state settlement_fp None
             (Some ''attempt is already bound to different worker settlement content'') None
         else if active reservation then
           rejected ''settlement receipt exists but worker reservation is still active''
         else if wr_released_at reservation \<noteq> Some (sm_released_at existing) then
           rejected ''worker reservation release time differs from settlement receipt''
         else case find (\<lambda>i. lease_observation_fingerprint i = sm_lease_observation_fingerprint existing)
                     (lx_applied lease_state) of
           None \<Rightarrow> rejected ''settlement receipt exists but lease release observation is missing''
         | Some applied \<Rightarrow>
             mk_settlement Settle_REPLAY_EXISTING ledger pool lease_state settlement_fp (Some existing) None (Some applied))"

text \<open>The branch of an attempt without a receipt.\<close>

definition release_settlement ::
  "settlement_record list \<Rightarrow> worker_pool \<Rightarrow> execution_admission \<Rightarrow> worker_execution \<Rightarrow> lease_observation_state \<Rightarrow> instant
     \<Rightarrow> worker_reservation \<Rightarrow> string \<Rightarrow> settlement result" where
  "release_settlement ledger pool admission execution lease_state released reservation settlement_fp =
     (let rejected = reject_settlement ledger pool lease_state
      in if \<not> active reservation then
           rejected ''worker reservation is already released without a settlement receipt''
         else caught (status_at (lx_lease lease_state) (utc released)) rejected (\<lambda>lease_status.
           if lease_status = Lease_EXPIRED then rejected ''expired leases require worker recovery''
           else if lease_status = Lease_RELEASED then rejected ''lease is already released without a settlement receipt''
           else
             rbind (settlement_release_observation lease_state settlement_fp (utc released)) (\<lambda>observation.
             rbind (apply_lease_observation lease_state observation) (\<lambda>lease_resolution.
               if ln_decision lease_resolution \<noteq> LeaseObs_APPLY then
                 rejected (reason_or (ln_rejection_reason lease_resolution) ''lease release observation was rejected'')
               else
                 rbind (release_worker_slot pool (wr_reservation_id reservation) (utc released)) (\<lambda>released_pool.
                 rbind (mk_settlement_record settlement_fp (execution_admission_fingerprint admission) (we_fingerprint execution)
                          (ad_attempt_id admission) (ad_reservation_id admission) (ad_worker_id admission)
                          (lease_observation_fingerprint observation) (utc released)) (\<lambda>record'.
                 rbind (mk_settlement_ledger (ledger @ [record'])) (\<lambda>next_ledger.
                   mk_settlement Settle_RELEASED next_ledger released_pool (ln_state lease_resolution) settlement_fp
                     (Some record') None (Some observation))))))))"

definition settle_worker_execution ::
  "settlement_record list \<Rightarrow> worker_pool \<Rightarrow> execution_admission \<Rightarrow> worker_execution \<Rightarrow> lease_observation_state \<Rightarrow> datetime
     \<Rightarrow> settlement result" where
  "settle_worker_execution ledger pool admission execution lease_state released_at =
     with_aware released_at ''released_at must be timezone-aware'' (\<lambda>released.
       let rejected = reject_settlement ledger pool lease_state;
           profile = wp_profile pool;
           lease = lx_lease lease_state
       in if we_plan_admission_fingerprint execution \<noteq> execution_admission_fingerprint admission then
            rejected ''orchestration plan is not bound to the admission''
          else if we_plan_attempt_id execution \<noteq> ad_attempt_id admission then
            rejected ''orchestration plan and admission reference different attempts''
          else if we_plan_worker_id execution \<noteq> ad_worker_id admission then
            rejected ''orchestration plan and admission reference different workers''
          else if ad_worker_id admission \<noteq> wf_worker_id profile then
            rejected ''admission is bound to a different worker pool''
          else if ad_worker_kind admission \<noteq> wf_kind profile then
            rejected ''admission kind does not match the worker pool''
          else if ad_worker_profile_fingerprint admission \<noteq> wf_runtime_profile_fingerprint profile then
            rejected ''admission profile does not match the worker pool''
          else if ls_attempt_id lease \<noteq> ad_attempt_id admission then
            rejected ''lease and admission reference different attempts''
          else if ls_worker_id lease \<noteq> ad_worker_id admission then
            rejected ''lease and admission reference different workers''
          else case find (\<lambda>r. wr_reservation_id r = ad_reservation_id admission \<and> wr_attempt_id r = ad_attempt_id admission)
                      (wp_reservations pool) of
            None \<Rightarrow> rejected ''admission has no matching worker reservation''
          | Some reservation \<Rightarrow>
              if released < wr_acquired_at reservation then rejected ''release cannot precede reservation acquisition''
              else
                let settlement_fp = settlement_fingerprint admission execution released
                in case find (\<lambda>c. sm_attempt_id c = ad_attempt_id admission) ledger of
                     Some existing \<Rightarrow> replay_settlement ledger pool lease_state reservation settlement_fp existing
                   | None \<Rightarrow> release_settlement ledger pool admission execution lease_state released reservation settlement_fp)"

section \<open>How a settlement answers\<close>

definition unsettled :: "settlement_record list \<Rightarrow> worker_pool \<Rightarrow> lease_observation_state \<Rightarrow> settlement \<Rightarrow> bool" where
  "unsettled l p s x \<longleftrightarrow> so_decision x \<in> {Settle_CONFLICT, Settle_REJECT} \<and> so_ledger x = l \<and> so_pool x = p
     \<and> so_lease_state x = s \<and> so_record x = None"

text \<open>The common part of every decision on a bound settlement: execution, admission, pool and lease name the same
  attempt and worker, and the pool has the reservation of the admission.\<close>

definition settleable ::
  "worker_pool \<Rightarrow> execution_admission \<Rightarrow> worker_execution \<Rightarrow> lease_observation_state \<Rightarrow> instant \<Rightarrow> worker_reservation \<Rightarrow> bool" where
  "settleable p a e s t r \<longleftrightarrow> we_plan_admission_fingerprint e = execution_admission_fingerprint a
     \<and> we_plan_attempt_id e = ad_attempt_id a \<and> we_plan_worker_id e = ad_worker_id a
     \<and> ad_worker_id a = wf_worker_id (wp_profile p) \<and> ad_worker_kind a = wf_kind (wp_profile p)
     \<and> ad_worker_profile_fingerprint a = wf_runtime_profile_fingerprint (wp_profile p)
     \<and> ls_attempt_id (lx_lease s) = ad_attempt_id a \<and> ls_worker_id (lx_lease s) = ad_worker_id a
     \<and> find (\<lambda>r. wr_reservation_id r = ad_reservation_id a \<and> wr_attempt_id r = ad_attempt_id a) (wp_reservations p) = Some r
     \<and> wr_acquired_at r \<le> t"

definition settling :: "lease_observation_state \<Rightarrow> string \<Rightarrow> instant \<Rightarrow> lease_observation" where
  "settling s fp t = \<lparr>lo_observation_id = digest (PMapping
       [(''kind'', PEnum ''app.strategy_lab_v2.lease_observations.LeaseObservationKind''
           (PStr (lease_observation_kind_value Lease_RELEASE))),
        (''lease_id'', PStr (ls_lease_id (lx_lease s))), (''settlement_fingerprint'', PStr fp)]),
     lo_lease_id = ls_lease_id (lx_lease s), lo_worker_id = ls_worker_id (lx_lease s),
     lo_attempt_id = ls_attempt_id (lx_lease s), lo_sequence = last_sequence s + 1, lo_kind = Lease_RELEASE,
     lo_observed_at = t, lo_expires_at = None\<rparr>"

definition settled_receipt ::
  "lease_observation_state \<Rightarrow> execution_admission \<Rightarrow> worker_execution \<Rightarrow> instant \<Rightarrow> settlement_record" where
  "settled_receipt s a e t = (let fp = settlement_fingerprint a e t
     in \<lparr>sm_settlement_fingerprint = fp, sm_admission_fingerprint = execution_admission_fingerprint a,
         sm_worker_execution_fingerprint = we_fingerprint e, sm_attempt_id = ad_attempt_id a,
         sm_reservation_id = ad_reservation_id a, sm_worker_id = ad_worker_id a,
         sm_lease_observation_fingerprint = lease_observation_fingerprint (settling s fp t), sm_released_at = t\<rparr>)"

definition settled_now ::
  "settlement_record list \<Rightarrow> worker_pool \<Rightarrow> execution_admission \<Rightarrow> worker_execution \<Rightarrow> lease_observation_state \<Rightarrow> instant
     \<Rightarrow> worker_reservation \<Rightarrow> settlement \<Rightarrow> bool" where
  "settled_now l p a e s t r x \<longleftrightarrow> so_decision x = Settle_RELEASED \<and> active r \<and> is_digest (we_fingerprint e)
     \<and> status_at (lx_lease s) (utc t) = Inr Lease_ACTIVE
     \<and> (\<exists>n. apply_lease_observation s (settling s (settlement_fingerprint a e t) t) = Inr n \<and> ln_decision n = LeaseObs_APPLY
          \<and> so_lease_state x = ln_state n)
     \<and> release_worker_slot p (wr_reservation_id r) (utc t) = Inr (so_pool x)
     \<and> mk_settlement_ledger (l @ [settled_receipt s a e t]) = Inr (so_ledger x)
     \<and> so_record x = Some (settled_receipt s a e t) \<and> so_observation x = Some (settling s (settlement_fingerprint a e t) t)"

definition settled_before ::
  "settlement_record list \<Rightarrow> worker_pool \<Rightarrow> lease_observation_state \<Rightarrow> worker_reservation \<Rightarrow> string \<Rightarrow> settlement_record
     \<Rightarrow> settlement \<Rightarrow> bool" where
  "settled_before l p s r fp c x \<longleftrightarrow> so_decision x = Settle_REPLAY_EXISTING \<and> so_ledger x = l \<and> so_pool x = p
     \<and> so_lease_state x = s \<and> so_record x = Some c \<and> sm_settlement_fingerprint c = fp
     \<and> wr_released_at r = Some (sm_released_at c)
     \<and> (\<exists>o' \<in> set (lx_applied s). so_observation x = Some o'
          \<and> lease_observation_fingerprint o' = sm_lease_observation_fingerprint c)"

lemma settlement_digests [simp]:
  "is_digest (execution_admission_fingerprint a)" "is_digest (settlement_fingerprint a e t)"
  by (simp_all add: execution_admission_fingerprint_def settlement_fingerprint_def is_digest_digest)

lemma mk_settlement_fields:
  "mk_settlement d l p s fp c m o' = Inr x \<Longrightarrow> so_decision x = d \<and> so_ledger x = l \<and> so_pool x = p \<and> so_lease_state x = s
     \<and> so_record x = c \<and> so_observation x = o'"
  unfolding mk_settlement_def raising_Inr_iff by (drule conjunct2) auto

lemma reject_unsettled: "reject_settlement l p s m = Inr x \<Longrightarrow> unsettled l p s x"
  by (auto simp: reject_settlement_def unsettled_def dest: mk_settlement_fields)

lemma settlement_observed:
  assumes "lease_stream_ok s"
  shows "settlement_release_observation s fp (utc t) = Inr (settling s fp t)"
proof -
  have "attempt_lease_ok (lx_lease s)" using assms by (simp add: lease_stream_ok_def Let_def)
  with last_sequence_nonneg [of s] show ?thesis
    unfolding not_less [symmetric]
    by (simp add: settlement_release_observation_def mk_lease_observation_def settling_def raising_Inr_iff Let_def digests_clean
        is_digest_digest attempt_lease_ok_def)
qed

lemma replay_settlement_cases:
  assumes "replay_settlement l p s r fp c = Inr x"
  shows "unsettled l p s x \<or> settled_before l p s r fp c x"
  using assms unfolding replay_settlement_def Let_def
  by (auto split: if_splits option.splits dest!: reject_unsettled mk_settlement_fields dest: find_mem
      simp: unsettled_def settled_before_def)

lemma release_settlement_cases:
  assumes "lease_stream_ok s" "release_settlement l p a e s t r (settlement_fingerprint a e t) = Inr x"
  shows "unsettled l p s x \<or> settled_now l p a e s t r x"
proof (cases "status_at (lx_lease s) (utc t)")
  case (Inl f)
  with assms(2) show ?thesis by (cases f) (auto simp: release_settlement_def Let_def dest: reject_unsettled split: if_splits)
next
  case (Inr st)
  have "unsettled l p s x \<or> settled_now l p a e s t r x"
    if "st = Lease_ACTIVE" "active r"
    using assms(2) Inr that
    by (auto simp: release_settlement_def Let_def settlement_observed [OF assms(1)] mk_settlement_record_def raising_Inr_iff
        digests_clean settled_now_def settled_receipt_def dest: reject_unsettled dest!: mk_settlement_fields split: if_splits)
  with assms(2) Inr show ?thesis
    by (cases st) (auto simp: release_settlement_def Let_def dest: reject_unsettled split: if_splits)
qed

lemma settle_settleable:
  assumes "settleable p a e s t r"
  shows "settle_worker_execution l p a e s (Aware t z) =
    (case find (\<lambda>c. sm_attempt_id c = ad_attempt_id a) l of
       Some c \<Rightarrow> replay_settlement l p s r (settlement_fingerprint a e t) c
     | None \<Rightarrow> release_settlement l p a e s t r (settlement_fingerprint a e t))"
  using assms by (auto simp: settleable_def settle_worker_execution_def Let_def)

lemma settle_cases:
  assumes "lease_stream_ok s" "settle_worker_execution l p a e s now = Inr x"
  obtains (refused) "unsettled l p s x"
  | (first) t z r where "now = Aware t z" "settleable p a e s t r" "find (\<lambda>c. sm_attempt_id c = ad_attempt_id a) l = None"
      "settled_now l p a e s t r x"
  | (again) t z r c where "now = Aware t z" "settleable p a e s t r" "find (\<lambda>c. sm_attempt_id c = ad_attempt_id a) l = Some c"
      "settled_before l p s r (settlement_fingerprint a e t) c x"
proof -
  obtain t z where now: "now = Aware t z" using assms(2) by (auto simp: settle_worker_execution_def with_aware_eq_Inr)
  have "unsettled l p s x \<or> (\<exists>r. settleable p a e s t r)"
    using assms(2) unfolding now settle_worker_execution_def Let_def with_aware.simps settleable_def
    by (auto split: if_splits option.splits dest: reject_unsettled)
  then show thesis
  proof
    assume "\<exists>r. settleable p a e s t r"
    then obtain r where r: "settleable p a e s t r" by blast
    show thesis
    proof (cases "find (\<lambda>c. sm_attempt_id c = ad_attempt_id a) l")
      case None
      with assms(2) have "release_settlement l p a e s t r (settlement_fingerprint a e t) = Inr x"
        unfolding now settle_settleable [OF r] by simp
      from release_settlement_cases [OF assms(1) this] show thesis using refused first [OF now r None] by blast
    next
      case (Some c)
      with assms(2) have "replay_settlement l p s r (settlement_fingerprint a e t) c = Inr x"
        unfolding now settle_settleable [OF r] by simp
      from replay_settlement_cases [OF this] show thesis using refused again [OF now r Some] by blast
    qed
  qed (rule refused)
qed

section \<open>Effects\<close>

definition settlement_record_ok :: "settlement_record \<Rightarrow> bool" where
  "settlement_record_ok c \<longleftrightarrow> is_digest (sm_settlement_fingerprint c) \<and> is_digest (sm_admission_fingerprint c)
     \<and> is_digest (sm_worker_execution_fingerprint c) \<and> is_digest (sm_reservation_id c)
     \<and> is_digest (sm_lease_observation_fingerprint c) \<and> \<not> blank (sm_attempt_id c) \<and> \<not> blank (sm_worker_id c)"

definition settlement_ledger_ok :: "settlement_record list \<Rightarrow> bool" where
  "settlement_ledger_ok l \<longleftrightarrow> (\<forall>c \<in> set l. settlement_record_ok c) \<and> distinct (map sm_settlement_fingerprint l)
     \<and> distinct (map sm_attempt_id l) \<and> distinct (map sm_reservation_id l) \<and> sorted (map sm_settlement_fingerprint l)"

definition settlement_state_ok :: "lease_observation_state \<Rightarrow> worker_pool \<Rightarrow> settlement_record list \<Rightarrow> bool" where
  "settlement_state_ok s p l \<longleftrightarrow> lease_stream_ok s \<and> worker_pool_ok p \<and> settlement_ledger_ok l"

definition settlement_state_le ::
  "lease_observation_state \<times> worker_pool \<times> settlement_record list
     \<Rightarrow> lease_observation_state \<times> worker_pool \<times> settlement_record list \<Rightarrow> bool" where
  "settlement_state_le a b \<longleftrightarrow> (case (a, b) of ((s, p, l), (s', p', l')) \<Rightarrow>
     lease_fixed s s' \<and> prefix (lx_applied s) (lx_applied s') \<and> worker_le p p' \<and> set l \<subseteq> set l')"

lemma settlement_state_le_refl: "settlement_state_le a a"
  by (cases a) (simp add: settlement_state_le_def fixed_leases.le_refl worker_pools.le_refl)

lemma mk_settlement_ledger_ok:
  assumes "mk_settlement_ledger cs = Inr l" "\<forall>c \<in> set cs. settlement_record_ok c"
  shows "settlement_ledger_ok l \<and> set l = set cs \<and> distinct (map sm_attempt_id cs)"
proof -
  have d: "distinct (map g (sort_key sm_settlement_fingerprint cs)) \<longleftrightarrow> distinct (map g cs)" for g :: "settlement_record \<Rightarrow> string"
    by (simp add: distinct_map)
  from assms show ?thesis by (auto simp: mk_settlement_ledger_def raising_Inr_iff settlement_ledger_ok_def d)
qed

lemma settleable_facts:
  assumes "settleable p a e s t r" "lease_stream_ok s" "worker_pool_ok p"
  shows "r \<in> set (wp_reservations p)" "wr_reservation_id r = ad_reservation_id a" "wr_attempt_id r = ad_attempt_id a"
    "\<not> blank (ad_attempt_id a)" "\<not> blank (ad_worker_id a)" "is_digest (ad_reservation_id a)"
proof -
  show r: "r \<in> set (wp_reservations p)" "wr_reservation_id r = ad_reservation_id a" "wr_attempt_id r = ad_attempt_id a"
    using assms(1) by (auto simp: settleable_def find_Some_iff)
  have "attempt_lease_ok (lx_lease s)" using assms(2) by (simp add: lease_stream_ok_def Let_def)
  then show "\<not> blank (ad_attempt_id a)" "\<not> blank (ad_worker_id a)"
    using assms(1) by (auto simp: settleable_def attempt_lease_ok_def)
  show "is_digest (ad_reservation_id a)" using r assms(3) by (auto simp: worker_pool_ok_def worker_reservation_ok_def)
qed

lemma settled_now_effect:
  assumes ok: "settlement_state_ok s p l" and able: "settleable p a e s t r" and x: "settled_now l p a e s t r x"
  shows "settlement_state_ok (so_lease_state x) (so_pool x) (so_ledger x)
    \<and> settlement_state_le (s, p, l) (so_lease_state x, so_pool x, so_ledger x)
    \<and> sl_holder (slot_of p) = Some (ad_reservation_id a, ad_attempt_id a) \<and> sl_holder (slot_of (so_pool x)) = None
    \<and> ls_released_at (lx_lease s) = None \<and> ls_released_at (lx_lease (so_lease_state x)) = Some t
    \<and> set (so_ledger x) = insert (settled_receipt s a e t) (set l) \<and> ad_attempt_id a \<notin> sm_attempt_id ` set l
    \<and> settling s (settlement_fingerprint a e t) t \<in> set (lx_applied (so_lease_state x))"
proof -
  let ?c = "settled_receipt s a e t"
  have s: "lease_stream_ok s" and p: "worker_pool_ok p" and l: "settlement_ledger_ok l"
    using ok by (simp_all add: settlement_state_ok_def)
  note facts = settleable_facts [OF able s p]
  have "settlement_record_ok ?c"
    using facts x by (simp add: settlement_record_ok_def settled_receipt_def settled_now_def Let_def)
  moreover have led: "mk_settlement_ledger (l @ [?c]) = Inr (so_ledger x)" using x by (simp add: settled_now_def)
  ultimately have l': "settlement_ledger_ok (so_ledger x)" "set (so_ledger x) = insert ?c (set l)"
      "ad_attempt_id a \<notin> sm_attempt_id ` set l"
    using mk_settlement_ledger_ok [OF led] l by (auto simp: settlement_ledger_ok_def settled_receipt_def Let_def)
  obtain n where n: "apply_lease_observation s (settling s (settlement_fingerprint a e t) t) = Inr n"
    "ln_decision n = LeaseObs_APPLY" "so_lease_state x = ln_state n"
    using x by (auto simp: settled_now_def)
  have rel: "release_worker_slot p (wr_reservation_id r) (utc t) = Inr (so_pool x)" and act: "active r"
    using x by (simp_all add: settled_now_def)
  note freed = release_step [OF p rel]
  have held: "sl_holder (slot_of p) = Some (ad_reservation_id a, ad_attempt_id a)"
    using act reservation_active_holder(1) [OF p facts(1)] facts(2,3) by simp
  then have "sl_holder (slot_of (so_pool x)) = None" using freed facts(2) by (simp add: slot_release_def)
  with l' held freed lease_observed [OF s n(1)] closing_applied [OF s n(1,2)] n(3) show ?thesis
    by (auto simp: settlement_state_ok_def settlement_state_le_def settling_def)
qed

lemma settled_answers_again:
  assumes ok: "settlement_state_ok s p l" and able: "settleable p a e s t r" and x: "settled_now l p a e s t r x"
  shows "find (\<lambda>c. sm_attempt_id c = ad_attempt_id a) (so_ledger x) = Some (settled_receipt s a e t)"
    and "settleable (so_pool x) a e (so_lease_state x) t (r\<lparr>wr_released_at := Some t\<rparr>)"
proof -
  let ?c = "settled_receipt s a e t" and ?r = "r\<lparr>wr_released_at := Some t\<rparr>"
  have s: "lease_stream_ok s" and p: "worker_pool_ok p" using ok by (simp_all add: settlement_state_ok_def)
  note facts = settleable_facts [OF able s p] and effect = settled_now_effect [OF ok able x]
  have c: "?c \<in> set (so_ledger x)" "sm_attempt_id ?c = ad_attempt_id a" using effect by (auto simp: settled_receipt_def Let_def)
  show "find (\<lambda>c. sm_attempt_id c = ad_attempt_id a) (so_ledger x) = Some ?c"
  proof (rule find_unique [OF c(1)])
    fix y assume "y \<in> set (so_ledger x)" "sm_attempt_id y = ad_attempt_id a"
    then show "y = ?c"
      using effect c by (metis distinct_map inj_onD settlement_ledger_ok_def settlement_state_ok_def)
  qed (rule c(2))
  have q: "?r \<in> set (wp_reservations (so_pool x))" "worker_pool_ok (so_pool x)" "wp_profile (so_pool x) = wp_profile p"
    using released_reservation_found [OF p facts(1)] x by (auto simp: settled_now_def)
  have "find (\<lambda>r. wr_reservation_id r = ad_reservation_id a \<and> wr_attempt_id r = ad_attempt_id a) (wp_reservations (so_pool x)) = Some ?r"
  proof (rule find_unique [OF q(1)])
    fix y assume "y \<in> set (wp_reservations (so_pool x))" "wr_reservation_id y = ad_reservation_id a \<and> wr_attempt_id y = ad_attempt_id a"
    moreover have "wr_reservation_id ?r = ad_reservation_id a" using facts by simp
    ultimately show "y = ?r" using q by (metis distinct_map inj_onD worker_pool_ok_def)
  qed (use facts in simp)
  moreover have "lease_fixed s (so_lease_state x)" using effect by (simp add: settlement_state_le_def)
  ultimately show "settleable (so_pool x) a e (so_lease_state x) t ?r"
    using able q(3) by (auto simp: settleable_def lease_fixed_def)
qed

lemma settlement_replayed:
  assumes ok: "settlement_state_ok s p l" and able: "settleable p a e s t r" and x: "settled_now l p a e s t r x"
  shows "\<exists>y. settle_worker_execution (so_ledger x) (so_pool x) a e (so_lease_state x) (Aware t z) = Inr y
    \<and> settled_before (so_ledger x) (so_pool x) (so_lease_state x) (r\<lparr>wr_released_at := Some t\<rparr>) (settlement_fingerprint a e t)
        (settled_receipt s a e t) y"
proof -
  let ?c = "settled_receipt s a e t"
  note again = settled_answers_again [OF ok able x]
  have c: "sm_settlement_fingerprint ?c = settlement_fingerprint a e t" "sm_released_at ?c = t"
    "sm_lease_observation_fingerprint ?c = lease_observation_fingerprint (settling s (settlement_fingerprint a e t) t)"
    by (simp_all add: settled_receipt_def Let_def)
  obtain o' where o': "find (\<lambda>i. lease_observation_fingerprint i = sm_lease_observation_fingerprint ?c)
      (lx_applied (so_lease_state x)) = Some o'"
    using settled_now_effect [OF ok able x] c(3)
    by (cases "find (\<lambda>i. lease_observation_fingerprint i = sm_lease_observation_fingerprint ?c) (lx_applied (so_lease_state x))")
      (auto simp: find_None_iff)
  show ?thesis
    unfolding settle_settleable [OF again(2)] again(1)
    using c o' find_mem [OF o']
    by (simp add: replay_settlement_def active_def mk_settlement_def raising_Inr_iff digests_clean no_reason_def settled_before_def)
qed

section \<open>Properties\<close>

text \<open>C21: a settlement closes the lease, frees the worker and keeps the receipt together. From a valid lease
  stream, pool and ledger every answer keeps them valid and only moves them forward. A worker is released only
  for evidence bound to the admission: the admitted reservation held the slot of that worker and the slot is
  free afterwards, the lease of the attempt was active and is closed at the time of release, and exactly one
  receipt is added, for an attempt that had none, naming the admission, the execution and the closing
  observation. Any other answer changes nothing; a replay names a receipt of the ledger whose observation is
  in the lease stream.\<close>

theorem settlement_atomic:
  assumes ok: "settlement_state_ok s p l" and x: "settle_worker_execution l p a e s now = Inr x"
  shows "settlement_state_ok (so_lease_state x) (so_pool x) (so_ledger x)
    \<and> settlement_state_le (s, p, l) (so_lease_state x, so_pool x, so_ledger x)
    \<and> (if so_decision x = Settle_RELEASED
       then \<exists>t z c. now = Aware t z \<and> so_record x = Some c \<and> set (so_ledger x) = insert c (set l)
         \<and> ad_attempt_id a \<notin> sm_attempt_id ` set l \<and> sm_attempt_id c = ad_attempt_id a
         \<and> sm_admission_fingerprint c = execution_admission_fingerprint a
         \<and> we_plan_admission_fingerprint e = execution_admission_fingerprint a
         \<and> sm_worker_execution_fingerprint c = we_fingerprint e
         \<and> sl_holder (slot_of p) = Some (ad_reservation_id a, ad_attempt_id a) \<and> sl_holder (slot_of (so_pool x)) = None
         \<and> ls_attempt_id (lx_lease s) = ad_attempt_id a \<and> status_at (lx_lease s) (utc t) = Inr Lease_ACTIVE
         \<and> ls_released_at (lx_lease (so_lease_state x)) = Some t
       else so_lease_state x = s \<and> so_pool x = p \<and> so_ledger x = l)
    \<and> (so_decision x = Settle_REPLAY_EXISTING \<longrightarrow> (\<exists>c \<in> set l. so_record x = Some c \<and> sm_attempt_id c = ad_attempt_id a
         \<and> (\<exists>o' \<in> set (lx_applied s). lease_observation_fingerprint o' = sm_lease_observation_fingerprint c)))"
proof -
  have "lease_stream_ok s" using ok by (simp add: settlement_state_ok_def)
  then show ?thesis
    using x
  proof (cases rule: settle_cases)
    case refused
    with ok show ?thesis by (auto simp: unsettled_def settlement_state_le_refl)
  next
    case (first t z r)
    with settled_now_effect [OF ok first(2,4)] show ?thesis
      by (auto simp: settled_now_def settleable_def settled_receipt_def Let_def)
  next
    case (again t z r c)
    with ok find_mem [OF again(3)] show ?thesis by (auto simp: settled_before_def settlement_state_le_refl)
  qed
qed

text \<open>An execution is settled once. After a release, the same request on the stored states is answered with the
  same receipt and changes nothing, so a caller that lost the answer can ask again; whatever evidence or
  time a later request of that admission carries, the worker is not released a second time, and evidence or
  a time with another fingerprint is never answered with the receipt.\<close>

theorem settlement_exactly_once:
  assumes ok: "settlement_state_ok s p l" and x: "settle_worker_execution l p a e s (Aware t z) = Inr x"
    and done': "so_decision x = Settle_RELEASED"
  shows "(\<exists>y. settle_worker_execution (so_ledger x) (so_pool x) a e (so_lease_state x) (Aware t z') = Inr y
        \<and> so_decision y = Settle_REPLAY_EXISTING \<and> so_record y = so_record x
        \<and> so_ledger y = so_ledger x \<and> so_pool y = so_pool x \<and> so_lease_state y = so_lease_state x)
    \<and> (\<forall>e' t' y. settle_worker_execution (so_ledger x) (so_pool x) a e' (so_lease_state x) (Aware t' z') = Inr y \<longrightarrow>
        so_decision y \<noteq> Settle_RELEASED
        \<and> (settlement_fingerprint a e' t' \<noteq> settlement_fingerprint a e t \<longrightarrow> so_decision y \<in> {Settle_CONFLICT, Settle_REJECT}))"
proof -
  have s: "lease_stream_ok s" using ok by (simp add: settlement_state_ok_def)
  obtain r where able: "settleable p a e s t r" and now: "settled_now l p a e s t r x"
    using s x by (cases rule: settle_cases) (use done' in \<open>auto simp: unsettled_def settled_before_def\<close>)
  have s': "lease_stream_ok (so_lease_state x)"
    using settled_now_effect [OF ok able now] by (simp add: settlement_state_ok_def)
  note found = settled_answers_again(1) [OF ok able now]
  have "so_decision y \<noteq> Settle_RELEASED
      \<and> (settlement_fingerprint a e' t' \<noteq> settlement_fingerprint a e t \<longrightarrow> so_decision y \<in> {Settle_CONFLICT, Settle_REJECT})"
    if "settle_worker_execution (so_ledger x) (so_pool x) a e' (so_lease_state x) (Aware t' z') = Inr y" for e' t' y
    using s' that
    by (cases rule: settle_cases) (use found in \<open>auto simp: unsettled_def settled_before_def settled_receipt_def Let_def\<close>)
  moreover obtain y where "settle_worker_execution (so_ledger x) (so_pool x) a e (so_lease_state x) (Aware t z') = Inr y"
    "settled_before (so_ledger x) (so_pool x) (so_lease_state x) (r\<lparr>wr_released_at := Some t\<rparr>) (settlement_fingerprint a e t)
      (settled_receipt s a e t) y"
    using settlement_replayed [OF ok able now] by blast
  ultimately show ?thesis using now by (auto simp: settled_before_def settled_now_def)
qed

definition sample_execution :: worker_execution where
  "sample_execution = \<lparr>we_plan_admission_fingerprint = execution_admission_fingerprint sample_receipt,
     we_plan_attempt_id = ''a-1'', we_plan_worker_id = ''w-1'', we_fingerprint = digest_text ''x''\<rparr>"

lemma sample_settlement_ok: "settlement_state_ok sample_lease_stream sample_busy []"
  using sample_crash_ok by (simp add: settlement_state_ok_def recovery_state_ok_def settlement_ledger_ok_def)

lemma sample_settleable: "settleable sample_busy sample_receipt sample_execution sample_lease_stream 9 sample_held"
  by (simp add: settleable_def sample_execution_def sample_receipt_def sample_busy_def sample_profile_def sample_held_def
      sample_lease_stream_def sample_lease_def)

lemma sample_settled:
  "\<exists>x. settle_worker_execution [] sample_busy sample_receipt sample_execution sample_lease_stream (Aware 9 0) = Inr x
     \<and> so_decision x = Settle_RELEASED"
proof -
  let ?fp = "settlement_fingerprint sample_receipt sample_execution 9"
  have s: "lease_stream_ok sample_lease_stream" and p: "worker_pool_ok sample_busy"
    using sample_settlement_ok by (simp_all add: settlement_state_ok_def)
  note facts = settleable_facts [OF sample_settleable s p]
  obtain n where n: "apply_lease_observation sample_lease_stream (settling sample_lease_stream ?fp 9) = Inr n"
    "ln_decision n = LeaseObs_APPLY"
    using first_release [OF sample_lease_ok, of "settling sample_lease_stream ?fp 9"]
    by (auto simp: sample_lease_stream_def settling_def last_sequence_def lease_matches_def sample_lease_def)
  have act: "active sample_held" by (simp add: active_def sample_held_def)
  obtain q where q: "release_worker_slot sample_busy (wr_reservation_id sample_held) (utc 9) = Inr q"
    using release_refines [OF p, of "wr_reservation_id sample_held" 9 0] act facts
    by (auto simp: sample_busy_def utc_def sample_held_def slot_of_def)
  have st: "status_at (lx_lease sample_lease_stream) (utc 9) = Inr Lease_ACTIVE"
    by (simp add: status_at_def sample_lease_stream_def sample_lease_def raising.simps)
  have "mk_settlement_record ?fp (execution_admission_fingerprint sample_receipt) (we_fingerprint sample_execution)
      (ad_attempt_id sample_receipt) (ad_reservation_id sample_receipt) (ad_worker_id sample_receipt)
      (lease_observation_fingerprint (settling sample_lease_stream ?fp 9)) (utc 9)
    = Inr (settled_receipt sample_lease_stream sample_receipt sample_execution 9)"
    using facts by (simp add: mk_settlement_record_def raising_Inr_iff digests_clean settled_receipt_def Let_def
        sample_execution_def is_digest_digest_text)
  then show ?thesis
    unfolding settle_settleable [OF sample_settleable]
    using n q st act by (simp add: release_settlement_def Let_def settlement_observed [OF s] mk_settlement_ledger_def raising.simps
        mk_settlement_def raising_append raising_Inr_iff digests_clean no_reason_def)
qed

theorem settlement_atomic_witness:
  "\<exists>x. settlement_state_ok sample_lease_stream sample_busy []
     \<and> settle_worker_execution [] sample_busy sample_receipt sample_execution sample_lease_stream (Aware 9 0) = Inr x
     \<and> sl_holder (slot_of (so_pool x)) = None"
proof -
  obtain x where "settle_worker_execution [] sample_busy sample_receipt sample_execution sample_lease_stream (Aware 9 0) = Inr x"
    "so_decision x = Settle_RELEASED" using sample_settled by blast
  with settlement_atomic [OF sample_settlement_ok this(1)] sample_settlement_ok show ?thesis by auto
qed

theorem settlement_exactly_once_witness:
  "\<exists>x y. settle_worker_execution [] sample_busy sample_receipt sample_execution sample_lease_stream (Aware 9 0) = Inr x
     \<and> so_decision x = Settle_RELEASED
     \<and> settle_worker_execution (so_ledger x) (so_pool x) sample_receipt sample_execution (so_lease_state x) (Aware 9 0) = Inr y
     \<and> so_decision y = Settle_REPLAY_EXISTING"
proof -
  obtain x where x: "settle_worker_execution [] sample_busy sample_receipt sample_execution sample_lease_stream (Aware 9 0) = Inr x"
    "so_decision x = Settle_RELEASED" using sample_settled by blast
  with settlement_exactly_once [OF sample_settlement_ok x] show ?thesis by blast
qed

end
