(* ===== verification/Artifact_Retention.thy ===== *)
theory Artifact_Retention
  imports Contracts
begin

text \<open>
  \<open>src/backend/app/strategy_lab_v2/artifact_retention.py\<close>, with \<open>ArtifactManifest\<close> of \<open>contracts.py\<close>: pins on
  immutable artifacts, their idempotent addition and release, and the classification that decides whether
  an artifact may be tiered or expire.
\<close>

section \<open>Manifests and pins\<close>

datatype artifact_retention =
    Retention_PERMANENT_MANIFEST | Retention_PINNED_INPUT | Retention_PINNED_RESULT | Retention_TIERED_RESULT
  | Retention_EPHEMERAL

fun artifact_retention_value :: "artifact_retention \<Rightarrow> string" where
  "artifact_retention_value Retention_PERMANENT_MANIFEST = ''permanent_manifest''"
| "artifact_retention_value Retention_PINNED_INPUT = ''pinned_input''"
| "artifact_retention_value Retention_PINNED_RESULT = ''pinned_result''"
| "artifact_retention_value Retention_TIERED_RESULT = ''tiered_result''"
| "artifact_retention_value Retention_EPHEMERAL = ''ephemeral''"

record artifact_manifest =
  am_content_digest :: string
  am_byte_length :: int
  am_media_type :: string
  am_schema_version :: string
  am_storage_key :: string
  am_retention_class :: artifact_retention

definition mk_artifact_manifest ::
  "string \<Rightarrow> int \<Rightarrow> string \<Rightarrow> string \<Rightarrow> string \<Rightarrow> artifact_retention \<Rightarrow> artifact_manifest result" where
  "mk_artifact_manifest content byte_length media_type schema_version storage_key retention =
     raising
       (digest_checks content ''content_digest''
        @ [(byte_length < 0, ''byte_length must be a non-negative integer''),
           (storage_key \<noteq> content, ''artifact storage_key must equal its content digest''),
           (blank media_type, ''media_type must not be empty''),
           (blank schema_version, ''schema_version must not be empty'')])
       (Inr \<lparr>am_content_digest = content, am_byte_length = byte_length, am_media_type = media_type,
             am_schema_version = schema_version, am_storage_key = storage_key, am_retention_class = retention\<rparr>)"

definition manifest_fingerprint :: "artifact_manifest \<Rightarrow> string" where
  "manifest_fingerprint m = digest (dataclass_py ''app.strategy_lab_v2.contracts.ArtifactManifest''
     [(''content_digest'', PStr (am_content_digest m)),
      (''byte_length'', PInt (am_byte_length m)),
      (''media_type'', PStr (am_media_type m)),
      (''schema_version'', PStr (am_schema_version m)),
      (''storage_key'', PStr (am_storage_key m)),
      (''retention_class'', PEnum ''app.strategy_lab_v2.contracts.ArtifactRetention''
          (PStr (artifact_retention_value (am_retention_class m))))])"

record retention_pin =
  pin_id :: string
  pin_manifest :: string
  pin_owner_type :: string
  pin_owner_id :: string
  pin_created_at :: instant
  pin_expires_at :: "instant option"
  pin_released_at :: "instant option"

definition mk_retention_pin ::
  "string \<Rightarrow> string \<Rightarrow> string \<Rightarrow> string \<Rightarrow> datetime \<Rightarrow> datetime option \<Rightarrow> datetime option \<Rightarrow> retention_pin result" where
  "mk_retention_pin pid manifest owner_type owner_id created_at expires_at released_at =
     raising
       (digest_checks pid ''pin_id'' @ digest_checks manifest ''artifact_manifest_fingerprint''
        @ [(blank owner_type, ''owner_type must not be empty''), (blank owner_id, ''owner_id must not be empty'')])
       (with_aware created_at ''created_at must be timezone-aware'' (\<lambda>created.
        with_aware_opt expires_at ''expires_at must be timezone-aware'' (\<lambda>expires.
        raising [((case expires of None \<Rightarrow> False | Some t \<Rightarrow> t < created), ''expires_at must not precede created_at'')]
        (with_aware_opt released_at ''released_at must be timezone-aware'' (\<lambda>released.
        raising [((case released of None \<Rightarrow> False | Some t \<Rightarrow> t < created), ''released_at must not precede created_at'')]
          (Inr \<lparr>pin_id = pid, pin_manifest = manifest, pin_owner_type = owner_type, pin_owner_id = owner_id,
                pin_created_at = created, pin_expires_at = expires, pin_released_at = released\<rparr>))))))"

definition pin_remake :: "retention_pin \<Rightarrow> retention_pin result" where
  "pin_remake p = mk_retention_pin (pin_id p) (pin_manifest p) (pin_owner_type p) (pin_owner_id p) (utc (pin_created_at p))
     (map_option utc (pin_expires_at p)) (map_option utc (pin_released_at p))"

definition pin_active :: "retention_pin \<Rightarrow> bool" where
  "pin_active p \<longleftrightarrow> pin_released_at p = None \<and> pin_expires_at p = None"

text \<open>\<open>active_at\<close>, whose argument is an aware datetime once its check has passed.\<close>

definition active_at :: "retention_pin \<Rightarrow> instant \<Rightarrow> bool" where
  "active_at p t \<longleftrightarrow> pin_created_at p \<le> t \<and> (case pin_expires_at p of None \<Rightarrow> True | Some e \<Rightarrow> t < e)
     \<and> (case pin_released_at p of None \<Rightarrow> True | Some r \<Rightarrow> t < r)"

definition pin_active_at :: "retention_pin \<Rightarrow> datetime \<Rightarrow> bool result" where
  "pin_active_at p observed_at =
     with_aware observed_at ''observed_at must be timezone-aware'' (\<lambda>t. Inr (active_at p t))"

definition pin_fingerprint :: "retention_pin \<Rightarrow> string" where
  "pin_fingerprint p = digest (dataclass_py ''app.strategy_lab_v2.artifact_retention.ArtifactRetentionPin''
     [(''pin_id'', PStr (pin_id p)),
      (''artifact_manifest_fingerprint'', PStr (pin_manifest p)),
      (''owner_type'', PStr (pin_owner_type p)),
      (''owner_id'', PStr (pin_owner_id p)),
      (''created_at'', time_py (pin_created_at p)),
      (''expires_at'', opt_py time_py (pin_expires_at p)),
      (''released_at'', opt_py time_py (pin_released_at p))])"

section \<open>Retention states\<close>

record retention_state =
  rs_manifest_fingerprint :: string
  rs_content_digest :: string
  rs_retention_class :: artifact_retention
  rs_retention_eligible_at :: "instant option"
  rs_pins :: "retention_pin list"

definition mk_retention_state ::
  "string \<Rightarrow> string \<Rightarrow> artifact_retention \<Rightarrow> datetime option \<Rightarrow> retention_pin list \<Rightarrow> retention_state result" where
  "mk_retention_state manifest content retention eligible_at pins =
     raising (digest_checks manifest ''manifest_fingerprint'' @ digest_checks content ''content_digest'')
       (with_aware_opt eligible_at ''retention_eligible_at must be timezone-aware'' (\<lambda>eligible.
        raising
          [(retention \<in> {Retention_TIERED_RESULT, Retention_EPHEMERAL} \<and> eligible = None,
              ''tiered and ephemeral artifacts require retention_eligible_at''),
           (list_ex (\<lambda>p. pin_manifest p \<noteq> manifest) pins, ''retention pins must reference this manifest''),
           (\<not> distinct (map pin_id pins), ''retention pin ids must be unique'')]
          (Inr \<lparr>rs_manifest_fingerprint = manifest, rs_content_digest = content, rs_retention_class = retention,
                rs_retention_eligible_at = eligible, rs_pins = sort_key pin_id pins\<rparr>)))"

definition retention_remake :: "retention_state \<Rightarrow> retention_state result" where
  "retention_remake s = mk_retention_state (rs_manifest_fingerprint s) (rs_content_digest s) (rs_retention_class s)
     (map_option utc (rs_retention_eligible_at s)) (rs_pins s)"

definition from_manifest ::
  "artifact_manifest \<Rightarrow> datetime option \<Rightarrow> retention_pin list \<Rightarrow> retention_state result" where
  "from_manifest m eligible_at pins =
     mk_retention_state (manifest_fingerprint m) (am_content_digest m) (am_retention_class m) eligible_at pins"

section \<open>Decisions\<close>

datatype retention_decision =
    RETAIN_PERMANENT | RETAIN_PINNED | PIN_REQUIRED | RETAIN_TIERED | TIER_ELIGIBLE | RETAIN_EPHEMERAL | EXPIRE_ELIGIBLE

record retention_resolution =
  rv_decision :: retention_decision
  rv_state :: retention_state
  rv_observed_at :: instant
  rv_active_pin_ids :: "string list"

definition mk_retention_resolution ::
  "retention_decision \<Rightarrow> retention_state \<Rightarrow> instant \<Rightarrow> string list \<Rightarrow> retention_resolution result" where
  "mk_retention_resolution decision state observed pin_ids =
     raising
       ([(sort pin_ids \<noteq> pin_ids \<or> \<not> distinct pin_ids, ''active pin ids must be sorted and unique'')]
        @ concat (map (\<lambda>d. digest_checks d ''active_pin_id'') pin_ids)
        @ [(\<not> set pin_ids \<subseteq> pin_id ` set (rs_pins state), ''active pin ids must reference state pins'')])
       (Inr \<lparr>rv_decision = decision, rv_state = state, rv_observed_at = observed, rv_active_pin_ids = pin_ids\<rparr>)"

datatype retention_pin_decision = Pin_ADD | Pin_REPLAY_EXISTING | Pin_CONFLICT

record retention_pin_resolution =
  pv_decision :: retention_pin_decision
  pv_state :: retention_state
  pv_pin_id :: string

definition mk_retention_pin_resolution ::
  "retention_pin_decision \<Rightarrow> retention_state \<Rightarrow> string \<Rightarrow> retention_pin_resolution result" where
  "mk_retention_pin_resolution decision state pid =
     raising (digest_checks pid ''pin_id'') (Inr \<lparr>pv_decision = decision, pv_state = state, pv_pin_id = pid\<rparr>)"

definition add_retention_pin :: "retention_state \<Rightarrow> retention_pin \<Rightarrow> retention_pin_resolution result" where
  "add_retention_pin state pin =
     raising [(pin_manifest pin \<noteq> rs_manifest_fingerprint state, ''retention pin must reference the state manifest'')]
       (case find (\<lambda>p. pin_id p = pin_id pin) (rs_pins state) of
          Some existing \<Rightarrow>
            mk_retention_pin_resolution
              (if pin_fingerprint existing = pin_fingerprint pin then Pin_REPLAY_EXISTING else Pin_CONFLICT) state (pin_id pin)
        | None \<Rightarrow>
            rbind (retention_remake (state\<lparr>rs_pins := rs_pins state @ [pin]\<rparr>)) (\<lambda>next.
              mk_retention_pin_resolution Pin_ADD next (pin_id pin)))"

text \<open>The loop over \<open>enumerate(state.pins)\<close>: the pins before the index, and the pins from it on.\<close>

fun release_loop ::
  "retention_state \<Rightarrow> string \<Rightarrow> instant \<Rightarrow> retention_pin list \<Rightarrow> retention_pin list \<Rightarrow> retention_state result" where
  "release_loop state pid t before [] = Inl (ValueError ''pin_id is not present in retention state'')"
| "release_loop state pid t before (pin # pins) =
     (if pin_id pin \<noteq> pid then release_loop state pid t (before @ [pin]) pins
      else if pin_released_at pin \<noteq> None then Inr state
      else rbind (pin_remake (pin\<lparr>pin_released_at := Some t\<rparr>)) (\<lambda>updated.
             retention_remake (state\<lparr>rs_pins := before @ [updated] @ pins\<rparr>)))"

definition release_retention_pin :: "retention_state \<Rightarrow> string \<Rightarrow> datetime \<Rightarrow> retention_state result" where
  "release_retention_pin state pid released_at =
     raising (digest_checks pid ''pin_id'')
       (with_aware released_at ''released_at must be timezone-aware'' (\<lambda>t. release_loop state pid t [] (rs_pins state)))"

text \<open>The message of \<open>observed_at >= None\<close>.\<close>

definition none_comparison :: string where
  "none_comparison = (let q = [CHR 0x27]
     in q @ ''>='' @ q @ '' not supported between instances of '' @ q @ ''datetime.datetime'' @ q @ '' and ''
          @ q @ ''NoneType'' @ q)"

definition resolve_artifact_retention :: "retention_state \<Rightarrow> datetime \<Rightarrow> retention_resolution result" where
  "resolve_artifact_retention state observed_at =
     with_aware observed_at ''observed_at must be timezone-aware'' (\<lambda>t.
       let active_pin_ids = sort (map pin_id (filter (\<lambda>p. active_at p t) (rs_pins state)));
           eligible = (case rs_retention_eligible_at state of None \<Rightarrow> False | Some e \<Rightarrow> e \<le> t)
       in if active_pin_ids \<noteq> [] then mk_retention_resolution RETAIN_PINNED state t active_pin_ids
          else case rs_retention_class state of
            Retention_PERMANENT_MANIFEST \<Rightarrow> mk_retention_resolution RETAIN_PERMANENT state t active_pin_ids
          | Retention_PINNED_INPUT \<Rightarrow> mk_retention_resolution PIN_REQUIRED state t active_pin_ids
          | Retention_PINNED_RESULT \<Rightarrow> mk_retention_resolution PIN_REQUIRED state t active_pin_ids
          | Retention_TIERED_RESULT \<Rightarrow>
              if rs_retention_eligible_at state = None
              then Inl (TypeError none_comparison)
              else mk_retention_resolution (if eligible then TIER_ELIGIBLE else RETAIN_TIERED) state t active_pin_ids
          | Retention_EPHEMERAL \<Rightarrow>
              if rs_retention_eligible_at state = None
              then Inl (TypeError none_comparison)
              else mk_retention_resolution (if eligible then EXPIRE_ELIGIBLE else RETAIN_EPHEMERAL) state t active_pin_ids)"

section \<open>Invariant\<close>

definition pin_ok :: "retention_pin \<Rightarrow> bool" where
  "pin_ok p \<longleftrightarrow> is_digest (pin_id p) \<and> is_digest (pin_manifest p) \<and> \<not> blank (pin_owner_type p) \<and> \<not> blank (pin_owner_id p)
     \<and> (\<forall>t. pin_expires_at p = Some t \<or> pin_released_at p = Some t \<longrightarrow> pin_created_at p \<le> t)"

definition retention_shape_ok :: "retention_state \<Rightarrow> bool" where
  "retention_shape_ok s \<longleftrightarrow> is_digest (rs_manifest_fingerprint s) \<and> is_digest (rs_content_digest s)
     \<and> (rs_retention_class s \<in> {Retention_TIERED_RESULT, Retention_EPHEMERAL} \<longrightarrow> rs_retention_eligible_at s \<noteq> None)
     \<and> (\<forall>p \<in> set (rs_pins s). pin_manifest p = rs_manifest_fingerprint s) \<and> distinct (map pin_id (rs_pins s))"

definition retention_ok :: "retention_state \<Rightarrow> bool" where
  "retention_ok s \<longleftrightarrow> retention_shape_ok s \<and> (\<forall>p \<in> set (rs_pins s). pin_ok p) \<and> sorted (map pin_id (rs_pins s))"

lemma mk_retention_pin_ok: "mk_retention_pin i m ot oi c e r = Inr p \<Longrightarrow> pin_ok p"
  by (auto simp: mk_retention_pin_def raising_Inr_iff with_aware_eq_Inr with_aware_opt_eq_Inr digests_clean pin_ok_def)

lemma pin_remake_iff: "pin_remake p = Inr q \<longleftrightarrow> pin_ok p \<and> q = p"
  by (cases "pin_expires_at p"; cases "pin_released_at p")
    (auto simp: pin_remake_def mk_retention_pin_def raising_Inr_iff digests_clean pin_ok_def utc_def)

interpretation pin: validated pin_remake pin_ok
  by unfold_locales (rule pin_remake_iff)

lemma retention_remake_Inr:
  "retention_remake s = Inr t \<longleftrightarrow> retention_shape_ok s \<and> t = s\<lparr>rs_pins := sort_key pin_id (rs_pins s)\<rparr>"
  by (auto simp: retention_remake_def mk_retention_state_def raising_Inr_iff digests_clean retention_shape_ok_def list_ex_iff)

lemma retention_remake_ok:
  assumes "retention_remake s = Inr t" "\<forall>p \<in> set (rs_pins s). pin_ok p"
  shows "retention_ok t"
  using assms by (auto simp: retention_remake_Inr retention_ok_def retention_shape_ok_def distinct_map)

lemma from_manifest_ok: "from_manifest m e ps = Inr s \<Longrightarrow> \<forall>p \<in> set ps. pin_ok p \<Longrightarrow> retention_ok s"
  by (auto simp: from_manifest_def mk_retention_state_def raising_Inr_iff with_aware_opt_eq_Inr digests_clean retention_ok_def
      retention_shape_ok_def list_ex_iff distinct_map)

lemma mk_pin_resolution_Inr:
  "mk_retention_pin_resolution d s i = Inr r \<longleftrightarrow> is_digest i \<and> r = \<lparr>pv_decision = d, pv_state = s, pv_pin_id = i\<rparr>"
  by (auto simp: mk_retention_pin_resolution_def raising_Inr_iff digests_clean)

section \<open>Operations\<close>

lemma add_retention_pin_cases:
  assumes ok: "retention_ok s" and p: "pin_ok p"
  shows "pin_manifest p \<noteq> rs_manifest_fingerprint s \<Longrightarrow> \<exists>m. add_retention_pin s p = Inl (ValueError m)"
    and "pin_manifest p = rs_manifest_fingerprint s \<Longrightarrow> q \<in> set (rs_pins s) \<Longrightarrow> pin_id q = pin_id p \<Longrightarrow>
      add_retention_pin s p = Inr \<lparr>pv_decision = (if pin_fingerprint q = pin_fingerprint p then Pin_REPLAY_EXISTING else Pin_CONFLICT),
        pv_state = s, pv_pin_id = pin_id p\<rparr>"
    and "pin_manifest p = rs_manifest_fingerprint s \<Longrightarrow> pin_id p \<notin> pin_id ` set (rs_pins s) \<Longrightarrow>
      add_retention_pin s p = Inr \<lparr>pv_decision = Pin_ADD, pv_state = s\<lparr>rs_pins := sort_key pin_id (rs_pins s @ [p])\<rparr>,
        pv_pin_id = pin_id p\<rparr>"
proof -
  show "pin_manifest p \<noteq> rs_manifest_fingerprint s \<Longrightarrow> \<exists>m. add_retention_pin s p = Inl (ValueError m)"
    by (simp add: add_retention_pin_def raising.simps)
  show "add_retention_pin s p = Inr \<lparr>pv_decision = (if pin_fingerprint q = pin_fingerprint p then Pin_REPLAY_EXISTING else Pin_CONFLICT),
        pv_state = s, pv_pin_id = pin_id p\<rparr>"
    if q: "pin_manifest p = rs_manifest_fingerprint s" "q \<in> set (rs_pins s)" "pin_id q = pin_id p"
  proof -
    have "distinct (map pin_id (rs_pins s))" using ok by (simp add: retention_ok_def retention_shape_ok_def)
    then have "find (\<lambda>x. pin_id x = pin_id p) (rs_pins s) = Some q"
      using q(2,3) by (intro find_unique) (simp_all, metis distinct_map inj_onD)
    with q(1) p show ?thesis by (simp add: add_retention_pin_def raising.simps mk_pin_resolution_Inr pin_ok_def)
  qed
  show "add_retention_pin s p = Inr \<lparr>pv_decision = Pin_ADD, pv_state = s\<lparr>rs_pins := sort_key pin_id (rs_pins s @ [p])\<rparr>,
        pv_pin_id = pin_id p\<rparr>"
    if new: "pin_manifest p = rs_manifest_fingerprint s" "pin_id p \<notin> pin_id ` set (rs_pins s)"
  proof -
    have "find (\<lambda>x. pin_id x = pin_id p) (rs_pins s) = None"
      unfolding find_None_iff using new(2) by (metis image_eqI)
    moreover have "retention_remake (s\<lparr>rs_pins := rs_pins s @ [p]\<rparr>)
        = Inr (s\<lparr>rs_pins := sort_key pin_id (rs_pins s @ [p])\<rparr>)"
      using ok new by (auto simp: retention_remake_Inr retention_ok_def retention_shape_ok_def simp del: sort_key_simps)
    ultimately show ?thesis
      using new(1) p by (simp add: add_retention_pin_def raising.simps mk_pin_resolution_Inr pin_ok_def del: sort_key_simps)
  qed
qed

lemma release_loop_Inr:
  "rs_pins s = before @ pins \<Longrightarrow> release_loop s i t before pins = Inr s' \<Longrightarrow>
     s' = s \<or> (\<exists>b p a. rs_pins s = b @ p # a \<and> pin_id p = i \<and> pin_released_at p = None \<and> pin_ok (p\<lparr>pin_released_at := Some t\<rparr>)
       \<and> retention_remake (s\<lparr>rs_pins := b @ p\<lparr>pin_released_at := Some t\<rparr> # a\<rparr>) = Inr s')"
proof (induction pins arbitrary: before)
  case (Cons p pins)
  then show ?case by (cases "pin_id p = i") (auto simp: pin_remake_iff split: if_splits)
qed simp

lemma release_cases:
  assumes ok: "retention_ok s" and r: "release_retention_pin s i now = Inr s'"
  obtains (same) "s' = s"
  | (released) t z p where "now = Aware t z" "p \<in> set (rs_pins s)" "pin_id p = i" "pin_released_at p = None"
      "pin_created_at p \<le> t" "retention_ok s'" "s' = s\<lparr>rs_pins := rs_pins s'\<rparr>"
      "set (rs_pins s') = insert (p\<lparr>pin_released_at := Some t\<rparr>) (set (rs_pins s) - {p})"
proof -
  obtain t z where now: "now = Aware t z" "release_loop s i t [] (rs_pins s) = Inr s'"
    using r by (auto simp: release_retention_pin_def raising_Inr_iff with_aware_eq_Inr)
  from release_loop_Inr [OF _ now(2)] consider "s' = s"
    | b p a where "rs_pins s = b @ p # a" "pin_id p = i" "pin_released_at p = None" "pin_ok (p\<lparr>pin_released_at := Some t\<rparr>)"
        "retention_remake (s\<lparr>rs_pins := b @ p\<lparr>pin_released_at := Some t\<rparr> # a\<rparr>) = Inr s'" by auto
  then show thesis
  proof cases
    case 1
    then show thesis by (rule same)
  next
    case (2 b p a)
    let ?q = "p\<lparr>pin_released_at := Some t\<rparr>"
    have "distinct (rs_pins s)" using ok by (auto simp: retention_ok_def retention_shape_ok_def distinct_map)
    then have "set (rs_pins s') = insert ?q (set (rs_pins s) - {p})" using 2(1,5) by (auto simp: retention_remake_Inr)
    moreover have "retention_ok s'"
      using ok 2(1,4) by (intro retention_remake_ok [OF 2(5)]) (auto simp: retention_ok_def)
    moreover have "s' = s\<lparr>rs_pins := rs_pins s'\<rparr>" using 2(5) by (simp add: retention_remake_Inr)
    moreover have "pin_created_at p \<le> t" using 2(4) by (auto simp: pin_ok_def)
    ultimately show thesis using now(1) 2(1-3) by (intro released) auto
  qed
qed

section \<open>Requests\<close>

text \<open>A pin that its constructor refuses does not exist, so it is not added.\<close>

datatype retention_request = Add_Pin retention_pin | Release_Pin string datetime

fun retention_step :: "retention_request \<Rightarrow> retention_state \<Rightarrow> retention_state result" where
  "retention_step (Add_Pin p) s = (if pin_ok p then rbind (add_retention_pin s p) (\<lambda>r. Inr (pv_state r)) else Inr s)"
| "retention_step (Release_Pin i now) s = release_retention_pin s i now"

text \<open>Pins are only added or released: a later state has every pin with at most its release filled in.\<close>

definition pin_le :: "retention_pin \<Rightarrow> retention_pin \<Rightarrow> bool" where
  "pin_le p q \<longleftrightarrow> (\<exists>r. q = p\<lparr>pin_released_at := r\<rparr> \<and> (pin_released_at p \<noteq> None \<longrightarrow> r = pin_released_at p))"

definition retention_le :: "retention_state \<Rightarrow> retention_state \<Rightarrow> bool" where
  "retention_le s t \<longleftrightarrow> t = s\<lparr>rs_pins := rs_pins t\<rparr> \<and> (\<forall>p \<in> set (rs_pins s). \<exists>q \<in> set (rs_pins t). pin_le p q)"

lemma pin_le_refl: "pin_le p p"
  by (auto simp: pin_le_def intro!: exI [of _ "pin_released_at p"])

lemma pin_le_trans:
  assumes "pin_le p q" "pin_le q r"
  shows "pin_le p r"
proof -
  obtain a b where "q = p\<lparr>pin_released_at := a\<rparr>" "pin_released_at p \<noteq> None \<longrightarrow> a = pin_released_at p"
    "r = q\<lparr>pin_released_at := b\<rparr>" "pin_released_at q \<noteq> None \<longrightarrow> b = pin_released_at q"
    using assms unfolding pin_le_def by blast
  then show ?thesis unfolding pin_le_def by (intro exI [of _ b]) simp
qed

lemma retention_le_trans:
  assumes "retention_le s t" "retention_le t u"
  shows "retention_le s u"
proof -
  have "t = s\<lparr>rs_pins := rs_pins t\<rparr>" "u = t\<lparr>rs_pins := rs_pins u\<rparr>" using assms by (simp_all add: retention_le_def)
  then have "u = s\<lparr>rs_pins := rs_pins u\<rparr>" by (cases s; cases t; cases u) simp
  moreover have "\<exists>q \<in> set (rs_pins u). pin_le p q" if "p \<in> set (rs_pins s)" for p
    using that assms pin_le_trans unfolding retention_le_def by meson
  ultimately show ?thesis by (simp add: retention_le_def)
qed

lemma retention_step_keeps:
  assumes ok: "retention_ok s" and step: "retention_step c s = Inr s'"
  shows "retention_ok s' \<and> retention_le s s'"
proof (cases c)
  case (Release_Pin i now)
  then have "release_retention_pin s i now = Inr s'" using step by simp
  with ok show ?thesis
  proof (cases rule: release_cases)
    case same
    with ok show ?thesis by (auto simp: retention_le_def intro: pin_le_refl)
  next
    case (released t z p)
    have "pin_le p (p\<lparr>pin_released_at := Some t\<rparr>)" using released(4) by (auto simp: pin_le_def)
    with released(6-8) show ?thesis by (auto simp: retention_le_def intro: pin_le_refl)
  qed
next
  case (Add_Pin p)
  show ?thesis
  proof (cases "pin_ok p \<and> pin_manifest p = rs_manifest_fingerprint s \<and> pin_id p \<notin> pin_id ` set (rs_pins s)")
    case True
    then have "s' = s\<lparr>rs_pins := sort_key pin_id (rs_pins s @ [p])\<rparr>"
      using step Add_Pin add_retention_pin_cases(3) [OF ok, of p] by (auto simp del: sort_key_simps)
    moreover have "retention_ok (s\<lparr>rs_pins := sort_key pin_id (rs_pins s @ [p])\<rparr>)"
      using True ok by (intro retention_remake_ok [of "s\<lparr>rs_pins := rs_pins s @ [p]\<rparr>"])
        (auto simp: retention_remake_Inr retention_ok_def retention_shape_ok_def simp del: sort_key_simps)
    ultimately show ?thesis by (auto simp: retention_le_def intro: pin_le_refl simp del: sort_key_simps)
  next
    case False
    have "s' = s"
    proof (cases "pin_ok p")
      case pok: True
      show ?thesis
      proof (cases "pin_manifest p = rs_manifest_fingerprint s")
        case True
        then obtain q where "q \<in> set (rs_pins s)" "pin_id q = pin_id p" using False pok by auto
        with add_retention_pin_cases(2) [OF ok pok True] step Add_Pin pok show ?thesis by auto
      next
        case False
        with add_retention_pin_cases(1) [OF ok pok] step Add_Pin pok show ?thesis by auto
      qed
    qed (use step Add_Pin in simp)
    with ok show ?thesis by (auto simp: retention_le_def intro: pin_le_refl)
  qed
qed

interpretation retention: guarded_machine retention_step retention_ok retention_le
proof
  fix s r t assume "retention_ok s" "retention_step r s = Inr t"
  then show "retention_ok t" "retention_le s t" using retention_step_keeps by blast+
next
  fix s t u
  show "retention_le s s" by (auto simp: retention_le_def intro: pin_le_refl)
  show "retention_le s t \<Longrightarrow> retention_le t u \<Longrightarrow> retention_le s u" by (rule retention_le_trans)
qed

section \<open>Classification\<close>

lemma mk_retention_resolution_Inr:
  assumes "retention_ok s" "ids = sort (map pin_id (filter (\<lambda>p. active_at p t) (rs_pins s)))"
  shows "mk_retention_resolution d s t ids = Inr \<lparr>rv_decision = d, rv_state = s, rv_observed_at = t, rv_active_pin_ids = ids\<rparr>"
proof -
  have "distinct (map pin_id (rs_pins s))" "\<forall>p \<in> set (rs_pins s). is_digest (pin_id p)"
    using assms(1) by (auto simp: retention_ok_def retention_shape_ok_def pin_ok_def)
  then have "distinct ids" "\<forall>i \<in> set ids. is_digest i" "set ids \<subseteq> pin_id ` set (rs_pins s)" "sort ids = ids"
    using assms(2) by (auto simp: distinct_map_filter sorted_sort_id)
  then show ?thesis by (simp add: mk_retention_resolution_def raising_Inr_iff all_digests_clean)
qed

definition retention_due :: "retention_state \<Rightarrow> instant \<Rightarrow> bool" where
  "retention_due s t \<longleftrightarrow> (\<exists>e. rs_retention_eligible_at s = Some e \<and> e \<le> t)"

definition unpinned_decision :: "retention_state \<Rightarrow> instant \<Rightarrow> retention_decision" where
  "unpinned_decision s t = (case rs_retention_class s of
       Retention_PERMANENT_MANIFEST \<Rightarrow> RETAIN_PERMANENT
     | Retention_TIERED_RESULT \<Rightarrow> if retention_due s t then TIER_ELIGIBLE else RETAIN_TIERED
     | Retention_EPHEMERAL \<Rightarrow> if retention_due s t then EXPIRE_ELIGIBLE else RETAIN_EPHEMERAL
     | _ \<Rightarrow> PIN_REQUIRED)"

lemma resolve_retention_exact:
  assumes "retention_ok s"
  shows "\<exists>r. resolve_artifact_retention s (Aware t z) = Inr r \<and> rv_state r = s
    \<and> rv_decision r = (if \<exists>p \<in> set (rs_pins s). active_at p t then RETAIN_PINNED else unpinned_decision s t)
    \<and> set (rv_active_pin_ids r) = pin_id ` {p \<in> set (rs_pins s). active_at p t}"
proof -
  let ?ids = "sort (map pin_id (filter (\<lambda>p. active_at p t) (rs_pins s)))"
  note mk = mk_retention_resolution_Inr [OF assms refl, where t = t]
  have eligible: "rs_retention_class s \<in> {Retention_TIERED_RESULT, Retention_EPHEMERAL} \<Longrightarrow> rs_retention_eligible_at s \<noteq> None"
    using assms by (simp add: retention_ok_def retention_shape_ok_def)
  have ids: "?ids = [] \<longleftrightarrow> \<not> (\<exists>p \<in> set (rs_pins s). active_at p t)" "set ?ids = pin_id ` {p \<in> set (rs_pins s). active_at p t}"
    by (metis (mono_tags, lifting) filter_empty_conv length_0_conv length_map length_sort) simp
  show ?thesis
  proof (cases "?ids = []")
    case True
    with ids eligible show ?thesis
      unfolding resolve_artifact_retention_def with_aware.simps Let_def
      by (cases "rs_retention_class s")
        (auto simp: mk [unfolded True] unpinned_decision_def retention_due_def)
  next
    case False
    with ids show ?thesis
      unfolding resolve_artifact_retention_def with_aware.simps Let_def by (simp add: mk)
  qed
qed

lemma active_survives:
  assumes "retention_ok s" "p \<in> set (rs_pins s)" "active_at p t"
    and "\<forall>r z. Release_Pin (pin_id p) (Aware r z) \<in> set cs \<longrightarrow> t < r"
  shows "\<exists>q \<in> set (rs_pins (serve retention_step cs s)). pin_id q = pin_id p \<and> active_at q t"
  using assms
proof (induction cs arbitrary: s p)
  case (Cons c cs)
  let ?s = "served retention_step c s"
  have ok: "retention_ok ?s" using Cons.prems(1) by (rule retention.served_inv)
  have "\<exists>q \<in> set (rs_pins ?s). pin_id q = pin_id p \<and> active_at q t"
  proof (cases "retention_step c s")
    case (Inl e)
    with Cons.prems show ?thesis by (auto simp: served_def)
  next
    case (Inr s')
    then have s': "?s = s'" by (simp add: served_def)
    show ?thesis
    proof (cases c)
      case (Add_Pin x)
      then have "set (rs_pins s) \<subseteq> set (rs_pins s')"
        using Inr by (auto simp: add_retention_pin_def raising_Inr_iff retention_remake_Inr mk_pin_resolution_Inr
            split: if_splits option.splits)
      with Cons.prems s' show ?thesis by auto
    next
      case (Release_Pin i now)
      then have "release_retention_pin s i now = Inr s'" using Inr by simp
      with Cons.prems(1) show ?thesis
      proof (cases rule: release_cases)
        case same
        with Cons.prems s' show ?thesis by auto
      next
        case (released r zr y)
        show ?thesis
        proof (cases "y = p")
          case True
          then have "t < r" using Cons.prems(4) Release_Pin released(1,3) by auto
          then have "active_at (p\<lparr>pin_released_at := Some r\<rparr>) t" using Cons.prems(3) by (simp add: active_at_def)
          with True released(8) s' show ?thesis by (intro bexI [of _ "p\<lparr>pin_released_at := Some r\<rparr>"]) auto
        next
          case False
          with Cons.prems(2,3) released(8) s' show ?thesis by auto
        qed
      qed
    qed
  qed
  then obtain q where q: "q \<in> set (rs_pins ?s)" "pin_id q = pin_id p" "active_at q t" by blast
  have "\<forall>r z. Release_Pin (pin_id q) (Aware r z) \<in> set cs \<longrightarrow> t < r" using Cons.prems(4) q(2) by auto
  from Cons.IH [OF ok q(1,3) this] q(2) show ?case by simp
qed auto

section \<open>Properties\<close>

text \<open>C26: a pin protects an artifact. After any additions and releases a retention state is valid, still describes
  the same artifact, and has every pin it had with at most its release filled in. At a time at which a pin
  was active, and is not released by then, the artifact is retained as pinned and names that pin. At any
  time the artifact is eligible for tiering or expiry exactly when no pin is active, its class permits it and
  its retention period is over.\<close>

theorem pinned_artifact_retained:
  assumes "retention_ok s0" "s = serve retention_step cs s0"
    and "p \<in> set (rs_pins s0)" "active_at p t" "\<forall>r z. Release_Pin (pin_id p) (Aware r z) \<in> set cs \<longrightarrow> t < r"
  shows "retention_ok s \<and> retention_le s0 s
    \<and> (\<exists>x. resolve_artifact_retention s (Aware t z) = Inr x \<and> rv_decision x = RETAIN_PINNED \<and> pin_id p \<in> set (rv_active_pin_ids x))
    \<and> (\<exists>y. resolve_artifact_retention s (Aware u z) = Inr y
        \<and> (rv_decision y = TIER_ELIGIBLE \<longleftrightarrow> (\<forall>q \<in> set (rs_pins s). \<not> active_at q u)
             \<and> rs_retention_class s = Retention_TIERED_RESULT \<and> retention_due s u)
        \<and> (rv_decision y = EXPIRE_ELIGIBLE \<longleftrightarrow> (\<forall>q \<in> set (rs_pins s). \<not> active_at q u)
             \<and> rs_retention_class s = Retention_EPHEMERAL \<and> retention_due s u))"
proof -
  have ok: "retention_ok s" "retention_le s0 s"
    unfolding assms(2) using assms(1) by (simp_all add: retention.serve_inv retention.serve_le)
  obtain q where q: "q \<in> set (rs_pins s)" "pin_id q = pin_id p" "active_at q t"
    using active_survives [OF assms(1,3,4,5)] assms(2) by blast
  have "\<exists>x. resolve_artifact_retention s (Aware t z) = Inr x \<and> rv_decision x = RETAIN_PINNED \<and> pin_id p \<in> set (rv_active_pin_ids x)"
    using resolve_retention_exact [OF ok(1), of t z] q by (auto simp: image_iff) (metis)
  moreover have "\<exists>y. resolve_artifact_retention s (Aware u z) = Inr y
        \<and> (rv_decision y = TIER_ELIGIBLE \<longleftrightarrow> (\<forall>q \<in> set (rs_pins s). \<not> active_at q u)
             \<and> rs_retention_class s = Retention_TIERED_RESULT \<and> retention_due s u)
        \<and> (rv_decision y = EXPIRE_ELIGIBLE \<longleftrightarrow> (\<forall>q \<in> set (rs_pins s). \<not> active_at q u)
             \<and> rs_retention_class s = Retention_EPHEMERAL \<and> retention_due s u)"
    using resolve_retention_exact [OF ok(1), of u z]
    by (cases "rs_retention_class s") (auto simp: unpinned_decision_def split: if_splits)
  ultimately show ?thesis using ok by blast
qed

definition sample_pin :: retention_pin where
  "sample_pin = \<lparr>pin_id = digest_text ''p'', pin_manifest = digest_text ''m'', pin_owner_type = ''trial'', pin_owner_id = ''t-1'',
     pin_created_at = 0, pin_expires_at = None, pin_released_at = None\<rparr>"

definition sample_retention :: retention_state where
  "sample_retention = \<lparr>rs_manifest_fingerprint = digest_text ''m'', rs_content_digest = digest_text ''c'',
     rs_retention_class = Retention_EPHEMERAL, rs_retention_eligible_at = Some 1, rs_pins = [sample_pin]\<rparr>"

theorem pinned_artifact_retained_witness:
  "\<exists>x. resolve_artifact_retention (serve retention_step [Release_Pin (digest_text ''p'') (Aware 9 0)] sample_retention) (Aware 5 0)
      = Inr x \<and> rv_decision x = RETAIN_PINNED"
proof -
  have "retention_ok sample_retention"
    by (simp add: retention_ok_def retention_shape_ok_def sample_retention_def sample_pin_def pin_ok_def blank_iff py_space_def)
  moreover have "sample_pin \<in> set (rs_pins sample_retention)" "active_at sample_pin 5"
    by (simp_all add: sample_retention_def sample_pin_def active_at_def)
  moreover have "\<forall>r z. Release_Pin (pin_id sample_pin) (Aware r z) \<in> set [Release_Pin (digest_text ''p'') (Aware 9 0)] \<longrightarrow> 5 < r"
    by auto
  ultimately show ?thesis using pinned_artifact_retained [OF _ refl] by blast
qed

end
