(* ===== verification/Data_Snapshots.thy ===== *)
theory Data_Snapshots
  imports Capabilities
begin

text \<open>
  \<open>DataSeriesManifest\<close>, \<open>ETFMembershipReference\<close> and \<open>DataSnapshot\<close> of \<open>src/backend/app/strategy_lab_v2/contracts.py\<close>: the
  frozen series a preflight report is bound to. A snapshot is accepted only when its series cover the effective
  history of every decision without gap or overlap. The interpreter's ISO 8601 reader is the argument
  \<open>fromisoformat\<close>; here its \<open>ValueError\<close> passes to the caller.
\<close>

section \<open>Series\<close>

record data_series =
  se_instrument_id :: string
  se_event_type :: string
  se_event_granularity :: event_granularity
  se_timeframe :: string
  se_session :: string
  se_feed :: string
  se_start :: instant
  se_end :: instant
  se_adjustment :: adjustment_mode
  se_corporate_action_semantics :: string
  se_coverage_evidence_digest :: string
  se_content_digest :: string
  se_row_count :: int

definition mk_data_series ::
  "string \<Rightarrow> string \<Rightarrow> event_granularity \<Rightarrow> string \<Rightarrow> string \<Rightarrow> string \<Rightarrow> datetime \<Rightarrow> datetime \<Rightarrow> adjustment_mode \<Rightarrow> string
     \<Rightarrow> string \<Rightarrow> string \<Rightarrow> int \<Rightarrow> data_series result" where
  "mk_data_series instrument_id event_type granularity timeframe session feed start stop adjustment corporate coverage content
       row_count =
     raising
       [(blank instrument_id, ''instrument_id must not be empty''),
        (blank event_type, ''event_type must not be empty''),
        (blank timeframe, ''timeframe must not be empty''),
        (blank session, ''session must not be empty''),
        (blank feed, ''feed must not be empty''),
        (blank corporate, ''corporate_action_semantics must not be empty'')]
       (with_aware start ''start must be timezone-aware'' (\<lambda>s.
        with_aware stop ''end must be timezone-aware'' (\<lambda>e.
        raising
          ([(s \<ge> e, ''series start must be earlier than end'')]
           @ digest_checks coverage ''coverage_evidence_digest'' @ digest_checks content ''content_digest''
           @ [(row_count \<le> 0, ''row_count must be positive'')])
          (Inr \<lparr>se_instrument_id = instrument_id, se_event_type = event_type, se_event_granularity = granularity,
                se_timeframe = timeframe, se_session = session, se_feed = feed, se_start = s, se_end = e,
                se_adjustment = adjustment, se_corporate_action_semantics = corporate,
                se_coverage_evidence_digest = coverage, se_content_digest = content, se_row_count = row_count\<rparr>))))"

definition series_ok :: "data_series \<Rightarrow> bool" where
  "series_ok x \<longleftrightarrow> se_start x < se_end x \<and> is_digest (se_coverage_evidence_digest x) \<and> is_digest (se_content_digest x)
     \<and> 0 < se_row_count x"

lemma mk_data_series_ok: "mk_data_series i t g tf ss f a b ad ca cv ct n = Inr x \<Longrightarrow> series_ok x"
  by (auto simp: mk_data_series_def raising_Inr_iff with_aware_eq_Inr digests_clean series_ok_def)

definition series_py :: "data_series \<Rightarrow> pyval" where
  "series_py x = dataclass_py ''app.strategy_lab_v2.contracts.DataSeriesManifest''
     [(''instrument_id'', PStr (se_instrument_id x)),
      (''event_type'', PStr (se_event_type x)),
      (''event_granularity'', granularity_py (se_event_granularity x)),
      (''timeframe'', PStr (se_timeframe x)),
      (''session'', PStr (se_session x)),
      (''feed'', PStr (se_feed x)),
      (''start'', time_py (se_start x)),
      (''end'', time_py (se_end x)),
      (''adjustment'', adjustment_py (se_adjustment x)),
      (''corporate_action_semantics'', PStr (se_corporate_action_semantics x)),
      (''coverage_evidence_digest'', PStr (se_coverage_evidence_digest x)),
      (''content_digest'', PStr (se_content_digest x)),
      (''row_count'', PInt (se_row_count x))]"

record etf_membership =
  em_etf_instrument_id :: string
  em_decision_time :: instant
  em_snapshot_id :: int
  em_content_digest :: string

definition mk_etf_membership :: "string \<Rightarrow> datetime \<Rightarrow> int \<Rightarrow> string \<Rightarrow> etf_membership result" where
  "mk_etf_membership instrument_id decision_time snapshot_id content =
     raising [(blank instrument_id, ''etf_instrument_id must not be empty'')]
       (with_aware decision_time ''decision_time must be timezone-aware'' (\<lambda>t.
        raising
          ([(snapshot_id \<le> 0, ''ETF snapshot_id must be a positive integer'')]
           @ digest_checks content ''ETF membership content_digest'')
          (Inr \<lparr>em_etf_instrument_id = instrument_id, em_decision_time = t, em_snapshot_id = snapshot_id,
                em_content_digest = content\<rparr>)))"

definition membership_py :: "etf_membership \<Rightarrow> pyval" where
  "membership_py m = dataclass_py ''app.strategy_lab_v2.contracts.ETFMembershipReference''
     [(''etf_instrument_id'', PStr (em_etf_instrument_id m)),
      (''decision_time'', time_py (em_decision_time m)),
      (''snapshot_id'', PInt (em_snapshot_id m)),
      (''content_digest'', PStr (em_content_digest m))]"

definition membership_key :: "etf_membership \<Rightarrow> string \<times> instant" where
  "membership_key m = (em_etf_instrument_id m, em_decision_time m)"

section \<open>What a decision asks of the series\<close>

text \<open>The dictionary \<open>{item.field: item.substituted_value}\<close>: the last entry of a field counts.\<close>

definition replacement :: "capability_decision \<Rightarrow> string \<Rightarrow> string option" where
  "replacement d field = map_of (rev (map (\<lambda>g. (dg_field g, dg_substituted_value g)) (cd_degradations d))) field"

definition replaced :: "capability_decision \<Rightarrow> string \<Rightarrow> string \<Rightarrow> string" where
  "replaced d field fallback = (case replacement d field of None \<Rightarrow> fallback | Some v \<Rightarrow> v)"

definition series_matches :: "capability_decision \<Rightarrow> data_series \<Rightarrow> bool" where
  "series_matches d x \<longleftrightarrow> (let q = cd_requirement d
     in se_instrument_id x = cq_instrument_id q
        \<and> granularity_value (se_event_granularity x) = replaced d ''event_granularity'' (granularity_value (cq_event_granularity q))
        \<and> se_event_type x = replaced d ''event_type'' (cq_event_type q)
        \<and> se_timeframe x = replaced d ''timeframe'' (cq_timeframe q)
        \<and> adjustment_value (se_adjustment x) = replaced d ''adjustment'' (adjustment_value (cq_adjustment q))
        \<and> se_session x = replaced d ''session'' (cq_session q)
        \<and> se_feed x = replaced d ''feed'' (cq_feed q)
        \<and> se_corporate_action_semantics x = replaced d ''corporate_action_semantics'' (cq_corporate_action_semantics q))"

definition history_bound :: "(string \<Rightarrow> datetime result) \<Rightarrow> capability_decision \<Rightarrow> string \<Rightarrow> instant \<Rightarrow> datetime result" where
  "history_bound fromisoformat d field fallback =
     (case replacement d field of None \<Rightarrow> Inr (utc fallback) | Some v \<Rightarrow> fromisoformat (replace_zulu v))"

definition effective_history :: "(string \<Rightarrow> datetime result) \<Rightarrow> capability_decision \<Rightarrow> (instant \<times> instant) result" where
  "effective_history fromisoformat d =
     rbind (history_bound fromisoformat d ''history_start'' (cq_start (cd_requirement d))) (\<lambda>start.
     rbind (history_bound fromisoformat d ''history_end'' (cq_end (cd_requirement d))) (\<lambda>stop.
     with_aware start ''effective_start must be timezone-aware'' (\<lambda>s.
     with_aware stop ''effective_end must be timezone-aware'' (\<lambda>e.
     raising [(s \<ge> e, ''effective preflight history must be a positive interval'')] (Inr (s, e))))))"

section \<open>Coverage of one decision\<close>

definition candidate_series :: "capability_decision \<Rightarrow> instant \<Rightarrow> instant \<Rightarrow> data_series list \<Rightarrow> (nat \<times> data_series) list" where
  "candidate_series d s e series =
     filter (\<lambda>(index, x). series_matches d x \<and> se_start x < e \<and> se_end x > s) (List.enumerate 0 series)"

definition ordered_candidates :: "(nat \<times> data_series) list \<Rightarrow> (nat \<times> data_series) list" where
  "ordered_candidates candidates = sort_key (\<lambda>(index, x). (se_start x, se_end x)) candidates"

fun coverage_overlaps :: "instant option \<Rightarrow> (nat \<times> data_series) list \<Rightarrow> bool" where
  "coverage_overlaps previous_end [] = False"
| "coverage_overlaps previous_end ((index, x) # xs) \<longleftrightarrow>
     (case previous_end of None \<Rightarrow> False | Some p \<Rightarrow> se_start x < p) \<or> coverage_overlaps (Some (se_end x)) xs"

fun cover_loop :: "instant \<Rightarrow> (nat \<times> data_series) list \<Rightarrow> instant \<Rightarrow> nat set \<Rightarrow> instant \<times> nat set" where
  "cover_loop effective_end [] cursor matched = (cursor, matched)"
| "cover_loop effective_end ((index, x) # xs) cursor matched =
     (if se_end x \<le> cursor then cover_loop effective_end xs cursor matched
      else if se_start x > cursor then (cursor, matched)
      else let cursor' = max cursor (se_end x); matched' = insert index matched
           in if cursor' \<ge> effective_end then (cursor', matched') else cover_loop effective_end xs cursor' matched')"

definition cover_decision ::
  "(string \<Rightarrow> datetime result) \<Rightarrow> data_series list \<Rightarrow> capability_decision \<Rightarrow> nat set \<Rightarrow> nat set result" where
  "cover_decision fromisoformat series d matched =
     rbind (effective_history fromisoformat d) (\<lambda>(s, e).
       let ordered = ordered_candidates (candidate_series d s e series)
       in raising [(coverage_overlaps None ordered, ''frozen snapshot contains overlapping series coverage'')]
            (case cover_loop e ordered s matched of (cursor, matched') \<Rightarrow>
               raising [(cursor < e, ''frozen snapshot does not cover preflight requirement for ''
                           @ cq_instrument_id (cd_requirement d) @ '' ''
                           @ replaced d ''timeframe'' (cq_timeframe (cd_requirement d)))]
                 (Inr matched')))"

fun snapshot_loop ::
  "(string \<Rightarrow> datetime result) \<Rightarrow> data_series list \<Rightarrow> capability_decision list \<Rightarrow> nat set \<Rightarrow> nat set result" where
  "snapshot_loop fromisoformat series [] matched = Inr matched"
| "snapshot_loop fromisoformat series (d # ds) matched =
     rbind (cover_decision fromisoformat series d matched) (snapshot_loop fromisoformat series ds)"

section \<open>Snapshots\<close>

record data_snapshot =
  sp_snapshot_id :: string
  sp_provider_snapshot_id :: string
  sp_preflight_report :: preflight_report
  sp_series :: "data_series list"
  sp_created_at :: instant
  sp_etf_memberships :: "etf_membership list"

definition series_identity ::
  "data_series \<Rightarrow> string \<times> string \<times> event_granularity \<times> string \<times> string \<times> string \<times> adjustment_mode \<times> string \<times> string
     \<times> instant \<times> instant" where
  "series_identity x =
     (se_instrument_id x, se_event_type x, se_event_granularity x, se_timeframe x, se_session x, se_feed x, se_adjustment x,
      se_corporate_action_semantics x, se_coverage_evidence_digest x, se_start x, se_end x)"

definition series_key ::
  "data_series \<Rightarrow> string \<times> string \<times> string \<times> string \<times> string \<times> string \<times> string \<times> string \<times> instant \<times> instant \<times> string
     \<times> string \<times> int" where
  "series_key x =
     (se_instrument_id x, se_event_type x, granularity_value (se_event_granularity x), se_timeframe x, se_session x,
      se_feed x, se_corporate_action_semantics x, adjustment_value (se_adjustment x), se_start x, se_end x,
      se_coverage_evidence_digest x, se_content_digest x, se_row_count x)"

definition mk_data_snapshot ::
  "(string \<Rightarrow> datetime result) \<Rightarrow> string \<Rightarrow> string \<Rightarrow> preflight_report \<Rightarrow> data_series list \<Rightarrow> datetime \<Rightarrow> etf_membership list
     \<Rightarrow> data_snapshot result" where
  "mk_data_snapshot fromisoformat snapshot_id provider_id report series created_at memberships =
     raising
       [(blank snapshot_id, ''snapshot_id must not be empty''),
        (blank provider_id, ''provider_snapshot_id must not be empty''),
        (report_classification report = Preflight_UNSUPPORTED,
           ''unsupported preflight reports cannot freeze a data snapshot'')]
       (with_aware created_at ''created_at must be timezone-aware'' (\<lambda>created.
        raising
          [(series = [], ''a frozen data snapshot must contain at least one series''),
           (\<not> distinct (map membership_key memberships), ''ETF membership selectors must be unique in a frozen snapshot''),
           (\<not> distinct (map series_identity series), ''data snapshot series keys must be unique'')]
          (let ordered = sort_key series_key series
           in rbind (snapshot_loop fromisoformat ordered (pr_decisions report) {}) (\<lambda>matched.
                raising
                  [(card matched \<noteq> length ordered, ''frozen snapshot contains series outside its preflight requirements'')]
                  (Inr \<lparr>sp_snapshot_id = snapshot_id, sp_provider_snapshot_id = provider_id, sp_preflight_report = report,
                        sp_series = ordered, sp_created_at = created,
                        sp_etf_memberships = sort_key membership_key memberships\<rparr>)))))"

definition snapshot_fingerprint :: "data_snapshot \<Rightarrow> string" where
  "snapshot_fingerprint p = digest (PMapping
     ([(''capability_contract_digest'', PStr (pr_fingerprint (sp_preflight_report p))),
       (''series'', PTuple (map series_py (sp_series p)))]
      @ (if sp_etf_memberships p = [] then []
         else [(''etf_memberships'', PTuple (map membership_py (sp_etf_memberships p)))])))"

lemma encodable_snapshot_parts [simp]: "encodable (series_py x)" "encodable (membership_py m)"
  by (simp_all add: series_py_def membership_py_def granularity_py_def adjustment_py_def)

lemma snapshot_fingerprint_digest [simp]: "is_digest (snapshot_fingerprint p)"
  by (simp add: snapshot_fingerprint_def is_digest_digest list_all_iff)

section \<open>Intervals that cover a history\<close>

definition holds_at :: "data_series \<Rightarrow> instant \<Rightarrow> bool" where
  "holds_at x t \<longleftrightarrow> se_start x \<le> t \<and> t < se_end x"

definition in_turn :: "(nat \<times> data_series) list \<Rightarrow> bool" where
  "in_turn xs \<longleftrightarrow> sorted_wrt (\<lambda>p q. se_end (snd p) \<le> se_start (snd q)) xs"

lemma overlaps_after:
  "\<forall>p \<in> set xs. se_start (snd p) < se_end (snd p) \<Longrightarrow>
   \<not> coverage_overlaps (Some e) xs \<longleftrightarrow> in_turn xs \<and> (\<forall>p \<in> set xs. e \<le> se_start (snd p))"
proof (induction xs arbitrary: e)
  case (Cons p xs)
  then have "\<not> coverage_overlaps (Some (se_end (snd p))) xs \<longleftrightarrow> in_turn xs \<and> (\<forall>q \<in> set xs. se_end (snd p) \<le> se_start (snd q))"
    by simp
  with Cons.prems show ?case by (cases p) (force simp: in_turn_def)
qed (simp add: in_turn_def)

lemma overlaps_iff:
  assumes "\<forall>p \<in> set xs. se_start (snd p) < se_end (snd p)"
  shows "\<not> coverage_overlaps None xs \<longleftrightarrow> in_turn xs"
proof (cases xs)
  case (Cons p ps)
  then show ?thesis using overlaps_after [of ps "se_end (snd p)"] assms by (cases p) (auto simp: in_turn_def)
qed (simp add: in_turn_def)

lemma cover_loop_exact:
  assumes "in_turn xs" "\<forall>p \<in> set xs. se_start (snd p) < se_end (snd p) \<and> cursor < se_end (snd p) \<and> se_start (snd p) < e"
    and "cursor < e" "cover_loop e xs cursor matched = (cursor', matched')"
  shows "(e \<le> cursor' \<longleftrightarrow> (\<forall>t. cursor \<le> t \<and> t < e \<longrightarrow> (\<exists>p \<in> set xs. holds_at (snd p) t)))
    \<and> (e \<le> cursor' \<longrightarrow> matched' = matched \<union> fst ` set xs)"
  using assms
proof (induction xs arbitrary: cursor matched)
  case Nil
  then show ?case by (auto intro!: exI [of _ cursor])
next
  case (Cons p xs)
  obtain i x where p: "p = (i, x)" by (cases p)
  have x: "se_start x < se_end x" "cursor < se_end x" "se_start x < e" using Cons.prems(2) p by auto
  have later: "\<forall>q \<in> set xs. se_end x \<le> se_start (snd q)" and turn: "in_turn xs" using Cons.prems(1) p by (auto simp: in_turn_def)
  consider (gap) "cursor < se_start x" | (last) "se_start x \<le> cursor" "e \<le> se_end x" | (more) "se_start x \<le> cursor" "se_end x < e"
    by linarith
  then show ?case
  proof cases
    case gap
    then have "\<not> holds_at (snd q) cursor" if "q \<in> set (p # xs)" for q
      using that later x by (auto simp: p holds_at_def)
    moreover have "cursor' = cursor" using Cons.prems(4) gap x by (simp add: p)
    moreover have "cursor \<le> cursor" by simp
    ultimately have "\<not> e \<le> cursor'"
      and "\<not> (\<forall>t. cursor \<le> t \<and> t < e \<longrightarrow> (\<exists>q \<in> set (p # xs). holds_at (snd q) t))"
      using Cons.prems(3) by (simp, blast)
    then show ?thesis by blast
  next
    case last
    then have "xs = []" using later Cons.prems(2) by (cases xs) auto
    with last x Cons.prems(4) show ?thesis by (auto simp: p holds_at_def)
  next
    case more
    then have step: "cover_loop e xs (se_end x) (insert i matched) = (cursor', matched')" using Cons.prems(4) x by (simp add: p max_def)
    have "\<forall>q \<in> set xs. se_start (snd q) < se_end (snd q) \<and> se_end x < se_end (snd q) \<and> se_start (snd q) < e"
      using later Cons.prems(2) by fastforce
    note IH = Cons.IH [OF turn this more(2) step]
    moreover have "(\<forall>t. se_end x \<le> t \<and> t < e \<longrightarrow> (\<exists>q \<in> set xs. holds_at (snd q) t))
        \<longleftrightarrow> (\<forall>t. cursor \<le> t \<and> t < e \<longrightarrow> (\<exists>q \<in> set (p # xs). holds_at (snd q) t))"
    proof
      assume "\<forall>t. se_end x \<le> t \<and> t < e \<longrightarrow> (\<exists>q \<in> set xs. holds_at (snd q) t)"
      moreover have "holds_at (snd p) t" if "cursor \<le> t" "\<not> se_end x \<le> t" for t
        using that more by (simp add: p holds_at_def)
      ultimately show "\<forall>t. cursor \<le> t \<and> t < e \<longrightarrow> (\<exists>q \<in> set (p # xs). holds_at (snd q) t)"
        by (metis list.set_intros)
    next
      assume all: "\<forall>t. cursor \<le> t \<and> t < e \<longrightarrow> (\<exists>q \<in> set (p # xs). holds_at (snd q) t)"
      have "\<not> holds_at (snd p) t" if "se_end x \<le> t" for t using that by (simp add: p holds_at_def)
      moreover have "cursor \<le> t" if "se_end x \<le> t" for t using that x by simp
      ultimately show "\<forall>t. se_end x \<le> t \<and> t < e \<longrightarrow> (\<exists>q \<in> set xs. holds_at (snd q) t)"
        using all by (metis set_ConsD)
    qed
    ultimately show ?thesis by (auto simp: p)
  qed
qed

lemma in_turn_iff:
  assumes "sorted (map (\<lambda>p. se_start (snd p)) xs)" "distinct xs" "s < e"
    and "\<forall>p \<in> set xs. se_start (snd p) < se_end (snd p) \<and> s < se_end (snd p) \<and> se_start (snd p) < e"
  shows "in_turn xs \<longleftrightarrow> (\<forall>t p q. s \<le> t \<and> t < e \<and> p \<in> set xs \<and> q \<in> set xs \<and> holds_at (snd p) t \<and> holds_at (snd q) t \<longrightarrow> p = q)"
proof
  assume turn: "in_turn xs"
  show "\<forall>t p q. s \<le> t \<and> t < e \<and> p \<in> set xs \<and> q \<in> set xs \<and> holds_at (snd p) t \<and> holds_at (snd q) t \<longrightarrow> p = q"
  proof (intro allI impI, elim conjE)
    fix t p q
    assume pq: "p \<in> set xs" "q \<in> set xs" "holds_at (snd p) t" "holds_at (snd q) t"
    then obtain i j where ij: "i < length xs" "j < length xs" "p = xs ! i" "q = xs ! j" by (auto simp: in_set_conv_nth)
    with turn pq(3,4) show "p = q"
      by (cases i j rule: linorder_cases) (fastforce simp: in_turn_def sorted_wrt_iff_nth_less holds_at_def)+
  qed
next
  assume once: "\<forall>t p q. s \<le> t \<and> t < e \<and> p \<in> set xs \<and> q \<in> set xs \<and> holds_at (snd p) t \<and> holds_at (snd q) t \<longrightarrow> p = q"
  show "in_turn xs"
    unfolding in_turn_def sorted_wrt_iff_nth_less
  proof (intro allI impI, rule ccontr)
    fix i j
    assume ij: "i < j" "j < length xs" "\<not> se_end (snd (xs ! i)) \<le> se_start (snd (xs ! j))"
    let ?t = "max (se_start (snd (xs ! j))) s"
    have mem: "xs ! i \<in> set xs" "xs ! j \<in> set xs" using ij by auto
    have "se_start (snd (xs ! i)) \<le> se_start (snd (xs ! j))" using assms(1) ij by (auto simp: sorted_iff_nth_mono)
    then have "holds_at (snd (xs ! i)) ?t" "holds_at (snd (xs ! j)) ?t" "s \<le> ?t" "?t < e"
      using assms(3,4) mem ij(3) by (auto simp: holds_at_def)
    then have "xs ! i = xs ! j" using once mem by blast
    then show False using assms(2) ij by (simp add: nth_eq_iff_index_eq)
  qed
qed


section \<open>Decisions covered exactly once\<close>

definition asked :: "capability_decision \<Rightarrow> instant \<Rightarrow> instant \<Rightarrow> data_series \<Rightarrow> bool" where
  "asked d s e x \<longleftrightarrow> series_matches d x \<and> se_start x < e \<and> s < se_end x"

definition covered_once :: "data_series list \<Rightarrow> capability_decision \<Rightarrow> instant \<Rightarrow> instant \<Rightarrow> bool" where
  "covered_once series d s e \<longleftrightarrow>
     (\<forall>t. s \<le> t \<and> t < e \<longrightarrow> (\<exists>!i. i < length series \<and> series_matches d (series ! i) \<and> holds_at (series ! i) t))"

lemma set_ordered_candidates:
  "set (ordered_candidates (candidate_series d s e series)) = {(i, series ! i) |i. i < length series \<and> asked d s e (series ! i)}"
  by (auto simp: ordered_candidates_def candidate_series_def asked_def in_set_enumerate_eq)

lemma sorted_ordered_candidates: "sorted (map (\<lambda>p. se_start (snd p)) (ordered_candidates cs))"
proof -
  have "sorted (map (\<lambda>(index, x). (se_start x, se_end x)) (ordered_candidates cs))" by (simp add: ordered_candidates_def)
  then show ?thesis by (auto simp: sorted_map case_prod_beta intro: sorted_wrt_mono_rel [rotated])
qed

lemma distinct_ordered_candidates: "distinct (ordered_candidates (candidate_series d s e series))"
  by (simp add: ordered_candidates_def candidate_series_def distinct_enumerate)

lemma effective_history_positive: "effective_history f d = Inr (s, e) \<Longrightarrow> s < e"
  by (auto simp: effective_history_def raising_Inr_iff with_aware_eq_Inr)

lemma unique_pair:
  assumes "\<And>p. p \<in> A \<and> H p \<longleftrightarrow> P (fst p) \<and> p = (fst p, g (fst p))"
  shows "(\<exists>!i. P i) \<longleftrightarrow> (\<exists>p \<in> A. H p) \<and> (\<forall>p q. p \<in> A \<and> q \<in> A \<and> H p \<and> H q \<longrightarrow> p = q)"
proof -
  have "(\<exists>p \<in> A. H p) \<longleftrightarrow> (\<exists>i. P i)" unfolding Bex_def assms by (metis fst_conv)
  moreover have "(\<forall>p q. p \<in> A \<and> q \<in> A \<and> H p \<and> H q \<longrightarrow> p = q) \<longleftrightarrow> (\<forall>i j. P i \<and> P j \<longrightarrow> i = j)"
    using assms by (metis fst_conv)
  ultimately show ?thesis by blast
qed

lemma covered_once_iff:
  fixes d s e series
  defines "xs \<equiv> ordered_candidates (candidate_series d s e series)"
  assumes "s < e" "\<forall>x \<in> set series. se_start x < se_end x"
  shows "covered_once series d s e \<longleftrightarrow> in_turn xs \<and> (\<forall>t. s \<le> t \<and> t < e \<longrightarrow> (\<exists>p \<in> set xs. holds_at (snd p) t))"
proof -
  have mem: "p \<in> set xs \<and> holds_at (snd p) t \<longleftrightarrow>
      (fst p < length series \<and> series_matches d (series ! fst p) \<and> holds_at (series ! fst p) t) \<and> p = (fst p, series ! fst p)"
    if "s \<le> t" "t < e" for p t
    using that by (cases p) (auto simp: xs_def set_ordered_candidates asked_def holds_at_def)
  have "in_turn xs \<longleftrightarrow> (\<forall>t p q. s \<le> t \<and> t < e \<and> p \<in> set xs \<and> q \<in> set xs \<and> holds_at (snd p) t \<and> holds_at (snd q) t \<longrightarrow> p = q)"
    by (rule in_turn_iff)
      (use assms in \<open>auto simp: xs_def sorted_ordered_candidates distinct_ordered_candidates set_ordered_candidates asked_def\<close>)
  moreover have uniq: "(\<exists>!i. i < length series \<and> series_matches d (series ! i) \<and> holds_at (series ! i) t)
      \<longleftrightarrow> (\<exists>p \<in> set xs. holds_at (snd p) t) \<and> (\<forall>p q. p \<in> set xs \<and> q \<in> set xs \<and> holds_at (snd p) t \<and> holds_at (snd q) t \<longrightarrow> p = q)"
    if "s \<le> t" "t < e" for t
    by (rule unique_pair) (rule mem [OF that])
  moreover have "covered_once series d s e \<longleftrightarrow>
      (\<forall>t. s \<le> t \<and> t < e \<longrightarrow> (\<exists>p \<in> set xs. holds_at (snd p) t)
        \<and> (\<forall>p q. p \<in> set xs \<and> q \<in> set xs \<and> holds_at (snd p) t \<and> holds_at (snd q) t \<longrightarrow> p = q))"
    unfolding covered_once_def using uniq by (simp cong: imp_cong conj_cong)
  ultimately show ?thesis by meson
qed

lemma cover_decision_exact:
  assumes "\<forall>x \<in> set series. se_start x < se_end x"
  shows "cover_decision f series d matched = Inr matched' \<longleftrightarrow>
    (\<exists>s e. effective_history f d = Inr (s, e) \<and> covered_once series d s e
       \<and> matched' = matched \<union> {i. i < length series \<and> asked d s e (series ! i)})"
proof (cases "effective_history f d")
  case (Inr h)
  obtain s e where h: "h = (s, e)" by (cases h)
  define xs where "xs = ordered_candidates (candidate_series d s e series)"
  obtain cursor' m where loop: "cover_loop e xs s matched = (cursor', m)" by fastforce
  have se: "s < e" using Inr h by (simp add: effective_history_positive)
  have pos: "\<forall>p \<in> set xs. se_start (snd p) < se_end (snd p) \<and> s < se_end (snd p) \<and> se_start (snd p) < e"
    using assms by (auto simp: xs_def set_ordered_candidates asked_def)
  have ids: "fst ` set xs = {i. i < length series \<and> asked d s e (series ! i)}"
    by (force simp: xs_def set_ordered_candidates)
  have "\<not> coverage_overlaps None xs \<longleftrightarrow> in_turn xs" using pos by (intro overlaps_iff) blast
  moreover have "covered_once series d s e \<longleftrightarrow> in_turn xs \<and> (\<forall>t. s \<le> t \<and> t < e \<longrightarrow> (\<exists>p \<in> set xs. holds_at (snd p) t))"
    unfolding xs_def by (rule covered_once_iff [OF se assms])
  moreover note cover_loop_exact [OF _ pos se loop]
  ultimately show ?thesis
    using Inr h loop ids by (auto simp: cover_decision_def raising_Inr_iff xs_def [symmetric] Let_def)
qed (simp add: cover_decision_def)

lemma snapshot_loop_exact:
  assumes "\<forall>x \<in> set series. se_start x < se_end x"
  shows "snapshot_loop f series ds matched = Inr matched' \<longleftrightarrow>
    (\<forall>d \<in> set ds. \<exists>s e. effective_history f d = Inr (s, e) \<and> covered_once series d s e)
    \<and> matched' = matched \<union> {i. i < length series \<and> (\<exists>d \<in> set ds. \<exists>s e. effective_history f d = Inr (s, e) \<and> asked d s e (series ! i))}"
proof (induction ds arbitrary: matched)
  case (Cons d ds)
  show ?case
    unfolding snapshot_loop.simps rbind_eq_Inr cover_decision_exact [OF assms] Cons.IH by auto
qed auto

lemma unique_index:
  assumes "distinct xs"
  shows "(\<exists>!i. i < length xs \<and> P (xs ! i)) \<longleftrightarrow> (\<exists>!x. x \<in> set xs \<and> P x)"
proof
  assume "\<exists>!i. i < length xs \<and> P (xs ! i)"
  then obtain i where i: "(i < length xs \<and> P (xs ! i)) \<and> (\<forall>j. j < length xs \<and> P (xs ! j) \<longrightarrow> j = i)"
    unfolding Ex1_def by (rule exE)
  have "y = xs ! i" if y: "y \<in> set xs \<and> P y" for y
  proof -
    obtain j where j: "j < length xs" "y = xs ! j" using y unfolding in_set_conv_nth by blast
    with y i [THEN conjunct2, rule_format, of j] show ?thesis by simp
  qed
  moreover have "xs ! i \<in> set xs \<and> P (xs ! i)" using i [THEN conjunct1] by simp
  ultimately show "\<exists>!x. x \<in> set xs \<and> P x" by (rule ex1I [rotated])
next
  assume "\<exists>!x. x \<in> set xs \<and> P x"
  then obtain x where x: "(x \<in> set xs \<and> P x) \<and> (\<forall>y. y \<in> set xs \<and> P y \<longrightarrow> y = x)" unfolding Ex1_def by (rule exE)
  then have "x \<in> set xs" by blast
  then obtain i where i: "i < length xs" "x = xs ! i" unfolding in_set_conv_nth by blast
  have "j = i" if "j < length xs \<and> P (xs ! j)" for j
    using x [THEN conjunct2, rule_format, of "xs ! j"] that i assms by (simp add: nth_eq_iff_index_eq)
  moreover have "i < length xs \<and> P (xs ! i)" using x [THEN conjunct1] i by simp
  ultimately show "\<exists>!i. i < length xs \<and> P (xs ! i)" by (rule ex1I [rotated])
qed

lemma every_index: "card {i. i < length xs \<and> P (xs ! i)} = length xs \<longleftrightarrow> (\<forall>x \<in> set xs. P x)"
proof
  assume card: "card {i. i < length xs \<and> P (xs ! i)} = length xs"
  have "{i. i < length xs \<and> P (xs ! i)} \<subseteq> {..<length xs}" by auto
  from card_subset_eq [OF _ this] have "{i. i < length xs \<and> P (xs ! i)} = {..<length xs}" using card by simp
  then have "\<forall>i < length xs. P (xs ! i)" by blast
  then show "\<forall>x \<in> set xs. P x" by (simp add: all_set_conv_all_nth)
next
  assume "\<forall>x \<in> set xs. P x"
  then have "{i. i < length xs \<and> P (xs ! i)} = {..<length xs}" by auto
  then show "card {i. i < length xs \<and> P (xs ! i)} = length xs" by simp
qed

lemma snapshot_loop_accepts:
  assumes "distinct series" "\<forall>x \<in> set series. series_ok x"
  shows "(\<exists>m. snapshot_loop f (sort_key series_key series) ds {} = Inr m \<and> card m = length series) \<longleftrightarrow>
    (\<forall>d \<in> set ds. \<exists>s e. effective_history f d = Inr (s, e)
       \<and> (\<forall>t. s \<le> t \<and> t < e \<longrightarrow> (\<exists>!x. x \<in> set series \<and> series_matches d x \<and> holds_at x t)))
    \<and> (\<forall>x \<in> set series. \<exists>d \<in> set ds. \<exists>s e. effective_history f d = Inr (s, e) \<and> asked d s e x)"
proof -
  let ?xs = "sort_key series_key series"
  have pos: "\<forall>x \<in> set ?xs. se_start x < se_end x" using assms(2) by (simp add: series_ok_def)
  have "distinct ?xs" using assms(1) by simp
  then have "(\<exists>!i. i < length ?xs \<and> series_matches d (?xs ! i) \<and> holds_at (?xs ! i) t)
      \<longleftrightarrow> (\<exists>!x. x \<in> set series \<and> series_matches d x \<and> holds_at x t)" for d t
    using unique_index [of ?xs "\<lambda>x. series_matches d x \<and> holds_at x t"] by simp
  then have once: "covered_once ?xs d s e \<longleftrightarrow> (\<forall>t. s \<le> t \<and> t < e \<longrightarrow> (\<exists>!x. x \<in> set series \<and> series_matches d x \<and> holds_at x t))"
    for d s e unfolding covered_once_def by (simp only:)
  have "card {i. i < length ?xs \<and> (\<exists>d \<in> set ds. \<exists>s e. effective_history f d = Inr (s, e) \<and> asked d s e (?xs ! i))} = length series
      \<longleftrightarrow> (\<forall>x \<in> set series. \<exists>d \<in> set ds. \<exists>s e. effective_history f d = Inr (s, e) \<and> asked d s e x)"
    using every_index [of ?xs "\<lambda>x. \<exists>d \<in> set ds. \<exists>s e. effective_history f d = Inr (s, e) \<and> asked d s e x"] by simp
  then show ?thesis unfolding snapshot_loop_exact [OF pos] once by simp
qed

lemma snapshot_facts:
  assumes "mk_data_snapshot f sid pid report series created ms = Inr p"
  shows "sp_preflight_report p = report"
    and "\<forall>x \<in> set series. series_ok x \<Longrightarrow> d \<in> set (pr_decisions report) \<Longrightarrow>
      \<exists>s e. effective_history f d = Inr (s, e)
        \<and> (\<forall>t. s \<le> t \<and> t < e \<longrightarrow> (\<exists>!x. x \<in> set series \<and> series_matches d x \<and> holds_at x t))"
proof -
  show "sp_preflight_report p = report" using assms by (auto simp: mk_data_snapshot_def raising_Inr_iff with_aware_eq_Inr Let_def)
  assume ok: "\<forall>x \<in> set series. series_ok x" and d: "d \<in> set (pr_decisions report)"
  have "distinct series"
    and "\<exists>m. snapshot_loop f (sort_key series_key series) (pr_decisions report) {} = Inr m \<and> card m = length series"
    using assms by (auto simp: mk_data_snapshot_def raising_Inr_iff with_aware_eq_Inr Let_def distinct_map)
  then show "\<exists>s e. effective_history f d = Inr (s, e)
      \<and> (\<forall>t. s \<le> t \<and> t < e \<longrightarrow> (\<exists>!x. x \<in> set series \<and> series_matches d x \<and> holds_at x t))"
    using snapshot_loop_accepts [OF \<open>distinct series\<close> ok, of f] d by blast
qed

text \<open>C22: A frozen snapshot of well-formed series is accepted exactly when its names are filled in, its report is not
  unsupported, its time carries a zone, its series are there and differ in their identity, its membership selectors differ,
  every instant of the effective history of every decision lies in exactly one of the series the decision matches, and every
  series is asked for by some decision: no gap, no overlap and nothing superfluous.\<close>

theorem snapshot_covers_history:
  assumes "\<forall>x \<in> set series. series_ok x"
  shows "(\<exists>p. mk_data_snapshot f snapshot_id provider_id report series created_at memberships = Inr p) \<longleftrightarrow>
    \<not> blank snapshot_id \<and> \<not> blank provider_id \<and> report_classification report \<noteq> Preflight_UNSUPPORTED
    \<and> (\<exists>i z. created_at = Aware i z) \<and> series \<noteq> [] \<and> distinct (map membership_key memberships)
    \<and> distinct (map series_identity series)
    \<and> (\<forall>d \<in> set (pr_decisions report). \<exists>s e. effective_history f d = Inr (s, e)
         \<and> (\<forall>t. s \<le> t \<and> t < e \<longrightarrow> (\<exists>!x. x \<in> set series \<and> series_matches d x \<and> holds_at x t)))
    \<and> (\<forall>x \<in> set series. \<exists>d \<in> set (pr_decisions report). \<exists>s e. effective_history f d = Inr (s, e) \<and> asked d s e x)"
proof (cases "distinct (map series_identity series)")
  case True
  then have "distinct series" by (simp add: distinct_map)
  then show ?thesis
    unfolding snapshot_loop_accepts [OF \<open>distinct series\<close> assms, symmetric]
    by (auto simp: mk_data_snapshot_def raising_Inr_iff with_aware_eq_Inr Let_def)
qed (auto simp: mk_data_snapshot_def raising_Inr_iff with_aware_eq_Inr)

definition sample_series :: "instant \<Rightarrow> instant \<Rightarrow> data_series" where
  "sample_series s e = \<lparr>se_instrument_id = ''AAPL'', se_event_type = ''bar'', se_event_granularity = Granularity_BAR,
     se_timeframe = ''1d'', se_session = ''regular'', se_feed = ''sip'', se_start = s, se_end = e, se_adjustment = Adjust_RAW,
     se_corporate_action_semantics = ''split'', se_coverage_evidence_digest = ''sha256:'' @ replicate 64 CHR ''1'',
     se_content_digest = ''sha256:'' @ replicate 64 CHR ''0'', se_row_count = 5\<rparr>"

definition sample_report :: preflight_report where
  "sample_report = \<lparr>pr_decisions = [\<lparr>cd_requirement = sample_requirement ''1d'', cd_classification = Preflight_RIGOROUS,
       cd_evidence_digest = None, cd_gaps = [], cd_degradations = [], cd_ranking_eligible = True\<rparr>],
     pr_fingerprint = ''sha256:'' @ replicate 64 CHR ''0'', pr_allow_degraded = False, pr_degradations = []\<rparr>"

lemma sample_series_ok: "s < e \<Longrightarrow> series_ok (sample_series s e)"
  by (auto simp: series_ok_def sample_series_def is_digest_def digest_prefix_ok_def is_hex_def intro!: int16_ok_hex)

lemma sample_history: "d \<in> set (pr_decisions sample_report) \<Longrightarrow> effective_history f d = Inr (10, 20)"
  by (simp add: sample_report_def effective_history_def history_bound_def replacement_def sample_requirement_def
    raising_Inr_iff)

lemma sample_matches: "d \<in> set (pr_decisions sample_report) \<Longrightarrow> series_matches d (sample_series s e)"
  by (simp add: sample_report_def series_matches_def replaced_def replacement_def sample_requirement_def sample_series_def)

lemma sample_holds: "holds_at (sample_series s e) t \<longleftrightarrow> s \<le> t \<and> t < e"
  by (simp add: holds_at_def sample_series_def)

lemma sample_snapshot_accepted:
  "\<exists>p. mk_data_snapshot f ''snap'' ''prov'' sample_report [sample_series 10 20] (Aware 30 0) [] = Inr p
     \<and> sp_preflight_report p = sample_report \<and> sp_series p = [sample_series 10 20]"
proof -
  obtain d where d: "pr_decisions sample_report = [d]" by (simp add: sample_report_def)
  then have m: "d \<in> set (pr_decisions sample_report)" by simp
  have "cover_decision f [sample_series 10 20] d {} = Inr {0}"
    by (simp add: cover_decision_def sample_history [OF m] candidate_series_def sample_matches [OF m] ordered_candidates_def
        raising.simps) (simp add: sample_series_def raising.simps)
  moreover have "report_classification sample_report \<noteq> Preflight_UNSUPPORTED"
    by (simp add: sample_report_def report_classification_def)
  ultimately show ?thesis
    by (simp add: mk_data_snapshot_def d raising_Inr_iff blank_iff py_space_def)
qed

theorem snapshot_covers_history_witness:
  "(\<exists>p. mk_data_snapshot (\<lambda>v. Inl (ValueError v)) ''snap'' ''prov'' sample_report [sample_series 15 20, sample_series 10 15]
       (Aware 30 0) [] = Inr p)
   \<and> \<not> (\<exists>p. mk_data_snapshot (\<lambda>v. Inl (ValueError v)) ''snap'' ''prov'' sample_report [sample_series 15 20, sample_series 10 14]
       (Aware 30 0) [] = Inr p)"
proof
  let ?f = "\<lambda>v. Inl (ValueError v) :: datetime result"
  let ?a = "sample_series 15 20" and ?b = "sample_series 10 15" and ?c = "sample_series 10 14"
  have "\<exists>!x. x \<in> set [?a, ?b] \<and> series_matches d x \<and> holds_at x t"
    if "d \<in> set (pr_decisions sample_report)" "10 \<le> t" "t < 20" for d t
    by (rule ex1I [of _ "if t < 15 then ?b else ?a"]) (use that in \<open>auto simp: sample_matches sample_holds split: if_splits\<close>)
  moreover have "asked d 10 20 x" if "d \<in> set (pr_decisions sample_report)" "x \<in> set [?a, ?b]" for d x
    using that by (auto simp: asked_def sample_matches) (simp_all add: sample_series_def)
  moreover have "pr_decisions sample_report \<noteq> []" "report_classification sample_report \<noteq> Preflight_UNSUPPORTED"
    by (simp_all add: sample_report_def report_classification_def)
  moreover have "distinct (map series_identity [?a, ?b])" by (simp add: series_identity_def sample_series_def)
  ultimately show "\<exists>p. mk_data_snapshot ?f ''snap'' ''prov'' sample_report [?a, ?b] (Aware 30 0) [] = Inr p"
    by (subst snapshot_covers_history) (auto simp: sample_series_ok sample_history blank_iff py_space_def neq_Nil_conv)
  have gap: "\<not> (\<exists>!x. x \<in> set [?a, ?c] \<and> series_matches d x \<and> holds_at x 14)" for d by (auto simp: sample_holds)
  obtain d where d: "d \<in> set (pr_decisions sample_report)" by (auto simp: sample_report_def)
  have "\<not> (\<exists>s e. effective_history ?f d = Inr (s, e)
      \<and> (\<forall>t. s \<le> t \<and> t < e \<longrightarrow> (\<exists>!x. x \<in> set [?a, ?c] \<and> series_matches d x \<and> holds_at x t)))"
  proof (intro notI, elim exE conjE)
    fix s e
    assume h: "effective_history ?f d = Inr (s, e)"
      and once: "\<forall>t. s \<le> t \<and> t < e \<longrightarrow> (\<exists>!x. x \<in> set [?a, ?c] \<and> series_matches d x \<and> holds_at x t)"
    have "s \<le> 14 \<and> 14 < e" using h sample_history [OF d, of ?f] by simp
    with once show False using gap [of d] by blast
  qed
  moreover have "\<forall>x \<in> set [?a, ?c]. series_ok x" by (simp add: sample_series_ok)
  ultimately show "\<not> (\<exists>p. mk_data_snapshot ?f ''snap'' ''prov'' sample_report [?a, ?c] (Aware 30 0) [] = Inr p)"
    using snapshot_covers_history [of "[?a, ?c]" ?f] d by blast
qed

end
