(* ===== verification/Coverage.thy ===== *)
theory Coverage
  imports Data_Snapshots
begin

text \<open>
  \<open>src/backend/app/strategy_lab_v2/coverage.py\<close> and \<open>snapshot_coverage.py\<close>: the gate between a frozen snapshot and the
  coverage claims of a provider. A snapshot is verified only when every series has exactly one attestation, agreeing with
  it in every dimension and claiming a complete history without gaps.
\<close>

section \<open>Attestations\<close>

record coverage_attestation =
  cv_evidence_digest :: string
  cv_series_content_digest :: string
  cv_instrument_id :: string
  cv_event_type :: string
  cv_event_granularity :: event_granularity
  cv_timeframe :: string
  cv_session :: string
  cv_feed :: string
  cv_adjustment :: adjustment_mode
  cv_corporate_action_semantics :: string
  cv_start :: instant
  cv_end :: instant
  cv_row_count :: int
  cv_calendar_digest :: string
  cv_complete :: bool
  cv_gap_free :: bool
  cv_provider_adapter :: string
  cv_attested_at :: instant

definition mk_coverage_attestation ::
  "string \<Rightarrow> string \<Rightarrow> string \<Rightarrow> string \<Rightarrow> event_granularity \<Rightarrow> string \<Rightarrow> string \<Rightarrow> string \<Rightarrow> adjustment_mode \<Rightarrow> string
     \<Rightarrow> datetime \<Rightarrow> datetime \<Rightarrow> int \<Rightarrow> string \<Rightarrow> bool \<Rightarrow> bool \<Rightarrow> string \<Rightarrow> datetime \<Rightarrow> coverage_attestation result" where
  "mk_coverage_attestation evidence content instrument_id event_type granularity timeframe session feed adjustment corporate
       start stop row_count calendar complete gap_free adapter attested_at =
     raising
       (digest_checks evidence ''evidence_digest'' @ digest_checks content ''series_content_digest''
        @ digest_checks calendar ''calendar_digest''
        @ [(blank instrument_id, ''instrument_id must not be empty''),
           (blank event_type, ''event_type must not be empty''),
           (blank timeframe, ''timeframe must not be empty''),
           (blank session, ''session must not be empty''),
           (blank feed, ''feed must not be empty''),
           (blank corporate, ''corporate_action_semantics must not be empty''),
           (blank adapter, ''provider_adapter must not be empty'')])
       (with_aware start ''start must be timezone-aware'' (\<lambda>s.
        with_aware stop ''end must be timezone-aware'' (\<lambda>e.
        raising
          [(s \<ge> e, ''coverage start must be earlier than end''),
           (row_count \<le> 0, ''coverage row_count must be a positive integer'')]
          (with_aware attested_at ''attested_at must be timezone-aware'' (\<lambda>t.
             Inr \<lparr>cv_evidence_digest = evidence, cv_series_content_digest = content, cv_instrument_id = instrument_id,
                  cv_event_type = event_type, cv_event_granularity = granularity, cv_timeframe = timeframe,
                  cv_session = session, cv_feed = feed, cv_adjustment = adjustment,
                  cv_corporate_action_semantics = corporate, cv_start = s, cv_end = e, cv_row_count = row_count,
                  cv_calendar_digest = calendar, cv_complete = complete, cv_gap_free = gap_free,
                  cv_provider_adapter = adapter, cv_attested_at = t\<rparr>)))))"

definition attestation_fingerprint :: "coverage_attestation \<Rightarrow> string" where
  "attestation_fingerprint a = digest (dataclass_py ''app.strategy_lab_v2.coverage.CoverageAttestation''
     [(''evidence_digest'', PStr (cv_evidence_digest a)),
      (''series_content_digest'', PStr (cv_series_content_digest a)),
      (''instrument_id'', PStr (cv_instrument_id a)),
      (''event_type'', PStr (cv_event_type a)),
      (''event_granularity'', granularity_py (cv_event_granularity a)),
      (''timeframe'', PStr (cv_timeframe a)),
      (''session'', PStr (cv_session a)),
      (''feed'', PStr (cv_feed a)),
      (''adjustment'', adjustment_py (cv_adjustment a)),
      (''corporate_action_semantics'', PStr (cv_corporate_action_semantics a)),
      (''start'', time_py (cv_start a)),
      (''end'', time_py (cv_end a)),
      (''row_count'', PInt (cv_row_count a)),
      (''calendar_digest'', PStr (cv_calendar_digest a)),
      (''complete'', PBool (cv_complete a)),
      (''gap_free'', PBool (cv_gap_free a)),
      (''provider_adapter'', PStr (cv_provider_adapter a)),
      (''attested_at'', time_py (cv_attested_at a))])"

section \<open>One series\<close>

datatype coverage_decision = Coverage_VERIFIED | Coverage_REJECTED

record coverage_report =
  cr_decision :: coverage_decision
  cr_manifest_fingerprint :: string
  cr_attestation_fingerprint :: string
  cr_mismatches :: "string list"

definition mk_coverage_report :: "coverage_decision \<Rightarrow> string \<Rightarrow> string \<Rightarrow> string list \<Rightarrow> coverage_report result" where
  "mk_coverage_report decision manifest_fp attestation_fp mismatches =
     raising
       (digest_checks manifest_fp ''manifest_fingerprint'' @ digest_checks attestation_fp ''attestation_fingerprint''
        @ [(list_ex blank mismatches, ''coverage mismatches must contain non-empty strings''),
           (\<not> distinct mismatches, ''coverage mismatches must be unique''),
           (decision = Coverage_VERIFIED \<and> mismatches \<noteq> [], ''verified coverage cannot contain mismatches''),
           (decision = Coverage_REJECTED \<and> mismatches = [], ''rejected coverage requires mismatches'')])
       (Inr \<lparr>cr_decision = decision, cr_manifest_fingerprint = manifest_fp, cr_attestation_fingerprint = attestation_fp,
             cr_mismatches = mismatches\<rparr>)"

definition coverage_comparisons :: "data_series \<Rightarrow> coverage_attestation \<Rightarrow> (string \<times> bool) list" where
  "coverage_comparisons x a =
     [(''evidence_digest'', se_coverage_evidence_digest x \<noteq> cv_evidence_digest a),
      (''series_content_digest'', se_content_digest x \<noteq> cv_series_content_digest a),
      (''instrument_id'', se_instrument_id x \<noteq> cv_instrument_id a),
      (''event_type'', se_event_type x \<noteq> cv_event_type a),
      (''event_granularity'', se_event_granularity x \<noteq> cv_event_granularity a),
      (''timeframe'', se_timeframe x \<noteq> cv_timeframe a),
      (''session'', se_session x \<noteq> cv_session a),
      (''feed'', se_feed x \<noteq> cv_feed a),
      (''adjustment'', se_adjustment x \<noteq> cv_adjustment a),
      (''corporate_action_semantics'', se_corporate_action_semantics x \<noteq> cv_corporate_action_semantics a),
      (''start'', se_start x \<noteq> cv_start a),
      (''end'', se_end x \<noteq> cv_end a),
      (''row_count'', se_row_count x \<noteq> cv_row_count a)]"

definition coverage_mismatches :: "data_series \<Rightarrow> coverage_attestation \<Rightarrow> string list" where
  "coverage_mismatches x a = sorted_list_of_set (set
     (map fst (filter snd (coverage_comparisons x a))
      @ (if cv_complete a then [] else [''coverage_not_complete''])
      @ (if cv_gap_free a then [] else [''coverage_contains_gaps''])))"

definition verify_coverage_attestation :: "data_series \<Rightarrow> coverage_attestation \<Rightarrow> coverage_report result" where
  "verify_coverage_attestation x a =
     (let mismatches = coverage_mismatches x a
      in mk_coverage_report (if mismatches = [] then Coverage_VERIFIED else Coverage_REJECTED) (digest (series_py x))
           (attestation_fingerprint a) mismatches)"

section \<open>A whole snapshot\<close>

datatype snapshot_coverage_decision = SnapshotCoverage_VERIFIED | SnapshotCoverage_REJECTED

record snapshot_coverage =
  sg_decision :: snapshot_coverage_decision
  sg_snapshot_fingerprint :: string
  sg_reports :: "coverage_report list"
  sg_missing_series_digests :: "string list"
  sg_unexpected_series_digests :: "string list"
  sg_rejection_reason :: "string option"

definition mk_snapshot_coverage ::
  "snapshot_coverage_decision \<Rightarrow> string \<Rightarrow> coverage_report list \<Rightarrow> string list \<Rightarrow> string list \<Rightarrow> string option
     \<Rightarrow> snapshot_coverage result" where
  "mk_snapshot_coverage decision fp reports missing unexpected reason =
     raising
       (digest_checks fp ''snapshot_fingerprint''
        @ [(sort_key cr_manifest_fingerprint reports \<noteq> reports, ''coverage reports must be deterministically ordered''),
           (\<not> distinct missing, ''missing_series_digests must contain unique digests'')]
        @ concat (map (\<lambda>d. digest_checks d ''missing_series_digests item'') missing)
        @ [(\<not> distinct unexpected, ''unexpected_series_digests must contain unique digests'')]
        @ concat (map (\<lambda>d. digest_checks d ''unexpected_series_digests item'') unexpected)
        @ (if decision = SnapshotCoverage_VERIFIED then
             [(reports = [] \<or> list_ex (\<lambda>r. cr_decision r \<noteq> Coverage_VERIFIED) reports,
                 ''verified snapshots require a verified report for every series''),
              (missing \<noteq> [] \<or> unexpected \<noteq> [], ''verified snapshots cannot have missing or unexpected series''),
              (\<not> no_reason reason, ''verified snapshots cannot contain a rejection reason'')]
           else [(no_reason reason, ''rejected snapshots require a reason'')]))
       (Inr \<lparr>sg_decision = decision, sg_snapshot_fingerprint = fp, sg_reports = reports,
             sg_missing_series_digests = sort missing, sg_unexpected_series_digests = sort unexpected,
             sg_rejection_reason = reason\<rparr>)"

text \<open>The two collections of the loop over the attestations: the first attestation of a series digest is kept, a further
  one makes the digest a duplicate.\<close>

fun collect_attestations ::
  "coverage_attestation list \<Rightarrow> (string \<times> coverage_attestation) list \<Rightarrow> string set
     \<Rightarrow> (string \<times> coverage_attestation) list \<times> string set" where
  "collect_attestations [] by_series duplicates = (by_series, duplicates)"
| "collect_attestations (a # as) by_series duplicates =
     (case map_of by_series (cv_series_content_digest a) of
        Some prior \<Rightarrow> collect_attestations as by_series (insert (cv_series_content_digest a) duplicates)
      | None \<Rightarrow> collect_attestations as (by_series @ [(cv_series_content_digest a, a)]) duplicates)"

fun verify_each ::
  "(string \<times> data_series) list \<Rightarrow> (string \<times> coverage_attestation) list \<Rightarrow> string list
     \<Rightarrow> (coverage_report list \<times> string list) result" where
  "verify_each series attestations [] = Inr ([], [])"
| "verify_each series attestations (d # ds) =
     rbind (verify_coverage_attestation (the (map_of series d)) (the (map_of attestations d))) (\<lambda>report.
     rbind (verify_each series attestations ds) (\<lambda>(reports, mismatches).
       Inr (report # reports, map (\<lambda>m. d @ '':'' @ m) (cr_mismatches report) @ mismatches)))"

definition verify_snapshot_coverage :: "data_snapshot \<Rightarrow> coverage_attestation list \<Rightarrow> snapshot_coverage result" where
  "verify_snapshot_coverage snapshot attestations =
     (let series_by_digest = map (\<lambda>x. (se_content_digest x, x)) (sp_series snapshot)
      in raising [(\<not> distinct (map fst series_by_digest), ''snapshot series content digests must be unique'')]
           (case collect_attestations attestations [] {} of (by_series, duplicates) \<Rightarrow>
              let expected = set (map fst series_by_digest); observed = set (map fst by_series);
                  missing = expected - observed; unexpected = (observed - expected) \<union> duplicates
              in rbind (verify_each series_by_digest by_series (sorted_list_of_set (expected \<inter> observed)))
                   (\<lambda>(reports, differing).
                     let mismatches = differing @ map (\<lambda>d. ''missing_series:'' @ d) (sorted_list_of_set missing)
                           @ map (\<lambda>d. ''unexpected_series:'' @ d) (sorted_list_of_set unexpected);
                         ordered = sort_key cr_manifest_fingerprint reports
                     in if mismatches \<noteq> []
                        then mk_snapshot_coverage SnapshotCoverage_REJECTED (snapshot_fingerprint snapshot) ordered
                               (sorted_list_of_set missing) (sorted_list_of_set unexpected)
                               (Some (join_str ''; '' (sorted_list_of_set (set mismatches))))
                        else mk_snapshot_coverage SnapshotCoverage_VERIFIED (snapshot_fingerprint snapshot) ordered [] [] None)))"

section \<open>Exactness\<close>

definition attestation_ok :: "coverage_attestation \<Rightarrow> bool" where
  "attestation_ok a \<longleftrightarrow> is_digest (cv_evidence_digest a) \<and> is_digest (cv_series_content_digest a)
     \<and> is_digest (cv_calendar_digest a) \<and> cv_start a < cv_end a \<and> 0 < cv_row_count a"

lemma mk_coverage_attestation_ok:
  "mk_coverage_attestation ev ct i t g tf ss f ad ca b e n cl c gf pr at = Inr a \<Longrightarrow> attestation_ok a"
  by (auto simp: mk_coverage_attestation_def raising_Inr_iff with_aware_eq_Inr digests_clean attestation_ok_def)

definition attests :: "coverage_attestation \<Rightarrow> data_series \<Rightarrow> bool" where
  "attests a x \<longleftrightarrow> cv_complete a \<and> cv_gap_free a
     \<and> x = \<lparr>se_instrument_id = cv_instrument_id a, se_event_type = cv_event_type a,
            se_event_granularity = cv_event_granularity a, se_timeframe = cv_timeframe a, se_session = cv_session a,
            se_feed = cv_feed a, se_start = cv_start a, se_end = cv_end a, se_adjustment = cv_adjustment a,
            se_corporate_action_semantics = cv_corporate_action_semantics a,
            se_coverage_evidence_digest = cv_evidence_digest a, se_content_digest = cv_series_content_digest a,
            se_row_count = cv_row_count a\<rparr>"

lemma coverage_mismatches_Nil: "coverage_mismatches x a = [] \<longleftrightarrow> attests a x"
  by (cases x) (auto simp: coverage_mismatches_def sorted_list_of_set_eq_Nil_iff coverage_comparisons_def attests_def)

lemma coverage_mismatches_ok: "distinct (coverage_mismatches x a)" "\<not> list_ex blank (coverage_mismatches x a)"
proof -
  show "distinct (coverage_mismatches x a)" by (simp add: coverage_mismatches_def)
  have "\<forall>m \<in> fst ` set (coverage_comparisons x a). \<not> blank m"
    by (simp add: coverage_comparisons_def blank_iff py_space_def)
  then show "\<not> list_ex blank (coverage_mismatches x a)"
    by (auto simp: coverage_mismatches_def list_ex_iff blank_iff py_space_def)
qed

definition coverage_outcome :: "data_series \<Rightarrow> coverage_attestation \<Rightarrow> coverage_report" where
  "coverage_outcome x a = \<lparr>cr_decision = (if attests a x then Coverage_VERIFIED else Coverage_REJECTED),
     cr_manifest_fingerprint = digest (series_py x), cr_attestation_fingerprint = attestation_fingerprint a,
     cr_mismatches = coverage_mismatches x a\<rparr>"

lemma coverage_outcome_decision [simp]: "cr_decision (coverage_outcome x a) = Coverage_VERIFIED \<longleftrightarrow> attests a x"
  by (simp add: coverage_outcome_def)

lemma sort_key_Nil_iff [simp]: "sort_key f xs = [] \<longleftrightarrow> xs = []"
  by (metis length_0_conv length_sort)

lemma coverage_digests: "is_digest (digest (series_py x))" "is_digest (attestation_fingerprint a)"
  by (simp_all add: attestation_fingerprint_def is_digest_digest granularity_py_def adjustment_py_def)

lemma verify_coverage_total: "verify_coverage_attestation x a = Inr (coverage_outcome x a)"
  by (simp add: verify_coverage_attestation_def mk_coverage_report_def raising_Inr_iff digests_clean coverage_digests
      coverage_mismatches_ok coverage_mismatches_Nil coverage_outcome_def)

lemma verify_each_total:
  "verify_each series attestations ds =
     Inr (map (\<lambda>d. coverage_outcome (the (map_of series d)) (the (map_of attestations d))) ds,
          concat (map (\<lambda>d. map (\<lambda>m. d @ '':'' @ m)
            (coverage_mismatches (the (map_of series d)) (the (map_of attestations d)))) ds))"
  by (induction ds) (simp_all add: verify_coverage_total coverage_outcome_def)

lemma distinct_iff_count: "distinct xs \<longleftrightarrow> (\<forall>x. count_list xs x \<le> 1)"
proof (induction xs)
  case (Cons y ys)
  have "count_list ys x \<le> count_list (y # ys) x" for x by simp
  moreover have "count_list (y # ys) y = Suc (count_list ys y)" by simp
  moreover have "count_list (y # ys) x \<le> 1" if "y \<notin> set ys" "count_list ys x \<le> 1" for x using that by auto
  ultimately have "(\<forall>x. count_list (y # ys) x \<le> 1) \<longleftrightarrow> y \<notin> set ys \<and> (\<forall>x. count_list ys x \<le> 1)"
    by (metis One_nat_def Suc_le_mono count_list_0_iff le_0_eq order_trans)
  then show ?case using Cons.IH by simp
qed simp

lemma collect_attestations_exact:
  assumes "distinct (map fst bs)" "collect_attestations as bs dups = (bs', dups')"
  shows "map_of bs' = map_of (bs @ map (\<lambda>a. (cv_series_content_digest a, a)) as)
    \<and> fst ` set bs' = fst ` set bs \<union> cv_series_content_digest ` set as
    \<and> dups' = dups \<union> {d. 1 < count_list (map fst bs @ map cv_series_content_digest as) d}"
  using assms
proof (induction as arbitrary: bs dups)
  case Nil
  then show ?case by (auto simp: distinct_iff_count not_less [symmetric])
next
  case (Cons a as)
  let ?d = "cv_series_content_digest a"
  show ?case
  proof (cases "map_of bs ?d")
    case None
    then have "distinct (map fst (bs @ [(?d, a)]))" using Cons.prems(1) by (auto simp: map_of_eq_None_iff)
    from Cons.IH [OF this, of dups] show ?thesis using None Cons.prems(2) by auto
  next
    case (Some prior)
    then have "?d \<in> set (map fst bs)" by (force dest: map_of_SomeD)
    then have "0 < count_list (map fst bs) ?d" by (metis count_list_0_iff gr0I)
    then have "{d. 1 < count_list (map fst bs @ map cv_series_content_digest (a # as)) d}
        = insert ?d {d. 1 < count_list (map fst bs @ map cv_series_content_digest as) d}" by auto
    moreover have "map_of (bs @ map (\<lambda>a. (cv_series_content_digest a, a)) (a # as))
        = map_of (bs @ map (\<lambda>a. (cv_series_content_digest a, a)) as)"
      using Some by (auto simp: fun_eq_iff map_add_def split: option.splits)
    ultimately show ?thesis using Cons.IH [OF Cons.prems(1), of "insert ?d dups"] Cons.prems(2) Some \<open>?d \<in> _\<close> by auto
  qed
qed

definition attested_once :: "data_series list \<Rightarrow> coverage_attestation list \<Rightarrow> bool" where
  "attested_once series attestations \<longleftrightarrow> distinct (map cv_series_content_digest attestations)
     \<and> cv_series_content_digest ` set attestations = se_content_digest ` set series
     \<and> (\<forall>x \<in> set series. \<exists>a \<in> set attestations. attests a x)"

definition unattested :: "data_series list \<Rightarrow> coverage_attestation list \<Rightarrow> string set" where
  "unattested series attestations = se_content_digest ` set series - cv_series_content_digest ` set attestations"

definition surplus :: "data_series list \<Rightarrow> coverage_attestation list \<Rightarrow> string set" where
  "surplus series attestations = cv_series_content_digest ` set attestations - se_content_digest ` set series
     \<union> {d. 1 < count_list (map cv_series_content_digest attestations) d}"

lemma surplus_subset: "surplus xs as \<subseteq> cv_series_content_digest ` set as"
proof
  fix d
  assume "d \<in> surplus xs as"
  then have "d \<in> cv_series_content_digest ` set as \<or> 0 < count_list (map cv_series_content_digest as) d"
    by (auto simp: surplus_def)
  then show "d \<in> cv_series_content_digest ` set as" by (metis count_notin less_irrefl list.set_map)
qed

lemma attests_content: "attests a x \<Longrightarrow> cv_series_content_digest a = se_content_digest x"
  by (simp add: attests_def)

lemma attested_once_iff:
  assumes xs: "distinct (map se_content_digest xs)" and none: "unattested xs as = {}" "surplus xs as = {}"
  shows "attested_once xs as \<longleftrightarrow> (\<forall>d \<in> se_content_digest ` set xs.
    attests (the (map_of (map (\<lambda>a. (cv_series_content_digest a, a)) as) d)) (the (map_of (map (\<lambda>x. (se_content_digest x, x)) xs) d)))"
    (is "_ \<longleftrightarrow> (\<forall>d \<in> _. attests (?a d) (?x d))")
proof -
  have as: "distinct (map cv_series_content_digest as)"
    using none(2) by (auto simp: distinct_iff_count surplus_def not_less [symmetric])
  have x: "?x (se_content_digest x) = x" if "x \<in> set xs" for x
    using that xs by (subst map_of_eq_Some_iff [THEN iffD2, of _ _ x]) (auto simp: comp_def)
  have a: "?a (cv_series_content_digest a) = a" if "a \<in> set as" for a
    using that as by (subst map_of_eq_Some_iff [THEN iffD2, of _ _ a]) (auto simp: comp_def)
  have keys: "cv_series_content_digest ` set as = se_content_digest ` set xs"
    using none by (auto simp: unattested_def surplus_def)
  have "(\<exists>a \<in> set as. attests a x) \<longleftrightarrow> attests (?a (se_content_digest x)) x" if m: "x \<in> set xs" for x
  proof -
    obtain b where b: "b \<in> set as" "cv_series_content_digest b = se_content_digest x" using keys m by (metis imageE imageI)
    have "a' = ?a (se_content_digest x)" if "a' \<in> set as" "attests a' x" for a'
      using a [OF that(1)] attests_content [OF that(2)] by simp
    moreover have "?a (se_content_digest x) \<in> set as" using a [OF b(1)] b by simp
    ultimately show ?thesis by blast
  qed
  then show ?thesis using x by (auto simp: attested_once_def as keys)
qed

lemma join_str_nonempty: "xs \<noteq> [] \<Longrightarrow> \<forall>x \<in> set xs. x \<noteq> [] \<Longrightarrow> join_str sep xs \<noteq> []"
  by (cases "(sep, xs)" rule: join_str.cases) auto

definition snapshot_mismatches :: "data_series list \<Rightarrow> coverage_attestation list \<Rightarrow> string list" where
  "snapshot_mismatches xs as =
     concat (map (\<lambda>d. map (\<lambda>m. d @ '':'' @ m) (coverage_mismatches (the (map_of (map (\<lambda>x. (se_content_digest x, x)) xs) d))
         (the (map_of (map (\<lambda>a. (cv_series_content_digest a, a)) as) d))))
       (sorted_list_of_set (se_content_digest ` set xs \<inter> cv_series_content_digest ` set as)))
     @ map (\<lambda>d. ''missing_series:'' @ d) (sorted_list_of_set (unattested xs as))
     @ map (\<lambda>d. ''unexpected_series:'' @ d) (sorted_list_of_set (surplus xs as))"

lemma finite_surplus [simp]: "finite (surplus xs as)" "finite (unattested xs as)"
  using surplus_subset [of xs as] by (auto intro: finite_subset simp: unattested_def)

lemma snapshot_mismatches_Nil:
  assumes "distinct (map se_content_digest xs)"
  shows "snapshot_mismatches xs as = [] \<longleftrightarrow> attested_once xs as"
proof -
  have "unattested xs as = {}" "surplus xs as = {}" if "attested_once xs as"
    using that by (auto simp: attested_once_def unattested_def surplus_def distinct_iff_count not_less [symmetric])
  moreover have "se_content_digest ` set xs \<inter> cv_series_content_digest ` set as = se_content_digest ` set xs"
    if "unattested xs as = {}" using that by (auto simp: unattested_def)
  ultimately show ?thesis
    using attested_once_iff [OF assms, of as]
    by (auto simp: snapshot_mismatches_def sorted_list_of_set_eq_Nil_iff coverage_mismatches_Nil)
qed

lemma verify_snapshot_coverage_eq:
  assumes "distinct (map se_content_digest (sp_series p))"
  shows "verify_snapshot_coverage p as =
    (let xs = sp_series p;
         reports = sort_key cr_manifest_fingerprint (map (\<lambda>d. coverage_outcome (the (map_of (map (\<lambda>x. (se_content_digest x, x)) xs) d))
           (the (map_of (map (\<lambda>a. (cv_series_content_digest a, a)) as) d)))
           (sorted_list_of_set (se_content_digest ` set xs \<inter> cv_series_content_digest ` set as)))
     in if snapshot_mismatches xs as \<noteq> []
        then mk_snapshot_coverage SnapshotCoverage_REJECTED (snapshot_fingerprint p) reports (sorted_list_of_set (unattested xs as))
               (sorted_list_of_set (surplus xs as)) (Some (join_str ''; '' (sorted_list_of_set (set (snapshot_mismatches xs as)))))
        else mk_snapshot_coverage SnapshotCoverage_VERIFIED (snapshot_fingerprint p) reports [] [] None)"
proof -
  obtain bs dups where c: "collect_attestations as [] {} = (bs, dups)" by fastforce
  note collected = collect_attestations_exact [OF _ c, simplified]
  then have "fst ` set bs - se_content_digest ` set (sp_series p) \<union> dups = surplus (sp_series p) as"
    "se_content_digest ` set (sp_series p) - fst ` set bs = unattested (sp_series p) as"
    by (auto simp: surplus_def unattested_def)
  then show ?thesis
    using collected assms
    by (simp add: verify_snapshot_coverage_def raising.simps comp_def c verify_each_total snapshot_mismatches_def Let_def image_image
        del: append_is_Nil_conv)
qed

text \<open>C23: A coverage verification answers, once the content digests of the series differ, with the exact state of the evidence:
  the snapshot is verified exactly when the attestations and the series correspond one to one and every attestation agrees with
  its series in all dimensions and claims a complete history without gaps. The series without attestation and the digests that
  are unknown or attested twice are named exactly, and a verified answer holds one report for every series.\<close>

theorem snapshot_coverage_exact:
  assumes "sp_series p \<noteq> []" "\<forall>x \<in> set (sp_series p). series_ok x" "\<forall>a \<in> set as. attestation_ok a"
    and distinct: "distinct (map se_content_digest (sp_series p))"
  shows "\<exists>r. verify_snapshot_coverage p as = Inr r
    \<and> (sg_decision r = SnapshotCoverage_VERIFIED \<longleftrightarrow> attested_once (sp_series p) as)
    \<and> sg_missing_series_digests r = sorted_list_of_set (unattested (sp_series p) as)
    \<and> sg_unexpected_series_digests r = sorted_list_of_set (surplus (sp_series p) as)
    \<and> (sg_decision r = SnapshotCoverage_VERIFIED \<longrightarrow> length (sg_reports r) = length (sp_series p)
         \<and> (\<forall>c \<in> set (sg_reports r). cr_decision c = Coverage_VERIFIED))"
proof -
  let ?xs = "sp_series p"
  have digests: "\<forall>d \<in> unattested ?xs as. is_digest d" "\<forall>d \<in> surplus ?xs as. is_digest d"
    using assms(2,3) surplus_subset [of ?xs as] by (auto simp: unattested_def series_ok_def attestation_ok_def)
  show ?thesis
  proof (cases "attested_once ?xs as")
    case True
    then have all: "snapshot_mismatches ?xs as = []" by (simp add: snapshot_mismatches_Nil distinct)
    have "unattested ?xs as = {}" "surplus ?xs as = {}"
      using all by (simp_all add: snapshot_mismatches_def sorted_list_of_set_eq_Nil_iff)
    moreover have "se_content_digest ` set ?xs \<inter> cv_series_content_digest ` set as = se_content_digest ` set ?xs"
      using True by (simp add: attested_once_def)
    moreover have "card (se_content_digest ` set ?xs) = length ?xs" using distinct_card [OF distinct] by simp
    moreover note attested_once_iff [OF distinct, of as]
    ultimately show ?thesis
      using True assms(1) unfolding verify_snapshot_coverage_eq [OF distinct]
      by (simp add: all mk_snapshot_coverage_def raising_Inr_iff digests_clean Let_def sort_key_id_if_sorted list_ex_iff
          no_reason_def sorted_list_of_set_eq_Nil_iff)
  next
    case False
    then have some: "snapshot_mismatches ?xs as \<noteq> []" by (simp add: snapshot_mismatches_Nil distinct)
    have "join_str ''; '' (sorted_list_of_set (set (snapshot_mismatches ?xs as))) \<noteq> []"
      by (rule join_str_nonempty) (use some in \<open>auto simp: sorted_list_of_set_eq_Nil_iff snapshot_mismatches_def\<close>)
    then show ?thesis
      using False digests some unfolding verify_snapshot_coverage_eq [OF distinct]
      by (simp add: mk_snapshot_coverage_def raising_Inr_iff digests_clean all_digests_clean Let_def sort_key_id_if_sorted
          no_reason_def sorted_sort_id)
  qed
qed

definition sample_attestation :: "data_series \<Rightarrow> bool \<Rightarrow> coverage_attestation" where
  "sample_attestation x gap_free = \<lparr>cv_evidence_digest = se_coverage_evidence_digest x, cv_series_content_digest = se_content_digest x,
     cv_instrument_id = se_instrument_id x, cv_event_type = se_event_type x, cv_event_granularity = se_event_granularity x,
     cv_timeframe = se_timeframe x, cv_session = se_session x, cv_feed = se_feed x, cv_adjustment = se_adjustment x,
     cv_corporate_action_semantics = se_corporate_action_semantics x, cv_start = se_start x, cv_end = se_end x,
     cv_row_count = se_row_count x, cv_calendar_digest = se_content_digest x, cv_complete = True, cv_gap_free = gap_free,
     cv_provider_adapter = ''adapter'', cv_attested_at = 30\<rparr>"

definition sample_snapshot :: "data_series list \<Rightarrow> data_snapshot" where
  "sample_snapshot xs = \<lparr>sp_snapshot_id = ''snap'', sp_provider_snapshot_id = ''prov'', sp_preflight_report = sample_report,
     sp_series = xs, sp_created_at = 30, sp_etf_memberships = []\<rparr>"

theorem snapshot_coverage_exact_witness:
  "(\<exists>r. verify_snapshot_coverage (sample_snapshot [sample_series 10 20]) [sample_attestation (sample_series 10 20) True] = Inr r
       \<and> sg_decision r = SnapshotCoverage_VERIFIED)
   \<and> (\<exists>r. verify_snapshot_coverage (sample_snapshot [sample_series 10 20]) [sample_attestation (sample_series 10 20) False] = Inr r
       \<and> sg_decision r = SnapshotCoverage_REJECTED)"
proof -
  let ?x = "sample_series 10 20"
  have x: "series_ok ?x" by (simp add: sample_series_ok)
  have a: "attestation_ok (sample_attestation ?x g)" for g
    using x by (simp add: attestation_ok_def sample_attestation_def series_ok_def)
  have "attests (sample_attestation ?x g) ?x \<longleftrightarrow> g" for g by (simp add: attests_def sample_attestation_def)
  then have "attested_once [?x] [sample_attestation ?x g] \<longleftrightarrow> g" for g
    by (simp add: attested_once_def sample_attestation_def)
  with snapshot_coverage_exact [of "sample_snapshot [?x]" "[sample_attestation ?x True]"]
    snapshot_coverage_exact [of "sample_snapshot [?x]" "[sample_attestation ?x False]"] x a
  show ?thesis by (auto simp: sample_snapshot_def) (metis snapshot_coverage_decision.exhaust)+
qed

end
