(* ===== verification/Event_Tape.thy ===== *)
theory Event_Tape
  imports Data_Snapshots
begin

text \<open>
  \<open>src/backend/app/strategy_lab_v2/event_tape.py\<close>: the frozen event tape a backtest or forward worker replays, with the market
  events and data dependencies of \<open>sdk.py\<close> and the freezing of event values of \<open>canonical.py\<close>. A tape is ordered on
  construction, cut into batches of one event time, sliced by time, and bound to a frozen snapshot and an SDK manifest. Of the
  manifest the binding reads the data dependencies and the fingerprint (\<open>sdk_manifest\<close>); the ISO 8601 reader of the interpreter
  is the argument \<open>fromisoformat\<close>.
\<close>

section \<open>Frozen values\<close>

fun freeze_value :: "pyval \<Rightarrow> pyval"
  and freeze_list :: "pyval list \<Rightarrow> pyval list"
  and freeze_items :: "(string \<times> pyval) list \<Rightarrow> (string \<times> pyval) list"
  and freeze_fields :: "(string \<times> bool \<times> pyval) list \<Rightarrow> (string \<times> pyval) list" where
  "freeze_value (PMapping m) = PMapping (freeze_items m)"
| "freeze_value (PDataclass q fs) = PMapping (freeze_fields fs)"
| "freeze_value (PTuple vs) = PTuple (freeze_list vs)"
| "freeze_value (PList vs) = PTuple (freeze_list vs)"
| "freeze_value (PSet vs) = PTuple (sort_key (\<lambda>v. projr (canonical_json v)) (freeze_list vs))"
| "freeze_value (PEnum q v) = freeze_value v"
| "freeze_value PNone = PNone"
| "freeze_value (PBool b) = PBool b"
| "freeze_value (PInt i) = PInt i"
| "freeze_value (PStr s) = PStr s"
| "freeze_value (PDecimal d) = PDecimal d"
| "freeze_value (PDatetime d) = PDatetime d"
| "freeze_value (PTimedelta d) = PTimedelta d"
| "freeze_value (PDate n) = PDate n"
| "freeze_value (PFloat w) = PFloat w"
| "freeze_list [] = []"
| "freeze_list (v # vs) = freeze_value v # freeze_list vs"
| "freeze_items [] = []"
| "freeze_items ((k, v) # m) = (k, freeze_value v) # freeze_items m"
| "freeze_fields [] = []"
| "freeze_fields ((n, omit_none, v) # fs) =
     (if take 1 n = ''_'' then freeze_fields fs else (n, freeze_value v) # freeze_fields fs)"

definition freeze_json :: "pyval \<Rightarrow> pyval result" where
  "freeze_json v = rbind (canonical_value v) (\<lambda>j. Inr (freeze_value v))"

section \<open>Market events\<close>

record market_event =
  me_dependency_id :: string
  me_event_id :: string
  me_instrument_id :: string
  me_event_time :: instant
  me_sequence :: int
  me_values :: "(string \<times> pyval) list"

definition mk_market_event ::
  "string \<Rightarrow> string \<Rightarrow> string \<Rightarrow> datetime \<Rightarrow> int \<Rightarrow> (string \<times> pyval) list \<Rightarrow> market_event result" where
  "mk_market_event dependency_id event_id instrument_id event_time seq vals =
     raising [(blank dependency_id \<or> blank event_id \<or> blank instrument_id, ''market event identifiers must not be empty'')]
       (with_aware event_time ''market event time must be timezone-aware'' (\<lambda>t.
        raising [(seq < 0, ''market event sequence must be non-negative'')]
          (rbind (freeze_json (PMapping vals)) (\<lambda>frozen.
             case frozen of
               PMapping m \<Rightarrow> Inr \<lparr>me_dependency_id = dependency_id, me_event_id = event_id, me_instrument_id = instrument_id,
                                  me_event_time = t, me_sequence = seq, me_values = m\<rparr>
             | _ \<Rightarrow> Inl (TypeError ''market event values must be a mapping'')))))"

definition market_event_py :: "market_event \<Rightarrow> pyval" where
  "market_event_py e = dataclass_py ''app.strategy_lab_v2.sdk.MarketEvent''
     [(''dependency_id'', PStr (me_dependency_id e)),
      (''event_id'', PStr (me_event_id e)),
      (''instrument_id'', PStr (me_instrument_id e)),
      (''event_time'', time_py (me_event_time e)),
      (''sequence'', PInt (me_sequence e)),
      (''values'', PMapping (me_values e))]"

section \<open>Tapes\<close>

definition EVENT_TAPE_DEFINITION_VERSION :: string where
  "EVENT_TAPE_DEFINITION_VERSION = ''strategy-lab.event-tape.v1''"

record event_tape =
  et_snapshot_fingerprint :: string
  et_events :: "market_event list"
  et_definition_version :: string

fun single_instruments :: "(string \<rightharpoonup> string) \<Rightarrow> market_event list \<Rightarrow> unit result" where
  "single_instruments instruments [] = Inr ()"
| "single_instruments instruments (e # es) =
     (let prior = (case instruments (me_dependency_id e) of None \<Rightarrow> me_instrument_id e | Some i \<Rightarrow> i)
      in raising [(prior \<noteq> me_instrument_id e, ''dependency '' @ str_repr (me_dependency_id e) @ '' contains multiple instruments'')]
           (single_instruments (instruments(me_dependency_id e \<mapsto> prior)) es))"

definition tape_key :: "market_event \<Rightarrow> instant \<times> int \<times> string \<times> string" where
  "tape_key e = (me_event_time e, me_sequence e, me_dependency_id e, me_event_id e)"

fun advancing :: "(string \<rightharpoonup> market_event) \<Rightarrow> market_event list \<Rightarrow> unit result" where
  "advancing previous [] = Inr ()"
| "advancing previous (e # es) =
     raising
       [(case previous (me_dependency_id e) of
           None \<Rightarrow> False
         | Some p \<Rightarrow> me_sequence e \<le> me_sequence p \<or> me_event_time e < me_event_time p,
         ''dependency '' @ str_repr (me_dependency_id e) @ '' events must advance sequence and time'')]
       (advancing (previous(me_dependency_id e \<mapsto> e)) es)"

definition mk_event_tape :: "string \<Rightarrow> market_event list \<Rightarrow> string \<Rightarrow> event_tape result" where
  "mk_event_tape snapshot_fp events version =
     raising
       (digest_checks snapshot_fp ''snapshot_fingerprint''
        @ [(version \<noteq> EVENT_TAPE_DEFINITION_VERSION, ''unsupported event-tape definition version''),
           (\<not> distinct (map me_event_id events), ''event ids must be unique within a frozen tape'')])
       (rbind (single_instruments Map.empty events) (\<lambda>_.
        let ordered = sort_key tape_key events
        in rbind (advancing Map.empty ordered) (\<lambda>_.
             Inr \<lparr>et_snapshot_fingerprint = snapshot_fp, et_events = ordered, et_definition_version = version\<rparr>)))"

definition tape_fingerprint :: "event_tape \<Rightarrow> string" where
  "tape_fingerprint t = digest (dataclass_py ''app.strategy_lab_v2.event_tape.FrozenEventTape''
     [(''snapshot_fingerprint'', PStr (et_snapshot_fingerprint t)),
      (''events'', PTuple (map market_event_py (et_events t))),
      (''definition_version'', PStr (et_definition_version t))])"

definition tape_start_time :: "event_tape \<Rightarrow> instant option" where
  "tape_start_time t = (if et_events t = [] then None else Some (me_event_time (hd (et_events t))))"

definition tape_end_time :: "event_tape \<Rightarrow> instant option" where
  "tape_end_time t = (if et_events t = [] then None else Some (me_event_time (last (et_events t))))"

section \<open>Batches and slices\<close>

record event_batch =
  eb_batch_sequence :: int
  eb_event_time :: instant
  eb_events :: "market_event list"

definition batch_key :: "market_event \<Rightarrow> int \<times> string \<times> string" where
  "batch_key e = (me_sequence e, me_dependency_id e, me_event_id e)"

definition mk_event_batch :: "int \<Rightarrow> datetime \<Rightarrow> market_event list \<Rightarrow> event_batch result" where
  "mk_event_batch batch_sequence event_time events =
     raising [(batch_sequence < 0, ''batch_sequence must be a non-negative integer'')]
       (with_aware event_time ''event_time must be timezone-aware'' (\<lambda>t.
        raising
          [(events = [], ''event tape batches must contain events''),
           (list_ex (\<lambda>e. me_event_time e \<noteq> t) events, ''batch events must share the batch event_time''),
           (events \<noteq> sort_key batch_key events, ''batch events must be deterministically ordered'')]
          (Inr \<lparr>eb_batch_sequence = batch_sequence, eb_event_time = t, eb_events = events\<rparr>)))"

fun batch_loop :: "market_event list \<Rightarrow> int \<Rightarrow> instant \<Rightarrow> market_event list \<Rightarrow> event_batch list result" where
  "batch_loop [] batch_sequence current_time current_events =
     rbind (mk_event_batch batch_sequence (utc current_time) current_events) (\<lambda>b. Inr [b])"
| "batch_loop (e # es) batch_sequence current_time current_events =
     (if me_event_time e \<noteq> current_time then
        rbind (mk_event_batch batch_sequence (utc current_time) current_events) (\<lambda>b.
        rbind (batch_loop es (batch_sequence + 1) (me_event_time e) [e]) (\<lambda>bs. Inr (b # bs)))
      else batch_loop es batch_sequence current_time (current_events @ [e]))"

definition tape_batches :: "event_tape \<Rightarrow> event_batch list result" where
  "tape_batches t =
     (case et_events t of [] \<Rightarrow> Inr [] | e # es \<Rightarrow> batch_loop (et_events t) 0 (me_event_time e) [])"

text \<open>The generator \<open>iter_events_until\<close>, read to its end.\<close>

definition iter_events_until :: "event_tape \<Rightarrow> datetime \<Rightarrow> bool \<Rightarrow> market_event list result" where
  "iter_events_until t through include_boundary =
     with_aware through ''through must be timezone-aware'' (\<lambda>boundary.
       Inr (takeWhile (\<lambda>e. me_event_time e < boundary \<or> include_boundary \<and> me_event_time e = boundary) (et_events t)))"

definition tape_slice ::
  "event_tape \<Rightarrow> datetime option \<Rightarrow> datetime option \<Rightarrow> bool \<Rightarrow> bool \<Rightarrow> market_event list result" where
  "tape_slice t start stop include_start include_end =
     with_aware_opt start ''start must be timezone-aware'' (\<lambda>start.
     with_aware_opt stop ''end must be timezone-aware'' (\<lambda>stop.
     raising [(case (start, stop) of (Some s, Some e) \<Rightarrow> s > e | _ \<Rightarrow> False, ''slice start must not follow end'')]
       (Inr (filter (\<lambda>e.
          (case start of None \<Rightarrow> True | Some s \<Rightarrow> me_event_time e > s \<or> include_start \<and> me_event_time e = s)
          \<and> (case stop of None \<Rightarrow> True | Some s \<Rightarrow> me_event_time e < s \<or> include_end \<and> me_event_time e = s)) (et_events t)))))"

section \<open>Dependencies and the binding\<close>

record data_dependency =
  dd_dependency_id :: string
  dd_requirement :: capability_requirement
  dd_fields :: "string list"
  dd_lookback_periods :: int

definition mk_data_dependency :: "string \<Rightarrow> capability_requirement \<Rightarrow> string list \<Rightarrow> int \<Rightarrow> data_dependency result" where
  "mk_data_dependency dependency_id requirement names lookback =
     raising
       [(blank dependency_id, ''data dependency id must not be empty''),
        (names = [] \<or> list_ex blank names, ''data dependencies must declare one or more fields''),
        (\<not> distinct names, ''data dependency fields must be unique''),
        (lookback < 0, ''lookback_periods must be a non-negative integer'')]
       (Inr \<lparr>dd_dependency_id = dependency_id, dd_requirement = requirement, dd_fields = sort names,
             dd_lookback_periods = lookback\<rparr>)"

record sdk_manifest =
  sk_data_dependencies :: "data_dependency list"
  sk_fingerprint :: string

record tape_binding =
  tb_event_tape_fingerprint :: string
  tb_snapshot_fingerprint :: string
  tb_manifest_fingerprint :: string
  tb_dependency_event_counts :: "(string \<times> int) list"

definition mk_tape_binding :: "string \<Rightarrow> string \<Rightarrow> string \<Rightarrow> (string \<times> int) list \<Rightarrow> tape_binding result" where
  "mk_tape_binding tape_fp snapshot_fp manifest_fp counts =
     raising
       (digest_checks tape_fp ''event_tape_fingerprint'' @ digest_checks snapshot_fp ''snapshot_fingerprint''
        @ digest_checks manifest_fp ''manifest_fingerprint''
        @ [(counts = [], ''event-tape bindings require dependency event counts''),
           (list_ex (\<lambda>(d, n). blank d \<or> n \<le> 0) counts, ''dependency event counts must contain positive keyed counts''),
           (counts \<noteq> sort counts \<or> \<not> distinct (map fst counts), ''dependency event counts must be unique and ordered'')])
       (Inr \<lparr>tb_event_tape_fingerprint = tape_fp, tb_snapshot_fingerprint = snapshot_fp,
             tb_manifest_fingerprint = manifest_fp, tb_dependency_event_counts = counts\<rparr>)"

definition replacement_time :: "(string \<Rightarrow> datetime result) \<Rightarrow> string option \<Rightarrow> instant \<Rightarrow> instant result" where
  "replacement_time fromisoformat v fallback =
     (case v of
        None \<Rightarrow> Inr fallback
      | Some text \<Rightarrow>
          (case fromisoformat (replace_zulu text) of
             Inl (ValueError m) \<Rightarrow> Inl (ValueError ''history replacement must be an ISO-8601 timestamp'')
           | Inl e \<Rightarrow> Inl e
           | Inr d \<Rightarrow> with_aware d ''history replacement must be timezone-aware'' Inr))"

definition select_snapshot_series ::
  "(string \<Rightarrow> datetime result) \<Rightarrow> data_snapshot \<Rightarrow> data_dependency \<Rightarrow> (data_series list \<times> instant \<times> instant) result" where
  "select_snapshot_series fromisoformat snapshot dependency =
     (case find (\<lambda>d. cd_requirement d = dd_requirement dependency) (pr_decisions (sp_preflight_report snapshot)) of
        None \<Rightarrow> Inl (ValueError (''snapshot preflight has no decision for dependency '' @ str_repr (dd_dependency_id dependency)))
      | Some d \<Rightarrow>
          raising [(cd_classification d = Preflight_UNSUPPORTED,
                    ''dependency '' @ str_repr (dd_dependency_id dependency) @ '' uses an unsupported preflight'')]
            (rbind (replacement_time fromisoformat (replacement d ''history_start'') (cq_start (dd_requirement dependency))) (\<lambda>s.
             rbind (replacement_time fromisoformat (replacement d ''history_end'') (cq_end (dd_requirement dependency))) (\<lambda>e.
               Inr (filter (\<lambda>x. series_matches d x \<and> se_start x < e \<and> se_end x > s) (sp_series snapshot), s, e)))))"

definition event_checks ::
  "data_dependency \<Rightarrow> data_series list \<Rightarrow> instant \<Rightarrow> instant \<Rightarrow> market_event \<Rightarrow> (bool \<times> string) list" where
  "event_checks dependency candidates s e event =
     (let name = ''dependency '' @ str_repr (dd_dependency_id dependency); t = me_event_time event
      in [(me_instrument_id event \<noteq> cq_instrument_id (dd_requirement dependency), name @ '' contains an undeclared instrument''),
          (set (map fst (me_values event)) \<noteq> set (dd_fields dependency), name @ '' event fields do not match its declaration''),
          (\<not> (s \<le> t \<and> t < e), name @ '' event falls outside its declared interval''),
          (\<not> list_ex (\<lambda>x. se_start x \<le> t \<and> t < se_end x) candidates, name @ '' event falls outside snapshot coverage'')])"

fun bind_loop ::
  "(string \<Rightarrow> datetime result) \<Rightarrow> event_tape \<Rightarrow> data_snapshot \<Rightarrow> data_dependency list \<Rightarrow> (string \<times> int) list result" where
  "bind_loop fromisoformat tape snapshot [] = Inr []"
| "bind_loop fromisoformat tape snapshot (d # ds) =
     rbind (select_snapshot_series fromisoformat snapshot d) (\<lambda>(candidates, s, e).
       let events = filter (\<lambda>event. me_dependency_id event = dd_dependency_id d) (et_events tape);
           name = str_repr (dd_dependency_id d)
       in raising
            ([(candidates = [], ''snapshot has no matching series for dependency '' @ name),
              (events = [], ''dependency '' @ name @ '' has no tape events'')]
             @ concat (map (event_checks d candidates s e) events))
            (rbind (bind_loop fromisoformat tape snapshot ds) (\<lambda>counts.
               Inr ((dd_dependency_id d, int (length events)) # counts))))"

definition strings_repr :: "string list \<Rightarrow> string" where
  "strings_repr xs = ''['' @ join_str '', '' (map str_repr xs) @ '']''"

definition bind_event_tape ::
  "(string \<Rightarrow> datetime result) \<Rightarrow> event_tape \<Rightarrow> data_snapshot \<Rightarrow> sdk_manifest \<Rightarrow> tape_binding result" where
  "bind_event_tape fromisoformat tape snapshot manifest =
     (let declared = set (map dd_dependency_id (sk_data_dependencies manifest));
          taped = set (map me_dependency_id (et_events tape))
      in raising
           [(et_snapshot_fingerprint tape \<noteq> snapshot_fingerprint snapshot, ''event tape does not belong to the supplied snapshot''),
            (et_events tape = [], ''event tape cannot bind an empty event set''),
            (taped \<noteq> declared, ''event-tape dependency mismatch; missing='' @ strings_repr (sorted_list_of_set (declared - taped))
               @ '', extra='' @ strings_repr (sorted_list_of_set (taped - declared)))]
           (rbind (bind_loop fromisoformat tape snapshot (sk_data_dependencies manifest)) (\<lambda>counts.
              mk_tape_binding (tape_fingerprint tape) (snapshot_fingerprint snapshot) (sk_fingerprint manifest) (sort counts))))"

section \<open>What a tape holds\<close>

lemma sequence_items_iff: "(\<exists>js. sequence_items xs = Inr js) \<longleftrightarrow> list_all (\<lambda>(k, r). \<exists>j. r = Inr j) xs"
  by (induction xs) auto

lemma encodable_compound:
  "encodable (PMapping m) \<longleftrightarrow> list_all (\<lambda>(k, v). encodable v) m"
  "encodable (PDataclass q fs) \<longleftrightarrow> (\<exists>js. canonical_fields fs = Inr js)"
  "encodable (PList vs) \<longleftrightarrow> list_all encodable vs"
proof -
  have "encodable (PMapping m) \<longleftrightarrow> (\<exists>js. sequence_items (sort_key fst (canonical_items m)) = Inr js)"
    by (auto simp: encodable_def)
  then show "encodable (PMapping m) \<longleftrightarrow> list_all (\<lambda>(k, v). encodable v) m"
    unfolding sequence_items_iff by (simp add: canonical_items_map list_all_iff encodable_def case_prod_beta)
  show "encodable (PDataclass q fs) \<longleftrightarrow> (\<exists>js. canonical_fields fs = Inr js)" by (auto simp: encodable_def)
  show "encodable (PList vs) \<longleftrightarrow> list_all encodable vs"
    using canonical_list_encodable [of vs] by (auto simp: encodable_def)
qed

lemma canonical_fields_Cons:
  "(\<exists>js. canonical_fields ((n, omit_none, v) # fs) = Inr js) \<longleftrightarrow>
     (take 1 n = ''_'' \<or> omit_none \<and> v = PNone \<or> encodable v) \<and> (\<exists>js. canonical_fields fs = Inr js)"
  by (auto simp: encodable_def)

lemma encodable_freeze:
  "encodable v \<Longrightarrow> encodable (freeze_value v)"
  "list_all encodable vs \<Longrightarrow> list_all encodable (freeze_list vs)"
  "list_all (\<lambda>(k, v). encodable v) m \<Longrightarrow> list_all (\<lambda>(k, v). encodable v) (freeze_items m)"
  "(\<exists>js. canonical_fields fs = Inr js) \<Longrightarrow> list_all (\<lambda>(k, v). encodable v) (freeze_fields fs)"
proof (induction v and vs and m and fs rule: freeze_value_freeze_list_freeze_items_freeze_fields.induct)
  case (21 n omit_none v fs)
  then show ?case unfolding canonical_fields_Cons by auto
qed (simp_all add: encodable_compound list_all_iff del: canonical_fields.simps)

definition market_event_ok :: "market_event \<Rightarrow> bool" where
  "market_event_ok e \<longleftrightarrow> \<not> blank (me_dependency_id e) \<and> \<not> blank (me_event_id e) \<and> \<not> blank (me_instrument_id e)
     \<and> 0 \<le> me_sequence e \<and> encodable (PMapping (me_values e))"

lemma mk_market_event_ok: "mk_market_event d i n t q vals = Inr e \<Longrightarrow> market_event_ok e"
  using encodable_freeze(1) [of "PMapping vals"]
  by (auto simp: mk_market_event_def market_event_ok_def raising_Inr_iff with_aware_eq_Inr freeze_json_def encodable_def)

definition agrees :: "market_event \<Rightarrow> market_event \<Rightarrow> bool" where
  "agrees e g \<longleftrightarrow> (me_dependency_id e = me_dependency_id g \<longrightarrow> me_instrument_id e = me_instrument_id g)"

lemma single_instruments_loop:
  "single_instruments m es = Inr () \<longleftrightarrow> sorted_wrt agrees es
     \<and> (\<forall>e \<in> set es. m (me_dependency_id e) = None \<or> m (me_dependency_id e) = Some (me_instrument_id e))"
proof (induction es arbitrary: m)
  case (Cons e es)
  let ?m = "m(me_dependency_id e \<mapsto> me_instrument_id e)"
  let ?known = "\<lambda>m g. m (me_dependency_id g) = None \<or> m (me_dependency_id g) = Some (me_instrument_id g)"
  have step: "single_instruments m (e # es) = Inr () \<longleftrightarrow> ?known m e \<and> single_instruments ?m es = Inr ()"
    by (auto simp: raising_Inr_iff Let_def split: option.splits)
  show ?case
  proof (cases "?known m e")
    case True
    then have "?known ?m g \<longleftrightarrow> agrees e g \<and> ?known m g" for g
      by (cases "me_dependency_id g = me_dependency_id e") (auto simp: agrees_def)
    then have "(\<forall>g \<in> set es. ?known ?m g) \<longleftrightarrow> (\<forall>g \<in> set es. agrees e g) \<and> (\<forall>g \<in> set es. ?known m g)"
      by (simp only: ball_conj_distrib)
    with True show ?thesis unfolding step Cons.IH by (simp add: conj_left_commute)
  next
    case False
    then show ?thesis unfolding step by auto
  qed
qed simp

lemma pairwise_iff:
  assumes "\<And>x. R x x" "\<And>x y. R x y \<Longrightarrow> R y x"
  shows "sorted_wrt R xs \<longleftrightarrow> (\<forall>x \<in> set xs. \<forall>y \<in> set xs. R x y)"
  using assms by (induction xs) auto

lemma single_instruments_exact:
  "single_instruments Map.empty es = Inr () \<longleftrightarrow> (\<forall>e \<in> set es. \<forall>g \<in> set es. agrees e g)"
proof -
  have "sorted_wrt agrees es \<longleftrightarrow> (\<forall>e \<in> set es. \<forall>g \<in> set es. agrees e g)"
    by (rule pairwise_iff) (simp_all add: agrees_def)
  then show ?thesis by (simp add: single_instruments_loop)
qed

definition advances :: "market_event \<Rightarrow> market_event \<Rightarrow> bool" where
  "advances p e \<longleftrightarrow> me_sequence p < me_sequence e \<and> me_event_time p \<le> me_event_time e"

definition advances_within :: "market_event \<Rightarrow> market_event \<Rightarrow> bool" where
  "advances_within p e \<longleftrightarrow> (me_dependency_id p = me_dependency_id e \<longrightarrow> advances p e)"

lemma advances_trans: "advances a b \<Longrightarrow> advances b c \<Longrightarrow> advances a c"
  by (auto simp: advances_def)

lemma advancing_exact:
  "advancing m es = Inr () \<longleftrightarrow> sorted_wrt advances_within es \<and> (\<forall>e \<in> set es. \<forall>p. m (me_dependency_id e) = Some p \<longrightarrow> advances p e)"
proof (induction es arbitrary: m)
  case (Cons e es)
  have "advancing m (e # es) = Inr () \<longleftrightarrow> (\<forall>p. m (me_dependency_id e) = Some p \<longrightarrow> advances p e)
      \<and> advancing (m(me_dependency_id e \<mapsto> e)) es = Inr ()"
    by (auto simp: raising_Inr_iff advances_def split: option.splits)
  also have "\<dots> \<longleftrightarrow> (\<forall>p. m (me_dependency_id e) = Some p \<longrightarrow> advances p e) \<and> sorted_wrt advances_within es
      \<and> (\<forall>g \<in> set es. advances_within e g)
      \<and> (\<forall>g \<in> set es. \<forall>p. m (me_dependency_id g) = Some p \<longrightarrow> advances p g)"
    unfolding Cons.IH by (auto simp: advances_within_def split: if_splits intro: advances_trans) (metis advances_trans)+
  finally show ?case by auto
qed simp

definition sequenced :: "market_event list \<Rightarrow> bool" where
  "sequenced es \<longleftrightarrow> (\<forall>e \<in> set es. \<forall>g \<in> set es. me_dependency_id e = me_dependency_id g \<and> e \<noteq> g \<longrightarrow>
     me_sequence e \<noteq> me_sequence g \<and> (me_event_time e < me_event_time g \<longrightarrow> me_sequence e < me_sequence g))"

lemma tape_key_eq: "tape_key e = tape_key g \<Longrightarrow> me_event_id e = me_event_id g"
  by (simp add: tape_key_def)

lemma sorted_advances:
  assumes "sorted (map tape_key es)" "distinct es"
  shows "sorted_wrt advances_within es \<longleftrightarrow> sequenced es"
proof
  assume adv: "sorted_wrt advances_within es"
  show "sequenced es"
    unfolding sequenced_def
  proof (intro ballI impI)
    fix e g
    assume eg: "e \<in> set es" "g \<in> set es" "me_dependency_id e = me_dependency_id g \<and> e \<noteq> g"
    then obtain i j where ij: "i < length es" "j < length es" "e = es ! i" "g = es ! j" "i \<noteq> j" by (metis in_set_conv_nth)
    then have "advances e g \<or> advances g e"
      using adv eg(3) by (metis sorted_wrt_iff_nth_less advances_within_def linorder_neqE_nat)
    then show "me_sequence e \<noteq> me_sequence g \<and> (me_event_time e < me_event_time g \<longrightarrow> me_sequence e < me_sequence g)"
      by (auto simp: advances_def)
  qed
next
  assume seq: "sequenced es"
  show "sorted_wrt advances_within es"
    unfolding sorted_wrt_iff_nth_less advances_within_def
  proof (intro allI impI)
    fix i j
    assume ij: "i < j" "j < length es" "me_dependency_id (es ! i) = me_dependency_id (es ! j)"
    have "tape_key (es ! i) \<le> tape_key (es ! j)" using assms(1) ij by (simp add: sorted_iff_nth_mono)
    then have key: "me_event_time (es ! i) < me_event_time (es ! j)
        \<or> me_event_time (es ! i) = me_event_time (es ! j) \<and> me_sequence (es ! i) \<le> me_sequence (es ! j)"
      by (auto simp: tape_key_def)
    have "es ! i \<noteq> es ! j" using assms(2) ij by (simp add: nth_eq_iff_index_eq)
    moreover have "es ! i \<in> set es" "es ! j \<in> set es" using ij by simp_all
    ultimately have "me_sequence (es ! i) \<noteq> me_sequence (es ! j)
        \<and> (me_event_time (es ! i) < me_event_time (es ! j) \<longrightarrow> me_sequence (es ! i) < me_sequence (es ! j))"
      using seq ij(3) unfolding sequenced_def by blast
    then show "advances (es ! i) (es ! j)" using key by (auto simp: advances_def)
  qed
qed

lemma sequenced_set: "set es = set gs \<Longrightarrow> sequenced es = sequenced gs"
  by (simp add: sequenced_def)

lemma tape_sort_unique:
  assumes "mset es = mset gs" "distinct (map me_event_id es)"
  shows "sort_key tape_key es = sort_key tape_key gs"
proof (rule sort_key_inj_key_eq)
  have "inj_on me_event_id (set es)" using assms(2) by (simp add: distinct_map)
  then show "inj_on tape_key (set es)" by (auto simp: inj_on_def dest: tape_key_eq)
qed (simp_all add: assms(1))

text \<open>C25: A tape is accepted exactly when its snapshot fingerprint is a digest, its version is the current one, its event
  identities differ, no dependency switches instruments, and within a dependency the sequence numbers differ and follow
  event time. It then holds exactly the given events, ordered by time, sequence, dependency and identity, and presenting
  the same events in another order gives the same tape.\<close>

theorem event_tape_exact:
  "(mk_event_tape fp es v = Inr t \<longleftrightarrow>
      is_digest fp \<and> v = EVENT_TAPE_DEFINITION_VERSION \<and> distinct (map me_event_id es)
      \<and> (\<forall>e \<in> set es. \<forall>g \<in> set es. me_dependency_id e = me_dependency_id g \<longrightarrow> me_instrument_id e = me_instrument_id g)
      \<and> (\<forall>e \<in> set es. \<forall>g \<in> set es. me_dependency_id e = me_dependency_id g \<and> e \<noteq> g \<longrightarrow>
           me_sequence e \<noteq> me_sequence g \<and> (me_event_time e < me_event_time g \<longrightarrow> me_sequence e < me_sequence g))
      \<and> t = \<lparr>et_snapshot_fingerprint = fp, et_events = sort_key tape_key es, et_definition_version = v\<rparr>)
   \<and> (mset gs = mset es \<longrightarrow> mk_event_tape fp es v = Inr t \<longrightarrow> mk_event_tape fp gs v = Inr t)"
proof -
  have exact: "mk_event_tape fp es v = Inr t \<longleftrightarrow> is_digest fp \<and> v = EVENT_TAPE_DEFINITION_VERSION
      \<and> distinct (map me_event_id es) \<and> (\<forall>e \<in> set es. \<forall>g \<in> set es. agrees e g) \<and> sequenced es
      \<and> t = \<lparr>et_snapshot_fingerprint = fp, et_events = sort_key tape_key es, et_definition_version = v\<rparr>" for es
  proof (cases "distinct (map me_event_id es)")
    case True
    then have "distinct es" by (simp add: distinct_map)
    then have "advancing Map.empty (sort_key tape_key es) = Inr () \<longleftrightarrow> sequenced es"
      by (simp add: advancing_exact sorted_advances sequenced_set [of "sort_key tape_key es" es])
    then show ?thesis
      using True by (auto simp: mk_event_tape_def raising_Inr_iff digests_clean single_instruments_exact [symmetric] Let_def)
  qed (simp add: mk_event_tape_def raising_Inr_iff)
  have "mk_event_tape fp gs v = Inr t" if "mset gs = mset es" "mk_event_tape fp es v = Inr t"
  proof -
    have "set gs = set es" "distinct (map me_event_id gs) \<longleftrightarrow> distinct (map me_event_id es)"
      using that(1) by (metis mset_eq_setD, metis mset_map mset_eq_imp_distinct_iff)
    then show ?thesis using that tape_sort_unique [OF that(1)] unfolding exact by (simp add: sequenced_def)
  qed
  then show ?thesis using exact [of es] unfolding agrees_def sequenced_def by blast
qed

section \<open>Replay in batches\<close>

lemma batch_sorted:
  assumes "sorted (map tape_key es)" "\<forall>e \<in> set es. me_event_time e = t"
  shows "sort_key batch_key es = es"
proof (rule sort_key_id_if_sorted)
  show "sorted (map batch_key es)"
    using assms by (induction es) (auto simp: tape_key_def batch_key_def)
qed

lemma mk_event_batch_total:
  assumes "0 \<le> n" "es \<noteq> []" "sorted (map tape_key es)" "\<forall>e \<in> set es. me_event_time e = t"
  shows "mk_event_batch n (utc t) es = Inr \<lparr>eb_batch_sequence = n, eb_event_time = t, eb_events = es\<rparr>"
  using assms batch_sorted [OF assms(3,4)] by (simp add: mk_event_batch_def raising_Inr_iff list_ex_iff)

definition batches_ok :: "market_event list \<Rightarrow> int \<Rightarrow> event_batch list \<Rightarrow> bool" where
  "batches_ok es n bs \<longleftrightarrow> concat (map eb_events bs) = es \<and> map eb_batch_sequence bs = map (\<lambda>i. n + int i) [0..<length bs]
     \<and> sorted_wrt (<) (map eb_event_time bs)
     \<and> (\<forall>b \<in> set bs. eb_events b \<noteq> [] \<and> (\<forall>e \<in> set (eb_events b). me_event_time e = eb_event_time b))"

lemma batches_ok_Cons:
  assumes "batches_ok es (n + 1) bs" "cur \<noteq> []" "\<forall>e \<in> set cur. me_event_time e = t" "\<forall>e \<in> set es. t < me_event_time e"
  shows "batches_ok (cur @ es) n (\<lparr>eb_batch_sequence = n, eb_event_time = t, eb_events = cur\<rparr> # bs)"
proof -
  have "t < eb_event_time b" if "b \<in> set bs" for b
  proof -
    obtain e where e: "e \<in> set (eb_events b)" using assms(1) \<open>b \<in> set bs\<close> by (meson batches_ok_def list.set_sel(1))
    then have "e \<in> set es" using assms(1) \<open>b \<in> set bs\<close> by (auto simp: batches_ok_def)
    with e show ?thesis using assms(1,4) \<open>b \<in> set bs\<close> by (metis batches_ok_def)
  qed
  moreover have "map (\<lambda>i. n + int i) [0..<Suc (length bs)] = n # map (\<lambda>i. n + 1 + int i) [0..<length bs]"
    by (simp add: upt_conv_Cons map_Suc_upt [symmetric] del: upt_Suc)
  ultimately show ?thesis using assms by (auto simp: batches_ok_def simp del: upt_Suc)
qed

lemma batch_loop_total:
  assumes "sorted (map tape_key (cur @ es))" "cur \<noteq> [] \<or> es \<noteq> [] \<and> me_event_time (hd es) = t"
    and "\<forall>e \<in> set cur. me_event_time e = t" "0 \<le> n"
  shows "\<exists>bs. batch_loop es n t cur = Inr bs \<and> batches_ok (cur @ es) n bs"
  using assms
proof (induction es n t cur rule: batch_loop.induct)
  case (1 n t cur)
  then show ?case by (simp add: mk_event_batch_total batches_ok_def)
next
  case (2 e es n t cur)
  show ?case
  proof (cases "me_event_time e = t")
    case True
    then show ?thesis using "2.IH"(2) "2.prems" by simp
  next
    case False
    then have "cur \<noteq> []" using "2.prems"(2) by simp
    then have later: "t < me_event_time e" "\<forall>g \<in> set es. me_event_time e \<le> me_event_time g"
      using False "2.prems"(1,3) by (auto simp: sorted_append tape_key_def neq_Nil_conv)
    have b: "mk_event_batch n (utc t) cur = Inr \<lparr>eb_batch_sequence = n, eb_event_time = t, eb_events = cur\<rparr>"
      using \<open>cur \<noteq> []\<close> "2.prems" by (intro mk_event_batch_total) (simp_all add: sorted_append)
    have "sorted (map tape_key ([e] @ es))" using "2.prems"(1) by (simp add: sorted_append)
    then have "\<exists>bs. batch_loop es (n + 1) (me_event_time e) [e] = Inr bs \<and> batches_ok ([e] @ es) (n + 1) bs"
      by (rule "2.IH"(1) [OF False]) (use "2.prems"(4) in simp_all)
    then obtain bs where bs: "batch_loop es (n + 1) (me_event_time e) [e] = Inr bs" "batches_ok (e # es) (n + 1) bs"
      by (metis append_Cons append_Nil)
    have "batches_ok (cur @ e # es) n (\<lparr>eb_batch_sequence = n, eb_event_time = t, eb_events = cur\<rparr> # bs)"
      using batches_ok_Cons [OF bs(2) \<open>cur \<noteq> []\<close> "2.prems"(3)] later by fastforce
    then show ?thesis using False b bs(1) by simp
  qed
qed

lemma batch_is_filter:
  assumes "sorted_wrt (<) (map eb_event_time bs)" "\<forall>b \<in> set bs. \<forall>e \<in> set (eb_events b). me_event_time e = eb_event_time b" "b \<in> set bs"
  shows "eb_events b = filter (\<lambda>e. me_event_time e = eb_event_time b) (concat (map eb_events bs))"
  using assms
proof (induction bs)
  case (Cons c bs)
  show ?case
  proof (cases "b = c")
    case True
    have "filter (\<lambda>e. me_event_time e = eb_event_time c) (concat (map eb_events bs)) = []"
      using Cons.prems(1,2) by (force simp: filter_empty_conv)
    moreover have "filter (\<lambda>e. me_event_time e = eb_event_time c) (eb_events c) = eb_events c"
      using Cons.prems(2) by (simp add: filter_id_conv)
    ultimately show ?thesis by (simp add: True)
  next
    case False
    then have "b \<in> set bs" "eb_event_time c < eb_event_time b" using Cons.prems(1,3) by auto
    then have none: "filter (\<lambda>e. me_event_time e = eb_event_time b) (eb_events c) = []"
      using Cons.prems(2) by (force simp: filter_empty_conv)
    have "eb_events b = filter (\<lambda>e. me_event_time e = eb_event_time b) (concat (map eb_events bs))"
      by (rule Cons.IH) (use Cons.prems \<open>b \<in> set bs\<close> in simp_all)
    with none show ?thesis by (metis append_Nil concat.simps(2) filter_append list.map(2))
  qed
qed simp

lemma mk_event_tape_sorted: "mk_event_tape fp es v = Inr t \<Longrightarrow> sorted (map tape_key (et_events t))"
  by (auto simp: mk_event_tape_def raising_Inr_iff Let_def)

text \<open>Replaying a tape in batches never raises, loses nothing and keeps the order: the batches are numbered from zero, their
  times strictly increase, each holds exactly the events of its time, and together they are the tape.\<close>

theorem tape_batches_exact:
  assumes "mk_event_tape fp es v = Inr t"
  shows "\<exists>bs. tape_batches t = Inr bs \<and> concat (map eb_events bs) = et_events t
    \<and> map eb_batch_sequence bs = map int [0..<length bs] \<and> sorted_wrt (<) (map eb_event_time bs)
    \<and> (\<forall>b \<in> set bs. eb_events b \<noteq> [] \<and> eb_events b = filter (\<lambda>e. me_event_time e = eb_event_time b) (et_events t))"
proof -
  have sorted: "sorted (map tape_key (et_events t))" by (rule mk_event_tape_sorted [OF assms])
  obtain bs where bs: "tape_batches t = Inr bs" "batches_ok (et_events t) 0 bs"
  proof (cases "et_events t")
    case Nil
    then show thesis using that [of "[]"] by (simp add: tape_batches_def batches_ok_def)
  next
    case (Cons e es)
    then show thesis using that batch_loop_total [of "[]" "et_events t" "me_event_time e" 0] sorted
      by (auto simp: tape_batches_def)
  qed
  then show ?thesis using batch_is_filter [of bs] by (auto simp: batches_ok_def)
qed

section \<open>Replay by time\<close>

lemma takeWhile_filter:
  "sorted_wrt (\<lambda>x y. P y \<longrightarrow> P x) xs \<Longrightarrow> takeWhile P xs = filter P xs \<and> dropWhile P xs = filter (\<lambda>x. \<not> P x) xs"
proof (induction xs)
  case (Cons x xs)
  show ?case
  proof (cases "P x")
    case False
    then have "\<forall>y \<in> set xs. \<not> P y" using Cons.prems by auto
    with False show ?thesis by (simp add: filter_empty_conv filter_id_conv)
  qed (use Cons in simp)
qed simp

lemma tape_time_sorted:
  assumes "sorted (map tape_key es)"
  shows "sorted_wrt (\<lambda>x y. me_event_time x \<le> me_event_time y) es"
  using assms unfolding sorted_map by (rule sorted_wrt_mono_rel [rotated]) (auto simp: tape_key_def)

text \<open>Replay can stop at any time and continue from there. On a tape the events up to a boundary are the slice that ends
  there, a prefix of the tape, and the slice from the boundary on is exactly the rest, so no event is replayed twice or left
  out whether the boundary belongs to the first or to the second part.\<close>

theorem tape_replay_splits:
  assumes "mk_event_tape fp es v = Inr t"
  shows "\<exists>xs ys. iter_events_until t (Aware b z) first = Inr xs \<and> tape_slice t None (Some (Aware b z)) i first = Inr xs
    \<and> tape_slice t (Some (Aware b z)) None (\<not> first) j = Inr ys \<and> xs @ ys = et_events t"
proof -
  let ?P = "\<lambda>e. me_event_time e < b \<or> first \<and> me_event_time e = b"
  have "sorted_wrt (\<lambda>x y. ?P y \<longrightarrow> ?P x) (et_events t)"
    by (rule sorted_wrt_mono_rel [OF _ tape_time_sorted [OF mk_event_tape_sorted [OF assms]]]) auto
  note split = takeWhile_filter [OF this]
  have rest: "(\<lambda>e. b < me_event_time e \<or> \<not> first \<and> me_event_time e = b) = (\<lambda>e. \<not> ?P e)" by (auto simp: fun_eq_iff)
  have "takeWhile ?P (et_events t) @ dropWhile ?P (et_events t) = et_events t" by (rule takeWhile_dropWhile_id)
  then show ?thesis
    using split by (simp add: iter_events_until_def tape_slice_def raising.simps rest)
qed

section \<open>A bound tape lies in its snapshot\<close>

lemma replacement_time_history:
  assumes "history_bound f d field fallback = Inr dt" "dt = Aware s z"
  shows "replacement_time f (replacement d field) fallback = Inr s"
  using assms by (auto simp: history_bound_def replacement_time_def utc_def split: option.splits)

lemma select_effective:
  assumes "effective_history f d = Inr (s, e)"
    and "find (\<lambda>d. cd_requirement d = dd_requirement dep) (pr_decisions (sp_preflight_report p)) = Some d"
    and "select_snapshot_series f p dep = Inr (xs, s', e')"
  shows "s' = s \<and> e' = e \<and> xs = filter (\<lambda>x. series_matches d x \<and> se_start x < e \<and> s < se_end x) (sp_series p)
    \<and> cd_requirement d = dd_requirement dep \<and> cd_classification d \<noteq> Preflight_UNSUPPORTED \<and> d \<in> set (pr_decisions (sp_preflight_report p))"
proof -
  have req: "cd_requirement d = dd_requirement dep" "d \<in> set (pr_decisions (sp_preflight_report p))"
    using assms(2) by (auto simp: find_Some_iff)
  obtain zs ze where "history_bound f d ''history_start'' (cq_start (cd_requirement d)) = Inr (Aware s zs)"
    "history_bound f d ''history_end'' (cq_end (cd_requirement d)) = Inr (Aware e ze)"
    using assms(1) by (auto simp: effective_history_def raising_Inr_iff with_aware_eq_Inr)
  then have "replacement_time f (replacement d ''history_start'') (cq_start (cd_requirement d)) = Inr s"
    "replacement_time f (replacement d ''history_end'') (cq_end (cd_requirement d)) = Inr e"
    by (simp_all add: replacement_time_history)
  then show ?thesis using assms(2,3) req by (auto simp: select_snapshot_series_def raising_Inr_iff)
qed

lemma bind_loop_facts:
  assumes "bind_loop f t p ds = Inr counts" "d \<in> set ds" "e \<in> set (et_events t)" "me_dependency_id e = dd_dependency_id d"
  shows "\<exists>xs s u. select_snapshot_series f p d = Inr (xs, s, u) \<and> me_instrument_id e = cq_instrument_id (dd_requirement d)
    \<and> fst ` set (me_values e) = set (dd_fields d) \<and> s \<le> me_event_time e \<and> me_event_time e < u
    \<and> (\<exists>x \<in> set xs. holds_at x (me_event_time e))"
  using assms
proof (induction ds arbitrary: counts)
  case (Cons c ds)
  obtain xs s u where sel: "select_snapshot_series f p c = Inr (xs, s, u)" using Cons.prems(1) by auto
  let ?es = "filter (\<lambda>g. me_dependency_id g = dd_dependency_id c) (et_events t)"
  have checks: "\<forall>g \<in> set ?es. list_all (\<lambda>(b, m). \<not> b) (event_checks c xs s u g)" and rest: "\<exists>k. bind_loop f t p ds = Inr k"
    using Cons.prems(1) sel by (auto simp: raising_Inr_iff Let_def list_all_iff)
  show ?case
  proof (cases "d = c")
    case True
    then have "list_all (\<lambda>(b, m). \<not> b) (event_checks c xs s u e)" using checks Cons.prems(3,4) by simp
    then show ?thesis using sel True by (auto simp: event_checks_def Let_def list_ex_iff holds_at_def)
  next
    case False
    then show ?thesis using rest Cons.IH Cons.prems(2-4) by auto
  qed
qed simp

lemma bind_loop_counts:
  "bind_loop f t p ds = Inr counts \<Longrightarrow>
   counts = map (\<lambda>d. (dd_dependency_id d, int (length (filter (\<lambda>e. me_dependency_id e = dd_dependency_id d) (et_events t))))) ds"
  by (induction ds arbitrary: counts) (auto simp: raising_Inr_iff Let_def)

lemma counted_once:
  assumes "distinct ids" "\<forall>e \<in> set es. g e \<in> set ids"
  shows "sum_list (map (\<lambda>i. int (length (filter (\<lambda>e. g e = i) es))) ids) = int (length es)"
  using assms(2)
proof (induction es)
  case (Cons e es)
  have "sum_list (map (\<lambda>i. int (length (filter (\<lambda>e. g e = i) (e # es)))) ids)
      = sum_list (map (\<lambda>i. (if g e = i then 1 else 0) + int (length (filter (\<lambda>e. g e = i) es))) ids)"
    by (intro arg_cong [of _ _ sum_list] map_cong) auto
  also have "\<dots> = sum_list (map (\<lambda>i. if g e = i then 1 else 0) ids)
      + sum_list (map (\<lambda>i. int (length (filter (\<lambda>e. g e = i) es))) ids)"
    by (rule sum_list_addf)
  also have "sum_list (map (\<lambda>i. if g e = i then 1 else (0::int)) ids) = 1"
    using Cons.prems assms(1) by (simp add: sum_list_distinct_conv_sum_set)
  finally show ?case using Cons by simp
qed simp

text \<open>C24: A tape bound to a frozen snapshot and a manifest replays only data the snapshot vouches for. Every event belongs to a
  declared dependency, names its instrument and carries exactly its fields; its preflight decision is supported, and its
  time lies in exactly one of the series that decision matches. The binding names the snapshot and counts every event of
  the tape once.\<close>

theorem bound_tape_within_snapshot:
  assumes ok: "\<forall>x \<in> set series. series_ok x"
    and p: "mk_data_snapshot f sid pid report series created ms = Inr p"
    and b: "bind_event_tape f t p m = Inr b"
  shows "tb_snapshot_fingerprint b = snapshot_fingerprint p \<and> et_snapshot_fingerprint t = snapshot_fingerprint p
    \<and> sum_list (map snd (tb_dependency_event_counts b)) = int (length (et_events t))
    \<and> (\<forall>e \<in> set (et_events t). \<exists>d \<in> set (sk_data_dependencies m).
         dd_dependency_id d = me_dependency_id e \<and> cq_instrument_id (dd_requirement d) = me_instrument_id e
         \<and> fst ` set (me_values e) = set (dd_fields d)
         \<and> (\<exists>c \<in> set (pr_decisions report). cd_requirement c = dd_requirement d \<and> cd_classification c \<noteq> Preflight_UNSUPPORTED
              \<and> (\<exists>!x. x \<in> set series \<and> series_matches c x \<and> holds_at x (me_event_time e))))"
proof -
  let ?ds = "sk_data_dependencies m"
  obtain counts where loop: "bind_loop f t p ?ds = Inr counts"
    and bind: "mk_tape_binding (tape_fingerprint t) (snapshot_fingerprint p) (sk_fingerprint m) (sort counts) = Inr b"
    and ids: "me_dependency_id ` set (et_events t) = dd_dependency_id ` set ?ds"
    and fp: "et_snapshot_fingerprint t = snapshot_fingerprint p"
    using b by (auto simp: bind_event_tape_def raising_Inr_iff Let_def)
  have b': "tb_snapshot_fingerprint b = snapshot_fingerprint p" "tb_dependency_event_counts b = sort counts"
    "distinct (map fst (sort counts))"
    using bind by (auto simp: mk_tape_binding_def raising_Inr_iff)
  note counts = bind_loop_counts [OF loop]
  have "distinct (map fst counts)" using b'(3) by (metis distinct_sort mset_eq_imp_distinct_iff mset_map mset_sort)
  then have "distinct (map dd_dependency_id ?ds)" unfolding counts by (simp add: comp_def)
  moreover have "sum_list (map snd (sort counts)) = sum_list (map snd counts)"
    by (metis mset_map mset_sort sum_mset_sum_list)
  ultimately have total: "sum_list (map snd (sort counts)) = int (length (et_events t))"
    using counted_once [of "map dd_dependency_id ?ds" "et_events t" me_dependency_id] ids
    by (auto simp: counts comp_def)
  have "\<exists>d \<in> set ?ds. dd_dependency_id d = me_dependency_id e \<and> cq_instrument_id (dd_requirement d) = me_instrument_id e
      \<and> fst ` set (me_values e) = set (dd_fields d)
      \<and> (\<exists>c \<in> set (pr_decisions report). cd_requirement c = dd_requirement d \<and> cd_classification c \<noteq> Preflight_UNSUPPORTED
           \<and> (\<exists>!x. x \<in> set series \<and> series_matches c x \<and> holds_at x (me_event_time e)))"
    if e: "e \<in> set (et_events t)" for e
  proof -
    obtain d where d: "d \<in> set ?ds" "me_dependency_id e = dd_dependency_id d" using ids e by (metis imageE imageI)
    obtain xs s u where sel: "select_snapshot_series f p d = Inr (xs, s, u)" "me_instrument_id e = cq_instrument_id (dd_requirement d)"
      "fst ` set (me_values e) = set (dd_fields d)" "s \<le> me_event_time e" "me_event_time e < u"
      using bind_loop_facts [OF loop d(1) e d(2)] by blast
    obtain c where c: "find (\<lambda>c. cd_requirement c = dd_requirement d) (pr_decisions report) = Some c"
      using sel(1) snapshot_facts(1) [OF p] by (auto simp: select_snapshot_series_def split: option.splits)
    then have "c \<in> set (pr_decisions report)" by (auto simp: find_Some_iff)
    from snapshot_facts(2) [OF p ok this] obtain s' u' where h: "effective_history f c = Inr (s', u')"
      "\<forall>t. s' \<le> t \<and> t < u' \<longrightarrow> (\<exists>!x. x \<in> set series \<and> series_matches c x \<and> holds_at x t)" by blast
    have "s = s' \<and> u = u' \<and> cd_requirement c = dd_requirement d \<and> cd_classification c \<noteq> Preflight_UNSUPPORTED"
      using select_effective [OF h(1) _ sel(1)] c snapshot_facts(1) [OF p] by simp
    then show ?thesis using d sel h(2) \<open>c \<in> _\<close> by metis
  qed
  then show ?thesis using fp b' total by simp
qed

section \<open>Samples\<close>

definition sample_market_event :: "string \<Rightarrow> instant \<Rightarrow> int \<Rightarrow> market_event" where
  "sample_market_event i t q = \<lparr>me_dependency_id = ''prices'', me_event_id = i, me_instrument_id = ''AAPL'', me_event_time = t,
     me_sequence = q, me_values = [(''close'', PInt 7)]\<rparr>"

theorem event_tape_exact_witness:
  "\<exists>t. mk_event_tape (digest_text ''snapshot'') [sample_market_event ''b'' 14 2, sample_market_event ''a'' 12 1]
         EVENT_TAPE_DEFINITION_VERSION = Inr t
     \<and> et_events t = [sample_market_event ''a'' 12 1, sample_market_event ''b'' 14 2]
     \<and> mk_event_tape (digest_text ''snapshot'') [sample_market_event ''a'' 12 1, sample_market_event ''b'' 14 2]
         EVENT_TAPE_DEFINITION_VERSION = Inr t"
proof -
  let ?a = "sample_market_event ''a'' 12 1" and ?b = "sample_market_event ''b'' 14 2"
  let ?t = "\<lparr>et_snapshot_fingerprint = digest_text ''snapshot'', et_events = [?a, ?b],
    et_definition_version = EVENT_TAPE_DEFINITION_VERSION\<rparr>"
  have sorted: "sort_key tape_key [?b, ?a] = [?a, ?b]" by (simp add: tape_key_def sample_market_event_def)
  have "mk_event_tape (digest_text ''snapshot'') [?b, ?a] EVENT_TAPE_DEFINITION_VERSION = Inr ?t"
    using event_tape_exact [of "digest_text ''snapshot''" "[?b, ?a]" EVENT_TAPE_DEFINITION_VERSION ?t "[]", THEN conjunct1, THEN iffD2]
    unfolding sorted by (simp add: sample_market_event_def)
  moreover from this have "mk_event_tape (digest_text ''snapshot'') [?a, ?b] EVENT_TAPE_DEFINITION_VERSION = Inr ?t"
    using event_tape_exact [of "digest_text ''snapshot''" "[?b, ?a]" EVENT_TAPE_DEFINITION_VERSION ?t "[?a, ?b]", THEN conjunct2]
    by (simp add: add_mset_commute)
  ultimately show ?thesis by (intro exI [of _ ?t]) simp
qed

definition sample_dependency :: data_dependency where
  "sample_dependency = \<lparr>dd_dependency_id = ''prices'', dd_requirement = sample_requirement ''1d'', dd_fields = [''close''],
     dd_lookback_periods = 0\<rparr>"

lemma sample_bound:
  assumes "sp_preflight_report p = sample_report" "sp_series p = [sample_series 10 20]"
  shows "\<exists>b. bind_event_tape f
      \<lparr>et_snapshot_fingerprint = snapshot_fingerprint p, et_events = [sample_market_event ''a'' 12 1],
       et_definition_version = EVENT_TAPE_DEFINITION_VERSION\<rparr> p
      \<lparr>sk_data_dependencies = [sample_dependency], sk_fingerprint = digest_text ''manifest''\<rparr> = Inr b"
proof -
  let ?t = "\<lparr>et_snapshot_fingerprint = snapshot_fingerprint p, et_events = [sample_market_event ''a'' 12 1],
    et_definition_version = EVENT_TAPE_DEFINITION_VERSION\<rparr>"
  have fp: "is_digest (tape_fingerprint ?t)"
    by (simp add: tape_fingerprint_def is_digest_digest market_event_py_def sample_market_event_def)
  have "select_snapshot_series f p sample_dependency = Inr ([sample_series 10 20], 10, 20)"
    using assms by (simp add: select_snapshot_series_def sample_report_def sample_dependency_def raising.simps replacement_time_def
        replacement_def series_matches_def replaced_def sample_requirement_def sample_series_def)
  then have "bind_loop f ?t p [sample_dependency] = Inr [(''prices'', 1)]"
    by (simp add: raising.simps event_checks_def sample_dependency_def sample_market_event_def sample_requirement_def sample_series_def)
  moreover have "dd_dependency_id sample_dependency = ''prices''" "me_dependency_id (sample_market_event ''a'' 12 1) = ''prices''"
    by (simp_all add: sample_dependency_def sample_market_event_def)
  ultimately show ?thesis
    using fp by (simp add: bind_event_tape_def mk_tape_binding_def raising_Inr_iff digests_clean blank_iff py_space_def
        del: bind_loop.simps)
qed

theorem bound_tape_within_snapshot_witness:
  "\<exists>p b. mk_data_snapshot (\<lambda>v. Inl (ValueError v)) ''snap'' ''prov'' sample_report [sample_series 10 20] (Aware 30 0) [] = Inr p
     \<and> bind_event_tape (\<lambda>v. Inl (ValueError v))
         \<lparr>et_snapshot_fingerprint = snapshot_fingerprint p, et_events = [sample_market_event ''a'' 12 1],
          et_definition_version = EVENT_TAPE_DEFINITION_VERSION\<rparr> p
         \<lparr>sk_data_dependencies = [sample_dependency], sk_fingerprint = digest_text ''manifest''\<rparr> = Inr b
     \<and> sum_list (map snd (tb_dependency_event_counts b)) = 1"
proof -
  let ?f = "\<lambda>v. Inl (ValueError v) :: datetime result"
  obtain p where p: "mk_data_snapshot ?f ''snap'' ''prov'' sample_report [sample_series 10 20] (Aware 30 0) [] = Inr p"
    "sp_preflight_report p = sample_report" "sp_series p = [sample_series 10 20]" using sample_snapshot_accepted [of ?f] by blast
  obtain b where b: "bind_event_tape ?f
      \<lparr>et_snapshot_fingerprint = snapshot_fingerprint p, et_events = [sample_market_event ''a'' 12 1],
       et_definition_version = EVENT_TAPE_DEFINITION_VERSION\<rparr> p
      \<lparr>sk_data_dependencies = [sample_dependency], sk_fingerprint = digest_text ''manifest''\<rparr> = Inr b"
    using sample_bound [OF p(2,3)] by blast
  have "\<forall>x \<in> set [sample_series 10 20]. series_ok x" by (simp add: sample_series_ok)
  from bound_tape_within_snapshot [OF this p(1) b] p(1) b show ?thesis by auto
qed

end
