(* ===== verification/Civil_Dates.thy ===== *)
theory Civil_Dates
  imports Canonical_Text
begin

text \<open>
  The part of Python's \<open>datetime.date\<close> and \<open>calendar\<close> that the schedules use. A date is its proleptic Gregorian
  ordinal, 1 for 0001-01-01; \<open>ord2ymd\<close> (Canonical) gives its year, month and day, and the functions here are the
  interpreter's own: the ordinal of a year, month and day, the length of a month, the ISO weekday and the ISO
  calendar. The lemmas show that they cut the line of ordinals into years, months and ISO weeks.
\<close>

section \<open>The calendar functions\<close>

definition py_date :: "int \<Rightarrow> bool" where
  "py_date n \<longleftrightarrow> 1 \<le> n \<and> n \<le> 3652059"

definition days_before_year :: "int \<Rightarrow> int" where
  "days_before_year y = (y - 1) * 365 + (y - 1) div 4 - (y - 1) div 100 + (y - 1) div 400"

definition ymd2ord :: "int \<Rightarrow> int \<Rightarrow> int \<Rightarrow> int" where
  "ymd2ord y m d = days_before_year y + days_before_month y m + d"

definition date_year :: "int \<Rightarrow> int" where
  "date_year n = fst (ord2ymd n)"

definition date_month :: "int \<Rightarrow> int" where
  "date_month n = fst (snd (ord2ymd n))"

text \<open>\<open>calendar.monthrange(year, month)[1]\<close>.\<close>

definition month_length :: "int \<Rightarrow> int \<Rightarrow> int" where
  "month_length y m =
     [0, 31, 28, 31, 30, 31, 30, 31, 31, 30, 31, 30, 31] ! nat m + (if m = 2 \<and> leap_year y then 1 else 0)"

definition isoweekday :: "int \<Rightarrow> int" where
  "isoweekday n = (if n mod 7 = 0 then 7 else n mod 7)"

definition isoweek1monday :: "int \<Rightarrow> int" where
  "isoweek1monday y =
     (let firstday = ymd2ord y 1 1; firstweekday = (firstday + 6) mod 7; week1monday = firstday - firstweekday
      in if firstweekday > 3 then week1monday + 7 else week1monday)"

definition isocalendar :: "int \<Rightarrow> int \<times> int \<times> int" where
  "isocalendar n =
     (let y = date_year n; monday = isoweek1monday y; week = (n - monday) div 7; d = (n - monday) mod 7
      in if week < 0 then
           let monday' = isoweek1monday (y - 1) in (y - 1, (n - monday') div 7 + 1, (n - monday') mod 7 + 1)
         else if 52 \<le> week \<and> isoweek1monday (y + 1) \<le> n then (y + 1, 1, d + 1)
         else (y, week + 1, d + 1))"

section \<open>Years and months\<close>

lemma div_step: "0 < k \<Longrightarrow> y div k = (y - 1) div k + (if y mod k = 0 then 1 else 0)" for y k :: int
proof -
  assume k: "0 < k"
  have y: "y = k * (y div k) + y mod k" by simp
  show ?thesis
  proof (cases "y mod k = 0")
    case True
    with k y have "(y - 1) div k = y div k - 1"
      by (intro int_div_pos_eq [where r = "k - 1"]) (auto simp: algebra_simps)
    with True show ?thesis by simp
  next
    case False
    then have "0 < y mod k" "y mod k < k" using k pos_mod_sign [OF k, of y] pos_mod_bound [OF k, of y] by linarith+
    then have "(y - 1) div k = y div k"
      using k y by (intro int_div_pos_eq [where r = "y mod k - 1"]) linarith+
    with False show ?thesis by simp
  qed
qed

lemma days_before_year_Suc: "days_before_year (y + 1) = days_before_year y + (if leap_year y then 366 else 365)"
proof -
  have sum: "y * 365 + q4 - q100 + q400 = (y - 1) * 365 + p4 - p100 + p400 + (if a \<and> (\<not> b \<or> c) then 366 else 365)"
    if "q4 = p4 + (if a then 1 else 0)" "q100 = p100 + (if b then 1 else 0)" "q400 = p400 + (if c then 1 else 0)"
      "c \<longrightarrow> b" "b \<longrightarrow> a" for q4 q100 q400 p4 p100 p400 :: int and a b c
    using that by (cases a; cases b; cases c) simp_all
  have "y mod 100 = 0 \<longrightarrow> y mod 4 = 0" "y mod 400 = 0 \<longrightarrow> y mod 100 = 0"
    unfolding dvd_eq_mod_eq_0 [symmetric] by (auto elim: dvd_trans [rotated])
  then show ?thesis
    unfolding days_before_year_def leap_year_def add_diff_cancel_right'
    by (intro sum div_step zero_less_numeral)
qed

lemma days_before_year_less: "y < z \<Longrightarrow> days_before_year y + 365 \<le> days_before_year z"
proof (induction z rule: int_gr_induct)
  case base
  then show ?case by (simp add: days_before_year_Suc)
next
  case (step i)
  then show ?case by (simp add: days_before_year_Suc)
qed

lemma year_unique:
  "days_before_year y < n \<Longrightarrow> n \<le> days_before_year (y + 1) \<Longrightarrow>
   days_before_year z < n \<Longrightarrow> n \<le> days_before_year (z + 1) \<Longrightarrow> y = z"
  using days_before_year_less [of "y + 1" z] days_before_year_less [of "z + 1" y] 
  by (cases y z rule: linorder_cases) (auto, (smt (verit) days_before_year_less)+)

lemma month_cases:
  "1 \<le> m \<Longrightarrow> m \<le> 12 \<Longrightarrow> m \<in> {1, 2, 3, 4, 5, 6, 7, 8, 9, 10, 11, 12}" for m :: int
  by simp presburger

lemma days_before_month_Suc:
  "1 \<le> m \<Longrightarrow> m \<le> 11 \<Longrightarrow> days_before_month y (m + 1) = days_before_month y m + month_length y m"
  using month_cases [of m] by (auto simp: days_before_month_def month_length_def)

lemma month_length_bounds: "1 \<le> m \<Longrightarrow> m \<le> 12 \<Longrightarrow> 28 \<le> month_length y m \<and> month_length y m \<le> 31"
  using month_cases [of m] by (auto simp: month_length_def)

lemma days_before_month_1 [simp]: "days_before_month y 1 = 0"
  by (simp add: days_before_month_def)

lemma december_ends_year: "days_before_year y + days_before_month y 12 + month_length y 12 = days_before_year (y + 1)"
  by (simp add: days_before_month_def month_length_def days_before_year_Suc)

lemma days_before_month_less:
  assumes "m < k" "1 \<le> m" "k \<le> 12"
  shows "days_before_month y m + month_length y m \<le> days_before_month y k"
  using assms
proof (induction k rule: int_gr_induct)
  case base
  then show ?case by (simp add: days_before_month_Suc)
next
  case (step i)
  then show ?case using days_before_month_Suc [of i y] month_length_bounds [of i y] by simp
qed

definition civil_date :: "int \<Rightarrow> int \<Rightarrow> int \<Rightarrow> bool" where
  "civil_date y m d \<longleftrightarrow> 1 \<le> m \<and> m \<le> 12 \<and> 1 \<le> d \<and> d \<le> month_length y m"

lemma civil_in_year:
  assumes "civil_date y m d"
  shows "days_before_year y < ymd2ord y m d" "ymd2ord y m d \<le> days_before_year (y + 1)"
proof -
  have "0 \<le> days_before_month y m"
    using days_before_month_less [of 1 m y] month_length_bounds [of 1 y] assms by (cases "m = 1") (auto simp: civil_date_def)
  moreover have "days_before_month y m + month_length y m \<le> days_before_month y 12 + month_length y 12"
    using days_before_month_less [of m 12 y] month_length_bounds [of 12 y] assms by (cases "m = 12") (auto simp: civil_date_def)
  ultimately show "days_before_year y < ymd2ord y m d" "ymd2ord y m d \<le> days_before_year (y + 1)"
    using assms december_ends_year [of y] by (auto simp: civil_date_def ymd2ord_def)
qed

lemma civil_unique:
  assumes "civil_date y m d" "civil_date y' m' d'" "ymd2ord y m d = ymd2ord y' m' d'"
  shows "y = y' \<and> m = m' \<and> d = d'"
proof -
  have y: "y = y'" using year_unique civil_in_year [OF assms(1)] civil_in_year [OF assms(2)] assms(3) by metis
  have "m = m'"
    using assms y days_before_month_less [of m m' y] days_before_month_less [of m' m y]
    by (cases m m' rule: linorder_cases) (auto simp: civil_date_def ymd2ord_def)
  with y assms(3) show ?thesis by (simp add: ymd2ord_def)
qed

lemma days_before_year_parts:
  assumes "0 \<le> a" "a \<le> 3" "0 \<le> b" "b \<le> 24" "0 \<le> c" "c \<le> 3"
  shows "days_before_year (400 * q + 100 * a + 4 * b + c + 1) = 146097 * q + 36524 * a + 1461 * b + 365 * c"
proof -
  let ?y = "400 * q + 100 * a + 4 * b + c"
  have "?y div 4 = 100 * q + 25 * a + b" by (rule int_div_pos_eq [where r = c]) (use assms in auto)
  moreover have "?y div 100 = 4 * q + a" by (rule int_div_pos_eq [where r = "4 * b + c"]) (use assms in auto)
  moreover have "?y div 400 = q" by (rule int_div_pos_eq [where r = "100 * a + 4 * b + c"]) (use assms in auto)
  ultimately show ?thesis unfolding days_before_year_def add_diff_cancel_right' by simp
qed

lemma month_search:
  assumes "0 \<le> r" "r < 365" "m = (r + 50) div 32" "m' = (if r < days_before_month y m then m - 1 else m)"
  shows "civil_date y m' (r - days_before_month y m' + 1)"
proof -
  have m: "32 * m \<le> r + 50" "r + 50 < 32 * m + 32" using assms(3) by linarith+
  then have "1 \<le> m" "m \<le> 12" using assms(1,2) by linarith+
  then have "m \<in> {1, 2, 3, 4, 5, 6, 7, 8, 9, 10, 11, 12}" by (rule month_cases)
  then show ?thesis
    using m assms(1,2) unfolding assms(4)
    by (elim insertE emptyE) (simp_all add: civil_date_def days_before_month_def month_length_def)
qed

lemma year_search:
  fixes n0 :: int
  assumes "q = n0 div 146097" "r400 = n0 mod 146097" "a = r400 div 36524" "r100 = r400 mod 36524"
    and "b = r100 div 1461" "r4 = r100 mod 1461" "c = r4 div 365" "r = r4 mod 365"
  shows "n0 = 146097 * q + 36524 * a + 1461 * b + 365 * c + r \<and> 0 \<le> r \<and> r < 365 \<and> 0 \<le> a \<and> 0 \<le> b \<and> b \<le> 24 \<and> 0 \<le> c
    \<and> (c = 4 \<and> r = 0 \<and> b \<le> 23 \<and> a \<le> 3 \<or> a = 4 \<and> b = 0 \<and> c = 0 \<and> r = 0 \<or> a \<le> 3 \<and> c \<le> 3)"
proof -
  have n: "n0 = 146097 * q + r400" "0 \<le> r400" "r400 < 146097" using assms(1,2) by simp_all
  have r400: "r400 = 36524 * a + r100" "0 \<le> r100" "r100 < 36524" using assms(3,4) by simp_all
  have r100: "r100 = 1461 * b + r4" "0 \<le> r4" "r4 < 1461" using assms(5,6) by simp_all
  have r4: "r4 = 365 * c + r" "0 \<le> r" "r < 365" using assms(7,8) by simp_all
  have "0 \<le> a" "0 \<le> b" "0 \<le> c" using n(2) r400(2) r100(2) assms(3,5,7) by (simp_all add: pos_imp_zdiv_nonneg_iff)
  have "a \<le> 4" "b \<le> 24" "c \<le> 4" using n r400 r100 r4 by linarith+
  have "c = 4 \<Longrightarrow> r = 0" "c = 4 \<Longrightarrow> b \<le> 23" using r4 r100 r400 by linarith+
  have "a = 4 \<Longrightarrow> r100 = 0" using n r400 by linarith
  then have "a = 4 \<Longrightarrow> b = 0 \<and> c = 0 \<and> r = 0" using r100 r4 \<open>0 \<le> b\<close> \<open>0 \<le> c\<close> by linarith
  have "a = 4 \<or> a \<le> 3" "c = 4 \<or> c \<le> 3" using \<open>a \<le> 4\<close> \<open>c \<le> 4\<close> by linarith+
  then show ?thesis
    using \<open>0 \<le> a\<close> \<open>0 \<le> b\<close> \<open>0 \<le> c\<close> \<open>a \<le> 4\<close> \<open>b \<le> 24\<close> \<open>c \<le> 4\<close> n r400 r100 r4
      \<open>c = 4 \<Longrightarrow> r = 0\<close> \<open>c = 4 \<Longrightarrow> b \<le> 23\<close> \<open>a = 4 \<Longrightarrow> b = 0 \<and> c = 0 \<and> r = 0\<close>
    by (elim disjE) auto
qed

lemma ord2ymd_civil:
  assumes "ord2ymd n = (y, m, d)"
  shows "civil_date y m d \<and> ymd2ord y m d = n"
proof -
  define n0 where "n0 = n - 1"
  define q where "q = n0 div 146097"
  define r400 where "r400 = n0 mod 146097"
  define a where "a = r400 div 36524"
  define r100 where "r100 = r400 mod 36524"
  define b where "b = r100 div 1461"
  define r4 where "r4 = r100 mod 1461"
  define c where "c = r4 div 365"
  define r where "r = r4 mod 365"
  note parts = year_search [OF q_def r400_def a_def r100_def b_def r4_def c_def r_def]
  let ?y = "400 * q + 100 * a + 4 * b + c + 1"
  have result: "(y, m, d) = (if c = 4 \<or> a = 4 then (?y - 1, 12, 31)
     else let m = (r + 50) div 32 in if r < days_before_month ?y m then (?y, m - 1, r - days_before_month ?y (m - 1) + 1)
       else (?y, m, r - days_before_month ?y m + 1))"
    using assms unfolding ord2ymd_def Let_def n0_def [symmetric] q_def [symmetric] r400_def [symmetric] a_def [symmetric]
      r100_def [symmetric] b_def [symmetric] r4_def [symmetric] c_def [symmetric] r_def [symmetric]
    by (simp only: ac_simps)
  show ?thesis
  proof (cases "c = 4 \<or> a = 4")
    case True
    with result have ymd: "y = 400 * q + 100 * a + 4 * b + c" "m = 12" "d = 31" by simp_all
    from True parts consider "c = 4" "r = 0" "b \<le> 23" "a \<le> 3" | "a = 4" "b = 0" "c = 0" "r = 0" by auto
    then have "days_before_year (y + 1) = n"
    proof cases
      case 1
      with days_before_year_parts [of a "b + 1" 0 q] parts show ?thesis by (simp add: ymd n0_def)
    next
      case 2
      with days_before_year_parts [of 0 0 0 "q + 1"] parts show ?thesis by (simp add: ymd n0_def)
    qed
    with december_ends_year [of y] ymd show ?thesis by (simp add: civil_date_def ymd2ord_def month_length_def)
  next
    case False
    then have "n = days_before_year ?y + r + 1" using parts days_before_year_parts [of a b c q] by (auto simp: n0_def)
    moreover have "civil_date ?y m' (r - days_before_month ?y m' + 1)"
      if "m' = (if r < days_before_month ?y ((r + 50) div 32) then (r + 50) div 32 - 1 else (r + 50) div 32)" for m'
      using month_search [OF _ _ refl that] parts by blast
    ultimately show ?thesis
      using False result by (auto simp: Let_def ymd2ord_def split: if_splits)
  qed
qed

lemma ord2ymd_ymd2ord: "civil_date y m d \<Longrightarrow> ord2ymd (ymd2ord y m d) = (y, m, d)"
  using ord2ymd_civil [of "ymd2ord y m d"] civil_unique by (cases "ord2ymd (ymd2ord y m d)") blast

lemma date_civil:
  obtains d where "civil_date (date_year n) (date_month n) d" "ymd2ord (date_year n) (date_month n) d = n"
  using ord2ymd_civil [of n] by (cases "ord2ymd n") (auto simp: date_year_def date_month_def)

lemma month_bounds: "1 \<le> date_month n" "date_month n \<le> 12"
  by (rule date_civil [of n], simp add: civil_date_def)+

lemma date_parts: "civil_date y m d \<Longrightarrow> date_year (ymd2ord y m d) = y \<and> date_month (ymd2ord y m d) = m"
  by (simp add: date_year_def date_month_def ord2ymd_ymd2ord)

lemma in_month_iff:
  assumes "1 \<le> m" "m \<le> 12"
  shows "date_year n = y \<and> date_month n = m \<longleftrightarrow> ymd2ord y m 1 \<le> n \<and> n \<le> ymd2ord y m (month_length y m)"
proof
  assume "date_year n = y \<and> date_month n = m"
  then show "ymd2ord y m 1 \<le> n \<and> n \<le> ymd2ord y m (month_length y m)"
    by (auto intro: date_civil [of n] simp: civil_date_def ymd2ord_def)
next
  assume n: "ymd2ord y m 1 \<le> n \<and> n \<le> ymd2ord y m (month_length y m)"
  define d where "d = n - ymd2ord y m 0"
  have "civil_date y m d" "ymd2ord y m d = n" using n assms by (auto simp: d_def civil_date_def ymd2ord_def)
  then show "date_year n = y \<and> date_month n = m" using date_parts by blast
qed

lemma in_year_iff: "date_year n = y \<longleftrightarrow> ymd2ord y 1 1 \<le> n \<and> n \<le> ymd2ord y 12 31"
proof -
  obtain d where "civil_date (date_year n) (date_month n) d" "ymd2ord (date_year n) (date_month n) d = n" by (rule date_civil)
  then have "days_before_year (date_year n) < n" "n \<le> days_before_year (date_year n + 1)"
    using civil_in_year by force+
  moreover have "ymd2ord y 1 1 \<le> n \<longleftrightarrow> days_before_year y < n" "ymd2ord y 12 31 = days_before_year (y + 1)"
    using december_ends_year [of y] by (auto simp: ymd2ord_def month_length_def)
  ultimately show ?thesis using year_unique by metis
qed

lemma months_in_order:
  assumes "1 \<le> m" "m \<le> 12" "1 \<le> k" "k \<le> 12"
  shows "ymd2ord y m (month_length y m) < ymd2ord y k 1 \<longleftrightarrow> m < k"
  using assms days_before_month_less [of m k y] days_before_month_less [of k m y] month_length_bounds [of m y]
    month_length_bounds [of k y]
  by (cases m k rule: linorder_cases) (auto simp: ymd2ord_def)

lemma in_months_iff:
  assumes "1 \<le> m" "m \<le> k" "k \<le> 12"
  shows "date_year n = y \<and> m \<le> date_month n \<and> date_month n \<le> k
    \<longleftrightarrow> ymd2ord y m 1 \<le> n \<and> n \<le> ymd2ord y k (month_length y k)"
    (is "?l \<longleftrightarrow> ?r")
proof
  let ?m = "date_month n"
  assume l: ?l
  then have n: "ymd2ord y ?m 1 \<le> n" "n \<le> ymd2ord y ?m (month_length y ?m)"
    using in_month_iff [of ?m n y] month_bounds [of n] by auto
  have "ymd2ord y m 1 \<le> ymd2ord y ?m 1" "ymd2ord y ?m (month_length y ?m) \<le> ymd2ord y k (month_length y k)"
    using l assms days_before_month_less [of m ?m y] days_before_month_less [of ?m k y] month_bounds [of n]
      month_length_bounds [of m y] month_length_bounds [of k y] 
    by (cases "m = ?m"; cases "?m = k"; force simp: ymd2ord_def)+
  with n show ?r by linarith
next
  let ?m = "date_month n"
  assume r: ?r
  have "ymd2ord y 1 1 \<le> ymd2ord y m 1" "ymd2ord y k (month_length y k) \<le> ymd2ord y 12 31"
    using civil_in_year [of y m 1] civil_in_year [of y k "month_length y k"] month_length_bounds [of m y]
      month_length_bounds [of k y] assms december_ends_year [of y] 
    by (auto simp: civil_date_def ymd2ord_def month_length_def)
  then have y: "date_year n = y" using r in_year_iff by simp
  then have n: "ymd2ord y ?m 1 \<le> n" "n \<le> ymd2ord y ?m (month_length y ?m)"
    using in_month_iff [of ?m n y] month_bounds [of n] by auto
  have "\<not> ?m < m" using months_in_order [of ?m m y] n r assms month_bounds [of n] by auto
  moreover have "\<not> k < ?m" using months_in_order [of k ?m y] n r assms month_bounds [of n] by auto
  ultimately show ?l using y by simp
qed

section \<open>ISO weeks\<close>

lemma monday_of: "n - (isoweekday n - 1) = 7 * ((n - 1) div 7) + 1"
  unfolding isoweekday_def by presburger

lemma isoweek1monday_week:
  obtains k where "isoweek1monday y = 7 * k + 1" "days_before_year y - 2 \<le> 7 * k + 1" "7 * k + 1 \<le> days_before_year y + 4"
proof -
  define e where "e = days_before_year y mod 7"
  define k where "k = days_before_year y div 7"
  have d: "days_before_year y = 7 * k + e" "0 \<le> e" "e \<le> 6" by (simp_all add: e_def k_def)
  have "(days_before_year y + 1 + 6) mod 7 = e" by (simp add: e_def)
  then have "isoweek1monday y = (if e > 3 then 7 * (k + 1) + 1 else 7 * k + 1)"
    by (simp add: isoweek1monday_def ymd2ord_def d(1))
  with d show ?thesis by (intro that [of "if e > 3 then k + 1 else k"]) auto
qed

lemma isoweek1monday_bounds: "days_before_year y - 2 \<le> isoweek1monday y" "isoweek1monday y \<le> days_before_year y + 4"
  by (rule isoweek1monday_week [of y], simp)+

lemma isoweek1monday_Suc: "isoweek1monday y + 364 \<le> isoweek1monday (y + 1)"
proof -
  obtain k l where "isoweek1monday y = 7 * k + 1" "isoweek1monday (y + 1) = 7 * l + 1"
    using isoweek1monday_week by metis
  moreover have "isoweek1monday y + 359 \<le> isoweek1monday (y + 1)"
    using isoweek1monday_bounds(2) [of y] isoweek1monday_bounds(1) [of "y + 1"] days_before_year_Suc [of y]
    by (simp split: if_splits)
  ultimately show ?thesis by presburger
qed

lemma isoweek1monday_less: "y < z \<Longrightarrow> isoweek1monday y + 364 \<le> isoweek1monday z"
proof (induction z rule: int_gr_induct)
  case base
  then show ?case by (rule isoweek1monday_Suc)
next
  case (step i)
  then show ?case using isoweek1monday_Suc [of i] by simp
qed

lemma isocalendar_week:
  assumes "isocalendar n = (y, w, d)"
  shows "isoweek1monday y \<le> n \<and> n < isoweek1monday (y + 1) \<and> n = isoweek1monday y + 7 * (w - 1) + (d - 1) \<and> 1 \<le> d \<and> d \<le> 7"
proof -
  let ?y = "date_year n"
  have n: "days_before_year ?y < n" "n \<le> days_before_year (?y + 1)"
    using in_year_iff [of n ?y] december_ends_year [of ?y] by (auto simp: ymd2ord_def month_length_def)
  have split: "k = 7 * (k div 7) + k mod 7" "0 \<le> k mod 7" "k mod 7 \<le> 6" for k :: int by simp_all
  consider (before) "(n - isoweek1monday ?y) div 7 < 0"
    | (after) "52 \<le> (n - isoweek1monday ?y) div 7" "isoweek1monday (?y + 1) \<le> n"
    | (inside) "0 \<le> (n - isoweek1monday ?y) div 7" "(n - isoweek1monday ?y) div 7 < 52 \<or> n < isoweek1monday (?y + 1)"
    by linarith
  then show ?thesis
  proof cases
    case before
    then have "y = ?y - 1" "w = (n - isoweek1monday (?y - 1)) div 7 + 1" "d = (n - isoweek1monday (?y - 1)) mod 7 + 1"
      using assms by (auto simp: isocalendar_def Let_def)
    moreover have "n < isoweek1monday ?y" using before by (simp add: pos_imp_zdiv_neg_iff)
    moreover have "isoweek1monday (?y - 1) \<le> n"
      using isoweek1monday_bounds(2) [of "?y - 1"] days_before_year_less [of "?y - 1" ?y] n(1) by simp
    ultimately show ?thesis using split [of "n - isoweek1monday (?y - 1)"] by simp
  next
    case after
    then have ywd: "y = ?y + 1" "w = 1" "d = (n - isoweek1monday ?y) mod 7 + 1"
      using assms by (auto simp: isocalendar_def Let_def)
    have "n \<le> isoweek1monday (?y + 1) + 2" using isoweek1monday_bounds(1) [of "?y + 1"] n(2) by simp
    moreover obtain k l where "isoweek1monday ?y = 7 * k + 1" "isoweek1monday (?y + 1) = 7 * l + 1"
      using isoweek1monday_week by metis
    ultimately have "(n - isoweek1monday ?y) mod 7 = n - isoweek1monday (?y + 1)" using after(2) by presburger
    then show ?thesis
      using ywd after(2) \<open>n \<le> isoweek1monday (?y + 1) + 2\<close> isoweek1monday_Suc [of "?y + 1"] by simp
  next
    case inside
    then have "y = ?y" "w = (n - isoweek1monday ?y) div 7 + 1" "d = (n - isoweek1monday ?y) mod 7 + 1"
      using assms by (auto simp: isocalendar_def Let_def split: if_splits)
    moreover have "isoweek1monday ?y \<le> n" using inside(1) by (simp add: pos_imp_zdiv_nonneg_iff)
    moreover have "n < isoweek1monday (?y + 1)"
      using inside(2) isoweek1monday_Suc [of ?y] split [of "n - isoweek1monday ?y"] by linarith
    ultimately show ?thesis using split [of "n - isoweek1monday ?y"] by simp
  qed
qed

lemma isocalendar_monday:
  assumes "isocalendar n = (y, w, d)"
  shows "isoweek1monday y \<le> 7 * ((n - 1) div 7) + 1 \<and> 7 * ((n - 1) div 7) + 1 < isoweek1monday (y + 1)
    \<and> isoweek1monday y + 7 * (w - 1) = 7 * ((n - 1) div 7) + 1"
proof -
  note n = isocalendar_week [OF assms]
  obtain k l where kl: "isoweek1monday y = 7 * k + 1" "isoweek1monday (y + 1) = 7 * l + 1" using isoweek1monday_week by metis
  have "(n - 1) div 7 = k + (w - 1)" by (rule int_div_pos_eq [where r = "d - 1"]) (use n kl in auto)
  moreover have "0 \<le> w - 1" "k + (w - 1) < l" using n unfolding kl by presburger+
  ultimately show ?thesis using kl by simp
qed

lemma same_week_iff:
  assumes "isocalendar a = (y, w, d)" "isocalendar b = (y', w', d')"
  shows "y = y' \<and> w = w' \<longleftrightarrow> (a - 1) div 7 = (b - 1) div 7"
proof -
  note ab = isocalendar_monday [OF assms(1)] isocalendar_monday [OF assms(2)]
  have le: "isoweek1monday (u + 1) \<le> isoweek1monday v" if "u < v" for u v
    using isoweek1monday_less [of "u + 1" v] that by (cases "v = u + 1") auto
  have "y = y'" if "(a - 1) div 7 = (b - 1) div 7"
    using ab that le [of y y'] le [of y' y] by (cases y y' rule: linorder_cases) auto
  with ab show ?thesis by auto
qed

lemma iso_year_bounds:
  assumes "py_date n" "isocalendar n = (y, w, d)"
  shows "1 \<le> y \<and> y \<le> 9999 \<and> 1 \<le> w \<and> w \<le> 99"
proof -
  note n = isocalendar_week [OF assms(2)] isocalendar_monday [OF assms(2)]
  have ends: "isoweek1monday 1 = 1" "isoweek1monday 10000 = 3652062"
    by (simp_all add: isoweek1monday_def ymd2ord_def days_before_year_def)
  have "\<not> y < 1"
    using n isoweek1monday_less [of "y + 1" 1] ends(1) assms(1) by (cases "y + 1 = 1") (auto simp: py_date_def)
  moreover have "\<not> 9999 < y"
    using n isoweek1monday_less [of 10000 y] ends(2) assms(1) by (cases "y = 10000") (auto simp: py_date_def)
  moreover have "isoweek1monday (y + 1) \<le> isoweek1monday y + 372"
    using isoweek1monday_bounds(1) [of y] isoweek1monday_bounds(2) [of "y + 1"] days_before_year_Suc [of y]
    by (simp split: if_splits)
  moreover obtain m where "isoweek1monday y \<le> m" "m < isoweek1monday (y + 1)" "isoweek1monday y + 7 * (w - 1) = m"
    using n(2) by blast
  ultimately show ?thesis by auto
qed

lemma year_bounds:
  assumes "py_date n"
  shows "1 \<le> date_year n \<and> date_year n \<le> 9999"
proof -
  let ?y = "date_year n"
  have "days_before_year ?y < n" "n \<le> days_before_year (?y + 1)"
    using in_year_iff [of n ?y] december_ends_year [of ?y] by (auto simp: ymd2ord_def month_length_def)
  moreover have "days_before_year 1 = 0" "days_before_year 10000 = 3652059" by (simp_all add: days_before_year_def)
  ultimately have "\<not> ?y + 1 < 1" "?y \<noteq> 0" "\<not> 10000 < ?y" "?y \<noteq> 10000"
    using assms days_before_year_less [of "?y + 1" 1] days_before_year_less [of 10000 ?y] by (auto simp: py_date_def)
  then show ?thesis by linarith
qed

section \<open>Padded numbers\<close>

lemma length_padded [simp]: "length (padded k n) = k"
  by (induction k arbitrary: n) auto

lemma padded_inject: "0 \<le> a \<Longrightarrow> a < 10 ^ k \<Longrightarrow> 0 \<le> b \<Longrightarrow> b < 10 ^ k \<Longrightarrow> padded k a = padded k b \<longleftrightarrow> a = b"
proof (induction k arbitrary: a b)
  case (Suc k)
  have "(char_of (48 + a mod 10) :: char) = char_of (48 + b mod 10) \<longleftrightarrow> a mod 10 = b mod 10"
    by (auto dest: arg_cong [where f = "of_char :: char \<Rightarrow> int"] simp: of_char_of)
  moreover have "padded k (a div 10) = padded k (b div 10) \<longleftrightarrow> a div 10 = b div 10"
    using Suc.prems by (intro Suc.IH) (auto simp: pos_imp_zdiv_nonneg_iff intro: zdiv_mono1)
  moreover have "a = b \<longleftrightarrow> a div 10 = b div 10 \<and> a mod 10 = b mod 10" by (metis mult_div_mod_eq)
  ultimately show ?case by simp
qed simp

lemma iso_date_inject:
  assumes "py_date a" "py_date b"
  shows "iso_date a = iso_date b \<longleftrightarrow> a = b"
proof -
  obtain y m d y' m' d' where e: "ord2ymd a = (y, m, d)" "ord2ymd b = (y', m', d')" by (metis prod_cases3)
  have "1 \<le> y \<and> y \<le> 9999" "1 \<le> y' \<and> y' \<le> 9999"
    using year_bounds [OF assms(1)] year_bounds [OF assms(2)] e by (simp_all add: date_year_def)
  moreover have "1 \<le> m \<and> m \<le> 12 \<and> 1 \<le> d \<and> d \<le> 31" "1 \<le> m' \<and> m' \<le> 12 \<and> 1 \<le> d' \<and> d' \<le> 31"
    using ord2ymd_civil [OF e(1)] ord2ymd_civil [OF e(2)] month_length_bounds [of m y] month_length_bounds [of m' y']
    by (auto simp: civil_date_def)
  ultimately have "iso_date a = iso_date b \<longleftrightarrow> y = y' \<and> m = m' \<and> d = d'"
    by (simp add: iso_date_def e padded_inject)
  then show ?thesis using ord2ymd_civil [OF e(1)] ord2ymd_civil [OF e(2)] e by auto
qed

end
