(* ===== verification/Rebalance.thy ===== *)
theory Rebalance
  imports Contracts Civil_Dates
begin

text \<open>
  \<open>src/backend/app/strategy_lab_v2/rebalance.py\<close>: venue calendars with explicit sessions and closures, and the
  schedule of portfolio rebalances that a cadence selects from them. A date is its ordinal (Civil_Dates); the
  OverflowError of stepping past 9999-12-31 is not modelled.
\<close>

section \<open>Sessions and calendars\<close>

datatype calendar_day_status = Day_TRADING | Day_CLOSED

datatype rebalance_cadence = EACH_SESSION | ISO_WEEKLY | MONTHLY | QUARTERLY | YEARLY

datatype rebalance_selection = FIRST_SESSION | LAST_SESSION

datatype rebalance_trigger = SESSION_OPEN_BEFORE_EVENTS | SESSION_CLOSE_AFTER_EVENTS

datatype rebalance_misfire_policy = FAIL_RUN | SKIP_OCCURRENCE

fun day_status_value :: "calendar_day_status \<Rightarrow> string" where
  "day_status_value Day_TRADING = ''trading''"
| "day_status_value Day_CLOSED = ''closed''"

fun cadence_value :: "rebalance_cadence \<Rightarrow> string" where
  "cadence_value EACH_SESSION = ''each_session''"
| "cadence_value ISO_WEEKLY = ''iso_weekly''"
| "cadence_value MONTHLY = ''monthly''"
| "cadence_value QUARTERLY = ''quarterly''"
| "cadence_value YEARLY = ''yearly''"

fun selection_value :: "rebalance_selection \<Rightarrow> string" where
  "selection_value FIRST_SESSION = ''first_session''"
| "selection_value LAST_SESSION = ''last_session''"

fun trigger_value :: "rebalance_trigger \<Rightarrow> string" where
  "trigger_value SESSION_OPEN_BEFORE_EVENTS = ''session_open_before_events''"
| "trigger_value SESSION_CLOSE_AFTER_EVENTS = ''session_close_after_events''"

fun misfire_value :: "rebalance_misfire_policy \<Rightarrow> string" where
  "misfire_value FAIL_RUN = ''fail_run''"
| "misfire_value SKIP_OCCURRENCE = ''skip_occurrence''"

record session_segment =
  seg_open :: instant
  seg_close :: instant

definition mk_session_segment :: "datetime \<Rightarrow> datetime \<Rightarrow> session_segment result" where
  "mk_session_segment open_time close_time =
     with_aware open_time ''open_time must be timezone-aware'' (\<lambda>opens.
     with_aware close_time ''close_time must be timezone-aware'' (\<lambda>closes.
     raising [(closes \<le> opens, ''session segment close_time must be after open_time'')]
       (Inr \<lparr>seg_open = opens, seg_close = closes\<rparr>)))"

text \<open>\<open>current.open_time < previous.close_time\<close> for some neighbours of a sorted sequence.\<close>

definition overlapping :: "session_segment list \<Rightarrow> bool" where
  "overlapping segments \<longleftrightarrow>
     list_ex (\<lambda>(previous, current). seg_open current < seg_close previous) (zip segments (drop 1 segments))"

record trading_session =
  ts_session_id :: string
  ts_session_label :: int
  ts_segments :: "session_segment list"

definition mk_trading_session :: "string \<Rightarrow> int \<Rightarrow> session_segment list \<Rightarrow> trading_session result" where
  "mk_trading_session session_id label segments =
     raising
       [(blank session_id, ''session_id must not be empty''),
        (segments = [], ''a trading session must contain at least one segment''),
        (overlapping (sort_key seg_open segments), ''session segments must not overlap'')]
       (Inr \<lparr>ts_session_id = session_id, ts_session_label = label, ts_segments = sort_key seg_open segments\<rparr>)"

definition session_open :: "trading_session \<Rightarrow> instant" where
  "session_open s = seg_open (hd (ts_segments s))"

definition session_close :: "trading_session \<Rightarrow> instant" where
  "session_close s = seg_close (last (ts_segments s))"

record calendar_day =
  dy_label :: int
  dy_status :: calendar_day_status
  dy_session :: "trading_session option"

definition mk_calendar_day :: "int \<Rightarrow> calendar_day_status \<Rightarrow> trading_session option \<Rightarrow> calendar_day result" where
  "mk_calendar_day label status session =
     (case (status, session) of
        (Day_TRADING, None) \<Rightarrow> Inl (TypeError ''trading calendar days require a TradingSession'')
      | (Day_TRADING, Some s) \<Rightarrow>
          raising [(ts_session_label s \<noteq> label, ''session label must equal its calendar day label'')]
            (Inr \<lparr>dy_label = label, dy_status = status, dy_session = session\<rparr>)
      | (Day_CLOSED, _) \<Rightarrow>
          raising [(session \<noteq> None, ''closed calendar days must not include a session'')]
            (Inr \<lparr>dy_label = label, dy_status = status, dy_session = session\<rparr>))"

record session_calendar =
  cal_calendar_id :: string
  cal_definition_version :: string
  cal_timezone_name :: string
  cal_timezone_database_version :: string
  cal_coverage_start :: int
  cal_coverage_end :: int
  cal_days :: "calendar_day list"
  cal_source_evidence_digest :: string

fun contiguous_from :: "int \<Rightarrow> calendar_day list \<Rightarrow> bool" where
  "contiguous_from expected [] = True"
| "contiguous_from expected (item # items) \<longleftrightarrow> dy_label item = expected \<and> contiguous_from (expected + 1) items"

definition day_sessions :: "calendar_day list \<Rightarrow> trading_session list" where
  "day_sessions days = List.map_filter dy_session days"

definition mk_session_calendar ::
  "string \<Rightarrow> string \<Rightarrow> string \<Rightarrow> string \<Rightarrow> int \<Rightarrow> int \<Rightarrow> calendar_day list \<Rightarrow> string \<Rightarrow> session_calendar result" where
  "mk_session_calendar calendar_id version timezone_name timezone_version coverage_start coverage_end days evidence =
     (let ordered = sort_key dy_label days;
          sessions = day_sessions ordered
      in raising
       ([(blank calendar_id, ''calendar_id must not be empty''),
         (blank version, ''definition_version must not be empty''),
         (blank timezone_name, ''timezone_name must not be empty''),
         (blank timezone_version, ''timezone_database_version must not be empty''),
         (coverage_end < coverage_start, ''calendar coverage_end must not precede coverage_start'')]
        @ digest_checks evidence ''source_evidence_digest''
        @ [(int (length ordered) \<noteq> coverage_end - coverage_start + 1,
              ''calendar must explicitly cover every date in its inclusive range''),
           (\<not> contiguous_from coverage_start ordered,
              ''calendar days must be unique and contiguous across coverage''),
           (\<not> distinct (map ts_session_id sessions), ''session ids must be unique within a calendar''),
           (overlapping (sort_key seg_open (concat (map ts_segments sessions))),
              ''sessions in one calendar must not overlap in UTC time'')])
       (Inr \<lparr>cal_calendar_id = calendar_id, cal_definition_version = version, cal_timezone_name = timezone_name,
             cal_timezone_database_version = timezone_version, cal_coverage_start = coverage_start,
             cal_coverage_end = coverage_end, cal_days = ordered, cal_source_evidence_digest = evidence\<rparr>))"

definition segment_py :: "session_segment \<Rightarrow> pyval" where
  "segment_py s = dataclass_py ''app.strategy_lab_v2.rebalance.SessionSegment''
     [(''open_time'', time_py (seg_open s)), (''close_time'', time_py (seg_close s))]"

definition session_py :: "trading_session \<Rightarrow> pyval" where
  "session_py s = dataclass_py ''app.strategy_lab_v2.rebalance.TradingSession''
     [(''session_id'', PStr (ts_session_id s)), (''session_label'', PDate (ts_session_label s)),
      (''segments'', PTuple (map segment_py (ts_segments s)))]"

definition day_py :: "calendar_day \<Rightarrow> pyval" where
  "day_py d = dataclass_py ''app.strategy_lab_v2.rebalance.CalendarDay''
     [(''label'', PDate (dy_label d)),
      (''status'', PEnum ''app.strategy_lab_v2.rebalance.CalendarDayStatus'' (PStr (day_status_value (dy_status d)))),
      (''session'', opt_py session_py (dy_session d))]"

definition calendar_fingerprint :: "session_calendar \<Rightarrow> string" where
  "calendar_fingerprint c = digest (PMapping
     [(''schema'', PStr ''strategy-lab.session-calendar.v1''),
      (''calendar_id'', PStr (cal_calendar_id c)),
      (''definition_version'', PStr (cal_definition_version c)),
      (''timezone_name'', PStr (cal_timezone_name c)),
      (''timezone_database_version'', PStr (cal_timezone_database_version c)),
      (''coverage_start'', PDate (cal_coverage_start c)),
      (''coverage_end'', PDate (cal_coverage_end c)),
      (''days'', PTuple (map day_py (cal_days c))),
      (''source_evidence_digest'', PStr (cal_source_evidence_digest c))])"

section \<open>Policies and occurrences\<close>

record rebalance_policy =
  pol_calendar_id :: string
  pol_calendar_fingerprint :: string
  pol_cadence :: rebalance_cadence
  pol_trigger :: rebalance_trigger
  pol_selection :: rebalance_selection
  pol_misfire_policy :: rebalance_misfire_policy
  pol_definition_version :: string

definition mk_rebalance_policy ::
  "string \<Rightarrow> string \<Rightarrow> rebalance_cadence \<Rightarrow> rebalance_trigger \<Rightarrow> rebalance_selection \<Rightarrow> rebalance_misfire_policy \<Rightarrow> string
     \<Rightarrow> rebalance_policy result" where
  "mk_rebalance_policy calendar_id fingerprint cadence trigger selection misfire version =
     raising
       ([(blank calendar_id, ''calendar_id must not be empty''),
         (blank version, ''definition_version must not be empty'')]
        @ digest_checks fingerprint ''calendar_fingerprint''
        @ [(cadence = EACH_SESSION \<and> selection \<noteq> FIRST_SESSION,
              ''each-session cadence does not accept a period selection rule'')])
       (Inr \<lparr>pol_calendar_id = calendar_id, pol_calendar_fingerprint = fingerprint, pol_cadence = cadence,
             pol_trigger = trigger, pol_selection = selection, pol_misfire_policy = misfire,
             pol_definition_version = version\<rparr>)"

definition trigger_py :: "rebalance_trigger \<Rightarrow> pyval" where
  "trigger_py t = PEnum ''app.strategy_lab_v2.rebalance.RebalanceTrigger'' (PStr (trigger_value t))"

definition misfire_py :: "rebalance_misfire_policy \<Rightarrow> pyval" where
  "misfire_py p = PEnum ''app.strategy_lab_v2.rebalance.RebalanceMisfirePolicy'' (PStr (misfire_value p))"

definition policy_fingerprint :: "rebalance_policy \<Rightarrow> string" where
  "policy_fingerprint p = digest (dataclass_py ''app.strategy_lab_v2.rebalance.CalendarRebalancePolicy''
     [(''calendar_id'', PStr (pol_calendar_id p)),
      (''calendar_fingerprint'', PStr (pol_calendar_fingerprint p)),
      (''cadence'', PEnum ''app.strategy_lab_v2.rebalance.RebalanceCadence'' (PStr (cadence_value (pol_cadence p)))),
      (''trigger'', trigger_py (pol_trigger p)),
      (''selection'', PEnum ''app.strategy_lab_v2.rebalance.RebalanceSelection''
          (PStr (selection_value (pol_selection p)))),
      (''misfire_policy'', misfire_py (pol_misfire_policy p)),
      (''definition_version'', PStr (pol_definition_version p))])"

record scheduled_rebalance =
  sb_occurrence_id :: string
  sb_policy_fingerprint :: string
  sb_calendar_fingerprint :: string
  sb_session_id :: string
  sb_session_label :: int
  sb_event_time :: instant
  sb_trigger :: rebalance_trigger
  sb_cadence_period :: string
  sb_misfire_policy :: rebalance_misfire_policy

definition mk_scheduled_rebalance ::
  "string \<Rightarrow> string \<Rightarrow> string \<Rightarrow> string \<Rightarrow> int \<Rightarrow> datetime \<Rightarrow> rebalance_trigger \<Rightarrow> string \<Rightarrow> rebalance_misfire_policy
     \<Rightarrow> scheduled_rebalance result" where
  "mk_scheduled_rebalance occurrence policy calendar session_id label event_time trigger period misfire =
     raising
       (digest_checks occurrence ''occurrence_id'' @ digest_checks policy ''policy_fingerprint''
        @ digest_checks calendar ''calendar_fingerprint'' @ [(blank session_id, ''session_id must not be empty'')])
       (with_aware event_time ''event_time must be timezone-aware'' (\<lambda>t.
         raising [(blank period, ''cadence_period must not be empty'')]
           (Inr \<lparr>sb_occurrence_id = occurrence, sb_policy_fingerprint = policy, sb_calendar_fingerprint = calendar,
                 sb_session_id = session_id, sb_session_label = label, sb_event_time = t, sb_trigger = trigger,
                 sb_cadence_period = period, sb_misfire_policy = misfire\<rparr>)))"

definition REBALANCE_EXECUTION_PLAN_VERSION :: string where
  "REBALANCE_EXECUTION_PLAN_VERSION = ''strategy-lab.rebalance-execution-plan.v1''"

record execution_plan =
  pl_policy_fingerprint :: string
  pl_calendar_fingerprint :: string
  pl_occurrences :: "scheduled_rebalance list"
  pl_definition_version :: string

definition mk_execution_plan ::
  "string \<Rightarrow> string \<Rightarrow> scheduled_rebalance list \<Rightarrow> string \<Rightarrow> execution_plan result" where
  "mk_execution_plan policy calendar occurrences version =
     raising
       ([(version \<noteq> REBALANCE_EXECUTION_PLAN_VERSION, ''unsupported rebalance execution-plan version'')]
        @ digest_checks policy ''policy_fingerprint'' @ digest_checks calendar ''calendar_fingerprint''
        @ [(list_ex (\<lambda>o'. sb_policy_fingerprint o' \<noteq> policy \<or> sb_calendar_fingerprint o' \<noteq> calendar) occurrences,
              ''rebalance occurrences differ from their frozen plan identity''),
           (sort_key sb_event_time occurrences \<noteq> occurrences, ''rebalance occurrences must be ordered by event time''),
           (\<not> distinct (map sb_occurrence_id occurrences), ''rebalance occurrence ids must be unique''),
           (\<not> distinct (map sb_event_time occurrences), ''rebalance occurrences must not share an event boundary'')])
       (Inr \<lparr>pl_policy_fingerprint = policy, pl_calendar_fingerprint = calendar, pl_occurrences = occurrences,
             pl_definition_version = version\<rparr>)"

section \<open>Periods\<close>

fun calendar_period_key :: "int \<Rightarrow> rebalance_cadence \<Rightarrow> string" where
  "calendar_period_key value EACH_SESSION = ''session:'' @ iso_date value"
| "calendar_period_key value ISO_WEEKLY =
     (case isocalendar value of (iso_year, iso_week, _) \<Rightarrow> ''iso-week:'' @ padded 4 iso_year @ ''-W'' @ padded 2 iso_week)"
| "calendar_period_key value MONTHLY = ''month:'' @ padded 4 (date_year value) @ ''-'' @ padded 2 (date_month value)"
| "calendar_period_key value QUARTERLY =
     ''quarter:'' @ padded 4 (date_year value) @ ''-Q'' @ int_str ((date_month value - 1) div 3 + 1)"
| "calendar_period_key value YEARLY = ''year:'' @ padded 4 (date_year value)"

fun period_start :: "int \<Rightarrow> rebalance_cadence \<Rightarrow> int" where
  "period_start value ISO_WEEKLY = value - (isoweekday value - 1)"
| "period_start value MONTHLY = ymd2ord (date_year value) (date_month value) 1"
| "period_start value QUARTERLY = ymd2ord (date_year value) ((date_month value - 1) div 3 * 3 + 1) 1"
| "period_start value YEARLY = ymd2ord (date_year value) 1 1"
| "period_start value EACH_SESSION = value"

fun period_end :: "int \<Rightarrow> rebalance_cadence \<Rightarrow> int" where
  "period_end value ISO_WEEKLY = period_start value ISO_WEEKLY + 6"
| "period_end value MONTHLY =
     ymd2ord (date_year value) (date_month value) (month_length (date_year value) (date_month value))"
| "period_end value QUARTERLY =
     (let first = period_start value QUARTERLY; last_month = date_month first + 2
      in ymd2ord (date_year first) last_month (month_length (date_year first) last_month))"
| "period_end value YEARLY = ymd2ord (date_year value) 12 31"
| "period_end value EACH_SESSION = value"

definition require_complete_calendar_period_coverage :: "session_calendar \<Rightarrow> rebalance_cadence \<Rightarrow> unit result" where
  "require_complete_calendar_period_coverage calendar cadence =
     (if cadence = EACH_SESSION then Inr ()
      else raising
        [(cal_coverage_start calendar \<noteq> period_start (cal_coverage_start calendar) cadence
            \<or> cal_coverage_end calendar \<noteq> period_end (cal_coverage_end calendar) cadence,
          ''calendar coverage must include complete cadence periods so omitted sessions cannot be mistaken for holidays'')]
        (Inr ()))"

section \<open>The schedule\<close>

text \<open>\<open>sessions_by_period.setdefault(period, []).append(session)\<close> on a dictionary in insertion order.\<close>

fun add_session :: "string \<Rightarrow> trading_session \<Rightarrow> (string \<times> trading_session list) list
    \<Rightarrow> (string \<times> trading_session list) list" where
  "add_session period session [] = [(period, [session])]"
| "add_session period session ((p, sessions) # rest) =
     (if p = period then (p, sessions @ [session]) # rest else (p, sessions) # add_session period session rest)"

fun sessions_by_period :: "rebalance_cadence \<Rightarrow> calendar_day list \<Rightarrow> (string \<times> trading_session list) list
    \<Rightarrow> (string \<times> trading_session list) list" where
  "sessions_by_period cadence [] periods = periods"
| "sessions_by_period cadence (day # days) periods =
     sessions_by_period cadence days
       (case dy_session day of None \<Rightarrow> periods
        | Some session \<Rightarrow> add_session (calendar_period_key (dy_label day) cadence) session periods)"

definition select_sessions :: "rebalance_policy \<Rightarrow> (string \<times> trading_session list) list \<Rightarrow> (string \<times> trading_session) list" where
  "select_sessions policy periods =
     sort_key (\<lambda>(period, session). ts_session_label session)
       (if pol_cadence policy = EACH_SESSION then map (\<lambda>(period, sessions). (period, hd sessions)) periods
        else map (\<lambda>(period, sessions).
               (period, if pol_selection policy = FIRST_SESSION then hd sessions else last sessions)) periods)"

definition occurrence_for :: "session_calendar \<Rightarrow> rebalance_policy \<Rightarrow> string \<Rightarrow> trading_session \<Rightarrow> scheduled_rebalance result" where
  "occurrence_for calendar policy period session =
     (let event_time = (if pol_trigger policy = SESSION_OPEN_BEFORE_EVENTS then session_open session else session_close session);
          identity = PMapping
            [(''policy_fingerprint'', PStr (policy_fingerprint policy)),
             (''calendar_fingerprint'', PStr (calendar_fingerprint calendar)),
             (''session_id'', PStr (ts_session_id session)),
             (''session_label'', PDate (ts_session_label session)),
             (''event_time'', time_py event_time),
             (''trigger'', trigger_py (pol_trigger policy)),
             (''cadence_period'', PStr period)]
      in mk_scheduled_rebalance (digest identity) (policy_fingerprint policy) (calendar_fingerprint calendar)
           (ts_session_id session) (ts_session_label session) (utc event_time) (pol_trigger policy) period
           (pol_misfire_policy policy))"

fun schedule_loop :: "session_calendar \<Rightarrow> rebalance_policy \<Rightarrow> int \<Rightarrow> int \<Rightarrow> (string \<times> trading_session) list
    \<Rightarrow> scheduled_rebalance list result" where
  "schedule_loop calendar policy start through [] = Inr []"
| "schedule_loop calendar policy start through ((period, session) # selected) =
     (if \<not> (start \<le> ts_session_label session \<and> ts_session_label session \<le> through)
      then schedule_loop calendar policy start through selected
      else rbind (occurrence_for calendar policy period session) (\<lambda>o'.
        rbind (schedule_loop calendar policy start through selected) (\<lambda>os. Inr (o' # os))))"

definition schedule_rebalances ::
  "session_calendar \<Rightarrow> rebalance_policy \<Rightarrow> int \<Rightarrow> int \<Rightarrow> scheduled_rebalance list result" where
  "schedule_rebalances calendar policy start through =
     raising
       [(pol_calendar_id policy \<noteq> cal_calendar_id calendar,
           ''rebalance policy calendar_id does not match the supplied calendar''),
        (pol_calendar_fingerprint policy \<noteq> calendar_fingerprint calendar,
           ''rebalance policy calendar fingerprint is stale or mismatched''),
        (start > through, ''from_session_label must not follow through_session_label''),
        (start < cal_coverage_start calendar \<or> through > cal_coverage_end calendar,
           ''requested rebalance range is outside calendar coverage'')]
       (rbind (require_complete_calendar_period_coverage calendar (pol_cadence policy)) (\<lambda>_.
         schedule_loop calendar policy start through
           (select_sessions policy (sessions_by_period (pol_cadence policy) (cal_days calendar) []))))"

definition schedule_rebalances_for_interval ::
  "session_calendar \<Rightarrow> rebalance_policy \<Rightarrow> int \<Rightarrow> int \<Rightarrow> datetime \<Rightarrow> datetime \<Rightarrow> scheduled_rebalance list result" where
  "schedule_rebalances_for_interval calendar policy start through interval_start interval_end =
     with_aware interval_start ''interval_start must be timezone-aware'' (\<lambda>normalized_start.
     with_aware interval_end ''interval_end must be timezone-aware'' (\<lambda>normalized_end.
     raising [(normalized_end \<le> normalized_start, ''interval_end must be after interval_start'')]
       (rbind (schedule_rebalances calendar policy start through) (\<lambda>os.
          Inr (filter (\<lambda>o'. normalized_start \<le> sb_event_time o' \<and> sb_event_time o' < normalized_end) os)))))"

definition compile_rebalance_execution_plan ::
  "session_calendar \<Rightarrow> rebalance_policy \<Rightarrow> int \<Rightarrow> int \<Rightarrow> datetime \<Rightarrow> datetime \<Rightarrow> execution_plan result" where
  "compile_rebalance_execution_plan calendar policy start through interval_start interval_end =
     rbind (schedule_rebalances_for_interval calendar policy start through interval_start interval_end) (\<lambda>os.
       mk_execution_plan (policy_fingerprint policy) (calendar_fingerprint calendar) os REBALANCE_EXECUTION_PLAN_VERSION)"

section \<open>Periods are intervals of dates\<close>

lemma quarter_month: "1 \<le> m \<Longrightarrow> m \<le> 12 \<Longrightarrow> (m - 1) div 3 = (k - 1) div 3 \<longleftrightarrow> (k - 1) div 3 * 3 + 1 \<le> m \<and> m \<le> (k - 1) div 3 * 3 + 3"
  for m k :: int
  by presburger

lemma quarter_bounds: "1 \<le> m \<Longrightarrow> m \<le> 12 \<Longrightarrow> 0 \<le> (m - 1) div 3 \<and> (m - 1) div 3 \<le> 3" for m :: int
  by presburger

lemma quarter_end:
  "period_end n QUARTERLY = (let k = (date_month n - 1) div 3 * 3 + 3 in ymd2ord (date_year n) k (month_length (date_year n) k))"
proof -
  have "civil_date (date_year n) ((date_month n - 1) div 3 * 3 + 1) 1"
    using quarter_bounds [OF month_bounds [of n]] month_length_bounds [of "(date_month n - 1) div 3 * 3 + 1" "date_year n"]
    by (auto simp: civil_date_def)
  from date_parts [OF this] show ?thesis by (simp add: Let_def add.commute)
qed

lemma period_key_interval:
  assumes "py_date a" "py_date b"
  shows "calendar_period_key a c = calendar_period_key b c \<longleftrightarrow> period_start a c \<le> b \<and> b \<le> period_end a c"
proof (cases c)
  case EACH_SESSION
  then show ?thesis using iso_date_inject [OF assms] by auto
next
  case ISO_WEEKLY
  obtain y w d y' w' d' where e: "isocalendar a = (y, w, d)" "isocalendar b = (y', w', d')" by (metis prod_cases3)
  have "calendar_period_key a c = calendar_period_key b c \<longleftrightarrow> y = y' \<and> w = w'"
    using iso_year_bounds [OF assms(1) e(1)] iso_year_bounds [OF assms(2) e(2)]
    by (simp add: ISO_WEEKLY e padded_inject)
  also have "\<dots> \<longleftrightarrow> (a - 1) div 7 = (b - 1) div 7" by (rule same_week_iff [OF e])
  also have "\<dots> \<longleftrightarrow> 7 * ((a - 1) div 7) + 1 \<le> b \<and> b \<le> 7 * ((a - 1) div 7) + 1 + 6" by presburger
  finally show ?thesis unfolding ISO_WEEKLY period_end.simps period_start.simps monday_of .
next
  case MONTHLY
  then show ?thesis
    using year_bounds [OF assms(1)] year_bounds [OF assms(2)] month_bounds [of a] month_bounds [of b]
      in_month_iff [of "date_month a" b "date_year a"]
    by (auto simp: padded_inject)
next
  case QUARTERLY
  have "calendar_period_key a c = calendar_period_key b c
      \<longleftrightarrow> date_year b = date_year a \<and> (date_month b - 1) div 3 = (date_month a - 1) div 3"
    using year_bounds [OF assms(1)] year_bounds [OF assms(2)] by (auto simp: QUARTERLY padded_inject dest: int_str_inject)
  also have "\<dots> \<longleftrightarrow> period_start a c \<le> b \<and> b \<le> period_end a c"
    using quarter_month [OF month_bounds [of b], of "date_month a"] quarter_bounds [OF month_bounds [of a]]
      in_months_iff [of "(date_month a - 1) div 3 * 3 + 1" "(date_month a - 1) div 3 * 3 + 3" b "date_year a"]
    by (auto simp: QUARTERLY quarter_end Let_def simp del: period_end.simps)
  finally show ?thesis .
next
  case YEARLY
  then show ?thesis
    using year_bounds [OF assms(1)] year_bounds [OF assms(2)] in_year_iff [of b "date_year a"]
    by (auto simp: padded_inject)
qed

lemma period_contains: "py_date a \<Longrightarrow> period_start a c \<le> a \<and> a \<le> period_end a c"
  using period_key_interval [of a a c] by simp

lemma same_period:
  assumes "py_date a" "py_date b" "calendar_period_key a c = calendar_period_key b c"
  shows "period_start b c = period_start a c \<and> period_end b c = period_end a c"
proof -
  have b: "period_start a c \<le> b" "b \<le> period_end a c" using period_key_interval [OF assms(1,2)] assms(3) by simp_all
  show ?thesis
  proof (cases c)
    case ISO_WEEKLY
    then have "(b - 1) div 7 = (a - 1) div 7"
      using b monday_of [of a] by simp
    then show ?thesis using ISO_WEEKLY monday_of [of a] monday_of [of b] by simp
  next
    case MONTHLY
    then show ?thesis using b in_month_iff [of "date_month a" b "date_year a"] month_bounds [of a] by auto
  next
    case QUARTERLY
    then have "date_year b = date_year a \<and> (date_month b - 1) div 3 = (date_month a - 1) div 3"
      using b quarter_month [OF month_bounds [of b], of "date_month a"] quarter_bounds [OF month_bounds [of a]]
        in_months_iff [of "(date_month a - 1) div 3 * 3 + 1" "(date_month a - 1) div 3 * 3 + 3" b "date_year a"]
      by (auto simp: quarter_end Let_def simp del: period_end.simps)
    then show ?thesis using QUARTERLY by (simp add: quarter_end del: period_end.simps)
  next
    case YEARLY
    then show ?thesis using b in_year_iff [of b "date_year a"] by auto
  qed (use b in auto)
qed

lemma period_key_not_blank: "\<not> blank (calendar_period_key a c)"
proof -
  have "\<exists>x xs. calendar_period_key a c = x # xs \<and> \<not> py_space x"
    by (cases c; cases "isocalendar a") (auto simp: py_space_def)
  then show ?thesis by (auto simp: blank_iff)
qed

section \<open>Invariants\<close>

definition session_ok :: "trading_session \<Rightarrow> bool" where
  "session_ok s \<longleftrightarrow> \<not> blank (ts_session_id s) \<and> ts_segments s \<noteq> [] \<and> (\<forall>g \<in> set (ts_segments s). seg_open g < seg_close g)
     \<and> sorted (map seg_open (ts_segments s)) \<and> \<not> overlapping (ts_segments s)"

definition day_ok :: "calendar_day \<Rightarrow> bool" where
  "day_ok d \<longleftrightarrow> (case dy_session d of None \<Rightarrow> dy_status d = Day_CLOSED
     | Some s \<Rightarrow> dy_status d = Day_TRADING \<and> session_ok s \<and> ts_session_label s = dy_label d)"

definition calendar_ok :: "session_calendar \<Rightarrow> bool" where
  "calendar_ok c \<longleftrightarrow> py_date (cal_coverage_start c) \<and> py_date (cal_coverage_end c)
     \<and> map dy_label (cal_days c) = [cal_coverage_start c..cal_coverage_end c] \<and> (\<forall>d \<in> set (cal_days c). day_ok d)
     \<and> distinct (map ts_session_id (day_sessions (cal_days c)))
     \<and> \<not> overlapping (sort_key seg_open (concat (map ts_segments (day_sessions (cal_days c)))))"

lemma mk_session_segment_ok: "mk_session_segment a b = Inr g \<Longrightarrow> seg_open g < seg_close g"
  by (auto simp: mk_session_segment_def with_aware_eq_Inr raising_Inr_iff)

lemma mk_trading_session_ok:
  "mk_trading_session i l gs = Inr s \<Longrightarrow> \<forall>g \<in> set gs. seg_open g < seg_close g \<Longrightarrow> session_ok s"
  by (auto simp: mk_trading_session_def raising_Inr_iff session_ok_def dest: arg_cong [where f = length])

lemma mk_calendar_day_ok: "mk_calendar_day l st s = Inr d \<Longrightarrow> (\<forall>t. s = Some t \<longrightarrow> session_ok t) \<Longrightarrow> day_ok d"
  by (auto simp: mk_calendar_day_def raising_Inr_iff day_ok_def split: calendar_day_status.splits option.splits)

lemma contiguous_from_iff: "contiguous_from n ds \<longleftrightarrow> map dy_label ds = [n..n + int (length ds) - 1]"
proof (induction n ds rule: contiguous_from.induct)
  case (2 n d ds)
  have "[n..n + int (length (d # ds)) - 1] = n # [n + 1..n + 1 + int (length ds) - 1]"
    by (subst upto.simps) (simp add: add.commute)
  with 2 show ?case by simp
qed simp

lemma mk_session_calendar_ok:
  assumes "mk_session_calendar i v z zv a b ds e = Inr c" "py_date a" "py_date b" "\<forall>d \<in> set ds. day_ok d"
  shows "calendar_ok c"
  using assms by (auto simp: mk_session_calendar_def Let_def raising_Inr_iff contiguous_from_iff calendar_ok_def)

lemma calendar_days:
  assumes "calendar_ok c"
  shows "sorted (map dy_label (cal_days c))" "distinct (map dy_label (cal_days c))"
    and "d \<in> set (cal_days c) \<Longrightarrow> py_date (dy_label d) \<and> cal_coverage_start c \<le> dy_label d \<and> dy_label d \<le> cal_coverage_end c"
    and "d \<in> set (cal_days c) \<Longrightarrow> dy_session d = Some s \<Longrightarrow> ts_session_label s = dy_label d \<and> session_ok s"
proof -
  have labels: "map dy_label (cal_days c) = [cal_coverage_start c..cal_coverage_end c]" using assms by (simp add: calendar_ok_def)
  then show "sorted (map dy_label (cal_days c))" "distinct (map dy_label (cal_days c))" by simp_all
  have "dy_label ` set (cal_days c) = {cal_coverage_start c..cal_coverage_end c}" using arg_cong [OF labels, of set] by simp
  then show "d \<in> set (cal_days c) \<Longrightarrow> py_date (dy_label d) \<and> cal_coverage_start c \<le> dy_label d \<and> dy_label d \<le> cal_coverage_end c"
    using assms by (force simp: calendar_ok_def py_date_def)
  show "d \<in> set (cal_days c) \<Longrightarrow> dy_session d = Some s \<Longrightarrow> ts_session_label s = dy_label d \<and> session_ok s"
    using assms by (force simp: calendar_ok_def day_ok_def)
qed

section \<open>Sessions of a period\<close>

definition trading :: "calendar_day \<Rightarrow> bool" where
  "trading d \<longleftrightarrow> dy_session d \<noteq> None"

definition period_days :: "rebalance_cadence \<Rightarrow> calendar_day list \<Rightarrow> string \<Rightarrow> calendar_day list" where
  "period_days c ds k = filter (\<lambda>d. trading d \<and> calendar_period_key (dy_label d) c = k) ds"

lemma add_session_keys: "distinct (map fst ps) \<Longrightarrow> distinct (map fst (add_session k s ps))
    \<and> set (map fst (add_session k s ps)) = insert k (set (map fst ps))"
  by (induction k s ps rule: add_session.induct) auto

lemma add_session_lookup:
  "map_of (add_session k s ps) = (map_of ps)(k \<mapsto> (case map_of ps k of None \<Rightarrow> [s] | Some ss \<Rightarrow> ss @ [s]))"
  by (induction k s ps rule: add_session.induct) auto

lemma sessions_by_period_lookup:
  "map_of (sessions_by_period c ds ps) k =
     (let ss = map (\<lambda>d. the (dy_session d)) (period_days c ds k)
      in case map_of ps k of None \<Rightarrow> if ss = [] then None else Some ss | Some ts \<Rightarrow> Some (ts @ ss))"
proof (induction ds arbitrary: ps)
  case (Cons d ds)
  then show ?case
    by (cases "dy_session d") (auto simp: period_days_def trading_def add_session_lookup Let_def split: option.splits)
qed (simp add: period_days_def split: option.split)

lemma sessions_by_period_distinct: "distinct (map fst ps) \<Longrightarrow> distinct (map fst (sessions_by_period c ds ps))"
  by (induction c ds ps rule: sessions_by_period.induct) (auto simp: add_session_keys split: option.splits)

lemma sessions_by_period_iff:
  "(k, ss) \<in> set (sessions_by_period c ds []) \<longleftrightarrow>
     ss = map (\<lambda>d. the (dy_session d)) (period_days c ds k) \<and> period_days c ds k \<noteq> []"
proof -
  have "(k, ss) \<in> set (sessions_by_period c ds []) \<longleftrightarrow> map_of (sessions_by_period c ds []) k = Some ss"
    using sessions_by_period_distinct [of "[]" c ds] by (auto simp: map_of_eq_Some_iff)
  then show ?thesis by (auto simp: sessions_by_period_lookup Let_def)
qed

section \<open>The selected sessions\<close>

definition takes_first :: "rebalance_policy \<Rightarrow> bool" where
  "takes_first p \<longleftrightarrow> pol_cadence p = EACH_SESSION \<or> pol_selection p = FIRST_SESSION"

text \<open>The first (or last) trading day of the period its date lies in, said with dates alone.\<close>

definition chosen_day :: "session_calendar \<Rightarrow> rebalance_policy \<Rightarrow> calendar_day \<Rightarrow> bool" where
  "chosen_day c p d \<longleftrightarrow> trading d \<and> (\<forall>e \<in> set (cal_days c). trading e \<longrightarrow>
     (if takes_first p then \<not> (period_start (dy_label d) (pol_cadence p) \<le> dy_label e \<and> dy_label e < dy_label d)
      else \<not> (dy_label d < dy_label e \<and> dy_label e \<le> period_end (dy_label d) (pol_cadence p))))"

lemma hd_least:
  fixes f :: "'a \<Rightarrow> int"
  assumes "sorted (map f xs)" "distinct (map f xs)" "xs \<noteq> []"
  shows "x = hd xs \<longleftrightarrow> x \<in> set xs \<and> (\<forall>y \<in> set xs. f x \<le> f y)"
proof -
  have "f (hd xs) \<le> f y" if "y \<in> set xs" for y using that assms(1) by (cases xs) auto
  moreover have "x = hd xs" if "x \<in> set xs" "f x = f (hd xs)"
    using that assms(2,3) by (auto simp: distinct_map dest: inj_onD)
  ultimately show ?thesis using assms(3) by (metis hd_in_set order_antisym)
qed

lemma last_greatest:
  fixes f :: "'a \<Rightarrow> int"
  assumes "sorted (map f xs)" "distinct (map f xs)" "xs \<noteq> []"
  shows "x = last xs \<longleftrightarrow> x \<in> set xs \<and> (\<forall>y \<in> set xs. f y \<le> f x)"
proof -
  have "f y \<le> f (last xs)" if "y \<in> set xs" for y using sorted_map_last [OF assms(1) that] .
  moreover have "x = last xs" if "x \<in> set xs" "f x = f (last xs)"
    using that assms(2,3) by (auto simp: distinct_map dest: inj_onD)
  ultimately show ?thesis using assms(3) by (metis last_in_set order_antisym)
qed

lemma chosen_day_iff:
  assumes "calendar_ok c" "d \<in> set (cal_days c)"
  shows "chosen_day c p d \<longleftrightarrow> trading d \<and>
    d = (if takes_first p then hd else last) (period_days (pol_cadence p) (cal_days c) (calendar_period_key (dy_label d) (pol_cadence p)))"
proof -
  let ?ds = "period_days (pol_cadence p) (cal_days c) (calendar_period_key (dy_label d) (pol_cadence p))"
  have member: "e \<in> set ?ds \<longleftrightarrow> e \<in> set (cal_days c) \<and> trading e
      \<and> period_start (dy_label d) (pol_cadence p) \<le> dy_label e \<and> dy_label e \<le> period_end (dy_label d) (pol_cadence p)" for e
    using period_key_interval [of "dy_label d" "dy_label e" "pol_cadence p"] calendar_days(3) [OF assms(1)] assms(2)
    by (auto simp: period_days_def)
  have sorted: "sorted (map dy_label ?ds)" "distinct (map dy_label ?ds)"
    using calendar_days(1,2) [OF assms(1)] by (simp_all add: period_days_def sorted_filter distinct_map_filter)
  have own: "period_start (dy_label d) (pol_cadence p) \<le> dy_label d" "dy_label d \<le> period_end (dy_label d) (pol_cadence p)"
    using period_contains calendar_days(3) [OF assms] by auto
  show ?thesis
  proof (cases "trading d")
    case True
    then have "d \<in> set ?ds" using member own assms(2) by blast
    moreover from this have "?ds \<noteq> []" by auto
    moreover have "(\<forall>e \<in> set (cal_days c). trading e \<longrightarrow>
          \<not> (period_start (dy_label d) (pol_cadence p) \<le> dy_label e \<and> dy_label e < dy_label d))
        \<longleftrightarrow> (\<forall>e \<in> set ?ds. dy_label d \<le> dy_label e)"
      unfolding Ball_def member using own(2) by (meson less_imp_le not_less order_trans)
    moreover have "(\<forall>e \<in> set (cal_days c). trading e \<longrightarrow>
          \<not> (dy_label d < dy_label e \<and> dy_label e \<le> period_end (dy_label d) (pol_cadence p)))
        \<longleftrightarrow> (\<forall>e \<in> set ?ds. dy_label e \<le> dy_label d)"
      unfolding Ball_def member using own(1) by (meson less_imp_le not_less order_trans)
    ultimately show ?thesis
      using True hd_least [OF sorted, of d] last_greatest [OF sorted, of d] by (simp add: chosen_day_def)
  qed (simp add: chosen_day_def)
qed

definition keyed_session :: "rebalance_policy \<Rightarrow> calendar_day \<Rightarrow> string \<times> trading_session" where
  "keyed_session p d = (calendar_period_key (dy_label d) (pol_cadence p), the (dy_session d))"

lemma selected_set:
  assumes "calendar_ok c"
  shows "(\<lambda>(k, ss). (k, if takes_first p then hd ss else last ss)) ` set (sessions_by_period (pol_cadence p) (cal_days c) [])
    = keyed_session p ` set (filter (chosen_day c p) (cal_days c))"
    (is "?pick ` ?periods = _")
proof (intro equalityI subsetI)
  fix x
  assume "x \<in> ?pick ` ?periods"
  then obtain k where x: "x = ?pick (k, map (\<lambda>d. the (dy_session d)) (period_days (pol_cadence p) (cal_days c) k))"
    and ne: "period_days (pol_cadence p) (cal_days c) k \<noteq> []"
    by (auto simp: sessions_by_period_iff)
  define d where "d = (if takes_first p then hd else last) (period_days (pol_cadence p) (cal_days c) k)"
  have "d \<in> set (period_days (pol_cadence p) (cal_days c) k)" using ne by (simp add: d_def)
  then have d: "d \<in> set (cal_days c)" "trading d" "calendar_period_key (dy_label d) (pol_cadence p) = k"
    by (auto simp: period_days_def)
  then have "chosen_day c p d" using chosen_day_iff [OF assms d(1), of p] by (simp add: d_def)
  moreover have "x = keyed_session p d" using x ne d(3) by (auto simp: keyed_session_def d_def hd_map last_map)
  ultimately show "x \<in> keyed_session p ` set (filter (chosen_day c p) (cal_days c))" using d(1) by auto
next
  fix x
  assume "x \<in> keyed_session p ` set (filter (chosen_day c p) (cal_days c))"
  then obtain d where x: "x = keyed_session p d" and d: "d \<in> set (cal_days c)" "chosen_day c p d" by auto
  let ?k = "calendar_period_key (dy_label d) (pol_cadence p)"
  let ?ds = "period_days (pol_cadence p) (cal_days c) ?k"
  have chosen: "trading d" "d = (if takes_first p then hd else last) ?ds" using chosen_day_iff [OF assms d(1)] d(2) by auto
  then have "d \<in> set ?ds" using d(1) by (simp add: period_days_def)
  then have ne: "?ds \<noteq> []" by auto
  then have "(?k, map (\<lambda>d. the (dy_session d)) ?ds) \<in> ?periods" by (simp add: sessions_by_period_iff)
  moreover have "x = ?pick (?k, map (\<lambda>d. the (dy_session d)) ?ds)"
    using ne chosen(2) by (auto simp: x keyed_session_def hd_map last_map)
  ultimately show "x \<in> ?pick ` ?periods" by blast
qed

lemma select_sessions_exact:
  assumes "calendar_ok c"
  shows "select_sessions p (sessions_by_period (pol_cadence p) (cal_days c) [])
    = map (keyed_session p) (filter (chosen_day c p) (cal_days c))"
proof -
  let ?f = "\<lambda>(k :: string, s). ts_session_label s"
  let ?pick = "\<lambda>(k, ss). (k, if takes_first p then hd ss else last ss)"
  let ?periods = "sessions_by_period (pol_cadence p) (cal_days c) []"
  let ?days = "filter (chosen_day c p) (cal_days c)"
  have shape: "select_sessions p ?periods = sort_key ?f (map ?pick ?periods)"
    by (auto simp: select_sessions_def takes_first_def intro: arg_cong)
  have labels: "map ?f (map (keyed_session p) ?days) = map dy_label ?days"
    using calendar_days(4) [OF assms] by (auto simp: keyed_session_def chosen_day_def trading_def)
  have right: "sorted (map ?f (map (keyed_session p) ?days))" "distinct (map ?f (map (keyed_session p) ?days))"
    unfolding labels using calendar_days(1,2) [OF assms] by (simp_all add: sorted_filter distinct_map_filter)
  have sets: "set (map ?pick ?periods) = set (map (keyed_session p) ?days)" using selected_set [OF assms, of p] by simp
  have "map fst (map ?pick ?periods) = map fst ?periods" by auto
  then have "distinct (map fst (map ?pick ?periods))" using sessions_by_period_distinct [of "[]"] by (simp only: list.map distinct.simps)
  then have "distinct (map ?pick ?periods)" using distinct_map [of fst "map ?pick ?periods"] by blast
  moreover have inj: "inj_on ?f (set (map (keyed_session p) ?days))" using right(2) by (simp only: distinct_map)
  ultimately have left: "distinct (map ?f (sort_key ?f (map ?pick ?periods)))"
    using sets by (simp only: distinct_map set_sort distinct_sort simp_thms)
  show ?thesis
    unfolding shape
    by (rule map_sorted_distinct_set_unique [of ?f]) (use left right inj sets in \<open>simp_all only: set_sort Un_absorb sorted_sort_key\<close>)
qed

text \<open>The occurrence of a selected day.\<close>

definition event_time_of :: "rebalance_policy \<Rightarrow> trading_session \<Rightarrow> instant" where
  "event_time_of p s = (if pol_trigger p = SESSION_OPEN_BEFORE_EVENTS then session_open s else session_close s)"

definition occurrence_id :: "session_calendar \<Rightarrow> rebalance_policy \<Rightarrow> string \<Rightarrow> trading_session \<Rightarrow> string" where
  "occurrence_id c p k s = digest (PMapping
     [(''policy_fingerprint'', PStr (policy_fingerprint p)),
      (''calendar_fingerprint'', PStr (calendar_fingerprint c)),
      (''session_id'', PStr (ts_session_id s)),
      (''session_label'', PDate (ts_session_label s)),
      (''event_time'', time_py (event_time_of p s)),
      (''trigger'', trigger_py (pol_trigger p)),
      (''cadence_period'', PStr k)])"

definition occurrence_of :: "session_calendar \<Rightarrow> rebalance_policy \<Rightarrow> string \<times> trading_session \<Rightarrow> scheduled_rebalance" where
  "occurrence_of c p ks = (case ks of (k, s) \<Rightarrow>
     \<lparr>sb_occurrence_id = occurrence_id c p k s, sb_policy_fingerprint = policy_fingerprint p,
      sb_calendar_fingerprint = calendar_fingerprint c, sb_session_id = ts_session_id s,
      sb_session_label = ts_session_label s, sb_event_time = event_time_of p s, sb_trigger = pol_trigger p,
      sb_cadence_period = k, sb_misfire_policy = pol_misfire_policy p\<rparr>)"

lemma encodable_rebalance [simp]:
  "encodable (PDate n)" "encodable (trigger_py t)" "encodable (misfire_py m)" "encodable (segment_py g)"
  "encodable (session_py s)" "encodable (day_py d)"
proof -
  show date: "encodable (PDate n)" for n by (simp add: encodable_def)
  show "encodable (trigger_py t)" "encodable (misfire_py m)" by (simp_all add: trigger_py_def misfire_py_def)
  show segment: "encodable (segment_py g)" for g by (simp add: segment_py_def)
  show session: "encodable (session_py s)" for s by (simp add: session_py_def date segment list_all_iff)
  show "encodable (day_py d)" by (simp add: day_py_def date session)
qed

lemma rebalance_digests [simp]: "is_digest (policy_fingerprint p)" "is_digest (calendar_fingerprint c)"
  by (simp_all add: policy_fingerprint_def calendar_fingerprint_def is_digest_digest list_all_iff)

lemma occurrence_for_session:
  assumes "\<not> blank (ts_session_id s)" "\<not> blank k"
  shows "occurrence_for c p k s = Inr (occurrence_of c p (k, s))"
proof -
  have "is_digest (occurrence_id c p k s)" by (simp add: occurrence_id_def is_digest_digest)
  then show ?thesis
    using assms
    by (simp add: occurrence_for_def Let_def event_time_of_def [symmetric] occurrence_id_def [symmetric]
        mk_scheduled_rebalance_def raising_Inr_iff digests_clean occurrence_of_def)
qed

lemma schedule_loop_exact:
  "\<forall>(k, s) \<in> set xs. \<not> blank (ts_session_id s) \<and> \<not> blank k \<Longrightarrow>
   schedule_loop c p a b xs = Inr (map (occurrence_of c p)
     (filter (\<lambda>(k, s). a \<le> ts_session_label s \<and> ts_session_label s \<le> b) xs))"
proof (induction xs)
  case (Cons x xs)
  obtain k s where "x = (k, s)" by (cases x)
  with Cons show ?case by (cases "a \<le> ts_session_label s \<and> ts_session_label s \<le> b") (simp_all add: occurrence_for_session)
qed simp

definition schedulable :: "session_calendar \<Rightarrow> rebalance_policy \<Rightarrow> int \<Rightarrow> int \<Rightarrow> bool" where
  "schedulable c p a b \<longleftrightarrow> pol_calendar_id p = cal_calendar_id c \<and> pol_calendar_fingerprint p = calendar_fingerprint c
     \<and> cal_coverage_start c \<le> a \<and> a \<le> b \<and> b \<le> cal_coverage_end c
     \<and> period_start (cal_coverage_start c) (pol_cadence p) = cal_coverage_start c
     \<and> period_end (cal_coverage_end c) (pol_cadence p) = cal_coverage_end c"

definition scheduled_days :: "session_calendar \<Rightarrow> rebalance_policy \<Rightarrow> int \<Rightarrow> int \<Rightarrow> calendar_day list" where
  "scheduled_days c p a b = filter (\<lambda>d. chosen_day c p d \<and> a \<le> dy_label d \<and> dy_label d \<le> b) (cal_days c)"

lemma schedule_loop_selected:
  assumes "calendar_ok c"
  shows "schedule_loop c p a b (select_sessions p (sessions_by_period (pol_cadence p) (cal_days c) []))
    = Inr (map (\<lambda>d. occurrence_of c p (keyed_session p d)) (scheduled_days c p a b))"
proof -
  let ?xs = "map (keyed_session p) (filter (chosen_day c p) (cal_days c))"
  have labels: "ts_session_label (snd (keyed_session p d)) = dy_label d" "\<not> blank (ts_session_id (snd (keyed_session p d)))"
    if "d \<in> set (cal_days c)" "trading d" for d
    using calendar_days(4) [OF assms that(1)] that(2) by (auto simp: keyed_session_def trading_def session_ok_def)
  then have "\<forall>(k, s) \<in> set ?xs. \<not> blank (ts_session_id s) \<and> \<not> blank k"
    by (auto simp: keyed_session_def chosen_day_def period_key_not_blank)
  from schedule_loop_exact [OF this, of c p a b] show ?thesis
    unfolding select_sessions_exact [OF assms]
    using labels by (auto simp: scheduled_days_def filter_map o_def case_prod_beta chosen_day_def conj_commute
        intro!: arg_cong [where f = "map _"] filter_cong)
qed

lemma schedule_rebalances_answer:
  assumes "calendar_ok c"
  shows "schedule_rebalances c p a b = Inr os \<longleftrightarrow>
    schedulable c p a b \<and> os = map (\<lambda>d. occurrence_of c p (keyed_session p d)) (scheduled_days c p a b)"
  unfolding schedule_rebalances_def schedule_loop_selected [OF assms]
  by (cases "pol_cadence p = EACH_SESSION")
    (auto simp: raising_Inr_iff require_complete_calendar_period_coverage_def schedulable_def)

lemma schedule_rebalances_raises:
  assumes "calendar_ok c" "schedule_rebalances c p a b = Inl e"
  shows "\<exists>m. e = ValueError m"
  using assms(2) unfolding schedule_rebalances_def schedule_loop_selected [OF assms(1)]
  by (auto simp: raising.simps require_complete_calendar_period_coverage_def split: if_splits)

lemma period_covered:
  assumes "calendar_ok c" "schedulable c p a b" "d \<in> set (cal_days c)"
  shows "cal_coverage_start c \<le> period_start (dy_label d) (pol_cadence p) \<and> period_end (dy_label d) (pol_cadence p) \<le> cal_coverage_end c"
proof -
  let ?n = "dy_label d" and ?k = "pol_cadence p"
  have n: "py_date ?n" "cal_coverage_start c \<le> ?n" "?n \<le> cal_coverage_end c" using calendar_days(3) [OF assms(1,3)] by auto
  have ends: "py_date (cal_coverage_start c)" "py_date (cal_coverage_end c)" using assms(1) by (simp_all add: calendar_ok_def)
  note own = period_contains [OF n(1), of ?k]
  have "period_start ?n ?k = cal_coverage_start c" if "period_start ?n ?k < cal_coverage_start c"
    using same_period [OF n(1) ends(1), of ?k] period_key_interval [OF n(1) ends(1), of ?k] that own n assms(2)
    by (auto simp: schedulable_def)
  moreover have "period_end ?n ?k = cal_coverage_end c" if "cal_coverage_end c < period_end ?n ?k"
    using same_period [OF n(1) ends(2), of ?k] period_key_interval [OF n(1) ends(2), of ?k] that own n assms(2)
    by (auto simp: schedulable_def)
  ultimately show ?thesis by force
qed

lemma chosen_days_distinct_periods:
  assumes "calendar_ok c" "d \<in> set (cal_days c)" "e \<in> set (cal_days c)" "chosen_day c p d" "chosen_day c p e"
    and "calendar_period_key (dy_label d) (pol_cadence p) = calendar_period_key (dy_label e) (pol_cadence p)"
  shows "d = e"
  using chosen_day_iff [OF assms(1,2), of p] chosen_day_iff [OF assms(1,3), of p] assms(4-6) by metis

lemma period_has_chosen_day:
  assumes "calendar_ok c" "d \<in> set (cal_days c)" "trading d"
  shows "\<exists>e \<in> set (cal_days c). chosen_day c p e
    \<and> calendar_period_key (dy_label e) (pol_cadence p) = calendar_period_key (dy_label d) (pol_cadence p)"
proof -
  let ?ds = "period_days (pol_cadence p) (cal_days c) (calendar_period_key (dy_label d) (pol_cadence p))"
  define e where "e = (if takes_first p then hd else last) ?ds"
  have "d \<in> set ?ds" using assms(2,3) by (simp add: period_days_def)
  then have "?ds \<noteq> []" by auto
  then have "e \<in> set ?ds" by (simp add: e_def)
  then have e: "e \<in> set (cal_days c)" "trading e"
    "calendar_period_key (dy_label e) (pol_cadence p) = calendar_period_key (dy_label d) (pol_cadence p)"
    by (simp_all add: period_days_def)
  then have "chosen_day c p e" using chosen_day_iff [OF assms(1) e(1), of p] by (simp add: e_def)
  with e show ?thesis by blast
qed

section \<open>Event boundaries\<close>

definition apart :: "session_segment list \<Rightarrow> bool" where
  "apart gs \<longleftrightarrow> sorted_wrt (\<lambda>g h. seg_close g \<le> seg_open h) gs"

lemma not_overlapping_apart:
  "\<not> overlapping gs \<Longrightarrow> \<forall>g \<in> set gs. seg_open g < seg_close g \<Longrightarrow> apart gs"
proof (induction gs)
  case (Cons g gs)
  show ?case
  proof (cases gs)
    case Nil
    then show ?thesis by (simp add: apart_def)
  next
    case (Cons h hs)
    then have "seg_close g \<le> seg_open h" "apart gs" using Cons.IH Cons.prems by (auto simp: overlapping_def)
    with Cons Cons.prems(2) show ?thesis by (force simp: apart_def)
  qed
qed (simp add: apart_def)

lemma apart_distinct:
  assumes "apart gs" "\<forall>g \<in> set gs. seg_open g < seg_close g"
  shows "distinct (map seg_open gs)" "distinct (map seg_close gs)"
  using assms by (induction gs) (force simp: apart_def)+

lemma picked_distinct:
  "distinct (map f (concat (map g ss))) \<Longrightarrow> \<forall>s \<in> set ss. h s \<in> set (g s) \<Longrightarrow> distinct (map (\<lambda>s. f (h s)) ss)"
  by (induction ss) force+

lemma day_sessions_days: "day_sessions ds = map (\<lambda>d. the (dy_session d)) (filter trading ds)"
  by (simp add: day_sessions_def map_filter_def trading_def [abs_def] comp_def)

lemma calendar_sessions: "calendar_ok c \<Longrightarrow> s \<in> set (day_sessions (cal_days c)) \<Longrightarrow> session_ok s"
  using calendar_days(4) by (fastforce simp: day_sessions_days trading_def)

lemma event_times_distinct:
  assumes "calendar_ok c"
  shows "distinct (map (event_time_of p) (day_sessions (cal_days c)))"
proof -
  let ?ss = "day_sessions (cal_days c)"
  let ?gs = "concat (map ts_segments ?ss)"
  have pos: "\<forall>g \<in> set (sort_key seg_open ?gs). seg_open g < seg_close g"
    using calendar_sessions [OF assms] by (auto simp: session_ok_def)
  have "apart (sort_key seg_open ?gs)" using assms pos by (intro not_overlapping_apart) (simp_all add: calendar_ok_def)
  from apart_distinct [OF this pos] have times: "distinct (map seg_open ?gs)" "distinct (map seg_close ?gs)"
    by (simp_all only: distinct_map distinct_sort set_sort simp_thms)
  have "\<forall>s \<in> set ?ss. hd (ts_segments s) \<in> set (ts_segments s)" "\<forall>s \<in> set ?ss. last (ts_segments s) \<in> set (ts_segments s)"
    using calendar_sessions [OF assms] by (simp_all add: session_ok_def)
  from picked_distinct [OF times(1) this(1)] picked_distinct [OF times(2) this(2)]
  have "distinct (map session_open ?ss)" "distinct (map session_close ?ss)"
    by (simp_all add: session_open_def [abs_def] session_close_def [abs_def])
  then show ?thesis
    by (cases "pol_trigger p = SESSION_OPEN_BEFORE_EVENTS") (simp_all add: event_time_of_def [abs_def])
qed

text \<open>Calendars whose sessions follow one another in the order of their labels.\<close>

definition chronological :: "session_calendar \<Rightarrow> bool" where
  "chronological c \<longleftrightarrow> sorted_wrt (\<lambda>s t. session_close s \<le> session_open t) (day_sessions (cal_days c))"

lemma session_opens_before_closing:
  assumes "session_ok s"
  shows "session_open s < session_close s"
proof -
  obtain g gs where g: "ts_segments s = g # gs" using assms by (cases "ts_segments s") (auto simp: session_ok_def)
  have pos: "\<forall>h \<in> set (g # gs). seg_open h < seg_close h" and "apart (g # gs)"
    using assms g not_overlapping_apart [of "g # gs"] by (auto simp: session_ok_def)
  then have "\<forall>h \<in> set gs. seg_open g < seg_close h" by (force simp: apart_def)
  moreover have "last (g # gs) \<in> set (g # gs)" by (rule last_in_set) simp
  ultimately show ?thesis using pos by (auto simp: session_open_def session_close_def g)
qed

lemma chronological_sorted:
  assumes "calendar_ok c" "chronological c"
  shows "sorted (map (event_time_of p) (day_sessions (cal_days c)))"
proof -
  have "sorted_wrt (\<lambda>s t. event_time_of p s \<le> event_time_of p t) (day_sessions (cal_days c))"
    using assms(2) unfolding chronological_def
  proof (rule sorted_wrt_mono_rel [rotated])
    fix s t
    assume "s \<in> set (day_sessions (cal_days c))" "t \<in> set (day_sessions (cal_days c))" "session_close s \<le> session_open t"
    then show "event_time_of p s \<le> event_time_of p t"
      using session_opens_before_closing [OF calendar_sessions [OF assms(1)], of s]
        session_opens_before_closing [OF calendar_sessions [OF assms(1)], of t]
      by (simp add: event_time_of_def)
  qed
  then show ?thesis by (simp add: sorted_map)
qed

definition planned_occurrences ::
  "session_calendar \<Rightarrow> rebalance_policy \<Rightarrow> int \<Rightarrow> int \<Rightarrow> instant \<Rightarrow> instant \<Rightarrow> scheduled_rebalance list" where
  "planned_occurrences c p a b f t = filter (\<lambda>o'. f \<le> sb_event_time o' \<and> sb_event_time o' < t)
     (map (\<lambda>d. occurrence_of c p (keyed_session p d)) (scheduled_days c p a b))"

lemma planned_times:
  assumes "calendar_ok c"
  shows "distinct (map sb_event_time (planned_occurrences c p a b f t))"
    and "chronological c \<Longrightarrow> sorted (map sb_event_time (planned_occurrences c p a b f t))"
proof -
  let ?time = "\<lambda>d. event_time_of p (the (dy_session d))"
  have times: "map sb_event_time (map (\<lambda>d. occurrence_of c p (keyed_session p d)) (scheduled_days c p a b))
      = map ?time (scheduled_days c p a b)"
    by (simp add: occurrence_of_def keyed_session_def)
  have days: "scheduled_days c p a b = filter (\<lambda>d. chosen_day c p d \<and> a \<le> dy_label d \<and> dy_label d \<le> b) (filter trading (cal_days c))"
    by (auto simp: scheduled_days_def chosen_day_def intro: filter_cong)
  have "distinct (map ?time (filter trading (cal_days c)))"
    using event_times_distinct [OF assms, of p] by (simp add: day_sessions_days comp_def)
  then have "distinct (map ?time (scheduled_days c p a b))" unfolding days by (rule distinct_map_filter)
  then show "distinct (map sb_event_time (planned_occurrences c p a b f t))"
    unfolding planned_occurrences_def times [symmetric] by (rule distinct_map_filter)
  assume "chronological c"
  then have "sorted (map ?time (filter trading (cal_days c)))"
    using chronological_sorted [OF assms, of p] by (simp add: day_sessions_days comp_def)
  then have "sorted (map ?time (scheduled_days c p a b))" unfolding days by (rule sorted_filter)
  then show "sorted (map sb_event_time (planned_occurrences c p a b f t))"
    unfolding planned_occurrences_def times [symmetric] by (rule sorted_filter)
qed

lemma compile_planned:
  assumes "calendar_ok c" "schedulable c p a b" "f < t"
  shows "compile_rebalance_execution_plan c p a b (Aware f z) (Aware t y) =
    mk_execution_plan (policy_fingerprint p) (calendar_fingerprint c) (planned_occurrences c p a b f t)
      REBALANCE_EXECUTION_PLAN_VERSION"
proof -
  have "schedule_rebalances c p a b = Inr (map (\<lambda>d. occurrence_of c p (keyed_session p d)) (scheduled_days c p a b))"
    using schedule_rebalances_answer [OF assms(1)] assms(2) by blast
  then show ?thesis
    using assms(3) by (simp add: compile_rebalance_execution_plan_def schedule_rebalances_for_interval_def raising.simps
        planned_occurrences_def)
qed

lemma raising_clean_digest: "is_digest d \<Longrightarrow> raising (digest_checks d f) k = k"
  by (simp add: digest_checks_def is_digest_def raising.simps)

lemma sort_key_fixed_iff: "sort_key f xs = xs \<longleftrightarrow> sorted (map f xs)"
  by (metis sort_key_id_if_sorted sorted_sort_key)

text \<open>An occurrence fires at the session of a day whose period the calendar covers.\<close>

definition fires_on :: "session_calendar \<Rightarrow> rebalance_policy \<Rightarrow> calendar_day \<Rightarrow> scheduled_rebalance \<Rightarrow> bool" where
  "fires_on c p d x \<longleftrightarrow> (\<exists>s. dy_session d = Some s \<and> sb_session_id x = ts_session_id s \<and> sb_event_time x = event_time_of p s)
     \<and> sb_session_label x = dy_label d
     \<and> cal_coverage_start c \<le> period_start (dy_label d) (pol_cadence p)
     \<and> period_end (dy_label d) (pol_cadence p) \<le> cal_coverage_end c"

lemma scheduled_occurrences:
  assumes "calendar_ok c" "schedulable c p a b" "os = map (\<lambda>d. occurrence_of c p (keyed_session p d)) (scheduled_days c p a b)"
  shows "list_all2 (fires_on c p) (scheduled_days c p a b) os" "distinct (map sb_cadence_period os)"
proof -
  have day: "d \<in> set (cal_days c) \<and> chosen_day c p d \<and> trading d" if "d \<in> set (scheduled_days c p a b)" for d
    using that by (auto simp: scheduled_days_def chosen_day_def)
  have "fires_on c p d (occurrence_of c p (keyed_session p d))" if "d \<in> set (scheduled_days c p a b)" for d
    using day [OF that] calendar_days(4) [OF assms(1), of d] period_covered [OF assms(1,2), of d]
    by (auto simp: fires_on_def occurrence_of_def keyed_session_def trading_def)
  then show "list_all2 (fires_on c p) (scheduled_days c p a b) os" by (simp add: assms(3) list_all2_map2 list.rel_refl_strong)
  have "distinct (cal_days c)" using calendar_days(2) [OF assms(1)] by (simp add: distinct_map)
  moreover have "inj_on (\<lambda>d. calendar_period_key (dy_label d) (pol_cadence p)) (set (scheduled_days c p a b))"
    using chosen_days_distinct_periods [OF assms(1)] day by (auto intro!: inj_onI)
  ultimately show "distinct (map sb_cadence_period os)"
    by (simp add: assms(3) distinct_map occurrence_of_def keyed_session_def scheduled_days_def comp_def)
qed

section \<open>Properties\<close>

text \<open>C28: period keys name intervals of dates. Two dates have the same key, for the ISO week, month, quarter, year or
  session cadence, exactly when one lies between the first and last date the code computes for the period
  of the other; in particular every date lies in its own period, also in an ISO week that spans two years.\<close>

theorem period_key_exact:
  assumes "py_date a" "py_date b"
  shows "(calendar_period_key a c = calendar_period_key b c \<longleftrightarrow> period_start a c \<le> b \<and> b \<le> period_end a c)
    \<and> period_start a c \<le> a \<and> a \<le> period_end a c
    \<and> (calendar_period_key a c = calendar_period_key b c \<longrightarrow>
         period_start a c = period_start b c \<and> period_end a c = period_end b c)"
  using period_key_interval [OF assms] period_contains [OF assms(1)] same_period [OF assms] by simp

theorem period_key_exact_witness:
  "py_date 737790 \<and> py_date 737795
   \<and> (calendar_period_key 737790 ISO_WEEKLY = calendar_period_key 737795 ISO_WEEKLY
        \<longleftrightarrow> period_start 737790 ISO_WEEKLY \<le> 737795 \<and> 737795 \<le> period_end 737790 ISO_WEEKLY)"
  using period_key_exact [of 737790 737795 ISO_WEEKLY] by (simp add: py_date_def)

text \<open>C27: a rebalance schedule is exact. On a valid calendar the schedule is answered exactly when the policy names
  this calendar, the range is covered and the coverage consists of whole periods, and raises a ValueError
  otherwise. The answer has one occurrence, in the order of the labels, for every day of the range that is
  the first (or last) trading day of its period, at the open or close of its session; every period that has
  a trading day has one such day, occurrences belong to different periods, and no part of their periods is
  outside the calendar, so no session can be missed.\<close>

theorem rebalance_schedule_exact:
  assumes "calendar_ok c"
  shows "(case schedule_rebalances c p a b of
       Inr os \<Rightarrow> schedulable c p a b \<and> distinct (map sb_cadence_period os)
         \<and> list_all2 (fires_on c p) (filter (\<lambda>d. chosen_day c p d \<and> a \<le> dy_label d \<and> dy_label d \<le> b) (cal_days c)) os
     | Inl e \<Rightarrow> \<not> schedulable c p a b \<and> (\<exists>m. e = ValueError m))
    \<and> (\<forall>d \<in> set (cal_days c). trading d \<longrightarrow> (\<exists>e \<in> set (cal_days c). chosen_day c p e
         \<and> period_start (dy_label d) (pol_cadence p) \<le> dy_label e \<and> dy_label e \<le> period_end (dy_label d) (pol_cadence p)))"
proof (intro conjI ballI impI)
  fix d
  assume d: "d \<in> set (cal_days c)" "trading d"
  obtain e where e: "e \<in> set (cal_days c)" "chosen_day c p e"
    "calendar_period_key (dy_label d) (pol_cadence p) = calendar_period_key (dy_label e) (pol_cadence p)"
    using period_has_chosen_day [OF assms d] by metis
  with period_key_interval [of "dy_label d" "dy_label e" "pol_cadence p"] calendar_days(3) [OF assms] d(1)
  show "\<exists>e \<in> set (cal_days c). chosen_day c p e
      \<and> period_start (dy_label d) (pol_cadence p) \<le> dy_label e \<and> dy_label e \<le> period_end (dy_label d) (pol_cadence p)"
    by blast
next
  show "case schedule_rebalances c p a b of
       Inr os \<Rightarrow> schedulable c p a b \<and> distinct (map sb_cadence_period os)
         \<and> list_all2 (fires_on c p) (filter (\<lambda>d. chosen_day c p d \<and> a \<le> dy_label d \<and> dy_label d \<le> b) (cal_days c)) os
     | Inl e \<Rightarrow> \<not> schedulable c p a b \<and> (\<exists>m. e = ValueError m)"
  proof (cases "schedule_rebalances c p a b")
    case (Inl e)
    then have "\<not> schedulable c p a b" using schedule_rebalances_answer [OF assms, of p a b] by auto
    with Inl schedule_rebalances_raises [OF assms Inl] show ?thesis by simp
  next
    case (Inr os)
    with schedule_rebalances_answer [OF assms, of p a b] have "schedulable c p a b"
      "os = map (\<lambda>d. occurrence_of c p (keyed_session p d)) (scheduled_days c p a b)" by auto
    with scheduled_occurrences [OF assms this] Inr show ?thesis by (simp add: scheduled_days_def)
  qed
qed

definition sample_session :: "int \<Rightarrow> trading_session" where
  "sample_session n = \<lparr>ts_session_id = CHR ''s'' # padded 6 n, ts_session_label = n,
     ts_segments = [\<lparr>seg_open = 10 * n, seg_close = 10 * n + 3\<rparr>, \<lparr>seg_open = 10 * n + 4, seg_close = 10 * n + 7\<rparr>]\<rparr>"

definition sample_day :: "int \<Rightarrow> calendar_day" where
  "sample_day n = (if n \<in> {737788, 737790} then \<lparr>dy_label = n, dy_status = Day_TRADING, dy_session = Some (sample_session n)\<rparr>
     else \<lparr>dy_label = n, dy_status = Day_CLOSED, dy_session = None\<rparr>)"

definition sample_calendar :: session_calendar where
  "sample_calendar = \<lparr>cal_calendar_id = ''XNYS'', cal_definition_version = ''v1'', cal_timezone_name = ''America/New_York'',
     cal_timezone_database_version = ''2024a'', cal_coverage_start = 737787, cal_coverage_end = 737793,
     cal_days = map sample_day [737787, 737788, 737789, 737790, 737791, 737792, 737793],
     cal_source_evidence_digest = digest_text ''calendar''\<rparr>"

definition sample_policy :: rebalance_policy where
  "sample_policy = \<lparr>pol_calendar_id = ''XNYS'', pol_calendar_fingerprint = calendar_fingerprint sample_calendar,
     pol_cadence = ISO_WEEKLY, pol_trigger = SESSION_OPEN_BEFORE_EVENTS, pol_selection = LAST_SESSION,
     pol_misfire_policy = FAIL_RUN, pol_definition_version = ''v1''\<rparr>"

lemma sample_sessions: "day_sessions (cal_days sample_calendar) = [sample_session 737788, sample_session 737790]"
  by (simp add: sample_calendar_def sample_day_def day_sessions_days trading_def)

lemma sample_session_ok: "session_ok (sample_session n)"
  by (simp add: sample_session_def session_ok_def overlapping_def blank_iff py_space_def)

lemma sample_calendar_ok: "calendar_ok sample_calendar"
proof -
  have "map dy_label (cal_days sample_calendar) = [737787..737793]" by (simp add: sample_calendar_def sample_day_def)
  moreover have "distinct (map ts_session_id (day_sessions (cal_days sample_calendar)))"
    by (simp add: sample_sessions sample_session_def padded_inject)
  moreover have "\<not> overlapping (sort_key seg_open (concat (map ts_segments (day_sessions (cal_days sample_calendar)))))"
    by (simp add: sample_sessions sample_session_def overlapping_def)
  moreover have "\<forall>d \<in> set (cal_days sample_calendar). day_ok d"
    using sample_session_ok by (simp add: sample_calendar_def sample_day_def day_ok_def) (simp add: sample_session_def)
  ultimately show ?thesis by (simp add: calendar_ok_def) (simp add: sample_calendar_def py_date_def)
qed

lemma sample_schedulable: "schedulable sample_calendar sample_policy 737787 737793"
  by (simp add: schedulable_def sample_policy_def) (simp add: sample_calendar_def isoweekday_def)

theorem rebalance_schedule_exact_witness:
  "calendar_ok sample_calendar \<and> schedulable sample_calendar sample_policy 737787 737793
   \<and> (\<exists>os. schedule_rebalances sample_calendar sample_policy 737787 737793 = Inr os \<and> distinct (map sb_cadence_period os))"
  using rebalance_schedule_exact [OF sample_calendar_ok, of sample_policy 737787 737793] sample_schedulable sample_calendar_ok
  by (auto split: sum.splits)

text \<open>A rebalance plan freezes exactly the occurrences of the trial interval. For a valid calendar and a
  schedulable range, compilation answers with the occurrences in the half-open interval; no two of them share
  an event boundary, so that check never fails; it refuses only occurrences that are not in the order of
  their event times, which a calendar whose sessions follow one another in label order never produces, or
  occurrence identities that collide.\<close>

theorem rebalance_plan_exact:
  assumes "calendar_ok c" "schedulable c p a b" "f < t"
  shows "distinct (map sb_event_time (planned_occurrences c p a b f t))
    \<and> (chronological c \<longrightarrow> sorted (map sb_event_time (planned_occurrences c p a b f t)))
    \<and> compile_rebalance_execution_plan c p a b (Aware f z) (Aware t y) =
        (if \<not> sorted (map sb_event_time (planned_occurrences c p a b f t))
         then Inl (ValueError ''rebalance occurrences must be ordered by event time'')
         else if \<not> distinct (map sb_occurrence_id (planned_occurrences c p a b f t))
         then Inl (ValueError ''rebalance occurrence ids must be unique'')
         else Inr \<lparr>pl_policy_fingerprint = policy_fingerprint p, pl_calendar_fingerprint = calendar_fingerprint c,
                   pl_occurrences = planned_occurrences c p a b f t,
                   pl_definition_version = REBALANCE_EXECUTION_PLAN_VERSION\<rparr>)"
proof -
  have "\<not> list_ex (\<lambda>o'. sb_policy_fingerprint o' \<noteq> policy_fingerprint p \<or> sb_calendar_fingerprint o' \<noteq> calendar_fingerprint c)
      (planned_occurrences c p a b f t)"
    by (auto simp: list_ex_iff planned_occurrences_def occurrence_of_def keyed_session_def)
  then show ?thesis
    using planned_times [OF assms(1), of p a b f t] compile_planned [OF assms, of z y]
    by (simp add: mk_execution_plan_def raising_append sort_key_fixed_iff raising_clean_digest raising.simps cong: if_cong)
qed

theorem rebalance_plan_exact_witness:
  "calendar_ok sample_calendar \<and> schedulable sample_calendar sample_policy 737787 737793 \<and> chronological sample_calendar
   \<and> sorted (map sb_event_time (planned_occurrences sample_calendar sample_policy 737787 737793 0 9999999))"
proof -
  have "chronological sample_calendar"
    by (simp add: chronological_def sample_sessions sample_session_def session_open_def session_close_def)
  with rebalance_plan_exact [OF sample_calendar_ok sample_schedulable, of 0 9999999] sample_calendar_ok sample_schedulable
  show ?thesis by simp
qed

end
