(* ===== verification/Spec2Isabelle.thy ===== *)
theory Spec2Isabelle
  imports Forward_Event_Dispatch Execution_Event_Transaction Submission_Dispatch Search_Dispatch Commands
    Execution_Terminal Worker_Settlement Artifact_Retention Coverage Event_Tape Rebalance
begin

text \<open>
  \<^bold>\<open>Strategy Lab v2: the storage-neutral control plane.\<close>

  The charting platform runs trading-strategy backtests and forward (paper) sessions through the
  package \<open>src/backend/app/strategy_lab_v2\<close>. Its core is a set of pure modules: frozen dataclasses
  that check themselves on construction, and functions that take a state and a request and return a
  new state, an explicit decision, or raise. Storage, queues and the simulation engine are adapters
  around them. This development models that core.

  \<^bold>\<open>How the code is rendered.\<close> (theory Prelude)
  A dataclass is a \<open>record\<close> and its \<open>__post_init__\<close> a constructor function \<open>mk_...\<close> returning a result;
  an enumeration is a \<open>datatype\<close>; a raise is a value on the left, \<open>Inl (ValueError message)\<close> for instance;
  the guards of a function are a list in source order (\<open>raising\<close>); \<open>dataclasses.replace\<close> re-runs the constructor
  (\<open>..._remake\<close>); a datetime argument is naive or aware and is normalised to an instant in microseconds.
  Nothing is shared or mutated in the source, so states are passed explicitly; a caller whose request
  raises keeps its state, and \<open>serve step requests state\<close> is the state after any sequence of requests.

  \<^bold>\<open>Interfaces.\<close>
  \<^item> \<open>guarded_machine\<close> (Prelude): an invariant and a preorder that every step keeps. Interpreted on attempts
    and leases (Lifecycle), checkpoints (Forward_State), live admission (Forward_Admission) and event
    transactions (Forward_Event_Transaction), lease streams, the outbox, journal and outbox together
    (Audit_Outbox), progress, outcomes, worker pools, runtimes, searches, the admission ledger with its
    worker pool (Execution_Admission), receipts with their dispatches (Submission_Dispatch), the three stores of
    an execution event (Execution_Event_Transaction) and retention states (Artifact_Retention).
  \<^item> \<open>validated\<close> (Contracts): re-running a constructor accepts exactly the valid values and returns them.
  \<^item> \<open>append_log\<close> (Append_Log), a sublocale of \<open>guarded_machine\<close>: streams that only grow, numbered from one.
    Interpreted on execution events, audit journals and lease observations.
  \<^item> \<open>keyed_resolution\<close> (Idempotency): one answer per idempotency key. Interpreted on dispatch and submissions.

  \<^bold>\<open>Theories and the modules they model.\<close>
  \<^item> Sha256, Canonical, Canonical_Text: \<open>canonical.py\<close>. SHA-256 on 32-bit words, the tagged canonical form (floats as their 64 bits), its
    JSON text, content digests and the digest check. Canonical text determines the value, digests do not
    depend on the order of sets and mappings.
  \<^item> Contracts, Lifecycle: \<open>RunAttempt\<close> and \<open>ForwardInstance\<close> of \<open>contracts.py\<close>, and \<open>lifecycle.py\<close>: attempt and
    forward transitions, retries, worker leases, classification of forward events.
  \<^item> Forward_State, Forward_Warmup, Forward_Admission, Forward_Corrections: the modules of the same names.
    Checkpoints and their deltas, the warm-up receipt, admission of live events, counterfactual corrections.
  \<^item> Execution_Events, Audit_Journal, Lease_Observations: \<open>events.py\<close>, \<open>audit.py\<close>, \<open>lease_observations.py\<close>.
  \<^item> Dispatch, Submissions, Outbox, Commands: idempotent resolution of requests and the transactional outbox.
  \<^item> Progress, Outcomes: monotone progress and the outcome state machine of an execution.
  \<^item> Recovery: \<open>recovery.py\<close>, bounded retries; termination of recovery and the bounds of the backoff.
  \<^item> Workers: \<open>workers.py\<close>, the serial reservation pool, shown to refine a single slot, and the ranking of pools.
  \<^item> Search_State: \<open>search_state.py\<close>, the candidate queue of a search.
  \<^item> Capabilities, Execution_Capabilities: \<open>capabilities.py\<close> and \<open>execution_capabilities.py\<close>, what the data and the
    engine of a run must support: the choice of a cell for every requirement, declared degradations and the
    fail-closed decision.
  \<^item> Data_Snapshots: the frozen series and snapshots of \<open>contracts.py\<close>, accepted when they cover the history a preflight
    asks for exactly once.
  \<^item> Coverage: \<open>coverage.py\<close> and \<open>snapshot_coverage.py\<close>, the attestations of a provider against the series of a snapshot.
  \<^item> Event_Tape: \<open>event_tape.py\<close>, with the market events and data dependencies of \<open>sdk.py\<close> and \<open>freeze_json\<close> of \<open>canonical.py\<close>.
    The ordered tape of events, its batches and slices, and its binding to a snapshot and a manifest.
  \<^item> Civil_Dates, Rebalance: \<open>rebalance.py\<close> over the interpreter's calendar functions: venue calendars, the periods of
    a cadence and the schedule of portfolio rebalances. Dates are ordinals; years, months and ISO weeks are
    shown to cut them into intervals.
  \<^item> Artifact_Retention: \<open>artifact_retention.py\<close>, pins of an artifact and the retention decision.

  The compositions, where the components above meet:
  \<^item> Forward_Event_Transaction: \<open>forward_event_transaction.py\<close>, one live event with its correction plan.
  \<^item> Forward_Event_Dispatch: \<open>forward_event_dispatch.py\<close>, that transaction with the message for its work.
  \<^item> Audit_Outbox: \<open>audit_outbox.py\<close>, a journal entry with its outbox message.
  \<^item> Execution_Event_Transaction: \<open>execution_event_transaction.py\<close>, an execution event with both of them.
  \<^item> Submission_Dispatch: \<open>submission_dispatch.py\<close>, a submission receipt with its dispatch request.
  \<^item> Runtime_Isolation, Runtime_Execution: \<open>runtime.py\<close> and \<open>runtime_execution.py\<close>, the sandbox preflight and the
    receipts of a running strategy process.
  \<^item> Execution_Admission: \<open>execution.py\<close> and \<open>admission.py\<close>, from a running attempt through authorization and
    preflight to one reservation of a worker.
  \<^item> Search_Dispatch: \<open>search_dispatch.py\<close>, a search candidate started, admitted and dispatched at once.
  \<^item> Execution_Terminal: \<open>execution_terminal.py\<close>, a finished runtime projected onto outcome and progress.
  \<^item> Worker_Recovery: \<open>worker_recovery.py\<close>, release, closed lease, retry plan and receipt as one decision, and
    its resumption after a crash between the writes.
  \<^item> Worker_Settlement: \<open>worker_settlement.py\<close>, the ordinary end of an admitted execution: release, closed lease and
    receipt as one decision.

  \<^bold>\<open>What the lemmas show.\<close> For each module: its constructors establish an invariant, every operation keeps
  it and moves the state forward, and every operation answers exactly as stated on each branch, errors
  included. Repeated requests replay. The remaining properties record where the code does not
  enforce an order or a check that its other parts rely on.

  \<^bold>\<open>Bounds and fuel.\<close> No definition uses fuel: every loop of the modelled code is structural or has a
  measure. Python integers are unbounded and are modelled as \<open>int\<close>; only SHA-256 uses machine words.
  Content digests are computed by the modelled SHA-256; where a property speaks of equal content it is
  stated over fingerprints, since no collision freedom is assumed.

  \<^bold>\<open>Parameters.\<close> The host time zone (a function from a naive reading to an instant), the host name and the process
  environment are arguments, and so is the interpreter's ISO 8601 reader (\<open>fromisoformat\<close>); the API error an outcome carries is a type parameter. A result manifest and a
  scientific trial are known here by the attributes the modelled code reads of them (\<open>result_ref\<close>, \<open>trial_ref\<close>), and so is the
  evidence of a worker execution (\<open>worker_execution\<close>) and the manifest of a strategy (\<open>sdk_manifest\<close>).

  \<^bold>\<open>Not modelled.\<close> The checks \<open>isinstance\<close> (discharged by typing), the overflow of datetimes outside years 1 to
  9999, characters above U+00FF; the PostgreSQL and engine adapters, HTTP routing, the portfolio, metric and
  inference modules, whose work is decimal arithmetic or I/O. Outside the package: the data providers and
  platform services, configuration, migrations and the user interface.
\<close>

end
